(* ===== verification/Prelude.thy ===== *)
theory Prelude
  imports Main "HOL-Library.Word"
begin

text \<open>
  What every component of the development shares: the error codes of the C library that the
  code returns, the file store that stands for the files and sysfs nodes the services read and
  write, the trace of \<open>ioctl\<close> requests sent to a driver, and the lemma collections and
  generic list lemmas the component theories use.

  A file store maps a path to its content (\<open>None\<close>: the file cannot be opened for
  reading); \<open>write_fails\<close> says which paths refuse a write. A node of sysfs is treated as
  a file that reads back what was last written.
\<close>

named_theorems hal_defs \<open>small definitions that proofs unfold freely\<close>
named_theorems inv_intros \<open>operations preserve the invariant of their component\<close>

section \<open>Error codes\<close>

definition EINTR :: int where "EINTR = 4"
definition EIO :: int where "EIO = 5"
definition EINVAL :: int where "EINVAL = 22"

lemmas errno_defs = EINTR_def EIO_def EINVAL_def

declare errno_defs [hal_defs]

section \<open>The file store\<close>

type_synonym path = string

record fsys =
  content :: "path \<Rightarrow> string option"
  write_fails :: "path \<Rightarrow> bool"

definition read_file :: "fsys \<Rightarrow> path \<Rightarrow> string option" where
  "read_file fs p = content fs p"

definition write_file :: "fsys \<Rightarrow> path \<Rightarrow> string \<Rightarrow> bool \<times> fsys" where
  "write_file fs p s =
     (if write_fails fs p then (False, fs)
      else (True, fs\<lparr>content := (content fs)(p := Some s)\<rparr>))"

text \<open>
  The interface a client of a store relies on: reading back what a successful write stored,
  leaving the other paths alone, and changing nothing when the write is refused.
\<close>

locale file_store =
  fixes rd :: "'fs \<Rightarrow> path \<Rightarrow> string option"
    and wr :: "'fs \<Rightarrow> path \<Rightarrow> string \<Rightarrow> bool \<times> 'fs"
    and refuses :: "'fs \<Rightarrow> path \<Rightarrow> bool"
  assumes wr_ok: "fst (wr fs p s) \<longleftrightarrow> \<not> refuses fs p"
    and rd_wr_same: "\<not> refuses fs p \<Longrightarrow> rd (snd (wr fs p s)) p = Some s"
    and rd_wr_other: "q \<noteq> p \<Longrightarrow> rd (snd (wr fs p s)) q = rd fs q"
    and wr_refused: "refuses fs p \<Longrightarrow> snd (wr fs p s) = fs"
    and refuses_wr: "refuses (snd (wr fs p s)) q = refuses fs q"
begin

lemma rd_wr_cases:
  "rd (snd (wr fs p s)) q =
     (if q = p \<and> \<not> refuses fs p then Some s else rd fs q)"
  by (cases "refuses fs p") (auto simp: rd_wr_same rd_wr_other wr_refused)

lemma rd_two_writes:
  assumes "p \<noteq> q" and "\<not> refuses fs p" and "\<not> refuses fs q"
  shows "rd (snd (wr (snd (wr fs p s)) q t)) p = Some s"
    and "rd (snd (wr (snd (wr fs p s)) q t)) q = Some t"
  using assms by (auto simp: rd_wr_cases refuses_wr)

end

interpretation fstore: file_store read_file write_file write_fails
  by unfold_locales (auto simp: read_file_def write_file_def)

lemmas fstore_simps = fstore.rd_wr_cases fstore.refuses_wr fstore.wr_ok

section \<open>Requests to a driver\<close>

text \<open>
  A driver answers an \<open>ioctl\<close> with an integer, negative on failure. What it answers may
  depend on every request it has seen, so a driver is a function of the trace of earlier
  requests (oldest first) and the new one.
\<close>

type_synonym 'req driver = "'req list \<Rightarrow> 'req \<Rightarrow> int"

section \<open>List lemmas\<close>

lemma fold_upt_Suc: "fold f [0..<Suc n] s = f n (fold f [0..<n] s)"
  by simp

lemma ex_less_Suc_iff: "(\<exists>i<Suc n. P i) \<longleftrightarrow> (\<exists>i<n. P i) \<or> P n"
  by (auto simp: less_Suc_eq)

lemma list_update_same_drop_take:
  "i < length xs \<Longrightarrow> xs[i := x] = take i xs @ x # drop (Suc i) xs"
  by (rule upd_conv_take_nth_drop)

lemma nth_append_drop:
  "length vs \<le> length old \<Longrightarrow> length (vs @ drop (length vs) old) = length old"
  by simp

end
