(* ===== verification/C_Text.thy ===== *)
theory C_Text
  imports Prelude
begin

text \<open>
  The part of \<open>sscanf\<close> and \<open>snprintf\<close> that the services use: the decimal
  conversion \<open>%d\<close>, on texts as lists of characters. Numbers are unbounded here: a
  text whose number does not fit an \<open>int\<close> is undefined behaviour in C and outside
  the model. The main result is the round trip of a blank separated list of numbers.
\<close>

section \<open>Characters\<close>

definition is_space :: "char \<Rightarrow> bool" where
  "is_space c \<longleftrightarrow> c \<in> {CHR '' '', CHR 0x09, CHR 0x0A, CHR 0x0B, CHR 0x0C, CHR 0x0D}"

definition is_digit :: "char \<Rightarrow> bool" where
  "is_digit c \<longleftrightarrow> 48 \<le> (of_char c :: nat) \<and> (of_char c :: nat) \<le> 57"

definition digit_val :: "char \<Rightarrow> nat" where
  "digit_val c = of_char c - 48"

definition digit_char :: "nat \<Rightarrow> char" where
  "digit_char d = char_of (48 + d)"

lemma of_digit_char [simp]: "d < 10 \<Longrightarrow> (of_char (digit_char d) :: nat) = 48 + d"
  by (simp add: digit_char_def)

lemma is_digit_digit_char [simp]: "d < 10 \<Longrightarrow> is_digit (digit_char d)"
  by (simp add: is_digit_def)

lemma digit_val_digit_char [simp]: "d < 10 \<Longrightarrow> digit_val (digit_char d) = d"
  by (simp add: digit_val_def)

lemma is_digit_not_space: "is_digit c \<Longrightarrow> \<not> is_space c"
  by (auto simp: is_digit_def is_space_def)

lemma is_digit_not_sign: "is_digit c \<Longrightarrow> c \<noteq> CHR ''-'' \<and> c \<noteq> CHR ''+''"
  by (auto simp: is_digit_def)

section \<open>Printing\<close>

fun show_nat :: "nat \<Rightarrow> string" where
  "show_nat n = (if n < 10 then [digit_char n] else show_nat (n div 10) @ [digit_char (n mod 10)])"

declare show_nat.simps [simp del]

definition show_int :: "int \<Rightarrow> string" where
  "show_int i = (if i < 0 then CHR ''-'' # show_nat (nat (- i)) else show_nat (nat i))"

fun show_ints :: "int list \<Rightarrow> string" where
  "show_ints [] = ''''"
| "show_ints [x] = show_int x"
| "show_ints (x # xs) = show_int x @ CHR '' '' # show_ints xs"

section \<open>Scanning\<close>

fun nat_of_digits :: "nat \<Rightarrow> string \<Rightarrow> nat" where
  "nat_of_digits acc [] = acc"
| "nat_of_digits acc (c # cs) = nat_of_digits (10 * acc + digit_val c) cs"

text \<open>\<open>%d\<close>: skip blanks, an optional sign, at least one digit. \<open>None\<close> is a
  conversion that fails; the rest is the text after the conversion.\<close>

definition scan_unsigned :: "string \<Rightarrow> (nat \<times> string) option" where
  "scan_unsigned s =
     (let ds = takeWhile is_digit s
      in if ds = [] then None else Some (nat_of_digits 0 ds, dropWhile is_digit s))"

definition scan_int :: "string \<Rightarrow> (int \<times> string) option" where
  "scan_int s =
     (case dropWhile is_space s of
        [] \<Rightarrow> None
      | c # cs \<Rightarrow>
          if c = CHR ''-'' then map_option (\<lambda>(n, r). (- int n, r)) (scan_unsigned cs)
          else if c = CHR ''+'' then map_option (\<lambda>(n, r). (int n, r)) (scan_unsigned cs)
          else map_option (\<lambda>(n, r). (int n, r)) (scan_unsigned (c # cs)))"

text \<open>A format of \<open>n\<close> conversions \<open>%d\<close> separated by blanks: the values converted
  before the first one that fails.\<close>

fun scan_ints :: "nat \<Rightarrow> string \<Rightarrow> int list" where
  "scan_ints 0 s = []"
| "scan_ints (Suc n) s = (case scan_int s of None \<Rightarrow> [] | Some (i, r) \<Rightarrow> i # scan_ints n r)"

lemma length_scan_ints: "length (scan_ints n s) \<le> n"
  by (induction n s rule: scan_ints.induct) (auto split: option.splits)

section \<open>Round trip\<close>

lemma show_nat_digits: "\<forall>c \<in> set (show_nat n). is_digit c"
proof (induction n rule: show_nat.induct)
  case (1 n)
  show ?case
    by (subst show_nat.simps) (use 1 in auto)
qed

lemma show_nat_nonempty: "show_nat n \<noteq> []"
  by (subst show_nat.simps) simp

lemma nat_of_digits_append:
  "nat_of_digits acc (xs @ [c]) = 10 * nat_of_digits acc xs + digit_val c"
  by (induction xs arbitrary: acc) auto

lemma nat_of_digits_show: "nat_of_digits 0 (show_nat n) = n"
proof (induction n rule: show_nat.induct)
  case (1 n)
  show ?case
    by (subst show_nat.simps) (use 1 in \<open>auto simp: nat_of_digits_append\<close>)
qed

definition ends_number :: "string \<Rightarrow> bool" where
  "ends_number r \<longleftrightarrow> (case r of [] \<Rightarrow> True | c # _ \<Rightarrow> \<not> is_digit c)"

lemma scan_unsigned_show:
  assumes "ends_number r"
  shows "scan_unsigned (show_nat n @ r) = Some (n, r)"
proof -
  have all: "\<forall>c \<in> set (show_nat n). is_digit c" by (rule show_nat_digits)
  have stop: "takeWhile is_digit r = []" "dropWhile is_digit r = r"
    using assms by (auto simp: ends_number_def split: list.splits)
  have "takeWhile is_digit (show_nat n @ r) = show_nat n"
    and "dropWhile is_digit (show_nat n @ r) = r"
    using all stop by (simp_all add: takeWhile_append2 dropWhile_append2)
  then show ?thesis
    by (simp add: scan_unsigned_def show_nat_nonempty nat_of_digits_show)
qed

lemma scan_int_blank [simp]: "scan_int (CHR '' '' # s) = scan_int s"
  by (simp add: scan_int_def is_space_def)

lemma scan_int_show:
  assumes "ends_number r"
  shows "scan_int (show_int i @ r) = Some (i, r)"
proof (cases "i < 0")
  case True
  then show ?thesis
    by (simp add: scan_int_def show_int_def is_space_def scan_unsigned_show [OF assms])
next
  case False
  obtain c cs where cs: "show_nat (nat i) = c # cs"
    using show_nat_nonempty by (meson neq_Nil_conv)
  have c: "is_digit c"
    using show_nat_digits [of "nat i"] cs by simp
  have "scan_unsigned (c # cs @ r) = Some (nat i, r)"
    using scan_unsigned_show [OF assms, of "nat i"] cs by simp
  with False c cs show ?thesis
    by (simp add: scan_int_def show_int_def is_digit_not_space is_digit_not_sign)
qed

lemma scan_ints_show: "scan_ints (length xs) (show_ints xs) = xs"
proof (induction xs rule: show_ints.induct)
  case 1
  show ?case by simp
next
  case (2 x)
  show ?case
    using scan_int_show [of "[]" x] by (simp add: ends_number_def)
next
  case (3 x y ys)
  have "ends_number (CHR '' '' # show_ints (y # ys))"
    by (simp add: ends_number_def is_digit_def)
  moreover have "scan_ints (length (y # ys)) (CHR '' '' # s) = scan_ints (length (y # ys)) s" for s
    by simp
  ultimately show ?case
    using "3.IH" scan_int_show [of "CHR '' '' # show_ints (y # ys)" x] by simp
qed

section \<open>Texts without outer blanks\<close>

definition no_outer_space :: "string \<Rightarrow> bool" where
  "no_outer_space s \<longleftrightarrow> s = [] \<or> (\<not> is_space (hd s) \<and> \<not> is_space (last s))"

text \<open>What the services rely on of a trimming function: a text with no outer blank is
  returned as it is. \<open>trim_text\<close> is such a function.\<close>

definition trims :: "(string \<Rightarrow> string) \<Rightarrow> bool" where
  "trims trim \<longleftrightarrow> (\<forall>s. no_outer_space s \<longrightarrow> trim s = s)"

definition trim_text :: "string \<Rightarrow> string" where
  "trim_text s = rev (dropWhile is_space (rev (dropWhile is_space s)))"

lemma trims_trim_text: "trims trim_text"
proof -
  have "trim_text s = s" if "no_outer_space s" for s
  proof (cases "s = []")
    case True
    then show ?thesis by (simp add: trim_text_def)
  next
    case False
    then have h: "\<not> is_space (hd s)" and l: "\<not> is_space (hd (rev s))"
      using that by (auto simp: no_outer_space_def hd_rev)
    have "dropWhile is_space s = s"
      using False h by (cases s) auto
    moreover have "dropWhile is_space (rev s) = rev s"
      using False l by (cases "rev s") auto
    ultimately show ?thesis by (simp add: trim_text_def)
  qed
  then show ?thesis by (simp add: trims_def)
qed

lemma show_int_nonempty: "show_int i \<noteq> []"
  by (simp add: show_int_def show_nat_nonempty)

lemma show_int_chars: "c \<in> set (show_int i) \<Longrightarrow> \<not> is_space c"
  using show_nat_digits [of "nat i"] show_nat_digits [of "nat (- i)"]
  by (auto simp: show_int_def split: if_splits dest: is_digit_not_space)
    (simp add: is_space_def)

lemma show_int_ends:
  "\<not> is_space (hd (show_int i))" "\<not> is_space (last (show_int i))"
  using show_int_nonempty [of i] show_int_chars by (metis hd_in_set, metis last_in_set)

lemma show_ints_nonempty: "xs \<noteq> [] \<Longrightarrow> show_ints xs \<noteq> []"
  by (induction xs rule: show_ints.induct) (auto simp: show_int_nonempty)

lemma show_int_no_outer_space: "no_outer_space (show_int i)"
  by (simp add: no_outer_space_def show_int_ends)

lemma show_ints_no_outer_space: "no_outer_space (show_ints xs)"
proof (induction xs rule: show_ints.induct)
  case (3 x y ys)
  have ne: "show_ints (y # ys) \<noteq> []" by (rule show_ints_nonempty) simp
  with "3.IH" show ?case
    by (auto simp: no_outer_space_def show_int_nonempty show_int_ends)
qed (auto simp: no_outer_space_def show_int_no_outer_space [unfolded no_outer_space_def])

lemma trim_show:
  assumes "trims trim"
  shows "trim (show_int i) = show_int i" and "trim (show_ints xs) = show_ints xs"
  using assms by (auto simp: trims_def show_int_no_outer_space show_ints_no_outer_space)

end
