(* ===== verification/Battery_Health.thy ===== *)
theory Battery_Health
  imports C_Text
begin

text \<open>
  The health service (\<open>health/*.cpp\<close>): two battery quantities that the fuel gauge
  loses with its SRAM are mirrored in a file of the persist partition. The cycle counters are
  eight buckets merged by maximum, the learned capacity is one number that may only shrink, and
  the service backs the counters up each time the battery has gained 20 percent in total.
\<close>

section \<open>Cycle counters: CycleCountBackupRestore\<close>

definition kBucketCount :: nat where "kBucketCount = 8"

definition kCycCntFile :: path where
  "kCycCntFile = ''sys/class/power_supply/bms/device/cycle_counts_bins''"

definition kSysPersistFile :: path where
  "kSysPersistFile = ''/mnt/vendor/persist/battery/qcom_cycle_counts_bins''"

record cycle_bins =
  sw_bins :: "int list"
  hw_bins :: "int list"

text \<open>The conversions that succeed are stored, the other buckets keep their value. The numbers are taken as they stand in
  the text: counts of charging cycles stay far below the limit of the code's 32-bit \<open>int\<close>.\<close>

definition scan_bins :: "string \<Rightarrow> int list \<Rightarrow> int list" where
  "scan_bins s old = (let vs = scan_ints kBucketCount s in vs @ drop (length vs) old)"

definition cc_ReadFromStorage :: "fsys \<Rightarrow> cycle_bins \<Rightarrow> cycle_bins" where
  "cc_ReadFromStorage fs c =
     (case read_file fs kSysPersistFile of
        None \<Rightarrow> c
      | Some buffer \<Rightarrow> c\<lparr>sw_bins := scan_bins buffer (sw_bins c)\<rparr>)"

text \<open>\<open>trim\<close> is \<open>android::base::Trim\<close>, a parameter.\<close>

definition cc_ReadFromSRAM :: "(string \<Rightarrow> string) \<Rightarrow> fsys \<Rightarrow> cycle_bins \<Rightarrow> cycle_bins" where
  "cc_ReadFromSRAM trim fs c =
     (case read_file fs kCycCntFile of
        None \<Rightarrow> c
      | Some buffer \<Rightarrow> c\<lparr>hw_bins := scan_bins (trim buffer) (hw_bins c)\<rparr>)"

definition cc_SaveToStorage :: "fsys \<Rightarrow> cycle_bins \<Rightarrow> fsys" where
  "cc_SaveToStorage fs c = snd (write_file fs kSysPersistFile (show_ints (sw_bins c)))"

definition cc_SaveToSRAM :: "fsys \<Rightarrow> cycle_bins \<Rightarrow> fsys" where
  "cc_SaveToSRAM fs c = snd (write_file fs kCycCntFile (show_ints (hw_bins c)))"

text \<open>The loop of \<open>UpdateAndSave\<close>, one bucket per step; the flags are
  \<open>backup\<close> and \<open>restore\<close>.\<close>

definition update_bucket :: "nat \<Rightarrow> cycle_bins \<times> bool \<times> bool \<Rightarrow> cycle_bins \<times> bool \<times> bool" where
  "update_bucket i = (\<lambda>(c, backup, restore).
     if hw_bins c ! i < sw_bins c ! i
     then (c\<lparr>hw_bins := (hw_bins c)[i := sw_bins c ! i]\<rparr>, backup, True)
     else if hw_bins c ! i > sw_bins c ! i
     then (c\<lparr>sw_bins := (sw_bins c)[i := hw_bins c ! i]\<rparr>, True, restore)
     else (c, backup, restore))"

definition cc_update :: "cycle_bins \<Rightarrow> cycle_bins \<times> bool \<times> bool" where
  "cc_update c = fold update_bucket [0..<kBucketCount] (c, False, False)"

definition cc_UpdateAndSave :: "fsys \<times> cycle_bins \<Rightarrow> fsys \<times> cycle_bins" where
  "cc_UpdateAndSave = (\<lambda>(fs, c0).
     let (c, backup, restore) = cc_update c0;
         fs1 = (if restore then cc_SaveToSRAM fs c else fs);
         fs2 = (if backup then cc_SaveToStorage fs1 c else fs1)
     in (fs2, c))"

definition cc_Restore :: "(string \<Rightarrow> string) \<Rightarrow> fsys \<times> cycle_bins \<Rightarrow> fsys \<times> cycle_bins" where
  "cc_Restore trim = (\<lambda>(fs, c).
     let c1 = cc_ReadFromStorage fs c; c2 = cc_ReadFromSRAM trim fs c1
     in cc_UpdateAndSave (fs, c2))"

definition cc_Backup :: "(string \<Rightarrow> string) \<Rightarrow> fsys \<times> cycle_bins \<Rightarrow> fsys \<times> cycle_bins" where
  "cc_Backup trim = (\<lambda>(fs, c). cc_UpdateAndSave (fs, cc_ReadFromSRAM trim fs c))"

section \<open>Learned capacity: LearnedCapacityBackupRestore\<close>

definition kChgFullFile :: path where "kChgFullFile = ''sys/class/power_supply/bms/charge_full''"

definition kSysCFPersistFile :: path where
  "kSysCFPersistFile = ''/mnt/vendor/persist/battery/qcom_charge_full''"

record learned_cap =
  sw_cap :: int
  hw_cap :: int

definition scan_cap :: "string \<Rightarrow> int \<Rightarrow> int" where
  "scan_cap s old = (case scan_int s of None \<Rightarrow> old | Some (v, _) \<Rightarrow> v)"

definition lc_ReadFromStorage :: "fsys \<Rightarrow> learned_cap \<Rightarrow> learned_cap" where
  "lc_ReadFromStorage fs l =
     (case read_file fs kSysCFPersistFile of
        None \<Rightarrow> l
      | Some buffer \<Rightarrow> l\<lparr>sw_cap := scan_cap buffer (sw_cap l)\<rparr>)"

definition lc_ReadFromSRAM :: "(string \<Rightarrow> string) \<Rightarrow> fsys \<Rightarrow> learned_cap \<Rightarrow> learned_cap" where
  "lc_ReadFromSRAM trim fs l =
     (case read_file fs kChgFullFile of
        None \<Rightarrow> l
      | Some buffer \<Rightarrow> l\<lparr>hw_cap := scan_cap (trim buffer) (hw_cap l)\<rparr>)"

definition lc_SaveToStorage :: "fsys \<Rightarrow> learned_cap \<Rightarrow> fsys" where
  "lc_SaveToStorage fs l = snd (write_file fs kSysCFPersistFile (show_int (sw_cap l)))"

definition lc_SaveToSRAM :: "fsys \<Rightarrow> learned_cap \<Rightarrow> fsys" where
  "lc_SaveToSRAM fs l = snd (write_file fs kChgFullFile (show_int (hw_cap l)))"

definition lc_UpdateAndSave :: "fsys \<times> learned_cap \<Rightarrow> fsys \<times> learned_cap" where
  "lc_UpdateAndSave = (\<lambda>(fs, l0).
     let (l, backup, restore) =
           (if hw_cap l0 \<noteq> 0
            then if hw_cap l0 < sw_cap l0 \<or> sw_cap l0 = 0
                 then (l0\<lparr>sw_cap := hw_cap l0\<rparr>, True, False)
                 else if hw_cap l0 > sw_cap l0
                 then (l0\<lparr>hw_cap := sw_cap l0\<rparr>, False, True)
                 else (l0, False, False)
            else (l0, False, False));
         fs1 = (if restore then lc_SaveToSRAM fs l else fs);
         fs2 = (if backup then lc_SaveToStorage fs1 l else fs1)
     in (fs2, l))"

definition lc_Restore :: "(string \<Rightarrow> string) \<Rightarrow> fsys \<times> learned_cap \<Rightarrow> fsys \<times> learned_cap" where
  "lc_Restore trim = (\<lambda>(fs, l).
     let l1 = lc_ReadFromStorage fs l; l2 = lc_ReadFromSRAM trim fs l1
     in lc_UpdateAndSave (fs, l2))"

definition lc_Backup :: "(string \<Rightarrow> string) \<Rightarrow> fsys \<times> learned_cap \<Rightarrow> fsys \<times> learned_cap" where
  "lc_Backup trim = (\<lambda>(fs, l). lc_UpdateAndSave (fs, lc_ReadFromSRAM trim fs l))"

section \<open>The service: HealthServiceDefault\<close>

definition kBackupTrigger :: int where "kBackupTrigger = 20"

record health =
  saved_soc :: int
  soc_inc :: int
  is_first :: bool
  hfs :: fsys
  ccBackupRestore :: cycle_bins
  lcBackupRestore :: learned_cap

definition cycle_count_backup :: "(string \<Rightarrow> string) \<Rightarrow> int \<Rightarrow> health \<Rightarrow> health" where
  "cycle_count_backup trim battery_level h =
     (if is_first h then h\<lparr>is_first := False, saved_soc := battery_level\<rparr>
      else
        let h1 = (if battery_level > saved_soc h
                  then h\<lparr>soc_inc := soc_inc h + (battery_level - saved_soc h)\<rparr> else h);
            h2 = h1\<lparr>saved_soc := battery_level\<rparr>
        in if soc_inc h2 \<ge> kBackupTrigger
           then let (fs, c) = cc_Backup trim (hfs h2, ccBackupRestore h2)
                in h2\<lparr>hfs := fs, ccBackupRestore := c, soc_inc := 0\<rparr>
           else h2)"

definition healthd_board_init :: "(string \<Rightarrow> string) \<Rightarrow> health \<Rightarrow> health" where
  "healthd_board_init trim h =
     (let (fs1, c) = cc_Restore trim (hfs h, ccBackupRestore h);
          (fs2, l) = lc_Restore trim (fs1, lcBackupRestore h)
      in h\<lparr>hfs := fs2, ccBackupRestore := c, lcBackupRestore := l\<rparr>)"

definition healthd_board_battery_update :: "(string \<Rightarrow> string) \<Rightarrow> int \<Rightarrow> health \<Rightarrow> health" where
  "healthd_board_battery_update trim batteryLevel h =
     (let h1 = cycle_count_backup trim batteryLevel h;
          (fs, l) = lc_Backup trim (hfs h1, lcBackupRestore h1)
      in h1\<lparr>hfs := fs, lcBackupRestore := l\<rparr>)"

text \<open>The objects are static, so everything starts at zero.\<close>

definition health_start :: "fsys \<Rightarrow> health" where
  "health_start fs =
     \<lparr>saved_soc = 0, soc_inc = 0, is_first = True, hfs = fs,
      ccBackupRestore = \<lparr>sw_bins = replicate kBucketCount 0, hw_bins = replicate kBucketCount 0\<rparr>,
      lcBackupRestore = \<lparr>sw_cap = 0, hw_cap = 0\<rparr>\<rparr>"

section \<open>The merge of the cycle counters\<close>

definition wf_bins :: "cycle_bins \<Rightarrow> bool" where
  "wf_bins c \<longleftrightarrow> length (sw_bins c) = kBucketCount \<and> length (hw_bins c) = kBucketCount"

definition merged_bins :: "cycle_bins \<Rightarrow> int list" where
  "merged_bins c = map2 max (hw_bins c) (sw_bins c)"

lemma length_merged: "wf_bins c \<Longrightarrow> length (merged_bins c) = kBucketCount"
  by (simp add: wf_bins_def merged_bins_def)

text \<open>After the first \<open>n\<close> steps the first \<open>n\<close> buckets of both lists are merged.\<close>

lemma fold_update_bucket:
  assumes "wf_bins c" and "n \<le> kBucketCount"
  shows "fold update_bucket [0..<n] (c, False, False) =
    (c\<lparr>sw_bins := take n (merged_bins c) @ drop n (sw_bins c),
       hw_bins := take n (merged_bins c) @ drop n (hw_bins c)\<rparr>,
     \<exists>i<n. hw_bins c ! i > sw_bins c ! i, \<exists>i<n. hw_bins c ! i < sw_bins c ! i)"
  using assms(2)
proof (induction n)
  case 0
  then show ?case by simp
next
  case (Suc n)
  have n: "n < length (hw_bins c)" "n < length (sw_bins c)" "n < length (merged_bins c)"
    using Suc.prems assms(1) length_merged [OF assms(1)] by (auto simp: wf_bins_def)
  have m: "merged_bins c ! n = max (hw_bins c ! n) (sw_bins c ! n)"
    using n by (simp add: merged_bins_def)
  have at: "(take n (merged_bins c) @ y # ys) ! n = y"
    "(take n (merged_bins c) @ y # ys)[n := v] = take n (merged_bins c) @ v # ys"
    for y v :: int and ys
    using n by (simp_all add: nth_append list_update_append)
  have cons: "drop n (hw_bins c) = hw_bins c ! n # drop (Suc n) (hw_bins c)"
    "drop n (sw_bins c) = sw_bins c ! n # drop (Suc n) (sw_bins c)"
    using n by (simp_all add: Cons_nth_drop_Suc)
  have step: "take (Suc n) (merged_bins c) = take n (merged_bins c) @ [merged_bins c ! n]"
    using n by (simp add: take_Suc_conv_app_nth)
  have IH: "fold update_bucket [0..<n] (c, False, False) =
    (c\<lparr>sw_bins := take n (merged_bins c) @ drop n (sw_bins c),
       hw_bins := take n (merged_bins c) @ drop n (hw_bins c)\<rparr>,
     \<exists>i<n. hw_bins c ! i > sw_bins c ! i, \<exists>i<n. hw_bins c ! i < sw_bins c ! i)"
    using Suc by simp
  show ?case
    unfolding fold_upt_Suc IH
    unfolding ex_less_Suc_iff step update_bucket_def
    by (cases "hw_bins c ! n" "sw_bins c ! n" rule: linorder_cases)
      (simp_all add: cons at m)
qed

lemma cc_update_merge:
  assumes "wf_bins c"
  shows "cc_update c =
    (c\<lparr>sw_bins := merged_bins c, hw_bins := merged_bins c\<rparr>,
     \<exists>i<kBucketCount. hw_bins c ! i > sw_bins c ! i,
     \<exists>i<kBucketCount. hw_bins c ! i < sw_bins c ! i)"
  using fold_update_bucket [OF assms, of kBucketCount] length_merged [OF assms] assms
  by (simp add: cc_update_def wf_bins_def)

section \<open>What is saved, and what survives\<close>

definition fresh_bins :: cycle_bins where
  "fresh_bins = \<lparr>sw_bins = replicate kBucketCount 0, hw_bins = replicate kBucketCount 0\<rparr>"

text \<open>The counters a freshly started service would find in the storage file.\<close>

definition stored_bins :: "fsys \<Rightarrow> int list" where
  "stored_bins fs = sw_bins (cc_ReadFromStorage fs fresh_bins)"

lemma paths_distinct [simp]:
  "kSysPersistFile \<noteq> kCycCntFile" "kCycCntFile \<noteq> kSysPersistFile"
  "kChgFullFile \<noteq> kSysCFPersistFile" "kSysCFPersistFile \<noteq> kChgFullFile"
  by (simp_all add: kSysPersistFile_def kCycCntFile_def kChgFullFile_def kSysCFPersistFile_def)

lemma length_scan_bins [simp]: "length old = kBucketCount \<Longrightarrow> length (scan_bins s old) = kBucketCount"
  using length_scan_ints [of kBucketCount s] by (simp add: scan_bins_def Let_def)

lemma scan_bins_show [simp]: "length xs = kBucketCount \<Longrightarrow> scan_bins (show_ints xs) old = xs @ drop kBucketCount old"
  using scan_ints_show [of xs] by (simp add: scan_bins_def)

lemma wf_fresh [simp]: "wf_bins fresh_bins"
  by (simp add: wf_bins_def fresh_bins_def)

lemma wf_reads:
  assumes "wf_bins c"
  shows "wf_bins (cc_ReadFromStorage fs c)" and "wf_bins (cc_ReadFromSRAM trim fs c)"
  using assms
  by (auto simp: wf_bins_def cc_ReadFromStorage_def cc_ReadFromSRAM_def split: option.splits)

lemma sw_bins_ReadFromSRAM [simp]: "sw_bins (cc_ReadFromSRAM trim fs c) = sw_bins c"
  by (simp add: cc_ReadFromSRAM_def split: option.splits)

text \<open>The whole effect of \<open>UpdateAndSave\<close>.\<close>

lemma cc_UpdateAndSave_eq:
  assumes "wf_bins c"
  shows "snd (cc_UpdateAndSave (fs, c)) = c\<lparr>sw_bins := merged_bins c, hw_bins := merged_bins c\<rparr>"
    and "read_file (fst (cc_UpdateAndSave (fs, c))) q =
      (if q = kSysPersistFile \<and> (\<exists>i<kBucketCount. hw_bins c ! i > sw_bins c ! i) \<and> \<not> write_fails fs q
       then Some (show_ints (merged_bins c))
       else if q = kCycCntFile \<and> (\<exists>i<kBucketCount. hw_bins c ! i < sw_bins c ! i) \<and> \<not> write_fails fs q
       then Some (show_ints (merged_bins c))
       else read_file fs q)"
    and "write_fails (fst (cc_UpdateAndSave (fs, c))) = write_fails fs"
  by (auto simp: cc_UpdateAndSave_def cc_update_merge [OF assms] cc_SaveToSRAM_def
      cc_SaveToStorage_def fstore_simps Let_def)

text \<open>No bucket of the gauge above the stored one: the merge is the stored list.\<close>

lemma merged_bins_sw:
  assumes "wf_bins c" and "\<not> (\<exists>i<kBucketCount. hw_bins c ! i > sw_bins c ! i)"
  shows "merged_bins c = sw_bins c"
proof (intro nth_equalityI)
  fix i assume "i < length (merged_bins c)"
  then have i: "i < kBucketCount" using assms(1) by (simp add: length_merged)
  then have "hw_bins c ! i \<le> sw_bins c ! i" using assms(2) by (meson not_less)
  with assms(1) i show "merged_bins c ! i = sw_bins c ! i"
    by (simp add: wf_bins_def merged_bins_def)
qed (use assms(1) in \<open>simp add: length_merged wf_bins_def\<close>)

lemma merged_bins_hw:
  assumes "wf_bins c" and "\<not> (\<exists>i<kBucketCount. hw_bins c ! i < sw_bins c ! i)"
  shows "merged_bins c = hw_bins c"
proof (intro nth_equalityI)
  fix i assume "i < length (merged_bins c)"
  then have i: "i < kBucketCount" using assms(1) by (simp add: length_merged)
  then have "sw_bins c ! i \<le> hw_bins c ! i" using assms(2) by (meson not_less)
  with assms(1) i show "merged_bins c ! i = hw_bins c ! i"
    by (simp add: wf_bins_def merged_bins_def)
qed (use assms(1) in \<open>simp add: length_merged wf_bins_def\<close>)

lemma stored_bins_sync:
  assumes "wf_bins c" and "\<not> write_fails fs kSysPersistFile" and "stored_bins fs = sw_bins c"
  shows "stored_bins (fst (cc_UpdateAndSave (fs, c))) = merged_bins c"
proof (cases "\<exists>i<kBucketCount. hw_bins c ! i > sw_bins c ! i")
  case True
  with assms length_merged [OF assms(1)] show ?thesis
    by (simp add: stored_bins_def cc_ReadFromStorage_def cc_UpdateAndSave_eq(2) fresh_bins_def)
next
  case False
  have "read_file (fst (cc_UpdateAndSave (fs, c))) kSysPersistFile = read_file fs kSysPersistFile"
    by (simp add: cc_UpdateAndSave_eq(2) [OF assms(1)] False)
  with assms False show ?thesis
    by (simp add: stored_bins_def cc_ReadFromStorage_def merged_bins_sw [OF assms(1) False])
qed

text \<open>Merging the counters makes both copies the pointwise maximum, and a file is
  rewritten, with the merged counters, exactly when its copy was behind in some bucket (and
  the write is accepted); no other file changes.\<close>

theorem cc_UpdateAndSave_merges:
  assumes "wf_bins c"
  shows "snd (cc_UpdateAndSave (fs, c)) = c\<lparr>sw_bins := merged_bins c, hw_bins := merged_bins c\<rparr>
    \<and> read_file (fst (cc_UpdateAndSave (fs, c))) q =
      (if q = kSysPersistFile \<and> (\<exists>i<kBucketCount. hw_bins c ! i > sw_bins c ! i) \<and> \<not> write_fails fs q
          \<or> q = kCycCntFile \<and> (\<exists>i<kBucketCount. hw_bins c ! i < sw_bins c ! i) \<and> \<not> write_fails fs q
       then Some (show_ints (merged_bins c))
       else read_file fs q)"
  using cc_UpdateAndSave_eq [OF assms] by auto

theorem cc_UpdateAndSave_merges_witness:
  "wf_bins \<lparr>sw_bins = [5,0,0,0,0,0,0,0], hw_bins = [1,2,0,0,0,0,0,0]\<rparr> \<and>
   snd (cc_UpdateAndSave (\<lparr>content = Map.empty, write_fails = (\<lambda>_. False)\<rparr>,
       \<lparr>sw_bins = [5,0,0,0,0,0,0,0], hw_bins = [1,2,0,0,0,0,0,0]\<rparr>)) =
     \<lparr>sw_bins = [5,2,0,0,0,0,0,0], hw_bins = [5,2,0,0,0,0,0,0]\<rparr>"
proof -
  have wf: "wf_bins \<lparr>sw_bins = [5,0,0,0,0,0,0,0], hw_bins = [1,2,0,0,0,0,0,0]\<rparr>"
    by (simp add: wf_bins_def kBucketCount_def)
  show ?thesis
    using wf cc_UpdateAndSave_merges [OF wf] by (simp add: merged_bins_def)
qed

text \<open>C31: the counters survive a loss of the gauge's SRAM. After a backup, however the
  gauge's counters moved, a restarted service that finds zeroed counters restores the
  backed-up ones, in memory and in the gauge. The stored file was in step with the service
  before (which \<open>stored_bins_sync\<close> keeps so) and both files accept writes.\<close>

theorem cycle_counts_survive_power_loss:
  assumes trim: "trims trim" and wf: "wf_bins c" and sync: "stored_bins fs = sw_bins c"
    and nonneg: "\<forall>x \<in> set (sw_bins c). 0 \<le> x"
    and writable: "\<not> write_fails fs kSysPersistFile" "\<not> write_fails fs kCycCntFile"
    and backup: "cc_Backup trim (fs, c) = (fs1, c1)"
    and lost: "fs2 = snd (write_file fs1 kCycCntFile (show_ints (replicate kBucketCount 0)))"
    and restart: "cc_Restore trim (fs2, fresh_bins) = (fs3, c3)"
  shows "hw_bins c3 = hw_bins c1 \<and> read_file fs3 kCycCntFile = Some (show_ints (hw_bins c1))"
proof -
  define d where "d = cc_ReadFromSRAM trim fs c"
  have wfd: "wf_bins d" and swd: "sw_bins d = sw_bins c"
    using wf by (simp_all add: d_def wf_reads)
  have b: "fs1 = fst (cc_UpdateAndSave (fs, d))" "c1 = snd (cc_UpdateAndSave (fs, d))"
    using backup by (simp_all add: cc_Backup_def d_def)
  have c1: "hw_bins c1 = merged_bins d" and wfm: "length (merged_bins d) = kBucketCount"
    using wfd by (simp_all add: b cc_UpdateAndSave_eq(1) length_merged)
  have keeps: "write_fails fs1 = write_fails fs"
    using wfd by (simp add: b cc_UpdateAndSave_eq(3))
  have st: "stored_bins fs2 = merged_bins d"
    using stored_bins_sync [OF wfd writable(1)] sync swd
    by (simp add: lost stored_bins_def cc_ReadFromStorage_def fstore_simps b)
  have pos: "0 \<le> merged_bins d ! i" if "i < kBucketCount" for i
  proof -
    have "0 \<le> sw_bins d ! i" using nonneg wfd that by (simp add: swd [symmetric] wf_bins_def)
    then show ?thesis using wfd that by (simp add: merged_bins_def wf_bins_def)
  qed
  define e where "e = cc_ReadFromSRAM trim fs2 (cc_ReadFromStorage fs2 fresh_bins)"
  have sram: "read_file fs2 kCycCntFile = Some (show_ints (replicate kBucketCount 0))"
    using writable keeps by (simp add: lost fstore_simps)
  have wfe: "wf_bins e" by (simp add: e_def wf_reads)
  have e: "sw_bins e = merged_bins d" "hw_bins e = replicate kBucketCount 0"
    using st wf_reads(1) [OF wf_fresh, of fs2] sram trim
    by (simp_all add: e_def stored_bins_def cc_ReadFromSRAM_def trim_show wf_bins_def)
  have le: "\<not> (\<exists>i<kBucketCount. hw_bins e ! i > sw_bins e ! i)"
  proof -
    have "hw_bins e ! i \<le> sw_bins e ! i" if "i < kBucketCount" for i
      using pos [OF that] that by (simp add: e)
    then show ?thesis by (meson not_less)
  qed
  have m: "merged_bins e = merged_bins d"
    using merged_bins_sw [OF wfe le] e(1) by simp
  have wr2: "\<not> write_fails fs2 kCycCntFile"
    using writable keeps by (simp add: lost fstore_simps)
  have r: "fs3 = fst (cc_UpdateAndSave (fs2, e))" "c3 = snd (cc_UpdateAndSave (fs2, e))"
    using restart by (simp_all add: cc_Restore_def e_def)
  show ?thesis
    using wfe wr2 sram merged_bins_hw [OF wfe]
    by (auto simp: r cc_UpdateAndSave_eq m c1 e(2))
qed

definition demo_fs :: fsys where
  "demo_fs = \<lparr>content = (\<lambda>p. if p = kSysPersistFile then Some (show_ints [3,0,0,0,0,0,0,0])
     else if p = kCycCntFile then Some (show_ints [4,1,0,0,0,0,0,0]) else None),
     write_fails = (\<lambda>_. False)\<rparr>"

definition demo_bins :: cycle_bins where
  "demo_bins = \<lparr>sw_bins = [3,0,0,0,0,0,0,0], hw_bins = [3,0,0,0,0,0,0,0]\<rparr>"

theorem cycle_counts_survive_power_loss_witness:
  "let (fs1, c1) = cc_Backup trim_text (demo_fs, demo_bins);
       fs2 = snd (write_file fs1 kCycCntFile (show_ints (replicate kBucketCount 0)));
       (fs3, c3) = cc_Restore trim_text (fs2, fresh_bins)
   in hw_bins c3 = hw_bins c1 \<and> hw_bins c1 = [4,1,0,0,0,0,0,0]"
proof -
  let ?b = "cc_Backup trim_text (demo_fs, demo_bins)"
  let ?fs2 = "snd (write_file (fst ?b) kCycCntFile (show_ints (replicate kBucketCount 0)))"
  let ?r = "cc_Restore trim_text (?fs2, fresh_bins)"
  have wf: "wf_bins demo_bins" by (simp add: wf_bins_def demo_bins_def kBucketCount_def)
  have st: "stored_bins demo_fs = sw_bins demo_bins"
    by (simp add: stored_bins_def cc_ReadFromStorage_def demo_fs_def demo_bins_def read_file_def
        scan_bins_show [unfolded kBucketCount_def] kBucketCount_def fresh_bins_def del: show_ints.simps)
  have rd: "cc_ReadFromSRAM trim_text demo_fs demo_bins =
    \<lparr>sw_bins = [3,0,0,0,0,0,0,0], hw_bins = [4,1,0,0,0,0,0,0]\<rparr>"
    by (simp add: cc_ReadFromSRAM_def demo_fs_def demo_bins_def read_file_def
        trim_show [OF trims_trim_text] scan_bins_show [unfolded kBucketCount_def] kBucketCount_def
        del: show_ints.simps)
  have c1: "hw_bins (snd ?b) = [4,1,0,0,0,0,0,0]"
    by (simp add: cc_Backup_def rd cc_UpdateAndSave_eq(1) wf_bins_def kBucketCount_def merged_bins_def)
  have "hw_bins (snd ?r) = hw_bins (snd ?b)"
    using cycle_counts_survive_power_loss [OF trims_trim_text wf st, of "fst ?b" "snd ?b" ?fs2
        "fst ?r" "snd ?r"]
    by (simp add: demo_bins_def demo_fs_def)
  with c1 show ?thesis by (simp add: case_prod_beta Let_def)
qed

section \<open>When a backup happens\<close>

text \<open>The percentage points gained over a sequence of battery levels, falls not counted.\<close>

fun total_rise :: "int \<Rightarrow> int list \<Rightarrow> int" where
  "total_rise prev [] = 0"
| "total_rise prev (l # ls) = max 0 (l - prev) + total_rise l ls"

lemma total_rise_nonneg: "0 \<le> total_rise prev ls"
  by (induction prev ls rule: total_rise.induct) auto

lemma cycle_count_backup_quiet:
  assumes "\<not> is_first h" and "soc_inc h + total_rise (saved_soc h) ls < kBackupTrigger"
  shows "fold (cycle_count_backup trim) ls h =
    h\<lparr>saved_soc := last (saved_soc h # ls), soc_inc := soc_inc h + total_rise (saved_soc h) ls\<rparr>"
  using assms
proof (induction ls arbitrary: h)
  case Nil
  then show ?case by simp
next
  case (Cons l ls)
  let ?h = "h\<lparr>saved_soc := l, soc_inc := soc_inc h + max 0 (l - saved_soc h)\<rparr>"
  have low: "soc_inc h + max 0 (l - saved_soc h) < kBackupTrigger"
    using Cons.prems(2) total_rise_nonneg [of l ls] by simp
  have step: "cycle_count_backup trim l h = ?h"
    using Cons.prems(1) low by (auto simp: cycle_count_backup_def Let_def max_def split: if_splits)
  show ?case
    using Cons.IH [of ?h] Cons.prems by (simp add: step algebra_simps)
qed

text \<open>The counters are backed up at the update with which the battery has gained 20
  percentage points in total since the last backup, and not before: until then neither the
  files nor the counters change, then one backup runs and the gain starts again from zero.\<close>

theorem backup_at_trigger:
  assumes "\<not> is_first h"
    and before: "soc_inc h + total_rise (saved_soc h) ls < kBackupTrigger"
    and reached: "kBackupTrigger \<le> soc_inc h + total_rise (saved_soc h) (ls @ [l])"
  shows "hfs (fold (cycle_count_backup trim) ls h) = hfs h
    \<and> ccBackupRestore (fold (cycle_count_backup trim) ls h) = ccBackupRestore h
    \<and> fold (cycle_count_backup trim) (ls @ [l]) h =
        (let (fs, c) = cc_Backup trim (hfs h, ccBackupRestore h)
         in h\<lparr>saved_soc := l, soc_inc := 0, hfs := fs, ccBackupRestore := c\<rparr>)"
proof -
  have split: "total_rise p (ls @ [l]) = total_rise p ls + max 0 (l - last (p # ls))" for p
    by (induction p ls rule: total_rise.induct) auto
  have "kBackupTrigger \<le> soc_inc h + total_rise (saved_soc h) ls + max 0 (l - last (saved_soc h # ls))"
    using reached split by (simp add: algebra_simps)
  with before cycle_count_backup_quiet [OF assms(1) before, of trim] assms(1) show ?thesis
    by (auto simp: cycle_count_backup_def Let_def case_prod_beta max_def split: if_splits)
qed

theorem backup_at_trigger_witness:
  "fold (cycle_count_backup trim_text) [30, 25, 40] ((health_start demo_fs)\<lparr>is_first := False, saved_soc := 20\<rparr>) =
     (let h = (health_start demo_fs)\<lparr>is_first := False, saved_soc := 20\<rparr>;
          (fs, c) = cc_Backup trim_text (hfs h, ccBackupRestore h)
      in h\<lparr>saved_soc := 40, soc_inc := 0, hfs := fs, ccBackupRestore := c\<rparr>)"
  using backup_at_trigger [of "(health_start demo_fs)\<lparr>is_first := False, saved_soc := 20\<rparr>" "[30, 25]" 40 trim_text]
  by (simp add: health_start_def kBackupTrigger_def Let_def)

section \<open>The learned capacity\<close>

text \<open>A nonzero capacity of the gauge makes both copies the smaller of the two (or the
  gauge's, when none was stored yet), so the stored capacity never grows once it is set; a
  gauge that reports zero changes nothing. A file is rewritten only when its copy changed.\<close>

theorem lc_UpdateAndSave_min:
  "snd (lc_UpdateAndSave (fs, l)) =
     (if hw_cap l = 0 then l
      else if sw_cap l = 0 then l\<lparr>sw_cap := hw_cap l\<rparr>
      else \<lparr>sw_cap = min (hw_cap l) (sw_cap l), hw_cap = min (hw_cap l) (sw_cap l)\<rparr>)
   \<and> read_file (fst (lc_UpdateAndSave (fs, l))) q =
     (if q = kSysCFPersistFile \<and> sw_cap (snd (lc_UpdateAndSave (fs, l))) \<noteq> sw_cap l \<and> \<not> write_fails fs q
      then Some (show_int (hw_cap l))
      else if q = kChgFullFile \<and> hw_cap (snd (lc_UpdateAndSave (fs, l))) \<noteq> hw_cap l \<and> \<not> write_fails fs q
      then Some (show_int (sw_cap l))
      else read_file fs q)"
  by (auto simp: lc_UpdateAndSave_def lc_SaveToStorage_def lc_SaveToSRAM_def fstore_simps Let_def)

end
