(* ===== verification/Sensors_Types.thy ===== *)
theory Sensors_Types
  imports Prelude
begin

text \<open>
  The data every sensor component exchanges: the sensor handles of the board's build
  (\<open>stml0xx_hal/Sensors.h\<close> with gyroscope, magnetometer, chop-chop, lift, both rear
  proximity sensors and the pedometer enabled, and no cap sensor), the events handed to the
  framework, and the arithmetic on \<open>float\<close>.

  Floating point is a parameter: the definitions take a record of the operations the code uses,
  so that they apply to any implementation of \<open>float\<close>. Constants of headers that are not in
  the repository are constructors (sensor types, event versions), never numbers.
\<close>

section \<open>Floating point operations\<close>

record 'f farith =
  f_of_int :: "int \<Rightarrow> 'f"
  f_lit :: "int \<Rightarrow> int \<Rightarrow> 'f" \<comment> \<open>the literal of a fraction\<close>
  f_add :: "'f \<Rightarrow> 'f \<Rightarrow> 'f"
  f_sub :: "'f \<Rightarrow> 'f \<Rightarrow> 'f"
  f_mul :: "'f \<Rightarrow> 'f \<Rightarrow> 'f"
  f_div :: "'f \<Rightarrow> 'f \<Rightarrow> 'f"
  f_neg :: "'f \<Rightarrow> 'f"
  f_abs :: "'f \<Rightarrow> 'f"
  f_sqrt :: "'f \<Rightarrow> 'f"
  f_sin :: "'f \<Rightarrow> 'f"
  f_cos :: "'f \<Rightarrow> 'f"
  f_copysign :: "'f \<Rightarrow> 'f \<Rightarrow> 'f"
  f_less :: "'f \<Rightarrow> 'f \<Rightarrow> bool"
  f_le :: "'f \<Rightarrow> 'f \<Rightarrow> bool"
  f_eq :: "'f \<Rightarrow> 'f \<Rightarrow> bool"

section \<open>Sensor handles\<close>

datatype sensor_handle =
    MIN_SENSOR_ID | ID_A | ID_G | ID_UNCALIB_GYRO | ID_GAME_RV | ID_GRAVITY | ID_LA | ID_L | ID_P
  | ID_DR | ID_FU | ID_FD | ID_S | ID_CA | ID_A2 | ID_M | ID_UM | ID_OR | ID_GEOMAG_RV | ID_RV
  | ID_CC | ID_LF | ID_RP | ID_RP_2 | ID_STEP_DETECTOR | ID_STEP_COUNTER | ID_GLANCE_GESTURE
  | ID_MOTO_GLANCE_GESTURE | ID_MOTION_DETECT | ID_STATIONARY_DETECT | MAX_SENSOR_ID

text \<open>The enumerators in the order of their declaration, numbered from zero.\<close>

definition all_handles :: "sensor_handle list" where
  "all_handles =
    [MIN_SENSOR_ID, ID_A, ID_G, ID_UNCALIB_GYRO, ID_GAME_RV, ID_GRAVITY, ID_LA, ID_L, ID_P,
     ID_DR, ID_FU, ID_FD, ID_S, ID_CA, ID_A2, ID_M, ID_UM, ID_OR, ID_GEOMAG_RV, ID_RV,
     ID_CC, ID_LF, ID_RP, ID_RP_2, ID_STEP_DETECTOR, ID_STEP_COUNTER, ID_GLANCE_GESTURE,
     ID_MOTO_GLANCE_GESTURE, ID_MOTION_DETECT, ID_STATIONARY_DETECT, MAX_SENSOR_ID]"

fun handle_nat :: "sensor_handle \<Rightarrow> nat" where
  "handle_nat MIN_SENSOR_ID = 0"
| "handle_nat ID_A = 1"
| "handle_nat ID_G = 2"
| "handle_nat ID_UNCALIB_GYRO = 3"
| "handle_nat ID_GAME_RV = 4"
| "handle_nat ID_GRAVITY = 5"
| "handle_nat ID_LA = 6"
| "handle_nat ID_L = 7"
| "handle_nat ID_P = 8"
| "handle_nat ID_DR = 9"
| "handle_nat ID_FU = 10"
| "handle_nat ID_FD = 11"
| "handle_nat ID_S = 12"
| "handle_nat ID_CA = 13"
| "handle_nat ID_A2 = 14"
| "handle_nat ID_M = 15"
| "handle_nat ID_UM = 16"
| "handle_nat ID_OR = 17"
| "handle_nat ID_GEOMAG_RV = 18"
| "handle_nat ID_RV = 19"
| "handle_nat ID_CC = 20"
| "handle_nat ID_LF = 21"
| "handle_nat ID_RP = 22"
| "handle_nat ID_RP_2 = 23"
| "handle_nat ID_STEP_DETECTOR = 24"
| "handle_nat ID_STEP_COUNTER = 25"
| "handle_nat ID_GLANCE_GESTURE = 26"
| "handle_nat ID_MOTO_GLANCE_GESTURE = 27"
| "handle_nat ID_MOTION_DETECT = 28"
| "handle_nat ID_STATIONARY_DETECT = 29"
| "handle_nat MAX_SENSOR_ID = 30"

definition handle_num :: "sensor_handle \<Rightarrow> int" where
  "handle_num h = int (handle_nat h)"

text \<open>The case label a handle matches, if any.\<close>

definition handle_of :: "int \<Rightarrow> sensor_handle option" where
  "handle_of i = (if 0 \<le> i \<and> i \<le> 30 then Some (all_handles ! nat i) else None)"

lemma handle_nat_le: "handle_nat h \<le> 30"
  by (cases h) simp_all

lemma all_handles_nth [simp]: "all_handles ! handle_nat h = h"
  by (cases h) (simp_all add: all_handles_def)

lemma handle_of_num [simp]: "handle_of (handle_num h) = Some h"
  using handle_nat_le [of h] by (simp add: handle_of_def handle_num_def)

lemma handle_nat_inject: "handle_nat a = handle_nat b \<Longrightarrow> a = b"
  by (metis all_handles_nth)

lemma map_handle_nat: "map handle_nat all_handles = [0..<31]"
  by code_simp

lemma handle_of_SomeD: "handle_of i = Some h \<Longrightarrow> i = handle_num h"
proof -
  assume a: "handle_of i = Some h"
  then have i: "0 \<le> i" "nat i < 31" and h: "h = all_handles ! nat i"
    by (auto simp: handle_of_def split: if_splits)
  have "handle_nat (all_handles ! nat i) = map handle_nat all_handles ! nat i"
    using i by (subst nth_map) (simp_all add: all_handles_def)
  also have "\<dots> = nat i" using i by (simp add: map_handle_nat)
  finally have "handle_nat h = nat i" by (simp add: h)
  with i h show ?thesis by (simp add: handle_num_def)
qed

text \<open>Handles are ordered as their numbers are.\<close>

instantiation sensor_handle :: linorder
begin

definition less_eq_sensor_handle :: "sensor_handle \<Rightarrow> sensor_handle \<Rightarrow> bool" where
  "less_eq_sensor_handle a b \<longleftrightarrow> handle_nat a \<le> handle_nat b"

definition less_sensor_handle :: "sensor_handle \<Rightarrow> sensor_handle \<Rightarrow> bool" where
  "less_sensor_handle a b \<longleftrightarrow> handle_nat a < handle_nat b"

instance
  by standard (auto simp: less_eq_sensor_handle_def less_sensor_handle_def dest: handle_nat_inject)

end

text \<open>\<open>SENSORS_HANDLE_BASE\<close> of the Android headers.\<close>

definition SENSORS_HANDLE_BASE :: int where "SENSORS_HANDLE_BASE = 0"

section \<open>Events\<close>

datatype sensor_type =
    SENSOR_TYPE_META_DATA | SENSOR_TYPE_ACCELEROMETER | SENSOR_TYPE_GYROSCOPE
  | SENSOR_TYPE_GYROSCOPE_UNCALIBRATED | SENSOR_TYPE_GAME_ROTATION_VECTOR | SENSOR_TYPE_GRAVITY
  | SENSOR_TYPE_LINEAR_ACCELERATION | SENSOR_TYPE_STEP_DETECTOR | SENSOR_TYPE_STEP_COUNTER
  | SENSOR_TYPE_LIGHT | SENSOR_TYPE_PROXIMITY | SENSOR_TYPE_DISPLAY_ROTATE | SENSOR_TYPE_FLAT_UP
  | SENSOR_TYPE_FLAT_DOWN | SENSOR_TYPE_STOWED | SENSOR_TYPE_CAMERA_ACTIVATE
  | SENSOR_TYPE_CHOPCHOP_GESTURE | SENSOR_TYPE_LIFT_GESTURE | SENSOR_TYPE_GLANCE_GESTURE
  | SENSOR_TYPE_MOTO_GLANCE_GESTURE | SENSOR_TYPE_MOTION_DETECT | SENSOR_TYPE_STATIONARY_DETECT
  | SENSOR_TYPE_MAGNETIC_FIELD | SENSOR_TYPE_MAGNETIC_FIELD_UNCALIBRATED | SENSOR_TYPE_ORIENTATION
  | SENSOR_TYPE_GEOMAGNETIC_ROTATION_VECTOR | SENSOR_TYPE_ROTATION_VECTOR | SENSOR_TYPE_MOTO_CAPSENSE

datatype event_version = META_DATA_VERSION | SENSORS_EVENT_T_SIZE

text \<open>The accuracy status of a vector: the constant the code sets, or a byte of the hub.\<close>

datatype vec_status = SENSOR_STATUS_ACCURACY_HIGH | Hub_Status "8 word"

text \<open>The member of the event's union that is written.\<close>

datatype 'f payload =
    Flush_Complete int
  | Vector 'f 'f 'f vec_status
  | Uncalibrated 'f 'f 'f 'f 'f 'f
  | Data "'f list"
  | Scalar 'f
  | Step_Count "64 word"

record 'f sensors_event =
  version :: event_version
  sensor :: int
  etype :: sensor_type
  timestamp :: int
  payload :: "'f payload"

end
