(* ===== verification/Quaternions.thy ===== *)
theory Quaternions
  imports Sensors_Types Complex_Main
begin

text \<open>
  Quaternion arithmetic (\<open>stml0xx_hal/Quaternion.cpp\<close>) and the data of the sensor
  fusion (\<open>FusionSensorBase.h\<close>). The definitions are over any record of \<open>float\<close>
  operations; the algebra is proved for \<open>real_arith\<close>, exact arithmetic on the reals, so it
  says what the formulas compute before rounding.
\<close>

section \<open>Fusion data\<close>

record 'f cart_data =
  cx :: 'f
  cy :: 'f
  cz :: 'f
  cts :: int

record 'f quat_data =
  qa :: 'f
  qb :: 'f
  qc :: 'f
  qd :: 'f
  accuracy :: 'f
  qts :: int

record 'f fusion_data =
  fd_accel :: "'f cart_data"
  fd_gyro :: "'f cart_data"
  fd_mag :: "'f cart_data"
  fd_gameRotation :: "'f quat_data"
  fd_geoMagRotation :: "'f quat_data"
  fd_rotationVector :: "'f quat_data"
  fd_gravity :: "'f cart_data"
  fd_linearAccel :: "'f cart_data"

text \<open>Small arrays of three floats.\<close>

type_synonym 'f vec3 = "'f \<times> 'f \<times> 'f"

section \<open>Operations\<close>

definition cross3 :: "'f farith \<Rightarrow> 'f vec3 \<Rightarrow> 'f vec3 \<Rightarrow> 'f vec3" where
  "cross3 A = (\<lambda>(u0, u1, u2) (v0, v1, v2).
     (f_sub A (f_mul A u1 v2) (f_mul A u2 v1),
      f_sub A (f_mul A u2 v0) (f_mul A u0 v2),
      f_sub A (f_mul A u0 v1) (f_mul A u1 v0)))"

text \<open>The first argument of the operations below is the object written through the output
  reference; its accuracy and timestamp stay.\<close>

definition quat_inv :: "'f farith \<Rightarrow> 'f quat_data \<Rightarrow> 'f quat_data \<Rightarrow> 'f quat_data" where
  "quat_inv A out q = out\<lparr>qa := f_neg A (qa q), qb := f_neg A (qb q), qc := f_neg A (qc q), qd := qd q\<rparr>"

definition MAG_TOL :: "'f farith \<Rightarrow> 'f" where
  "MAG_TOL A = f_lit A 1 10000"

definition sq_mag :: "'f farith \<Rightarrow> 'f quat_data \<Rightarrow> 'f" where
  "sq_mag A q =
     f_add A (f_add A (f_add A (f_mul A (qa q) (qa q)) (f_mul A (qb q) (qb q)))
       (f_mul A (qc q) (qc q))) (f_mul A (qd q) (qd q))"

definition renormalize :: "'f farith \<Rightarrow> 'f quat_data \<Rightarrow> 'f quat_data \<times> int" where
  "renormalize A q =
     (let mag = sq_mag A q; one = f_lit A 1 1 in
      if f_less A mag (MAG_TOL A)
      then (q\<lparr>qa := f_lit A 0 1, qb := f_lit A 0 1, qc := f_lit A 0 1, qd := one\<rparr>, 1)
      else if f_less A (f_add A one (MAG_TOL A)) mag \<or> f_less A mag (f_sub A one (MAG_TOL A))
      then let m = f_copysign A (f_sqrt A mag) (qd q)
           in (q\<lparr>qa := f_div A (qa q) m, qb := f_div A (qb q) m, qc := f_div A (qc q) m,
                 qd := f_div A (qd q) m\<rparr>, 0)
      else (q, 0))"

definition mul_noRenormalize :: "'f farith \<Rightarrow> 'f quat_data \<Rightarrow> 'f quat_data \<Rightarrow> 'f quat_data \<Rightarrow> 'f quat_data" where
  "mul_noRenormalize A q q1 q2 =
     (let mul = f_mul A; add = f_add A; sub = f_sub A in
      q\<lparr>qa := sub (add (add (mul (qd q1) (qa q2)) (mul (qa q1) (qd q2))) (mul (qb q1) (qc q2))) (mul (qc q1) (qb q2)),
        qb := add (add (sub (mul (qd q1) (qb q2)) (mul (qa q1) (qc q2))) (mul (qb q1) (qd q2))) (mul (qc q1) (qa q2)),
        qc := add (sub (add (mul (qd q1) (qc q2)) (mul (qa q1) (qb q2))) (mul (qb q1) (qa q2))) (mul (qc q1) (qd q2)),
        qd := sub (sub (sub (mul (qd q1) (qd q2)) (mul (qa q1) (qa q2))) (mul (qb q1) (qb q2))) (mul (qc q1) (qc q2))\<rparr>)"

text \<open>The same product, normalized; the code repeats the four formulas.\<close>

definition quat_mul :: "'f farith \<Rightarrow> 'f quat_data \<Rightarrow> 'f quat_data \<Rightarrow> 'f quat_data \<Rightarrow> 'f quat_data \<times> int" where
  "quat_mul A q q1 q2 =
     (let (out, ret) = renormalize A (mul_noRenormalize A q q1 q2)
      in (q\<lparr>qa := qa out, qb := qb out, qc := qc out, qd := qd out\<rparr>, ret))"

definition quat_dist :: "'f farith \<Rightarrow> 'f quat_data \<Rightarrow> 'f quat_data \<Rightarrow> 'f" where
  "quat_dist A q1 q2 =
     (let sq = (\<lambda>f. f_mul A (f_sub A (f q1) (f q2)) (f_sub A (f q1) (f q2)))
      in f_add A (f_add A (f_add A (sq qa) (sq qb)) (sq qc)) (sq qd))"

definition linInterp :: "'f farith \<Rightarrow> 'f quat_data \<Rightarrow> 'f quat_data \<Rightarrow> 'f quat_data \<Rightarrow> 'f \<Rightarrow> 'f quat_data \<times> int" where
  "linInterp A out q1 q2 alpha =
     (let minusQ2 = q2\<lparr>qa := f_neg A (qa q2), qb := f_neg A (qb q2), qc := f_neg A (qc q2), qd := f_neg A (qd q2)\<rparr>;
          oma = f_sub A (f_lit A 1 1) alpha;
          oneMinusAlpha = (if f_less A (quat_dist A q1 minusQ2) (quat_dist A q1 q2) then f_neg A oma else oma);
          mix = (\<lambda>f. f_add A (f_mul A alpha (f q1)) (f_mul A oneMinusAlpha (f q2)))
      in renormalize A (out\<lparr>qa := mix qa, qb := mix qb, qc := mix qc, qd := mix qd\<rparr>))"

section \<open>Exact arithmetic\<close>

definition real_arith :: "real farith" where
  "real_arith =
     \<lparr>f_of_int = of_int, f_lit = (\<lambda>n d. of_int n / of_int d), f_add = (+), f_sub = (-), f_mul = (*),
      f_div = (/), f_neg = uminus, f_abs = abs, f_sqrt = sqrt, f_sin = sin, f_cos = cos,
      f_copysign = (\<lambda>x s. if s < 0 then - \<bar>x\<bar> else \<bar>x\<bar>), f_less = (<), f_le = (\<le>), f_eq = (=)\<rparr>"

lemma real_arith_simps [simp]:
  "f_of_int real_arith = of_int" "f_lit real_arith n d = of_int n / of_int d"
  "f_add real_arith = (+)" "f_sub real_arith = (-)" "f_mul real_arith = (*)"
  "f_div real_arith = (/)" "f_neg real_arith = uminus" "f_abs real_arith = abs"
  "f_sqrt real_arith = sqrt" "f_sin real_arith = sin" "f_cos real_arith = cos"
  "f_copysign real_arith = (\<lambda>x s. if s < 0 then - \<bar>x\<bar> else \<bar>x\<bar>)"
  "f_less real_arith = (<)" "f_le real_arith = (\<le>)" "f_eq real_arith = (=)"
  by (simp_all add: real_arith_def)

abbreviation norm2 :: "real quat_data \<Rightarrow> real" where
  "norm2 q \<equiv> qa q * qa q + qb q * qb q + qc q * qc q + qd q * qd q"

lemma sq_mag_real [simp]: "sq_mag real_arith q = norm2 q"
  by (simp add: sq_mag_def)

lemma norm2_nonneg: "0 \<le> norm2 q"
  by simp

lemma norm2_mul_noRenormalize:
  "norm2 (mul_noRenormalize real_arith q q1 q2) = norm2 q1 * norm2 q2"
  by (simp add: mul_noRenormalize_def Let_def) algebra

text \<open>What normalization gives: the identity and an error for a quaternion that is nearly
  zero, otherwise a multiple of its argument whose squared norm is within the tolerance of
  one.\<close>

lemma renormalize_cases:
  shows "norm2 q < 1 / 10000 \<Longrightarrow>
      renormalize real_arith q = (q\<lparr>qa := 0, qb := 0, qc := 0, qd := 1\<rparr>, 1)"
    and "1 / 10000 \<le> norm2 q \<Longrightarrow> \<bar>norm2 q - 1\<bar> \<le> 1 / 10000 \<Longrightarrow> renormalize real_arith q = (q, 0)"
    and "1 / 10000 \<le> norm2 q \<Longrightarrow> 1 / 10000 < \<bar>norm2 q - 1\<bar> \<Longrightarrow>
      renormalize real_arith q =
        (let m = (if qd q < 0 then - sqrt (norm2 q) else sqrt (norm2 q))
         in (q\<lparr>qa := qa q / m, qb := qb q / m, qc := qc q / m, qd := qd q / m\<rparr>, 0))"
  by (auto simp: renormalize_def MAG_TOL_def Let_def abs_if split: if_splits)

lemma norm2_scaled:
  assumes "m * m = norm2 q" and "m \<noteq> 0"
  shows "norm2 (q\<lparr>qa := qa q / m, qb := qb q / m, qc := qc q / m, qd := qd q / m\<rparr>) = 1"
proof -
  have "norm2 (q\<lparr>qa := qa q / m, qb := qb q / m, qc := qc q / m, qd := qd q / m\<rparr>) = norm2 q / (m * m)"
    by (simp add: add_divide_distrib)
  also have "\<dots> = 1" using assms(2) by (simp only: assms(1) [symmetric]) simp
  finally show ?thesis .
qed

lemma renormalize_norm2:
  "\<bar>norm2 (fst (renormalize real_arith q)) - 1\<bar> \<le> 1 / 10000"
  "snd (renormalize real_arith q) = (if norm2 q < 1 / 10000 then 1 else 0)"
proof -
  let ?m = "if qd q < 0 then - sqrt (norm2 q) else sqrt (norm2 q)"
  have m: "?m * ?m = norm2 q" if "1 / 10000 \<le> norm2 q"
    by simp
  have "?m \<noteq> 0" if "1 / 10000 \<le> norm2 q"
    using that by (auto simp: real_sqrt_eq_zero_cancel_iff)
  with m have s: "norm2 (q\<lparr>qa := qa q / ?m, qb := qb q / ?m, qc := qc q / ?m, qd := qd q / ?m\<rparr>) = 1"
    if "1 / 10000 \<le> norm2 q" using that norm2_scaled by blast
  show "\<bar>norm2 (fst (renormalize real_arith q)) - 1\<bar> \<le> 1 / 10000"
    "snd (renormalize real_arith q) = (if norm2 q < 1 / 10000 then 1 else 0)"
    by (cases "norm2 q < 1 / 10000"; cases "\<bar>norm2 q - 1\<bar> \<le> 1 / 10000"; use s in
      \<open>simp add: renormalize_cases Let_def not_less not_le\<close>)+
qed

text \<open>Normalization fails exactly on a quaternion whose squared norm is below the
  tolerance, and then yields the identity; otherwise the result is a unit quaternion up to the
  tolerance. The scalar part is made nonnegative when the quaternion is rescaled, but a
  quaternion that is already a unit up to the tolerance is returned with whatever sign it
  had.\<close>

theorem renormalize_spec:
  "\<bar>norm2 (fst (renormalize real_arith q)) - 1\<bar> \<le> 1 / 10000
   \<and> (snd (renormalize real_arith q) = 1 \<longleftrightarrow> norm2 q < 1 / 10000)
   \<and> (if norm2 q \<ge> 1 / 10000 \<and> \<bar>norm2 q - 1\<bar> \<le> 1 / 10000
      then fst (renormalize real_arith q) = q
      else 0 \<le> qd (fst (renormalize real_arith q)))"
proof (cases "1 / 10000 \<le> norm2 q \<and> \<bar>norm2 q - 1\<bar> \<le> 1 / 10000")
  case True
  then show ?thesis using renormalize_norm2 [of q] by (auto simp: renormalize_cases(2))
next
  case False
  then have "0 \<le> qd (fst (renormalize real_arith q))"
    by (cases "norm2 q < 1 / 10000")
      (auto simp: renormalize_cases(1,3) Let_def not_le not_less divide_nonneg_nonneg divide_nonpos_nonneg)
  with False show ?thesis using renormalize_norm2 [of q] by auto
qed

text \<open>The product of two quaternions of nonvanishing norm succeeds with a unit result.\<close>

lemma quat_mul_unit:
  assumes "1 / 10000 \<le> norm2 q1 * norm2 q2"
  shows "snd (quat_mul real_arith q q1 q2) = 0"
    and "\<bar>norm2 (fst (quat_mul real_arith q q1 q2)) - 1\<bar> \<le> 1 / 10000"
proof -
  let ?p = "mul_noRenormalize real_arith q q1 q2"
  have "1 / 10000 \<le> norm2 ?p" using assms by (simp only: norm2_mul_noRenormalize)
  then show "snd (quat_mul real_arith q q1 q2) = 0"
    and "\<bar>norm2 (fst (quat_mul real_arith q q1 q2)) - 1\<bar> \<le> 1 / 10000"
    using renormalize_norm2 [of ?p] by (simp_all add: quat_mul_def case_prod_beta)
qed

text \<open>The quaternion product is multiplicative on squared norms, and multiplying a
  quaternion by \<open>quat_inv\<close> of itself gives its squared norm times the identity, so
  \<open>quat_inv\<close> is the inverse of a unit quaternion.\<close>

theorem quaternion_algebra:
  "norm2 (mul_noRenormalize real_arith q q1 q2) = norm2 q1 * norm2 q2
   \<and> mul_noRenormalize real_arith q q1 (quat_inv real_arith r q1)
       = q\<lparr>qa := 0, qb := 0, qc := 0, qd := norm2 q1\<rparr>
   \<and> mul_noRenormalize real_arith q (quat_inv real_arith r q1) q1
       = q\<lparr>qa := 0, qb := 0, qc := 0, qd := norm2 q1\<rparr>"
  using norm2_mul_noRenormalize [of q q1 q2]
  by (simp add: mul_noRenormalize_def quat_inv_def Let_def algebra_simps)

text \<open>Interpolation takes the short way: of the two quaternions that encode the second
  rotation it blends towards the one nearer to the first, then normalizes.\<close>

theorem linInterp_short_way:
  "\<exists>s. (s = 1 \<or> s = - 1)
   \<and> (\<forall>b. let t = (if b then 1 else - 1) in
        (qa q1 - s * qa q2)\<^sup>2 + (qb q1 - s * qb q2)\<^sup>2 + (qc q1 - s * qc q2)\<^sup>2 + (qd q1 - s * qd q2)\<^sup>2
      \<le> (qa q1 - t * qa q2)\<^sup>2 + (qb q1 - t * qb q2)\<^sup>2 + (qc q1 - t * qc q2)\<^sup>2 + (qd q1 - t * qd q2)\<^sup>2)
   \<and> linInterp real_arith out q1 q2 alpha = renormalize real_arith
       (out\<lparr>qa := alpha * qa q1 + (1 - alpha) * (s * qa q2), qb := alpha * qb q1 + (1 - alpha) * (s * qb q2),
            qc := alpha * qc q1 + (1 - alpha) * (s * qc q2), qd := alpha * qd q1 + (1 - alpha) * (s * qd q2)\<rparr>)"
proof -
  let ?far = "quat_dist real_arith q1 q2"
  let ?m = "q2\<lparr>qa := - qa q2, qb := - qb q2, qc := - qc q2, qd := - qd q2\<rparr>"
  let ?near = "quat_dist real_arith q1 ?m"
  define s where "s = (if ?near < ?far then - 1 else (1::real))"
  have s: "s = 1 \<or> s = - 1" by (simp add: s_def)
  have lin: "linInterp real_arith out q1 q2 alpha = renormalize real_arith
       (out\<lparr>qa := alpha * qa q1 + (1 - alpha) * (s * qa q2), qb := alpha * qb q1 + (1 - alpha) * (s * qb q2),
            qc := alpha * qc q1 + (1 - alpha) * (s * qc q2), qd := alpha * qd q1 + (1 - alpha) * (s * qd q2)\<rparr>)"
    by (cases "?near < ?far") (simp_all add: linInterp_def s_def Let_def algebra_simps)
  show ?thesis
    using s lin by (intro exI [of _ s] conjI)
      (auto simp: s_def quat_dist_def Let_def power2_eq_square split: if_splits)
qed

end
