(* ===== verification/Sensor_List.thy ===== *)
theory Sensor_List
  imports Sensors_Types
begin

text \<open>
  The table of sensors the HAL offers (\<open>stml0xx_hal/SensorList.cpp\<close> and the delay limits
  of \<open>SensorList.h\<close>). Each entry keeps the fields that decide how the sensor is driven;
  the descriptive ones (range, resolution, current draw, type string, permission), which no
  code of the HAL reads, are left out. The reporting mode and the wake-up flag are the two parts
  of \<open>flags\<close>. The eCompass entries are the constants that the poll context appends.
\<close>

datatype reporting_mode = Continuous | On_Change | One_Shot | Special_Reporting

record sensor_t =
  sensor_name :: string
  vendor :: string
  sensor_version :: int
  handle :: int
  stype :: sensor_type
  minDelay :: int
  maxDelay :: int
  fifoReserved :: int
  fifoMax :: int
  reporting :: reporting_mode
  wake_up :: bool

section \<open>Delay limits in microseconds\<close>

definition ACCEL_MAX_DELAY_US :: int where "ACCEL_MAX_DELAY_US = 200000"
definition ACCEL_MIN_DELAY_US :: int where "ACCEL_MIN_DELAY_US = 10000"
definition GYRO_MAX_DELAY_US :: int where "GYRO_MAX_DELAY_US = 200000"
definition GYRO_MIN_DELAY_US :: int where "GYRO_MIN_DELAY_US = 5000"
definition MAG_MAX_DELAY_US :: int where "MAG_MAX_DELAY_US = 200000"
definition MAG_MIN_DELAY_US :: int where "MAG_MIN_DELAY_US = 20000"
definition FUSION_MAX_DELAY_US :: int where "FUSION_MAX_DELAY_US = 10000"
definition STEP_MIN_DELAY_US :: int where "STEP_MIN_DELAY_US = 1000000"
definition STEP_MAX_DELAY_US :: int where "STEP_MAX_DELAY_US = 0"

lemmas delay_limits =
  ACCEL_MAX_DELAY_US_def ACCEL_MIN_DELAY_US_def GYRO_MAX_DELAY_US_def GYRO_MIN_DELAY_US_def
  MAG_MAX_DELAY_US_def MAG_MIN_DELAY_US_def FUSION_MAX_DELAY_US_def STEP_MIN_DELAY_US_def
  STEP_MAX_DELAY_US_def

section \<open>The entries\<close>

definition accelSensor :: sensor_t where
  "accelSensor =
     \<lparr>sensor_name = ''3-axis Accelerometer'', vendor = ''Bosch'', sensor_version = 1, handle = SENSORS_HANDLE_BASE + handle_num ID_A,
      stype = SENSOR_TYPE_ACCELEROMETER, minDelay = ACCEL_MIN_DELAY_US, maxDelay = ACCEL_MAX_DELAY_US,
      fifoReserved = 0, fifoMax = 0, reporting = Continuous, wake_up = False\<rparr>"

definition gyroSensor :: sensor_t where
  "gyroSensor =
     \<lparr>sensor_name = ''3-axis Gyroscope'', vendor = ''Bosch'', sensor_version = 1, handle = SENSORS_HANDLE_BASE + handle_num ID_G,
      stype = SENSOR_TYPE_GYROSCOPE, minDelay = GYRO_MIN_DELAY_US, maxDelay = GYRO_MAX_DELAY_US,
      fifoReserved = 0, fifoMax = 0, reporting = Continuous, wake_up = False\<rparr>"

definition uncalibGyroSensor :: sensor_t where
  "uncalibGyroSensor =
     \<lparr>sensor_name = ''3-axis Uncalibrated Gyroscope'', vendor = ''Bosch'', sensor_version = 1, handle = SENSORS_HANDLE_BASE + handle_num ID_UNCALIB_GYRO,
      stype = SENSOR_TYPE_GYROSCOPE_UNCALIBRATED, minDelay = GYRO_MIN_DELAY_US, maxDelay = GYRO_MAX_DELAY_US,
      fifoReserved = 0, fifoMax = 0, reporting = Continuous, wake_up = False\<rparr>"

definition gameRvSensor :: sensor_t where
  "gameRvSensor =
     \<lparr>sensor_name = ''Game Rotation Vector'', vendor = ''Motorola'', sensor_version = 1, handle = SENSORS_HANDLE_BASE + handle_num ID_GAME_RV,
      stype = SENSOR_TYPE_GAME_ROTATION_VECTOR, minDelay = GYRO_MIN_DELAY_US, maxDelay = FUSION_MAX_DELAY_US,
      fifoReserved = 0, fifoMax = 0, reporting = Continuous, wake_up = False\<rparr>"

definition gravitySensor :: sensor_t where
  "gravitySensor =
     \<lparr>sensor_name = ''Gravity'', vendor = ''Motorola'', sensor_version = 1, handle = SENSORS_HANDLE_BASE + handle_num ID_GRAVITY,
      stype = SENSOR_TYPE_GRAVITY, minDelay = ACCEL_MIN_DELAY_US, maxDelay = FUSION_MAX_DELAY_US,
      fifoReserved = 0, fifoMax = 0, reporting = Continuous, wake_up = False\<rparr>"

definition linearAccelSensor :: sensor_t where
  "linearAccelSensor =
     \<lparr>sensor_name = ''Linear Acceleration'', vendor = ''Motorola'', sensor_version = 1, handle = SENSORS_HANDLE_BASE + handle_num ID_LA,
      stype = SENSOR_TYPE_LINEAR_ACCELERATION, minDelay = ACCEL_MIN_DELAY_US, maxDelay = FUSION_MAX_DELAY_US,
      fifoReserved = 0, fifoMax = 0, reporting = Continuous, wake_up = False\<rparr>"

definition stepDetectorSensor :: sensor_t where
  "stepDetectorSensor =
     \<lparr>sensor_name = ''Step Detector sensor'', vendor = ''Bosch'', sensor_version = 1, handle = SENSORS_HANDLE_BASE + handle_num ID_STEP_DETECTOR,
      stype = SENSOR_TYPE_STEP_DETECTOR, minDelay = 0, maxDelay = 0,
      fifoReserved = 0, fifoMax = 0, reporting = Special_Reporting, wake_up = False\<rparr>"

definition stepCounterSensor :: sensor_t where
  "stepCounterSensor =
     \<lparr>sensor_name = ''Step Counter sensor'', vendor = ''Bosch'', sensor_version = 1, handle = SENSORS_HANDLE_BASE + handle_num ID_STEP_COUNTER,
      stype = SENSOR_TYPE_STEP_COUNTER, minDelay = STEP_MIN_DELAY_US, maxDelay = STEP_MAX_DELAY_US,
      fifoReserved = 0, fifoMax = 0, reporting = On_Change, wake_up = False\<rparr>"

definition lightSensor :: sensor_t where
  "lightSensor =
     \<lparr>sensor_name = ''Ambient Light sensor'', vendor = ''TAOS'', sensor_version = 1, handle = SENSORS_HANDLE_BASE + handle_num ID_L,
      stype = SENSOR_TYPE_LIGHT, minDelay = 0, maxDelay = 0,
      fifoReserved = 0, fifoMax = 0, reporting = On_Change, wake_up = False\<rparr>"

definition proximitySensor :: sensor_t where
  "proximitySensor =
     \<lparr>sensor_name = ''Proximity sensor'', vendor = ''TAOS'', sensor_version = 1, handle = SENSORS_HANDLE_BASE + handle_num ID_P,
      stype = SENSOR_TYPE_PROXIMITY, minDelay = 0, maxDelay = 0,
      fifoReserved = 0, fifoMax = 0, reporting = On_Change, wake_up = True\<rparr>"

definition displayRotateSensor :: sensor_t where
  "displayRotateSensor =
     \<lparr>sensor_name = ''Display Rotation sensor'', vendor = ''Motorola'', sensor_version = 1, handle = SENSORS_HANDLE_BASE + handle_num ID_DR,
      stype = SENSOR_TYPE_DISPLAY_ROTATE, minDelay = 0, maxDelay = 0,
      fifoReserved = 0, fifoMax = 0, reporting = On_Change, wake_up = False\<rparr>"

definition flatUpSensor :: sensor_t where
  "flatUpSensor =
     \<lparr>sensor_name = ''Flat Up'', vendor = ''Motorola'', sensor_version = 1, handle = SENSORS_HANDLE_BASE + handle_num ID_FU,
      stype = SENSOR_TYPE_FLAT_UP, minDelay = 0, maxDelay = 0,
      fifoReserved = 0, fifoMax = 0, reporting = On_Change, wake_up = True\<rparr>"

definition flatDownSensor :: sensor_t where
  "flatDownSensor =
     \<lparr>sensor_name = ''Flat Down'', vendor = ''Motorola'', sensor_version = 1, handle = SENSORS_HANDLE_BASE + handle_num ID_FD,
      stype = SENSOR_TYPE_FLAT_DOWN, minDelay = 0, maxDelay = 0,
      fifoReserved = 0, fifoMax = 0, reporting = On_Change, wake_up = True\<rparr>"

definition stowedSensor :: sensor_t where
  "stowedSensor =
     \<lparr>sensor_name = ''Stowed'', vendor = ''Motorola'', sensor_version = 1, handle = SENSORS_HANDLE_BASE + handle_num ID_S,
      stype = SENSOR_TYPE_STOWED, minDelay = 0, maxDelay = 0,
      fifoReserved = 0, fifoMax = 0, reporting = On_Change, wake_up = True\<rparr>"

definition cameraSensor :: sensor_t where
  "cameraSensor =
     \<lparr>sensor_name = ''Camera Activation sensor'', vendor = ''Motorola'', sensor_version = 1, handle = SENSORS_HANDLE_BASE + handle_num ID_CA,
      stype = SENSOR_TYPE_CAMERA_ACTIVATE, minDelay = 0, maxDelay = 0,
      fifoReserved = 0, fifoMax = 0, reporting = Special_Reporting, wake_up = True\<rparr>"

definition chopchopSensor :: sensor_t where
  "chopchopSensor =
     \<lparr>sensor_name = ''ChopChop Gesture'', vendor = ''Motorola'', sensor_version = 1, handle = SENSORS_HANDLE_BASE + handle_num ID_CC,
      stype = SENSOR_TYPE_CHOPCHOP_GESTURE, minDelay = 0, maxDelay = 0,
      fifoReserved = 0, fifoMax = 0, reporting = Special_Reporting, wake_up = True\<rparr>"

definition liftSensor :: sensor_t where
  "liftSensor =
     \<lparr>sensor_name = ''Lift Gesture Virtual Sensor'', vendor = ''Motorola'', sensor_version = 1, handle = SENSORS_HANDLE_BASE + handle_num ID_LF,
      stype = SENSOR_TYPE_LIFT_GESTURE, minDelay = 0, maxDelay = 0,
      fifoReserved = 0, fifoMax = 0, reporting = Special_Reporting, wake_up = True\<rparr>"

definition rearProxSensor :: sensor_t where
  "rearProxSensor =
     \<lparr>sensor_name = ''Rear Proximity sensor'', vendor = ''Motorola'', sensor_version = 1, handle = SENSORS_HANDLE_BASE + handle_num ID_RP,
      stype = SENSOR_TYPE_PROXIMITY, minDelay = 0, maxDelay = 10000000,
      fifoReserved = 0, fifoMax = 0, reporting = On_Change, wake_up = True\<rparr>"

definition rearProx2Sensor :: sensor_t where
  "rearProx2Sensor =
     \<lparr>sensor_name = ''Rear Proximity sensor, Secondary'', vendor = ''Motorola'', sensor_version = 1, handle = SENSORS_HANDLE_BASE + handle_num ID_RP_2,
      stype = SENSOR_TYPE_PROXIMITY, minDelay = 0, maxDelay = 10000000,
      fifoReserved = 0, fifoMax = 0, reporting = On_Change, wake_up = True\<rparr>"

definition glanceSensor :: sensor_t where
  "glanceSensor =
     \<lparr>sensor_name = ''Glance Gesture'', vendor = ''Motorola'', sensor_version = 1, handle = SENSORS_HANDLE_BASE + handle_num ID_GLANCE_GESTURE,
      stype = SENSOR_TYPE_GLANCE_GESTURE, minDelay = 0, maxDelay = 0,
      fifoReserved = 0, fifoMax = 0, reporting = Special_Reporting, wake_up = True\<rparr>"

definition motoGlanceSensor :: sensor_t where
  "motoGlanceSensor =
     \<lparr>sensor_name = ''Moto Glance Gesture'', vendor = ''Motorola'', sensor_version = 1, handle = SENSORS_HANDLE_BASE + handle_num ID_MOTO_GLANCE_GESTURE,
      stype = SENSOR_TYPE_MOTO_GLANCE_GESTURE, minDelay = 0, maxDelay = 0,
      fifoReserved = 0, fifoMax = 0, reporting = Special_Reporting, wake_up = True\<rparr>"

definition motionDetectSensor :: sensor_t where
  "motionDetectSensor =
     \<lparr>sensor_name = ''Motion Detect'', vendor = ''Motorola'', sensor_version = 1, handle = SENSORS_HANDLE_BASE + handle_num ID_MOTION_DETECT,
      stype = SENSOR_TYPE_MOTION_DETECT, minDelay = - 1, maxDelay = 0,
      fifoReserved = 0, fifoMax = 0, reporting = One_Shot, wake_up = True\<rparr>"

definition stationaryDetectSensor :: sensor_t where
  "stationaryDetectSensor =
     \<lparr>sensor_name = ''Stationary Detect'', vendor = ''Motorola'', sensor_version = 1, handle = SENSORS_HANDLE_BASE + handle_num ID_STATIONARY_DETECT,
      stype = SENSOR_TYPE_STATIONARY_DETECT, minDelay = - 1, maxDelay = 0,
      fifoReserved = 0, fifoMax = 0, reporting = One_Shot, wake_up = True\<rparr>"

definition threeAxCalMagSensorType :: sensor_t where
  "threeAxCalMagSensorType =
     \<lparr>sensor_name = ''3-axis Calibrated Magnetic field sensor'', vendor = ''Asahi Kasei'', sensor_version = 1, handle = SENSORS_HANDLE_BASE + handle_num ID_M,
      stype = SENSOR_TYPE_MAGNETIC_FIELD, minDelay = MAG_MIN_DELAY_US, maxDelay = MAG_MAX_DELAY_US,
      fifoReserved = 0, fifoMax = 0, reporting = Continuous, wake_up = False\<rparr>"

definition threeAxunCalMagSensorType :: sensor_t where
  "threeAxunCalMagSensorType =
     \<lparr>sensor_name = ''3-axis Uncalibrated Magnetic field sensor'', vendor = ''Asahi Kasei'', sensor_version = 1, handle = SENSORS_HANDLE_BASE + handle_num ID_UM,
      stype = SENSOR_TYPE_MAGNETIC_FIELD_UNCALIBRATED, minDelay = MAG_MIN_DELAY_US, maxDelay = MAG_MAX_DELAY_US,
      fifoReserved = 0, fifoMax = 0, reporting = Continuous, wake_up = False\<rparr>"

definition orientationSensorType :: sensor_t where
  "orientationSensorType =
     \<lparr>sensor_name = ''Orientation sensor'', vendor = ''Asahi Kasei'', sensor_version = 1, handle = SENSORS_HANDLE_BASE + handle_num ID_OR,
      stype = SENSOR_TYPE_ORIENTATION, minDelay = MAG_MIN_DELAY_US, maxDelay = MAG_MAX_DELAY_US,
      fifoReserved = 0, fifoMax = 0, reporting = Continuous, wake_up = False\<rparr>"

definition geoRotationSensorType :: sensor_t where
  "geoRotationSensorType =
     \<lparr>sensor_name = ''Geomagnetic Rotation Vector'', vendor = ''Motorola'', sensor_version = 1, handle = SENSORS_HANDLE_BASE + handle_num ID_GEOMAG_RV,
      stype = SENSOR_TYPE_GEOMAGNETIC_ROTATION_VECTOR, minDelay = ACCEL_MIN_DELAY_US, maxDelay = 0,
      fifoReserved = 0, fifoMax = 0, reporting = Continuous, wake_up = False\<rparr>"

definition rotationSensorType :: sensor_t where
  "rotationSensorType =
     \<lparr>sensor_name = ''Rotation Vector'', vendor = ''Motorola'', sensor_version = 1, handle = SENSORS_HANDLE_BASE + handle_num ID_RV,
      stype = SENSOR_TYPE_ROTATION_VECTOR, minDelay = GYRO_MIN_DELAY_US, maxDelay = 0,
      fifoReserved = 0, fifoMax = 0, reporting = Continuous, wake_up = False\<rparr>"

section \<open>The table\<close>

text \<open>The initial value of \<open>sSensorList\<close>.\<close>

definition sSensorList_init :: "sensor_t list" where
  "sSensorList_init =
    [accelSensor, gyroSensor, uncalibGyroSensor, gameRvSensor,
     gravitySensor, linearAccelSensor, stepDetectorSensor, stepCounterSensor,
     lightSensor, proximitySensor, displayRotateSensor, flatUpSensor,
     flatDownSensor, stowedSensor, cameraSensor, chopchopSensor,
     liftSensor, rearProxSensor, rearProx2Sensor, glanceSensor,
     motoGlanceSensor, motionDetectSensor, stationaryDetectSensor]"

definition eCompass_sensors :: "sensor_t list" where
  "eCompass_sensors =
    [threeAxCalMagSensorType, threeAxunCalMagSensorType, orientationSensorType,
     geoRotationSensorType, rotationSensorType]"

lemmas sensor_entries =
  accelSensor_def gyroSensor_def uncalibGyroSensor_def gameRvSensor_def
  gravitySensor_def linearAccelSensor_def stepDetectorSensor_def stepCounterSensor_def
  lightSensor_def proximitySensor_def displayRotateSensor_def flatUpSensor_def
  flatDownSensor_def stowedSensor_def cameraSensor_def chopchopSensor_def
  liftSensor_def rearProxSensor_def rearProx2Sensor_def glanceSensor_def
  motoGlanceSensor_def motionDetectSensor_def stationaryDetectSensor_def threeAxCalMagSensorType_def
  threeAxunCalMagSensorType_def orientationSensorType_def geoRotationSensorType_def rotationSensorType_def

declare sensor_entries [hal_defs]

text \<open>The entry \<open>setDelay\<close> finds for a handle: the first with that handle.\<close>

definition entry_of :: "sensor_t list \<Rightarrow> int \<Rightarrow> sensor_t option" where
  "entry_of ls h = List.find (\<lambda>e. SENSORS_HANDLE_BASE + h = handle e) ls"

end
