(* ===== verification/Sensor_Fusion.thy ===== *)
theory Sensor_Fusion
  imports Quaternions Sensor_List
begin

text \<open>
  The fusion sensors of the hub HAL (\<open>GyroIntegration.cpp\<close>, \<open>GameRotationVector.cpp\<close>,
  \<open>LinearAccelGravity.cpp\<close>, \<open>GeoMagRotationVector.cpp\<close>, \<open>RotationVector.cpp\<close>).
  Each \<open>processFusion\<close> updates the shared fusion data; its function-local static variables
  are the component's state record.
\<close>

section \<open>Tuning constants\<close>

definition SIX_AXIS_FILTER_ALPHA :: "'f farith \<Rightarrow> 'f" where "SIX_AXIS_FILTER_ALPHA A = f_lit A 16 1000"
definition NINE_AXIS_FILTER_ALPHA_FAST :: "'f farith \<Rightarrow> 'f" where "NINE_AXIS_FILTER_ALPHA_FAST A = f_lit A 0 1"
definition NINE_AXIS_FILTER_ALPHA_SLOW :: "'f farith \<Rightarrow> 'f" where "NINE_AXIS_FILTER_ALPHA_SLOW A = f_lit A 3 1000"
definition NINE_AXIS_FILTER_SELECT_THRESH :: "'f farith \<Rightarrow> 'f" where "NINE_AXIS_FILTER_SELECT_THRESH A = f_lit A 1 2"

text \<open>\<open>FLT_MAX\<close> and \<open>2*FLT_EPSILON\<close> of single precision.\<close>

definition FLT_MAX :: "'f farith \<Rightarrow> 'f" where "FLT_MAX A = f_lit A (2 ^ 128 - 2 ^ 104) 1"
definition TWO_FLT_EPSILON :: "'f farith \<Rightarrow> 'f" where "TWO_FLT_EPSILON A = f_lit A 2 (2 ^ 23)"

section \<open>Gyro integration\<close>

record 'f gyro_state =
  gis_initialized :: bool
  quatGyro :: "'f quat_data"

definition integrate ::
  "'f farith \<Rightarrow> 'f gyro_state \<Rightarrow> 'f quat_data \<Rightarrow> 'f quat_data \<Rightarrow> 'f fusion_data \<Rightarrow> 'f gyro_state \<times> 'f quat_data" where
  "integrate A gis0 rvOut rvIn fd =
     (let gis1 = (if \<not> gis_initialized gis0
            then gis0\<lparr>quatGyro := (quatGyro gis0)\<lparr>qa := qa rvIn, qb := qb rvIn, qc := qc rvIn, qd := qd rvIn, qts := qts rvIn\<rparr>,
                      gis_initialized := True\<rparr>
            else gis0);
          (dt, gis2) =
            (if cts (fd_gyro fd) \<noteq> qts (quatGyro gis1)
             then (f_div A (f_of_int A (cts (fd_gyro fd) - qts (quatGyro gis1))) (f_lit A 1000000000 1),
                   gis1\<lparr>quatGyro := (quatGyro gis1)\<lparr>qts := cts (fd_gyro fd)\<rparr>\<rparr>)
             else (f_div A (f_of_int A GYRO_MIN_DELAY_US) (f_lit A 1000000 1), gis1));
          gyroX = cx (fd_gyro fd); gyroY = cy (fd_gyro fd); gyroZ = cz (fd_gyro fd);
          gyroMag = f_add A (f_add A (f_mul A gyroX gyroX) (f_mul A gyroY gyroY)) (f_mul A gyroZ gyroZ);
          (gyroMag, gyroX, gyroY, gyroZ, halfTheta) =
            (if f_less A (f_lit A 1 100000) gyroMag
             then let m = f_sqrt A gyroMag
                  in (m, f_div A gyroX m, f_div A gyroY m, f_div A gyroZ m,
                      f_div A (f_mul A dt m) (f_lit A 2 1))
             else (gyroMag, gyroX, gyroY, gyroZ, f_lit A 0 1));
          sinHalfTheta = f_sin A halfTheta;
          cosHalfTheta = f_cos A halfTheta;
          quatGyroDelta = (quatGyro gis2)\<lparr>qa := f_mul A sinHalfTheta gyroX, qb := f_mul A sinHalfTheta gyroY,
             qc := f_mul A sinHalfTheta gyroZ, qd := cosHalfTheta\<rparr>;
          quatGyroDelta = fst (renormalize A quatGyroDelta);
          (q, bad) = quat_mul A (quatGyro gis2) (quatGyro gis2) quatGyroDelta;
          gis3 = gis2\<lparr>quatGyro := q\<rparr>
      in if bad \<noteq> 0 then (gis3\<lparr>gis_initialized := False\<rparr>, rvOut)
         else
           let nine_axis_filter =
                 (if f_less A gyroMag (NINE_AXIS_FILTER_SELECT_THRESH A)
                  then NINE_AXIS_FILTER_ALPHA_SLOW A else NINE_AXIS_FILTER_ALPHA_FAST A);
               q' = fst (linInterp A (quatGyro gis3) rvIn (quatGyro gis3) nine_axis_filter)
           in (gis3\<lparr>quatGyro := q'\<rparr>, q'))"

section \<open>The game rotation vector\<close>

definition swap_at :: "nat \<Rightarrow> nat \<Rightarrow> 'a list \<Rightarrow> 'a list" where
  "swap_at i k xs = xs[i := xs ! k, k := xs ! i]"

text \<open>The inner loop: the position from \<open>i\<close> on of the largest absolute value.\<close>

definition perm_pick :: "'f farith \<Rightarrow> 'f list \<Rightarrow> nat \<Rightarrow> nat \<Rightarrow> nat" where
  "perm_pick A a i len =
     fst (fold (\<lambda>j (k, maxVal). if f_less A maxVal (f_abs A (a ! j)) then (j, f_abs A (a ! j)) else (k, maxVal))
       [i..<len] (i, f_neg A (FLT_MAX A)))"

definition perm_step :: "'f farith \<Rightarrow> nat \<Rightarrow> nat \<Rightarrow> nat list \<times> 'f list \<times> nat \<Rightarrow> nat list \<times> 'f list \<times> nat" where
  "perm_step A len i = (\<lambda>(p, a, swaps).
     let k = perm_pick A a i len
     in (swap_at i k p, swap_at i k a, swaps + (if i = k then 0 else 1)))"

text \<open>The permutation, the sorted array and the sign.\<close>

definition permSort :: "'f farith \<Rightarrow> 'f list \<Rightarrow> nat list \<times> 'f list \<times> int" where
  "permSort A a =
     (let len = length a;
          (p, a', swaps) = fold (perm_step A len) [0..<len] ([0..<len], a, 0)
      in (p, a', if swaps mod 2 \<noteq> 0 then - 1 else 1))"

record 'f game_rv =
  g_gis :: "'f gyro_state"
  g_initialized :: bool
  g_nRaw :: "'f vec3"
  g_h :: "'f vec3"

definition dot3 :: "'f farith \<Rightarrow> 'f vec3 \<Rightarrow> 'f vec3 \<Rightarrow> 'f" where
  "dot3 A = (\<lambda>(u0, u1, u2) (v0, v1, v2). f_add A (f_add A (f_mul A u0 v0) (f_mul A u1 v1)) (f_mul A u2 v2))"

definition vec_of_list :: "'f list \<Rightarrow> 'f vec3" where
  "vec_of_list xs = (xs ! 0, xs ! 1, xs ! 2)"

definition list_of_vec :: "'f vec3 \<Rightarrow> 'f list" where
  "list_of_vec = (\<lambda>(u, v, w). [u, v, w])"

definition low_pass :: "'f farith \<Rightarrow> 'f vec3 \<Rightarrow> 'f vec3 \<Rightarrow> 'f vec3" where
  "low_pass A = (\<lambda>(n0, n1, n2) (r0, r1, r2).
     let alpha = SIX_AXIS_FILTER_ALPHA A; rest = f_sub A (f_lit A 1 1) alpha;
         f = (\<lambda>n r. f_add A (f_mul A alpha n) (f_mul A rest r))
     in (f n0 r0, f n1 r1, f n2 r2))"

definition scale_down :: "'f farith \<Rightarrow> 'f vec3 \<Rightarrow> 'f \<Rightarrow> 'f vec3" where
  "scale_down A = (\<lambda>(u0, u1, u2) m. (f_div A u0 m, f_div A u1 m, f_div A u2 m))"

text \<open>The rotation vector of the orthonormal system east, north, up, written over the vector
  and accuracy of the output quaternion; both 6-axis algorithms end with it.\<close>

definition quat_of_axes :: "'f farith \<Rightarrow> 'f vec3 \<Rightarrow> 'f vec3 \<Rightarrow> 'f vec3 \<Rightarrow> 'f quat_data \<Rightarrow> 'f quat_data" where
  "quat_of_axes A = (\<lambda>(h0, h1, h2) (m0, m1, m2) (n0, n1, n2) q.
     let add = f_add A; sub = f_sub A; one = f_lit A 1 1; half = f_lit A 1 2;
         root = (\<lambda>v. f_sqrt A (f_abs A v));
         r = root (add (add (add one h0) m1) n2)
     in q\<lparr>qa := f_copysign A (f_mul A half (root (sub (sub (add one h0) m1) n2))) (sub n1 m2),
          qb := f_copysign A (f_mul A half (root (sub (add (sub one h0) m1) n2))) (sub h2 n0),
          qc := f_copysign A (f_mul A half (root (add (sub (sub one h0) m1) n2))) (sub m0 h1),
          qd := f_mul A half r,
          accuracy := f_lit A 0 1\<rparr>)"

text \<open>A vector orthogonal to the accelerometer's: components 1, 1 and a quotient by the
  largest component.\<close>

definition initial_east :: "'f farith \<Rightarrow> 'f vec3 \<Rightarrow> nat list \<Rightarrow> 'f vec3 \<Rightarrow> 'f vec3" where
  "initial_east A nRaw p h =
     (let r = list_of_vec nRaw;
          h1 = (list_of_vec h)[p ! 2 := f_lit A 1 1];
          h2 = h1[p ! 1 := f_lit A 1 1];
          h3 = h2[p ! 0 := f_div A (f_neg A (f_add A (r ! (p ! 2)) (r ! (p ! 1)))) (r ! (p ! 0))]
      in vec_of_list h3)"

definition game_processFusion ::
  "'f farith \<Rightarrow> 'f game_rv \<times> 'f fusion_data \<Rightarrow> bool \<Rightarrow> bool \<times> 'f game_rv \<times> 'f fusion_data" where
  "game_processFusion A = (\<lambda>(g0, fd0) reset.
     let g1 = (if reset then g0\<lparr>g_gis := (g_gis g0)\<lparr>gis_initialized := False\<rparr>, g_initialized := False\<rparr> else g0);
         n = (cx (fd_accel fd0), cy (fd_accel fd0), cz (fd_accel fd0));
         fd1 = fd0\<lparr>fd_gameRotation := (fd_gameRotation fd0)\<lparr>qts := cts (fd_gyro fd0)\<rparr>\<rparr>;
         (freefall, g2) =
           (if g_initialized g1 then (False, g1\<lparr>g_nRaw := low_pass A n (g_nRaw g1)\<rparr>)
            else
              let p = fst (permSort A (list_of_vec n));
                  g = g1\<lparr>g_nRaw := n\<rparr>;
                  biggest = f_abs A (list_of_vec n ! (p ! 0))
              in if f_le A biggest (TWO_FLT_EPSILON A) then (True, g)
                 else (False, g\<lparr>g_h := initial_east A n p (g_h g), g_initialized := True\<rparr>))
     in if freefall then (False, g2, fd1)
        else
          let tmpNorm = f_sqrt A (dot3 A (g_nRaw g2) (g_nRaw g2)) in
          if f_less A tmpNorm (TWO_FLT_EPSILON A) then (False, g2, fd1)
          else
            let n = scale_down A (g_nRaw g2) tmpNorm;
                projection = dot3 A (g_h g2) n;
                h = (case (g_h g2, n) of ((h0, h1, h2), (n0, n1, n2)) \<Rightarrow>
                       (f_sub A h0 (f_mul A projection n0), f_sub A h1 (f_mul A projection n1),
                        f_sub A h2 (f_mul A projection n2)));
                tmpNorm = f_sqrt A (dot3 A h h)
            in if f_less A tmpNorm (TWO_FLT_EPSILON A) then (False, g2\<lparr>g_h := h\<rparr>, fd1)
               else
                 let h = scale_down A h tmpNorm;
                     m = cross3 A n h;
                     rv = quat_of_axes A h m n (fd_gameRotation fd1);
                     (gis, rv') = integrate A (g_gis g2) rv rv (fd1\<lparr>fd_gameRotation := rv\<rparr>);
                     zero = f_lit A 0 1; one = f_lit A 1 1;
                     qx = \<lparr>qa = one, qb = zero, qc = zero, qd = zero, accuracy = zero, qts = 0\<rparr>;
                     qEast = \<lparr>qa = zero, qb = zero, qc = zero, qd = zero, accuracy = zero, qts = 0\<rparr>;
                     qEast = quat_inv A qEast rv';
                     qx = fst (quat_mul A qx qx rv');
                     qEast = mul_noRenormalize A qEast qEast qx
                 in (True, g2\<lparr>g_gis := gis, g_h := (qa qEast, qb qEast, qc qEast)\<rparr>,
                     fd1\<lparr>fd_gameRotation := rv'\<rparr>))"

section \<open>Linear acceleration and gravity\<close>

text \<open>\<open>gravity_earth\<close> is \<open>GRAVITY_EARTH\<close> of the Android headers.\<close>

definition lag_processFusion :: "'f farith \<Rightarrow> 'f \<Rightarrow> 'f fusion_data \<Rightarrow> bool \<Rightarrow> bool \<times> 'f fusion_data" where
  "lag_processFusion A gravity_earth fd reset =
     (let zero = f_lit A 0 1; one = f_lit A 1 1;
          qz = \<lparr>qa = zero, qb = zero, qc = one, qd = zero, accuracy = zero, qts = 0\<rparr>;
          qGrav = \<lparr>qa = zero, qb = zero, qc = zero, qd = one, accuracy = zero, qts = 0\<rparr>;
          qGrav = quat_inv A qGrav (fd_gameRotation fd);
          qz = fst (quat_mul A qz qz (fd_gameRotation fd));
          qGrav = mul_noRenormalize A qGrav qGrav qz;
          mag = f_sqrt A (sq_mag A qGrav);
          grav = \<lparr>cx = f_mul A (f_div A (qa qGrav) mag) gravity_earth,
                  cy = f_mul A (f_div A (qb qGrav) mag) gravity_earth,
                  cz = f_mul A (f_div A (qc qGrav) mag) gravity_earth,
                  cts = qts (fd_gameRotation fd)\<rparr>;
          lin = \<lparr>cx = f_sub A (cx (fd_accel fd)) (cx grav), cy = f_sub A (cy (fd_accel fd)) (cy grav),
                 cz = f_sub A (cz (fd_accel fd)) (cz grav), cts = qts (fd_gameRotation fd)\<rparr>
      in (True, fd\<lparr>fd_gravity := grav, fd_linearAccel := lin\<rparr>))"

section \<open>The geomagnetic rotation vector\<close>

definition MAG_COUNTS :: "8 word" where "MAG_COUNTS = 10"

record 'f geomag =
  m_initialized :: bool
  mag_cnt :: "8 word"
  m_nRaw :: "'f vec3"
  m_mRaw :: "'f vec3"

definition vec_neq :: "'f farith \<Rightarrow> 'f vec3 \<Rightarrow> 'f vec3 \<Rightarrow> bool" where
  "vec_neq A = (\<lambda>(u0, u1, u2) (v0, v1, v2). \<not> f_eq A u0 v0 \<or> \<not> f_eq A u1 v1 \<or> \<not> f_eq A u2 v2)"

definition geomag_processFusion ::
  "'f farith \<Rightarrow> 'f geomag \<times> 'f fusion_data \<Rightarrow> bool \<Rightarrow> bool \<times> 'f geomag \<times> 'f fusion_data" where
  "geomag_processFusion A = (\<lambda>(s0, fd0) reset.
     if reset then (False, s0\<lparr>m_initialized := False, mag_cnt := MAG_COUNTS\<rparr>, fd0)
     else
       let n = (cx (fd_accel fd0), cy (fd_accel fd0), cz (fd_accel fd0));
           m = (cx (fd_mag fd0), cy (fd_mag fd0), cz (fd_mag fd0));
           fd1 = fd0\<lparr>fd_geoMagRotation := (fd_geoMagRotation fd0)\<lparr>qts := cts (fd_accel fd0)\<rparr>\<rparr>;
           s1 = (if m_initialized s0
                 then s0\<lparr>m_mRaw := low_pass A m (m_mRaw s0), m_nRaw := low_pass A n (m_nRaw s0)\<rparr>
                 else
                   let s = (if vec_neq A (m_mRaw s0) m
                            then let c = mag_cnt s0
                                 in s0\<lparr>mag_cnt := c - 1, m_initialized := (c = 0 \<or> m_initialized s0)\<rparr>
                            else s0)
                   in s\<lparr>m_mRaw := m, m_nRaw := n\<rparr>);
           h = cross3 A (m_mRaw s1) (m_nRaw s1);
           hNorm = f_sqrt A (dot3 A h h)
       in if f_less A hNorm (f_lit A 1 10) then (m_initialized s1, s1, fd1)
          else
            let h = scale_down A h hNorm;
                aNorm = f_sqrt A (dot3 A (m_nRaw s1) (m_nRaw s1));
                n = scale_down A (m_nRaw s1) aNorm;
                m = cross3 A n h
            in (m_initialized s1, s1, fd1\<lparr>fd_geoMagRotation := quat_of_axes A h m n (fd_geoMagRotation fd1)\<rparr>))"

section \<open>The 9-axis rotation vector\<close>

definition rv_processFusion ::
  "'f farith \<Rightarrow> 'f gyro_state \<times> 'f fusion_data \<Rightarrow> bool \<Rightarrow> bool \<times> 'f gyro_state \<times> 'f fusion_data" where
  "rv_processFusion A = (\<lambda>(gis0, fd) reset.
     let gis1 = (if reset then gis0\<lparr>gis_initialized := False\<rparr> else gis0);
         (gis2, rv) = integrate A gis1 (fd_rotationVector fd) (fd_geoMagRotation fd) fd
     in (True, gis2, fd\<lparr>fd_rotationVector := rv\<lparr>accuracy := f_lit A 0 1, qts := cts (fd_gyro fd)\<rparr>\<rparr>))"

section \<open>The permutation sort\<close>

lemma swap_at_simps [simp]:
  "length (swap_at i k xs) = length xs"
  "i < length xs \<Longrightarrow> k < length xs \<Longrightarrow> set (swap_at i k xs) = set xs"
  "i < length xs \<Longrightarrow> k < length xs \<Longrightarrow> distinct (swap_at i k xs) = distinct xs"
  by (simp_all add: swap_at_def set_swap)

lemma nth_swap_at:
  "i < length xs \<Longrightarrow> k < length xs \<Longrightarrow> j < length xs \<Longrightarrow>
   swap_at i k xs ! j = (if j = k then xs ! i else if j = i then xs ! k else xs ! j)"
  by (simp add: swap_at_def nth_list_update)

lemma map_swap_at:
  "i < length xs \<Longrightarrow> k < length xs \<Longrightarrow> map f (swap_at i k xs) = swap_at i k (map f xs)"
  by (intro nth_equalityI) (simp_all add: nth_swap_at)

lemma perm_pick_range:
  assumes "i < len"
  shows "i \<le> perm_pick A a i len \<and> perm_pick A a i len < len"
proof -
  have "\<forall>j \<in> set js. i \<le> j \<and> j < len \<Longrightarrow> i \<le> fst s \<and> fst s < len \<Longrightarrow>
    i \<le> fst (fold (\<lambda>j (k, m). if f_less A m (f_abs A (a ! j)) then (j, f_abs A (a ! j)) else (k, m)) js s)
    \<and> fst (fold (\<lambda>j (k, m). if f_less A m (f_abs A (a ! j)) then (j, f_abs A (a ! j)) else (k, m)) js s) < len"
    for js s by (induction js arbitrary: s) (auto split: prod.splits)
  from this [of "[i..<len]" "(i, f_neg A (FLT_MAX A))"] assms show ?thesis
    by (simp add: perm_pick_def)
qed

definition perm_ok :: "'f list \<Rightarrow> nat list \<times> 'f list \<times> nat \<Rightarrow> bool" where
  "perm_ok a0 = (\<lambda>(p, a, swaps).
     length p = length a0 \<and> distinct p \<and> set p = {..<length a0} \<and> a = map ((!) a0) p)"

lemma perm_step_ok:
  assumes "perm_ok a0 s" and "i < length a0"
  shows "perm_ok a0 (perm_step A (length a0) i s)"
proof -
  obtain p a w where s: "s = (p, a, w)" by (cases s)
  have "perm_pick A a i (length a0) < length a0" using perm_pick_range assms(2) by blast
  with assms s show ?thesis
    by (auto simp: perm_ok_def perm_step_def Let_def map_swap_at)
qed

lemma fold_perm_ok:
  "perm_ok a0 s \<Longrightarrow> n \<le> length a0 \<Longrightarrow> perm_ok a0 (fold (perm_step A (length a0)) [0..<n] s)"
  by (induction n) (auto intro: perm_step_ok)

lemma perm_ok_start: "perm_ok a ([0..<length a], a, 0)"
  by (auto simp: perm_ok_def map_nth)

text \<open>Over the reals the position picked holds a largest absolute value.\<close>

lemma perm_pick_max:
  assumes "i \<le> j" and "j < len"
  shows "\<bar>a ! j\<bar> \<le> \<bar>a ! perm_pick real_arith a i len\<bar>"
proof -
  let ?f = "\<lambda>j (k, m). if m < \<bar>a ! j\<bar> then (j, \<bar>a ! j\<bar>) else (k, m)"
  have G: "snd s \<le> snd (fold ?f js s) \<and> (\<forall>j \<in> set js. \<bar>a ! j\<bar> \<le> snd (fold ?f js s))
    \<and> (fold ?f js s = s \<or> snd (fold ?f js s) = \<bar>a ! fst (fold ?f js s)\<bar>)" for js s
  proof (induction js arbitrary: s)
    case (Cons j js)
    show ?case using Cons [of "?f j s"] by (auto split: prod.splits if_splits)
  qed simp
  let ?s = "(i, - FLT_MAX real_arith)"
  let ?r = "fold ?f [i..<len] ?s"
  have big: "\<bar>a ! j\<bar> \<le> snd ?r" using G [where js = "[i..<len]" and s = ?s] assms by auto
  moreover have "?r \<noteq> ?s"
  proof
    assume "?r = ?s"
    with big have "\<bar>a ! j\<bar> \<le> - FLT_MAX real_arith" by simp
    then show False by (simp add: FLT_MAX_def)
  qed
  ultimately have "\<bar>a ! j\<bar> \<le> \<bar>a ! fst ?r\<bar>"
    using G [where js = "[i..<len]" and s = ?s] by auto
  then show ?thesis by (simp only: perm_pick_def real_arith_simps)
qed

definition sorted_upto :: "nat \<Rightarrow> real list \<Rightarrow> bool" where
  "sorted_upto n a \<longleftrightarrow> (\<forall>x < n. \<forall>y < length a. x \<le> y \<longrightarrow> \<bar>a ! y\<bar> \<le> \<bar>a ! x\<bar>)"

lemma perm_step_sorted:
  assumes "sorted_upto i a" and "i < length a"
  shows "sorted_upto (Suc i) (fst (snd (perm_step real_arith (length a) i (p, a, w))))"
proof -
  let ?k = "perm_pick real_arith a i (length a)"
  have k: "i \<le> ?k" "?k < length a" using perm_pick_range [OF assms(2)] by blast+
  have "\<bar>swap_at i ?k a ! y\<bar> \<le> \<bar>swap_at i ?k a ! x\<bar>"
    if "x \<le> i" "y < length a" "x \<le> y" for x y
  proof (cases "x = i")
    case True
    have le: "\<bar>a ! y\<bar> \<le> \<bar>a ! ?k\<bar>" "\<bar>a ! i\<bar> \<le> \<bar>a ! ?k\<bar>"
      using perm_pick_max [of i _ "length a" a] that assms(2) True by simp_all
    have at_i: "swap_at i ?k a ! i = a ! ?k"
      using k assms(2) by (simp add: nth_swap_at)
    have "swap_at i ?k a ! y = a ! y \<or> swap_at i ?k a ! y = a ! ?k \<or> swap_at i ?k a ! y = a ! i"
      using k assms(2) that by (simp add: nth_swap_at)
    with le at_i True show ?thesis by auto
  next
    case False
    then have "x < i" using that by simp
    moreover have "\<bar>a ! z\<bar> \<le> \<bar>a ! x\<bar>" if "x \<le> z" "z < length a" for z
      using assms(1) \<open>x < i\<close> that by (simp add: sorted_upto_def)
    ultimately show ?thesis using that k assms(2) by (simp add: nth_swap_at)
  qed
  then show ?thesis by (simp add: sorted_upto_def perm_step_def Let_def less_Suc_eq_le)
qed

lemma fold_perm_sorted:
  "n \<le> length a \<Longrightarrow> length (fst (snd (fold (perm_step real_arith (length a)) [0..<n] (p, a, 0)))) = length a
    \<and> sorted_upto n (fst (snd (fold (perm_step real_arith (length a)) [0..<n] (p, a, 0))))"
proof (induction n)
  case 0
  then show ?case by (simp add: sorted_upto_def)
next
  case (Suc n)
  let ?s = "fold (perm_step real_arith (length a)) [0..<n] (p, a, 0)"
  obtain q b w where s: "?s = (q, b, w)" by (cases ?s)
  with Suc have b: "length b = length a" "sorted_upto n b" by auto
  then have "sorted_upto (Suc n) (fst (snd (perm_step real_arith (length b) n (q, b, w))))"
    using Suc.prems by (intro perm_step_sorted) simp_all
  moreover have "length (fst (snd (perm_step real_arith (length b) n (q, b, w)))) = length b"
    by (simp add: perm_step_def Let_def)
  ultimately show ?case using b s by simp
qed

text \<open>The permutation sort of the game rotation vector returns a permutation of the
  positions and the array read through it, and the array is ordered by decreasing absolute
  value; the sign tells the parity of the swaps.\<close>

theorem permSort_correct:
  fixes a :: "real list"
  shows "distinct (fst (permSort real_arith a)) \<and> set (fst (permSort real_arith a)) = {..<length a}
    \<and> fst (snd (permSort real_arith a)) = map ((!) a) (fst (permSort real_arith a))
    \<and> sorted_wrt (\<lambda>u v. \<bar>v\<bar> \<le> \<bar>u\<bar>) (fst (snd (permSort real_arith a)))"
proof -
  let ?s = "fold (perm_step real_arith (length a)) [0..<length a] ([0..<length a], a, 0)"
  obtain p b w where s: "?s = (p, b, w)" by (cases ?s)
  have "perm_ok a (p, b, w)"
    using fold_perm_ok [OF perm_ok_start [of a], of "length a" real_arith] s by simp
  moreover have "sorted_wrt (\<lambda>u v. \<bar>v\<bar> \<le> \<bar>u\<bar>) b"
    using fold_perm_sorted [of "length a" a "[0..<length a]"] s
    by (auto simp: sorted_upto_def sorted_wrt_iff_nth_less)
  ultimately show ?thesis
    using s by (auto simp: permSort_def perm_ok_def Let_def)
qed

end
