(* ===== verification/Hub_State.thy ===== *)
theory Hub_State
  imports Sensor_Fusion C_Text
begin

unbundle bit_operations_syntax

text \<open>
  The sensor hub driver of the HAL, first part (\<open>stml0xx_hal/HubSensors.h\<close> and
  \<open>HubSensors.cpp\<close>): its state, what it needs from the platform, the constructor, and the
  computation of the sampling rates of accelerometer, gyroscope and magnetometer from the fusion
  sensors that are enabled.

  The kernel's header \<open>linux/stml0xx.h\<close> is not in the repository: the sensor masks, the
  numbers of the message types, the sizes of the calibration tables and the answers of the device
  are fields of \<open>hub_env\<close>. The device's \<open>ioctl\<close>s are requests whose trace the state keeps.
  Function-local static variables are fields of the state.
\<close>

section \<open>Fusion sensors\<close>

datatype fusion_enum =
    ACCEL | GYRO | UNCALIB_GYRO | GAME_RV | LINEAR_ACCEL | GRAVITY
  | MAG | UNCALIB_MAG | ORIENTATION | GEOMAG_RV | ROTATION_VECT

definition fusion_indices :: "fusion_enum list" where
  "fusion_indices =
    [ACCEL, GYRO, UNCALIB_GYRO, GAME_RV, LINEAR_ACCEL, GRAVITY,
     MAG, UNCALIB_MAG, ORIENTATION, GEOMAG_RV, ROTATION_VECT]"

record fusion_sensor =
  fs_enabled :: bool
  usesAccel :: bool
  usesGyro :: bool
  usesMag :: bool
  delay :: "16 word"

type_synonym fusion_table = "fusion_enum \<Rightarrow> fusion_sensor"

definition USHRT_MAX :: "16 word" where "USHRT_MAX = 65535"

definition fusion_table_init :: fusion_table where
  "fusion_table_init = (\<lambda>i.
     \<lparr>fs_enabled = False,
      usesAccel = i \<in> {ACCEL, GAME_RV, LINEAR_ACCEL, GRAVITY, MAG, UNCALIB_MAG, ORIENTATION, GEOMAG_RV, ROTATION_VECT},
      usesGyro = i \<in> {GYRO, UNCALIB_GYRO, GAME_RV, LINEAR_ACCEL, GRAVITY, ROTATION_VECT},
      usesMag = i \<in> {MAG, UNCALIB_MAG, ORIENTATION, GEOMAG_RV, ROTATION_VECT},
      delay = USHRT_MAX\<rparr>)"

section \<open>The platform\<close>

datatype hub_mask =
    M_ACCEL | M_GYRO | M_UNCALIB_GYRO | M_ALS | M_DISP_ROTATE | M_STEP_COUNTER | M_STEP_DETECTOR | M_ECOMPASS
  | M_PROXIMITY | M_FLATUP | M_FLATDOWN | M_STOWED | M_CAMERA_GESTURE | M_LIFT | M_CHOPCHOP | M_GLANCE
  | M_MOTION_DETECT | M_STATIONARY_DETECT

datatype hub_request =
    SET_GYRO_CAL "8 word list" | SET_ACCEL_CAL "8 word list" | GET_GYRO_CAL | GET_ACCEL_CAL
  | GET_SENSORS | GET_WAKESENSORS | SET_SENSORS "32 word" | SET_WAKESENSORS "32 word"
  | SET_ACC_DELAY "16 word" | SET_GYRO_DELAY "16 word" | SET_MAG_DELAY "16 word"
  | SET_ALS_DELAY "16 word" | SET_STEP_COUNTER_DELAY "16 word" | SET_FLUSH int

datatype hub_dt =
    DT_FLUSH | DT_ACCEL | DT_GYRO | DT_UNCALIB_GYRO | DT_ALS | DT_DISP_ROTATE | DT_PROX | DT_FLAT_UP
  | DT_FLAT_DOWN | DT_STOWED | DT_CAMERA_ACT | DT_GYRO_CAL | DT_ACCEL_CAL | DT_RESET | DT_LIFT | DT_CHOPCHOP
  | DT_STEP_COUNTER | DT_STEP_DETECTOR | DT_GLANCE | DT_MAG | DT_UNCALIB_MAG | DT_ORIENT
  | DT_MOTION_DETECT | DT_STATIONARY_DETECT | DT_OTHER

text \<open>What the driver calls and does not define: \<open>float\<close> and \<open>double\<close> arithmetic, constants
  of foreign headers, the answers of the device, files that refuse to open, the clock.\<close>

record ('f, 'd) hub_env =
  flt :: "'f farith"
  dbl :: "'d farith"
  GRAVITY_EARTH :: 'f
  rad_per_degree :: 'f
  hub_masks :: "hub_mask \<Rightarrow> 32 word"
  dt_code :: "hub_dt \<Rightarrow> int"
  STML0XX_CAMERA_DATA :: int
  GYRO_CAL_SIZE :: nat
  ACCEL_CAL_SIZE :: nat
  RESET_REASON_MAX_CODE :: nat
  hub_ioctl :: "hub_request driver"
  reply_sensors :: "hub_request list \<Rightarrow> 16 word"
  reply_wakesensors :: "hub_request list \<Rightarrow> 32 word"
  reply_cal :: "hub_request list \<Rightarrow> 8 word list"
  fopen_fails :: "path \<Rightarrow> bool"
  fwritten :: "path \<Rightarrow> nat \<Rightarrow> nat" \<comment> \<open>bytes \<open>fwrite\<close> stores\<close>
  time_now :: "nat \<Rightarrow> int" \<comment> \<open>the answer of the n-th call of \<open>time\<close>\<close>
  time_text :: "int \<Rightarrow> string option" \<comment> \<open>\<open>strftime\<close> of \<open>localtime\<close>\<close>
  hub_pid :: nat

section \<open>The state\<close>

record 'f hub =
  mFusionSensors :: fusion_table
  mEnabled :: "32 word"
  mWakeEnabled :: "32 word"
  mEnabledHandles :: "64 word"
  mPendingBug2go :: "32 word"
  mFusionData :: "'f fusion_data"
  mGyroCal :: "8 word list"
  mAccelCal :: "8 word list"
  mGameRV :: "'f game_rv"
  mGeomagRV :: "'f geomag"
  mGeomagRVReady :: bool
  mRotationVect :: "'f gyro_state"
  mErrorCnt :: "8 word list"
  accel_prev_delay :: "16 word"
  gyro_prev_delay :: "16 word"
  mag_prev_delay :: "16 word"
  last_logged_val :: int
  last_logged_ts_ns :: int
  sent_bug2go_sec :: int
  last_stepcount :: "32 word"
  step_offset :: "32 word"
  requests :: "hub_request list"
  hub_files :: "path \<Rightarrow> 8 word list option"
  dumps :: "(path \<times> string) list"
  ticks :: nat

definition hub_send :: "('f, 'd) hub_env \<Rightarrow> hub_request \<Rightarrow> 'f hub \<Rightarrow> int \<times> 'f hub" where
  "hub_send E rq s = (hub_ioctl E (requests s) rq, s\<lparr>requests := requests s @ [rq]\<rparr>)"

section \<open>Sampling rates\<close>

definition isRotationVectorRunning :: "'f hub \<Rightarrow> bool" where
  "isRotationVectorRunning s \<longleftrightarrow>
     fs_enabled (mFusionSensors s GEOMAG_RV) \<or> fs_enabled (mFusionSensors s ROTATION_VECT)
     \<or> fs_enabled (mFusionSensors s GAME_RV) \<or> fs_enabled (mFusionSensors s LINEAR_ACCEL)
     \<or> fs_enabled (mFusionSensors s GRAVITY)"

text \<open>The loop the three rate functions share: the shortest delay among the enabled sensors that
  use the given device, starting from its longest delay.\<close>

definition shortest_step :: "(fusion_sensor \<Rightarrow> bool) \<Rightarrow> 'f hub \<Rightarrow> fusion_enum \<Rightarrow> 16 word \<Rightarrow> 16 word" where
  "shortest_step uses s i d =
     (let fs = mFusionSensors s i
      in if uses fs \<and> fs_enabled fs \<and> delay fs < d
         then (if isRotationVectorRunning s then min (delay fs) (word_of_int (FUSION_MAX_DELAY_US div 1000))
               else delay fs)
         else d)"

definition shortest_delay :: "(fusion_sensor \<Rightarrow> bool) \<Rightarrow> int \<Rightarrow> int \<Rightarrow> 'f hub \<Rightarrow> 16 word" where
  "shortest_delay uses max_us min_us s =
     max (fold (shortest_step uses s) fusion_indices (word_of_int (max_us div 1000)))
         (word_of_int (min_us div 1000))"

definition updateGyroRate :: "('f, 'd) hub_env \<Rightarrow> 'f hub \<Rightarrow> int \<times> 'f hub" where
  "updateGyroRate E s =
     (let d = shortest_delay usesGyro GYRO_MAX_DELAY_US GYRO_MIN_DELAY_US s
      in if d \<noteq> gyro_prev_delay s
         then let (err, s1) = hub_send E (SET_GYRO_DELAY d) s in (err, s1\<lparr>gyro_prev_delay := d\<rparr>)
         else (0, s))"

definition updateMagRate :: "('f, 'd) hub_env \<Rightarrow> 'f hub \<Rightarrow> int \<times> 'f hub" where
  "updateMagRate E s =
     (let d = shortest_delay usesMag MAG_MAX_DELAY_US MAG_MIN_DELAY_US s
      in if d \<noteq> mag_prev_delay s
         then let (err, s1) = hub_send E (SET_MAG_DELAY d) s in (err, s1\<lparr>mag_prev_delay := d\<rparr>)
         else (0, s))"

definition updateAccelRate :: "('f, 'd) hub_env \<Rightarrow> 'f hub \<Rightarrow> int \<times> 'f hub" where
  "updateAccelRate E s =
     (let d = shortest_delay usesAccel ACCEL_MAX_DELAY_US ACCEL_MIN_DELAY_US s
      in if d \<noteq> accel_prev_delay s
         then let (err, s1) = hub_send E (SET_ACC_DELAY d) s in (err, s1\<lparr>accel_prev_delay := d\<rparr>)
         else (0, s))"

definition isGyroNeeded :: "'f hub \<Rightarrow> bool" where
  "isGyroNeeded s = list_ex (\<lambda>i. usesGyro (mFusionSensors s i) \<and> fs_enabled (mFusionSensors s i)) fusion_indices"

definition isMagNeeded :: "'f hub \<Rightarrow> bool" where
  "isMagNeeded s = list_ex (\<lambda>i. usesMag (mFusionSensors s i) \<and> fs_enabled (mFusionSensors s i)) fusion_indices"

definition isAccelNeeded :: "'f hub \<Rightarrow> bool" where
  "isAccelNeeded s = list_ex (\<lambda>i. usesAccel (mFusionSensors s i) \<and> fs_enabled (mFusionSensors s i)) fusion_indices"

section \<open>The constructor\<close>

definition GYRO_CAL_FILE :: path where "GYRO_CAL_FILE = ''/data/misc/sensorhub/gyro_cal.bin''"
definition ACCEL_CAL_FILE :: path where "ACCEL_CAL_FILE = ''/data/misc/sensorhub/accel_cal.bin''"

definition zero_cart :: "'f farith \<Rightarrow> 'f cart_data" where
  "zero_cart A = \<lparr>cx = f_lit A 0 1, cy = f_lit A 0 1, cz = f_lit A 0 1, cts = 0\<rparr>"

definition zero_quat :: "'f farith \<Rightarrow> 'f quat_data" where
  "zero_quat A = \<lparr>qa = f_lit A 0 1, qb = f_lit A 0 1, qc = f_lit A 0 1, qd = f_lit A 0 1,
     accuracy = f_lit A 0 1, qts = 0\<rparr>"

text \<open>Static storage starts from zero, with the initialisers of the code.\<close>

definition zero_hub :: "('f, 'd) hub_env \<Rightarrow> (path \<Rightarrow> 8 word list option) \<Rightarrow> 'f hub" where
  "zero_hub E files =
     (let A = flt E; z = f_lit A 0 1; c = zero_cart A; q = zero_quat A; g = \<lparr>gis_initialized = False, quatGyro = q\<rparr>
      in \<lparr>mFusionSensors = fusion_table_init, mEnabled = 0, mWakeEnabled = 0, mEnabledHandles = 0, mPendingBug2go = 0,
          mFusionData = \<lparr>fd_accel = c, fd_gyro = c, fd_mag = c, fd_gameRotation = q, fd_geoMagRotation = q,
             fd_rotationVector = q, fd_gravity = c, fd_linearAccel = c\<rparr>,
          mGyroCal = replicate (GYRO_CAL_SIZE E) 0, mAccelCal = replicate (ACCEL_CAL_SIZE E) 0,
          mGameRV = \<lparr>g_gis = g, g_initialized = False, g_nRaw = (z, z, z), g_h = (z, z, z)\<rparr>,
          mGeomagRV = \<lparr>m_initialized = False, mag_cnt = MAG_COUNTS, m_nRaw = (z, z, z), m_mRaw = (z, z, z)\<rparr>,
          mGeomagRVReady = False, mRotationVect = g,
          mErrorCnt = replicate (RESET_REASON_MAX_CODE E + 1) 0,
          accel_prev_delay = 0, gyro_prev_delay = 0, mag_prev_delay = 0,
          last_logged_val = - 1, last_logged_ts_ns = 0, sent_bug2go_sec = 0, last_stepcount = 0, step_offset = 0,
          requests = [], hub_files = files, dumps = [], ticks = 0\<rparr>)"

text \<open>A calibration table is loaded and sent to the hub when its file has the full size.\<close>

definition load_cal :: "('f, 'd) hub_env \<Rightarrow> path \<Rightarrow> nat \<Rightarrow> (8 word list \<Rightarrow> hub_request) \<Rightarrow> 'f hub \<Rightarrow> 8 word list \<times> 'f hub" where
  "load_cal E file n rq s =
     (case hub_files s file of
        None \<Rightarrow> (replicate n 0, s)
      | Some bytes \<Rightarrow>
          if length (take n bytes) \<noteq> n then (replicate n 0, s)
          else (take n bytes, snd (hub_send E (rq (take n bytes)) s)))"

definition new_HubSensors :: "('f, 'd) hub_env \<Rightarrow> (path \<Rightarrow> 8 word list option) \<Rightarrow> 'f hub" where
  "new_HubSensors E files =
     (let s0 = zero_hub E files;
          (gcal, s1) = load_cal E GYRO_CAL_FILE (GYRO_CAL_SIZE E) SET_GYRO_CAL s0;
          (acal, s2) = load_cal E ACCEL_CAL_FILE (ACCEL_CAL_SIZE E) SET_ACCEL_CAL (s1\<lparr>mGyroCal := gcal\<rparr>);
          flags16 = reply_sensors E (requests s2);
          (err, s3) = hub_send E GET_SENSORS (s2\<lparr>mAccelCal := acal\<rparr>);
          s4 = (if err = 0 then s3\<lparr>mEnabled := word_of_int (sint flags16)\<rparr> else s3);
          flags24 = reply_wakesensors E (requests s4);
          (err, s5) = hub_send E GET_WAKESENSORS s4
      in if err = 0 then s5\<lparr>mWakeEnabled := flags24\<rparr> else s5)"

definition isHandleEnabled :: "'f hub \<Rightarrow> sensor_handle \<Rightarrow> bool" where
  "isHandleEnabled s h \<longleftrightarrow> mEnabledHandles s AND push_bit (handle_nat h) 1 \<noteq> 0"

end
