(* ===== verification/Hub_Enable.thy ===== *)
theory Hub_Enable
  imports Hub_State "HOL-Library.Signed_Division"
begin

text \<open>
  The sensor hub driver, second part: switching sensors on and off (\<open>HubSensors::setEnable\<close>),
  their sampling periods (\<open>setDelay\<close>) and \<open>flush\<close>. The invariants of the state: the handle bits and the
  fusion table agree, the masks sent to the device agree with the handle bits, and the cached
  rates are the last ones sent.
\<close>

section \<open>Switching sensors\<close>

definition fs_set :: "fusion_enum \<Rightarrow> bool \<Rightarrow> fusion_table \<Rightarrow> fusion_table" where
  "fs_set i en t = t(i := (t i)\<lparr>fs_enabled := en\<rparr>)"

definition mask_set :: "32 word \<Rightarrow> bool \<Rightarrow> 32 word \<Rightarrow> 32 word" where
  "mask_set m en w = (if en then w OR m else w AND NOT m)"

text \<open>The first switch: the fusion table and mask after the case of a non-wake sensor;
  \<open>None\<close> when \<open>found\<close> stays 0.\<close>

fun nonwake_case :: "(hub_mask \<Rightarrow> 32 word) \<Rightarrow> sensor_handle \<Rightarrow> bool \<Rightarrow> fusion_table \<times> 32 word \<Rightarrow>
    (fusion_table \<times> 32 word) option" where
  "nonwake_case M ID_A en (t, w) = Some (fs_set ACCEL en t, w)"
| "nonwake_case M ID_G en (t, w) = Some (fs_set GYRO en t, w)"
| "nonwake_case M ID_UNCALIB_GYRO en (t, w) = Some (fs_set UNCALIB_GYRO en t, mask_set (M M_UNCALIB_GYRO) en w)"
| "nonwake_case M ID_GAME_RV en (t, w) = Some (fs_set GAME_RV en t, w)"
| "nonwake_case M ID_LA en (t, w) = Some (fs_set LINEAR_ACCEL en t, w)"
| "nonwake_case M ID_GRAVITY en (t, w) = Some (fs_set GRAVITY en t, w)"
| "nonwake_case M ID_L en (t, w) = Some (t, mask_set (M M_ALS) en w)"
| "nonwake_case M ID_DR en (t, w) = Some (t, mask_set (M M_DISP_ROTATE) en w)"
| "nonwake_case M ID_STEP_COUNTER en (t, w) =
     (let w1 = w AND NOT (M M_STEP_COUNTER) in Some (t, if en then w1 OR M M_STEP_COUNTER else w1))"
| "nonwake_case M ID_STEP_DETECTOR en (t, w) =
     (let w1 = w AND NOT (M M_STEP_DETECTOR) in Some (t, if en then w1 OR M M_STEP_DETECTOR else w1))"
| "nonwake_case M ID_M en (t, w) = Some (fs_set MAG en t, w)"
| "nonwake_case M ID_UM en (t, w) = Some (fs_set UNCALIB_MAG en t, w)"
| "nonwake_case M ID_OR en (t, w) = Some (fs_set ORIENTATION en t, w)"
| "nonwake_case M ID_GEOMAG_RV en (t, w) = Some (fs_set GEOMAG_RV en t, w)"
| "nonwake_case M ID_RV en (t, w) = Some (fs_set ROTATION_VECT en t, w)"
| "nonwake_case M _ en (t, w) = None"

text \<open>The second switch: the wake mask. \<open>shared\<close> tells which of the two glance gestures, that
  share one bit of the hub, is on.\<close>

fun wake_case :: "(hub_mask \<Rightarrow> 32 word) \<Rightarrow> (sensor_handle \<Rightarrow> bool) \<Rightarrow> sensor_handle \<Rightarrow> bool \<Rightarrow> 32 word \<Rightarrow>
    32 word option" where
  "wake_case M shared ID_P en w = Some (mask_set (M M_PROXIMITY) en w)"
| "wake_case M shared ID_FU en w = Some (mask_set (M M_FLATUP) en w)"
| "wake_case M shared ID_FD en w = Some (mask_set (M M_FLATDOWN) en w)"
| "wake_case M shared ID_S en w = Some (mask_set (M M_STOWED) en w)"
| "wake_case M shared ID_CA en w = Some (mask_set (M M_CAMERA_GESTURE) en w)"
| "wake_case M shared ID_LF en w = Some (mask_set (M M_LIFT) en w)"
| "wake_case M shared ID_CC en w = Some (mask_set (M M_CHOPCHOP) en w)"
| "wake_case M shared ID_GLANCE_GESTURE en w =
     (if \<not> shared ID_MOTO_GLANCE_GESTURE
      then (let w1 = w AND NOT (M M_GLANCE) in Some (if en then w1 OR M M_GLANCE else w1)) else None)"
| "wake_case M shared ID_MOTO_GLANCE_GESTURE en w =
     (if \<not> shared ID_GLANCE_GESTURE
      then (let w1 = w AND NOT (M M_GLANCE) in Some (if en then w1 OR M M_GLANCE else w1)) else None)"
| "wake_case M shared ID_MOTION_DETECT en w = Some (mask_set (M M_MOTION_DETECT) en w)"
| "wake_case M shared ID_STATIONARY_DETECT en w = Some (mask_set (M M_STATIONARY_DETECT) en w)"
| "wake_case M shared _ en w = None"

text \<open>The device bits that depend on several sensors, each with the update of its rate.\<close>

definition device_bits :: "('f, 'd) hub_env \<Rightarrow> 32 word \<Rightarrow> 'f hub \<Rightarrow> int \<times> 32 word \<times> 'f hub" where
  "device_bits E w s =
     (let M = hub_masks E;
          (err, w, s) = (if isAccelNeeded s
             then let (e, s') = updateAccelRate E s in (e, w OR M M_ACCEL, s')
             else (0, w AND NOT (M M_ACCEL), s));
          (err, w, s) = (if isGyroNeeded s
             then let (e, s') = updateGyroRate E s in (e, w OR M M_GYRO, s')
             else (err, w AND NOT (M M_GYRO), s))
      in if isMagNeeded s
         then let (e, s') = updateMagRate E s in (e, w OR M M_ECOMPASS, s')
         else (err, w AND NOT (M M_ECOMPASS), s))"

text \<open>The reset of the fusion algorithms that no enabled sensor feeds.\<close>

definition reset_fusion :: "('f, 'd) hub_env \<Rightarrow> 'f hub \<Rightarrow> 'f hub" where
  "reset_fusion E s =
     (let on = (\<lambda>i. fs_enabled (mFusionSensors s i));
          s1 = (if \<not> on GEOMAG_RV
             then let (_, g, fd) = geomag_processFusion (flt E) (mGeomagRV s, mFusionData s) True
                  in s\<lparr>mGeomagRV := g, mFusionData := fd\<rparr>
             else if \<not> on ROTATION_VECT
             then let (_, g, fd) = rv_processFusion (flt E) (mRotationVect s, mFusionData s) True
                  in s\<lparr>mRotationVect := g, mFusionData := fd\<rparr>
             else s)
      in if \<not> on GAME_RV \<and> \<not> on LINEAR_ACCEL \<and> \<not> on GRAVITY
         then let (_, g, fd) = game_processFusion (flt E) (mGameRV s1, mFusionData s1) True
              in s1\<lparr>mGameRV := g, mFusionData := fd\<rparr>
         else s1)"

definition enable_nonwake :: "('f, 'd) hub_env \<Rightarrow> sensor_handle option \<Rightarrow> bool \<Rightarrow> 'f hub \<Rightarrow> int \<times> 'f hub" where
  "enable_nonwake E h en s =
     (case Option.bind h (\<lambda>h. nonwake_case (hub_masks E) h en (mFusionSensors s, mEnabled s)) of
        None \<Rightarrow> (0, s)
      | Some (t, w) \<Rightarrow>
          (let (err, w, s) = device_bits E w (s\<lparr>mFusionSensors := t\<rparr>);
               (err, s) = (if w \<noteq> mEnabled s
                  then let (_, s') = hub_send E (SET_SENSORS w) s in (0, s'\<lparr>mEnabled := w\<rparr>)
                  else (err, s))
           in (err, reset_fusion E s)))"

definition enable_wake :: "('f, 'd) hub_env \<Rightarrow> sensor_handle option \<Rightarrow> bool \<Rightarrow> int \<times> 'f hub \<Rightarrow> int \<times> 'f hub" where
  "enable_wake E h en = (\<lambda>(err, s).
     case Option.bind h (\<lambda>h. wake_case (hub_masks E) (isHandleEnabled s) h en (mWakeEnabled s)) of
        None \<Rightarrow> (err, s)
      | Some w \<Rightarrow>
          if w \<noteq> mWakeEnabled s
          then let (_, s') = hub_send E (SET_WAKESENSORS w) s in (0, s'\<lparr>mWakeEnabled := w\<rparr>)
          else (err, s))"

text \<open>The shift of the handle bit is defined for handles below 64, which all sensors have.\<close>

definition mark_handle :: "int \<Rightarrow> bool \<Rightarrow> 'f hub \<Rightarrow> 'f hub" where
  "mark_handle h en s =
     s\<lparr>mEnabledHandles := (if en then mEnabledHandles s OR push_bit (nat h) 1
                           else mEnabledHandles s AND NOT (push_bit (nat h) 1))\<rparr>"

definition hub_setEnable :: "('f, 'd) hub_env \<Rightarrow> int \<Rightarrow> int \<Rightarrow> 'f hub \<Rightarrow> int \<times> 'f hub" where
  "hub_setEnable E h en s =
     (let newState = (en \<noteq> 0);
          (err, s1) = enable_wake E (handle_of h) newState (enable_nonwake E (handle_of h) newState s)
      in (err, mark_handle h newState s1))"

section \<open>Sampling periods\<close>

text \<open>The period in milliseconds, truncated to 16 bits, then clamped to the limits of the
  sensor's entry.\<close>

definition clamp_delay :: "sensor_t list \<Rightarrow> int \<Rightarrow> int \<Rightarrow> 16 word" where
  "clamp_delay ls h ns =
     (let d = word_of_int (ns div 1000000) :: 16 word
      in case entry_of ls h of
           None \<Rightarrow> d
         | Some e \<Rightarrow> word_of_int (max (min (uint d) (maxDelay e sdiv 1000)) (minDelay e sdiv 1000)))"

definition fs_delay :: "fusion_enum \<Rightarrow> 16 word \<Rightarrow> 'f hub \<Rightarrow> 'f hub" where
  "fs_delay i d s = s\<lparr>mFusionSensors := (mFusionSensors s)(i := (mFusionSensors s i)\<lparr>delay := d\<rparr>)\<rparr>"

fun delay_case :: "('f, 'd) hub_env \<Rightarrow> sensor_handle option \<Rightarrow> 16 word \<Rightarrow> 'f hub \<Rightarrow> int \<times> 'f hub" where
  "delay_case E (Some ID_A) d s = (0, fs_delay ACCEL d s)"
| "delay_case E (Some ID_G) d s = (0, fs_delay GYRO d s)"
| "delay_case E (Some ID_UNCALIB_GYRO) d s = (0, fs_delay UNCALIB_GYRO d s)"
| "delay_case E (Some ID_GAME_RV) d s = (0, fs_delay GAME_RV d s)"
| "delay_case E (Some ID_LA) d s = (0, fs_delay LINEAR_ACCEL d s)"
| "delay_case E (Some ID_GRAVITY) d s = (0, fs_delay GRAVITY d s)"
| "delay_case E (Some ID_L) d s = hub_send E (SET_ALS_DELAY d) s"
| "delay_case E (Some ID_DR) d s = (0, s)"
| "delay_case E (Some ID_P) d s = (0, s)"
| "delay_case E (Some ID_FU) d s = (0, s)"
| "delay_case E (Some ID_FD) d s = (0, s)"
| "delay_case E (Some ID_S) d s = (0, s)"
| "delay_case E (Some ID_CA) d s = (0, s)"
| "delay_case E (Some ID_GLANCE_GESTURE) d s = (0, s)"
| "delay_case E (Some ID_MOTO_GLANCE_GESTURE) d s = (0, s)"
| "delay_case E (Some ID_LF) d s = (0, s)"
| "delay_case E (Some ID_CC) d s = (0, s)"
| "delay_case E (Some ID_M) d s = (0, fs_delay MAG d s)"
| "delay_case E (Some ID_UM) d s = (0, fs_delay UNCALIB_MAG d s)"
| "delay_case E (Some ID_OR) d s = (0, fs_delay ORIENTATION d s)"
| "delay_case E (Some ID_GEOMAG_RV) d s = (0, fs_delay GEOMAG_RV d s)"
| "delay_case E (Some ID_RV) d s = (0, fs_delay ROTATION_VECT d s)"
| "delay_case E (Some ID_STEP_COUNTER) d s =
     (let secs = d div 1000;
          secs = (if secs = 0 then 1 else if secs > 3600 then 3600 else secs)
      in hub_send E (SET_STEP_COUNTER_DELAY secs) s)"
| "delay_case E (Some ID_STEP_DETECTOR) d s = (0, s)"
| "delay_case E (Some ID_MOTION_DETECT) d s = (0, s)"
| "delay_case E (Some ID_STATIONARY_DETECT) d s = (0, s)"
| "delay_case E _ d s = (- EINVAL, s)"

definition update_rates :: "('f, 'd) hub_env \<Rightarrow> 'f hub \<Rightarrow> int \<times> 'f hub" where
  "update_rates E s =
     (let (err, s) = updateAccelRate E s; (err, s) = updateGyroRate E s; (err, s) = updateMagRate E s
      in (err, s))"

text \<open>\<open>ls\<close> is the sensor list at the time of the call.\<close>

definition hub_setDelay :: "('f, 'd) hub_env \<Rightarrow> sensor_t list \<Rightarrow> int \<Rightarrow> int \<Rightarrow> 'f hub \<Rightarrow> int \<times> 'f hub" where
  "hub_setDelay E ls h ns s =
     (if ns < 0 then (- EINVAL, s)
      else
        let (_, s1) = delay_case E (handle_of h) (clamp_delay ls h ns) s;
            (err, s2) = update_rates E s1
        in (if err = - EIO then 0 else err, s2))"

definition hub_flush :: "('f, 'd) hub_env \<Rightarrow> int \<Rightarrow> 'f hub \<Rightarrow> int \<times> 'f hub" where
  "hub_flush E h s =
     (if handle_num MIN_SENSOR_ID < h \<and> h < handle_num MAX_SENSOR_ID
      then hub_send E (SET_FLUSH h) s else (0, s))"

section \<open>The enabled sensors\<close>

text \<open>The abstract state: the set of handles that are switched on.\<close>

definition on_handles :: "'f hub \<Rightarrow> sensor_handle set" where
  "on_handles s = {h. isHandleEnabled s h}"

fun fusion_handle :: "fusion_enum \<Rightarrow> sensor_handle" where
  "fusion_handle ACCEL = ID_A"
| "fusion_handle GYRO = ID_G"
| "fusion_handle UNCALIB_GYRO = ID_UNCALIB_GYRO"
| "fusion_handle GAME_RV = ID_GAME_RV"
| "fusion_handle LINEAR_ACCEL = ID_LA"
| "fusion_handle GRAVITY = ID_GRAVITY"
| "fusion_handle MAG = ID_M"
| "fusion_handle UNCALIB_MAG = ID_UM"
| "fusion_handle ORIENTATION = ID_OR"
| "fusion_handle GEOMAG_RV = ID_GEOMAG_RV"
| "fusion_handle ROTATION_VECT = ID_RV"

fun fusion_of :: "sensor_handle \<Rightarrow> fusion_enum option" where
  "fusion_of ID_A = Some ACCEL"
| "fusion_of ID_G = Some GYRO"
| "fusion_of ID_UNCALIB_GYRO = Some UNCALIB_GYRO"
| "fusion_of ID_GAME_RV = Some GAME_RV"
| "fusion_of ID_LA = Some LINEAR_ACCEL"
| "fusion_of ID_GRAVITY = Some GRAVITY"
| "fusion_of ID_M = Some MAG"
| "fusion_of ID_UM = Some UNCALIB_MAG"
| "fusion_of ID_OR = Some ORIENTATION"
| "fusion_of ID_GEOMAG_RV = Some GEOMAG_RV"
| "fusion_of ID_RV = Some ROTATION_VECT"
| "fusion_of _ = None"

text \<open>The mask a sensor has of its own, in the word of non-wake or of wake sensors.\<close>

fun own_mask :: "sensor_handle \<Rightarrow> hub_mask option" where
  "own_mask ID_UNCALIB_GYRO = Some M_UNCALIB_GYRO"
| "own_mask ID_L = Some M_ALS"
| "own_mask ID_DR = Some M_DISP_ROTATE"
| "own_mask ID_STEP_COUNTER = Some M_STEP_COUNTER"
| "own_mask ID_STEP_DETECTOR = Some M_STEP_DETECTOR"
| "own_mask _ = None"

fun wake_mask :: "sensor_handle \<Rightarrow> hub_mask option" where
  "wake_mask ID_P = Some M_PROXIMITY"
| "wake_mask ID_FU = Some M_FLATUP"
| "wake_mask ID_FD = Some M_FLATDOWN"
| "wake_mask ID_S = Some M_STOWED"
| "wake_mask ID_CA = Some M_CAMERA_GESTURE"
| "wake_mask ID_LF = Some M_LIFT"
| "wake_mask ID_CC = Some M_CHOPCHOP"
| "wake_mask ID_GLANCE_GESTURE = Some M_GLANCE"
| "wake_mask ID_MOTO_GLANCE_GESTURE = Some M_GLANCE"
| "wake_mask ID_MOTION_DETECT = Some M_MOTION_DETECT"
| "wake_mask ID_STATIONARY_DETECT = Some M_STATIONARY_DETECT"
| "wake_mask _ = None"

fun is_wake :: "hub_mask \<Rightarrow> bool" where
  "is_wake M_PROXIMITY = True" | "is_wake M_FLATUP = True" | "is_wake M_FLATDOWN = True"
| "is_wake M_STOWED = True" | "is_wake M_CAMERA_GESTURE = True" | "is_wake M_LIFT = True"
| "is_wake M_CHOPCHOP = True" | "is_wake M_GLANCE = True" | "is_wake M_MOTION_DETECT = True"
| "is_wake M_STATIONARY_DETECT = True" | "is_wake _ = False"

text \<open>What a set of enabled handles asks of the device, mask by mask.\<close>

fun wanted :: "sensor_handle set \<Rightarrow> hub_mask \<Rightarrow> bool" where
  "wanted H M_ACCEL = (\<exists>i. usesAccel (fusion_table_init i) \<and> fusion_handle i \<in> H)"
| "wanted H M_GYRO = (\<exists>i. usesGyro (fusion_table_init i) \<and> fusion_handle i \<in> H)"
| "wanted H M_ECOMPASS = (\<exists>i. usesMag (fusion_table_init i) \<and> fusion_handle i \<in> H)"
| "wanted H m = (\<exists>h\<in>H. own_mask h = Some m \<or> wake_mask h = Some m)"

text \<open>The masks of each word are pairwise disjoint.\<close>

definition disjoint_masks :: "(hub_mask \<Rightarrow> 32 word) \<Rightarrow> bool" where
  "disjoint_masks M \<longleftrightarrow> (\<forall>m k. m \<noteq> k \<longrightarrow> is_wake m = is_wake k \<longrightarrow> M m AND M k = 0)"

definition mask_word :: "'f hub \<Rightarrow> hub_mask \<Rightarrow> 32 word" where
  "mask_word s m = (if is_wake m then mWakeEnabled s else mEnabled s)"

text \<open>The fusion table: who is enabled, and what each sensor uses.\<close>

definition fus_inv :: "sensor_handle set \<Rightarrow> fusion_table \<Rightarrow> bool" where
  "fus_inv H t \<longleftrightarrow> (\<forall>i. fs_enabled (t i) = (fusion_handle i \<in> H)
     \<and> usesAccel (t i) = usesAccel (fusion_table_init i) \<and> usesGyro (t i) = usesGyro (fusion_table_init i)
     \<and> usesMag (t i) = usesMag (fusion_table_init i))"

definition hub_inv :: "('f, 'd) hub_env \<Rightarrow> 'f hub \<Rightarrow> bool" where
  "hub_inv E s \<longleftrightarrow>
     fus_inv (on_handles s) (mFusionSensors s)
     \<and> (\<forall>m. mask_word s m AND hub_masks E m = (if wanted (on_handles s) m then hub_masks E m else 0))"

lemma fusion_all [simp]: "set fusion_indices = UNIV"
proof -
  have "i \<in> set fusion_indices" for i by (cases i) (simp_all add: fusion_indices_def)
  then show ?thesis by blast
qed

lemma fusion_handle_of: "fusion_of h = Some i \<longleftrightarrow> fusion_handle i = h"
  by (cases h; cases i) simp_all

lemma own_not_wake: "own_mask h = Some m \<Longrightarrow> \<not> is_wake m \<and> wake_mask h = None"
  by (cases h) auto

lemma wake_is_wake: "wake_mask h = Some m \<Longrightarrow> is_wake m \<and> own_mask h = None \<and> fusion_of h = None"
  by (cases h) auto

subsection \<open>Handle bits\<close>

lemma bit_one_push: "bit (2 ^ n :: 64 word) k \<longleftrightarrow> n = k \<and> k < 64"
  by (auto simp: bit_simps)

lemma isHandleEnabled_bit: "isHandleEnabled s h \<longleftrightarrow> bit (mEnabledHandles s) (handle_nat h)"
proof -
  have "handle_nat h < 64" using handle_nat_le [of h] by simp
  then show ?thesis
    by (auto simp: isHandleEnabled_def bit_eq_iff [where 'a = "64 word"] bit_one_push bit_and_iff)
qed

lemma on_handles_mark:
  "on_handles (mark_handle (handle_num h) en s) = (if en then insert h (on_handles s) else on_handles s - {h})"
proof -
  have "handle_nat k < 64" for k using handle_nat_le [of k] by simp
  then show ?thesis
    by (auto simp: on_handles_def isHandleEnabled_bit mark_handle_def handle_num_def bit_one_push
        bit_or_iff bit_and_iff bit_not_iff dest: handle_nat_inject)
qed

subsection \<open>Masks\<close>

lemma mask_clear_set: "w AND NOT m OR m = w OR (m :: 32 word)"
  by (rule bit_eqI) (auto simp: bit_simps)

lemma mask_set_and:
  assumes "disjoint_masks M" and "is_wake m = is_wake k"
  shows "mask_set (M k) en w AND M m = (if m = k then if en then M m else 0 else w AND M m)"
proof (cases "m = k")
  case True
  then show ?thesis by (simp add: mask_set_def) (intro conjI impI bit_eqI; auto simp: bit_simps)
next
  case False
  with assms have "M m AND M k = 0" by (simp add: disjoint_masks_def)
  then have "\<And>n. n < 32 \<Longrightarrow> \<not> (bit (M m) n \<and> bit (M k) n)" by (auto simp: bit_eq_iff bit_simps)
  with False show ?thesis
    by (simp add: mask_set_def) (intro conjI impI bit_eqI; auto simp: bit_simps)
qed

lemma nonwake_case_eq:
  "nonwake_case M h en (t, w) =
     (if fusion_of h = None \<and> own_mask h = None then None
      else Some (case fusion_of h of None \<Rightarrow> t | Some i \<Rightarrow> fs_set i en t,
                 case own_mask h of None \<Rightarrow> w | Some m \<Rightarrow> mask_set (M m) en w))"
  by (cases h) (simp_all add: mask_set_def mask_clear_set Let_def)

text \<open>The other glance gesture.\<close>

fun glance_twin :: "sensor_handle \<Rightarrow> sensor_handle option" where
  "glance_twin ID_GLANCE_GESTURE = Some ID_MOTO_GLANCE_GESTURE"
| "glance_twin ID_MOTO_GLANCE_GESTURE = Some ID_GLANCE_GESTURE"
| "glance_twin _ = None"

lemma wake_case_eq:
  "wake_case M shared h en w =
     (case wake_mask h of None \<Rightarrow> None
      | Some m \<Rightarrow> if (\<exists>k. glance_twin h = Some k \<and> shared k) then None else Some (mask_set (M m) en w))"
  by (cases h) (simp_all add: mask_set_def mask_clear_set Let_def)

subsection \<open>What an operation leaves alone\<close>

definition core :: "'f hub \<Rightarrow> fusion_table \<times> 32 word \<times> 32 word \<times> 64 word" where
  "core s = (mFusionSensors s, mEnabled s, mWakeEnabled s, mEnabledHandles s)"

lemma hub_send_core [simp]:
  "core (snd (hub_send E rq s)) = core s" "requests (snd (hub_send E rq s)) = requests s @ [rq]"
  "mFusionSensors (snd (hub_send E rq s)) = mFusionSensors s"
  "mEnabled (snd (hub_send E rq s)) = mEnabled s" "mWakeEnabled (snd (hub_send E rq s)) = mWakeEnabled s"
  "mEnabledHandles (snd (hub_send E rq s)) = mEnabledHandles s"
  by (simp_all add: hub_send_def core_def)

lemma hub_inv_core: "core s = core t \<Longrightarrow> hub_inv E s = hub_inv E t"
  by (simp add: hub_inv_def core_def mask_word_def on_handles_def isHandleEnabled_def)

lemma on_handles_core: "core s = core t \<Longrightarrow> on_handles s = on_handles t"
  by (simp add: core_def on_handles_def isHandleEnabled_def)

lemma rate_core:
  "updateAccelRate E s = (e, t) \<Longrightarrow> core t = core s"
  "updateGyroRate E s = (e, t) \<Longrightarrow> core t = core s"
  "updateMagRate E s = (e, t) \<Longrightarrow> core t = core s"
  by (auto simp: updateAccelRate_def updateGyroRate_def updateMagRate_def hub_send_def core_def Let_def
      split: if_splits)

lemma reset_fusion_core [simp]: "core (reset_fusion E s) = core s"
  by (simp add: reset_fusion_def Let_def core_def split: prod.split)

lemma needed_core:
  "core t = core s \<Longrightarrow> isAccelNeeded t = isAccelNeeded s \<and> isGyroNeeded t = isGyroNeeded s \<and> isMagNeeded t = isMagNeeded s"
  by (simp add: core_def isAccelNeeded_def isGyroNeeded_def isMagNeeded_def)

lemma device_bits_step:
  assumes "(err', w', s') = (if b then let (e, t) = r in (e, w OR mk, t) else (err, w AND NOT mk, s))"
    and "\<And>e t. r = (e, t) \<Longrightarrow> core t = core s"
  shows "core s' = core s \<and> w' = mask_set mk b w"
  using assms by (cases r) (auto simp: mask_set_def split: if_splits)

lemma device_bits_spec:
  assumes M: "disjoint_masks (hub_masks E)" "\<not> is_wake m" and d: "device_bits E w s = (err, w', s')"
  shows "core s' = core s \<and> w' AND hub_masks E m =
    (if m = M_ACCEL then if isAccelNeeded s then hub_masks E m else 0
     else if m = M_GYRO then if isGyroNeeded s then hub_masks E m else 0
     else if m = M_ECOMPASS then if isMagNeeded s then hub_masks E m else 0
     else w AND hub_masks E m)"
proof -
  let ?M = "hub_masks E"
  obtain e1 w1 s1 where 1: "(e1, w1, s1) = (if isAccelNeeded s
      then let (e, s') = updateAccelRate E s in (e, w OR ?M M_ACCEL, s') else (0, w AND NOT (?M M_ACCEL), s))"
    by (metis prod_cases3)
  obtain e2 w2 s2 where 2: "(e2, w2, s2) = (if isGyroNeeded s1
      then let (e, s') = updateGyroRate E s1 in (e, w1 OR ?M M_GYRO, s') else (e1, w1 AND NOT (?M M_GYRO), s1))"
    by (metis prod_cases3)
  have 3: "(err, w', s') = (if isMagNeeded s2
      then let (e, s') = updateMagRate E s2 in (e, w2 OR ?M M_ECOMPASS, s') else (e2, w2 AND NOT (?M M_ECOMPASS), s2))"
    using d unfolding device_bits_def Let_def 1 [unfolded Let_def, symmetric] prod.case 2 [unfolded Let_def, symmetric]
    by simp
  have s1: "core s1 = core s \<and> w1 = mask_set (?M M_ACCEL) (isAccelNeeded s) w"
    by (rule device_bits_step [OF 1]) (rule rate_core(1))
  have s2: "core s2 = core s1 \<and> w2 = mask_set (?M M_GYRO) (isGyroNeeded s1) w1"
    by (rule device_bits_step [OF 2]) (rule rate_core(2))
  have s3: "core s' = core s2 \<and> w' = mask_set (?M M_ECOMPASS) (isMagNeeded s2) w2"
    by (rule device_bits_step [OF 3]) (rule rate_core(3))
  have "core s1 = core s" "core s2 = core s" "core s' = core s" using s1 s2 s3 by simp_all
  with needed_core [of s1 s] needed_core [of s2 s] s1 s2 s3 M show ?thesis
    by (simp add: mask_set_and)
qed

subsection \<open>Switching a sensor refines the set of enabled handles\<close>

lemma needed_wanted:
  assumes "fus_inv H (mFusionSensors s)"
  shows "isAccelNeeded s = wanted H M_ACCEL" "isGyroNeeded s = wanted H M_GYRO" "isMagNeeded s = wanted H M_ECOMPASS"
  using assms by (simp_all add: isAccelNeeded_def isGyroNeeded_def isMagNeeded_def list_ex_iff fus_inv_def)

definition toggle :: "sensor_handle \<Rightarrow> bool \<Rightarrow> sensor_handle set \<Rightarrow> sensor_handle set" where
  "toggle h en H = (if en then insert h H else H - {h})"

lemma toggle_iff: "k \<in> toggle h en H \<longleftrightarrow> (if k = h then en else k \<in> H)"
  by (simp add: toggle_def)

lemma wanted_own_masks:
  "m \<notin> {M_ACCEL, M_GYRO, M_ECOMPASS} \<Longrightarrow> wanted H m = (\<exists>h\<in>H. own_mask h = Some m \<or> wake_mask h = Some m)"
  by (cases m) simp_all

lemma own_mask_inj: "own_mask h = Some m \<Longrightarrow> own_mask k = Some m \<Longrightarrow> h = k"
  by (cases h; cases k) auto

lemma own_mask_device: "own_mask h = Some m \<Longrightarrow> m \<notin> {M_ACCEL, M_GYRO, M_ECOMPASS}"
  by (cases h) auto

lemma wake_mask_inj: "wake_mask h = Some m \<Longrightarrow> wake_mask k = Some m \<Longrightarrow> k = h \<or> glance_twin h = Some k"
  by (cases h; cases k) auto

lemma glance_twin_mask: "glance_twin h = Some k \<Longrightarrow> k \<noteq> h \<and> wake_mask k = wake_mask h \<and> wake_mask h = Some M_GLANCE"
  by (cases h) auto

lemma wanted_toggle_own:
  assumes "own_mask h = Some m"
  shows "wanted (toggle h en H) m = en"
proof -
  have "\<not> is_wake m" using own_not_wake assms by blast
  then have "wake_mask k \<noteq> Some m" for k using wake_is_wake [of k m] by blast
  then have "wanted (toggle h en H) m \<longleftrightarrow> (\<exists>k\<in>toggle h en H. own_mask k = Some m)"
    using wanted_own_masks [OF own_mask_device [OF assms]] by simp
  also have "\<dots> \<longleftrightarrow> h \<in> toggle h en H" using own_mask_inj [OF assms] assms by blast
  finally show ?thesis by (simp add: toggle_iff)
qed

lemma wanted_toggle_wake:
  assumes "wake_mask h = Some m"
  shows "wanted (toggle h en H) m = ((\<exists>k. glance_twin h = Some k \<and> k \<in> H) \<or> en)"
proof -
  have m: "m \<notin> {M_ACCEL, M_GYRO, M_ECOMPASS}" using wake_is_wake [OF assms] by auto
  have "is_wake m" using wake_is_wake assms by blast
  then have "own_mask k \<noteq> Some m" for k using own_not_wake [of k m] by blast
  then have "wanted (toggle h en H) m \<longleftrightarrow> (\<exists>k\<in>toggle h en H. wake_mask k = Some m)"
    using m by (simp add: wanted_own_masks)
  also have "\<dots> \<longleftrightarrow> h \<in> toggle h en H \<or> (\<exists>k. glance_twin h = Some k \<and> k \<in> toggle h en H)"
    using wake_mask_inj [OF assms] glance_twin_mask [of h] assms by metis
  also have "\<dots> \<longleftrightarrow> (\<exists>k. glance_twin h = Some k \<and> k \<in> H) \<or> en"
    using glance_twin_mask [of h] by (auto simp: toggle_iff)
  finally show ?thesis .
qed

lemma wanted_toggle_other:
  assumes "own_mask h \<noteq> Some m" and "wake_mask h \<noteq> Some m" and "m \<in> {M_ACCEL, M_GYRO, M_ECOMPASS} \<Longrightarrow> fusion_of h = None"
  shows "wanted (toggle h en H) m = wanted H m"
proof (cases "m \<in> {M_ACCEL, M_GYRO, M_ECOMPASS}")
  case True
  then have "fusion_handle i \<noteq> h" for i using assms(3) fusion_handle_of [of h i] by auto
  with True show ?thesis by (auto simp: toggle_iff)
next
  case False
  with assms show ?thesis by (auto simp: wanted_own_masks Bex_def toggle_iff)
qed

definition mask_inv :: "(hub_mask \<Rightarrow> 32 word) \<Rightarrow> bool \<Rightarrow> sensor_handle set \<Rightarrow> 32 word \<Rightarrow> bool" where
  "mask_inv M wk H w \<longleftrightarrow> (\<forall>m. is_wake m = wk \<longrightarrow> w AND M m = (if wanted H m then M m else 0))"

lemma hub_inv_parts:
  "hub_inv E s \<longleftrightarrow> fus_inv (on_handles s) (mFusionSensors s)
     \<and> mask_inv (hub_masks E) False (on_handles s) (mEnabled s)
     \<and> mask_inv (hub_masks E) True (on_handles s) (mWakeEnabled s)"
proof -
  have "(\<forall>m. P m) \<longleftrightarrow> (\<forall>m. \<not> is_wake m \<longrightarrow> P m) \<and> (\<forall>m. is_wake m \<longrightarrow> P m)" for P by blast
  from this [of "\<lambda>m. mask_word s m AND hub_masks E m = (if wanted (on_handles s) m then hub_masks E m else 0)"]
  show ?thesis by (simp add: hub_inv_def mask_inv_def mask_word_def cong: conj_cong)
qed

lemma fus_inv_toggle:
  assumes "fus_inv H t"
  shows "fus_inv (toggle h en H) (case fusion_of h of None \<Rightarrow> t | Some i \<Rightarrow> fs_set i en t)"
proof -
  have "fusion_handle i = h \<longleftrightarrow> fusion_of h = Some i" for i by (simp add: fusion_handle_of)
  with assms show ?thesis
    by (cases "fusion_of h") (simp_all add: fus_inv_def toggle_iff fs_set_def)
qed

text \<open>The first half of \<open>setEnable\<close>.\<close>

lemma enable_nonwake_inv:
  assumes M: "disjoint_masks (hub_masks E)" and inv: "hub_inv E s"
    and r: "enable_nonwake E (Some h) en s = (err, t)"
  shows "fus_inv (toggle h en (on_handles s)) (mFusionSensors t)
    \<and> mask_inv (hub_masks E) False (toggle h en (on_handles s)) (mEnabled t)
    \<and> mWakeEnabled t = mWakeEnabled s \<and> mEnabledHandles t = mEnabledHandles s"
proof (cases "fusion_of h = None \<and> own_mask h = None")
  case True
  with r have "t = s" by (simp add: enable_nonwake_def nonwake_case_eq)
  moreover have "mask_inv (hub_masks E) False (toggle h en (on_handles s)) (mEnabled s)"
  proof -
    have "wanted (toggle h en (on_handles s)) m = wanted (on_handles s) m" if "is_wake m = False" for m
      using that True wake_is_wake [of h m] by (intro wanted_toggle_other) auto
    with inv show ?thesis by (simp add: hub_inv_parts mask_inv_def)
  qed
  ultimately show ?thesis
    using True inv fus_inv_toggle [of "on_handles s" "mFusionSensors s" h en] by (simp add: hub_inv_parts)
next
  case False
  let ?H = "toggle h en (on_handles s)"
  define tb where "tb = (case fusion_of h of None \<Rightarrow> mFusionSensors s | Some i \<Rightarrow> fs_set i en (mFusionSensors s))"
  define w where "w = (case own_mask h of None \<Rightarrow> mEnabled s | Some m \<Rightarrow> mask_set (hub_masks E m) en (mEnabled s))"
  let ?s1 = "s\<lparr>mFusionSensors := tb\<rparr>"
  obtain e w' s' where d: "device_bits E w ?s1 = (e, w', s')" by (metis prod_cases3)
  have c: "core s' = core ?s1" using device_bits_spec [OF M _ d, of M_ACCEL] by simp
  have f: "fus_inv ?H tb" using inv fus_inv_toggle by (simp add: tb_def hub_inv_parts)
  have w': "w' AND hub_masks E m = (if wanted ?H m then hub_masks E m else 0)" if m: "is_wake m = False" for m
  proof (cases "m \<in> {M_ACCEL, M_GYRO, M_ECOMPASS}")
    case True
    have "fus_inv ?H (mFusionSensors ?s1)" using f by simp
    note needed_wanted [OF this]
    with True device_bits_spec [OF M _ d, of m] m show ?thesis by auto
  next
    case other: False
    have "wake_mask h = None" using False own_not_wake [of h] wake_is_wake [of h] by (cases "wake_mask h") auto
    have "wanted ?H m = wanted (on_handles s) m" if "own_mask h \<noteq> Some m"
      using that other \<open>wake_mask h = None\<close> by (intro wanted_toggle_other) simp_all
    then have "wanted ?H m = (if own_mask h = Some m then en else wanted (on_handles s) m)"
      by (simp add: wanted_toggle_own)
    moreover have "w AND hub_masks E m = (if own_mask h = Some m then if en then hub_masks E m else 0 else mEnabled s AND hub_masks E m)"
      using M m own_not_wake [of h] by (cases "own_mask h") (auto simp: w_def mask_set_and)
    ultimately show ?thesis
      using other device_bits_spec [OF M _ d, of m] m inv by (auto simp: hub_inv_parts mask_inv_def)
  qed
  define u where "u = (if w' = mEnabled s' then s' else (snd (hub_send E (SET_SENSORS w') s'))\<lparr>mEnabled := w'\<rparr>)"
  have "t = reset_fusion E u"
    using r False
    by (auto simp: enable_nonwake_def nonwake_case_eq tb_def [symmetric] w_def [symmetric] d hub_send_def u_def split: if_splits)
  moreover have "core u = (tb, w', mWakeEnabled s, mEnabledHandles s)"
    using c by (auto simp: u_def core_def)
  ultimately have "core t = (tb, w', mWakeEnabled s, mEnabledHandles s)" by simp
  with f w' show ?thesis by (simp add: core_def mask_inv_def)
qed

text \<open>The second half.\<close>

lemma enable_wake_inv:
  assumes M: "disjoint_masks (hub_masks E)" and inv: "mask_inv (hub_masks E) True (on_handles s) (mWakeEnabled s)"
    and r: "enable_wake E (Some h) en (err, s) = (err', t)"
  shows "mask_inv (hub_masks E) True (toggle h en (on_handles s)) (mWakeEnabled t)
    \<and> mFusionSensors t = mFusionSensors s \<and> mEnabled t = mEnabled s \<and> mEnabledHandles t = mEnabledHandles s"
proof -
  let ?M = "hub_masks E" and ?H = "toggle h en (on_handles s)"
  let ?twin = "\<exists>k. glance_twin h = Some k \<and> k \<in> on_handles s"
  define w where "w = (case wake_mask h of None \<Rightarrow> mWakeEnabled s
    | Some m \<Rightarrow> if ?twin then mWakeEnabled s else mask_set (?M m) en (mWakeEnabled s))"
  have core: "core t = (mFusionSensors s, mEnabled s, w, mEnabledHandles s)"
  proof (cases "wake_mask h")
    case None
    with r show ?thesis by (simp add: enable_wake_def wake_case_eq w_def core_def)
  next
    case (Some m)
    show ?thesis
    proof (cases ?twin)
      case True
      with r Some show ?thesis by (simp add: enable_wake_def wake_case_eq w_def core_def on_handles_def)
    next
      case False
      with r Some show ?thesis
        by (auto simp: enable_wake_def wake_case_eq w_def core_def on_handles_def hub_send_def split: if_splits)
    qed
  qed
  have w: "w AND ?M m = (if wanted ?H m then ?M m else 0)" if m: "is_wake m = True" for m
  proof (cases "wake_mask h = Some m")
    case True
    have "?twin \<Longrightarrow> wanted (on_handles s) m"
      using True wake_is_wake [OF True] glance_twin_mask [of h] by (auto simp: wanted_own_masks) 
    with True M m inv show ?thesis
      by (cases ?twin) (simp_all only: w_def wanted_toggle_wake mask_set_and mask_inv_def option.case if_True if_False
          simp_thms refl)
  next
    case False
    have "own_mask h \<noteq> Some m" "m \<notin> {M_ACCEL, M_GYRO, M_ECOMPASS}" using m own_not_wake [of h m] by auto
    then have "wanted ?H m = wanted (on_handles s) m" using False by (intro wanted_toggle_other) auto
    moreover have "w AND ?M m = mWakeEnabled s AND ?M m"
      using False M m wake_is_wake [of h] by (cases "wake_mask h") (auto simp: w_def mask_set_and)
    ultimately show ?thesis using inv m by (simp add: mask_inv_def)
  qed
  with core show ?thesis by (simp add: core_def mask_inv_def)
qed

lemma mark_handle_simps [simp]:
  "mFusionSensors (mark_handle n en s) = mFusionSensors s" "mEnabled (mark_handle n en s) = mEnabled s"
  "mWakeEnabled (mark_handle n en s) = mWakeEnabled s" "requests (mark_handle n en s) = requests s"
  "accel_prev_delay (mark_handle n en s) = accel_prev_delay s" "gyro_prev_delay (mark_handle n en s) = gyro_prev_delay s"
  "mag_prev_delay (mark_handle n en s) = mag_prev_delay s"
  by (simp_all add: mark_handle_def)

lemma setEnable_inv:
  assumes M: "disjoint_masks (hub_masks E)" and inv: "hub_inv E s"
  shows "hub_inv E (snd (hub_setEnable E (handle_num h) en s))
    \<and> on_handles (snd (hub_setEnable E (handle_num h) en s)) = toggle h (en \<noteq> 0) (on_handles s)"
proof -
  obtain e1 s1 where 1: "enable_nonwake E (Some h) (en \<noteq> 0) s = (e1, s1)" by fastforce
  obtain e2 s2 where 2: "enable_wake E (Some h) (en \<noteq> 0) (e1, s1) = (e2, s2)" by fastforce
  note n = enable_nonwake_inv [OF M inv 1]
  have on1: "on_handles s1 = on_handles s" using n by (simp add: on_handles_def isHandleEnabled_def)
  have "mask_inv (hub_masks E) True (on_handles s1) (mWakeEnabled s1)"
    using n on1 inv by (simp add: hub_inv_parts)
  note w = enable_wake_inv [OF M this 2]
  have on2: "on_handles s2 = on_handles s" using w on1 by (simp add: on_handles_def isHandleEnabled_def)
  have r: "snd (hub_setEnable E (handle_num h) en s) = mark_handle (handle_num h) (en \<noteq> 0) s2"
    by (simp add: hub_setEnable_def 1 2)
  then have on: "on_handles (snd (hub_setEnable E (handle_num h) en s)) = toggle h (en \<noteq> 0) (on_handles s)"
    by (simp add: on_handles_mark on2 toggle_def)
  with n w on1 show ?thesis unfolding hub_inv_parts on by (simp add: r)
qed

subsection \<open>The cached rates are the rates last sent\<close>

fun acc_rate :: "hub_request \<Rightarrow> 16 word option" where
  "acc_rate (SET_ACC_DELAY d) = Some d" | "acc_rate _ = None"

fun gyro_rate :: "hub_request \<Rightarrow> 16 word option" where
  "gyro_rate (SET_GYRO_DELAY d) = Some d" | "gyro_rate _ = None"

fun mag_rate :: "hub_request \<Rightarrow> 16 word option" where
  "mag_rate (SET_MAG_DELAY d) = Some d" | "mag_rate _ = None"

text \<open>The value of the last request of a kind in a trace, 0 when there is none.\<close>

definition last_sent :: "(hub_request \<Rightarrow> 'w::zero option) \<Rightarrow> hub_request list \<Rightarrow> 'w" where
  "last_sent f rs = fold (\<lambda>r d. case f r of None \<Rightarrow> d | Some d' \<Rightarrow> d') rs 0"

definition rate_sync :: "'f hub \<Rightarrow> bool" where
  "rate_sync s \<longleftrightarrow> accel_prev_delay s = last_sent acc_rate (requests s)
     \<and> gyro_prev_delay s = last_sent gyro_rate (requests s)
     \<and> mag_prev_delay s = last_sent mag_rate (requests s)"

lemma last_sent_snoc [simp]:
  "last_sent f (rs @ [r]) = (case f r of None \<Rightarrow> last_sent f rs | Some d \<Rightarrow> d)"
  by (simp add: last_sent_def split: option.split)

text \<open>The part of the state \<open>rate_sync\<close> reads.\<close>

definition rate_view :: "'f hub \<Rightarrow> 16 word \<times> 16 word \<times> 16 word \<times> hub_request list" where
  "rate_view s = (accel_prev_delay s, gyro_prev_delay s, mag_prev_delay s, requests s)"

lemma rate_sync_view: "rate_view s = rate_view t \<Longrightarrow> rate_sync s = rate_sync t"
  by (simp add: rate_view_def rate_sync_def)

lemma rate_sync_send:
  assumes "rate_sync s" and "acc_rate rq = None" and "gyro_rate rq = None" and "mag_rate rq = None"
    and "hub_send E rq s = (e, t)"
  shows "rate_sync t"
  using assms by (auto simp: rate_sync_def hub_send_def)

lemma rate_sync_update:
  "rate_sync s \<Longrightarrow> updateAccelRate E s = (e, t) \<Longrightarrow> rate_sync t"
  "rate_sync s \<Longrightarrow> updateGyroRate E s = (e, t) \<Longrightarrow> rate_sync t"
  "rate_sync s \<Longrightarrow> updateMagRate E s = (e, t) \<Longrightarrow> rate_sync t"
  by (auto simp: updateAccelRate_def updateGyroRate_def updateMagRate_def hub_send_def rate_sync_def Let_def
      split: if_splits)

lemma rate_sync_device_bits:
  assumes "rate_sync s" and "device_bits E w s = (err, w', t)"
  shows "rate_sync t"
proof -
  obtain e1 w1 s1 where 1: "(if isAccelNeeded s
      then let (e, s') = updateAccelRate E s in (e, w OR hub_masks E M_ACCEL, s')
      else (0, w AND NOT (hub_masks E M_ACCEL), s)) = (e1, w1, s1)" by (metis prod_cases3)
  obtain e2 w2 s2 where 2: "(if isGyroNeeded s1
      then let (e, s') = updateGyroRate E s1 in (e, w1 OR hub_masks E M_GYRO, s')
      else (e1, w1 AND NOT (hub_masks E M_GYRO), s1)) = (e2, w2, s2)" by (metis prod_cases3)
  have "rate_sync s1" using 1 assms(1) by (auto split: if_splits prod.splits intro: rate_sync_update)
  then have "rate_sync s2" using 2 by (auto split: if_splits prod.splits intro: rate_sync_update)
  moreover have "device_bits E w s = (if isMagNeeded s2
      then let (e, s') = updateMagRate E s2 in (e, w2 OR hub_masks E M_ECOMPASS, s')
      else (e2, w2 AND NOT (hub_masks E M_ECOMPASS), s2))"
    unfolding device_bits_def Let_def 1 [unfolded Let_def] prod.case 2 [unfolded Let_def] ..
  ultimately show ?thesis using assms(2) by (auto split: if_splits prod.splits intro: rate_sync_update)
qed

lemma rate_view_reset [simp]: "rate_view (reset_fusion E s) = rate_view s"
  by (simp add: reset_fusion_def Let_def rate_view_def split: prod.split)

lemma rate_sync_reset: "rate_sync (reset_fusion E s) = rate_sync s"
  by (rule rate_sync_view) simp

lemma rate_sync_nonwake:
  assumes "rate_sync s" and "enable_nonwake E h en s = (e, t)"
  shows "rate_sync t"
proof (cases "Option.bind h (\<lambda>h. nonwake_case (hub_masks E) h en (mFusionSensors s, mEnabled s))")
  case None
  with assms show ?thesis by (simp add: enable_nonwake_def)
next
  case (Some p)
  obtain tb w where p: "p = (tb, w)" by fastforce
  obtain e' w' s' where d: "device_bits E w (s\<lparr>mFusionSensors := tb\<rparr>) = (e', w', s')" by (metis prod_cases3)
  have "rate_sync (s\<lparr>mFusionSensors := tb\<rparr>)" using assms(1) by (simp add: rate_sync_def)
  then have s': "rate_sync s'" using d by (rule rate_sync_device_bits)
  then have "rate_sync (s'\<lparr>requests := requests s' @ [SET_SENSORS w'], mEnabled := w'\<rparr>)"
    by (simp add: rate_sync_def)
  with s' assms(2) show ?thesis
    by (auto simp: enable_nonwake_def Some p d hub_send_def rate_sync_reset split: if_splits)
qed

lemma rate_sync_wake: "rate_sync s \<Longrightarrow> enable_wake E h en (e0, s) = (e, t) \<Longrightarrow> rate_sync t"
  by (auto simp: enable_wake_def hub_send_def rate_sync_def split: option.splits if_splits)

lemma rate_sync_setEnable:
  assumes "rate_sync s"
  shows "rate_sync (snd (hub_setEnable E h en s))"
proof -
  obtain e1 s1 where 1: "enable_nonwake E (handle_of h) (en \<noteq> 0) s = (e1, s1)" by fastforce
  obtain e2 s2 where 2: "enable_wake E (handle_of h) (en \<noteq> 0) (e1, s1) = (e2, s2)" by fastforce
  have "rate_sync s2" using assms 1 2 by (blast intro: rate_sync_nonwake rate_sync_wake)
  then show ?thesis by (simp add: hub_setEnable_def 1 2 rate_sync_def)
qed

lemma delay_case_sync: "rate_sync s \<Longrightarrow> rate_sync (snd (delay_case E h d s))"
  by (induction E h d s rule: delay_case.induct)
    (simp_all add: rate_sync_def fs_delay_def hub_send_def Let_def)

lemma update_rates_sync:
  assumes "rate_sync s"
  shows "rate_sync (snd (update_rates E s))"
proof -
  obtain e1 s1 where 1: "updateAccelRate E s = (e1, s1)" by fastforce
  obtain e2 s2 where 2: "updateGyroRate E s1 = (e2, s2)" by fastforce
  obtain e3 s3 where 3: "updateMagRate E s2 = (e3, s3)" by fastforce
  have "rate_sync s3" using assms 1 2 3 by (blast intro: rate_sync_update)
  then show ?thesis by (simp add: update_rates_def 1 2 3)
qed

lemma rate_sync_setDelay: "rate_sync s \<Longrightarrow> rate_sync (snd (hub_setDelay E ls h ns s))"
  by (auto simp: hub_setDelay_def Let_def case_prod_beta intro!: update_rates_sync delay_case_sync)

subsection \<open>Every enabled sensor is served at its rate\<close>

lemma shortest_step_le:
  "shortest_step uses s i d \<le> d" "uses (mFusionSensors s i) \<Longrightarrow> fs_enabled (mFusionSensors s i) \<Longrightarrow>
    shortest_step uses s i d \<le> delay (mFusionSensors s i)"
  by (auto simp: shortest_step_def Let_def min_def not_less)

lemma shortest_fold_le:
  "fold (shortest_step uses s) js d \<le> d"
  "i \<in> set js \<Longrightarrow> uses (mFusionSensors s i) \<Longrightarrow> fs_enabled (mFusionSensors s i) \<Longrightarrow>
    fold (shortest_step uses s) js d \<le> delay (mFusionSensors s i)"
proof (induction js arbitrary: d)
  case (Cons j js)
  { case 1 show ?case using Cons(1) [of "shortest_step uses s j d"] shortest_step_le(1) [of uses s j d] by (simp add: order_trans)
  next
    case 2 show ?case
    proof (cases "i \<in> set js")
      case True
      then show ?thesis using Cons(2) 2 by simp
    next
      case False
      with 2 have "i = j" by simp
      with Cons(1) [of "shortest_step uses s j d"] shortest_step_le(2) [of uses s j d] 2 show ?thesis
        by (simp add: order_trans)
    qed }
qed simp_all

lemma shortest_delay_bounds:
  "word_of_int (min_us div 1000) \<le> shortest_delay uses max_us min_us s"
  "shortest_delay uses max_us min_us s \<le> max (word_of_int (max_us div 1000)) (word_of_int (min_us div 1000))"
  "uses (mFusionSensors s i) \<Longrightarrow> fs_enabled (mFusionSensors s i) \<Longrightarrow>
    shortest_delay uses max_us min_us s \<le> max (delay (mFusionSensors s i)) (word_of_int (min_us div 1000))"
proof -
  let ?f = "fold (shortest_step uses s) fusion_indices (word_of_int (max_us div 1000))"
  show "word_of_int (min_us div 1000) \<le> shortest_delay uses max_us min_us s"
    by (simp add: shortest_delay_def)
  have "?f \<le> word_of_int (max_us div 1000)" by (rule shortest_fold_le(1))
  then show "shortest_delay uses max_us min_us s \<le> max (word_of_int (max_us div 1000)) (word_of_int (min_us div 1000))"
    unfolding shortest_delay_def by (rule max.mono) simp
  assume "uses (mFusionSensors s i)" "fs_enabled (mFusionSensors s i)"
  then have "?f \<le> delay (mFusionSensors s i)" by (intro shortest_fold_le(2)) simp_all
  then show "shortest_delay uses max_us min_us s \<le> max (delay (mFusionSensors s i)) (word_of_int (min_us div 1000))"
    unfolding shortest_delay_def by (rule max.mono) simp
qed

lemma update_rates_spec:
  "core (snd (update_rates E s)) = core s"
  "accel_prev_delay (snd (update_rates E s)) = shortest_delay usesAccel ACCEL_MAX_DELAY_US ACCEL_MIN_DELAY_US s"
  "gyro_prev_delay (snd (update_rates E s)) = shortest_delay usesGyro GYRO_MAX_DELAY_US GYRO_MIN_DELAY_US s"
  "mag_prev_delay (snd (update_rates E s)) = shortest_delay usesMag MAG_MAX_DELAY_US MAG_MIN_DELAY_US s"
proof -
  have shortest: "core t = core s \<Longrightarrow> shortest_delay uses a b t = shortest_delay uses a b s" for t s :: "'a hub" and uses a b
  proof -
    assume "core t = core s"
    then have "shortest_step uses t = shortest_step uses s"
      unfolding core_def by (intro ext) (simp add: shortest_step_def isRotationVectorRunning_def cong: if_cong)
    then show ?thesis by (simp add: shortest_delay_def)
  qed
  obtain e1 s1 where 1: "updateAccelRate E s = (e1, s1)" by fastforce
  obtain e2 s2 where 2: "updateGyroRate E s1 = (e2, s2)" by fastforce
  obtain e3 s3 where 3: "updateMagRate E s2 = (e3, s3)" by fastforce
  have c1: "core s1 = core s" using 1 by (rule rate_core)
  have c2: "core s2 = core s" using 2 c1 rate_core(2) by metis
  have c3: "core s3 = core s" using 3 c2 rate_core(3) by metis
  note eq = shortest [OF c1] shortest [OF c2]
  have r: "snd (update_rates E s) = s3" by (simp add: update_rates_def 1 2 3)
  show "core (snd (update_rates E s)) = core s" using c3 r by simp
  show "accel_prev_delay (snd (update_rates E s)) = shortest_delay usesAccel ACCEL_MAX_DELAY_US ACCEL_MIN_DELAY_US s"
    using 1 2 3 unfolding r
    by (auto simp: updateAccelRate_def updateGyroRate_def updateMagRate_def hub_send_def Let_def split: if_splits)
  show "gyro_prev_delay (snd (update_rates E s)) = shortest_delay usesGyro GYRO_MAX_DELAY_US GYRO_MIN_DELAY_US s"
    using 2 3 unfolding r eq [symmetric]
    by (auto simp: updateGyroRate_def updateMagRate_def hub_send_def Let_def eq split: if_splits)
  show "mag_prev_delay (snd (update_rates E s)) = shortest_delay usesMag MAG_MAX_DELAY_US MAG_MIN_DELAY_US s"
    using 3 unfolding r
    by (auto simp: updateMagRate_def hub_send_def Let_def eq split: if_splits)
qed

subsection \<open>A freshly constructed hub\<close>

lemma load_cal_core: "load_cal E f n rq s = (c, t) \<Longrightarrow> core t = core s"
  by (auto simp: load_cal_def core_def hub_send_def split: option.splits if_splits)

lemma load_cal_sync:
  "load_cal E f n rq s = (c, t) \<Longrightarrow> rate_sync s \<Longrightarrow> (\<And>b. acc_rate (rq b) = None \<and> gyro_rate (rq b) = None \<and> mag_rate (rq b) = None)
   \<Longrightarrow> rate_sync t"
  by (auto simp: load_cal_def rate_sync_def hub_send_def split: option.splits if_splits)

lemma new_HubSensors_core:
  assumes "\<And>tr. reply_sensors E tr = 0" and "\<And>tr. reply_wakesensors E tr = 0"
  shows "core (new_HubSensors E files) = (fusion_table_init, 0, 0, 0) \<and> rate_sync (new_HubSensors E files)"
proof -
  obtain gcal s1 where 1: "load_cal E GYRO_CAL_FILE (GYRO_CAL_SIZE E) SET_GYRO_CAL (zero_hub E files) = (gcal, s1)"
    by fastforce
  obtain acal s2 where 2: "load_cal E ACCEL_CAL_FILE (ACCEL_CAL_SIZE E) SET_ACCEL_CAL (s1\<lparr>mGyroCal := gcal\<rparr>) = (acal, s2)"
    by fastforce
  have z: "core (zero_hub E files) = (fusion_table_init, 0, 0, 0)" "rate_sync (zero_hub E files)"
    by (simp_all add: zero_hub_def core_def Let_def rate_sync_def last_sent_def)
  have s1: "core s1 = (fusion_table_init, 0, 0, 0)" "rate_sync s1"
    using load_cal_core [OF 1] load_cal_sync [OF 1] z by simp_all
  then have "core (s1\<lparr>mGyroCal := gcal\<rparr>) = (fusion_table_init, 0, 0, 0)" "rate_sync (s1\<lparr>mGyroCal := gcal\<rparr>)"
    by (simp_all add: core_def rate_sync_def)
  then have s2: "core s2 = (fusion_table_init, 0, 0, 0)" "rate_sync s2"
    using load_cal_core [OF 2] load_cal_sync [OF 2] by simp_all
  then show ?thesis
    by (simp add: new_HubSensors_def 1 2 hub_send_def assms core_def rate_sync_def Let_def)
qed

lemma hub_inv_empty:
  assumes "core s = (fusion_table_init, 0, 0, 0)"
  shows "on_handles s = {} \<and> hub_inv E s"
proof -
  have on: "on_handles s = {}" using assms by (simp add: on_handles_def isHandleEnabled_def core_def)
  have "wanted {} m = False" for m by (cases m) simp_all
  then show ?thesis using assms on by (simp add: hub_inv_parts fus_inv_def mask_inv_def core_def fusion_table_init_def)
qed

definition run_enables :: "('f, 'd) hub_env \<Rightarrow> (sensor_handle \<times> int) list \<Rightarrow> 'f hub \<Rightarrow> 'f hub" where
  "run_enables E = fold (\<lambda>(h, en) s. snd (hub_setEnable E (handle_num h) en s))"

definition run_toggles :: "(sensor_handle \<times> int) list \<Rightarrow> sensor_handle set \<Rightarrow> sensor_handle set" where
  "run_toggles = fold (\<lambda>(h, en). toggle h (en \<noteq> 0))"

lemma run_enables_inv:
  assumes "disjoint_masks (hub_masks E)" and "hub_inv E s" and "rate_sync s"
  shows "hub_inv E (run_enables E calls s) \<and> rate_sync (run_enables E calls s)
    \<and> on_handles (run_enables E calls s) = run_toggles calls (on_handles s)"
  using assms(2,3)
proof (induction calls arbitrary: s)
  case (Cons c calls)
  obtain h en where c: "c = (h, en)" by fastforce
  note setEnable_inv [OF assms(1) Cons.prems(1), of h en]
  with Cons.IH [of "snd (hub_setEnable E (handle_num h) en s)"] rate_sync_setEnable [OF Cons.prems(2), of E "handle_num h" en]
  show ?case by (simp add: run_enables_def run_toggles_def c)
qed (simp add: run_enables_def run_toggles_def)

subsection \<open>The kept masks are the masks last sent\<close>

fun sensors_word :: "hub_request \<Rightarrow> 32 word option" where
  "sensors_word (SET_SENSORS w) = Some w" | "sensors_word _ = None"

fun wakesensors_word :: "hub_request \<Rightarrow> 32 word option" where
  "wakesensors_word (SET_WAKESENSORS w) = Some w" | "wakesensors_word _ = None"

definition mask_sync :: "'f hub \<Rightarrow> bool" where
  "mask_sync s \<longleftrightarrow> mEnabled s = last_sent sensors_word (requests s) \<and> mWakeEnabled s = last_sent wakesensors_word (requests s)"

text \<open>The part of the state \<open>mask_sync\<close> reads.\<close>

definition mask_view :: "'f hub \<Rightarrow> 32 word \<times> 32 word \<times> 32 word \<times> 32 word" where
  "mask_view s = (mEnabled s, mWakeEnabled s, last_sent sensors_word (requests s), last_sent wakesensors_word (requests s))"

lemma mask_sync_view: "mask_view s = mask_view t \<Longrightarrow> mask_sync s = mask_sync t"
  by (simp add: mask_view_def mask_sync_def)

lemma mask_view_rates:
  "updateAccelRate E s = (e, t) \<Longrightarrow> mask_view t = mask_view s"
  "updateGyroRate E s = (e, t) \<Longrightarrow> mask_view t = mask_view s"
  "updateMagRate E s = (e, t) \<Longrightarrow> mask_view t = mask_view s"
  by (auto simp: updateAccelRate_def updateGyroRate_def updateMagRate_def hub_send_def mask_view_def Let_def
      split: if_splits)

lemma mask_view_choice:
  assumes "(err', w', s') = (if b then let (e, t) = r in (e, w OR mk, t) else (err, w AND NOT mk, s))"
    and "\<And>e t. r = (e, t) \<Longrightarrow> mask_view t = mask_view s"
  shows "mask_view s' = mask_view s"
  using assms by (cases r) (auto split: if_splits)

lemma mask_view_device_bits:
  assumes "device_bits E w s = (err, w', t)"
  shows "mask_view t = mask_view s"
proof -
  let ?M = "hub_masks E"
  obtain e1 w1 s1 where 1: "(e1, w1, s1) = (if isAccelNeeded s
      then let (e, s') = updateAccelRate E s in (e, w OR ?M M_ACCEL, s') else (0, w AND NOT (?M M_ACCEL), s))"
    by (metis prod_cases3)
  obtain e2 w2 s2 where 2: "(e2, w2, s2) = (if isGyroNeeded s1
      then let (e, s') = updateGyroRate E s1 in (e, w1 OR ?M M_GYRO, s') else (e1, w1 AND NOT (?M M_GYRO), s1))"
    by (metis prod_cases3)
  have 3: "(err, w', t) = (if isMagNeeded s2
      then let (e, s') = updateMagRate E s2 in (e, w2 OR ?M M_ECOMPASS, s') else (e2, w2 AND NOT (?M M_ECOMPASS), s2))"
    using assms unfolding device_bits_def Let_def 1 [unfolded Let_def, symmetric] prod.case 2 [unfolded Let_def, symmetric]
    by simp
  have "mask_view s1 = mask_view s" by (rule mask_view_choice [OF 1]) (rule mask_view_rates(1))
  moreover have "mask_view s2 = mask_view s1" by (rule mask_view_choice [OF 2]) (rule mask_view_rates(2))
  moreover have "mask_view t = mask_view s2" by (rule mask_view_choice [OF 3]) (rule mask_view_rates(3))
  ultimately show ?thesis by simp
qed

lemma mask_view_reset [simp]: "mask_view (reset_fusion E s) = mask_view s"
  by (simp add: reset_fusion_def Let_def mask_view_def split: prod.split)

lemma mask_sync_nonwake:
  assumes "mask_sync s" and "enable_nonwake E h en s = (e, t)"
  shows "mask_sync t"
proof (cases "Option.bind h (\<lambda>h. nonwake_case (hub_masks E) h en (mFusionSensors s, mEnabled s))")
  case None
  with assms show ?thesis by (simp add: enable_nonwake_def)
next
  case (Some p)
  obtain tb w where p: "p = (tb, w)" by fastforce
  obtain e' w' s' where d: "device_bits E w (s\<lparr>mFusionSensors := tb\<rparr>) = (e', w', s')" by (metis prod_cases3)
  have s': "mask_sync s'" using mask_view_device_bits [OF d] assms(1) by (simp add: mask_sync_def mask_view_def)
  define u where "u = (if w' = mEnabled s' then s' else (snd (hub_send E (SET_SENSORS w') s'))\<lparr>mEnabled := w'\<rparr>)"
  have "mask_sync u" using s' by (simp add: u_def mask_sync_def hub_send_def)
  moreover have "t = reset_fusion E u"
    using assms(2) by (auto simp: enable_nonwake_def Some p d hub_send_def u_def split: if_splits)
  ultimately show ?thesis using mask_sync_view [OF mask_view_reset [of E u]] by simp
qed

lemma mask_sync_wake: "mask_sync s \<Longrightarrow> enable_wake E h en (e0, s) = (e, t) \<Longrightarrow> mask_sync t"
  by (auto simp: enable_wake_def hub_send_def mask_sync_def split: option.splits if_splits)

lemma mask_sync_setEnable:
  assumes "mask_sync s"
  shows "mask_sync (snd (hub_setEnable E h en s))"
proof -
  obtain e1 s1 where 1: "enable_nonwake E (handle_of h) (en \<noteq> 0) s = (e1, s1)" by fastforce
  obtain e2 s2 where 2: "enable_wake E (handle_of h) (en \<noteq> 0) (e1, s1) = (e2, s2)" by fastforce
  have "mask_sync s2" using assms 1 2 by (blast intro: mask_sync_nonwake mask_sync_wake)
  then show ?thesis by (simp add: hub_setEnable_def 1 2 mask_sync_def)
qed

lemma load_cal_masks:
  "load_cal E f n rq s = (c, t) \<Longrightarrow> (\<And>b. sensors_word (rq b) = None \<and> wakesensors_word (rq b) = None) \<Longrightarrow> mask_view t = mask_view s"
  by (auto simp: load_cal_def mask_view_def hub_send_def split: option.splits if_splits)

text \<open>The constructor asks the device for its masks and sends none.\<close>

lemma new_HubSensors_masks:
  assumes "\<And>tr. reply_sensors E tr = 0" and "\<And>tr. reply_wakesensors E tr = 0"
  shows "mask_sync (new_HubSensors E files)"
proof -
  obtain gcal s1 where 1: "load_cal E GYRO_CAL_FILE (GYRO_CAL_SIZE E) SET_GYRO_CAL (zero_hub E files) = (gcal, s1)"
    by fastforce
  obtain acal s2 where 2: "load_cal E ACCEL_CAL_FILE (ACCEL_CAL_SIZE E) SET_ACCEL_CAL (s1\<lparr>mGyroCal := gcal\<rparr>) = (acal, s2)"
    by fastforce
  have "mask_view (zero_hub E files) = (0, 0, 0, 0)" by (simp add: zero_hub_def mask_view_def Let_def last_sent_def)
  then have "mask_view (s1\<lparr>mGyroCal := gcal\<rparr>) = (0, 0, 0, 0)" using load_cal_masks [OF 1] by (simp add: mask_view_def)
  then have "mask_view s2 = (0, 0, 0, 0)" using load_cal_masks [OF 2] by simp
  then show ?thesis
    by (simp add: new_HubSensors_def 1 2 hub_send_def assms mask_sync_def mask_view_def Let_def)
qed

lemma run_enables_masks: "mask_sync s \<Longrightarrow> mask_sync (run_enables E calls s)"
  by (induction calls arbitrary: s) (auto simp: run_enables_def mask_sync_setEnable)

text \<open>A handle is on exactly when its last call switched it on.\<close>

lemma run_toggles_last:
  "h \<in> run_toggles calls H \<longleftrightarrow> (case map_of (rev calls) h of None \<Rightarrow> h \<in> H | Some en \<Rightarrow> en \<noteq> 0)"
  by (induction calls arbitrary: H) (auto simp: run_toggles_def toggle_iff map_add_def split: option.split)

end
