(* ===== verification/Hub_Control.thy ===== *)
theory Hub_Control
  imports Hub_Enable
begin

text \<open>
  What the enabling and rate operations of the hub driver promise, and a concrete platform
  (\<open>plain_env\<close>: exact arithmetic, one bit per mask, a device that accepts everything) on which
  the statements are instantiated.
\<close>

section \<open>A concrete platform\<close>

fun mask_index :: "hub_mask \<Rightarrow> nat" where
  "mask_index M_ACCEL = 0" | "mask_index M_GYRO = 1" | "mask_index M_UNCALIB_GYRO = 2" | "mask_index M_ALS = 3"
| "mask_index M_DISP_ROTATE = 4" | "mask_index M_STEP_COUNTER = 5" | "mask_index M_STEP_DETECTOR = 6"
| "mask_index M_ECOMPASS = 7" | "mask_index M_PROXIMITY = 8" | "mask_index M_FLATUP = 9" | "mask_index M_FLATDOWN = 10"
| "mask_index M_STOWED = 11" | "mask_index M_CAMERA_GESTURE = 12" | "mask_index M_LIFT = 13" | "mask_index M_CHOPCHOP = 14"
| "mask_index M_GLANCE = 15" | "mask_index M_MOTION_DETECT = 16" | "mask_index M_STATIONARY_DETECT = 17"

definition plain_env :: "(real, real) hub_env" where
  "plain_env =
     \<lparr>flt = real_arith, dbl = real_arith, GRAVITY_EARTH = 980665 / 100000, rad_per_degree = 1 / 57,
      hub_masks = (\<lambda>m. push_bit (mask_index m) 1), dt_code = (\<lambda>_. 0), STML0XX_CAMERA_DATA = 1,
      GYRO_CAL_SIZE = 2, ACCEL_CAL_SIZE = 2, RESET_REASON_MAX_CODE = 3,
      hub_ioctl = (\<lambda>_ _. 0), reply_sensors = (\<lambda>_. 0), reply_wakesensors = (\<lambda>_. 0), reply_cal = (\<lambda>_. [1, 2]),
      fopen_fails = (\<lambda>_. False), fwritten = (\<lambda>_ n. n), time_now = int, time_text = (\<lambda>_. None), hub_pid = 1\<rparr>"

definition plain_hub :: "real hub" where
  "plain_hub = new_HubSensors plain_env (\<lambda>_. None)"

lemma mask_index_inj: "mask_index m = mask_index k \<Longrightarrow> m = k"
  by (cases m; cases k) simp_all

lemma plain_masks: "disjoint_masks (hub_masks plain_env)"
proof -
  have "mask_index m < 32" for m by (cases m) simp_all
  then show ?thesis
    by (auto simp: disjoint_masks_def plain_env_def bit_eq_iff [where 'a = "32 word"] bit_simps dest: mask_index_inj)
qed

lemma plain_hub_core: "core plain_hub = (fusion_table_init, 0, 0, 0)" and plain_hub_sync: "rate_sync plain_hub"
  using new_HubSensors_core [of plain_env "\<lambda>_. None"] by (simp_all add: plain_hub_def plain_env_def)

lemma plain_hub_inv: "hub_inv plain_env plain_hub" "on_handles plain_hub = {}"
  using hub_inv_empty [OF plain_hub_core, of plain_env] by simp_all

section \<open>Properties\<close>

text \<open>C4: switching a sensor on or off refines inserting its handle into, or removing it from,
  the set of enabled handles: the invariant is kept, that is, the fusion table has exactly the
  enabled fusion sensors switched on and every mask bit sent to the device (the shared bits of
  accelerometer, gyroscope, compass and glance gesture included) is set exactly when some
  enabled handle wants it.\<close>

theorem setEnable_refines_handles:
  assumes "disjoint_masks (hub_masks E)" and "hub_inv E s"
  shows "hub_inv E (snd (hub_setEnable E (handle_num h) en s))
    \<and> on_handles (snd (hub_setEnable E (handle_num h) en s)) = toggle h (en \<noteq> 0) (on_handles s)"
  using assms by (rule setEnable_inv)

theorem setEnable_refines_handles_witness:
  "on_handles (snd (hub_setEnable plain_env (handle_num ID_GLANCE_GESTURE) 1 plain_hub)) = {ID_GLANCE_GESTURE}"
  using setEnable_refines_handles [OF plain_masks plain_hub_inv(1), of ID_GLANCE_GESTURE 1] plain_hub_inv(2)
  by (simp add: toggle_def)

text \<open>C15: after any sequence of switching operations on a freshly constructed hub whose
  device starts with everything off, exactly the handles whose last operation switched them on
  are enabled, and in the words last sent to the device (0 when none was sent) each mask is set
  exactly when one of those handles wants it; the cached sampling rates are the ones last sent.\<close>

theorem device_matches_handles:
  assumes "disjoint_masks (hub_masks E)"
    and "\<And>tr. reply_sensors E tr = 0" and "\<And>tr. reply_wakesensors E tr = 0"
  shows "on_handles (run_enables E calls (new_HubSensors E files)) = {h. \<exists>en. map_of (rev calls) h = Some en \<and> en \<noteq> 0}
    \<and> last_sent (if is_wake m then wakesensors_word else sensors_word) (requests (run_enables E calls (new_HubSensors E files))) AND hub_masks E m
      = (if wanted {h. \<exists>en. map_of (rev calls) h = Some en \<and> en \<noteq> 0} m then hub_masks E m else 0)
    \<and> rate_sync (run_enables E calls (new_HubSensors E files))"
proof -
  let ?s = "new_HubSensors E files"
  let ?t = "run_enables E calls ?s"
  have c: "core ?s = (fusion_table_init, 0, 0, 0)" "rate_sync ?s" using new_HubSensors_core assms(2,3) by blast+
  note r = run_enables_inv [OF assms(1) conjunct2 [OF hub_inv_empty [OF c(1)]] c(2), of calls]
  have on: "on_handles ?t = {h. \<exists>en. map_of (rev calls) h = Some en \<and> en \<noteq> 0}"
    using r hub_inv_empty [OF c(1), of E] by (auto simp: run_toggles_last split: option.splits)
  have "mask_sync ?t" by (intro run_enables_masks new_HubSensors_masks assms(2,3))
  then have "mask_word ?t m = last_sent (if is_wake m then wakesensors_word else sensors_word) (requests ?t)"
    by (simp add: mask_sync_def mask_word_def)
  moreover have "mask_word ?t m AND hub_masks E m = (if wanted (on_handles ?t) m then hub_masks E m else 0)"
    using r by (simp add: hub_inv_def)
  ultimately show ?thesis using on r by simp
qed

theorem device_matches_handles_witness:
  "on_handles (run_enables plain_env [(ID_RV, 1), (ID_A, 1), (ID_RV, 0)] plain_hub) = {ID_A}
   \<and> last_sent sensors_word (requests (run_enables plain_env [(ID_RV, 1), (ID_A, 1), (ID_RV, 0)] plain_hub)) AND hub_masks plain_env M_GYRO = 0"
proof -
  have on: "{h. \<exists>en. map_of (rev [(ID_RV, 1 :: int), (ID_A, 1), (ID_RV, 0)]) h = Some en \<and> en \<noteq> 0} = {ID_A}" by auto
  have "\<not> wanted {ID_A} M_GYRO" by (auto simp: fusion_table_init_def)
  with device_matches_handles [of plain_env "[(ID_RV, 1), (ID_A, 1), (ID_RV, 0)]" "\<lambda>_. None" M_GYRO, OF plain_masks] on
  show ?thesis by (simp add: plain_hub_def plain_env_def)
qed

text \<open>After a period is set, the rate last requested from the gyroscope lies between 5 and
  200 ms and is no slower than any enabled sensor that uses the gyroscope asked for, down to the
  device's fastest rate.\<close>

theorem gyro_rate_serves_all:
  assumes "0 \<le> ns" and "rate_sync s"
    and "usesGyro (mFusionSensors (snd (hub_setDelay E ls h ns s)) i)"
    and "fs_enabled (mFusionSensors (snd (hub_setDelay E ls h ns s)) i)"
  shows "last_sent gyro_rate (requests (snd (hub_setDelay E ls h ns s)))
      \<le> max (delay (mFusionSensors (snd (hub_setDelay E ls h ns s)) i)) 5
    \<and> 5 \<le> last_sent gyro_rate (requests (snd (hub_setDelay E ls h ns s)))
    \<and> last_sent gyro_rate (requests (snd (hub_setDelay E ls h ns s))) \<le> 200"
proof -
  let ?t = "snd (hub_setDelay E ls h ns s)"
  obtain e1 s1 where 1: "delay_case E (handle_of h) (clamp_delay ls h ns) s = (e1, s1)" by fastforce
  have t: "?t = snd (update_rates E s1)"
    using assms(1) by (simp add: hub_setDelay_def 1 case_prod_beta)
  have "rate_sync ?t" using assms(2) by (rule rate_sync_setDelay)
  then have p: "last_sent gyro_rate (requests ?t) = shortest_delay usesGyro GYRO_MAX_DELAY_US GYRO_MIN_DELAY_US s1"
    using update_rates_spec(3) [of E s1] by (simp add: rate_sync_def t)
  have f: "mFusionSensors ?t = mFusionSensors s1"
    using update_rates_spec(1) [of E s1] by (simp add: t core_def)
  have lim: "word_of_int (GYRO_MIN_DELAY_US div 1000) = (5 :: 16 word)"
    "word_of_int (GYRO_MAX_DELAY_US div 1000) = (200 :: 16 word)" by (simp_all add: delay_limits)
  show ?thesis
    using assms(3,4) shortest_delay_bounds(1,2) [where uses = usesGyro and s = s1
        and max_us = GYRO_MAX_DELAY_US and min_us = GYRO_MIN_DELAY_US]
      shortest_delay_bounds(3) [where uses = usesGyro and s = s1 and i = i
        and max_us = GYRO_MAX_DELAY_US and min_us = GYRO_MIN_DELAY_US] lim
    by (simp add: p f max_def)
qed

definition plain_list :: "sensor_t list" where "plain_list = sSensorList_init @ eCompass_sensors"

theorem gyro_rate_serves_all_witness:
  "last_sent gyro_rate (requests (snd (hub_setDelay plain_env [] (handle_num ID_G) 20000000
     (snd (hub_setEnable plain_env (handle_num ID_G) 1 plain_hub))))) \<le> 20"
proof -
  let ?s = "snd (hub_setEnable plain_env (handle_num ID_G) 1 plain_hub)"
  let ?t = "snd (hub_setDelay plain_env [] (handle_num ID_G) 20000000 ?s)"
  have "hub_inv plain_env ?s" "on_handles ?s = {ID_G}"
    using setEnable_inv [OF plain_masks plain_hub_inv(1), of ID_G 1] plain_hub_inv(2) by (simp_all add: toggle_def)
  then have "fs_enabled (mFusionSensors ?s GYRO)" "usesGyro (mFusionSensors ?s GYRO)"
    by (simp_all add: hub_inv_def fus_inv_def fusion_table_init_def)
  moreover have "mFusionSensors ?t = mFusionSensors (fs_delay GYRO 20 ?s)"
    using update_rates_spec(1) [of plain_env "fs_delay GYRO 20 ?s"]
    by (simp add: hub_setDelay_def clamp_delay_def entry_of_def case_prod_beta core_def)
  ultimately show ?thesis
    using gyro_rate_serves_all [OF _ rate_sync_setEnable [OF plain_hub_sync], of 20000000 plain_env "[]"
        "handle_num ID_G" plain_env "handle_num ID_G" 1 GYRO]
    by (simp add: fs_delay_def max_def)
qed

text \<open>The period \<open>setDelay\<close> works with, sensor by sensor: requested milliseconds are
  taken modulo 65536 (so that 65.536 s asks for the fastest rate), and a sensor whose entry has no
  longest delay always gets its shortest one: the light sensor 0 ms, the rotation vector 5 ms,
  the geomagnetic rotation vector 10 ms and the step counter one second, whatever is requested.\<close>

theorem requested_period_clamped:
  "clamp_delay plain_list (handle_num ID_A) ns = word_of_int (max (min (ns div 1000000 mod 65536) 200) 10)
   \<and> clamp_delay plain_list (handle_num ID_G) ns = word_of_int (max (min (ns div 1000000 mod 65536) 200) 5)
   \<and> clamp_delay plain_list (handle_num ID_GAME_RV) ns = word_of_int (max (min (ns div 1000000 mod 65536) 10) 5)
   \<and> clamp_delay plain_list (handle_num ID_LA) ns = 10
   \<and> clamp_delay plain_list (handle_num ID_L) ns = 0
   \<and> clamp_delay plain_list (handle_num ID_RV) ns = 5
   \<and> clamp_delay plain_list (handle_num ID_GEOMAG_RV) ns = 10
   \<and> clamp_delay plain_list (handle_num ID_STEP_COUNTER) ns = 1000"
proof -
  have e: "entry_of plain_list (handle_num ID_A) = Some accelSensor"
    "entry_of plain_list (handle_num ID_G) = Some gyroSensor"
    "entry_of plain_list (handle_num ID_GAME_RV) = Some gameRvSensor"
    "entry_of plain_list (handle_num ID_LA) = Some linearAccelSensor"
    "entry_of plain_list (handle_num ID_L) = Some lightSensor"
    "entry_of plain_list (handle_num ID_RV) = Some rotationSensorType"
    "entry_of plain_list (handle_num ID_GEOMAG_RV) = Some geoRotationSensorType"
    "entry_of plain_list (handle_num ID_STEP_COUNTER) = Some stepCounterSensor"
    by code_simp+
  have u: "uint (word_of_int k :: 16 word) = k mod 65536" for k by (simp add: uint_word_of_int)
  have lo: "min (k mod 65536) 0 = (0 :: int)" for k using pos_mod_sign [of 65536 k] by (auto simp: min_def)
  show ?thesis
    by (simp add: clamp_delay_def e u lo sensor_entries delay_limits)
qed

text \<open>\<open>setDelay\<close> reports nothing but a failure of the last rate update: when the
  compass rate is always accepted it returns 0 for any handle and any non-negative period, so the
  \<open>-EINVAL\<close> it prepares for an unsupported sensor and a failure to set the light or step
  counter period or the accelerometer or gyroscope rate are lost.\<close>

theorem setDelay_error_lost:
  assumes "\<And>tr d. hub_ioctl E tr (SET_MAG_DELAY d) = 0" and "0 \<le> ns"
  shows "fst (hub_setDelay E ls h ns s) = 0"
proof -
  have "fst (updateMagRate E s) = 0" for s
    using assms(1) by (simp add: updateMagRate_def hub_send_def Let_def)
  then have "fst (update_rates E s) = 0" for s
    by (simp add: update_rates_def case_prod_beta Let_def)
  then show ?thesis using assms(2) by (simp add: hub_setDelay_def case_prod_beta Let_def)
qed

theorem setDelay_error_lost_witness:
  "fst (delay_case plain_env None 20 plain_hub) = - EINVAL \<and> fst (hub_setDelay plain_env plain_list 99 20000000 plain_hub) = 0"
proof -
  have "fst (hub_setDelay plain_env plain_list 99 20000000 plain_hub) = 0"
    by (rule setDelay_error_lost) (simp_all add: plain_env_def)
  then show ?thesis by simp
qed

text \<open>Switching any other non-wake sensor, here the light sensor, restarts the
  geomagnetic algorithm whenever the geomagnetic rotation vector itself is off, even while the
  9-axis rotation vector, which feeds on it, is in use.\<close>

theorem light_restarts_geomag:
  assumes "\<not> fs_enabled (mFusionSensors s GEOMAG_RV)"
  shows "\<not> m_initialized (mGeomagRV (snd (hub_setEnable E (handle_num ID_L) en s)))
    \<and> mag_cnt (mGeomagRV (snd (hub_setEnable E (handle_num ID_L) en s))) = MAG_COUNTS"
proof -
  let ?w = "mask_set (hub_masks E M_ALS) (en \<noteq> 0) (mEnabled s)"
  obtain e w' s' where d: "device_bits E ?w s = (e, w', s')" by (metis prod_cases3)
  have c: "mFusionSensors s' = mFusionSensors s"
  proof -
    have "core s' = core s"
      using d unfolding device_bits_def
      by (auto simp: Let_def split: if_splits prod.splits dest!: rate_core)
    then show ?thesis by (simp add: core_def)
  qed
  have g: "\<not> fs_enabled (mFusionSensors u GEOMAG_RV) \<Longrightarrow>
      \<not> m_initialized (mGeomagRV (reset_fusion E u)) \<and> mag_cnt (mGeomagRV (reset_fusion E u)) = MAG_COUNTS" for u
    by (simp add: reset_fusion_def Let_def geomag_processFusion_def split: prod.split)
  define u where "u = (if w' = mEnabled s' then s' else (snd (hub_send E (SET_SENSORS w') s'))\<lparr>mEnabled := w'\<rparr>)"
  have "enable_nonwake E (Some ID_L) (en \<noteq> 0) s = (if w' = mEnabled s' then e else 0, reset_fusion E u)"
    using d by (cases "w' = mEnabled s'") (simp_all add: enable_nonwake_def hub_send_def u_def)
  then have r: "snd (hub_setEnable E (handle_num ID_L) en s) = mark_handle (handle_num ID_L) (en \<noteq> 0) (reset_fusion E u)"
    by (simp add: hub_setEnable_def enable_wake_def)
  have "\<not> fs_enabled (mFusionSensors u GEOMAG_RV)" using assms c by (simp add: u_def)
  from g [OF this] show ?thesis by (simp add: r mark_handle_def)
qed

theorem light_restarts_geomag_witness:
  "\<not> m_initialized (mGeomagRV (snd (hub_setEnable plain_env (handle_num ID_L) 1
      (plain_hub\<lparr>mGeomagRV := (mGeomagRV plain_hub)\<lparr>m_initialized := True\<rparr>\<rparr>))))"
  using light_restarts_geomag [of "plain_hub\<lparr>mGeomagRV := (mGeomagRV plain_hub)\<lparr>m_initialized := True\<rparr>\<rparr>" plain_env 1]
    plain_hub_core by (simp add: core_def fusion_table_init_def)

end
