(* ===== verification/Hub_Events.thy ===== *)
theory Hub_Events
  imports Hub_Enable
begin

text \<open>
  The sensor hub driver, third part: \<open>HubSensors::readEvents\<close>, which reads messages of the
  hub and turns them into events, with the calibration tables, the crash reports and the step
  counter kept on the way.
\<close>

section \<open>Messages\<close>

text \<open>\<open>struct stml0xx_android_sensor_data\<close>. A failing \<open>read\<close> returns -1 and leaves
  the buffer as it was.\<close>

record hub_message =
  msg_type :: hub_dt
  msg_data :: "nat \<Rightarrow> 8 word"
  msg_status :: "8 word"
  msg_timestamp :: int

datatype hub_read = Read_Message hub_message | Read_Failed

definition STM16TOH :: "hub_message \<Rightarrow> nat \<Rightarrow> int" where
  "STM16TOH m i = sint (word_cat (msg_data m i) (msg_data m (i + 1)) :: 16 word)"

definition STM32TOH :: "hub_message \<Rightarrow> nat \<Rightarrow> int" where
  "STM32TOH m i = sint (word_cat (word_cat (msg_data m i) (msg_data m (i + 1)) :: 16 word)
     (word_cat (msg_data m (i + 2)) (msg_data m (i + 3)) :: 16 word) :: 32 word)"

section \<open>Unit conversions\<close>

definition LSG :: "'f farith \<Rightarrow> 'f" where "LSG A = f_lit A 2048 1"

definition CONVERT_A :: "('f, 'd) hub_env \<Rightarrow> 'f" where
  "CONVERT_A E = f_div (flt E) (GRAVITY_EARTH E) (LSG (flt E))"

definition CONVERT_G :: "('f, 'd) hub_env \<Rightarrow> 'f" where
  "CONVERT_G E = f_mul (flt E) (f_div (flt E) (f_lit (flt E) 2000 1) (f_lit (flt E) 32767 1)) (rad_per_degree E)"

definition CONVERT_M :: "('f, 'd) hub_env \<Rightarrow> 'f" where
  "CONVERT_M E = f_div (flt E) (f_lit (flt E) 1 1) (f_lit (flt E) 16 1)"

definition CONVERT_O :: "('f, 'd) hub_env \<Rightarrow> 'f" where
  "CONVERT_O E = f_div (flt E) (f_lit (flt E) 1 1) (f_lit (flt E) 64 1)"

definition PROX_UNCOVERED :: "'f farith \<Rightarrow> 'f" where "PROX_UNCOVERED A = f_lit A 100 1"
definition PROX_COVERED :: "'f farith \<Rightarrow> 'f" where "PROX_COVERED A = f_lit A 3 1"
definition PROX_SATURATED :: "'f farith \<Rightarrow> 'f" where "PROX_SATURATED A = f_lit A 1 1"
definition DISP_FLAT :: "8 word" where "DISP_FLAT = 0x10"
definition DISP_UNKNOWN :: "'f farith \<Rightarrow> 'f" where "DISP_UNKNOWN A = f_lit A (- 1) 1"
definition FLAT_NOTDETECTED :: "'f farith \<Rightarrow> 'f" where "FLAT_NOTDETECTED A = f_lit A 0 1"
definition FLAT_DETECTED :: "'f farith \<Rightarrow> 'f" where "FLAT_DETECTED A = f_lit A 1 1"

text \<open>A 16-bit value of the message in a unit.\<close>

definition scaled :: "('f, 'd) hub_env \<Rightarrow> 'f \<Rightarrow> hub_message \<Rightarrow> nat \<Rightarrow> 'f" where
  "scaled E unit m i = f_mul (flt E) (f_of_int (flt E) (STM16TOH m i)) unit"

definition scaled3 :: "('f, 'd) hub_env \<Rightarrow> 'f \<Rightarrow> hub_message \<Rightarrow> 'f cart_data" where
  "scaled3 E unit m = \<lparr>cx = scaled E unit m 0, cy = scaled E unit m 2, cz = scaled E unit m 4, cts = msg_timestamp m\<rparr>"

definition bias6 :: "('f, 'd) hub_env \<Rightarrow> 'f \<Rightarrow> hub_message \<Rightarrow> 'f payload" where
  "bias6 E unit m = Uncalibrated (scaled E unit m 0) (scaled E unit m 2) (scaled E unit m 4)
     (scaled E unit m 6) (scaled E unit m 8) (scaled E unit m 10)"

definition hub_event :: "sensor_handle \<Rightarrow> sensor_type \<Rightarrow> int \<Rightarrow> 'f payload \<Rightarrow> 'f sensors_event" where
  "hub_event h ty ts p =
     \<lparr>version = SENSORS_EVENT_T_SIZE, sensor = SENSORS_HANDLE_BASE + handle_num h, etype = ty,
      timestamp = ts, payload = p\<rparr>"

definition vec_payload :: "'f cart_data \<Rightarrow> vec_status \<Rightarrow> 'f payload" where
  "vec_payload c st = Vector (cx c) (cy c) (cz c) st"

definition quat_payload :: "'f quat_data \<Rightarrow> 'f payload" where
  "quat_payload q = Data [qa q, qb q, qc q, qd q, accuracy q]"

section \<open>Crash reports\<close>

definition DROPBOX_DIR :: string where "DROPBOX_DIR = ''/data/system/dropbox-add''"
definition DROPBOX_TAG :: string where "DROPBOX_TAG = ''SENSOR_HUB''"
definition DROPBOX_FLAGS :: int where "DROPBOX_FLAGS = 6"
definition newline :: string where "newline = [CHR 0x0A]"

text \<open>\<open>snprintf\<close> keeps one byte less than the size it is given.\<close>

definition open_dropbox_file :: "('f, 'd) hub_env \<Rightarrow> string \<Rightarrow> int \<Rightarrow> path option" where
  "open_dropbox_file E ts flags =
     (let p = take 127 (DROPBOX_DIR @ ''/'' @ DROPBOX_TAG @ '':'' @ show_int flags @ '':''
                @ show_int (int (hub_pid E)) @ ''-'' @ ts)
      in if fopen_fails E p then None else Some p)"

definition show_int02 :: "int \<Rightarrow> string" where
  "show_int02 i = (if 0 \<le> i \<and> i < 10 then ''0'' @ show_int i else show_int i)"

definition capture_dump :: "('f, 'd) hub_env \<Rightarrow> string \<Rightarrow> int \<Rightarrow> 'f hub \<Rightarrow> 'f hub" where
  "capture_dump E ts code s =
     (case open_dropbox_file E ts DROPBOX_FLAGS of
        None \<Rightarrow> s
      | Some p \<Rightarrow>
          s\<lparr>dumps := dumps s @ [(p,
               take 255 (''timestamp:'' @ ts @ newline) @ ''reason:'' @ show_int02 code @ newline
               @ concat (map (\<lambda>i. ''['' @ show_int (int i) @ '']:'' @ show_int (uint (mErrorCnt s ! i)) @ newline)
                   [0..<RESET_REASON_MAX_CODE E + 1]))],
            mErrorCnt := replicate (RESET_REASON_MAX_CODE E + 1) 0\<rparr>)"

definition DAY :: int where "DAY = 24 * 60 * 60"

text \<open>The report is stamped with the local time, when it can be told; the time of the last
  report is noted either way.\<close>

definition report_crash :: "('f, 'd) hub_env \<Rightarrow> int \<Rightarrow> hub_dt \<Rightarrow> 'f hub \<Rightarrow> 'f hub" where
  "report_crash E t ty s =
     (let s1 = (case time_text E t of None \<Rightarrow> s | Some ts \<Rightarrow> capture_dump E ts (dt_code E ty) s)
      in s1\<lparr>sent_bug2go_sec := t\<rparr>)"

definition clock :: "('f, 'd) hub_env \<Rightarrow> 'f hub \<Rightarrow> int \<times> 'f hub" where
  "clock E s = (time_now E (ticks s), s\<lparr>ticks := ticks s + 1\<rparr>)"

definition on_reset :: "('f, 'd) hub_env \<Rightarrow> hub_message \<Rightarrow> 'f hub \<Rightarrow> 'f hub" where
  "on_reset E m s =
     (let (t, s1) = clock E s;
          c = unat (msg_data m 0);
          s2 = (if c \<le> RESET_REASON_MAX_CODE E then s1\<lparr>mErrorCnt := (mErrorCnt s1)[c := mErrorCnt s1 ! c + 1]\<rparr> else s1)
      in if sent_bug2go_sec s2 = 0 \<or> t - sent_bug2go_sec s2 > DAY
         then report_crash E t (msg_type m) s2
         else s2\<lparr>mPendingBug2go := 1\<rparr>)"

definition pending_report :: "('f, 'd) hub_env \<Rightarrow> hub_dt \<Rightarrow> 'f hub \<Rightarrow> 'f hub" where
  "pending_report E ty s =
     (if mPendingBug2go s = 1 then
        let (t, s1) = clock E s
        in if t - sent_bug2go_sec s1 > DAY then (report_crash E t ty s1)\<lparr>mPendingBug2go := 0\<rparr> else s1
      else s)"

section \<open>One message\<close>

definition logAlsEvent :: "'d farith \<Rightarrow> int \<Rightarrow> int \<Rightarrow> 'f hub \<Rightarrow> 'f hub" where
  "logAlsEvent D lux ts s =
     (let luxDelta = \<bar>lux - last_logged_val s\<bar>
      in if last_logged_val s = - 1
            \<or> (f_less D (f_mul D (f_of_int D (last_logged_val s)) (f_lit D 15 100)) (f_of_int D luxDelta)
               \<and> luxDelta \<ge> 5 \<and> ts - last_logged_ts_ns s \<ge> 1000000000)
         then s\<lparr>last_logged_val := lux, last_logged_ts_ns := ts\<rparr> else s)"

definition on_accel :: "('f, 'd) hub_env \<Rightarrow> hub_message \<Rightarrow> 'f hub \<Rightarrow> 'f hub \<times> 'f sensors_event list" where
  "on_accel E m s =
     (let acc = scaled3 E (CONVERT_A E) m;
          s1 = s\<lparr>mFusionData := (mFusionData s)\<lparr>fd_accel := acc\<rparr>\<rparr>;
          on = (\<lambda>i. fs_enabled (mFusionSensors s i));
          ev1 = (if on ACCEL
                 then [hub_event ID_A SENSOR_TYPE_ACCELEROMETER (cts acc) (vec_payload acc SENSOR_STATUS_ACCURACY_HIGH)]
                 else [])
      in if on GEOMAG_RV \<or> on ROTATION_VECT
         then
           let (ready, g, fd) = geomag_processFusion (flt E) (mGeomagRV s1, mFusionData s1) False;
               ev2 = (if on GEOMAG_RV
                      then [hub_event ID_GEOMAG_RV SENSOR_TYPE_GEOMAGNETIC_ROTATION_VECTOR (qts (fd_geoMagRotation fd))
                              (quat_payload (fd_geoMagRotation fd))]
                      else [])
           in (s1\<lparr>mGeomagRVReady := ready, mGeomagRV := g, mFusionData := fd\<rparr>, ev1 @ ev2)
         else (s1, ev1))"

text \<open>A gyroscope sample: its own event, the 6-axis fusion and what derives from it, the 9-axis
  fusion.\<close>

definition gravity_events :: "('f, 'd) hub_env \<Rightarrow> 'f hub \<Rightarrow> 'f hub \<times> 'f sensors_event list" where
  "gravity_events E s =
     (let on = (\<lambda>i. fs_enabled (mFusionSensors s i)) in
      if on LINEAR_ACCEL \<or> on GRAVITY
      then
        let (_, fd) = lag_processFusion (flt E) (GRAVITY_EARTH E) (mFusionData s) False;
            la = fd_linearAccel fd; gr = fd_gravity fd
        in (s\<lparr>mFusionData := fd\<rparr>,
            (if on LINEAR_ACCEL
             then [hub_event ID_LA SENSOR_TYPE_LINEAR_ACCELERATION (cts la) (vec_payload la SENSOR_STATUS_ACCURACY_HIGH)]
             else [])
            @ (if on GRAVITY
               then [hub_event ID_GRAVITY SENSOR_TYPE_GRAVITY (cts gr) (vec_payload gr SENSOR_STATUS_ACCURACY_HIGH)]
               else []))
      else (s, []))"

definition game_events :: "('f, 'd) hub_env \<Rightarrow> 'f hub \<Rightarrow> 'f hub \<times> 'f sensors_event list" where
  "game_events E s =
     (let on = (\<lambda>i. fs_enabled (mFusionSensors s i)) in
      if on GAME_RV \<or> on LINEAR_ACCEL \<or> on GRAVITY
      then
        let (_, g, fd) = game_processFusion (flt E) (mGameRV s, mFusionData s) False;
            rv = fd_gameRotation fd;
            ev = (if on GAME_RV
                  then [hub_event ID_GAME_RV SENSOR_TYPE_GAME_ROTATION_VECTOR (qts rv) (quat_payload rv)]
                  else []);
            (s', ev') = gravity_events E (s\<lparr>mGameRV := g, mFusionData := fd\<rparr>)
        in (s', ev @ ev')
      else (s, []))"

definition rotation_events :: "('f, 'd) hub_env \<Rightarrow> 'f hub \<Rightarrow> 'f hub \<times> 'f sensors_event list" where
  "rotation_events E s =
     (if fs_enabled (mFusionSensors s ROTATION_VECT)
      then
        let (_, g, fd) = rv_processFusion (flt E) (mRotationVect s, mFusionData s) (\<not> mGeomagRVReady s);
            rv = fd_rotationVector fd
        in (s\<lparr>mRotationVect := g, mFusionData := fd\<rparr>,
            [hub_event ID_RV SENSOR_TYPE_ROTATION_VECTOR (qts rv) (quat_payload rv)])
      else (s, []))"

definition on_gyro :: "('f, 'd) hub_env \<Rightarrow> hub_message \<Rightarrow> 'f hub \<Rightarrow> 'f hub \<times> 'f sensors_event list" where
  "on_gyro E m s =
     (let gy = scaled3 E (CONVERT_G E) m;
          s1 = s\<lparr>mFusionData := (mFusionData s)\<lparr>fd_gyro := gy\<rparr>\<rparr>;
          ev1 = (if fs_enabled (mFusionSensors s GYRO)
                 then [hub_event ID_G SENSOR_TYPE_GYROSCOPE (cts gy) (vec_payload gy SENSOR_STATUS_ACCURACY_HIGH)]
                 else []);
          (s2, ev2) = game_events E s1;
          (s3, ev3) = rotation_events E s2
      in (s3, ev1 @ ev2 @ ev3))"

definition on_mag :: "('f, 'd) hub_env \<Rightarrow> hub_message \<Rightarrow> 'f hub \<Rightarrow> 'f hub \<times> 'f sensors_event list" where
  "on_mag E m s =
     (let mg = scaled3 E (CONVERT_M E) m
      in (s\<lparr>mFusionData := (mFusionData s)\<lparr>fd_mag := mg\<rparr>\<rparr>,
          if fs_enabled (mFusionSensors s MAG)
          then [hub_event ID_M SENSOR_TYPE_MAGNETIC_FIELD (cts mg) (vec_payload mg (Hub_Status (msg_status m)))]
          else []))"

text \<open>\<open>DT_GLANCE\<close> has no \<open>break\<close>: the case of \<open>DT_MAG\<close> follows. The glance events
  carry their handle without \<open>SENSORS_HANDLE_BASE\<close>, which is 0.\<close>

definition on_glance :: "('f, 'd) hub_env \<Rightarrow> hub_message \<Rightarrow> 'f hub \<Rightarrow> 'f hub \<times> 'f sensors_event list" where
  "on_glance E m s =
     (let A = flt E; g = f_of_int A (STM16TOH m 0); z = f_lit A 0 1;
          ev1 = (if isHandleEnabled s ID_MOTO_GLANCE_GESTURE
                 then [hub_event ID_MOTO_GLANCE_GESTURE SENSOR_TYPE_MOTO_GLANCE_GESTURE (msg_timestamp m) (Data [g, z, z])]
                 else []);
          ev2 = (if isHandleEnabled s ID_GLANCE_GESTURE
                 then [hub_event ID_GLANCE_GESTURE SENSOR_TYPE_GLANCE_GESTURE (msg_timestamp m) (Data [f_lit A 1 1, g, z])]
                 else []);
          (s', ev3) = on_mag E m s
      in (s', ev1 @ ev2 @ ev3))"

text \<open>The step counter of the hub restarts from 0 when the hub does; the offset keeps the count
  going.\<close>

definition raw_steps :: "hub_message \<Rightarrow> 32 word" where
  "raw_steps m = push_bit 24 (ucast (msg_data m 0)) OR push_bit 16 (ucast (msg_data m 1))
     OR push_bit 8 (ucast (msg_data m 2)) OR ucast (msg_data m 3)"

definition on_steps :: "hub_message \<Rightarrow> 'f hub \<Rightarrow> 'f hub \<times> 'f sensors_event list" where
  "on_steps m s =
     (let stepcount = raw_steps m;
          s1 = (if stepcount + step_offset s < last_stepcount s then s\<lparr>step_offset := last_stepcount s\<rparr> else s);
          s2 = s1\<lparr>last_stepcount := stepcount + step_offset s1\<rparr>
      in (s2, [hub_event ID_STEP_COUNTER SENSOR_TYPE_STEP_COUNTER (msg_timestamp m) (Step_Count (ucast (last_stepcount s2)))]))"

text \<open>The new calibration table is read from the hub and saved; a failed \<open>ioctl\<close> leaves both.\<close>

definition save_cal :: "('f, 'd) hub_env \<Rightarrow> path \<Rightarrow> nat \<Rightarrow> 8 word list \<Rightarrow> 'f hub \<Rightarrow> 'f hub" where
  "save_cal E file n bytes s =
     (if fopen_fails E file then s
      else s\<lparr>hub_files := (hub_files s)(file := Some (take (fwritten E file n) bytes))\<rparr>)"

definition on_gyro_cal :: "('f, 'd) hub_env \<Rightarrow> 'f hub \<Rightarrow> 'f hub" where
  "on_gyro_cal E s =
     (let bytes = reply_cal E (requests s); (ret, s1) = hub_send E GET_GYRO_CAL s
      in if ret < 0 then s1 else save_cal E GYRO_CAL_FILE (GYRO_CAL_SIZE E) bytes (s1\<lparr>mGyroCal := bytes\<rparr>))"

definition on_accel_cal :: "('f, 'd) hub_env \<Rightarrow> 'f hub \<Rightarrow> 'f hub" where
  "on_accel_cal E s =
     (let bytes = reply_cal E (requests s); (ret, s1) = hub_send E GET_ACCEL_CAL s
      in if ret < 0 then s1 else save_cal E ACCEL_CAL_FILE (ACCEL_CAL_SIZE E) bytes (s1\<lparr>mAccelCal := bytes\<rparr>))"

definition hub_message_step :: "('f, 'd) hub_env \<Rightarrow> hub_message \<Rightarrow> 'f hub \<Rightarrow> 'f hub \<times> 'f sensors_event list" where
  "hub_message_step E m s =
     (let A = flt E; ts = msg_timestamp m; b0 = msg_data m 0; num = f_of_int A;
          one = (\<lambda>h ty p. [hub_event h ty ts p])
      in case msg_type m of
        DT_FLUSH \<Rightarrow> (s, [\<lparr>version = META_DATA_VERSION, sensor = 0, etype = SENSOR_TYPE_META_DATA, timestamp = 0,
                        payload = Flush_Complete (STM32TOH m 0)\<rparr>])
      | DT_ACCEL \<Rightarrow> on_accel E m s
      | DT_GYRO \<Rightarrow> on_gyro E m s
      | DT_UNCALIB_GYRO \<Rightarrow> (s, one ID_UNCALIB_GYRO SENSOR_TYPE_GYROSCOPE_UNCALIBRATED (bias6 E (CONVERT_G E) m))
      | DT_ALS \<Rightarrow> (let lux = STM16TOH m 0 mod 65536
                   in (logAlsEvent (dbl E) lux ts s, one ID_L SENSOR_TYPE_LIGHT (Scalar (num lux))))
      | DT_DISP_ROTATE \<Rightarrow> (s, one ID_DR SENSOR_TYPE_DISPLAY_ROTATE
                             (Data [if b0 = DISP_FLAT then DISP_UNKNOWN A else num (uint b0)]))
      | DT_PROX \<Rightarrow> (s, one ID_P SENSOR_TYPE_PROXIMITY
                      (Scalar (if b0 = 0 then PROX_UNCOVERED A else if b0 = 1 then PROX_COVERED A else PROX_SATURATED A)))
      | DT_FLAT_UP \<Rightarrow> (s, one ID_FU SENSOR_TYPE_FLAT_UP (Data [if b0 = 1 then FLAT_DETECTED A else FLAT_NOTDETECTED A]))
      | DT_FLAT_DOWN \<Rightarrow> (s, one ID_FD SENSOR_TYPE_FLAT_DOWN (Data [if b0 = 2 then FLAT_DETECTED A else FLAT_NOTDETECTED A]))
      | DT_STOWED \<Rightarrow> (s, one ID_S SENSOR_TYPE_STOWED (Data [num (uint b0)]))
      | DT_CAMERA_ACT \<Rightarrow> (s, one ID_CA SENSOR_TYPE_CAMERA_ACTIVATE (Data [num (STML0XX_CAMERA_DATA E), num (STM16TOH m 0)]))
      | DT_GYRO_CAL \<Rightarrow> (on_gyro_cal E s, [])
      | DT_ACCEL_CAL \<Rightarrow> (on_accel_cal E s, [])
      | DT_RESET \<Rightarrow> (on_reset E m s, [])
      | DT_LIFT \<Rightarrow> (s, one ID_LF SENSOR_TYPE_LIFT_GESTURE (Data [num (STM32TOH m 0), num (STM32TOH m 4), num (STM32TOH m 8)]))
      | DT_CHOPCHOP \<Rightarrow> (s, one ID_CC SENSOR_TYPE_CHOPCHOP_GESTURE (Data [num (STM16TOH m 0)]))
      | DT_STEP_COUNTER \<Rightarrow> on_steps m s
      | DT_STEP_DETECTOR \<Rightarrow> (s, one ID_STEP_DETECTOR SENSOR_TYPE_STEP_DETECTOR (Data [num (uint b0)]))
      | DT_GLANCE \<Rightarrow> on_glance E m s
      | DT_MAG \<Rightarrow> on_mag E m s
      | DT_UNCALIB_MAG \<Rightarrow> (s, one ID_UM SENSOR_TYPE_MAGNETIC_FIELD_UNCALIBRATED (bias6 E (CONVERT_M E) m))
      | DT_ORIENT \<Rightarrow> (s, one ID_OR SENSOR_TYPE_ORIENTATION
                        (Vector (scaled E (CONVERT_O E) m 0) (scaled E (CONVERT_O E) m 2) (scaled E (CONVERT_O E) m 4)
                           (Hub_Status (msg_status m))))
      | DT_MOTION_DETECT \<Rightarrow> (snd (hub_setEnable E (handle_num ID_MOTION_DETECT) 0 s),
                              one ID_MOTION_DETECT SENSOR_TYPE_MOTION_DETECT (Data [f_lit A 1 1]))
      | DT_STATIONARY_DETECT \<Rightarrow> (snd (hub_setEnable E (handle_num ID_STATIONARY_DETECT) 0 s),
                                  one ID_STATIONARY_DETECT SENSOR_TYPE_STATIONARY_DETECT (Data [f_lit A 1 1]))
      | DT_OTHER \<Rightarrow> (s, []))"

section \<open>The read loop\<close>

text \<open>\<open>reads\<close> holds what the calls of \<open>read\<close> return up to the first 0; \<open>b\<close> is the
  local buffer, whose content is arbitrary at first. The events written so far are kept in the
  order of the caller's buffer.\<close>

fun hub_read_loop :: "('f, 'd) hub_env \<Rightarrow> int \<Rightarrow> hub_read list \<Rightarrow> hub_message \<times> 'f hub \<times> 'f sensors_event list \<Rightarrow>
    hub_read list \<times> hub_message \<times> 'f hub \<times> 'f sensors_event list" where
  "hub_read_loop E dLen [] st = ([], st)"
| "hub_read_loop E dLen (r # rs) (b, s, evs) =
     (if int (length evs) < dLen - 3
      then
        let b' = (case r of Read_Message m \<Rightarrow> m | Read_Failed \<Rightarrow> b);
            (s', new) = hub_message_step E b' s
        in hub_read_loop E dLen rs (b', s', evs @ new)
      else (r # rs, b, s, evs))"

text \<open>The reads that are left, the state, and the events; the code returns their number.\<close>

definition hub_readEvents :: "('f, 'd) hub_env \<Rightarrow> hub_message \<Rightarrow> int \<Rightarrow> hub_read list \<Rightarrow> 'f hub \<Rightarrow>
    hub_read list \<times> 'f hub \<times> 'f sensors_event list" where
  "hub_readEvents E b dLen reads s =
     (if dLen < 1 then (reads, s, [])
      else
        let (rs, b', s', evs) = hub_read_loop E dLen reads (b, s, [])
        in (rs, pending_report E (msg_type b') s', evs))"

section \<open>What a message leaves alone\<close>

lemma capture_dump_core [simp]: "core (capture_dump E ts c s) = core s" "rate_view (capture_dump E ts c s) = rate_view s"
  by (simp_all add: capture_dump_def core_def rate_view_def split: option.split)

lemma report_crash_core [simp]: "core (report_crash E t ty s) = core s" "rate_view (report_crash E t ty s) = rate_view s"
proof -
  let ?s = "case time_text E t of None \<Rightarrow> s | Some ts \<Rightarrow> capture_dump E ts (dt_code E ty) s"
  have "core ?s = core s" "rate_view ?s = rate_view s" by (simp_all split: option.split)
  then show "core (report_crash E t ty s) = core s" "rate_view (report_crash E t ty s) = rate_view s"
    by (simp_all add: report_crash_def core_def rate_view_def)
qed

lemma core_other [simp]:
  "core (s\<lparr>mErrorCnt := x\<rparr>) = core s" "core (s\<lparr>ticks := n\<rparr>) = core s" "core (s\<lparr>mPendingBug2go := p\<rparr>) = core s"
  "rate_view (s\<lparr>mErrorCnt := x\<rparr>) = rate_view s" "rate_view (s\<lparr>ticks := n\<rparr>) = rate_view s"
  "rate_view (s\<lparr>mPendingBug2go := p\<rparr>) = rate_view s"
  by (simp_all add: core_def rate_view_def)

lemma on_reset_core [simp]: "core (on_reset E m s) = core s" "rate_view (on_reset E m s) = rate_view s"
  by (simp_all add: on_reset_def clock_def Let_def)

lemma pending_report_core [simp]: "core (pending_report E ty s) = core s" "rate_view (pending_report E ty s) = rate_view s"
  by (simp_all add: pending_report_def clock_def Let_def)

lemma on_accel_core: "core (fst (on_accel E m s)) = core s \<and> rate_view (fst (on_accel E m s)) = rate_view s"
  by (simp add: on_accel_def core_def rate_view_def Let_def case_prod_beta)

lemma gravity_events_core:
  "core (fst (gravity_events E s)) = core s \<and> rate_view (fst (gravity_events E s)) = rate_view s"
  by (simp add: gravity_events_def core_def rate_view_def Let_def case_prod_beta)

lemma game_events_core:
  "core (fst (game_events E s)) = core s \<and> rate_view (fst (game_events E s)) = rate_view s"
proof -
  have "core (s\<lparr>mGameRV := g, mFusionData := fd\<rparr>) = core s \<and> rate_view (s\<lparr>mGameRV := g, mFusionData := fd\<rparr>) = rate_view s"
    for g fd by (simp add: core_def rate_view_def)
  then show ?thesis by (simp add: game_events_def Let_def case_prod_beta gravity_events_core)
qed

lemma rotation_events_core:
  "core (fst (rotation_events E s)) = core s \<and> rate_view (fst (rotation_events E s)) = rate_view s"
  by (simp add: rotation_events_def core_def rate_view_def Let_def case_prod_beta)

lemma on_gyro_core: "core (fst (on_gyro E m s)) = core s \<and> rate_view (fst (on_gyro E m s)) = rate_view s"
proof -
  have "core (s\<lparr>mFusionData := fd\<rparr>) = core s \<and> rate_view (s\<lparr>mFusionData := fd\<rparr>) = rate_view s" for fd
    by (simp add: core_def rate_view_def)
  then show ?thesis by (simp add: on_gyro_def Let_def case_prod_beta game_events_core rotation_events_core)
qed

lemma on_mag_core: "core (fst (on_mag E m s)) = core s \<and> rate_view (fst (on_mag E m s)) = rate_view s"
  by (simp add: on_mag_def core_def rate_view_def Let_def)

lemma on_glance_core: "core (fst (on_glance E m s)) = core s \<and> rate_view (fst (on_glance E m s)) = rate_view s"
  using on_mag_core [of E m s] by (simp add: on_glance_def Let_def case_prod_beta)

lemma on_steps_core: "core (fst (on_steps m s)) = core s \<and> rate_view (fst (on_steps m s)) = rate_view s"
  by (simp add: on_steps_def core_def rate_view_def Let_def)

lemma logAlsEvent_core: "core (logAlsEvent D l t s) = core s \<and> rate_view (logAlsEvent D l t s) = rate_view s"
  by (simp add: logAlsEvent_def core_def rate_view_def Let_def)

lemma save_cal_core: "core (save_cal E f n b s) = core s \<and> rate_view (save_cal E f n b s) = rate_view s"
  by (simp add: save_cal_def core_def rate_view_def)

lemma rate_sync_cal:
  assumes "rate_sync s" and "acc_rate rq = None" "gyro_rate rq = None" "mag_rate rq = None"
  shows "rate_sync (snd (hub_send E rq s))" "rate_sync (snd (hub_send E rq s)\<lparr>mGyroCal := b\<rparr>)"
    "rate_sync (snd (hub_send E rq s)\<lparr>mAccelCal := b\<rparr>)"
  using assms by (simp_all add: rate_sync_def hub_send_def)

lemma on_cal_core:
  "core (on_gyro_cal E s) = core s" "core (on_accel_cal E s) = core s"
  by (simp_all add: on_gyro_cal_def on_accel_cal_def hub_send_def Let_def save_cal_core) (simp_all add: core_def)

lemma on_cal_sync:
  assumes "rate_sync s"
  shows "rate_sync (on_gyro_cal E s)" "rate_sync (on_accel_cal E s)"
  by (simp_all add: on_gyro_cal_def on_accel_cal_def Let_def case_prod_beta rate_sync_cal [OF assms]
      rate_sync_view [OF conjunct2 [OF save_cal_core]])

definition one_shot :: "hub_dt \<Rightarrow> sensor_handle option" where
  "one_shot ty = (case ty of DT_MOTION_DETECT \<Rightarrow> Some ID_MOTION_DETECT
     | DT_STATIONARY_DETECT \<Rightarrow> Some ID_STATIONARY_DETECT | _ \<Rightarrow> None)"

lemma message_core:
  "one_shot (msg_type m) = None \<Longrightarrow> core (fst (hub_message_step E m s)) = core s"
  by (cases "msg_type m")
    (simp_all add: hub_message_step_def Let_def one_shot_def on_accel_core on_gyro_core on_mag_core on_glance_core
      on_steps_core logAlsEvent_core on_cal_core)

lemma message_one_shot:
  "one_shot (msg_type m) = Some h \<Longrightarrow> fst (hub_message_step E m s) = snd (hub_setEnable E (handle_num h) 0 s)"
  by (cases "msg_type m") (simp_all add: hub_message_step_def Let_def one_shot_def)

lemma message_sync:
  assumes "rate_sync s"
  shows "rate_sync (fst (hub_message_step E m s))"
proof (cases "one_shot (msg_type m)")
  case None
  consider "msg_type m = DT_GYRO_CAL" | "msg_type m = DT_ACCEL_CAL"
    | "rate_view (fst (hub_message_step E m s)) = rate_view s"
    using None by (cases "msg_type m")
      (simp_all add: hub_message_step_def Let_def one_shot_def on_accel_core on_gyro_core on_mag_core on_glance_core
        on_steps_core logAlsEvent_core)
  then show ?thesis
  proof cases
    case 3
    from rate_sync_view [OF this] assms show ?thesis by simp
  qed (use assms in \<open>simp_all add: hub_message_step_def Let_def on_cal_sync\<close>)
next
  case (Some h)
  then show ?thesis using assms by (simp add: message_one_shot rate_sync_setEnable)
qed

definition shots :: "hub_dt \<Rightarrow> sensor_handle set" where
  "shots ty = (case one_shot ty of None \<Rightarrow> {} | Some h \<Rightarrow> {h})"

lemma message_inv:
  assumes "disjoint_masks (hub_masks E)" and "hub_inv E s"
  shows "hub_inv E (fst (hub_message_step E m s))
    \<and> on_handles (fst (hub_message_step E m s)) = on_handles s - shots (msg_type m)"
proof (cases "one_shot (msg_type m)")
  case None
  have "core (fst (hub_message_step E m s)) = core s" using None by (rule message_core)
  from hub_inv_core [OF this, of E] on_handles_core [OF this] None assms(2) show ?thesis by (simp add: shots_def)
next
  case (Some h)
  then show ?thesis using setEnable_inv [OF assms, of h 0] by (simp add: message_one_shot toggle_def shots_def)
qed

section \<open>How many events a message makes\<close>

text \<open>The sensors fed by a gyroscope sample.\<close>

definition gyro_consumers :: "fusion_enum list" where
  "gyro_consumers = [GYRO, GAME_RV, LINEAR_ACCEL, GRAVITY, ROTATION_VECT]"

definition enabled_count :: "'f hub \<Rightarrow> nat" where
  "enabled_count s = length (filter (\<lambda>i. fs_enabled (mFusionSensors s i)) gyro_consumers)"

lemma fusion_on_core: "core s = core t \<Longrightarrow> mFusionSensors s = mFusionSensors t"
  by (simp add: core_def)

lemma game_events_table [simp]: "mFusionSensors (fst (game_events E s)) = mFusionSensors s"
  using fusion_on_core [OF conjunct1 [OF game_events_core [of E s]]] .

lemma on_gyro_count: "length (snd (on_gyro E m s)) = enabled_count s"
proof -
  have la: "length (snd (gravity_events E t)) =
      (if fs_enabled (mFusionSensors t LINEAR_ACCEL) then 1 else 0) + (if fs_enabled (mFusionSensors t GRAVITY) then 1 else 0)" for t :: "'a hub"
    by (simp add: gravity_events_def Let_def case_prod_beta)
  have ga: "length (snd (game_events E t)) = (if fs_enabled (mFusionSensors t GAME_RV) then 1 else 0)
      + (if fs_enabled (mFusionSensors t LINEAR_ACCEL) then 1 else 0) + (if fs_enabled (mFusionSensors t GRAVITY) then 1 else 0)" for t :: "'a hub"
    by (simp add: game_events_def Let_def case_prod_beta la)
  have rv: "length (snd (rotation_events E t)) = (if fs_enabled (mFusionSensors t ROTATION_VECT) then 1 else 0)" for t :: "'a hub"
    by (simp add: rotation_events_def Let_def case_prod_beta)
  show ?thesis
    by (simp add: on_gyro_def Let_def case_prod_beta ga rv enabled_count_def gyro_consumers_def)
qed

lemma message_count:
  "length (snd (hub_message_step E m s)) \<le> (if msg_type m = DT_GYRO then enabled_count s else 3)"
proof -
  have "length (snd (on_accel E m s)) \<le> 2" by (simp add: on_accel_def Let_def case_prod_beta)
  moreover have "length (snd (on_mag E m s)) \<le> 1" by (simp add: on_mag_def Let_def)
  moreover from this have "length (snd (on_glance E m s)) \<le> 3" by (simp add: on_glance_def Let_def case_prod_beta)
  moreover have "length (snd (on_steps m s)) = 1" by (simp add: on_steps_def Let_def)
  ultimately show ?thesis
    by (cases "msg_type m") (simp_all add: hub_message_step_def Let_def on_gyro_count)
qed

lemma enabled_count_le: "enabled_count s \<le> 5"
  using length_filter_le [of "\<lambda>i. fs_enabled (mFusionSensors s i)" gyro_consumers]
  by (simp add: enabled_count_def gyro_consumers_def)

lemma message_table:
  assumes "one_shot (msg_type m) = Some h"
  shows "mFusionSensors (snd (hub_setEnable E (handle_num h) en s)) = mFusionSensors s"
proof -
  have "enable_nonwake E (Some h) (en \<noteq> 0) s = (0, s)"
    using assms by (cases "msg_type m") (auto simp: one_shot_def enable_nonwake_def)
  then show ?thesis
    by (auto simp: hub_setEnable_def enable_wake_def hub_send_def Let_def split: option.split if_splits prod.split)
qed

lemma message_fusion [simp]: "mFusionSensors (fst (hub_message_step E m s)) = mFusionSensors s"
  by (cases "one_shot (msg_type m)")
    (simp_all add: fusion_on_core [OF message_core] message_one_shot message_table)

lemma message_enabled_count [simp]: "enabled_count (fst (hub_message_step E m s)) = enabled_count s"
  by (simp add: enabled_count_def)

text \<open>The loop as a whole.\<close>

lemma hub_read_loop_bound:
  assumes "hub_read_loop E dLen reads (b, s, evs) = (rs, b', s', evs')"
    and "int (length evs) \<le> max 0 (dLen - 4 + int (max 3 (enabled_count s)))"
  shows "int (length evs') \<le> max 0 (dLen - 4 + int (max 3 (enabled_count s)))"
  using assms
proof (induction reads arbitrary: b s evs)
  case (Cons r rs0)
  show ?case
  proof (cases "int (length evs) < dLen - 3")
    case True
    let ?b = "case r of Read_Message m \<Rightarrow> m | Read_Failed \<Rightarrow> b"
    obtain s1 new where st: "hub_message_step E ?b s = (s1, new)" by fastforce
    have n: "length new \<le> max 3 (enabled_count s)"
      using message_count [of E ?b s] by (simp add: st split: if_splits)
    have c: "enabled_count s1 = enabled_count s" using message_enabled_count [of E ?b s] by (simp add: st)
    have "int (length (evs @ new)) \<le> max 0 (dLen - 4 + int (max 3 (enabled_count s1)))"
      using True n unfolding c length_append by linarith
    with Cons.IH [of ?b s1 "evs @ new"] Cons.prems(1) True st show ?thesis by (simp add: c)
  next
    case False
    with Cons.prems show ?thesis by simp
  qed
qed simp

lemma hub_read_loop_preserves:
  assumes "hub_read_loop E dLen reads (b, s, evs) = (rs, b', s', evs')"
    and step: "\<And>m t. P t \<Longrightarrow> P (fst (hub_message_step E m t))" and "P s"
  shows "P s'"
  using assms(1,3)
proof (induction reads arbitrary: b s evs)
  case (Cons r rs0)
  show ?case
  proof (cases "int (length evs) < dLen - 3")
    case True
    let ?b = "case r of Read_Message m \<Rightarrow> m | Read_Failed \<Rightarrow> b"
    obtain s1 new where st: "hub_message_step E ?b s = (s1, new)" by fastforce
    have "P s1" using step [OF Cons.prems(2), of ?b] st by simp
    with Cons.IH [of ?b s1 "evs @ new"] Cons.prems(1) True st show ?thesis by simp
  next
    case False
    with Cons.prems show ?thesis by simp
  qed
qed simp

lemma hub_read_loop_events:
  assumes "hub_read_loop E dLen reads (b, s, evs) = (rs, b', s', evs')"
    and step: "\<And>m t. P t \<Longrightarrow> P (fst (hub_message_step E m t)) \<and> (\<forall>e \<in> set (snd (hub_message_step E m t)). Q e)"
    and "P s" and "\<forall>e \<in> set evs. Q e"
  shows "\<forall>e \<in> set evs'. Q e"
  using assms(1,3,4)
proof (induction reads arbitrary: b s evs)
  case (Cons r rs0)
  show ?case
  proof (cases "int (length evs) < dLen - 3")
    case True
    let ?b = "case r of Read_Message m \<Rightarrow> m | Read_Failed \<Rightarrow> b"
    obtain s1 new where st: "hub_message_step E ?b s = (s1, new)" by fastforce
    have "P s1" "\<forall>e \<in> set (evs @ new). Q e" using step [OF Cons.prems(2), of ?b] Cons.prems(3) st by auto
    with Cons.IH [of ?b s1 "evs @ new"] Cons.prems(1) True st show ?thesis by simp
  next
    case False
    with Cons.prems show ?thesis by simp
  qed
qed simp

lemma hub_readEvents_bound:
  "1 \<le> dLen \<Longrightarrow> int (length (snd (snd (hub_readEvents E b dLen reads s)))) \<le> max 0 (dLen - 4 + int (max 3 (enabled_count s)))"
  using hub_read_loop_bound [of E dLen reads b s "[]"]
  by (cases "hub_read_loop E dLen reads (b, s, [])") (simp add: hub_readEvents_def)

lemma hub_readEvents_preserves:
  assumes "\<And>m t. P t \<Longrightarrow> P (fst (hub_message_step E m t))" and "\<And>ty t. P t \<Longrightarrow> P (pending_report E ty t)" and "P s"
  shows "P (fst (snd (hub_readEvents E b dLen reads s)))"
proof -
  obtain rs b' s' evs where l: "hub_read_loop E dLen reads (b, s, []) = (rs, b', s', evs)" by (metis prod_cases4)
  have "P s'" using hub_read_loop_preserves [OF l assms(1) assms(3)] by blast
  then show ?thesis using assms(2,3) by (simp add: hub_readEvents_def l)
qed

end
