(* ===== verification/Hub_Stream.thy ===== *)
theory Hub_Stream
  imports Hub_Control Hub_Events
begin

text \<open>
  What \<open>HubSensors::readEvents\<close> promises: how much it writes, which sensors it reports, that
  it keeps the invariants of the driver, the continuity of the step counter, the calibration
  tables and the crash reports.
\<close>

section \<open>The caller's buffer\<close>

text \<open>C8: with room for at least four events and not all five consumers of the gyroscope
  enabled, the events read fit the caller's buffer.\<close>

theorem readEvents_fits:
  assumes "4 \<le> dLen" and "enabled_count s < 5"
  shows "int (length (snd (snd (hub_readEvents E b dLen reads s)))) \<le> dLen"
  using hub_readEvents_bound [of dLen E b reads s] assms by simp

text \<open>C10: with all five consumers of the gyroscope enabled, one gyroscope sample read into a
  buffer of four writes five events: the guard of the loop keeps four slots free, one too few.\<close>

theorem readEvents_overruns:
  assumes "enabled_count s = 5" and "msg_type m = DT_GYRO"
  shows "length (snd (snd (hub_readEvents E b 4 [Read_Message m] s))) = 5"
  using assms by (simp add: hub_readEvents_def hub_message_step_def Let_def case_prod_beta on_gyro_count)

text \<open>C13: a buffer of fewer than four events is never filled: nothing is read and no event is
  reported.\<close>

theorem readEvents_short_buffer:
  assumes "dLen < 4"
  shows "fst (hub_readEvents E b dLen reads s) = reads \<and> snd (snd (hub_readEvents E b dLen reads s)) = []"
  using assms by (cases reads) (auto simp: hub_readEvents_def case_prod_beta)

definition five_on :: "real hub" where
  "five_on = run_enables plain_env [(ID_G, 1), (ID_GAME_RV, 1), (ID_LA, 1), (ID_GRAVITY, 1), (ID_RV, 1)] plain_hub"

definition gyro_sample :: hub_message where
  "gyro_sample = \<lparr>msg_type = DT_GYRO, msg_data = (\<lambda>_. 1), msg_status = 0, msg_timestamp = 5\<rparr>"

lemma five_on_inv: "hub_inv plain_env five_on" "on_handles five_on = {ID_G, ID_GAME_RV, ID_LA, ID_GRAVITY, ID_RV}"
  using run_enables_inv [OF plain_masks plain_hub_inv(1) plain_hub_sync,
      of "[(ID_G, 1), (ID_GAME_RV, 1), (ID_LA, 1), (ID_GRAVITY, 1), (ID_RV, 1)]"] plain_hub_inv(2)
  by (auto simp: five_on_def run_toggles_def toggle_def)

lemma five_on_count: "enabled_count five_on = 5"
  using five_on_inv by (simp add: enabled_count_def gyro_consumers_def hub_inv_def fus_inv_def)

theorem readEvents_overruns_witness:
  "length (snd (snd (hub_readEvents plain_env gyro_sample 4 [Read_Message gyro_sample] five_on))) = 5"
  by (rule readEvents_overruns) (simp_all add: five_on_count gyro_sample_def)

theorem readEvents_fits_witness:
  "int (length (snd (snd (hub_readEvents plain_env gyro_sample 4
     [Read_Message gyro_sample] plain_hub)))) \<le> 4"
  using plain_hub_core by (intro readEvents_fits)
    (simp_all add: enabled_count_def gyro_consumers_def core_def fusion_table_init_def)

theorem readEvents_short_buffer_witness:
  "snd (snd (hub_readEvents plain_env gyro_sample 3 [Read_Message gyro_sample] five_on)) = []"
  using readEvents_short_buffer [of 3 plain_env gyro_sample "[Read_Message gyro_sample]" five_on] by simp

section \<open>Which sensors report\<close>

text \<open>The sensors whose events the driver itself switches: all but those the hub decides.\<close>

definition gated :: "sensor_handle set" where
  "gated = {ID_A, ID_G, ID_GAME_RV, ID_LA, ID_GRAVITY, ID_M, ID_GEOMAG_RV, ID_RV, ID_GLANCE_GESTURE, ID_MOTO_GLANCE_GESTURE}"

definition from_enabled :: "sensor_handle set \<Rightarrow> 'f sensors_event \<Rightarrow> bool" where
  "from_enabled H e \<longleftrightarrow> (\<forall>h \<in> gated. sensor e = handle_num h \<longrightarrow> h \<in> H)"

lemma handle_num_inject [simp]: "handle_num a = handle_num b \<longleftrightarrow> a = b"
  using handle_nat_inject by (auto simp: handle_num_def)

lemma from_enabled_event [simp]: "from_enabled H (hub_event h ty ts p) \<longleftrightarrow> (h \<in> gated \<longrightarrow> h \<in> H)"
  by (auto simp: from_enabled_def hub_event_def SENSORS_HANDLE_BASE_def)

lemma fus_enabled_on: "hub_inv E s \<Longrightarrow> fs_enabled (mFusionSensors s i) \<longleftrightarrow> fusion_handle i \<in> on_handles s"
  by (simp add: hub_inv_def fus_inv_def)



subsection \<open>One-shot sensors\<close>

definition one_shots :: "sensor_handle set" where
  "one_shots = {ID_MOTION_DETECT, ID_STATIONARY_DETECT}"



definition no_shot :: "'f sensors_event \<Rightarrow> bool" where
  "no_shot e \<longleftrightarrow> (\<forall>h\<in>one_shots. sensor e \<noteq> handle_num h)"

lemma no_shot_event [simp]: "no_shot (hub_event h ty ts p) \<longleftrightarrow> h \<notin> one_shots"
  by (auto simp: no_shot_def hub_event_def SENSORS_HANDLE_BASE_def)









section \<open>The step counter\<close>

fun step_reports :: "hub_message list \<Rightarrow> 'f hub \<Rightarrow> nat list" where
  "step_reports [] s = []"
| "step_reports (m # ms) s =
     (let (s', evs) = on_steps m s
      in map (\<lambda>e. case payload e of Step_Count c \<Rightarrow> unat c | _ \<Rightarrow> 0) evs @ step_reports ms s')"

lemma unat_count [simp]: "unat (ucast (x :: 32 word) :: 64 word) = unat x"
proof -
  have "unat x < 2 ^ 64" using unsigned_less [of x, where 'a = nat] by simp
  then show ?thesis by (simp add: unsigned_ucast_eq take_bit_nat_eq_self)
qed

lemma on_steps_count:
  assumes "step_offset s \<le> last_stepcount s" and "unat (last_stepcount s) + unat (raw_steps m) < 2 ^ 32"
  shows "unat (last_stepcount (fst (on_steps m s))) =
      (if unat (raw_steps m) + unat (step_offset s) < unat (last_stepcount s)
       then unat (raw_steps m) + unat (last_stepcount s) else unat (raw_steps m) + unat (step_offset s))"
    and "step_offset (fst (on_steps m s)) \<le> last_stepcount (fst (on_steps m s))"
proof -
  have o: "unat (step_offset s) \<le> unat (last_stepcount s)" using assms(1) by (simp add: word_le_nat_alt)
  have a: "unat (raw_steps m + step_offset s) = unat (raw_steps m) + unat (step_offset s)"
    using assms(2) o by (intro unat_add_lem [THEN iffD1]) simp
  have b: "unat (raw_steps m + last_stepcount s) = unat (raw_steps m) + unat (last_stepcount s)"
    using assms(2) by (intro unat_add_lem [THEN iffD1]) simp
  show "unat (last_stepcount (fst (on_steps m s))) =
      (if unat (raw_steps m) + unat (step_offset s) < unat (last_stepcount s)
       then unat (raw_steps m) + unat (last_stepcount s) else unat (raw_steps m) + unat (step_offset s))"
    by (simp add: on_steps_def Let_def word_less_nat_alt a b)
  show "step_offset (fst (on_steps m s)) \<le> last_stepcount (fst (on_steps m s))"
    by (simp add: on_steps_def Let_def word_le_nat_alt a b)
qed

text \<open>As long as the 32-bit counter cannot overflow, the step counts reported never fall, also
  across restarts of the hub, which sets its own count back to zero.\<close>

theorem step_counts_never_fall:
  assumes "step_offset s \<le> last_stepcount s"
    and "unat (last_stepcount s) + sum_list (map (\<lambda>m. unat (raw_steps m)) ms) < 2 ^ 32"
  shows "sorted (unat (last_stepcount s) # step_reports ms s)"
  using assms
proof (induction ms arbitrary: s)
  case (Cons m ms)
  let ?t = "fst (on_steps m s)"
  have b: "unat (last_stepcount s) + unat (raw_steps m) < 2 ^ 32" using Cons.prems(2) by simp
  note c = on_steps_count [OF Cons.prems(1) b]
  have "unat (step_offset s) \<le> unat (last_stepcount s)" using Cons.prems(1) by (simp add: word_le_nat_alt)
  then have up: "unat (last_stepcount s) \<le> unat (last_stepcount ?t)"
    and "unat (last_stepcount ?t) \<le> unat (last_stepcount s) + unat (raw_steps m)"
    unfolding c(1) by auto
  with Cons.prems(2) have "sorted (unat (last_stepcount ?t) # step_reports ms ?t)"
    by (intro Cons.IH c(2)) simp
  moreover have "step_reports (m # ms) s = unat (last_stepcount ?t) # step_reports ms ?t"
    by (simp add: on_steps_def Let_def hub_event_def)
  ultimately show ?case using up by (auto simp: le_trans)
qed simp

definition steps_message :: "8 word \<Rightarrow> hub_message" where
  "steps_message n = \<lparr>msg_type = DT_STEP_COUNTER, msg_data = (\<lambda>i. if i = 3 then n else 0), msg_status = 0, msg_timestamp = 0\<rparr>"

theorem step_counts_never_fall_witness:
  "step_reports [steps_message 7, steps_message 9, steps_message 2] plain_hub = [7, 9, 11]
   \<and> sorted (0 # step_reports [steps_message 7, steps_message 9, steps_message 2] plain_hub)"
proof -
  have z: "last_stepcount plain_hub = 0" "step_offset plain_hub = 0"
    by (simp_all add: plain_hub_def new_HubSensors_def load_cal_def zero_hub_def hub_send_def Let_def)
  have r: "raw_steps (steps_message n) = ucast n" for n by (simp add: raw_steps_def steps_message_def)
  have "sorted (unat (last_stepcount plain_hub) # step_reports [steps_message 7, steps_message 9, steps_message 2] plain_hub)"
    by (rule step_counts_never_fall) (simp_all add: z r)
  moreover have "step_reports [steps_message 7, steps_message 9, steps_message 2] plain_hub = [7, 9, 11]"
    by (simp add: on_steps_def Let_def hub_event_def z r)
  ultimately show ?thesis by (simp add: z)
qed

section \<open>Glance gestures\<close>

text \<open>A glance message falls through into the case of the magnetometer: it overwrites
  the magnetic field used by the fusion with the bytes of the gesture and, when the magnetometer is
  enabled, reports them as a magnetic field.\<close>

theorem glance_overwrites_compass:
  assumes "msg_type m = DT_GLANCE" and "fs_enabled (mFusionSensors s MAG)"
  shows "fd_mag (mFusionData (fst (hub_message_step E m s))) = scaled3 E (CONVERT_M E) m
    \<and> hub_event ID_M SENSOR_TYPE_MAGNETIC_FIELD (msg_timestamp m)
        (vec_payload (scaled3 E (CONVERT_M E) m) (Hub_Status (msg_status m))) \<in> set (snd (hub_message_step E m s))"
  using assms by (simp add: hub_message_step_def on_glance_def on_mag_def Let_def scaled3_def)

theorem glance_overwrites_compass_witness:
  "fd_mag (mFusionData (fst (hub_message_step plain_env (gyro_sample\<lparr>msg_type := DT_GLANCE\<rparr>)
      (run_enables plain_env [(ID_M, 1)] plain_hub)))) = scaled3 plain_env (CONVERT_M plain_env) (gyro_sample\<lparr>msg_type := DT_GLANCE\<rparr>)"
proof -
  note r = run_enables_inv [OF plain_masks plain_hub_inv(1) plain_hub_sync, of "[(ID_M, 1)]"]
  have "fs_enabled (mFusionSensors (run_enables plain_env [(ID_M, 1)] plain_hub) MAG)"
    using fus_enabled_on [OF conjunct1 [OF r], of MAG] r by (simp add: run_toggles_def toggle_def)
  then show ?thesis
    by (intro conjunct1 [OF glance_overwrites_compass]) simp_all
qed

section \<open>Calibration\<close>

text \<open>A gyroscope calibration the hub reports is saved, and the next start of the driver
  loads the same table and sends it back to the hub before anything else.\<close>

theorem gyro_calibration_survives_restart:
  assumes "msg_type m = DT_GYRO_CAL" and "0 \<le> hub_ioctl E (requests s) GET_GYRO_CAL"
    and "length (reply_cal E (requests s)) = GYRO_CAL_SIZE E"
    and "\<not> fopen_fails E GYRO_CAL_FILE" and "GYRO_CAL_SIZE E \<le> fwritten E GYRO_CAL_FILE (GYRO_CAL_SIZE E)"
  shows "mGyroCal (new_HubSensors E (hub_files (fst (hub_message_step E m s)))) = reply_cal E (requests s)
    \<and> hd (requests (new_HubSensors E (hub_files (fst (hub_message_step E m s))))) = SET_GYRO_CAL (reply_cal E (requests s))"
proof -
  let ?c = "reply_cal E (requests s)"
  let ?f = "hub_files (fst (hub_message_step E m s))"
  have f: "?f GYRO_CAL_FILE = Some ?c"
    using assms by (simp add: hub_message_step_def Let_def on_gyro_cal_def hub_send_def save_cal_def)
  have g: "load_cal E GYRO_CAL_FILE (GYRO_CAL_SIZE E) SET_GYRO_CAL (zero_hub E ?f)
      = (?c, snd (hub_send E (SET_GYRO_CAL ?c) (zero_hub E ?f)))"
    using f assms(3) by (simp add: load_cal_def zero_hub_def Let_def)
  let ?s1 = "snd (hub_send E (SET_GYRO_CAL ?c) (zero_hub E ?f))\<lparr>mGyroCal := ?c\<rparr>"
  obtain acal s2 where a: "load_cal E ACCEL_CAL_FILE (ACCEL_CAL_SIZE E) SET_ACCEL_CAL ?s1 = (acal, s2)" by fastforce
  then have "mGyroCal s2 = ?c" "hd (requests s2) = SET_GYRO_CAL ?c" "requests s2 \<noteq> []"
    by (auto simp: load_cal_def hub_send_def zero_hub_def Let_def split: option.splits if_splits)
  then show ?thesis
    unfolding new_HubSensors_def Let_def g prod.case a by (simp add: hub_send_def)
qed

theorem gyro_calibration_survives_restart_witness:
  "mGyroCal (new_HubSensors plain_env (hub_files (fst (hub_message_step plain_env (gyro_sample\<lparr>msg_type := DT_GYRO_CAL\<rparr>) plain_hub)))) = [1, 2]"
  using gyro_calibration_survives_restart [of "gyro_sample\<lparr>msg_type := DT_GYRO_CAL\<rparr>" plain_env plain_hub]
  by (simp add: plain_env_def)

section \<open>Crash reports\<close>

text \<open>A reset of the hub within a day of the last report is counted and makes no report;
  the report, with the counts of all resets since the last one, is made at the first read after
  that day and then the counts start again from zero.\<close>

theorem reset_reported_after_a_day:
  assumes "msg_type m = DT_RESET" and "sent_bug2go_sec s \<noteq> 0"
    and "time_now E (ticks s) - sent_bug2go_sec s \<le> DAY"
    and "time_now E (Suc (ticks s)) - sent_bug2go_sec s > DAY"
    and "time_text E (time_now E (Suc (ticks s))) = Some ts" and "open_dropbox_file E ts DROPBOX_FLAGS = Some p"
  shows "dumps (fst (hub_message_step E m s)) = dumps s
    \<and> map fst (dumps (pending_report E ty (fst (hub_message_step E m s)))) = map fst (dumps s) @ [p]
    \<and> mErrorCnt (pending_report E ty (fst (hub_message_step E m s))) = replicate (RESET_REASON_MAX_CODE E + 1) 0
    \<and> sent_bug2go_sec (pending_report E ty (fst (hub_message_step E m s))) = time_now E (Suc (ticks s))
    \<and> mPendingBug2go (pending_report E ty (fst (hub_message_step E m s))) = 0"
proof -
  let ?t = "fst (hub_message_step E m s)"
  have t: "dumps ?t = dumps s" "mPendingBug2go ?t = 1" "sent_bug2go_sec ?t = sent_bug2go_sec s" "ticks ?t = Suc (ticks s)"
    using assms(1-3) by (simp_all add: hub_message_step_def Let_def on_reset_def clock_def)
  show ?thesis
    using assms(4-6) by (simp add: pending_report_def clock_def t report_crash_def capture_dump_def)
qed

definition day_env :: "(real, real) hub_env" where
  "day_env = plain_env\<lparr>time_now := (\<lambda>n. if n = 0 then 100 else 100000), time_text := (\<lambda>_. Some ''now'')\<rparr>"

theorem reset_reported_after_a_day_witness:
  "map fst (dumps (pending_report day_env DT_RESET (fst (hub_message_step day_env
      (gyro_sample\<lparr>msg_type := DT_RESET\<rparr>) (plain_hub\<lparr>sent_bug2go_sec := 50\<rparr>)))))
   = [''/data/system/dropbox-add/SENSOR_HUB:6:1-now'']"
proof -
  have p: "open_dropbox_file day_env ''now'' DROPBOX_FLAGS = Some ''/data/system/dropbox-add/SENSOR_HUB:6:1-now''"
    by (simp add: open_dropbox_file_def day_env_def plain_env_def DROPBOX_DIR_def DROPBOX_TAG_def DROPBOX_FLAGS_def
        Let_def) code_simp
  have z: "ticks plain_hub = 0" "dumps plain_hub = []"
    by (simp_all add: plain_hub_def new_HubSensors_def load_cal_def zero_hub_def hub_send_def Let_def)
  show ?thesis
    using reset_reported_after_a_day [of "gyro_sample\<lparr>msg_type := DT_RESET\<rparr>" "plain_hub\<lparr>sent_bug2go_sec := 50\<rparr>" day_env
        "''now''" "''/data/system/dropbox-add/SENSOR_HUB:6:1-now''" DT_RESET] p z
    by (simp add: day_env_def DAY_def)
qed

end
