(* ===== verification/Input_Reader.thy ===== *)
theory Input_Reader
  imports Prelude
begin

text \<open>
  The circular reader of input events (\<open>InputEventReader.cpp\<close>), shared by the drivers
  that read a Linux input device. The buffer has room for twice the number of events the reader
  holds: one \<open>read\<close> may run past \<open>mBufferEnd\<close> into the second half, and what
  ran past is copied wrapped to the start. Pointers are indices into the buffer. The reader is
  shown to be a first-in first-out queue, stated as a locale that its clients use.
\<close>

section \<open>The reader\<close>

record 'e reader =
  mBuffer :: "'e list"
  mBufferEnd :: nat
  mHead :: nat
  mCurr :: nat
  mFreeSpace :: nat

text \<open>What \<open>read\<close> gave: an \<open>errno\<close>, or whole events and the number of bytes of
  an incomplete event after them.\<close>

datatype 'e read_result = Read_Error int | Read_Events "'e list" nat

text \<open>\<open>junk\<close> is the content of the freshly allocated buffer, of length
  \<open>2 * numEvents\<close>.\<close>

definition new_reader :: "nat \<Rightarrow> 'e list \<Rightarrow> 'e reader" where
  "new_reader numEvents junk =
     \<lparr>mBuffer = junk, mBufferEnd = numEvents, mHead = 0, mCurr = 0, mFreeSpace = numEvents\<rparr>"

text \<open>\<open>read\<close> and \<open>memcpy\<close> overwrite consecutive cells.\<close>

definition write_at :: "nat \<Rightarrow> 'e list \<Rightarrow> 'e list \<Rightarrow> 'e list" where
  "write_at h es buf = take h buf @ es @ drop (h + length es) buf"

text \<open>\<open>dev\<close> is the answer of \<open>read\<close> to a request for that many events.\<close>

definition fill :: "(nat \<Rightarrow> 'e read_result) \<Rightarrow> 'e reader \<Rightarrow> int \<times> 'e reader" where
  "fill dev r =
     (if mFreeSpace r \<noteq> 0 then
        case dev (mFreeSpace r) of
          Read_Error e \<Rightarrow> (- e, r)
        | Read_Events es partial \<Rightarrow>
            let r0 = r\<lparr>mBuffer := write_at (mHead r) es (mBuffer r)\<rparr> in
            if partial \<noteq> 0 then (- EINVAL, r0)
            else
              let n = length es in
              if n \<noteq> 0 then
                let r1 = r0\<lparr>mHead := mHead r0 + n, mFreeSpace := mFreeSpace r0 - n\<rparr> in
                if mHead r1 > mBufferEnd r1
                then let s = mHead r1 - mBufferEnd r1;
                         wrapped = take s (drop (mBufferEnd r1) (mBuffer r1))
                     in (int n, r1\<lparr>mBuffer := write_at 0 wrapped (mBuffer r1), mHead := s\<rparr>)
                else (int n, r1)
              else (0, r0)
      else (0, r))"

text \<open>The event at \<open>mCurr\<close> and whether one is available.\<close>

definition readEvent :: "'e reader \<Rightarrow> 'e \<times> bool" where
  "readEvent r =
     (let available = int (mBufferEnd r) - int (mFreeSpace r)
      in (mBuffer r ! mCurr r, available \<noteq> 0))"

definition next_event :: "'e reader \<Rightarrow> 'e reader" where
  "next_event r =
     (let r1 = r\<lparr>mCurr := mCurr r + 1, mFreeSpace := mFreeSpace r + 1\<rparr>
      in if mCurr r1 \<ge> mBufferEnd r1 then r1\<lparr>mCurr := 0\<rparr> else r1)"

definition peek_event :: "'e reader \<Rightarrow> 'e option" where
  "peek_event r = (case readEvent r of (e, avail) \<Rightarrow> if avail then Some e else None)"

section \<open>The queue interface\<close>

text \<open>
  \<open>events\<close> reads a reader as the list of events not yet consumed, oldest first;
  \<open>cap\<close> is how many it can hold.
\<close>

locale event_queue =
  fixes inv :: "'r \<Rightarrow> bool"
    and events :: "'r \<Rightarrow> 'e list"
    and cap :: "'r \<Rightarrow> nat"
    and peek :: "'r \<Rightarrow> 'e option"
    and nxt :: "'r \<Rightarrow> 'r"
    and fil :: "(nat \<Rightarrow> 'e read_result) \<Rightarrow> 'r \<Rightarrow> int \<times> 'r"
  assumes peek_hd: "inv r \<Longrightarrow> peek r = (case events r of [] \<Rightarrow> None | e # _ \<Rightarrow> Some e)"
    and nxt_tl: "inv r \<Longrightarrow> events r \<noteq> [] \<Longrightarrow> inv (nxt r) \<and> events (nxt r) = tl (events r) \<and> cap (nxt r) = cap r"
    and fil_enq: "inv r \<Longrightarrow> length (events r) < cap r \<Longrightarrow>
      dev (cap r - length (events r)) = Read_Events es 0 \<Longrightarrow> length es \<le> cap r - length (events r) \<Longrightarrow>
      inv (snd (fil dev r)) \<and> events (snd (fil dev r)) = events r @ es \<and> fst (fil dev r) = int (length es)
      \<and> cap (snd (fil dev r)) = cap r"
    and bounded: "inv r \<Longrightarrow> length (events r) \<le> cap r"

text \<open>
  The loop that all clients run: while the client wants more and an event is there, handle it
  and step to the next. The fuel bounds the number of events; \<open>None\<close> is a loop that has
  not ended.
\<close>

fun drain :: "('r \<Rightarrow> 'e option) \<Rightarrow> ('r \<Rightarrow> 'r) \<Rightarrow> ('s \<Rightarrow> bool) \<Rightarrow> ('e \<Rightarrow> 's \<Rightarrow> 's) \<Rightarrow> nat \<Rightarrow>
    'r \<times> 's \<Rightarrow> ('r \<times> 's) option" where
  "drain peek nxt wants handle 0 (r, s) = None"
| "drain peek nxt wants handle (Suc fuel) (r, s) =
     (if wants s then
        (case peek r of
           None \<Rightarrow> Some (r, s)
         | Some e \<Rightarrow> drain peek nxt wants handle fuel (nxt r, handle e s))
      else Some (r, s))"

text \<open>The same loop over a list: what is left of the list and the client's state.\<close>

fun consume :: "('s \<Rightarrow> bool) \<Rightarrow> ('e \<Rightarrow> 's \<Rightarrow> 's) \<Rightarrow> 'e list \<Rightarrow> 's \<Rightarrow> 'e list \<times> 's" where
  "consume wants handle [] s = ([], s)"
| "consume wants handle (e # es) s =
     (if wants s then consume wants handle es (handle e s) else (e # es, s))"

context event_queue begin

lemma drain_consume:
  assumes "inv r" and "length (events r) < fuel"
  shows "\<exists>r'. drain peek nxt wants handle fuel (r, s) = Some (r', snd (consume wants handle (events r) s))
    \<and> inv r' \<and> events r' = fst (consume wants handle (events r) s) \<and> cap r' = cap r"
  using assms
proof (induction fuel arbitrary: r s)
  case 0
  then show ?case by simp
next
  case (Suc fuel)
  show ?case
  proof (cases "events r")
    case Nil
    with Suc.prems(1) show ?thesis by (simp add: peek_hd)
  next
    case (Cons e es)
    then have "inv (nxt r)" "events (nxt r) = es" "cap (nxt r) = cap r"
      using nxt_tl [OF Suc.prems(1)] by simp_all
    with Suc.IH [of "nxt r" "handle e s"] Suc.prems Cons show ?thesis
      by (simp add: peek_hd)
  qed
qed

end

lemma consume_split: "fst (consume wants handle es s) = drop (length es - length (fst (consume wants handle es s))) es"
proof (induction wants handle es s rule: consume.induct)
  case (2 wants handle e es s)
  have "length (fst (consume wants handle es (handle e s))) \<le> length es"
    by (induction es arbitrary: e s) (auto simp: le_SucI)
  with 2 show ?case by (auto simp: Suc_diff_le)
qed simp

section \<open>The reader is a queue\<close>

definition reader_abs :: "'e reader \<Rightarrow> 'e list" where
  "reader_abs r =
     map (\<lambda>j. mBuffer r ! ((mCurr r + j) mod mBufferEnd r)) [0..<mBufferEnd r - mFreeSpace r]"

definition reader_inv :: "'e reader \<Rightarrow> bool" where
  "reader_inv r \<longleftrightarrow> 0 < mBufferEnd r \<and> length (mBuffer r) = 2 * mBufferEnd r
     \<and> mCurr r < mBufferEnd r \<and> mFreeSpace r \<le> mBufferEnd r \<and> mHead r \<le> mBufferEnd r
     \<and> mHead r mod mBufferEnd r = (mCurr r + (mBufferEnd r - mFreeSpace r)) mod mBufferEnd r"

lemma length_reader_abs [simp]: "length (reader_abs r) = mBufferEnd r - mFreeSpace r"
  by (simp add: reader_abs_def)

lemma length_write_at [simp]: "h + length es \<le> length buf \<Longrightarrow> length (write_at h es buf) = length buf"
  by (simp add: write_at_def)

lemma nth_write_at:
  "h + length es \<le> length buf \<Longrightarrow> i < length buf \<Longrightarrow>
   write_at h es buf ! i = (if h \<le> i \<and> i < h + length es then es ! (i - h) else buf ! i)"
  by (auto simp: write_at_def nth_append min_def not_less less_diff_conv2)

lemma mod_add_eq_imp:
  assumes "a mod n = (c + m) mod (n::nat)"
  shows "(a + t) mod n = (c + (m + t)) mod n"
proof -
  have "(a + t) mod n = (a mod n + t) mod n" by (simp add: mod_simps)
  also have "\<dots> = ((c + m) mod n + t) mod n" by (simp add: assms)
  also have "\<dots> = (c + (m + t)) mod n" by (simp add: mod_simps add.assoc)
  finally show ?thesis .
qed

lemma mod_offset_inj:
  fixes c i j n :: nat
  assumes "(c + i) mod n = (c + j) mod n" and "i < n" and "j < n"
  shows "i = j"
proof (cases "i \<le> j")
  case True
  then have "n dvd (c + j) - (c + i)"
    using mod_eq_dvd_iff_nat [of "c + i" "c + j" n] assms(1) by simp
  with True assms(3) show ?thesis by (auto dest: dvd_imp_le)
next
  case False
  then have "n dvd (c + i) - (c + j)"
    using mod_eq_dvd_iff_nat [of "c + j" "c + i" n] assms(1) by simp
  with False assms(2) show ?thesis by (auto dest: dvd_imp_le)
qed

text \<open>What one \<open>fill\<close> does to the cells of the ring: the new events land in the next
  cells after the head, cyclically, and no other cell of the ring changes.\<close>

lemma fill_ring:
  assumes inv: "reader_inv r" and dev: "dev (mFreeSpace r) = Read_Events es 0"
    and some: "es \<noteq> []" and fit: "length es \<le> mFreeSpace r"
  defines "n \<equiv> mBufferEnd r" and "r' \<equiv> snd (fill dev r)"
  shows "t < length es \<Longrightarrow> mBuffer r' ! ((mHead r + t) mod n) = es ! t"
    and "q < n \<Longrightarrow> \<forall>t<length es. q \<noteq> (mHead r + t) mod n \<Longrightarrow> mBuffer r' ! q = mBuffer r ! q"
    and "mHead r' mod n = (mHead r + length es) mod n" and "mHead r' \<le> n"
    and "length (mBuffer r') = 2 * n" and "mCurr r' = mCurr r" and "mBufferEnd r' = n"
    and "mFreeSpace r' = mFreeSpace r - length es" and "fst (fill dev r) = int (length es)"
proof -
  let ?k = "length es"
  let ?b1 = "write_at (mHead r) es (mBuffer r)"
  have n: "0 < n" "length (mBuffer r) = 2 * n" "mHead r \<le> n" "?k \<le> n" "0 < ?k" "mFreeSpace r \<noteq> 0"
    using inv some fit by (cases es; auto simp: reader_inv_def n_def)+
  have b1: "length ?b1 = 2 * n"
    "i < 2 * n \<Longrightarrow> ?b1 ! i = (if mHead r \<le> i \<and> i < mHead r + ?k then es ! (i - mHead r) else mBuffer r ! i)" for i
    using n by (simp_all add: nth_write_at)
  show "mCurr r' = mCurr r" "mBufferEnd r' = n" "mFreeSpace r' = mFreeSpace r - ?k"
    "fst (fill dev r) = int ?k"
    using n dev by (simp_all add: r'_def fill_def Let_def n_def)
  have goals: "(t < ?k \<longrightarrow> mBuffer r' ! ((mHead r + t) mod n) = es ! t)
    \<and> (q < n \<longrightarrow> (\<forall>t<?k. q \<noteq> (mHead r + t) mod n) \<longrightarrow> mBuffer r' ! q = mBuffer r ! q)
    \<and> mHead r' mod n = (mHead r + ?k) mod n \<and> mHead r' \<le> n \<and> length (mBuffer r') = 2 * n" for t q
  proof (cases "mHead r + ?k \<le> n")
    case True
    then have r': "mBuffer r' = ?b1" "mHead r' = mHead r + ?k"
      using n dev by (simp_all add: r'_def fill_def Let_def n_def)
    have "q \<noteq> (mHead r + (q - mHead r)) mod n \<Longrightarrow> q < n \<Longrightarrow> q < mHead r" by (cases "mHead r \<le> q") auto
    with True n b1 show ?thesis
      by (auto simp: r') (metis add_diff_inverse_nat less_diff_conv2 linorder_not_less mod_less nat_add_left_cancel_less)
  next
    case False
    let ?s = "mHead r + ?k - n"
    have s: "?s \<le> mHead r" "?s \<le> n" "n + ?s \<le> 2 * n" using False n by auto
    let ?wrapped = "take ?s (drop n ?b1)"
    have lb: "length ?wrapped = ?s" using s b1(1) by simp
    have r': "mBuffer r' = write_at 0 ?wrapped ?b1" "mHead r' = ?s"
      using False n dev by (simp_all add: r'_def fill_def Let_def n_def)
    have b2: "mBuffer r' ! i = (if i < ?s then ?b1 ! (n + i) else ?b1 ! i)" if "i < 2 * n" for i
      using that s b1(1) lb by (simp add: r' nth_write_at)
    have low: "(mHead r + t) mod n = (if mHead r + t < n then mHead r + t else mHead r + t - n)"
      if "t < ?k" for t using that n by (auto simp: mod_if)
    have A: "mBuffer r' ! ((mHead r + t) mod n) = es ! t" if "t < ?k" for t
    proof (cases "mHead r + t < n")
      case True
      with that n s show ?thesis by (simp add: low b2 b1(2))
    next
      case False
      with that n have i: "mHead r + t - n < ?s" "n + (mHead r + t - n) = mHead r + t"
        "mHead r + t - n < 2 * n" "mHead r + t < 2 * n" by auto
      from False that i show ?thesis by (simp add: low b2 b1(2))
    qed
    have B: "mBuffer r' ! q = mBuffer r ! q" if q: "q < n" "\<forall>t<?k. q \<noteq> (mHead r + t) mod n"
    proof -
      have "\<not> q < ?s"
      proof
        assume "q < ?s"
        then have "n + q - mHead r < ?k" "(mHead r + (n + q - mHead r)) mod n = q" using n q(1) by auto
        with q(2) show False by metis
      qed
      moreover have "\<not> (mHead r \<le> q \<and> q < mHead r + ?k)"
      proof
        assume a: "mHead r \<le> q \<and> q < mHead r + ?k"
        then have "q - mHead r < ?k" "(mHead r + (q - mHead r)) mod n = q" using q(1) by auto
        with q(2) show False by metis
      qed
      ultimately show ?thesis using q(1) by (auto simp: b2 b1(2))
    qed
    have C: "?s mod n = (mHead r + ?k) mod n"
      using False by (simp add: mod_if)
    from A B C s lb b1(1) show ?thesis by (simp add: r')
  qed
  from goals show "t < ?k \<Longrightarrow> mBuffer r' ! ((mHead r + t) mod n) = es ! t"
    "q < n \<Longrightarrow> \<forall>t<?k. q \<noteq> (mHead r + t) mod n \<Longrightarrow> mBuffer r' ! q = mBuffer r ! q"
    "mHead r' mod n = (mHead r + ?k) mod n" "mHead r' \<le> n" "length (mBuffer r') = 2 * n"
    by blast+
qed

lemma fill_queue:
  assumes inv: "reader_inv r" and dev: "dev (mFreeSpace r) = Read_Events es 0"
    and free: "mFreeSpace r \<noteq> 0" and fit: "length es \<le> mFreeSpace r"
  shows "reader_inv (snd (fill dev r)) \<and> reader_abs (snd (fill dev r)) = reader_abs r @ es
    \<and> fst (fill dev r) = int (length es) \<and> mBufferEnd (snd (fill dev r)) = mBufferEnd r"
proof (cases "es = []")
  case True
  with inv dev free show ?thesis
    by (simp add: fill_def reader_inv_def reader_abs_def write_at_def)
next
  case False
  let ?r = "snd (fill dev r)" and ?n = "mBufferEnd r" and ?m = "mBufferEnd r - mFreeSpace r"
  note ring = fill_ring [of r dev es, OF inv dev False fit]
  have n: "0 < ?n" "mFreeSpace r \<le> ?n"
    and hd: "mHead r mod ?n = (mCurr r + ?m) mod ?n" using inv by (simp_all add: reader_inv_def)
  have cell: "(mHead r + t) mod ?n = (mCurr r + (?m + t)) mod ?n" for t
    using hd by (rule mod_add_eq_imp)
  have size: "?n - (mFreeSpace r - length es) = ?m + length es" using n fit by simp
  have inv': "reader_inv ?r"
    using inv ring(3-8) cell [of "length es"] n fit by (simp add: reader_inv_def size)
  have "reader_abs ?r ! j = (reader_abs r @ es) ! j" if j: "j < ?m + length es" for j
  proof (cases "j < ?m")
    case True
    have "\<forall>t<length es. (mCurr r + j) mod ?n \<noteq> (mHead r + t) mod ?n"
    proof (intro allI impI notI)
      fix t assume t: "t < length es" and "(mCurr r + j) mod ?n = (mHead r + t) mod ?n"
      then have "(mCurr r + j) mod ?n = (mCurr r + (?m + t)) mod ?n" by (simp only: cell)
      moreover have "j < ?n" "?m + t < ?n" using True t fit n by auto
      ultimately have "j = ?m + t" by (rule mod_offset_inj)
      with True show False by simp
    qed
    then have "mBuffer ?r ! ((mCurr r + j) mod ?n) = mBuffer r ! ((mCurr r + j) mod ?n)"
      using ring(2) n by simp
    with True size j show ?thesis by (simp add: reader_abs_def ring nth_append)
  next
    case False
    then have "j - ?m < length es" using j by simp
    from ring(1) [OF this] cell [of "j - ?m"] False
    have "mBuffer ?r ! ((mCurr r + j) mod ?n) = es ! (j - ?m)" by (metis le_add_diff_inverse not_less)
    moreover have "reader_abs ?r ! j = mBuffer ?r ! ((mCurr r + j) mod ?n)"
      unfolding reader_abs_def ring(6-8) size using j by simp
    moreover have "(reader_abs r @ es) ! j = es ! (j - ?m)"
      using False by (simp add: nth_append)
    ultimately show ?thesis by simp
  qed
  then have "reader_abs ?r = reader_abs r @ es"
    by (intro nth_equalityI) (simp_all add: ring size)
  with inv' show ?thesis by (simp add: ring)
qed

lemma next_event_queue:
  assumes inv: "reader_inv r" and ne: "reader_abs r \<noteq> []"
  shows "reader_inv (next_event r) \<and> reader_abs (next_event r) = tl (reader_abs r)
    \<and> mBufferEnd (next_event r) = mBufferEnd r"
proof -
  let ?n = "mBufferEnd r" and ?m = "mBufferEnd r - mFreeSpace r"
  have m: "0 < ?m" using ne by (metis length_reader_abs length_greater_0_conv)
  have nx: "mBuffer (next_event r) = mBuffer r" "mBufferEnd (next_event r) = ?n"
    "mHead (next_event r) = mHead r" "mFreeSpace (next_event r) = Suc (mFreeSpace r)"
    "mCurr (next_event r) = (if Suc (mCurr r) = ?n then 0 else Suc (mCurr r))"
    using inv by (auto simp: next_event_def Let_def reader_inv_def)
  have cur: "(mCurr (next_event r) + j) mod ?n = (mCurr r + Suc j) mod ?n" for j
    using inv by (auto simp: nx reader_inv_def mod_simps) (metis add_Suc mod_add_self1)
  have inv': "reader_inv (next_event r)"
  proof -
    have "(mCurr (next_event r) + (?n - mFreeSpace (next_event r))) mod ?n = (mCurr r + ?m) mod ?n"
      using cur [of "?m - 1"] m by (simp add: nx(4) Suc_diff_Suc)
    moreover have "mCurr (next_event r) < ?n" using inv by (simp add: nx reader_inv_def)
    ultimately show ?thesis using inv m by (simp add: reader_inv_def nx(1-4))
  qed
  have "reader_abs (next_event r) ! j = tl (reader_abs r) ! j" if "j < ?m - 1" for j
  proof -
    have "Suc j < ?m" "j < ?n - Suc (mFreeSpace r)" using that by simp_all
    with cur [of j] show ?thesis by (simp add: reader_abs_def nx(1,2,4) nth_tl)
  qed
  then have "reader_abs (next_event r) = tl (reader_abs r)"
    by (intro nth_equalityI) (simp_all add: nx)
  with inv' show ?thesis by (simp add: nx)
qed

lemma peek_event_queue:
  assumes "reader_inv r"
  shows "peek_event r = (case reader_abs r of [] \<Rightarrow> None | e # _ \<Rightarrow> Some e)"
proof (cases "mBufferEnd r - mFreeSpace r")
  case 0
  with assms show ?thesis
    by (simp add: peek_event_def readEvent_def reader_abs_def reader_inv_def)
next
  case (Suc k)
  with assms show ?thesis
    by (simp add: peek_event_def readEvent_def reader_abs_def reader_inv_def upt_rec)
qed

interpretation input_queue: event_queue reader_inv reader_abs mBufferEnd peek_event next_event fill
proof (unfold_locales, goal_cases)
  case (3 r dev es)
  then have "mFreeSpace r \<noteq> 0" "mBufferEnd r - length (reader_abs r) = mFreeSpace r"
    unfolding reader_inv_def by simp_all
  with 3 show ?case using fill_queue [of r dev es] by simp
qed (auto simp: peek_event_queue next_event_queue)

lemma reader_inv_new:
  assumes "0 < n" and "length junk = 2 * n"
  shows "reader_inv (new_reader n junk)" and "reader_abs (new_reader n junk) = []"
  using assms by (simp_all add: reader_inv_def reader_abs_def new_reader_def)

text \<open>A read error or an incomplete event leaves the queue as it is.\<close>

lemma fill_error:
  assumes inv: "reader_inv r" and bad: "dev (mFreeSpace r) = Read_Error e \<or>
      (\<exists>es p. dev (mFreeSpace r) = Read_Events es p \<and> p \<noteq> 0 \<and> length es \<le> mFreeSpace r)"
    and free: "mFreeSpace r \<noteq> 0"
  shows "reader_inv (snd (fill dev r)) \<and> reader_abs (snd (fill dev r)) = reader_abs r"
  using bad
proof
  assume "dev (mFreeSpace r) = Read_Error e"
  with inv free show ?thesis by (simp add: fill_def)
next
  assume "\<exists>es p. dev (mFreeSpace r) = Read_Events es p \<and> p \<noteq> 0 \<and> length es \<le> mFreeSpace r"
  then obtain es p where d: "dev (mFreeSpace r) = Read_Events es p" "p \<noteq> 0" "length es \<le> mFreeSpace r"
    by blast
  let ?n = "mBufferEnd r" and ?m = "mBufferEnd r - mFreeSpace r"
  have r': "snd (fill dev r) = r\<lparr>mBuffer := write_at (mHead r) es (mBuffer r)\<rparr>"
    using d free by (simp add: fill_def Let_def)
  have len: "mHead r + length es \<le> length (mBuffer r)"
    using inv d(3) by (auto simp: reader_inv_def)
  have "write_at (mHead r) es (mBuffer r) ! ((mCurr r + j) mod ?n) = mBuffer r ! ((mCurr r + j) mod ?n)"
    if "j < ?m" for j
  proof -
    let ?q = "(mCurr r + j) mod ?n"
    have "?q < ?n" using inv by (simp add: reader_inv_def)
    moreover have "\<not> (mHead r \<le> ?q \<and> ?q < mHead r + length es)"
    proof
      assume a: "mHead r \<le> ?q \<and> ?q < mHead r + length es"
      then have "(mHead r + (?q - mHead r)) mod ?n = ?q" using \<open>?q < ?n\<close> by simp
      then have "(mCurr r + (?m + (?q - mHead r))) mod ?n = (mCurr r + j) mod ?n"
        using inv mod_add_eq_imp [of "mHead r" ?n "mCurr r" ?m "?q - mHead r"]
        by (simp add: reader_inv_def)
      moreover have "?m + (?q - mHead r) < ?n" using a d(3) free inv by (auto simp: reader_inv_def)
      moreover have "j < ?n" using that by simp
      ultimately have "?m + (?q - mHead r) = j" by (rule mod_offset_inj)
      with that show False by simp
    qed
    moreover from \<open>?q < ?n\<close> have "?q < length (mBuffer r)"
      using inv unfolding reader_inv_def by linarith
    ultimately show ?thesis using len by (auto simp: nth_write_at)
  qed
  with len inv show ?thesis by (simp add: r' reader_inv_def reader_abs_def)
qed

end
