(* ===== verification/Input_Drivers.thy ===== *)
theory Input_Drivers
  imports Input_Reader Quaternions C_Text
begin

text \<open>
  The drivers of input devices (\<open>stml0xx_hal/RearProxSensor.cpp\<close>, one instance per rear
  proximity sensor, and \<open>CapSense.cpp\<close>) and what they inherit from \<open>SensorBase.cpp\<close>.
  A driver turns the stream of input events into sensor events: an absolute value updates the
  pending event, a synchronisation event reports it. The queue interface of the reader gives that
  nothing of the stream is lost however the reads are cut.
\<close>

section \<open>Input events\<close>

datatype ev_type = EV_SYN | EV_ABS | EV_OTHER int
datatype ev_code = ABS_DISTANCE | CODE_OTHER int

record input_event =
  ie_type :: ev_type
  ie_code :: ev_code
  ie_value :: int

section \<open>The base class\<close>

text \<open>A directory entry of \<open>/dev/input\<close>: the descriptor \<open>open\<close> gives and the device name
  \<open>EVIOCGNAME\<close> gives, when they succeed.\<close>

record dev_entry =
  d_name :: string
  opens_as :: "int option"
  gname :: "string option"

text \<open>\<open>openInput\<close>: the descriptor found, and the descriptors left open on the way.\<close>

fun openInput_scan :: "string \<Rightarrow> dev_entry list \<Rightarrow> int list \<Rightarrow> int \<times> int list" where
  "openInput_scan inputName [] fds = (- 1, fds)"
| "openInput_scan inputName (de # des) fds =
     (if d_name de = ''.'' \<or> d_name de = ''..'' then openInput_scan inputName des fds
      else
        case opens_as de of
          None \<Rightarrow> openInput_scan inputName des fds
        | Some fd \<Rightarrow>
            let name = (case gname de of None \<Rightarrow> '''' | Some n \<Rightarrow> take 79 n)
            in if name = inputName then (fd, fd # fds)
               else openInput_scan inputName des (remove1 fd (fd # fds)))"

definition openInput :: "string \<Rightarrow> dev_entry list option \<Rightarrow> int \<times> int list" where
  "openInput inputName dir = (case dir of None \<Rightarrow> (- 1, []) | Some des \<Rightarrow> openInput_scan inputName des [])"

text \<open>\<open>write_sys_attribute\<close>: \<open>written\<close> is what \<open>write\<close> returns, with \<open>errno\<close> when it fails.\<close>

definition write_sys_attribute :: "bool \<Rightarrow> (int + nat) \<Rightarrow> int" where
  "write_sys_attribute opened written =
     (if \<not> opened then - 1 else case written of Inl errno \<Rightarrow> - errno | Inr _ \<Rightarrow> 0)"

definition getFd :: "int \<Rightarrow> int \<Rightarrow> int" where
  "getFd data_fd dev_fd = (if data_fd \<ge> 0 then data_fd else dev_fd)"

section \<open>The rear proximity sensor\<close>

record 'f rearprox =
  rp_enabled :: bool
  numrp :: nat
  rp_reader :: "input_event reader"
  rp_pending :: "'f sensors_event"
  rp_delays :: int
  rp_flush :: bool

text \<open>The attribute files of the two sensors.\<close>

definition rp_node :: "nat \<Rightarrow> string \<Rightarrow> path" where
  "rp_node n attr =
     (if n = 0 then ''/sys/class/i2c-dev/i2c-2/device/2-0049/'' @ attr
      else ''/sys/class/i2c-dev/i2c-6/device/6-0049/'' @ attr)"

definition rp_handle_id :: "nat \<Rightarrow> int" where
  "rp_handle_id n = handle_num (if n = 0 then ID_RP else ID_RP_2)"

text \<open>\<open>junk\<close> is the buffer of the reader and the parts of the pending event that the
  constructor does not set. The distance is read back only when the attribute starts with the
  character of code 1; when the second attribute cannot be read, the buffer still holds that character. An empty
  first attribute leaves the buffer indeterminate and is taken as off.\<close>

definition new_RearProxSensor :: "'f farith \<Rightarrow> fsys \<Rightarrow> nat \<Rightarrow> input_event list \<times> int \<times> 'f \<Rightarrow> 'f rearprox" where
  "new_RearProxSensor A fs n = (\<lambda>(junk, ts0, dist0).
     let on = (case read_file fs (rp_node n ''enable_sar'') of Some (c # _) \<Rightarrow> c = CHR 0x01 | _ \<Rightarrow> False);
         dist = (if on then (case read_file fs (rp_node n ''near'') of Some (c # _) \<Rightarrow> f_of_int A (int (of_char c)) | _ \<Rightarrow> f_of_int A 1)
                 else dist0)
     in \<lparr>rp_enabled = False, numrp = n, rp_reader = new_reader 8 junk,
         rp_pending = \<lparr>version = SENSORS_EVENT_T_SIZE, sensor = rp_handle_id n, etype = SENSOR_TYPE_PROXIMITY,
            timestamp = ts0, payload = Scalar dist\<rparr>,
         rp_delays = 2000000000, rp_flush = False\<rparr>)"

definition NUL :: string where "NUL = [CHR 0x00]"

text \<open>The two bytes written are the digit and the terminating NUL.\<close>

definition rp_setEnable :: "int \<Rightarrow> int \<Rightarrow> 'f rearprox \<times> fsys \<Rightarrow> int \<times> 'f rearprox \<times> fsys" where
  "rp_setEnable h en = (\<lambda>(s, fs).
     if h \<noteq> handle_num ID_RP \<and> h \<noteq> handle_num ID_RP_2 then (- EINVAL, s, fs)
     else
       let s1 = s\<lparr>rp_enabled := (en \<noteq> 0)\<rparr>;
           (ok, fs1) = write_file fs (rp_node (numrp s) ''enable_sar'') ((if en \<noteq> 0 then ''1'' else ''0'') @ NUL)
       in (if ok then 0 else - EIO, s1, fs1))"

definition int32 :: "int \<Rightarrow> int" where
  "int32 i = sint (word_of_int i :: 32 word)"

definition rp_setDelay :: "int \<Rightarrow> int \<Rightarrow> 'f rearprox \<times> fsys \<Rightarrow> int \<times> 'f rearprox \<times> fsys" where
  "rp_setDelay h ns = (\<lambda>(s, fs).
     if h \<noteq> handle_num ID_RP \<and> h \<noteq> handle_num ID_RP_2 then (- EINVAL, s, fs)
     else if ns < 0 then (- EINVAL, s, fs)
     else
       let s1 = s\<lparr>rp_delays := ns\<rparr>;
           txt = show_int (int32 (ns div 1000000))
       in if length txt \<ge> 32 then (- EINVAL, s1, fs)
          else let (ok, fs1) = write_file fs (rp_node (numrp s) ''set_delay_ms'') (txt @ NUL)
               in (if ok then 0 else - EIO, s1, fs1))"

definition rp_processEvent :: "'f farith \<Rightarrow> ev_code \<Rightarrow> int \<Rightarrow> 'f sensors_event \<Rightarrow> 'f sensors_event" where
  "rp_processEvent A c v p = (if c = ABS_DISTANCE then p\<lparr>payload := Scalar (f_of_int A v)\<rparr> else p)"

text \<open>One turn of the loop: the room left, the pending event and what was reported.\<close>

type_synonym 'f report_state = "int \<times> 'f sensors_event \<times> 'f sensors_event list"

definition wants_more :: "'f report_state \<Rightarrow> bool" where
  "wants_more = (\<lambda>(count, p, out). count \<noteq> 0)"

definition rp_handle :: "'f farith \<Rightarrow> input_event \<Rightarrow> 'f report_state \<Rightarrow> 'f report_state" where
  "rp_handle A e = (\<lambda>(count, p, out).
     if ie_type e = EV_ABS \<and> ie_value e \<noteq> - 1 then (count, rp_processEvent A (ie_code e) (ie_value e) p, out)
     else if ie_type e = EV_SYN then (count - 1, p, out @ [p])
     else (count, p, out))"

text \<open>The fuel of the loop is one more than the reader can hold.\<close>

definition read_loop :: "(input_event \<Rightarrow> 'f report_state \<Rightarrow> 'f report_state) \<Rightarrow>
    (nat \<Rightarrow> input_event read_result) \<Rightarrow> int \<Rightarrow> input_event reader \<Rightarrow> 'f sensors_event \<Rightarrow>
    (input_event reader \<times> 'f sensors_event \<times> 'f sensors_event list) option" where
  "read_loop handle dev count r p =
     (let (n, r1) = fill dev r
      in if n < 0 then Some (r1, p, [])
         else map_option (\<lambda>(r2, (_, p2, out)). (r2, p2, out))
           (drain peek_event next_event wants_more handle (Suc (mBufferEnd r)) (r1, (count, p, []))))"

definition rp_readEvents :: "'f farith \<Rightarrow> (nat \<Rightarrow> input_event read_result) \<Rightarrow> int \<Rightarrow> 'f rearprox \<Rightarrow>
    ('f rearprox \<times> 'f sensors_event list) option" where
  "rp_readEvents A dev count s =
     (if count < 1 then Some (s, [])
      else map_option (\<lambda>(r, p, out). (s\<lparr>rp_reader := r, rp_pending := p\<rparr>, out))
        (read_loop (rp_handle A) dev count (rp_reader s) (rp_pending s)))"

definition rp_flush_op :: "'f rearprox \<Rightarrow> int \<times> 'f rearprox" where
  "rp_flush_op s = (0, s\<lparr>rp_flush := True\<rparr>)"

section \<open>The cap sensor\<close>

text \<open>It is compiled in only with \<open>_ENABLE_CAPSENSE\<close>, which also gives it a handle: \<open>ID_CS\<close>
  is a parameter.\<close>

record 'f capsense =
  cs_enabled :: bool
  cs_reader :: "input_event reader"
  cs_pending :: "'f sensors_event"
  cs_delays :: int
  cs_flush :: bool

definition new_CapSense :: "int \<Rightarrow> input_event list \<times> int \<times> 'f \<Rightarrow> 'f capsense" where
  "new_CapSense ID_CS = (\<lambda>(junk, ts0, dist0).
     \<lparr>cs_enabled = False, cs_reader = new_reader 8 junk,
      cs_pending = \<lparr>version = SENSORS_EVENT_T_SIZE, sensor = ID_CS, etype = SENSOR_TYPE_MOTO_CAPSENSE,
         timestamp = ts0, payload = Scalar dist0\<rparr>,
      cs_delays = 2000000000, cs_flush = False\<rparr>)"

definition cs_setEnable :: "int \<Rightarrow> int \<Rightarrow> int \<Rightarrow> 'f capsense \<times> fsys \<Rightarrow> int \<times> 'f capsense \<times> fsys" where
  "cs_setEnable ID_CS h en = (\<lambda>(s, fs).
     if h \<noteq> ID_CS then (- EINVAL, s, fs)
     else
       let s1 = s\<lparr>cs_enabled := (en \<noteq> 0)\<rparr>;
           (ok, fs1) = write_file fs ''/sys/class/capsense/enable'' ((if en \<noteq> 0 then ''1'' else ''0'') @ NUL)
       in (if ok then 0 else - EIO, s1, fs1))"

definition cs_setDelay :: "int \<Rightarrow> int \<Rightarrow> int \<Rightarrow> 'f capsense \<Rightarrow> int \<times> 'f capsense" where
  "cs_setDelay ID_CS h ns s =
     (if h \<noteq> ID_CS then (- EINVAL, s)
      else if ns < 0 then (- EINVAL, s)
      else (0, s\<lparr>cs_delays := ns div 1000000\<rparr>))"

definition cs_processEvent :: "'f farith \<Rightarrow> ev_code \<Rightarrow> int \<Rightarrow> 'f sensors_event \<Rightarrow> 'f sensors_event" where
  "cs_processEvent A c v p = (if c = ABS_DISTANCE \<and> - 1 \<noteq> v then p\<lparr>payload := Scalar (f_of_int A v)\<rparr> else p)"

definition cs_handle :: "'f farith \<Rightarrow> input_event \<Rightarrow> 'f report_state \<Rightarrow> 'f report_state" where
  "cs_handle A e = (\<lambda>(count, p, out).
     if ie_type e = EV_ABS then (count, cs_processEvent A (ie_code e) (ie_value e) p, out)
     else if ie_type e = EV_SYN then (count - 1, p, out @ [p])
     else (count, p, out))"

definition cs_readEvents :: "'f farith \<Rightarrow> (nat \<Rightarrow> input_event read_result) \<Rightarrow> int \<Rightarrow> 'f capsense \<Rightarrow>
    ('f capsense \<times> 'f sensors_event list) option" where
  "cs_readEvents A dev count s =
     (if count < 1 then Some (s, [])
      else map_option (\<lambda>(r, p, out). (s\<lparr>cs_reader := r, cs_pending := p\<rparr>, out))
        (read_loop (cs_handle A) dev count (cs_reader s) (cs_pending s)))"

definition cs_flush_op :: "'f capsense \<Rightarrow> int \<times> 'f capsense" where
  "cs_flush_op s = (0, s\<lparr>cs_flush := True\<rparr>)"

section \<open>What a stream of input events reports\<close>

text \<open>The pending event after a value; both drivers do the same.\<close>

definition latch :: "'f farith \<Rightarrow> input_event \<Rightarrow> 'f sensors_event \<Rightarrow> 'f sensors_event" where
  "latch A e p =
     (if ie_type e = EV_ABS \<and> ie_code e = ABS_DISTANCE \<and> ie_value e \<noteq> - 1
      then p\<lparr>payload := Scalar (f_of_int A (ie_value e))\<rparr> else p)"

text \<open>The reference: the events a whole stream reports, one per synchronisation.\<close>

fun reports :: "'f farith \<Rightarrow> input_event list \<Rightarrow> 'f sensors_event \<Rightarrow> 'f sensors_event list" where
  "reports A [] p = []"
| "reports A (e # es) p = (if ie_type e = EV_SYN then p # reports A es p else reports A es (latch A e p))"

definition step_report :: "'f farith \<Rightarrow> input_event \<Rightarrow> 'f report_state \<Rightarrow> 'f report_state" where
  "step_report A e = (\<lambda>(count, p, out). if ie_type e = EV_SYN then (count - 1, p, out @ [p]) else (count, latch A e p, out))"

lemma step_report_apply [simp]:
  "step_report A e (count, p, out) = (if ie_type e = EV_SYN then (count - 1, p, out @ [p]) else (count, latch A e p, out))"
  "wants_more (count, p, out) = (count \<noteq> 0)"
  by (simp_all add: step_report_def wants_more_def)

lemma handle_reports: "rp_handle A = step_report A" "cs_handle A = step_report A"
  by (auto simp: fun_eq_iff rp_handle_def cs_handle_def rp_processEvent_def cs_processEvent_def latch_def)

lemma consume_reports:
  assumes "0 \<le> count" and "consume wants_more (step_report A) es (count, p, out) = (left, count', p', out')"
  shows "\<exists>new. out' = out @ new \<and> reports A es p = new @ reports A left p' \<and> int (length new) \<le> count
    \<and> count' = count - int (length new) \<and> (left \<noteq> [] \<longrightarrow> int (length new) = count)"
  using assms
proof (induction es arbitrary: count p out)
  case (Cons e es)
  show ?case
  proof (cases "count = 0")
    case True
    with Cons.prems show ?thesis by auto
  next
    case False
    show ?thesis
    proof (cases "ie_type e = EV_SYN")
      case True
      with False Cons.prems have "consume wants_more (step_report A) es (count - 1, p, out @ [p]) = (left, count', p', out')"
        by simp
      from Cons.IH [OF _ this] False Cons.prems(1) True show ?thesis by auto
    next
      case other: False
      with False Cons.prems have "consume wants_more (step_report A) es (count, latch A e p, out) = (left, count', p', out')"
        by simp
      from Cons.IH [OF Cons.prems(1) this] other show ?thesis by auto
    qed
  qed
qed auto

lemma read_loop_spec:
  assumes inv: "reader_inv r" and room: "0 < mFreeSpace r"
    and dev: "dev (mFreeSpace r) = Read_Events es 0" "length es \<le> mFreeSpace r" and count: "0 \<le> count"
  shows "\<exists>r' p' out. read_loop (step_report A) dev count r p = Some (r', p', out) \<and> reader_inv r'
    \<and> mBufferEnd r' = mBufferEnd r \<and> reports A (reader_abs r @ es) p = out @ reports A (reader_abs r') p'
    \<and> int (length out) \<le> count \<and> (reader_abs r' \<noteq> [] \<longrightarrow> int (length out) = count)"
proof -
  have "mFreeSpace r \<noteq> 0" using room by simp
  note f = fill_queue [of r dev es, OF inv dev(1) this dev(2)]
  obtain r1 where r1: "fill dev r = (int (length es), r1)" "reader_inv r1" "reader_abs r1 = reader_abs r @ es"
    "mBufferEnd r1 = mBufferEnd r" using f by (cases "fill dev r") auto
  have "length (reader_abs r1) < Suc (mBufferEnd r)"
    using input_queue.bounded [OF r1(2)] r1(4) by simp
  from input_queue.drain_consume [OF r1(2) this, of wants_more "step_report A" "(count, p, [])"]
  obtain r2 where r2: "drain peek_event next_event wants_more (step_report A) (Suc (mBufferEnd r)) (r1, (count, p, []))
      = Some (r2, snd (consume wants_more (step_report A) (reader_abs r1) (count, p, [])))"
    "reader_inv r2" "reader_abs r2 = fst (consume wants_more (step_report A) (reader_abs r1) (count, p, []))"
    "mBufferEnd r2 = mBufferEnd r1" by blast
  obtain left count' p' out where c: "consume wants_more (step_report A) (reader_abs r1) (count, p, []) = (left, count', p', out)"
    by (metis prod_cases4)
  from consume_reports [OF count c] r1 r2 c show ?thesis by (auto simp: read_loop_def)
qed

text \<open>Whatever the device answers, a read keeps the reader and the loop ends.\<close>

definition dev_ok :: "(nat \<Rightarrow> 'e read_result) \<Rightarrow> bool" where
  "dev_ok dev \<longleftrightarrow> (\<forall>n. case dev n of Read_Events es partial \<Rightarrow> length es \<le> n | Read_Error e \<Rightarrow> True)"

lemma fill_keeps:
  assumes inv: "reader_inv r" and ok: "dev_ok dev"
  shows "reader_inv (snd (fill dev r)) \<and> mBufferEnd (snd (fill dev r)) = mBufferEnd r"
proof (cases "mFreeSpace r = 0")
  case True
  with inv show ?thesis by (simp add: fill_def)
next
  case free: False
  show ?thesis
  proof (cases "dev (mFreeSpace r)")
    case (Read_Error e)
    with inv free show ?thesis by (simp add: fill_def)
  next
    case (Read_Events es partial)
    then have fit: "length es \<le> mFreeSpace r" using ok by (auto simp: dev_ok_def dest!: spec [of _ "mFreeSpace r"])
    show ?thesis
    proof (cases "partial = 0")
      case True
      with fill_queue [of r dev es] inv free fit Read_Events show ?thesis by simp
    next
      case False
      with fill_error [of r dev] inv free fit Read_Events have "reader_inv (snd (fill dev r))" by blast
      moreover have "mBufferEnd (snd (fill dev r)) = mBufferEnd r"
        using False Read_Events free by (simp add: fill_def Let_def)
      ultimately show ?thesis by simp
    qed
  qed
qed

lemma read_loop_returns:
  assumes inv: "reader_inv r" and ok: "dev_ok dev" and count: "0 \<le> count"
  shows "\<exists>r' p' out. read_loop (step_report A) dev count r p = Some (r', p', out) \<and> reader_inv r'
    \<and> mBufferEnd r' = mBufferEnd r \<and> int (length out) \<le> count"
proof -
  obtain n r1 where f: "fill dev r = (n, r1)" by fastforce
  with fill_keeps [OF inv ok] have r1: "reader_inv r1" "mBufferEnd r1 = mBufferEnd r" by simp_all
  have "length (reader_abs r1) < Suc (mBufferEnd r)" using input_queue.bounded [OF r1(1)] r1(2) by simp
  from input_queue.drain_consume [OF r1(1) this, of wants_more "step_report A" "(count, p, [])"]
  obtain r2 where r2: "drain peek_event next_event wants_more (step_report A) (Suc (mBufferEnd r)) (r1, (count, p, []))
      = Some (r2, snd (consume wants_more (step_report A) (reader_abs r1) (count, p, [])))"
    "reader_inv r2" "mBufferEnd r2 = mBufferEnd r1" by blast
  obtain left count' p' out where c: "consume wants_more (step_report A) (reader_abs r1) (count, p, []) = (left, count', p', out)"
    by (metis prod_cases4)
  from consume_reports [OF count c] r1 r2 f c count show ?thesis by (auto simp: read_loop_def)
qed

lemma rp_readEvents_returns:
  assumes "reader_inv (rp_reader s)" and "dev_ok dev"
  shows "\<exists>s' out. rp_readEvents A dev count s = Some (s', out) \<and> reader_inv (rp_reader s')
    \<and> int (length out) \<le> max 0 count"
proof (cases "count < 1")
  case True
  with assms show ?thesis by (simp add: rp_readEvents_def)
next
  case False
  with read_loop_returns [OF assms, of count A "rp_pending s"] show ?thesis
    by (auto simp: rp_readEvents_def handle_reports)
qed

section \<open>Properties\<close>

text \<open>One call of \<open>readEvents\<close>: the device delivers a piece of the stream that fits, or fails.
  The configuration is the driver, what the device still holds, and what has been reported.\<close>

inductive rp_step :: "'f farith \<Rightarrow> 'f rearprox \<times> input_event list \<times> 'f sensors_event list \<Rightarrow>
    'f rearprox \<times> input_event list \<times> 'f sensors_event list \<Rightarrow> bool" for A where
  deliver: "\<lbrakk>0 < mFreeSpace (rp_reader s); dev (mFreeSpace (rp_reader s)) = Read_Events es 0;
     length es \<le> mFreeSpace (rp_reader s); 1 \<le> count; rp_readEvents A dev count s = Some (s', out)\<rbrakk>
   \<Longrightarrow> rp_step A (s, es @ rest, sent) (s', rest, sent @ out)"
| failed: "\<lbrakk>0 < mFreeSpace (rp_reader s); dev (mFreeSpace (rp_reader s)) = Read_Error e; 0 < e;
     1 \<le> count; rp_readEvents A dev count s = Some (s', out)\<rbrakk>
   \<Longrightarrow> rp_step A (s, rest, sent) (s', rest, sent @ out)"

inductive_cases rp_stepE: "rp_step A (s, rest, sent) (s', rest', sent')"

definition rp_total :: "'f farith \<Rightarrow> 'f rearprox \<times> input_event list \<times> 'f sensors_event list \<Rightarrow> 'f sensors_event list" where
  "rp_total A = (\<lambda>(s, rest, sent). sent @ reports A (reader_abs (rp_reader s) @ rest) (rp_pending s))"

text \<open>The pending event after a stream.\<close>

fun latched :: "'f farith \<Rightarrow> input_event list \<Rightarrow> 'f sensors_event \<Rightarrow> 'f sensors_event" where
  "latched A [] p = p"
| "latched A (e # es) p = latched A es (if ie_type e = EV_SYN then p else latch A e p)"

lemma reports_append_latched: "reports A (es @ es') p = reports A es p @ reports A es' (latched A es p)"
  by (induction es arbitrary: p) auto

lemma consume_latched:
  "consume wants_more (step_report A) es (count, p, out) = (left, count', p', out') \<Longrightarrow> latched A es p = latched A left p'"
  by (induction es arbitrary: count p out) (auto split: if_splits)

lemma rp_step_total:
  assumes "rp_step A c c'" and "reader_inv (rp_reader (fst c))"
  shows "reader_inv (rp_reader (fst c')) \<and> rp_total A c' = rp_total A c"
  using assms
proof cases
  case (deliver s dev es count s' out rest sent)
  from deliver(3-7) assms(2) obtain r' p' where r:
    "read_loop (step_report A) dev count (rp_reader s) (rp_pending s) = Some (r', p', out)" "rp_reader s' = r'" "rp_pending s' = p'"
    by (auto simp: rp_readEvents_def handle_reports)
  have inv: "reader_inv (rp_reader s)" using assms(2) deliver by simp
  obtain r1 where r1: "fill dev (rp_reader s) = (int (length es), r1)" "reader_inv r1"
    "reader_abs r1 = reader_abs (rp_reader s) @ es" "mBufferEnd r1 = mBufferEnd (rp_reader s)"
    using fill_queue [of "rp_reader s" dev es] inv deliver(3-5) by (cases "fill dev (rp_reader s)") auto
  have "length (reader_abs r1) < Suc (mBufferEnd (rp_reader s))" using input_queue.bounded [OF r1(2)] r1(4) by simp
  from input_queue.drain_consume [OF r1(2) this, of wants_more "step_report A" "(count, rp_pending s, [])"]
  obtain r2 where r2: "drain peek_event next_event wants_more (step_report A) (Suc (mBufferEnd (rp_reader s))) (r1, (count, rp_pending s, []))
      = Some (r2, snd (consume wants_more (step_report A) (reader_abs r1) (count, rp_pending s, [])))"
    "reader_inv r2" "reader_abs r2 = fst (consume wants_more (step_report A) (reader_abs r1) (count, rp_pending s, []))" by blast
  obtain left count' p2 out2 where c: "consume wants_more (step_report A) (reader_abs r1) (count, rp_pending s, []) = (left, count', p2, out2)"
    by (metis prod_cases4)
  have e: "r' = r2" "p' = p2" "out = out2" using r(1) r1 r2 c by (auto simp: read_loop_def)
  have "reports A (reader_abs r1) (rp_pending s) = out @ reports A (reader_abs r2) p'"
    using consume_reports [OF _ c] deliver(6) r2(3) c e by auto
  moreover have "latched A (reader_abs r1) (rp_pending s) = latched A (reader_abs r2) p'"
    using consume_latched [OF c] r2(3) c e by simp
  ultimately have "reports A (reader_abs r1 @ rest) (rp_pending s) = out @ reports A (reader_abs r2 @ rest) p'"
    by (simp add: reports_append_latched)
  with deliver r r1 r2 e show ?thesis by (simp add: rp_total_def)
next
  case (failed s dev e count s' out rest sent)
  then show ?thesis using assms(2)
    by (auto simp: rp_readEvents_def read_loop_def fill_def rp_total_def)
qed

text \<open>C32: the rear proximity driver loses, repeats and reorders nothing: however the reads cut
  the stream of input events and however often they fail, what was reported followed by what the
  events still in the reader and in the device will report is what the whole stream
  reports, one event per synchronisation with the last distance before it.\<close>

theorem rearprox_stream_intact:
  assumes "(rp_step A)\<^sup>*\<^sup>* (s0, stream, []) (s, rest, sent)" and "reader_inv (rp_reader s0)"
    and "reader_abs (rp_reader s0) = []"
  shows "sent @ reports A (reader_abs (rp_reader s) @ rest) (rp_pending s) = reports A stream (rp_pending s0)
    \<and> reader_inv (rp_reader s)"
proof -
  have "reader_inv (rp_reader (fst c')) \<and> rp_total A c' = rp_total A c"
    if "(rp_step A)\<^sup>*\<^sup>* c c'" "reader_inv (rp_reader (fst c))" for c c'
    using that by (induction rule: rtranclp_induct) (auto dest: rp_step_total)
  from this [OF assms(1)] assms(2,3) show ?thesis by (simp add: rp_total_def)
qed

definition no_event :: input_event where
  "no_event = \<lparr>ie_type = EV_SYN, ie_code = CODE_OTHER 0, ie_value = 0\<rparr>"

definition plain_rearprox :: "real rearprox" where
  "plain_rearprox = new_RearProxSensor real_arith \<lparr>content = (\<lambda>_. None), write_fails = (\<lambda>_. False)\<rparr> 0
     (replicate 16 no_event, 0, 0)"

lemma plain_rearprox_inv: "reader_inv (rp_reader plain_rearprox)" "reader_abs (rp_reader plain_rearprox) = []"
  "mFreeSpace (rp_reader plain_rearprox) = 8"
  using reader_inv_new [of 8 "replicate 16 no_event"]
  by (simp_all add: plain_rearprox_def new_RearProxSensor_def) (simp add: new_reader_def)

theorem rearprox_stream_intact_witness:
  "\<exists>s sent. (rp_step real_arith)\<^sup>*\<^sup>* (plain_rearprox, [no_event], []) (s, [], sent)
     \<and> sent @ reports real_arith (reader_abs (rp_reader s)) (rp_pending s) = [rp_pending plain_rearprox]"
proof -
  obtain s out where r: "rp_readEvents real_arith (\<lambda>n. Read_Events (take n [no_event]) 0) 1 plain_rearprox = Some (s, out)"
    using rp_readEvents_returns [OF plain_rearprox_inv(1), of "\<lambda>n. Read_Events (take n [no_event]) 0" real_arith 1]
    by (auto simp: dev_ok_def)
  have "rp_step real_arith (plain_rearprox, [no_event] @ [], []) (s, [], [] @ out)"
    by (rule rp_step.deliver [OF _ _ _ _ r]) (simp_all add: plain_rearprox_inv)
  then have st: "(rp_step real_arith)\<^sup>*\<^sup>* (plain_rearprox, [no_event], []) (s, [], out)" by simp
  from rearprox_stream_intact [OF st plain_rearprox_inv(1,2)] st show ?thesis
    by (auto simp: no_event_def)
qed

lemma drain_keeps:
  "drain peek nxt wants handle fuel (r, s) = Some (r', s') \<Longrightarrow> P s \<Longrightarrow> (\<And>e s. P s \<Longrightarrow> P (handle e s)) \<Longrightarrow> P s'"
  by (induction fuel arbitrary: r s) (auto split: if_splits option.splits)

text \<open>The time of an input event is computed and dropped: every event the rear proximity
  driver reports carries the timestamp its pending event was created with.\<close>

theorem rearprox_timestamp_never_set:
  assumes "rp_readEvents A dev count s = Some (s', out)"
  shows "list_all (\<lambda>e. timestamp e = timestamp (rp_pending s)) out \<and> timestamp (rp_pending s') = timestamp (rp_pending s)"
proof -
  let ?P = "\<lambda>(c :: int, p, o'). timestamp p = timestamp (rp_pending s) \<and> list_all (\<lambda>e. timestamp e = timestamp (rp_pending s)) o'"
  have step: "?P st \<Longrightarrow> ?P (step_report A e st)" for e st
    by (cases st) (auto simp: latch_def)
  have "?P st" if "drain peek_event next_event wants_more (step_report A) n (r, (count, rp_pending s, [])) = Some (r', st)" for n r r' st
    using that by (rule drain_keeps) (use step in \<open>auto simp del: step_report_apply\<close>)
  note keeps = this
  show ?thesis
  proof (cases "count < 1")
    case True
    with assms show ?thesis by (simp add: rp_readEvents_def)
  next
    case False
    then obtain r2 p2 where l: "read_loop (step_report A) dev count (rp_reader s) (rp_pending s) = Some (r2, p2, out)"
      "rp_pending s' = p2" using assms by (auto simp: rp_readEvents_def handle_reports)
    obtain n r1 where f: "fill dev (rp_reader s) = (n, r1)" by fastforce
    show ?thesis
    proof (cases "n < 0")
      case True
      with l f show ?thesis by (simp add: read_loop_def)
    next
      case False
      with l f obtain c2 where "drain peek_event next_event wants_more (step_report A) (Suc (mBufferEnd (rp_reader s)))
          (r1, (count, rp_pending s, [])) = Some (r2, (c2, p2, out))"
        by (auto simp: read_loop_def)
      from keeps [OF this] l(2) show ?thesis by simp
    qed
  qed
qed

theorem rearprox_timestamp_never_set_witness:
  "\<exists>s' out. rp_readEvents real_arith (\<lambda>n. Read_Events (take n [no_event]) 0) 1 plain_rearprox = Some (s', out)
     \<and> timestamp (rp_pending s') = 0"
proof -
  obtain s' out where r: "rp_readEvents real_arith (\<lambda>n. Read_Events (take n [no_event]) 0) 1 plain_rearprox = Some (s', out)"
    using rp_readEvents_returns [OF plain_rearprox_inv(1), of "\<lambda>n. Read_Events (take n [no_event]) 0" real_arith 1]
    by (auto simp: dev_ok_def)
  with rearprox_timestamp_never_set [OF r] show ?thesis
    by (simp add: plain_rearprox_def new_RearProxSensor_def)
qed

text \<open>A sensor that the system reports enabled with the digit 1 is not recognised at
  construction, which looks for the character of code 1: the distance is not read back.\<close>

theorem rearprox_enabled_not_recognised:
  assumes "read_file fs (rp_node n ''enable_sar'') = Some (CHR ''1'' # more_text)"
  shows "payload (rp_pending (new_RearProxSensor A fs n (junk, ts0, dist0))) = Scalar dist0"
  using assms by (simp add: new_RearProxSensor_def)

theorem rearprox_enabled_not_recognised_witness:
  "payload (rp_pending (new_RearProxSensor real_arith
     \<lparr>content = (\<lambda>p. if p = rp_node 0 ''enable_sar'' then Some ''1'' else Some ''7''), write_fails = (\<lambda>_. False)\<rparr> 0 ([], 0, 0))) = Scalar 0"
  by (rule rearprox_enabled_not_recognised) (simp add: read_file_def)

lemma openInput_scan_fds:
  "openInput_scan inputName des fds = (fd, fds') \<Longrightarrow> (fd = - 1 \<and> fds' = fds) \<or> fds' = fd # fds"
proof (induction des)
  case (Cons de des)
  then show ?case by (auto simp: Let_def split: if_splits option.splits)
qed simp

text \<open>The scan for an input device leaves exactly the descriptor it returns open, or none
  when no device has the name.\<close>

theorem openInput_no_leak:
  "snd (openInput inputName dir) = [] \<and> fst (openInput inputName dir) = - 1
   \<or> snd (openInput inputName dir) = [fst (openInput inputName dir)]"
proof (cases dir)
  case (Some des)
  then show ?thesis using openInput_scan_fds [of inputName des "[]"]
    by (cases "openInput_scan inputName des []") (auto simp: openInput_def)
qed (simp add: openInput_def)

end
