(* ===== verification/Poll_Context.thy ===== *)
theory Poll_Context
  imports Hub_Stream Input_Drivers
begin

text \<open>
  The poll context of the sensors HAL (\<open>stml0xx_hal/SensorsPollContext.cpp\<close>) and the module
  functions around it (\<open>SensorHal.cpp\<close>): the sensor hub and the two rear proximity sensors as
  drivers, the map from handles to sensors, the dispatch of the framework's calls and the poll
  loop. Drivers share a contract, stated as a locale and interpreted on both kinds.
\<close>

section \<open>The context\<close>

record 'f poll_ctx =
  ctx_hub :: "'f hub"
  ctx_rear :: "'f rearprox"
  ctx_rear2 :: "'f rearprox"
  ctx_fs :: fsys
  sSensorList :: "sensor_t list"
  mIdToSensor :: "int \<rightharpoonup> sensor_t"

definition sensor_hub :: int where "sensor_hub = 0"
definition rearprox :: int where "rearprox = 1"
definition rearprox_2 :: int where "rearprox_2 = 2"

text \<open>\<open>std::map::insert\<close> keeps an entry that is already there.\<close>

definition map_insert :: "sensor_t \<Rightarrow> (int \<rightharpoonup> sensor_t) \<Rightarrow> (int \<rightharpoonup> sensor_t)" where
  "map_insert e m = (if m (handle e) = None then m(handle e \<mapsto> e) else m)"

definition ecompass_list :: "string option \<Rightarrow> sensor_t list" where
  "ecompass_list prop =
     (if (case prop of Some p \<Rightarrow> p \<noteq> '''' \<and> p = ''false'' | None \<Rightarrow> False)
      then sSensorList_init else sSensorList_init @ eCompass_sensors)"

text \<open>\<open>prop\<close> is the value of \<open>ro.hw.ecompass\<close>.\<close>

definition new_SensorsPollContext :: "'f hub \<Rightarrow> 'f rearprox \<Rightarrow> 'f rearprox \<Rightarrow> fsys \<Rightarrow> string option \<Rightarrow> 'f poll_ctx" where
  "new_SensorsPollContext h r1 r2 fs prop =
     (let ls = ecompass_list prop
      in \<lparr>ctx_hub = h, ctx_rear = r1, ctx_rear2 = r2, ctx_fs = fs, sSensorList = ls,
          mIdToSensor = fold map_insert ls Map.empty\<rparr>)"

fun driver_case :: "sensor_handle option \<Rightarrow> int" where
  "driver_case (Some ID_RP) = rearprox"
| "driver_case (Some ID_RP_2) = rearprox_2"
| "driver_case (Some MIN_SENSOR_ID) = - EINVAL"
| "driver_case (Some ID_A2) = - EINVAL"
| "driver_case (Some MAX_SENSOR_ID) = - EINVAL"
| "driver_case None = - EINVAL"
| "driver_case (Some _) = sensor_hub"

definition handleToDriver :: "int \<Rightarrow> int" where
  "handleToDriver h = driver_case (handle_of h)"

section \<open>Calls of the framework\<close>

definition activate :: "('f, 'd) hub_env \<Rightarrow> int \<Rightarrow> int \<Rightarrow> 'f poll_ctx \<Rightarrow> int \<times> 'f poll_ctx" where
  "activate E h en c =
     (let drv = handleToDriver h in
      if drv < 0 then (- EINVAL, c)
      else if mIdToSensor c h = None then (- EINVAL, c)
      else if drv = sensor_hub
      then let (err, s) = hub_setEnable E h en (ctx_hub c) in (err, c\<lparr>ctx_hub := s\<rparr>)
      else if drv = rearprox
      then let (err, s, fs) = rp_setEnable h en (ctx_rear c, ctx_fs c) in (err, c\<lparr>ctx_rear := s, ctx_fs := fs\<rparr>)
      else let (err, s, fs) = rp_setEnable h en (ctx_rear2 c, ctx_fs c) in (err, c\<lparr>ctx_rear2 := s, ctx_fs := fs\<rparr>))"

definition ctx_setDelay :: "('f, 'd) hub_env \<Rightarrow> int \<Rightarrow> int \<Rightarrow> 'f poll_ctx \<Rightarrow> int \<times> 'f poll_ctx" where
  "ctx_setDelay E h ns c =
     (let drv = handleToDriver h in
      if drv < 0 then (- EINVAL, c)
      else if mIdToSensor c h = None then (- EINVAL, c)
      else if drv = sensor_hub
      then let (err, s) = hub_setDelay E (sSensorList c) h ns (ctx_hub c) in (err, c\<lparr>ctx_hub := s\<rparr>)
      else if drv = rearprox
      then let (err, s, fs) = rp_setDelay h ns (ctx_rear c, ctx_fs c) in (err, c\<lparr>ctx_rear := s, ctx_fs := fs\<rparr>)
      else let (err, s, fs) = rp_setDelay h ns (ctx_rear2 c, ctx_fs c) in (err, c\<lparr>ctx_rear2 := s, ctx_fs := fs\<rparr>))"

definition batch :: "('f, 'd) hub_env \<Rightarrow> int \<Rightarrow> int \<Rightarrow> int \<Rightarrow> int \<Rightarrow> 'f poll_ctx \<Rightarrow> int \<times> 'f poll_ctx" where
  "batch E h flags ns timeout c = ctx_setDelay E h ns c"

definition ctx_flush :: "('f, 'd) hub_env \<Rightarrow> int \<Rightarrow> 'f poll_ctx \<Rightarrow> int \<times> 'f poll_ctx" where
  "ctx_flush E h c =
     (case mIdToSensor c h of
        None \<Rightarrow> (- EINVAL, c)
      | Some e \<Rightarrow>
          if reporting e = One_Shot then (- EINVAL, c)
          else let (ret, s) = hub_flush E h (ctx_hub c) in (ret, c\<lparr>ctx_hub := s\<rparr>))"

section \<open>Polling\<close>

text \<open>What \<open>poll\<close> returns: an \<open>errno\<close>, or for each descriptor whether \<open>POLLIN\<close> is set. The
  list of answers is what successive calls give; it may run out, the call then blocks.\<close>

datatype poll_answer = Poll_Errno int | Poll_Ready "int \<Rightarrow> bool"

fun poll_wait :: "poll_answer list \<Rightarrow> (int \<Rightarrow> bool) option option" where
  "poll_wait [] = None"
| "poll_wait (Poll_Ready r # as) = Some (Some r)"
| "poll_wait (Poll_Errno e # as) = (if e = EINTR then poll_wait as else Some None)"

text \<open>What the devices give during one call: the hub's local buffer and reads, and the answers
  of the two input devices.\<close>

record poll_input =
  in_buff :: hub_message
  in_reads :: "hub_read list"
  in_rear :: "nat \<Rightarrow> input_event read_result"
  in_rear2 :: "nat \<Rightarrow> input_event read_result"

text \<open>One turn of the loop over the drivers: \<open>rd\<close> reads the driver's events. No driver has
  pending events of its own and none reports a negative number of them.\<close>

definition poll_driver :: "bool \<Rightarrow> (int \<Rightarrow> 's \<Rightarrow> ('s \<times> 'e list) option) \<Rightarrow> 's \<Rightarrow> int \<times> 'e list \<Rightarrow> ('s \<times> int \<times> 'e list) option" where
  "poll_driver ready rd s = (\<lambda>(count, evs).
     if count \<noteq> 0 \<and> ready
     then (case rd count s of
             None \<Rightarrow> None
           | Some (s', new) \<Rightarrow> Some (s', count - int (length new), evs @ new))
     else Some (s, count, evs))"

definition hub_read_op :: "('f, 'd) hub_env \<Rightarrow> hub_message \<times> hub_read list \<Rightarrow> int \<Rightarrow> 'f hub \<Rightarrow> ('f hub \<times> 'f sensors_event list) option" where
  "hub_read_op E = (\<lambda>(b, reads) count s. Some (snd (hub_readEvents E b count reads s)))"

text \<open>\<open>nbEvents\<close>, the sum of what the drivers return, is the length of the list: each returns the number of events it
  wrote.\<close>

definition pollEvents :: "('f, 'd) hub_env \<Rightarrow> poll_answer list \<Rightarrow> poll_input \<Rightarrow> bool \<Rightarrow> int \<Rightarrow> 'f poll_ctx \<Rightarrow>
    (int \<times> 'f sensors_event list \<times> 'f poll_ctx) option" where
  "pollEvents E answers inp has_data count c =
     (if \<not> has_data then Some (- EINVAL, [], c)
      else if count < 1 then Some (- EINVAL, [], c)
      else
        case poll_wait answers of
          None \<Rightarrow> None
        | Some None \<Rightarrow> Some (0, [], c)
        | Some (Some ready) \<Rightarrow>
            (case poll_driver (ready sensor_hub) (hub_read_op E (in_buff inp, in_reads inp)) (ctx_hub c) (count, []) of
               None \<Rightarrow> None
             | Some (s, st1) \<Rightarrow>
                 (case poll_driver (ready rearprox) (rp_readEvents (flt E) (in_rear inp)) (ctx_rear c) st1 of
                    None \<Rightarrow> None
                  | Some (r1, st2) \<Rightarrow>
                      (case poll_driver (ready rearprox_2) (rp_readEvents (flt E) (in_rear2 inp)) (ctx_rear2 c) st2 of
                         None \<Rightarrow> None
                       | Some (r2, count', evs) \<Rightarrow>
                           Some (int (length evs), evs, c\<lparr>ctx_hub := s, ctx_rear := r1, ctx_rear2 := r2\<rparr>)))))"

section \<open>The module\<close>

text \<open>The loop of \<open>poll__poll\<close>; each round is one call of \<open>pollEvents\<close>, with what the
  system gives it.\<close>

fun poll__poll :: "('f, 'd) hub_env \<Rightarrow> (poll_answer list \<times> poll_input) list \<Rightarrow> bool \<Rightarrow> int \<Rightarrow> 'f poll_ctx \<Rightarrow>
    (int \<times> 'f sensors_event list \<times> 'f poll_ctx) option" where
  "poll__poll E [] has_data count c = None"
| "poll__poll E ((answers, inp) # rounds) has_data count c =
     (case pollEvents E answers inp has_data count c of
        None \<Rightarrow> None
      | Some (ret, evs, c') \<Rightarrow> if ret = 0 then poll__poll E rounds has_data count c' else Some (ret, evs, c'))"

definition set_operation_mode :: "int \<Rightarrow> int" where
  "set_operation_mode mode = (if mode = 0 then 0 else - EINVAL)"

definition get_sensors_list :: "'f poll_ctx \<Rightarrow> sensor_t list \<times> int" where
  "get_sensors_list c = (sSensorList c, int (length (sSensorList c)))"

text \<open>\<open>instance\<close> is what \<open>getInstance\<close> gives; it is never null.\<close>

definition open_sensors :: "'c option \<Rightarrow> int \<times> 'c option" where
  "open_sensors instance_ptr = (case instance_ptr of Some c \<Rightarrow> (0, Some c) | None \<Rightarrow> (- EINVAL, None))"

section \<open>The contract of a driver\<close>

text \<open>A driver in a good state answers every read, writes at most as many events as it is given
  room for, and stays in a good state.\<close>

locale sensor_driver =
  fixes good :: "'s \<Rightarrow> bool"
    and fair :: "'i \<Rightarrow> bool"
    and rd :: "'i \<Rightarrow> int \<Rightarrow> 's \<Rightarrow> ('s \<times> 'e list) option"
  assumes answers: "good s \<Longrightarrow> fair i \<Longrightarrow> 0 \<le> count \<Longrightarrow>
    \<exists>s' evs. rd i count s = Some (s', evs) \<and> good s' \<and> int (length evs) \<le> count"
begin

lemma poll_driver_fits:
  assumes "good s" and "fair i" and "0 \<le> count"
  shows "\<exists>s' new. poll_driver ready (rd i) s (count, evs) = Some (s', count - int (length new), evs @ new)
    \<and> good s' \<and> int (length new) \<le> count"
proof (cases "count \<noteq> 0 \<and> ready")
  case True
  with answers [OF assms] show ?thesis by (auto simp: poll_driver_def)
next
  case False
  then have "poll_driver ready (rd i) s (count, evs) = Some (s, count - int (length []), evs @ [])"
    by (auto simp: poll_driver_def)
  with assms show ?thesis by fastforce
qed

end

text \<open>The hub keeps the contract while one of the five consumers of the gyroscope is off.\<close>

definition hub_good :: "'f hub \<Rightarrow> bool" where
  "hub_good s \<longleftrightarrow> enabled_count s < 5"

lemma pending_report_count [simp]: "enabled_count (pending_report E ty s) = enabled_count s"
proof -
  have "mFusionSensors (pending_report E ty s) = mFusionSensors s" by (rule fusion_on_core) simp
  then show ?thesis by (simp add: enabled_count_def)
qed

lemma hub_readEvents_good:
  "hub_good s \<Longrightarrow> hub_good (fst (snd (hub_readEvents E b dLen reads s)))"
  by (rule hub_readEvents_preserves) (simp_all add: hub_good_def)

interpretation hub_driver: sensor_driver "hub_good :: 'f hub \<Rightarrow> bool" "\<lambda>_. True" "hub_read_op E" for E :: "('f, 'd) hub_env"
proof (unfold_locales, goal_cases)
  case (1 s i count)
  obtain b reads where i: "i = (b, reads)" by fastforce
  obtain rs s' evs where r: "hub_readEvents E b count reads s = (rs, s', evs)" by (metis prod_cases3)
  have "hub_good s'" using hub_readEvents_good [OF 1(1), of E b count reads] r by simp
  moreover have "int (length evs) \<le> count"
  proof (cases "count < 1")
    case True
    with r 1(3) show ?thesis by (simp add: hub_readEvents_def)
  next
    case False
    with hub_readEvents_bound [of count E b reads s] 1 r show ?thesis by (simp add: hub_good_def)
  qed
  ultimately show ?case by (simp add: hub_read_op_def i r)
qed

interpretation rear_driver: sensor_driver "\<lambda>s :: 'f rearprox. reader_inv (rp_reader s)" dev_ok "rp_readEvents A" for A :: "'f farith"
proof (unfold_locales, goal_cases)
  case (1 s i count)
  with rp_readEvents_returns [of s i A count] show ?case by auto
qed

section \<open>Routing\<close>

lemma fold_map_insert: "fold map_insert ls m = m ++ (map_of (map (\<lambda>e. (handle e, e)) ls) |` (- dom m))"
proof (induction ls arbitrary: m)
  case (Cons e ls)
  show ?case
    unfolding fold_Cons o_apply Cons.IH
    by (rule ext) (auto simp: map_insert_def map_add_def restrict_map_def split: option.splits)
qed (simp add: restrict_map_def map_add_def)

text \<open>The handles of the sensors offered are distinct, each belongs to a driver, and the map
  finds exactly the offered sensors, with and without the compass.\<close>

theorem offered_sensors_routed:
  "distinct (map handle (sSensorList (new_SensorsPollContext h r1 r2 fs prop)))
   \<and> list_all (\<lambda>e. 0 \<le> handleToDriver (handle e)) (sSensorList (new_SensorsPollContext h r1 r2 fs prop))
   \<and> mIdToSensor (new_SensorsPollContext h r1 r2 fs prop)
      = map_of (map (\<lambda>e. (handle e, e)) (sSensorList (new_SensorsPollContext h r1 r2 fs prop)))"
proof -
  have "distinct (map handle (sSensorList_init @ eCompass_sensors))"
    "distinct (map handle sSensorList_init)"
    "list_all (\<lambda>e. 0 \<le> handleToDriver (handle e)) (sSensorList_init @ eCompass_sensors)"
    "list_all (\<lambda>e. 0 \<le> handleToDriver (handle e)) sSensorList_init"
    by code_simp+
  then have "distinct (map handle (ecompass_list prop))" "list_all (\<lambda>e. 0 \<le> handleToDriver (handle e)) (ecompass_list prop)"
    unfolding ecompass_list_def by presburger+
  then show ?thesis
    by (simp add: new_SensorsPollContext_def Let_def fold_map_insert restrict_map_def)
qed

text \<open>A handle that is not offered is refused by every call, without effect.\<close>

theorem unknown_handle_refused:
  assumes "mIdToSensor c k = None"
  shows "activate E k en c = (- EINVAL, c) \<and> ctx_setDelay E k ns c = (- EINVAL, c)
    \<and> batch E k flags ns timeout c = (- EINVAL, c) \<and> ctx_flush E k c = (- EINVAL, c)"
  using assms by (simp add: activate_def ctx_setDelay_def batch_def ctx_flush_def Let_def)

definition plain_ctx :: "real poll_ctx" where
  "plain_ctx = new_SensorsPollContext plain_hub plain_rearprox plain_rearprox
     \<lparr>content = (\<lambda>_. None), write_fails = (\<lambda>_. False)\<rparr> None"

theorem unknown_handle_refused_witness:
  "activate plain_env 14 1 plain_ctx = (- EINVAL, plain_ctx)"
proof -
  have "14 \<notin> handle ` set (sSensorList_init @ eCompass_sensors)" by code_simp
  then have "mIdToSensor plain_ctx 14 = None"
    by (simp add: plain_ctx_def new_SensorsPollContext_def ecompass_list_def fold_map_insert restrict_map_def
        map_of_eq_None_iff image_image image_Un)
  then show ?thesis using unknown_handle_refused [of plain_ctx 14 plain_env 1] by blast
qed

text \<open>A flush of an offered sensor that is not one-shot is passed to the hub, for the rear
  proximity sensors too, and its answer returned; a one-shot sensor is refused.\<close>

theorem flush_goes_to_hub:
  assumes "mIdToSensor c k = Some e" and "handle_num MIN_SENSOR_ID < k" and "k < handle_num MAX_SENSOR_ID"
  shows "fst (ctx_flush E k c) = (if reporting e = One_Shot then - EINVAL else hub_ioctl E (requests (ctx_hub c)) (SET_FLUSH k))
    \<and> requests (ctx_hub (snd (ctx_flush E k c))) = requests (ctx_hub c) @ (if reporting e = One_Shot then [] else [SET_FLUSH k])
    \<and> ctx_rear (snd (ctx_flush E k c)) = ctx_rear c \<and> ctx_rear2 (snd (ctx_flush E k c)) = ctx_rear2 c"
  using assms by (simp add: ctx_flush_def hub_flush_def hub_send_def)

lemma plain_ctx_map: "mIdToSensor plain_ctx = map_of (map (\<lambda>e. (handle e, e)) (sSensorList_init @ eCompass_sensors))"
  by (simp add: plain_ctx_def new_SensorsPollContext_def ecompass_list_def fold_map_insert restrict_map_def)

theorem flush_goes_to_hub_witness:
  "requests (ctx_hub (snd (ctx_flush plain_env 22 plain_ctx))) = requests plain_hub @ [SET_FLUSH 22]"
proof -
  have "map_of (map (\<lambda>e. (handle e, e)) (sSensorList_init @ eCompass_sensors)) 22 = Some rearProxSensor" by code_simp
  then have m: "mIdToSensor plain_ctx 22 = Some rearProxSensor" by (simp only: plain_ctx_map)
  show ?thesis
    using flush_goes_to_hub [OF m, of plain_env]
    by (simp add: handle_num_def rearProxSensor_def) (simp add: plain_ctx_def new_SensorsPollContext_def Let_def)
qed

section \<open>Polling\<close>

definition ctx_good :: "'f poll_ctx \<Rightarrow> bool" where
  "ctx_good c \<longleftrightarrow> hub_good (ctx_hub c) \<and> reader_inv (rp_reader (ctx_rear c)) \<and> reader_inv (rp_reader (ctx_rear2 c))"

definition input_fair :: "poll_input \<Rightarrow> bool" where
  "input_fair inp \<longleftrightarrow> dev_ok (in_rear inp) \<and> dev_ok (in_rear2 inp)"

lemma pollEvents_ready:
  assumes good: "ctx_good c" and fair: "input_fair inp" and count: "1 \<le> count"
    and ready: "poll_wait answers = Some (Some ready)"
  shows "\<exists>evs c' s n1. pollEvents E answers inp True count c = Some (int (length evs), evs, c') \<and> ctx_good c'
    \<and> int (length evs) \<le> count \<and> sSensorList c' = sSensorList c \<and> mIdToSensor c' = mIdToSensor c
    \<and> poll_driver (ready sensor_hub) (hub_read_op E (in_buff inp, in_reads inp)) (ctx_hub c) (count, []) = Some (s, n1)
    \<and> ctx_hub c' = s \<and> length (snd n1) \<le> length evs"
proof -
  obtain s e1 where 1: "poll_driver (ready sensor_hub) (hub_read_op E (in_buff inp, in_reads inp)) (ctx_hub c) (count, [])
      = Some (s, count - int (length e1), [] @ e1)" "hub_good s" "int (length e1) \<le> count"
    using hub_driver.poll_driver_fits [where s = "ctx_hub c" and i = "(in_buff inp, in_reads inp)" and count = count
        and ready = "ready sensor_hub" and E = E and evs = "[]"] good count
    by (auto simp: ctx_good_def)
  obtain r e2 where 2: "poll_driver (ready rearprox) (rp_readEvents (flt E) (in_rear inp)) (ctx_rear c) (count - int (length e1), e1)
      = Some (r, count - int (length e1) - int (length e2), e1 @ e2)" "reader_inv (rp_reader r)" "int (length e2) \<le> count - int (length e1)"
    using rear_driver.poll_driver_fits [where s = "ctx_rear c" and i = "in_rear inp" and count = "count - int (length e1)"
        and ready = "ready rearprox" and A = "flt E" and evs = e1] good fair 1
    by (auto simp: ctx_good_def input_fair_def)
  obtain r2 e3 where 3: "poll_driver (ready rearprox_2) (rp_readEvents (flt E) (in_rear2 inp)) (ctx_rear2 c)
      (count - int (length e1) - int (length e2), e1 @ e2)
      = Some (r2, count - int (length e1) - int (length e2) - int (length e3), (e1 @ e2) @ e3)" "reader_inv (rp_reader r2)"
      "int (length e3) \<le> count - int (length e1) - int (length e2)"
    using rear_driver.poll_driver_fits [where s = "ctx_rear2 c" and i = "in_rear2 inp"
        and count = "count - int (length e1) - int (length e2)" and ready = "ready rearprox_2" and A = "flt E" and evs = "e1 @ e2"] good fair 2
    by (auto simp: ctx_good_def input_fair_def)
  have "pollEvents E answers inp True count c
      = Some (int (length (e1 @ e2 @ e3)), e1 @ e2 @ e3, c\<lparr>ctx_hub := s, ctx_rear := r, ctx_rear2 := r2\<rparr>)"
    using count ready 1(1) 2(1) 3(1) by (simp add: pollEvents_def)
  moreover have "ctx_good (c\<lparr>ctx_hub := s, ctx_rear := r, ctx_rear2 := r2\<rparr>)" using 1 2 3 by (simp add: ctx_good_def)
  moreover have "int (length (e1 @ e2 @ e3)) \<le> count" using 3(3) by simp
  ultimately show ?thesis using 1(1) by force
qed

text \<open>C37: \<open>pollEvents\<close> returns the number of events it wrote, never more than it was given
  room for, and keeps the drivers in a good state, while not all five consumers of the gyroscope are
  enabled and the devices deliver no more than asked.\<close>

theorem pollEvents_fits:
  assumes "ctx_good c" and "input_fair inp" and "pollEvents E answers inp True count c = Some (ret, evs, c')"
    and "1 \<le> count"
  shows "ret = int (length evs) \<and> ret \<le> count \<and> ctx_good c'"
proof -
  consider "poll_wait answers = Some None" | r where "poll_wait answers = Some (Some r)"
    using assms(3,4) by (cases "poll_wait answers") (auto simp: pollEvents_def)
  then show ?thesis
  proof cases
    case 1
    with assms show ?thesis by (auto simp: pollEvents_def)
  next
    case 2
    from pollEvents_ready [OF assms(1,2,4) 2, of E] assms(3) show ?thesis by auto
  qed
qed

definition plain_input :: poll_input where
  "plain_input = \<lparr>in_buff = gyro_sample, in_reads = [Read_Message gyro_sample],
     in_rear = (\<lambda>n. Read_Events (take n [no_event]) 0), in_rear2 = (\<lambda>n. Read_Error 5)\<rparr>"

lemma plain_ctx_good: "ctx_good plain_ctx" and plain_input_fair: "input_fair plain_input"
proof -
  have "enabled_count plain_hub = 0"
    using plain_hub_core by (simp add: enabled_count_def gyro_consumers_def core_def fusion_table_init_def)
  then show "ctx_good plain_ctx"
    by (simp add: ctx_good_def hub_good_def plain_ctx_def new_SensorsPollContext_def Let_def plain_rearprox_inv)
  show "input_fair plain_input" by (simp add: input_fair_def dev_ok_def plain_input_def)
qed

theorem pollEvents_fits_witness:
  "\<exists>evs c'. pollEvents plain_env [Poll_Errno EINTR, Poll_Ready (\<lambda>_. True)] plain_input True 2 plain_ctx = Some (int (length evs), evs, c')
     \<and> int (length evs) \<le> 2 \<and> ctx_good c'"
proof -
  have "poll_wait [Poll_Errno EINTR, Poll_Ready (\<lambda>_. True)] = Some (Some (\<lambda>_. True))" by simp
  from pollEvents_ready [OF plain_ctx_good plain_input_fair _ this, of 2 plain_env]
  obtain evs c' where r: "pollEvents plain_env [Poll_Errno EINTR, Poll_Ready (\<lambda>_. True)] plain_input True 2 plain_ctx
      = Some (int (length evs), evs, c')" by auto
  from pollEvents_fits [OF plain_ctx_good plain_input_fair r] r show ?thesis by auto
qed

text \<open>The loop only adds events.\<close>

lemma hub_read_loop_extends:
  "hub_read_loop E dLen reads (b, s, evs) = (rs, b', s', evs') \<Longrightarrow> length evs \<le> length evs'"
proof (induction reads arbitrary: b s evs)
  case (Cons r rs0)
  show ?case
  proof (cases "int (length evs) < dLen - 3")
    case True
    obtain s1 new where st: "hub_message_step E (case r of Read_Message m \<Rightarrow> m | Read_Failed \<Rightarrow> b) s = (s1, new)" by fastforce
    with Cons.prems True have "length (evs @ new) \<le> length evs'" by (intro Cons.IH) auto
    then show ?thesis by simp
  qed (use Cons.prems in auto)
qed simp

lemma hub_readEvents_nonempty:
  assumes "4 \<le> dLen" and "snd (hub_message_step E m s) \<noteq> []"
  shows "snd (snd (hub_readEvents E b dLen (Read_Message m # reads) s)) \<noteq> []"
proof -
  obtain s1 new where st: "hub_message_step E m s = (s1, new)" by fastforce
  obtain rs b' s' evs where l: "hub_read_loop E dLen reads (m, s1, new) = (rs, b', s', evs)" by (metis prod_cases4)
  from hub_read_loop_extends [OF l] assms st l show ?thesis by (auto simp: hub_readEvents_def)
qed

text \<open>C39: the poll of the module returns once a message that makes an event is there: with room
  for four events, the hub ready and its first message making an event, \<open>poll__poll\<close> returns
  in the first round a positive number of events that fits the room.\<close>

theorem poll_returns_events:
  assumes "ctx_good c" and "input_fair inp" and "4 \<le> count"
    and "poll_wait answers = Some (Some ready)" and "ready sensor_hub"
    and "in_reads inp = Read_Message m # reads" and "snd (hub_message_step E m (ctx_hub c)) \<noteq> []"
  shows "\<exists>evs c'. poll__poll E ((answers, inp) # rounds) True count c = Some (int (length evs), evs, c')
    \<and> 1 \<le> length evs \<and> int (length evs) \<le> count"
proof -
  from assms(3) have "1 \<le> count" by simp
  from pollEvents_ready [OF assms(1,2) this assms(4), of E] obtain evs c' s n1 where p:
    "pollEvents E answers inp True count c = Some (int (length evs), evs, c')" "int (length evs) \<le> count"
    "poll_driver (ready sensor_hub) (hub_read_op E (in_buff inp, in_reads inp)) (ctx_hub c) (count, []) = Some (s, n1)"
    "length (snd n1) \<le> length evs" by blast
  have "snd n1 = snd (snd (hub_readEvents E (in_buff inp) count (Read_Message m # reads) (ctx_hub c)))"
    using p(3) assms(3,5,6) by (auto simp: poll_driver_def hub_read_op_def split: prod.splits)
  with hub_readEvents_nonempty [OF assms(3,7)] p(4) have "1 \<le> length evs" by (cases evs) auto
  with p show ?thesis by auto
qed

theorem poll_returns_events_witness:
  "\<exists>evs c'. poll__poll plain_env [([Poll_Ready (\<lambda>_. True)], plain_input\<lparr>in_reads := [Read_Message (steps_message 3)]\<rparr>)] True 8 plain_ctx
      = Some (int (length evs), evs, c') \<and> 1 \<le> length evs"
proof -
  let ?inp = "plain_input\<lparr>in_reads := [Read_Message (steps_message 3)]\<rparr>"
  have "input_fair ?inp" using plain_input_fair by (simp add: input_fair_def)
  moreover have "snd (hub_message_step plain_env (steps_message 3) (ctx_hub plain_ctx)) \<noteq> []"
    by (simp add: hub_message_step_def steps_message_def on_steps_def Let_def)
  ultimately show ?thesis
    using poll_returns_events [OF plain_ctx_good, of ?inp 8 "[Poll_Ready (\<lambda>_. True)]" "\<lambda>_. True" "steps_message 3" "[]" plain_env "[]"]
    by auto
qed

text \<open>A framework that polls with room for fewer than four events while only the hub has data
  never returns: every round reads nothing, and the loop spins.\<close>

theorem poll_spins_on_small_buffer:
  assumes "1 \<le> count" and "count < 4"
    and "\<And>answers inp. (answers, inp) \<in> set rounds \<Longrightarrow>
      poll_wait answers = Some (Some (\<lambda>i. i = sensor_hub))"
  shows "poll__poll E rounds True count c = None"
  using assms(3)
proof (induction rounds arbitrary: c)
  case (Cons a rounds)
  obtain answers inp where a: "a = (answers, inp)" by fastforce
  have w: "poll_wait answers = Some (Some (\<lambda>i. i = sensor_hub))" using Cons.prems [of answers inp] a by simp
  obtain s where s: "snd (hub_readEvents E (in_buff inp) count (in_reads inp) (ctx_hub c)) = (s, [])"
    using assms(2) by (cases "hub_readEvents E (in_buff inp) count (in_reads inp) (ctx_hub c)"; cases "in_reads inp")
      (auto simp: hub_readEvents_def split: if_splits)
  have "pollEvents E answers inp True count c = Some (0, [], c\<lparr>ctx_hub := s\<rparr>)"
    using assms(1) w s by (simp add: pollEvents_def poll_driver_def hub_read_op_def rearprox_def rearprox_2_def sensor_hub_def)
  moreover have "poll__poll E rounds True count (c\<lparr>ctx_hub := s\<rparr>) = None"
    using Cons.prems by (intro Cons.IH) (meson list.set_intros(2))
  ultimately show ?case by (simp add: a)
qed simp

theorem poll_spins_on_small_buffer_witness:
  "poll__poll plain_env (replicate 1000 ([Poll_Ready (\<lambda>i. i = sensor_hub)], plain_input)) True 3 plain_ctx = None"
  by (rule poll_spins_on_small_buffer) auto

end
