(* ===== verification/Light_Service.thy ===== *)
theory Light_Service
  imports C_Text
begin

unbundle bit_operations_syntax

text \<open>
  The light service (\<open>light/Light.cpp\<close>): the request of a light is turned into the decimal
  text of a brightness and written to the attribute of the light. Three of the supported types share
  the charging LED. A write that fails is not noticed by the code.
\<close>

section \<open>Types and requests\<close>

text \<open>The types of the HIDL interface, in its order.\<close>

datatype light_type = BACKLIGHT | KEYBOARD | BUTTONS | BATTERY | NOTIFICATIONS | ATTENTION | BLUETOOTH | WIFI

datatype light_status = SUCCESS | LIGHT_NOT_SUPPORTED

definition LED_LIGHT_OFF :: int where "LED_LIGHT_OFF = 0"
definition LED_LIGHT_BLINK_FAST :: int where "LED_LIGHT_BLINK_FAST = 1"
definition LED_LIGHT_SOLID_ON :: int where "LED_LIGHT_SOLID_ON = 3"

definition LCD_LED_BRIGHTNESS :: path where "LCD_LED_BRIGHTNESS = ''/sys/class/leds/lcd-backlight/brightness''"
definition CHARGING_LED_BRIGHTNESS :: path where "CHARGING_LED_BRIGHTNESS = ''/sys/class/leds/charging/brightness''"

section \<open>Operations\<close>

definition set_text :: "path \<Rightarrow> string \<Rightarrow> fsys \<Rightarrow> fsys" where
  "set_text p v fs = snd (write_file fs p v)"

definition set_int :: "path \<Rightarrow> int \<Rightarrow> fsys \<Rightarrow> fsys" where
  "set_int p v fs = set_text p (show_int v) fs"

definition is_lit :: "32 word \<Rightarrow> 32 word" where
  "is_lit color = color AND 0x00ffffff"

definition rgbToBrightness :: "32 word \<Rightarrow> 32 word" where
  "rgbToBrightness state_color =
     (let color = state_color AND 0x00ffffff
      in drop_bit 8 (77 * (drop_bit 16 color AND 0xff) + 150 * (drop_bit 8 color AND 0xff) + 29 * (color AND 0xff)))"

definition handleBacklight :: "32 word \<Rightarrow> fsys \<Rightarrow> fsys" where
  "handleBacklight color = set_int LCD_LED_BRIGHTNESS (uint (rgbToBrightness color))"

definition handleNotification :: "32 word \<Rightarrow> fsys \<Rightarrow> fsys" where
  "handleNotification color =
     set_int CHARGING_LED_BRIGHTNESS (if is_lit color \<noteq> 0 then LED_LIGHT_BLINK_FAST else LED_LIGHT_OFF)"

definition handleBattery :: "32 word \<Rightarrow> fsys \<Rightarrow> fsys" where
  "handleBattery color =
     set_int CHARGING_LED_BRIGHTNESS (if is_lit color \<noteq> 0 then LED_LIGHT_SOLID_ON else LED_LIGHT_OFF)"

text \<open>The map of the supported types, in the order of its keys.\<close>

definition lights :: "(light_type \<times> (32 word \<Rightarrow> fsys \<Rightarrow> fsys)) list" where
  "lights = [(BACKLIGHT, handleBacklight), (BATTERY, handleBattery),
             (NOTIFICATIONS, handleNotification), (ATTENTION, handleNotification)]"

definition setLight :: "light_type \<Rightarrow> 32 word \<Rightarrow> fsys \<Rightarrow> light_status \<times> fsys" where
  "setLight ty color fs =
     (case map_of lights ty of
        None \<Rightarrow> (LIGHT_NOT_SUPPORTED, fs)
      | Some handler \<Rightarrow> (SUCCESS, handler color fs))"

definition getSupportedTypes :: "light_type list" where
  "getSupportedTypes = map fst lights"

section \<open>Brightness\<close>

lemma byte_le: "uint (w AND 0xff :: 32 word) \<le> 255"
proof -
  have "w AND 0xff \<le> 0xff" by (rule word_and_le1)
  then show ?thesis by (simp add: word_le_def)
qed

lemma rgbToBrightness_value:
  "uint (rgbToBrightness color) =
     (77 * uint (drop_bit 16 color AND 0xff) + 150 * uint (drop_bit 8 color AND 0xff) + 29 * uint (color AND 0xff)) div 256"
proof -
  have k: "(0xff :: 32 word) = mask 8" "(0x00ffffff :: 32 word) = mask 24"
    by (simp_all add: mask_eq_exp_minus_1)
  have m: "drop_bit 16 (color AND 0x00ffffff) AND 0xff = drop_bit 16 color AND 0xff"
    "drop_bit 8 (color AND 0x00ffffff) AND 0xff = drop_bit 8 color AND 0xff"
    "(color AND 0x00ffffff) AND 0xff = color AND 0xff"
    unfolding k by (rule bit_eqI; auto simp: bit_simps)+
  have sum: "uint (77 * x + 150 * y + 29 * z) = 77 * uint x + 150 * uint y + 29 * uint z"
    if "uint x \<le> 255" "uint y \<le> 255" "uint z \<le> 255" for x y z :: "32 word"
  proof -
    have "uint (77 * x + 150 * y + 29 * z) = (77 * uint x + 150 * uint y + 29 * uint z) mod 2 ^ 32"
      by (simp add: uint_word_ariths mod_simps)
    also have "\<dots> = 77 * uint x + 150 * uint y + 29 * uint z"
      using that by (intro mod_pos_pos_trivial) simp_all
    finally show ?thesis .
  qed
  have "uint (drop_bit 8 w) = uint w div 256" for w :: "32 word"
    by (simp only: drop_bit_eq_div uint_div) simp
  then show ?thesis
    unfolding rgbToBrightness_def Let_def m by (simp only: sum [OF byte_le byte_le byte_le])
qed

lemma rgbToBrightness_le: "uint (rgbToBrightness color) \<le> 255"
  using byte_le [of "drop_bit 16 color"] byte_le [of "drop_bit 8 color"] byte_le [of color]
  unfolding rgbToBrightness_value by linarith

section \<open>Properties\<close>

definition blank_fs :: fsys where
  "blank_fs = \<lparr>content = (\<lambda>_. None), write_fails = (\<lambda>_. False)\<rparr>"

text \<open>A request for the backlight writes a brightness within the range of the LED, the
  weighted mean of the colour bytes without the alpha byte, touches no other file and reports
  success.\<close>

theorem setLight_backlight:
  assumes "\<not> write_fails fs LCD_LED_BRIGHTNESS"
  shows "\<exists>b. 0 \<le> b \<and> b \<le> 255
    \<and> b = (77 * uint (drop_bit 16 color AND 0xff) + 150 * uint (drop_bit 8 color AND 0xff) + 29 * uint (color AND 0xff)) div 256
    \<and> fst (setLight BACKLIGHT color fs) = SUCCESS
    \<and> read_file (snd (setLight BACKLIGHT color fs)) LCD_LED_BRIGHTNESS = Some (show_int b)
    \<and> (p = LCD_LED_BRIGHTNESS \<or> read_file (snd (setLight BACKLIGHT color fs)) p = read_file fs p)"
proof (intro exI conjI)
  let ?b = "uint (rgbToBrightness color)"
  show "0 \<le> ?b" "?b \<le> 255" by (simp_all add: rgbToBrightness_le)
  show "?b = (77 * uint (drop_bit 16 color AND 0xff) + 150 * uint (drop_bit 8 color AND 0xff) + 29 * uint (color AND 0xff)) div 256"
    by (rule rgbToBrightness_value)
  show "fst (setLight BACKLIGHT color fs) = SUCCESS" by (simp add: setLight_def lights_def)
  show "read_file (snd (setLight BACKLIGHT color fs)) LCD_LED_BRIGHTNESS = Some (show_int ?b)"
    using assms by (simp add: setLight_def lights_def handleBacklight_def set_int_def set_text_def fstore_simps)
  show "p = LCD_LED_BRIGHTNESS \<or> read_file (snd (setLight BACKLIGHT color fs)) p = read_file fs p"
    by (simp add: setLight_def lights_def handleBacklight_def set_int_def set_text_def fstore_simps)
qed

theorem setLight_backlight_witness:
  "\<exists>b. b \<le> 255 \<and> read_file (snd (setLight BACKLIGHT 0xffffffff blank_fs)) LCD_LED_BRIGHTNESS = Some (show_int b)"
  using setLight_backlight [of blank_fs "0xffffffff" "''''"] by (auto simp: blank_fs_def)

text \<open>What a request asks of the charging LED.\<close>

definition led_value :: "light_type \<Rightarrow> 32 word \<Rightarrow> int option" where
  "led_value ty color =
     (case ty of
        BATTERY \<Rightarrow> Some (if is_lit color \<noteq> 0 then LED_LIGHT_SOLID_ON else LED_LIGHT_OFF)
      | NOTIFICATIONS \<Rightarrow> Some (if is_lit color \<noteq> 0 then LED_LIGHT_BLINK_FAST else LED_LIGHT_OFF)
      | ATTENTION \<Rightarrow> Some (if is_lit color \<noteq> 0 then LED_LIGHT_BLINK_FAST else LED_LIGHT_OFF)
      | _ \<Rightarrow> None)"

definition run_lights :: "(light_type \<times> 32 word) list \<Rightarrow> fsys \<Rightarrow> fsys" where
  "run_lights = fold (\<lambda>(ty, color) fs. snd (setLight ty color fs))"

lemma setLight_led:
  "\<not> write_fails fs CHARGING_LED_BRIGHTNESS \<Longrightarrow>
   read_file (snd (setLight ty color fs)) CHARGING_LED_BRIGHTNESS
     = (case led_value ty color of None \<Rightarrow> read_file fs CHARGING_LED_BRIGHTNESS | Some v \<Rightarrow> Some (show_int v))"
  by (cases ty) (simp_all add: setLight_def lights_def handleBacklight_def handleBattery_def handleNotification_def
      set_int_def set_text_def fstore_simps led_value_def LCD_LED_BRIGHTNESS_def CHARGING_LED_BRIGHTNESS_def)

lemma setLight_refusals: "write_fails (snd (setLight ty color fs)) p = write_fails fs p"
  by (cases ty) (simp_all add: setLight_def lights_def handleBacklight_def handleBattery_def handleNotification_def
      set_int_def set_text_def fstore_simps)

text \<open>Battery, notifications and attention share one LED: after any sequence of
  requests it shows what the last of those three asked for, so that ending a notification switches
  off the light of the battery.\<close>

theorem charging_led_last_request:
  assumes "\<not> write_fails fs CHARGING_LED_BRIGHTNESS"
  shows "read_file (run_lights calls fs) CHARGING_LED_BRIGHTNESS =
    fold (\<lambda>(ty, color) r. case led_value ty color of None \<Rightarrow> r | Some v \<Rightarrow> Some (show_int v)) calls
      (read_file fs CHARGING_LED_BRIGHTNESS)"
  using assms
proof (induction calls arbitrary: fs)
  case (Cons c calls)
  obtain ty color where c: "c = (ty, color)" by fastforce
  have "\<not> write_fails (snd (setLight ty color fs)) CHARGING_LED_BRIGHTNESS"
    using Cons.prems by (simp add: setLight_refusals)
  from Cons.IH [OF this] setLight_led [OF Cons.prems, of ty color] show ?case by (simp add: run_lights_def c)
qed (simp add: run_lights_def)

theorem charging_led_last_request_witness:
  "read_file (run_lights [(BATTERY, 0xff00ff00), (NOTIFICATIONS, 0xffffffff), (NOTIFICATIONS, 0xff000000)] blank_fs)
     CHARGING_LED_BRIGHTNESS = Some (show_int LED_LIGHT_OFF)"
proof -
  have "is_lit 0xff000000 = 0" by (simp add: is_lit_def)
  then show ?thesis
    using charging_led_last_request [of blank_fs
        "[(BATTERY, 0xff00ff00), (NOTIFICATIONS, 0xffffffff), (NOTIFICATIONS, 0xff000000)]"]
    by (simp add: led_value_def blank_fs_def)
qed

text \<open>A type that is not offered is refused without effect, and every offered one is
  served.\<close>

theorem setLight_supported:
  "(fst (setLight ty color fs) = SUCCESS) = (ty \<in> set getSupportedTypes)
   \<and> (ty \<in> set getSupportedTypes \<or> setLight ty color fs = (LIGHT_NOT_SUPPORTED, fs))"
  by (cases ty) (simp_all add: setLight_def lights_def getSupportedTypes_def)

end
