(* ===== verification/Vibrator_Service.thy ===== *)
theory Vibrator_Service
  imports C_Text Quaternions
begin

text \<open>
  The vibrator service (\<open>vibrator/Vibrator.cpp\<close> and the opening of its attributes in
  \<open>vibrator/service.cpp\<close>). The two output attributes are streams that stay open: once a write
  has failed, a stream stays failed and nothing reaches the attribute any more. \<open>double\<close>
  arithmetic and \<open>lround\<close> are parameters; the scaling of amplitudes is proved over the reals.
\<close>

section \<open>The platform and the state\<close>

datatype vib_status = OK | UNKNOWN_ERROR | BAD_VALUE | UNSUPPORTED_OPERATION
datatype effect = CLICK | OTHER_EFFECT
datatype effect_strength = LIGHT | MEDIUM | STRONG | OTHER_STRENGTH

datatype vib_attr = VIB_ENABLE | VTG_LEVEL

record 'd vib_env =
  vdbl :: "'d farith"
  lround :: "'d \<Rightarrow> int"
  write_ok :: "(vib_attr \<times> string) list \<Rightarrow> vib_attr \<Rightarrow> bool"

text \<open>\<open>out\<close> holds what reached the attributes, oldest first.\<close>

record vibrator =
  enable_bad :: bool
  amplitude_bad :: bool
  defaultVoltage :: "32 word"
  minVoltage :: "32 word"
  maxVoltage :: "32 word"
  vout :: "(vib_attr \<times> string) list"

section \<open>Construction\<close>

definition DEFAULT_VTG :: "32 word" where "DEFAULT_VTG = 127"
definition DEFAULT_MIN_VTG :: "32 word" where "DEFAULT_MIN_VTG = 32"
definition DEFAULT_MAX_VTG :: "32 word" where "DEFAULT_MAX_VTG = 127"
definition CLICK_TIMING_MS :: "32 word" where "CLICK_TIMING_MS = 20"

text \<open>\<open>operator>>\<close> stores 0 when there is no number and the largest value when the number
  does not fit.\<close>

definition extract_u32 :: "string \<Rightarrow> 32 word" where
  "extract_u32 txt =
     (case scan_int txt of
        None \<Rightarrow> 0
      | Some (i, _) \<Rightarrow> if \<bar>i\<bar> < 2 ^ 32 then word_of_int i else - 1)"

definition get_voltage :: "string option \<Rightarrow> 32 word \<Rightarrow> 32 word" where
  "get_voltage file defaultValue = (case file of None \<Rightarrow> defaultValue | Some txt \<Rightarrow> extract_u32 txt)"

definition new_Vibrator :: "string option \<Rightarrow> string option \<Rightarrow> string option \<Rightarrow> vibrator" where
  "new_Vibrator vtg_default vtg_min vtg_max =
     \<lparr>enable_bad = False, amplitude_bad = False, defaultVoltage = get_voltage vtg_default DEFAULT_VTG,
      minVoltage = get_voltage vtg_min DEFAULT_MIN_VTG, maxVoltage = get_voltage vtg_max DEFAULT_MAX_VTG, vout = []\<rparr>"

text \<open>The service starts only when all five attributes open; the answer is the negated
  \<open>errno\<close> of the first that does not. An opening is \<open>Inl\<close> of an \<open>errno\<close> or \<open>Inr\<close> of the
  content.\<close>

definition registerVibratorService :: "int + string \<Rightarrow> int + string \<Rightarrow> int + string \<Rightarrow> int + string \<Rightarrow> int + string \<Rightarrow>
    int + vibrator" where
  "registerVibratorService enable vtg_default amplitude vtg_min vtg_max =
     (case enable of Inl e \<Rightarrow> Inl (- e) | Inr _ \<Rightarrow>
      case vtg_default of Inl e \<Rightarrow> Inl (- e) | Inr d \<Rightarrow>
      case amplitude of Inl e \<Rightarrow> Inl (- e) | Inr _ \<Rightarrow>
      case vtg_min of Inl e \<Rightarrow> Inl (- e) | Inr mi \<Rightarrow>
      case vtg_max of Inl e \<Rightarrow> Inl (- e) | Inr ma \<Rightarrow>
        Inr (new_Vibrator (Some d) (Some mi) (Some ma)))"

section \<open>Operations\<close>

definition newline_text :: string where "newline_text = [CHR 0x0A]"

definition put_enable :: "'d vib_env \<Rightarrow> int \<Rightarrow> vibrator \<Rightarrow> vibrator" where
  "put_enable V n s =
     (if enable_bad s then s
      else if write_ok V (vout s) VIB_ENABLE then s\<lparr>vout := vout s @ [(VIB_ENABLE, show_int n @ newline_text)]\<rparr>
      else s\<lparr>enable_bad := True\<rparr>)"

definition put_amplitude :: "'d vib_env \<Rightarrow> int \<Rightarrow> vibrator \<Rightarrow> vibrator" where
  "put_amplitude V n s =
     (if amplitude_bad s then s
      else if write_ok V (vout s) VTG_LEVEL then s\<lparr>vout := vout s @ [(VTG_LEVEL, show_int n @ newline_text)]\<rparr>
      else s\<lparr>amplitude_bad := True\<rparr>)"

definition vib_on :: "'d vib_env \<Rightarrow> 32 word \<Rightarrow> vibrator \<Rightarrow> vib_status \<times> vibrator" where
  "vib_on V timeout_ms s =
     (let s1 = put_enable V (uint timeout_ms) s in (if enable_bad s1 then UNKNOWN_ERROR else OK, s1))"

definition vib_off :: "'d vib_env \<Rightarrow> vibrator \<Rightarrow> vib_status \<times> vibrator" where
  "vib_off V s = (let s1 = put_enable V 0 s in (if enable_bad s1 then UNKNOWN_ERROR else OK, s1))"

definition supportsAmplitudeControl :: bool where "supportsAmplitudeControl = True"

text \<open>The difference of the voltages is unsigned.\<close>

definition scale_amplitude :: "'d vib_env \<Rightarrow> 8 word \<Rightarrow> vibrator \<Rightarrow> int" where
  "scale_amplitude V amplitude s =
     (let D = vdbl V
      in lround V (f_add D (f_mul D (f_div D (f_of_int D (uint amplitude - 1)) (f_lit D 255 1))
                                    (f_of_int D (uint (maxVoltage s - minVoltage s))))
                           (f_of_int D (uint (minVoltage s)))))"

definition setAmplitude :: "'d vib_env \<Rightarrow> 8 word \<Rightarrow> vibrator \<Rightarrow> vib_status \<times> vibrator" where
  "setAmplitude V amplitude s =
     (if amplitude = 0 then (BAD_VALUE, s)
      else
        let s1 = put_amplitude V (scale_amplitude V amplitude s) s
        in (if amplitude_bad s1 then UNKNOWN_ERROR else OK, s1))"

definition click_amplitude :: "effect_strength \<Rightarrow> 8 word option" where
  "click_amplitude strength =
     (case strength of LIGHT \<Rightarrow> Some 128 | MEDIUM \<Rightarrow> Some 190 | STRONG \<Rightarrow> Some 255 | OTHER_STRENGTH \<Rightarrow> None)"

text \<open>The status and duration given to the caller.\<close>

definition perform :: "'d vib_env \<Rightarrow> effect \<Rightarrow> effect_strength \<Rightarrow> vibrator \<Rightarrow> (vib_status \<times> 32 word) \<times> vibrator" where
  "perform V eff strength s =
     (if eff = CLICK then
        (case click_amplitude strength of
           None \<Rightarrow> ((UNSUPPORTED_OPERATION, 0), s)
         | Some amplitude \<Rightarrow>
             let s1 = snd (vib_on V CLICK_TIMING_MS s); s2 = snd (setAmplitude V amplitude s1)
             in ((OK, CLICK_TIMING_MS), s2))
      else ((UNSUPPORTED_OPERATION, 0), s))"

section \<open>Properties\<close>

text \<open>Exact arithmetic with rounding to the nearest integer, halves away from zero.\<close>

definition real_vib :: "((vib_attr \<times> string) list \<Rightarrow> vib_attr \<Rightarrow> bool) \<Rightarrow> real vib_env" where
  "real_vib ok = \<lparr>vdbl = real_arith,
     lround = (\<lambda>x. if 0 \<le> x then \<lfloor>x + 1 / 2\<rfloor> else - \<lfloor>1 / 2 - x\<rfloor>), write_ok = ok\<rparr>"

text \<open>The scale on integers, and its bounds.\<close>

definition steps_of :: "int \<Rightarrow> int \<Rightarrow> int" where
  "steps_of x R = \<lfloor>(of_int x - 1) / 255 * of_int R + 1 / (2 :: real)\<rfloor>"

lemma round_steps:
  fixes x lo R :: int
  assumes "1 \<le> x" and "0 \<le> R" and "0 \<le> lo"
  shows "lround (real_vib ok) ((of_int x - 1) / 255 * of_int R + of_int lo) = lo + steps_of x R"
proof -
  have "0 \<le> (of_int x - 1) / 255 * (of_int R :: real) + of_int lo"
    using assms by (intro add_nonneg_nonneg mult_nonneg_nonneg divide_nonneg_nonneg) simp_all
  then have "lround (real_vib ok) ((of_int x - 1) / 255 * of_int R + of_int lo)
      = \<lfloor>of_int lo + ((of_int x - 1) / 255 * of_int R + 1 / (2 :: real))\<rfloor>"
    by (simp add: real_vib_def add_ac)
  then show ?thesis by (simp add: steps_of_def)
qed

lemma steps_facts:
  assumes "1 \<le> x" and "x \<le> y" and "y \<le> 255" and R: "0 \<le> R"
  shows "0 \<le> steps_of x R" and "steps_of x R \<le> steps_of y R" and "steps_of y R \<le> R" and "steps_of 1 R = 0"
    and "steps_of 255 R = R \<longleftrightarrow> R \<le> 127"
proof -
  have mono: "(of_int x - 1) / 255 * of_int R \<le> (of_int y - 1) / 255 * (of_int R :: real)"
    using assms by (intro mult_right_mono divide_right_mono) simp_all
  have low: "0 \<le> (of_int x - 1) / 255 * (of_int R :: real)"
    using assms by (intro mult_nonneg_nonneg divide_nonneg_nonneg) simp_all
  have "(of_int y - 1) / 255 * (of_int R :: real) \<le> 1 * of_int R"
    using assms by (intro mult_right_mono) simp_all
  then have top: "(of_int y - 1) / 255 * of_int R + 1 / (2 :: real) < of_int R + 1" by simp
  show "0 \<le> steps_of x R" using low by (simp add: steps_of_def)
  show "steps_of x R \<le> steps_of y R" unfolding steps_of_def using mono by (intro floor_mono) simp
  show "steps_of y R \<le> R" unfolding steps_of_def floor_le_iff using top by simp
  show "steps_of 1 R = 0" by (simp add: steps_of_def)
  have "steps_of 255 R = R \<longleftrightarrow>
      of_int R \<le> (254 :: real) / 255 * of_int R + 1 / 2 \<and> (254 :: real) / 255 * of_int R + 1 / 2 < of_int R + 1"
    by (simp add: steps_of_def floor_eq_iff)
  also have "\<dots> \<longleftrightarrow> (of_int (2 * R) :: real) \<le> of_int 255" using R by (auto simp: field_simps)
  also have "\<dots> \<longleftrightarrow> R \<le> 127" by (simp only: of_int_le_iff) linarith
  finally show "steps_of 255 R = R \<longleftrightarrow> R \<le> 127" .
qed

lemma scale_real:
  assumes "minVoltage s \<le> maxVoltage s" and "a \<noteq> 0"
  shows "scale_amplitude (real_vib ok) a s
    = uint (minVoltage s) + steps_of (uint a) (uint (maxVoltage s) - uint (minVoltage s))"
proof -
  have "1 \<le> uint a" using assms(2) by (simp add: word_neq_0_conv word_less_def)
  moreover have "uint (maxVoltage s - minVoltage s) = uint (maxVoltage s) - uint (minVoltage s)"
    using assms(1) by (simp add: uint_minus_simple_alt)
  moreover have "0 \<le> uint (maxVoltage s) - uint (minVoltage s)" using assms(1) by (simp add: word_le_def)
  ultimately show ?thesis
    using round_steps [of "uint a" "uint (maxVoltage s) - uint (minVoltage s)" "uint (minVoltage s)" ok]
    unfolding scale_amplitude_def Let_def by (simp add: real_vib_def)
qed

text \<open>Over exact arithmetic the voltage grows with the amplitude and stays between the two limits;
  amplitude 1 gives the least voltage, and 255 the greatest only when the limits are at most 127
  apart (the scale divides 254 steps by 255).\<close>

theorem amplitude_scaling:
  assumes "minVoltage s \<le> maxVoltage s" and "a \<noteq> 0" and "a \<le> b"
  shows "uint (minVoltage s) \<le> scale_amplitude (real_vib ok) a s
    \<and> scale_amplitude (real_vib ok) a s \<le> scale_amplitude (real_vib ok) b s
    \<and> scale_amplitude (real_vib ok) b s \<le> uint (maxVoltage s)
    \<and> scale_amplitude (real_vib ok) 1 s = uint (minVoltage s)
    \<and> (scale_amplitude (real_vib ok) 255 s = uint (maxVoltage s) \<longleftrightarrow> uint (maxVoltage s) - uint (minVoltage s) \<le> 127)"
proof -
  let ?R = "uint (maxVoltage s) - uint (minVoltage s)"
  have R: "0 \<le> ?R" using assms(1) by (simp add: word_le_def)
  have a: "1 \<le> uint a" using assms(2) by (simp add: word_neq_0_conv word_less_def)
  have ab: "uint a \<le> uint b" "uint b \<le> 255" using assms(3) uint_bounded [of b] by (simp_all add: word_le_def)
  have "b \<noteq> 0" using a ab by auto
  note sc = scale_real [OF assms(1)]
  have one: "uint (1 :: 8 word) = 1" "uint (255 :: 8 word) = 255" by simp_all
  from steps_facts [OF a ab R] show ?thesis
    by (simp only: sc [OF assms(2)] sc [OF \<open>b \<noteq> 0\<close>] sc [of 1, simplified one, OF one_neq_zero]) (auto simp: sc)
qed

lemma plain_vib_ok: "minVoltage (new_Vibrator None None None) \<le> maxVoltage (new_Vibrator None None None)"
  by (simp add: new_Vibrator_def get_voltage_def DEFAULT_MIN_VTG_def DEFAULT_MAX_VTG_def)

theorem amplitude_scaling_witness:
  "scale_amplitude (real_vib (\<lambda>_ _. True)) 255 (new_Vibrator None None None) = 127"
  using amplitude_scaling [OF plain_vib_ok, of 1 255 "\<lambda>_ _. True"]
  by (simp add: new_Vibrator_def get_voltage_def DEFAULT_MIN_VTG_def DEFAULT_MAX_VTG_def)

text \<open>A click answers OK and its duration whatever happens: when the attributes cannot be
  written any more nothing reaches them, and the caller is told that the click was played.\<close>

theorem perform_hides_failure:
  assumes "eff = CLICK" and "click_amplitude strength = Some amplitude"
    and "enable_bad s" and "amplitude_bad s"
  shows "perform V eff strength s = ((OK, CLICK_TIMING_MS), s)"
  using assms by (auto simp: perform_def vib_on_def setAmplitude_def put_enable_def put_amplitude_def Let_def)

theorem perform_hides_failure_witness:
  "fst (perform (real_vib (\<lambda>_ _. False)) CLICK STRONG ((new_Vibrator None None None)\<lparr>enable_bad := True, amplitude_bad := True\<rparr>))
   = (OK, CLICK_TIMING_MS)"
  by (subst perform_hides_failure) (simp_all add: click_amplitude_def)

text \<open>A click on a working vibrator switches it on for 20 ms and then sets the amplitude of the
  strength asked for, in this order, and nothing else.\<close>

theorem perform_click_trace:
  assumes "click_amplitude strength = Some amplitude" and "\<not> enable_bad s" and "\<not> amplitude_bad s"
    and "\<And>tr attr. write_ok V tr attr"
  shows "vout (snd (perform V CLICK strength s)) = vout s
      @ [(VIB_ENABLE, show_int 20 @ newline_text), (VTG_LEVEL, show_int (scale_amplitude V amplitude s) @ newline_text)]"
proof -
  have "amplitude \<noteq> 0" using assms(1) by (cases strength) (auto simp: click_amplitude_def)
  then show ?thesis
    using assms by (simp add: perform_def vib_on_def setAmplitude_def put_enable_def put_amplitude_def Let_def
        CLICK_TIMING_MS_def scale_amplitude_def)
qed

theorem perform_click_trace_witness:
  "length (vout (snd (perform (real_vib (\<lambda>_ _. True)) CLICK STRONG (new_Vibrator None None None)))) = 2"
  by (subst perform_click_trace [where amplitude = 255])
    (simp_all add: click_amplitude_def new_Vibrator_def real_vib_def)

end
