(* ===== verification/Key_Disabler.thy ===== *)
theory Key_Disabler
  imports C_Text
begin

text \<open>
  The service that disables the home button (\<open>touch/KeyDisabler.cpp\<close>). \<open>std::stoi\<close> throws on a
  text that is no \<open>int\<close>; nothing catches it, the service then ends.
\<close>

section \<open>Operations\<close>

definition kControlPath :: path where "kControlPath = ''/sys/homebutton/enable''"

text \<open>\<open>mHasKeyDisabler\<close>: the node exists when the service starts.\<close>

definition new_KeyDisabler :: "fsys \<Rightarrow> bool" where
  "new_KeyDisabler fs \<longleftrightarrow> content fs kControlPath \<noteq> None"

definition stoi :: "string \<Rightarrow> int option" where
  "stoi s = (case scan_int s of
     None \<Rightarrow> None
   | Some (i, _) \<Rightarrow> if - (2 ^ 31) \<le> i \<and> i < 2 ^ 31 then Some i else None)"

text \<open>\<open>Trim\<close> of libbase is a parameter; \<open>None\<close> is the exception.\<close>

definition kd_isEnabled :: "(string \<Rightarrow> string) \<Rightarrow> bool \<Rightarrow> fsys \<Rightarrow> bool option" where
  "kd_isEnabled trim has fs =
     (if \<not> has then Some False
      else
        case read_file fs kControlPath of
          None \<Rightarrow> Some False
        | Some buf \<Rightarrow> map_option (\<lambda>i. i = 0) (stoi (trim buf)))"

definition kd_setEnabled :: "bool \<Rightarrow> bool \<Rightarrow> fsys \<Rightarrow> bool \<times> fsys" where
  "kd_setEnabled has enabled fs =
     (if \<not> has then (False, fs) else write_file fs kControlPath (if enabled then ''0'' else ''1''))"

section \<open>Properties\<close>

text \<open>A switch of the key disabler that reports success is read back by \<open>isEnabled\<close>, also by a
  service started afterwards, and one that fails changes nothing.\<close>

theorem key_disabler_roundtrip:
  assumes "trims trim" and "kd_setEnabled has b fs = (ok, fs')"
  shows "(ok \<and> kd_isEnabled trim has fs' = Some b \<and> kd_isEnabled trim (new_KeyDisabler fs') fs' = Some b) \<or> (\<not> ok \<and> fs' = fs)"
proof (cases ok)
  case True
  with assms(2) have h: has and w: "\<not> write_fails fs kControlPath"
    and fs': "fs' = snd (write_file fs kControlPath (if b then ''0'' else ''1''))"
    by (auto simp: kd_setEnabled_def write_file_def split: if_splits)
  have r: "read_file fs' kControlPath = Some (if b then ''0'' else ''1'')"
    using w by (simp add: fs' fstore_simps)
  have d: "show_int 0 = ''0''" "show_int 1 = ''1''" by code_simp+
  have t: "trim ''0'' = ''0''" "trim ''1'' = ''1''"
    using trim_show(1) [OF assms(1), of 0] trim_show(1) [OF assms(1), of 1] by (simp_all add: d)
  have s: "stoi ''0'' = Some 0" "stoi ''1'' = Some 1" by code_simp+
  have "kd_isEnabled trim True fs' = Some b"
    using r by (cases b) (simp_all add: kd_isEnabled_def t s)
  moreover have "new_KeyDisabler fs'" using r by (simp add: new_KeyDisabler_def read_file_def)
  ultimately show ?thesis using True h by simp
next
  case False
  with assms(2) show ?thesis by (auto simp: kd_setEnabled_def write_file_def split: if_splits)
qed

theorem key_disabler_roundtrip_witness:
  "kd_isEnabled trim_text True (snd (kd_setEnabled True True \<lparr>content = (\<lambda>_. Some ''1''), write_fails = (\<lambda>_. False)\<rparr>)) = Some True"
  using key_disabler_roundtrip [OF trims_trim_text,
      of True True "\<lparr>content = (\<lambda>_. Some ''1''), write_fails = (\<lambda>_. False)\<rparr>" True]
  by (simp add: kd_setEnabled_def write_file_def)

end
