(* ===== verification/Init_Props.thy ===== *)
theory Init_Props
  imports Main
begin

text \<open>
  The properties that init sets for the device (\<open>init/init_cedric.cpp\<close>). A store maps the name of a
  property to its value. \<open>property_set\<close> belongs to init and is a parameter: it is documented to set a
  property, except that a property whose name begins with \<open>ro.\<close> is written once only.
\<close>

type_synonym props = "string \<rightharpoonup> string"

definition GetProperty :: "props \<Rightarrow> string \<Rightarrow> string \<Rightarrow> string" where
  "GetProperty m p dflt = (case m p of None \<Rightarrow> dflt | Some v \<Rightarrow> v)"

text \<open>Updating or adding, whichever applies: the write-once rule is bypassed.\<close>

definition property_override :: "string \<Rightarrow> string \<Rightarrow> props \<Rightarrow> props" where
  "property_override p v m = (case m p of Some _ \<Rightarrow> m(p \<mapsto> v) | None \<Rightarrow> m(p \<mapsto> v))"

definition property_override_dual :: "string \<Rightarrow> string \<Rightarrow> string \<Rightarrow> props \<Rightarrow> props" where
  "property_override_dual system_prop vendor_prop v m =
     property_override vendor_prop v (property_override system_prop v m)"

definition check_device :: "(string \<Rightarrow> string \<Rightarrow> props \<Rightarrow> props) \<Rightarrow> nat \<Rightarrow> props \<Rightarrow> props" where
  "check_device property_set totalram m =
     (if totalram > 2048 * 1024 * 1024 then property_set ''ro.boot.ram'' ''3GB'' m
      else property_set ''ro.boot.ram'' ''2GB'' m)"

definition num_sims :: "(string \<Rightarrow> string \<Rightarrow> props \<Rightarrow> props) \<Rightarrow> props \<Rightarrow> props" where
  "num_sims property_set m =
     (let dualsim = GetProperty m ''ro.boot.dualsim'' '''';
          m1 = property_set ''ro.hw.dualsim'' dualsim m
      in if dualsim = ''true'' then property_set ''persist.radio.multisim.config'' ''dsds'' m1
         else property_set ''persist.radio.multisim.config'' '''' m1)"

definition vendor_load_properties :: "(string \<Rightarrow> string \<Rightarrow> props \<Rightarrow> props) \<Rightarrow> props \<Rightarrow> props" where
  "vendor_load_properties property_set m =
     (let sku = GetProperty m ''ro.boot.hardware.sku'' '''';
          m1 = property_override_dual ''ro.product.model'' ''ro.vendor.product.model'' sku m;
          device = GetProperty m1 ''ro.boot.device'' '''';
          radio = GetProperty m1 ''ro.boot.radio'' '''';
          m2 = property_set ''ro.vendor.hw.device'' device m1;
          m3 = property_set ''ro.vendor.hw.radio'' radio m2;
          m4 = property_set ''ro.hw.fps'' ''true'' m3;
          m5 = property_set ''ro.hw.imager'' ''13MP'' m4
      in num_sims property_set m5)"

text \<open>The documented behaviour of \<open>property_set\<close>.\<close>

definition sets_properties :: "(string \<Rightarrow> string \<Rightarrow> props \<Rightarrow> props) \<Rightarrow> bool" where
  "sets_properties property_set \<longleftrightarrow>
     (\<forall>p v m. property_set p v m = (if take 3 p = ''ro.'' \<and> m p \<noteq> None then m else m(p \<mapsto> v)))"

definition init_property_set :: "string \<Rightarrow> string \<Rightarrow> props \<Rightarrow> props" where
  "init_property_set p v m = (if take 3 p = ''ro.'' \<and> m p \<noteq> None then m else m(p \<mapsto> v))"

lemma property_override_eq [simp]: "property_override p v m = m(p \<mapsto> v)"
  by (simp add: property_override_def split: option.split)

lemma property_set_other:
  assumes "sets_properties property_set" and "q \<noteq> p"
  shows "property_set p v m q = m q"
  using assms unfolding sets_properties_def by simp

text \<open>The model name becomes the boot loader's product code under both names, even if it was set
  before, and the radio is configured for two cards exactly when the boot loader says so.\<close>

theorem boot_values_take_effect:
  assumes "sets_properties property_set"
  shows "vendor_load_properties property_set m ''ro.product.model'' = Some (GetProperty m ''ro.boot.hardware.sku'' '''')
    \<and> vendor_load_properties property_set m ''ro.vendor.product.model'' = Some (GetProperty m ''ro.boot.hardware.sku'' '''')
    \<and> vendor_load_properties property_set m ''persist.radio.multisim.config''
       = Some (if m ''ro.boot.dualsim'' = Some ''true'' then ''dsds'' else '''')"
proof -
  let ?sku = "GetProperty m ''ro.boot.hardware.sku'' ''''"
  have ps: "property_set p v k = (if take 3 p = ''ro.'' \<and> k p \<noteq> None then k else k(p \<mapsto> v))" for p v k
    using assms unfolding sets_properties_def by blast
  obtain k where k: "vendor_load_properties property_set m = num_sims property_set k"
    and sku: "k ''ro.product.model'' = Some ?sku" "k ''ro.vendor.product.model'' = Some ?sku"
    and sim: "k ''ro.boot.dualsim'' = m ''ro.boot.dualsim''"
    by (rule that [OF vendor_load_properties_def [unfolded Let_def]])
      (simp_all add: property_override_dual_def property_set_other [OF assms])
  have ns: "num_sims property_set k ''persist.radio.multisim.config''
      = Some (if k ''ro.boot.dualsim'' = Some ''true'' then ''dsds'' else '''')"
    by (auto simp: num_sims_def Let_def ps [of "''persist.radio.multisim.config''"] GetProperty_def split: option.split)
  have other: "num_sims property_set k q = k q"
    if "q \<noteq> ''persist.radio.multisim.config''" "q \<noteq> ''ro.hw.dualsim''" for q
    using that by (simp add: num_sims_def Let_def property_set_other [OF assms])
  show ?thesis
    unfolding k ns sim using sku by (simp add: other)
qed

theorem boot_values_take_effect_witness:
  "vendor_load_properties init_property_set [''ro.boot.hardware.sku'' \<mapsto> ''XT1670'', ''ro.product.model'' \<mapsto> ''old'',
     ''ro.boot.dualsim'' \<mapsto> ''true''] ''ro.product.model'' = Some ''XT1670''"
  using boot_values_take_effect [of init_property_set "[''ro.boot.hardware.sku'' \<mapsto> ''XT1670'', ''ro.product.model'' \<mapsto> ''old'',
     ''ro.boot.dualsim'' \<mapsto> ''true'']"]
  by (simp add: sets_properties_def init_property_set_def GetProperty_def)

end
