(* ===== verification/Sensor_Hub.thy ===== *)
theory Sensor_Hub
  imports C_Text
begin

text \<open>
  The register interface of the sensor hub (\<open>libsensorhub/SensorHub.cpp\<close>, the class
  \<open>SensorHub\<close>, and \<open>Endian.hpp\<close>): one \<open>ioctl\<close> with the register number
  and the size in network byte order reads or writes a register.

  The driver is a parameter: what it answers to a request may depend on all requests before it.
  The register numbers, the payload limits and the lengths of the version texts are in kernel
  headers outside the repository; they are the fields of \<open>hub_env\<close>, together with the
  content of memory that nothing has written (\<open>garbage\<close>).
\<close>

unbundle bit_operations_syntax

section \<open>The driver\<close>

type_synonym bytes = "8 word list"

datatype hub_req =
    BOOTLOADERMODE | NORMALMODE | MASSERASE | SETSTARTADDR "32 word"
  | TEST_READ | TEST_WRITE bytes | TEST_WRITE_READ bytes | TEST_BOOTMODE
  | SET_DEBUG "16 word" | SET_FACTORY_MODE | SET_LOWPOWER_MODE "32 word"
  | WRITE_REG bytes | READ_REG bytes | GET_VERNAME | PASSTHROUGH bytes
  | Write_Dev bytes

text \<open>The result of the system call, \<open>errno\<close> after it, and the bytes the driver
  stored at the start of the argument buffer.\<close>

record reply =
  status :: int
  errno :: nat
  out_data :: bytes

type_synonym trace = "hub_req list"
type_synonym hub_dev = "trace \<Rightarrow> hub_req \<Rightarrow> reply"

record hub_env =
  vmm :: "string \<Rightarrow> 16 word option"
  FW_VERSION_LEN :: "16 word"
  FW_VERSION_STR :: "16 word"
  FW_CRC :: "16 word"
  BYPASS_MODE :: "16 word"
  getMaxRx :: nat
  getMaxTx :: nat
  FW_VERSION_STR_MAX_LEN :: nat
  FW_VERSION_SIZE :: nat
  MOTOSH_PASSTHROUGH_SIZE :: nat
  sh_fd_open :: bool
  garbage :: "nat \<Rightarrow> 8 word"

definition fresh_bytes :: "hub_env \<Rightarrow> nat \<Rightarrow> bytes" where
  "fresh_bytes env n = map (garbage env) [0..<n]"

text \<open>Storing bytes at the start of a buffer: what does not fit is not part of it.\<close>

definition overlay :: "bytes \<Rightarrow> bytes \<Rightarrow> bytes" where
  "overlay new old = take (length old) new @ drop (length new) old"

lemma length_overlay [simp]: "length (overlay new old) = length old"
  by (simp add: overlay_def)

lemma length_fresh [simp]: "length (fresh_bytes env n) = n"
  by (simp add: fresh_bytes_def)

section \<open>Retrying an interrupted request\<close>

text \<open>The loop repeats while the request failed and \<open>errno\<close> is \<open>-EINTR\<close>. The
  error numbers of the C library are positive, so the second condition never holds: the
  function terminates after one round.\<close>

function ioctl_loop :: "hub_dev \<Rightarrow> trace \<Rightarrow> hub_req \<Rightarrow> reply \<times> trace" where
  "ioctl_loop dev tr rq =
     (let r = dev tr rq; tr' = tr @ [rq]
      in if status r \<noteq> 0 \<and> int (errno r) = - EINTR then ioctl_loop dev tr' rq else (r, tr'))"
  by auto
termination
  by (relation "{}") (auto simp: EINTR_def)

lemma ioctl_loop_once [simp]: "ioctl_loop dev tr rq = (dev tr rq, tr @ [rq])"
  by (subst ioctl_loop.simps) (simp add: EINTR_def Let_def)

declare ioctl_loop.simps [simp del]

text \<open>\<open>retryIoctl\<close>: a descriptor that is not open is returned as the error.\<close>

definition retryIoctl :: "hub_env \<Rightarrow> hub_dev \<Rightarrow> trace \<Rightarrow> hub_req \<Rightarrow> reply \<times> trace" where
  "retryIoctl env dev tr rq =
     (if \<not> sh_fd_open env then (\<lparr>status = - 1, errno = 0, out_data = []\<rparr>, tr)
      else ioctl_loop dev tr rq)"

section \<open>Byte order\<close>

text \<open>\<open>htons\<close> and a copy of its two bytes: the high byte first, on every host.\<close>

definition be16 :: "16 word \<Rightarrow> bytes" where
  "be16 w = [ucast (drop_bit 8 w), ucast w]"

definition extract_u32 :: "bytes \<Rightarrow> 32 word" where
  "extract_u32 a =
     push_bit 24 (ucast (a ! 0)) OR push_bit 16 (ucast (a ! 1))
       OR push_bit 8 (ucast (a ! 2)) OR ucast (a ! 3)"

definition swap32 :: "32 word \<Rightarrow> 32 word" where
  "swap32 x =
     drop_bit 24 (x AND 0xff000000) OR drop_bit 8 (x AND 0x00ff0000)
       OR push_bit 8 (x AND 0x0000ff00) OR push_bit 24 (x AND 0x000000ff)"

section \<open>Registers\<close>

definition getRegisterNumber :: "hub_env \<Rightarrow> string \<Rightarrow> int" where
  "getRegisterNumber env regName =
     (case vmm env regName of None \<Rightarrow> - 1 | Some r \<Rightarrow> sint r)"

definition SENSORHUB_CMD_LENGTH :: nat where "SENSORHUB_CMD_LENGTH = 4"

definition readReg ::
    "hub_env \<Rightarrow> hub_dev \<Rightarrow> trace \<Rightarrow> 16 word \<Rightarrow> 16 word \<Rightarrow> bytes option \<times> trace" where
  "readReg env dev tr vmmId sz =
     (if \<not> sh_fd_open env \<or> getMaxRx env < unat sz then (None, tr)
      else
        let res = fresh_bytes env (max (unat sz) SENSORHUB_CMD_LENGTH);
            res = overlay (be16 vmmId @ be16 sz) res;
            (r, tr') = retryIoctl env dev tr (READ_REG res)
        in if status r < 0 then (None, tr') else (Some (overlay (out_data r) res), tr'))"

definition readReg_name ::
    "hub_env \<Rightarrow> hub_dev \<Rightarrow> trace \<Rightarrow> string \<Rightarrow> 16 word \<Rightarrow> bytes option \<times> trace" where
  "readReg_name env dev tr regName sz =
     (case vmm env regName of None \<Rightarrow> (None, tr) | Some r \<Rightarrow> readReg env dev tr r sz)"

text \<open>\<open>data\<close> is \<open>None\<close> for a null pointer.\<close>

definition writeReg ::
    "hub_env \<Rightarrow> hub_dev \<Rightarrow> trace \<Rightarrow> 16 word \<Rightarrow> 16 word \<Rightarrow> bytes option \<Rightarrow> bool \<times> trace" where
  "writeReg env dev tr vmmId sz data =
     (case data of
        None \<Rightarrow> (False, tr)
      | Some bs \<Rightarrow>
          if sz = 0 \<or> getMaxTx env < unat sz then (False, tr)
          else
            let (r, tr') = retryIoctl env dev tr
                  (WRITE_REG (be16 vmmId @ be16 sz @ take (unat sz) bs))
            in (0 \<le> status r, tr'))"

definition writeReg_name ::
    "hub_env \<Rightarrow> hub_dev \<Rightarrow> trace \<Rightarrow> string \<Rightarrow> 16 word \<Rightarrow> bytes option \<Rightarrow> bool \<times> trace" where
  "writeReg_name env dev tr regName sz data =
     (let regNr = getRegisterNumber env regName
      in if regNr < 0 then (False, tr)
         else writeReg env dev tr (word_of_int regNr) sz data)"

definition text_of :: "bytes \<Rightarrow> string" where
  "text_of bs = map (\<lambda>b. char_of (unat b)) bs"

definition c_string :: "bytes \<Rightarrow> string" where
  "c_string bs = text_of (takeWhile (\<lambda>b. b \<noteq> 0) bs)"

definition getVariant :: "hub_env \<Rightarrow> hub_dev \<Rightarrow> trace \<Rightarrow> string \<times> trace" where
  "getVariant env dev tr =
     (let (r, tr') = retryIoctl env dev tr GET_VERNAME
      in (if status r < 0 then ''''
          else c_string (overlay (out_data r) (replicate (FW_VERSION_SIZE env) 0)), tr'))"

definition getVersionStr :: "hub_env \<Rightarrow> hub_dev \<Rightarrow> trace \<Rightarrow> string \<times> trace" where
  "getVersionStr env dev tr =
     (case readReg env dev tr (FW_VERSION_LEN env) 1 of
        (None, tr1) \<Rightarrow> ('''', tr1)
      | (Some buff, tr1) \<Rightarrow>
          let strLen = (word_of_nat (min (unat (buff ! 0)) (getMaxRx env)) :: 8 word)
          in if strLen = 0 then ('''', tr1)
             else case readReg env dev tr1 (FW_VERSION_STR env) (ucast strLen) of
                    (None, tr2) \<Rightarrow> ('''', tr2)
                  | (Some verStr, tr2) \<Rightarrow> (text_of (take (unat strLen) verStr), tr2))"

text \<open>The hub is little endian (\<open>isBigEndian\<close> is false), so the value extracted in
  network order is swapped.\<close>

definition getFlashCrc :: "hub_env \<Rightarrow> hub_dev \<Rightarrow> trace \<Rightarrow> 32 word \<times> trace" where
  "getFlashCrc env dev tr =
     (case readReg env dev tr (FW_CRC env) 4 of
        (None, tr1) \<Rightarrow> (0, tr1)
      | (Some buff, tr1) \<Rightarrow> (swap32 (extract_u32 buff), tr1))"

definition triggerProxRecal :: "hub_env \<Rightarrow> hub_dev \<Rightarrow> trace \<Rightarrow> bool \<times> trace" where
  "triggerProxRecal env dev tr = writeReg env dev tr (BYPASS_MODE env) 1 (Some [0xB1])"

section \<open>Facts\<close>

text \<open>The bytes of a little endian number.\<close>

definition le32 :: "32 word \<Rightarrow> bytes" where
  "le32 w = [ucast w, ucast (drop_bit 8 w), ucast (drop_bit 16 w), ucast (drop_bit 24 w)]"

lemma byte_and_masks:
  "drop_bit 24 ((x :: 32 word) AND 0xff000000) = drop_bit 24 x"
  "drop_bit 8 (x AND 0x00ff0000) = push_bit 8 (take_bit 8 (drop_bit 16 x))"
  "push_bit 8 (x AND 0x0000ff00) = push_bit 16 (take_bit 8 (drop_bit 8 x))"
  "push_bit 24 (x AND 0x000000ff) = push_bit 24 (take_bit 8 x)"
proof -
  have m: "(0xff000000 :: 32 word) = push_bit 24 (mask 8)" "(0x00ff0000 :: 32 word) = push_bit 16 (mask 8)"
    "(0x0000ff00 :: 32 word) = push_bit 8 (mask 8)" "(0x000000ff :: 32 word) = mask 8"
    by (simp_all add: mask_eq_exp_minus_1)
  show "drop_bit 24 (x AND 0xff000000) = drop_bit 24 x"
    unfolding m by (rule bit_word_eqI) (auto simp: bit_simps dest: bit_imp_le_length)
  show "drop_bit 8 (x AND 0x00ff0000) = push_bit 8 (take_bit 8 (drop_bit 16 x))"
    unfolding m by (rule bit_word_eqI) (auto simp: bit_simps dest: bit_imp_le_length)
  show "push_bit 8 (x AND 0x0000ff00) = push_bit 16 (take_bit 8 (drop_bit 8 x))"
    unfolding m by (rule bit_word_eqI) (auto simp: bit_simps dest: bit_imp_le_length)
  show "push_bit 24 (x AND 0x000000ff) = push_bit 24 (take_bit 8 x)"
    unfolding m by (rule bit_word_eqI) (auto simp: bit_simps dest: bit_imp_le_length)
qed

lemma extract_bytes:
  defines "E a b c d \<equiv> (push_bit 24 (ucast (a :: 8 word)) OR push_bit 16 (ucast (b :: 8 word))
    OR push_bit 8 (ucast (c :: 8 word)) OR ucast (d :: 8 word) :: 32 word)"
  shows "drop_bit 24 (E a b c d) = ucast a"
    and "take_bit 8 (drop_bit 16 (E a b c d)) = ucast b"
    and "take_bit 8 (drop_bit 8 (E a b c d)) = ucast c"
    and "take_bit 8 (E a b c d) = ucast d"
proof -
  note e = E_def bit_drop_bit_eq bit_take_bit_iff bit_or_iff bit_push_bit_iff bit_ucast_iff
  have low: "\<not> bit x n" if "8 \<le> n" for x :: "8 word" and n
    using that by (auto dest: bit_imp_le_length)
  show "drop_bit 24 (E a b c d) = ucast a"
    by (rule bit_word_eqI) (simp add: e low, metis low not_le)
  show "take_bit 8 (drop_bit 16 (E a b c d)) = ucast b"
    by (rule bit_word_eqI) (use low in \<open>force simp: e\<close>)
  show "take_bit 8 (drop_bit 8 (E a b c d)) = ucast c"
    by (rule bit_word_eqI) (use low in \<open>force simp: e\<close>)
  show "take_bit 8 (E a b c d) = ucast d"
    by (rule bit_word_eqI) (use low in \<open>force simp: e\<close>)
qed

lemma join_bytes:
  "(ucast (ucast w :: 8 word) :: 32 word) OR push_bit 8 (ucast (ucast (drop_bit 8 w) :: 8 word))
    OR push_bit 16 (ucast (ucast (drop_bit 16 w) :: 8 word))
    OR push_bit 24 (ucast (ucast (drop_bit 24 w) :: 8 word)) = w"
proof (rule bit_word_eqI)
  fix n :: nat
  assume n: "n < LENGTH(32)"
  consider "n < 8" | "8 \<le> n" "n < 16" | "16 \<le> n" "n < 24" | "24 \<le> n" by linarith
  then show "bit ((ucast (ucast w :: 8 word) :: 32 word)
      OR push_bit 8 (ucast (ucast (drop_bit 8 w) :: 8 word))
      OR push_bit 16 (ucast (ucast (drop_bit 16 w) :: 8 word))
      OR push_bit 24 (ucast (ucast (drop_bit 24 w) :: 8 word))) n = bit w n"
    by cases (use n in \<open>auto simp: bit_or_iff bit_push_bit_iff bit_ucast_iff bit_drop_bit_eq\<close>)
qed

lemma extract_le32:
  "extract_u32 (le32 w @ bs) =
     push_bit 24 (ucast (ucast w :: 8 word)) OR push_bit 16 (ucast (ucast (drop_bit 8 w) :: 8 word))
       OR push_bit 8 (ucast (ucast (drop_bit 16 w) :: 8 word)) OR ucast (ucast (drop_bit 24 w) :: 8 word)"
  by (simp only: extract_u32_def le32_def append.simps nth_Cons_0 One_nat_def nth_Cons_Suc
      numeral_2_eq_2 numeral_3_eq_3)

lemma swap_extract_le32: "swap32 (extract_u32 (le32 w @ bs)) = w"
  unfolding swap32_def byte_and_masks extract_le32 extract_bytes
  by (rule join_bytes)

text \<open>A register read sends one request: the register number and the size in network
  order, then whatever the buffer held.\<close>

lemma readReg_request:
  assumes "sh_fd_open env" and "unat sz \<le> getMaxRx env"
  shows "snd (readReg env dev tr vmmId sz) =
    tr @ [READ_REG (be16 vmmId @ be16 sz @ drop 4 (fresh_bytes env (max (unat sz) 4)))]"
proof -
  have "drop (Suc (Suc (Suc (Suc 0)))) xs = drop 4 xs" for xs :: bytes
    by (simp add: numeral_eq_Suc)
  with assms show ?thesis
    by (auto simp: readReg_def retryIoctl_def SENSORHUB_CMD_LENGTH_def overlay_def be16_def Let_def)
qed

definition crc_request :: "hub_env \<Rightarrow> hub_req" where
  "crc_request env = READ_REG (be16 (FW_CRC env) @ be16 4)"

lemma getFlashCrc_request:
  assumes "sh_fd_open env" and "4 \<le> getMaxRx env"
  shows "snd (getFlashCrc env dev tr) = tr @ [crc_request env]"
  using assms readReg_request [of env 4 dev tr "FW_CRC env"]
  by (auto simp: getFlashCrc_def crc_request_def split: prod.splits option.splits)

lemma getFlashCrc_value:
  assumes "sh_fd_open env" and "4 \<le> getMaxRx env"
    and "0 \<le> status (dev tr (crc_request env))"
    and "out_data (dev tr (crc_request env)) = le32 c"
  shows "fst (getFlashCrc env dev tr) = c"
proof -
  have "overlay (be16 (FW_CRC env) @ be16 4) (fresh_bytes env 4) = be16 (FW_CRC env) @ be16 4"
    by (simp add: overlay_def be16_def)
  moreover have "overlay (le32 c) (be16 (FW_CRC env) @ be16 4) = le32 c @ []"
    by (simp add: overlay_def be16_def le32_def)
  ultimately have "readReg env dev tr (FW_CRC env) 4 = (Some (le32 c @ []), tr @ [crc_request env])"
    using assms
    by (simp add: readReg_def retryIoctl_def SENSORHUB_CMD_LENGTH_def Let_def crc_request_def)
  then show ?thesis
    unfolding getFlashCrc_def by (simp only: prod.case option.case fst_conv swap_extract_le32)
qed

end
