(* ===== verification/Crc32.thy ===== *)
theory Crc32
  imports C_Text
begin

text \<open>
  The checksum of the flasher (\<open>motosh_bin/CRC32.c\<close>): the reflected Ethernet CRC by
  table lookup, over a buffer and over a file that is virtually padded up to the size of the
  flash. The reference is the division by the reflected polynomial bit by bit; the table is
  checked entry by entry against it, and the step for a byte agrees with eight single bit steps
  because these are linear. A byte of a file is a character of its content.
\<close>

unbundle bit_operations_syntax

section \<open>The code\<close>

definition CrcTableRev :: "32 word list" where
  "CrcTableRev =
    [
     0x00000000, 0x77073096, 0xEE0E612C, 0x990951BA,
     0x076DC419, 0x706AF48F, 0xE963A535, 0x9E6495A3,
     0x0EDB8832, 0x79DCB8A4, 0xE0D5E91E, 0x97D2D988,
     0x09B64C2B, 0x7EB17CBD, 0xE7B82D07, 0x90BF1D91,
     0x1DB71064, 0x6AB020F2, 0xF3B97148, 0x84BE41DE,
     0x1ADAD47D, 0x6DDDE4EB, 0xF4D4B551, 0x83D385C7,
     0x136C9856, 0x646BA8C0, 0xFD62F97A, 0x8A65C9EC,
     0x14015C4F, 0x63066CD9, 0xFA0F3D63, 0x8D080DF5,
     0x3B6E20C8, 0x4C69105E, 0xD56041E4, 0xA2677172,
     0x3C03E4D1, 0x4B04D447, 0xD20D85FD, 0xA50AB56B,
     0x35B5A8FA, 0x42B2986C, 0xDBBBC9D6, 0xACBCF940,
     0x32D86CE3, 0x45DF5C75, 0xDCD60DCF, 0xABD13D59,
     0x26D930AC, 0x51DE003A, 0xC8D75180, 0xBFD06116,
     0x21B4F4B5, 0x56B3C423, 0xCFBA9599, 0xB8BDA50F,
     0x2802B89E, 0x5F058808, 0xC60CD9B2, 0xB10BE924,
     0x2F6F7C87, 0x58684C11, 0xC1611DAB, 0xB6662D3D,
     0x76DC4190, 0x01DB7106, 0x98D220BC, 0xEFD5102A,
     0x71B18589, 0x06B6B51F, 0x9FBFE4A5, 0xE8B8D433,
     0x7807C9A2, 0x0F00F934, 0x9609A88E, 0xE10E9818,
     0x7F6A0DBB, 0x086D3D2D, 0x91646C97, 0xE6635C01,
     0x6B6B51F4, 0x1C6C6162, 0x856530D8, 0xF262004E,
     0x6C0695ED, 0x1B01A57B, 0x8208F4C1, 0xF50FC457,
     0x65B0D9C6, 0x12B7E950, 0x8BBEB8EA, 0xFCB9887C,
     0x62DD1DDF, 0x15DA2D49, 0x8CD37CF3, 0xFBD44C65,
     0x4DB26158, 0x3AB551CE, 0xA3BC0074, 0xD4BB30E2,
     0x4ADFA541, 0x3DD895D7, 0xA4D1C46D, 0xD3D6F4FB,
     0x4369E96A, 0x346ED9FC, 0xAD678846, 0xDA60B8D0,
     0x44042D73, 0x33031DE5, 0xAA0A4C5F, 0xDD0D7CC9,
     0x5005713C, 0x270241AA, 0xBE0B1010, 0xC90C2086,
     0x5768B525, 0x206F85B3, 0xB966D409, 0xCE61E49F,
     0x5EDEF90E, 0x29D9C998, 0xB0D09822, 0xC7D7A8B4,
     0x59B33D17, 0x2EB40D81, 0xB7BD5C3B, 0xC0BA6CAD,
     0xEDB88320, 0x9ABFB3B6, 0x03B6E20C, 0x74B1D29A,
     0xEAD54739, 0x9DD277AF, 0x04DB2615, 0x73DC1683,
     0xE3630B12, 0x94643B84, 0x0D6D6A3E, 0x7A6A5AA8,
     0xE40ECF0B, 0x9309FF9D, 0x0A00AE27, 0x7D079EB1,
     0xF00F9344, 0x8708A3D2, 0x1E01F268, 0x6906C2FE,
     0xF762575D, 0x806567CB, 0x196C3671, 0x6E6B06E7,
     0xFED41B76, 0x89D32BE0, 0x10DA7A5A, 0x67DD4ACC,
     0xF9B9DF6F, 0x8EBEEFF9, 0x17B7BE43, 0x60B08ED5,
     0xD6D6A3E8, 0xA1D1937E, 0x38D8C2C4, 0x4FDFF252,
     0xD1BB67F1, 0xA6BC5767, 0x3FB506DD, 0x48B2364B,
     0xD80D2BDA, 0xAF0A1B4C, 0x36034AF6, 0x41047A60,
     0xDF60EFC3, 0xA867DF55, 0x316E8EEF, 0x4669BE79,
     0xCB61B38C, 0xBC66831A, 0x256FD2A0, 0x5268E236,
     0xCC0C7795, 0xBB0B4703, 0x220216B9, 0x5505262F,
     0xC5BA3BBE, 0xB2BD0B28, 0x2BB45A92, 0x5CB36A04,
     0xC2D7FFA7, 0xB5D0CF31, 0x2CD99E8B, 0x5BDEAE1D,
     0x9B64C2B0, 0xEC63F226, 0x756AA39C, 0x026D930A,
     0x9C0906A9, 0xEB0E363F, 0x72076785, 0x05005713,
     0x95BF4A82, 0xE2B87A14, 0x7BB12BAE, 0x0CB61B38,
     0x92D28E9B, 0xE5D5BE0D, 0x7CDCEFB7, 0x0BDBDF21,
     0x86D3D2D4, 0xF1D4E242, 0x68DDB3F8, 0x1FDA836E,
     0x81BE16CD, 0xF6B9265B, 0x6FB077E1, 0x18B74777,
     0x88085AE6, 0xFF0F6A70, 0x66063BCA, 0x11010B5C,
     0x8F659EFF, 0xF862AE69, 0x616BFFD3, 0x166CCF45,
     0xA00AE278, 0xD70DD2EE, 0x4E048354, 0x3903B3C2,
     0xA7672661, 0xD06016F7, 0x4969474D, 0x3E6E77DB,
     0xAED16A4A, 0xD9D65ADC, 0x40DF0B66, 0x37D83BF0,
     0xA9BCAE53, 0xDEBB9EC5, 0x47B2CF7F, 0x30B5FFE9,
     0xBDBDF21C, 0xCABAC28A, 0x53B39330, 0x24B4A3A6,
     0xBAD03605, 0xCDD70693, 0x54DE5729, 0x23D967BF,
     0xB3667A2E, 0xC4614AB8, 0x5D681B02, 0x2A6F2B94,
     0xB40BBE37, 0xC30C8EA1, 0x5A05DF1B, 0x2D02EF8D]"

definition CrcInit :: "32 word" where "CrcInit = 0xffFFffFF"
definition XoRot :: "32 word" where "XoRot = 0xffFFffFF"

definition crc_step :: "32 word \<Rightarrow> 8 word \<Rightarrow> 32 word" where
  "crc_step crc b = (CrcTableRev ! unat ((crc XOR ucast b) AND 0xFF)) XOR drop_bit 8 crc"

fun crc_loop :: "32 word \<Rightarrow> 8 word list \<Rightarrow> 32 word" where
  "crc_loop crc [] = crc"
| "crc_loop crc (b # bs) = crc_loop (crc_step crc b) bs"

definition calculateCrc32 :: "8 word list \<Rightarrow> 32 word" where
  "calculateCrc32 bs = crc_loop CrcInit bs XOR XoRot"

definition bytes_of :: "string \<Rightarrow> 8 word list" where
  "bytes_of s = map (\<lambda>c. word_of_nat (of_char c)) s"

text \<open>The second loop feeds the fill byte while the size is below the wanted length.\<close>

function crc_fill :: "32 word \<Rightarrow> nat \<Rightarrow> nat \<Rightarrow> 8 word \<Rightarrow> 32 word" where
  "crc_fill crc sz dataLen fill =
     (if sz < dataLen then crc_fill (crc_step crc fill) (Suc sz) dataLen fill else crc)"
  by auto
termination
  by (relation "measure (\<lambda>(crc, sz, dataLen, fill). dataLen - sz)") auto

declare crc_fill.simps [simp del]

text \<open>\<open>None\<close> is the result -1: the file cannot be opened.\<close>

definition calculateFileCrc32 :: "fsys \<Rightarrow> path \<Rightarrow> nat \<Rightarrow> 8 word \<Rightarrow> 32 word option" where
  "calculateFileCrc32 fs p dataLen fill =
     (case read_file fs p of
        None \<Rightarrow> None
      | Some s \<Rightarrow>
          Some (crc_fill (crc_loop CrcInit (bytes_of s)) (length s) dataLen fill XOR XoRot))"

section \<open>The reference: one bit at a time\<close>

definition crc_poly :: "32 word" where "crc_poly = 0xEDB88320"

definition bit_step :: "32 word \<Rightarrow> 32 word" where
  "bit_step x = drop_bit 1 x XOR (if bit x 0 then crc_poly else 0)"

definition crc32_ref :: "8 word list \<Rightarrow> 32 word" where
  "crc32_ref bs = NOT (foldl (\<lambda>crc b. (bit_step ^^ 8) (crc XOR ucast b)) (NOT 0) bs)"

section \<open>The table\<close>

lemma bit_step_code: "bit_step x = (if odd x then drop_bit 1 x XOR crc_poly else drop_bit 1 x)"
  by (simp add: bit_step_def bit_0)

lemma length_table: "length CrcTableRev = 256"
  by (simp add: CrcTableRev_def)

text \<open>The table is computed on integers below \<open>2 ^ 32\<close>, where the steps
  evaluate quickly.\<close>

definition int_step :: "int \<Rightarrow> int" where
  "int_step n = (if even n then n div 2 else (n div 2) XOR 0xEDB88320)"

definition int_step8 :: "int \<Rightarrow> int" where
  "int_step8 n =
     int_step (int_step (int_step (int_step (int_step (int_step (int_step (int_step n)))))))"

lemma table_int: "map word_of_int (map int_step8 [0..255]) = CrcTableRev"
  by (simp add: int_step8_def int_step_def CrcTableRev_def upto_rec1)

lemma int_step_range:
  assumes "0 \<le> n" and "n < 2 ^ 32"
  shows "0 \<le> int_step n \<and> int_step n < 2 ^ 32"
proof -
  have "take_bit 32 (n div 2) = n div 2"
    using assms by (simp add: take_bit_int_eq_self)
  then have "take_bit 32 ((n div 2) XOR 0xEDB88320) = (n div 2) XOR 0xEDB88320"
    by (simp add: take_bit_xor)
  then have "(n div 2) XOR 0xEDB88320 < 2 ^ 32" "0 \<le> (n div 2) XOR 0xEDB88320"
    by (metis take_bit_int_less_exp, metis take_bit_nonnegative)
  with assms show ?thesis by (auto simp: int_step_def)
qed

lemma bit_step_word_of_int:
  assumes "0 \<le> n" and "n < 2 ^ 32"
  shows "bit_step (word_of_int n) = word_of_int (int_step n)"
proof -
  have "drop_bit 1 (word_of_int n :: 32 word) = word_of_int (n div 2)"
    using assms by (intro word_uint_eqI) (simp add: drop_bit_eq_div uint_div uint_word_of_int take_bit_int_eq_self)
  moreover have "odd (word_of_int n :: 32 word) = odd n"
    by transfer (simp add: even_take_bit_eq)
  moreover have "(word_of_int (a XOR b) :: 32 word) = word_of_int a XOR word_of_int b" for a b
    by (rule bit_word_eqI) (simp add: bit_simps)
  ultimately show ?thesis
    by (simp add: bit_step_code int_step_def crc_poly_def)
qed

lemma bit_steps_word_of_int:
  assumes "0 \<le> n" and "n < 2 ^ 32"
  shows "(bit_step ^^ 8) (word_of_int n) = word_of_int (int_step8 n)"
  using assms int_step_range bit_step_word_of_int
  by (simp add: eval_nat_numeral int_step8_def)

lemma table_entry:
  assumes "unat i < 256"
  shows "CrcTableRev ! unat i = (bit_step ^^ 8) i"
proof -
  have i: "word_of_int (int (unat i)) = i"
    by simp
  have "(256 :: int) < 2 ^ 32" by simp
  then have small: "int (unat i) < 2 ^ 32"
    using assms by linarith
  have "[0..255] ! unat i = int (unat i)"
    using assms by (subst nth_upto) linarith+
  then have "CrcTableRev ! unat i = word_of_int (int_step8 (int (unat i)))"
    using assms by (subst table_int [symmetric]) simp
  also have "\<dots> = (bit_step ^^ 8) (word_of_int (int (unat i)))"
    by (rule bit_steps_word_of_int [symmetric]) (use small in simp_all)
  finally show ?thesis by (simp only: i)
qed

section \<open>Linearity\<close>

lemma bit_step_xor: "bit_step (x XOR y) = bit_step x XOR bit_step y"
  by (auto simp: bit_step_def bit_xor_iff intro!: bit_word_eqI simp: bit_simps)

lemma bit_steps_xor: "(bit_step ^^ n) (x XOR y) = (bit_step ^^ n) x XOR (bit_step ^^ n) y"
  by (induction n) (auto simp: bit_step_xor)

lemma bit_steps_high:
  assumes "\<forall>i<n. \<not> bit x i"
  shows "(bit_step ^^ n) x = drop_bit n x"
  using assms
proof (induction n arbitrary: x)
  case (Suc n)
  have "bit_step x = drop_bit 1 x"
    using Suc.prems by (auto simp: bit_step_def)
  moreover have "(bit_step ^^ n) (drop_bit 1 x) = drop_bit n (drop_bit 1 x)"
    using Suc.prems by (intro Suc.IH) (auto simp: bit_drop_bit_eq)
  ultimately show ?case
    by (simp add: funpow_swap1)
qed simp

lemma crc_step_bits: "crc_step crc b = (bit_step ^^ 8) (crc XOR ucast b)"
proof -
  define x where "x = crc XOR ucast b"
  define low where "low = x AND 0xFF"
  have low: "low = take_bit 8 x"
    by (simp add: low_def take_bit_eq_mask mask_eq_exp_minus_1)
  have split: "x = low XOR push_bit 8 (drop_bit 8 x)"
    by (rule bit_word_eqI) (auto simp: low bit_simps)
  have "unat low < 256"
    by (simp add: low unsigned_take_bit_eq take_bit_nat_less_exp [of 8, simplified])
  then have tab: "CrcTableRev ! unat low = (bit_step ^^ 8) low"
    by (rule table_entry)
  have "(bit_step ^^ 8) (push_bit 8 (drop_bit 8 x)) = drop_bit 8 (push_bit 8 (drop_bit 8 x))"
    by (rule bit_steps_high) (auto simp: bit_simps)
  also have "\<dots> = drop_bit 8 x"
    by (rule bit_word_eqI) (auto simp: bit_simps dest: bit_imp_le_length)
  also have "\<dots> = drop_bit 8 crc"
    by (rule bit_word_eqI) (auto simp: x_def bit_simps dest: bit_imp_le_length)
  finally have high: "(bit_step ^^ 8) (push_bit 8 (drop_bit 8 x)) = drop_bit 8 crc" .
  have "(bit_step ^^ 8) x = (bit_step ^^ 8) low XOR drop_bit 8 crc"
    by (subst split) (simp only: bit_steps_xor high)
  then show ?thesis
    using tab by (simp add: crc_step_def low_def x_def)
qed

lemma crc_loop_foldl:
  "crc_loop crc bs = foldl (\<lambda>crc b. (bit_step ^^ 8) (crc XOR ucast b)) crc bs"
  by (induction crc bs rule: crc_loop.induct) (auto simp: crc_step_bits)

lemma crc_loop_append: "crc_loop crc (xs @ ys) = crc_loop (crc_loop crc xs) ys"
  by (induction crc xs rule: crc_loop.induct) auto

lemma crc_fill_replicate:
  "crc_fill crc sz dataLen fill = crc_loop crc (replicate (dataLen - sz) fill)"
proof (induction crc sz dataLen fill rule: crc_fill.induct)
  case (1 crc sz dataLen fill)
  show ?case
  proof (cases "sz < dataLen")
    case True
    then have "dataLen - sz = Suc (dataLen - Suc sz)" by simp
    with True 1 show ?thesis by (subst crc_fill.simps) simp
  next
    case False
    then show ?thesis by (subst crc_fill.simps) simp
  qed
qed

section \<open>Correctness\<close>

lemma length_bytes_of [simp]: "length (bytes_of s) = length s"
  by (simp add: bytes_of_def)

lemma calculateCrc32_ref: "calculateCrc32 bs = crc32_ref bs"
proof -
  have i: "CrcInit = NOT 0" by (simp add: CrcInit_def)
  have "XoRot = NOT 0" by (simp add: XoRot_def)
  moreover have "y XOR NOT 0 = NOT y" for y :: "32 word"
    by (rule bit_word_eqI) (simp add: bit_simps)
  ultimately have x: "y XOR XoRot = NOT y" for y
    by simp
  show ?thesis
    by (simp only: calculateCrc32_def crc32_ref_def i x crc_loop_foldl)
qed

lemma calculateFileCrc32_padded:
  "calculateFileCrc32 fs p dataLen fill =
     map_option (\<lambda>s. calculateCrc32 (bytes_of s @ replicate (dataLen - length s) fill))
       (read_file fs p)"
  by (auto simp: calculateFileCrc32_def calculateCrc32_def crc_loop_append crc_fill_replicate
      split: option.splits)

text \<open>C22: the checksum of a file is the CRC-32 by polynomial division of the file's bytes
  followed by fill bytes up to the wanted length; a longer file is taken alone. So the 256
  entries of the table are right, and the virtual padding is the same as a padded copy.\<close>

theorem calculateFileCrc32_correct:
  "calculateFileCrc32 fs p dataLen fill =
     map_option (\<lambda>s. crc32_ref (bytes_of s @ replicate (dataLen - length s) fill))
       (read_file fs p)"
  by (simp add: calculateFileCrc32_padded calculateCrc32_ref)

end
