(* ===== verification/Flash_Loader.thy ===== *)
theory Flash_Loader
  imports Sensor_Hub Crc32
begin

text \<open>
  The firmware side of the flasher (\<open>motosh_bin/motosh.cpp\<close>, built for the
  \<open>stml0xx\<close> hub): which firmware file is used, the blacklist of add-on firmware, the
  version of a firmware file, the comparison with the hub, and the download in packets. Files
  are in a file store; a readable file can be opened. Log output is left out.
\<close>

unbundle bit_operations_syntax

section \<open>Constants of the stml0xx build\<close>

definition FLASH_SIZE :: nat where "FLASH_SIZE = 0x00ffFF"
definition FLASH_FILL :: "8 word" where "FLASH_FILL = 0x00"
definition STM_MAX_PACKET_LENGTH :: nat where "STM_MAX_PACKET_LENGTH = 256"
definition FLASH_START_ADDRESS :: "32 word" where "FLASH_START_ADDRESS = 0x08000000"
definition STM_SUCCESS :: int where "STM_SUCCESS = 0"
definition STM_FAILURE :: int where "STM_FAILURE = - 1"
definition STM_VERSION_MISMATCH :: int where "STM_VERSION_MISMATCH = - 1"
definition STM_VERSION_MATCH :: int where "STM_VERSION_MATCH = 1"
definition STM_DOWNLOADRETRIES :: nat where "STM_DOWNLOADRETRIES = 3"

definition STM_FIRMWARE_BLACKLIST :: path where
  "STM_FIRMWARE_BLACKLIST = ''/system/etc/firmware/sensorhub-blacklist.txt''"

lemmas stm_consts = FLASH_SIZE_def FLASH_FILL_def STM_MAX_PACKET_LENGTH_def
  FLASH_START_ADDRESS_def STM_SUCCESS_def STM_FAILURE_def STM_VERSION_MISMATCH_def
  STM_VERSION_MATCH_def STM_DOWNLOADRETRIES_def

section \<open>Firmware files\<close>

datatype FirmwareType = FW_STOCK | FW_APK

fun fw_path :: "FirmwareType \<Rightarrow> path" where
  "fw_path FW_APK = ''/data/misc/sensorhub/sensorhubfw.bin''"
| "fw_path FW_STOCK = ''/system/etc/firmware/sensorhubfw.bin''"

text \<open>Result and path; both paths are shorter than \<open>STM_MAX_PATH\<close>.\<close>

definition stm_getFwFile_type :: "fsys \<Rightarrow> FirmwareType \<Rightarrow> int \<times> path" where
  "stm_getFwFile_type fs type =
     (if read_file fs (fw_path type) = None then (- 3, fw_path type) else (0, fw_path type))"

definition stm_getFwFile :: "fsys \<Rightarrow> int \<times> path" where
  "stm_getFwFile fs =
     (let (ret, fileName) = stm_getFwFile_type fs FW_APK
      in if ret < 0 then stm_getFwFile_type fs FW_STOCK else (ret, fileName))"

section \<open>Hexadecimal conversions\<close>

definition hex_val :: "char \<Rightarrow> nat option" where
  "hex_val c =
     (let n = (of_char c :: nat)
      in if 48 \<le> n \<and> n \<le> 57 then Some (n - 48)
         else if 97 \<le> n \<and> n \<le> 102 then Some (n - 87)
         else if 65 \<le> n \<and> n \<le> 70 then Some (n - 55)
         else None)"

definition is_hex :: "char \<Rightarrow> bool" where
  "is_hex c \<longleftrightarrow> hex_val c \<noteq> None"

fun hex_num :: "nat \<Rightarrow> string \<Rightarrow> nat" where
  "hex_num acc [] = acc"
| "hex_num acc (c # cs) = hex_num (16 * acc + the (hex_val c)) cs"

text \<open>\<open>%x\<close> with a field of \<open>w\<close> characters: blanks are skipped, a sign and a
  prefix \<open>0x\<close> belong to the field. The value is reduced to 32 bits.\<close>

definition hex_field :: "string \<Rightarrow> nat option" where
  "hex_field s =
     (let digits = (\<lambda>t. let ds = takeWhile is_hex t in if ds = [] then None else Some (hex_num 0 ds))
      in case s of
           z # x # c # cs \<Rightarrow>
             if z = CHR ''0'' \<and> (x = CHR ''x'' \<or> x = CHR ''X'') \<and> is_hex c then digits (c # cs)
             else digits s
         | _ \<Rightarrow> digits s)"

definition scan_hex :: "nat \<Rightarrow> string \<Rightarrow> 32 word option" where
  "scan_hex w s =
     (case take w (dropWhile is_space s) of
        [] \<Rightarrow> None
      | c # cs \<Rightarrow>
          if c = CHR ''-'' then map_option (\<lambda>n. - word_of_nat n) (hex_field cs)
          else if c = CHR ''+'' then map_option word_of_nat (hex_field cs)
          else map_option word_of_nat (hex_field (c # cs)))"

text \<open>\<open>stm_convertAsciiToHex\<close> reads \<open>%02x\<close> every two characters and stops at the
  first conversion that fails; the bytes are the cells written from \<open>output\<close> on.\<close>

function convert_loop :: "string \<Rightarrow> nat \<Rightarrow> nat \<Rightarrow> bytes" where
  "convert_loop input inlen i =
     (if i < inlen
      then case scan_hex 2 (drop i input) of
             None \<Rightarrow> []
           | Some x \<Rightarrow> ucast x # convert_loop input inlen (i + 2)
      else [])"
  by auto
termination
  by (relation "measure (\<lambda>(input, inlen, i). inlen - i)") auto

declare convert_loop.simps [simp del]

definition stm_convertAsciiToHex :: "string \<Rightarrow> nat \<Rightarrow> bytes" where
  "stm_convertAsciiToHex input inlen = convert_loop input inlen 0"

section \<open>The blacklist\<close>

text \<open>\<open>getline\<close>: the lines with their line feed.\<close>

fun getlines :: "string \<Rightarrow> string \<Rightarrow> string list" where
  "getlines line [] = (if line = [] then [] else [line])"
| "getlines line (c # cs) =
     (if c = CHR 0x0A then (line @ [c]) # getlines [] cs else getlines (line @ [c]) cs)"

fun blacklisted :: "32 word \<Rightarrow> string list \<Rightarrow> bool" where
  "blacklisted fileCrc [] = False"
| "blacklisted fileCrc (line # rest) =
     (if hd line = CHR ''#'' then blacklisted fileCrc rest
      else case scan_hex (length line) line of
             None \<Rightarrow> blacklisted fileCrc rest
           | Some blCrc \<Rightarrow> if fileCrc = blCrc then True else blacklisted fileCrc rest)"

definition unlink_file :: "fsys \<Rightarrow> path \<Rightarrow> fsys" where
  "unlink_file fs p =
     (if write_fails fs p then fs else fs\<lparr>content := (content fs)(p := None)\<rparr>)"

definition stm_processBlackList :: "fsys \<Rightarrow> fsys" where
  "stm_processBlackList fs =
     (if read_file fs STM_FIRMWARE_BLACKLIST = None then fs
      else
        let (res, path) = stm_getFwFile_type fs FW_APK
        in if res < 0 then fs
           else case calculateFileCrc32 fs path FLASH_SIZE FLASH_FILL of
                  None \<Rightarrow> fs
                | Some fileCrc \<Rightarrow>
                    (case read_file fs STM_FIRMWARE_BLACKLIST of
                       None \<Rightarrow> fs
                     | Some text \<Rightarrow>
                         if blacklisted fileCrc (getlines [] text) then unlink_file fs path
                         else fs))"

section \<open>Versions\<close>

definition fileOffsetLen :: nat where "fileOffsetLen = 9"

text \<open>The result of the conversion is not looked at: a byte that was not converted keeps
  what the stack held.\<close>

definition version_offset :: "hub_env \<Rightarrow> string \<Rightarrow> nat" where
  "version_offset env offsetStr =
     (let offsetHex = overlay (stm_convertAsciiToHex offsetStr (fileOffsetLen - 1))
            (fresh_bytes env (fileOffsetLen div 2));
          off = (push_bit 16 (ucast (offsetHex ! 1)) + push_bit 8 (ucast (offsetHex ! 2))
            + ucast (offsetHex ! 3) :: 32 word)
      in unat off)"

text \<open>The loop reads a character before it looks at the room left: the first component is
  the last character read (\<open>None\<close> at the end of the file).\<close>

function read_version :: "nat \<Rightarrow> string \<Rightarrow> string \<Rightarrow> char option \<times> string" where
  "read_version vmax [] str = (None, str)"
| "read_version vmax (c # cs) str =
     (if c \<noteq> CHR 0x00 \<and> length str < vmax then read_version vmax cs (str @ [c])
      else (Some c, str))"
  by pat_completeness auto
termination
  by (relation "measure (\<lambda>(vmax, cs, str). length cs)") auto

definition stm_getFwVersionFromFile :: "hub_env \<Rightarrow> fsys \<Rightarrow> string" where
  "stm_getFwVersionFromFile env fs =
     (let (res, path) = stm_getFwFile fs
      in if res < 0 then ''''
         else case read_file fs path of
                None \<Rightarrow> ''''
              | Some f \<Rightarrow>
                  if length f < fileOffsetLen then ''''
                  else
                    let offsetStr = take (fileOffsetLen - 1) (drop (length f - fileOffsetLen) f);
                        (c, str) = read_version (FW_VERSION_STR_MAX_LEN env)
                          (drop (version_offset env offsetStr) f) ''''
                    in if c = None \<or> FW_VERSION_STR_MAX_LEN env - 1 \<le> length str then '''' else str)"

text \<open>\<open>None\<close>: a negative result.\<close>

definition stm_calcFwFileCrc :: "fsys \<Rightarrow> 32 word option" where
  "stm_calcFwFileCrc fs =
     (let (res, path) = stm_getFwFile fs
      in if res < 0 then None else calculateFileCrc32 fs path FLASH_SIZE FLASH_FILL)"

definition stm_versionCheck :: "hub_env \<Rightarrow> hub_dev \<Rightarrow> fsys \<Rightarrow> trace \<Rightarrow> int \<times> trace" where
  "stm_versionCheck env dev fs tr =
     (let fileVersion = stm_getFwVersionFromFile env fs
      in if fileVersion = '''' then (STM_VERSION_MATCH, tr)
         else case stm_calcFwFileCrc fs of
                None \<Rightarrow> (STM_VERSION_MATCH, tr)
              | Some fileCrc \<Rightarrow>
                  let (hwVersion, tr1) = getVersionStr env dev tr
                  in if hwVersion = '''' then (STM_VERSION_MISMATCH, tr1)
                     else
                       let (hwCrc, tr2) = getFlashCrc env dev tr1
                       in if hwCrc = 0 then (STM_VERSION_MISMATCH, tr2)
                          else if hwVersion = fileVersion \<and> fileCrc = hwCrc
                          then (STM_VERSION_MATCH, tr2)
                          else (STM_VERSION_MISMATCH, tr2))"

section \<open>Download\<close>

text \<open>The file is the bytes from the current position on.\<close>

fun fill_packet :: "bytes \<Rightarrow> bytes \<Rightarrow> bytes \<times> bytes" where
  "fill_packet databuff [] = (databuff, [])"
| "fill_packet databuff (c # fp) =
     (let databuff = databuff @ [c]
      in if STM_MAX_PACKET_LENGTH \<le> length databuff then (databuff, fp)
         else fill_packet databuff fp)"

function pad_packet :: "bytes \<Rightarrow> bytes" where
  "pad_packet databuff =
     (if length databuff < STM_MAX_PACKET_LENGTH \<and> 0 < length databuff mod 8
      then pad_packet (databuff @ [FLASH_FILL]) else databuff)"
  by auto
termination
  by (relation "measure (\<lambda>databuff. STM_MAX_PACKET_LENGTH - length databuff)") auto

declare pad_packet.simps [simp del]

definition stm_getpacket :: "bytes \<Rightarrow> bytes \<times> bytes" where
  "stm_getpacket fp = (let (databuff, fp') = fill_packet [] fp in (pad_packet databuff, fp'))"

lemma fill_packet_split: "fill_packet d fp = (a, r) \<Longrightarrow> a @ r = d @ fp"
  by (induction d fp rule: fill_packet.induct) (auto simp: Let_def split: if_splits)

lemma fill_packet_rest:
  "snd (fill_packet d fp) = [] \<or> length (snd (fill_packet d fp)) < length fp"
  by (induction d fp rule: fill_packet.induct) (auto simp: Let_def)

lemma pad_packet_Nil [simp]: "pad_packet [] = []"
  by (subst pad_packet.simps) simp

text \<open>The packets of the loop until one is empty; \<open>ret\<close> is the result of the last
  request. A short write is not told from a full one.\<close>

function send_packets :: "hub_dev \<Rightarrow> trace \<Rightarrow> int \<Rightarrow> bytes \<Rightarrow> int \<times> trace" where
  "send_packets dev tr ret fp =
     (let (packet, fp') = stm_getpacket fp
      in if length packet = 0 then (ret, tr)
         else
           let ret = status (dev tr (Write_Dev packet)); tr = tr @ [Write_Dev packet]
           in if ret < 0 then (ret, tr) else send_packets dev tr ret fp')"
  by auto
termination
proof (relation "measure (\<lambda>(dev, tr, ret, fp). length fp)", goal_cases)
  case 1
  show ?case by simp
next
  case (2 dev tr ret fp x packet fp' ret' tr')
  then have "fp \<noteq> []" and "fp' = snd (fill_packet [] fp)"
    by (auto simp: stm_getpacket_def split: prod.splits)
  then have "length fp' < length fp"
    using fill_packet_rest [of "[]" fp] by auto
  then show ?case by simp
qed

declare send_packets.simps [simp del]

definition stm_downloadFirmware :: "hub_dev \<Rightarrow> trace \<Rightarrow> bytes \<Rightarrow> int \<times> trace" where
  "stm_downloadFirmware dev tr filep =
     (let (r, tr) = ioctl_loop dev tr BOOTLOADERMODE
      in if status r < 0 then (status r, tr)
         else
           let (r, tr) = ioctl_loop dev tr MASSERASE
           in if status r < 0 then (status r, tr)
              else
                let (r, tr) = ioctl_loop dev tr (SETSTARTADDR FLASH_START_ADDRESS)
                in if status r < 0 then (status r, tr)
                   else send_packets dev tr (status r) filep)"

section \<open>Download as a script of requests\<close>

text \<open>The abstract download: a list of requests sent in order, up to the first one that is
  answered with a negative number.\<close>

fun send_all :: "hub_dev \<Rightarrow> trace \<Rightarrow> int \<Rightarrow> hub_req list \<Rightarrow> int \<times> trace" where
  "send_all dev tr ret [] = (ret, tr)"
| "send_all dev tr ret (rq # rqs) =
     (let r = status (dev tr rq)
      in if r < 0 then (r, tr @ [rq]) else send_all dev (tr @ [rq]) r rqs)"

lemma send_all_append:
  "send_all dev tr ret (xs @ ys) =
     (let (r, tr') = send_all dev tr ret xs
      in if r < 0 \<and> xs \<noteq> [] then (r, tr') else send_all dev tr' r ys)"
  by (induction dev tr ret xs rule: send_all.induct) (auto simp: Let_def split: prod.splits)

lemma send_all_ok: "0 \<le> fst (send_all dev tr ret rqs) \<Longrightarrow> snd (send_all dev tr ret rqs) = tr @ rqs"
  by (induction dev tr ret rqs rule: send_all.induct) (auto simp: Let_def split: if_splits)

lemma send_all_stops:
  "fst (send_all dev tr ret rqs) < 0 \<Longrightarrow> 0 \<le> ret \<Longrightarrow>
   \<exists>n < length rqs. snd (send_all dev tr ret rqs) = tr @ take (Suc n) rqs
     \<and> status (dev (tr @ take n rqs) (rqs ! n)) < 0"
proof (induction dev tr ret rqs rule: send_all.induct)
  case (2 dev tr ret rq rqs)
  show ?case
  proof (cases "status (dev tr rq) < 0")
    case True
    then show ?thesis by (intro exI [of _ 0]) (simp add: Let_def)
  next
    case False
    then obtain n where "n < length rqs"
      "snd (send_all dev (tr @ [rq]) (status (dev tr rq)) rqs) = (tr @ [rq]) @ take (Suc n) rqs"
      "status (dev ((tr @ [rq]) @ take n rqs) (rqs ! n)) < 0"
      using 2 by (auto simp: Let_def)
    with False show ?thesis by (intro exI [of _ "Suc n"]) (simp add: Let_def)
  qed
qed simp

text \<open>The packets of a file, computed by the loop of the code without the driver.\<close>

function file_packets :: "bytes \<Rightarrow> bytes list" where
  "file_packets fp =
     (let (packet, fp') = stm_getpacket fp
      in if length packet = 0 then [] else packet # file_packets fp')"
  by auto
termination
proof (relation "measure length", goal_cases)
  case 1
  show ?case by simp
next
  case (2 fp x packet fp')
  then have "fp \<noteq> []" and "fp' = snd (fill_packet [] fp)"
    by (auto simp: stm_getpacket_def split: prod.splits)
  then show ?case
    using fill_packet_rest [of "[]" fp] by auto
qed

declare file_packets.simps [simp del]

lemma send_packets_script:
  "send_packets dev tr ret fp = send_all dev tr ret (map Write_Dev (file_packets fp))"
proof (induction dev tr ret fp rule: send_packets.induct)
  case (1 dev tr ret fp)
  obtain packet fp' where p: "stm_getpacket fp = (packet, fp')" by fastforce
  show ?case
  proof (cases "packet = []")
    case True
    then show ?thesis
      by (subst send_packets.simps, subst file_packets.simps) (simp add: p)
  next
    case False
    then show ?thesis
      using 1 p
      by (subst send_packets.simps, subst file_packets.simps) (simp add: Let_def)
  qed
qed

definition download_script :: "bytes \<Rightarrow> hub_req list" where
  "download_script f =
     [BOOTLOADERMODE, MASSERASE, SETSTARTADDR FLASH_START_ADDRESS] @ map Write_Dev (file_packets f)"

lemma download_refines_script:
  "stm_downloadFirmware dev tr f = send_all dev tr 0 (download_script f)"
  by (simp add: stm_downloadFirmware_def download_script_def send_packets_script Let_def)

subsection \<open>What the packets are\<close>

lemma fill_packet_take:
  "length d < STM_MAX_PACKET_LENGTH \<Longrightarrow>
   fill_packet d fp = (d @ take (STM_MAX_PACKET_LENGTH - length d) fp,
                       drop (STM_MAX_PACKET_LENGTH - length d) fp)"
proof (induction d fp rule: fill_packet.induct)
  case (2 d c fp)
  show ?case
  proof (cases "STM_MAX_PACKET_LENGTH \<le> length (d @ [c])")
    case True
    with 2 have "STM_MAX_PACKET_LENGTH - length d = 1" by simp
    with True show ?thesis by (simp add: Let_def)
  next
    case False
    with 2 obtain k where "STM_MAX_PACKET_LENGTH - length d = Suc k"
      "STM_MAX_PACKET_LENGTH - Suc (length d) = k"
      by (metis Suc_diff_Suc diff_Suc_Suc diff_Suc_1)
    with 2 False show ?thesis by (simp add: Let_def)
  qed
qed simp

definition fill_count :: "nat \<Rightarrow> nat" where
  "fill_count n = (8 - n mod 8) mod 8"

lemma fill_count_0: "n mod 8 = 0 \<Longrightarrow> fill_count n = 0"
  by (simp add: fill_count_def)

lemma fill_count_Suc:
  assumes "0 < n mod 8"
  shows "fill_count n = Suc (fill_count (Suc n))"
proof -
  define m where "m = n mod 8"
  have m: "m < 8" "0 < m" using assms by (auto simp: m_def)
  have "Suc n mod 8 = Suc m mod 8" by (simp add: m_def mod_Suc_eq)
  then have "fill_count n = (8 - m) mod 8" "fill_count (Suc n) = (8 - Suc m mod 8) mod 8"
    by (simp_all add: fill_count_def m_def)
  moreover have "m \<in> {1, 2, 3, 4, 5, 6, 7}" using m by auto
  ultimately show ?thesis by auto
qed

lemma fill_count_total:
  assumes "0 < n" and "n \<le> 256"
  shows "0 < n + fill_count n \<and> n + fill_count n \<le> 256 \<and> (n + fill_count n) mod 8 = 0"
proof -
  define q m where "q = n div 8" and "m = n mod 8"
  have n: "n = 8 * q + m" and m: "m < 8" by (simp_all add: q_def m_def)
  show ?thesis
  proof (cases "m = 0")
    case True
    then have "fill_count n = 0" by (simp add: fill_count_def m_def)
    with assms True n show ?thesis by simp
  next
    case False
    then have "fill_count n = 8 - m"
      using m by (simp add: fill_count_def m_def)
    then have t: "n + fill_count n = 8 * Suc q" using n m by simp
    have "8 * q < 256" using n False assms by linarith
    then have "Suc q \<le> 32" by simp
    then show ?thesis unfolding t by simp
  qed
qed

lemma pad_packet_append:
  "length d \<le> 256 \<Longrightarrow> pad_packet d = d @ replicate (fill_count (length d)) FLASH_FILL"
proof (induction d rule: pad_packet.induct)
  case (1 d)
  show ?case
  proof (cases "length d < 256 \<and> 0 < length d mod 8")
    case True
    then show ?thesis
      using 1 by (subst pad_packet.simps) (simp add: STM_MAX_PACKET_LENGTH_def fill_count_Suc)
  next
    case False
    with 1 have "length d mod 8 = 0" by auto
    then show ?thesis
      by (subst pad_packet.simps) (simp add: fill_count_0)
  qed
qed

lemma stm_getpacket_eq:
  "stm_getpacket fp =
     (take 256 fp @ replicate (fill_count (length (take 256 fp))) FLASH_FILL, drop 256 fp)"
  using fill_packet_take [of "[]" fp]
  by (simp add: stm_getpacket_def STM_MAX_PACKET_LENGTH_def pad_packet_append)

definition padded :: "bytes \<Rightarrow> bytes" where
  "padded f = f @ replicate (fill_count (length f)) FLASH_FILL"

lemma file_packets_Nil [simp]: "file_packets [] = []"
  by (subst file_packets.simps) (simp add: stm_getpacket_eq fill_count_def)

lemma file_packets_step:
  "fp \<noteq> [] \<Longrightarrow> file_packets fp = fst (stm_getpacket fp) # file_packets (drop 256 fp)"
  by (subst file_packets.simps) (simp add: stm_getpacket_eq)

lemma concat_file_packets: "concat (file_packets fp) = padded fp"
proof (induction "length fp" arbitrary: fp rule: less_induct)
  case less
  consider "fp = []" | "fp \<noteq> []" "length fp \<le> 256" | "256 < length fp" by linarith
  then show ?case
  proof cases
    case 1
    then show ?thesis by (simp add: padded_def fill_count_def)
  next
    case 2
    then show ?thesis
      by (simp add: file_packets_step stm_getpacket_eq padded_def)
  next
    case 3
    then have "concat (file_packets (drop 256 fp)) = padded (drop 256 fp)"
      using less by simp
    moreover have "length fp mod 8 = (length (drop 256 fp) + 8 * 32) mod 8"
      using 3 by simp
    then have "fill_count (length (drop 256 fp)) = fill_count (length fp)"
      by (simp only: fill_count_def mod_mult_self2)
    moreover have "file_packets fp = fst (stm_getpacket fp) # file_packets (drop 256 fp)"
      using 3 by (intro file_packets_step) auto
    moreover have "length (take 256 fp) = 256" using 3 by simp
    moreover have "fill_count 256 = 0" by (simp add: fill_count_def)
    ultimately have "concat (file_packets fp) =
        take 256 fp @ drop 256 fp @ replicate (fill_count (length fp)) FLASH_FILL"
      by (simp only: stm_getpacket_eq padded_def concat.simps fst_conv
          append_assoc replicate_0 append_Nil)
    then show ?thesis by (simp add: padded_def)
  qed
qed

lemma packet_sizes:
  "p \<in> set (file_packets fp) \<Longrightarrow> 0 < length p \<and> length p \<le> 256 \<and> length p mod 8 = 0"
proof (induction "length fp" arbitrary: fp rule: less_induct)
  case less
  then have ne: "fp \<noteq> []" by auto
  then have "p = fst (stm_getpacket fp) \<or> p \<in> set (file_packets (drop 256 fp))"
    using less.prems by (auto simp: file_packets_step)
  then show ?case
  proof
    assume "p = fst (stm_getpacket fp)"
    moreover have "0 < length (take 256 fp)" "length (take 256 fp) \<le> 256"
      using ne by auto
    ultimately show ?thesis
      using fill_count_total [of "length (take 256 fp)"]
      by (simp only: stm_getpacket_eq fst_conv length_append length_replicate)
  next
    assume "p \<in> set (file_packets (drop 256 fp))"
    then show ?thesis
      using less.hyps [of "drop 256 fp"] ne by simp
  qed
qed

subsection \<open>Properties\<close>

text \<open>C1: a download sends the request for the bootloader, the erase, the start address
  and then packets that together are the firmware file padded with fill bytes to a multiple of
  eight; every packet holds between 1 and 256 bytes, a multiple of eight. It sends them in this
  order and stops at the first request the driver refuses: a result that is not negative means
  that all were accepted, a negative one that the last request sent was refused.\<close>

theorem download_sends_padded_file:
  "\<exists>packets.
     concat packets = padded f
     \<and> list_all (\<lambda>p. 0 < length p \<and> length p \<le> 256 \<and> length p mod 8 = 0) packets
     \<and> (let script = [BOOTLOADERMODE, MASSERASE, SETSTARTADDR 0x08000000] @ map Write_Dev packets;
            (ret, tr') = stm_downloadFirmware dev tr f
        in if 0 \<le> ret then tr' = tr @ script
           else \<exists>n. n < length script \<and> tr' = tr @ take (Suc n) script
                  \<and> status (dev (tr @ take n script) (script ! n)) < 0)"
proof (intro exI conjI)
  show "concat (file_packets f) = padded f" by (rule concat_file_packets)
  show "list_all (\<lambda>p. 0 < length p \<and> length p \<le> 256 \<and> length p mod 8 = 0) (file_packets f)"
    using packet_sizes by (simp add: list_all_iff)
  have "[BOOTLOADERMODE, MASSERASE, SETSTARTADDR 0x08000000] @ map Write_Dev (file_packets f)
      = download_script f"
    by (simp add: download_script_def FLASH_START_ADDRESS_def)
  then show "let script = [BOOTLOADERMODE, MASSERASE, SETSTARTADDR 0x08000000]
          @ map Write_Dev (file_packets f);
        (ret, tr') = stm_downloadFirmware dev tr f
      in if 0 \<le> ret then tr' = tr @ script
         else \<exists>n. n < length script \<and> tr' = tr @ take (Suc n) script
                \<and> status (dev (tr @ take n script) (script ! n)) < 0"
    using send_all_ok [of dev tr 0 "download_script f"]
      send_all_stops [of dev tr 0 "download_script f"]
    by (auto simp: download_refines_script Let_def split: prod.splits)
qed

text \<open>The firmware file the flasher uses: the add-on file if it is readable, otherwise the
  stock file.\<close>

definition fw_file :: "fsys \<Rightarrow> string option" where
  "fw_file fs =
     (case read_file fs (fw_path FW_APK) of
        Some f \<Rightarrow> Some f
      | None \<Rightarrow> read_file fs (fw_path FW_STOCK))"

lemma stm_getFwFile_cases:
  "case fw_file fs of
     None \<Rightarrow> fst (stm_getFwFile fs) = - 3
   | Some f \<Rightarrow> fst (stm_getFwFile fs) = 0 \<and> read_file fs (snd (stm_getFwFile fs)) = Some f"
  by (auto simp: fw_file_def stm_getFwFile_def stm_getFwFile_type_def split: option.splits)

lemma stm_getFwFile_Some:
  assumes "fw_file fs = Some f"
  obtains p where "stm_getFwFile fs = (0, p)" and "read_file fs p = Some f"
  using stm_getFwFile_cases [of fs] assms by (cases "stm_getFwFile fs") auto

lemma stm_getFwFile_None:
  assumes "fw_file fs = None"
  obtains p where "stm_getFwFile fs = (- 3, p)"
  using stm_getFwFile_cases [of fs] assms by (cases "stm_getFwFile fs") auto

definition flash_image :: "string \<Rightarrow> bytes" where
  "flash_image f = bytes_of f @ replicate (FLASH_SIZE - length f) FLASH_FILL"

lemma stm_calcFwFileCrc_eq:
  "stm_calcFwFileCrc fs = map_option (\<lambda>f. crc32_ref (flash_image f)) (fw_file fs)"
proof (cases "fw_file fs")
  case None
  then show ?thesis
    by (auto elim!: stm_getFwFile_None simp: stm_calcFwFileCrc_def)
next
  case (Some f)
  then obtain p where "stm_getFwFile fs = (0, p)" "read_file fs p = Some f"
    by (rule stm_getFwFile_Some)
  with Some show ?thesis
    by (simp add: stm_calcFwFileCrc_def calculateFileCrc32_padded calculateCrc32_ref
        flash_image_def)
qed

lemma version_of_missing: "fw_file fs = None \<Longrightarrow> stm_getFwVersionFromFile env fs = ''''"
  by (erule stm_getFwFile_None) (simp add: stm_getFwVersionFromFile_def)

text \<open>C20: the version check reports a match exactly when there is no firmware file with a
  readable version (a corrupt file is not downloaded; the comment of the function says that an
  error in obtaining any piece of data gives a mismatch, which holds for the data of the hub
  only), or when the hub reports the version of the file and a checksum that is not zero and is
  the CRC-32 of the file padded with zeros to the size of the flash.\<close>

theorem version_match_iff:
  "fst (stm_versionCheck env dev fs tr) = STM_VERSION_MATCH \<longleftrightarrow>
     stm_getFwVersionFromFile env fs = ''''
     \<or> (let (hwVersion, tr1) = getVersionStr env dev tr;
             hwCrc = fst (getFlashCrc env dev tr1)
         in hwVersion = stm_getFwVersionFromFile env fs \<and> hwCrc \<noteq> 0
            \<and> map_option (\<lambda>f. crc32_ref (flash_image f)) (fw_file fs) = Some hwCrc)"
proof (cases "fw_file fs")
  case None
  then show ?thesis
    by (simp add: stm_versionCheck_def version_of_missing)
next
  case (Some f)
  then show ?thesis
    by (auto simp: stm_versionCheck_def stm_calcFwFileCrc_eq Let_def STM_VERSION_MATCH_def
        STM_VERSION_MISMATCH_def split: prod.splits)
qed

lemma blacklisted_iff:
  "blacklisted c ls \<longleftrightarrow>
     (\<exists>l \<in> set ls. hd l \<noteq> CHR ''#'' \<and> scan_hex (length l) l = Some c)"
  by (induction c ls rule: blacklisted.induct) (auto split: option.splits)

text \<open>Processing the blacklist touches at most the add-on firmware, which is deleted
  exactly when it is readable, the blacklist is readable and one of its lines that is not a
  comment starts with the checksum of the file, and the file system allows it; the flasher then
  falls back to the stock firmware.\<close>

theorem blacklist_deletes_addon:
  "let apk = fw_path FW_APK; fs' = stm_processBlackList fs;
       listed = (\<exists>bl f. read_file fs STM_FIRMWARE_BLACKLIST = Some bl \<and> read_file fs apk = Some f
         \<and> (\<exists>l \<in> set (getlines [] bl). hd l \<noteq> CHR ''#''
               \<and> scan_hex (length l) l = Some (crc32_ref (flash_image f))))
   in fs' = (if listed \<and> \<not> write_fails fs apk
             then fs\<lparr>content := (content fs)(apk := None)\<rparr> else fs)
      \<and> fw_file fs' = (if listed \<and> \<not> write_fails fs apk
                       then read_file fs (fw_path FW_STOCK) else fw_file fs)"
proof (cases "read_file fs STM_FIRMWARE_BLACKLIST")
  case None
  then show ?thesis by (simp add: stm_processBlackList_def Let_def)
next
  case (Some bl)
  show ?thesis
  proof (cases "read_file fs (fw_path FW_APK)")
    case None
    then show ?thesis
      by (simp add: stm_processBlackList_def stm_getFwFile_type_def Let_def)
  next
    case apk: (Some f)
    have crc: "calculateFileCrc32 fs (fw_path FW_APK) FLASH_SIZE FLASH_FILL
        = Some (crc32_ref (flash_image f))"
      using apk by (simp add: calculateFileCrc32_padded calculateCrc32_ref flash_image_def)
    have "stm_processBlackList fs =
        (if blacklisted (crc32_ref (flash_image f)) (getlines [] bl)
         then unlink_file fs (fw_path FW_APK) else fs)"
      using Some apk
      by (simp only: stm_processBlackList_def stm_getFwFile_type_def Let_def prod.case
          option.case crc option.distinct if_False) simp
    then show ?thesis
      using Some apk
      by (auto simp: blacklisted_iff unlink_file_def fw_file_def read_file_def Let_def)
  qed
qed

subsection \<open>The version of a firmware file\<close>

text \<open>The trailer the build appends: the flash address of the version string as eight
  hexadecimal digits and a line feed.\<close>

definition hex_char :: "nat \<Rightarrow> char" where
  "hex_char d = char_of (if d < 10 then 48 + d else 87 + d)"

primrec show_hex :: "nat \<Rightarrow> nat \<Rightarrow> string" where
  "show_hex 0 n = []"
| "show_hex (Suc k) n = show_hex k (n div 16) @ [hex_char (n mod 16)]"

lemma hex_val_hex_char [simp]:
  assumes "d < 16"
  shows "hex_val (hex_char d) = Some d"
proof -
  have "(of_char (hex_char d) :: nat) = (if d < 10 then 48 + d else 87 + d)"
    using assms by (simp add: hex_char_def)
  then show ?thesis
    using assms by (simp add: hex_val_def)
qed

lemma hex_char_not:
  assumes "d < 16"
  shows "\<not> is_space (hex_char d)" and "hex_char d \<noteq> CHR ''-''" and "hex_char d \<noteq> CHR ''+''"
    and "is_hex (hex_char d)"
proof -
  show h: "is_hex (hex_char d)" using assms by (simp add: is_hex_def)
  have "\<not> is_hex (CHR '' '')" "\<not> is_hex (CHR 0x09)" "\<not> is_hex (CHR 0x0A)" "\<not> is_hex (CHR 0x0B)"
    "\<not> is_hex (CHR 0x0C)" "\<not> is_hex (CHR 0x0D)" "\<not> is_hex (CHR ''-'')" "\<not> is_hex (CHR ''+'')"
    by (simp_all add: is_hex_def hex_val_def)
  with h show "\<not> is_space (hex_char d)" "hex_char d \<noteq> CHR ''-''" "hex_char d \<noteq> CHR ''+''"
    by (auto simp: is_space_def)
qed

definition hex_byte :: "nat \<Rightarrow> string" where
  "hex_byte b = [hex_char (b div 16 mod 16), hex_char (b mod 16)]"

lemma scan_hex_byte: "scan_hex 2 (hex_byte b @ rest) = Some (word_of_nat (b mod 256))"
proof -
  have "16 * (b div 16 mod 16) + b mod 16 = b mod 256"
    using mod_mult2_eq [of b 16 16] by simp
  then show ?thesis
    by (simp add: hex_byte_def scan_hex_def hex_field_def hex_char_not Let_def)
qed

lemma show_hex_two: "show_hex (Suc (Suc k)) n = show_hex k (n div 256) @ hex_byte n"
  by (simp add: hex_byte_def div_mult2_eq [symmetric])

lemma show_hex_8:
  "show_hex 8 n = hex_byte (n div 256 div 256 div 256) @ hex_byte (n div 256 div 256)
     @ hex_byte (n div 256) @ hex_byte n"
proof -
  have "8 = Suc (Suc (Suc (Suc (Suc (Suc (Suc (Suc 0)))))))" by simp
  then show ?thesis
    by (simp only: show_hex_two append_assoc) simp
qed

lemma length_hex_byte [simp]: "length (hex_byte b) = 2"
  by (simp add: hex_byte_def)

lemma convert_hex_bytes:
  "convert_loop (pre @ concat (map hex_byte bs)) (length pre + 2 * length bs) (length pre)
     = map (\<lambda>b. word_of_nat b) bs"
proof (induction bs arbitrary: pre)
  case Nil
  show ?case by (subst convert_loop.simps) simp
next
  case (Cons b bs)
  have "(ucast (word_of_nat (b mod 256) :: 32 word) :: 8 word) = word_of_nat b"
    by (rule word_unat_eq_iff [THEN iffD2]) (simp add: unsigned_ucast_eq unsigned_of_nat take_bit_nat_def mod_mod_cancel)
  with Cons [of "pre @ hex_byte b"] show ?case
    by (subst convert_loop.simps) (simp add: scan_hex_byte)
qed

lemma convert_hex_8:
  "stm_convertAsciiToHex (show_hex 8 n) 8 =
     [word_of_nat (n div 256 div 256 div 256), word_of_nat (n div 256 div 256),
      word_of_nat (n div 256), word_of_nat n]"
  using convert_hex_bytes [of "[]"
      "[n div 256 div 256 div 256, n div 256 div 256, n div 256, n]"]
  by (simp add: stm_convertAsciiToHex_def show_hex_8)

lemma join_offset:
  assumes "n < 2 ^ 24"
  shows "unat (push_bit 16 (ucast (word_of_nat (n div 256 div 256) :: 8 word))
      + push_bit 8 (ucast (word_of_nat (n div 256) :: 8 word))
      + ucast (word_of_nat n :: 8 word) :: 32 word) = n"
proof -
  have u: "(ucast (word_of_nat k :: 8 word) :: 32 word) = word_of_nat (k mod 256)" for k
    by (rule word_unat_eq_iff [THEN iffD2]) (simp add: unsigned_ucast_eq unsigned_of_nat take_bit_nat_def mod_mod_cancel)
  have sum: "65536 * (n div 256 div 256) + 256 * (n div 256 mod 256) + n mod 256 = n"
    using mult_div_mod_eq [of 256 n] mult_div_mod_eq [of 256 "n div 256"] by linarith
  have "n div 256 div 256 < 256" using assms by (simp add: div_mult2_eq [symmetric] less_mult_imp_div_less)
  then have "(push_bit 16 (ucast (word_of_nat (n div 256 div 256) :: 8 word))
      + push_bit 8 (ucast (word_of_nat (n div 256) :: 8 word))
      + ucast (word_of_nat n :: 8 word) :: 32 word)
      = word_of_nat (65536 * (n div 256 div 256) + 256 * (n div 256 mod 256) + n mod 256)"
    by (simp add: u push_bit_eq_mult algebra_simps)
  also have "\<dots> = word_of_nat n" by (simp only: sum)
  finally show ?thesis
    using assms by (simp add: unsigned_of_nat take_bit_nat_eq_self)
qed

lemma version_offset_trailer:
  assumes "off < 2 ^ 24"
  shows "version_offset env (show_hex 8 (base * 16777216 + off)) = off"
proof -
  have split: "(base * 65536 + k) div 256 = base * 256 + k div 256"
    "(base * 16777216 + k) div 256 = base * 65536 + k div 256" for k
    by simp_all
  have mult: "(word_of_nat (m * 256 + k) :: 8 word) = word_of_nat k" for m k
  proof -
    have "(m * 256 + k) mod 2 ^ 8 = k mod 2 ^ 8" by simp
    then show ?thesis
      by (simp only: word_unat_eq_iff unsigned_of_nat take_bit_nat_def len_of_numeral_defs) simp
  qed
  have w: "(word_of_nat (base * 256 + k) :: 8 word) = word_of_nat k"
    "(word_of_nat (base * 65536 + k) :: 8 word) = word_of_nat k"
    "(word_of_nat (base * 16777216 + k) :: 8 word) = word_of_nat k" for k
    using mult [of base k] mult [of "base * 256" k] mult [of "base * 65536" k]
    by (simp_all only: mult.assoc) simp_all
  show ?thesis
    using join_offset [OF assms]
    by (simp add: version_offset_def fileOffsetLen_def convert_hex_8 overlay_def split w
        del: of_nat_add of_nat_mult)
qed

lemma read_version_stop:
  assumes "CHR 0x00 \<notin> set v" and "length acc + length v \<le> vmax"
  shows "read_version vmax (v @ CHR 0x00 # rest) acc = (Some (CHR 0x00), acc @ v)"
  using assms by (induction v arbitrary: acc) auto

lemma length_show_hex [simp]: "length (show_hex k n) = k"
  by (induction k arbitrary: n) auto

text \<open>C25: a firmware file whose last nine bytes are the flash address of the version string
  as eight hexadecimal digits and a line feed gives that string: the top byte of the address is
  the base of the flash and is ignored, the other three are the position in the file. The
  string has to end with a null byte and leave two places free in the buffer.\<close>

theorem version_string_found:
  assumes "fw_file fs = Some (body @ show_hex 8 (base * 2 ^ 24 + length pre) @ [CHR 0x0A])"
    and "body = pre @ v @ CHR 0x00 # rest"
    and "length pre < 2 ^ 24"
    and "CHR 0x00 \<notin> set v" and "length v + 2 \<le> FW_VERSION_STR_MAX_LEN env"
  shows "stm_getFwVersionFromFile env fs = v"
proof -
  let ?n = "base * 2 ^ 24 + length pre"
  let ?f = "body @ show_hex 8 ?n @ [CHR 0x0A]"
  obtain p where p: "stm_getFwFile fs = (0, p)" "read_file fs p = Some ?f"
    using assms(1) by (rule stm_getFwFile_Some)
  have "drop (length ?f - fileOffsetLen) ?f = show_hex 8 ?n @ [CHR 0x0A]"
    by (simp add: fileOffsetLen_def)
  then have t: "take (fileOffsetLen - 1) (drop (length ?f - fileOffsetLen) ?f) = show_hex 8 ?n"
    by (simp add: fileOffsetLen_def)
  have o: "version_offset env (show_hex 8 ?n) = length pre"
    using version_offset_trailer [of "length pre" env base] assms(3) by simp
  have d: "drop (length pre) ?f = v @ CHR 0x00 # (rest @ show_hex 8 ?n @ [CHR 0x0A])"
    by (simp add: assms(2))
  have r: "read_version (FW_VERSION_STR_MAX_LEN env) (drop (length pre) ?f) '''' =
      (Some (CHR 0x00), v)"
    unfolding d using read_version_stop [of v "[]"] assms(4,5) by simp
  have l: "\<not> length ?f < fileOffsetLen" by (simp add: fileOffsetLen_def)
  show ?thesis
    using assms(5)
    by (simp only: stm_getFwVersionFromFile_def p prod.case Let_def option.case l if_False t o r)
      auto
qed

text \<open>An environment for examples, and a system with a stock firmware file only.\<close>

definition sample_env :: hub_env where
  "sample_env =
     \<lparr>vmm = (\<lambda>_. None), FW_VERSION_LEN = 0x01, FW_VERSION_STR = 0x02, FW_CRC = 0x03,
      BYPASS_MODE = 0x04, getMaxRx = 32, getMaxTx = 32, FW_VERSION_STR_MAX_LEN = 64,
      FW_VERSION_SIZE = 64, MOTOSH_PASSTHROUGH_SIZE = 40, sh_fd_open = True,
      garbage = (\<lambda>_. 0xA5)\<rparr>"

definition stock_fs :: "string \<Rightarrow> fsys" where
  "stock_fs f = \<lparr>content = (\<lambda>p. if p = fw_path FW_STOCK then Some f else None),
                write_fails = (\<lambda>_. False)\<rparr>"

lemma fw_file_stock_fs: "fw_file (stock_fs f) = Some f"
  by (simp add: fw_file_def stock_fs_def read_file_def)

theorem version_string_found_witness:
  "stm_getFwVersionFromFile sample_env
     (stock_fs ((''HDR'' @ ''v12'' @ CHR 0x00 # ''code'') @ show_hex 8 (8 * 2 ^ 24 + 3) @ [CHR 0x0A])) =
   ''v12''"
  by (rule version_string_found [where base = 8 and pre = "''HDR''" and rest = "''code''"])
    (simp_all add: fw_file_stock_fs sample_env_def)

end
