(* ===== verification/Motosh_Main.thy ===== *)
theory Motosh_Main
  imports Flash_Loader
begin

text \<open>
  The command line of the flasher (\<open>main\<close> of \<open>motosh_bin/motosh.cpp\<close>): parsing
  the mode, the boot sequence that decides whether to download and retries, and the debugging
  commands. A run gives the exit value and the state, or \<open>None\<close> where the code would
  access memory outside a buffer. \<open>help(1)\<close> exits with 0.
\<close>

section \<open>State and modes\<close>

datatype eStm_Mode =
    BOOTLOADER | NORMAL | DEBUG | FACTORY | VERSION | TBOOT | TREAD | TWRITE | TMWRITE | TMWRRD
  | READWRITE | PASSTHRU | LOWPOWER_MODE | MASS_ERASE_PART | INVALID

text \<open>The files, the requests sent so far, whether \<open>hw.motosh.booted\<close> was set to 1,
  and the shell commands run.\<close>

record motosh =
  m_fs :: fsys
  m_trace :: trace
  m_booted :: bool
  m_system :: "string list"

type_synonym run = "(int \<times> motosh) option"

definition parse_mode :: "string \<Rightarrow> eStm_Mode" where
  "parse_mode arg =
     (if arg = ''boot'' then BOOTLOADER
      else if arg = ''normal'' then NORMAL
      else if arg = ''tboot'' then TBOOT
      else if arg = ''tread'' then TREAD
      else if arg = ''twrite'' then TWRITE
      else if arg = ''tmread'' then TMWRRD
      else if arg = ''tmwrite'' then TMWRITE
      else if arg = ''debug'' then DEBUG
      else if arg = ''factory'' then FACTORY
      else if arg = ''getversion'' then VERSION
      else if arg = ''readwrite'' then READWRITE
      else if arg = ''passthrough'' then PASSTHRU
      else if arg = ''lowpower'' then LOWPOWER_MODE
      else if arg = ''masserase'' then MASS_ERASE_PART
      else INVALID)"

text \<open>\<open>motosh_ioctl\<close> on the state: the result, the bytes stored in the argument, and
  the new state.\<close>

definition motosh_ioctl :: "hub_dev \<Rightarrow> motosh \<Rightarrow> hub_req \<Rightarrow> int \<times> bytes \<times> motosh" where
  "motosh_ioctl dev st rq =
     (let (r, tr) = ioctl_loop dev (m_trace st) rq
      in (status r, out_data r, st\<lparr>m_trace := tr\<rparr>))"

section \<open>Boot\<close>

text \<open>Up to \<open>n\<close> readings of the checksum, until one is not zero.\<close>

primrec wait_for_hub :: "hub_env \<Rightarrow> hub_dev \<Rightarrow> nat \<Rightarrow> trace \<Rightarrow> int \<times> trace" where
  "wait_for_hub env dev 0 tr = (STM_FAILURE, tr)"
| "wait_for_hub env dev (Suc n) tr =
     (let (hwCrc, tr) = getFlashCrc env dev tr
      in if hwCrc \<noteq> 0 then (STM_SUCCESS, tr) else wait_for_hub env dev n tr)"

text \<open>The loop of downloads: the number of tries that failed, and the trace. After a
  download the hub is reset and its version checked, once more when the first check fails;
  both results are only logged.\<close>

function download_tries ::
    "hub_env \<Rightarrow> hub_dev \<Rightarrow> fsys \<Rightarrow> bytes \<Rightarrow> nat \<Rightarrow> trace \<Rightarrow> nat \<times> trace" where
  "download_tries env dev fs filep tries tr =
     (if tries < STM_DOWNLOADRETRIES
      then
        let (r, tr) = stm_downloadFirmware dev tr filep
        in if STM_SUCCESS \<le> r
           then
             let (r, tr) = ioctl_loop dev tr NORMALMODE;
                 (v, tr) = stm_versionCheck env dev fs tr
             in if v \<noteq> STM_VERSION_MATCH
                then let (v, tr) = stm_versionCheck env dev fs tr in (tries, tr)
                else (tries, tr)
           else download_tries env dev fs filep (Suc tries) tr
      else (tries, tr))"
  by auto
termination
  by (relation "measure (\<lambda>(env, dev, fs, filep, tries, tr). STM_DOWNLOADRETRIES - tries)") auto

declare download_tries.simps [simp del]

definition boot :: "hub_env \<Rightarrow> hub_dev \<Rightarrow> bool \<Rightarrow> motosh \<Rightarrow> int \<times> motosh" where
  "boot env dev forceBoot st =
     (let st = st\<lparr>m_fs := stm_processBlackList (m_fs st)\<rparr>;
          (ret, fw_file_name) = stm_getFwFile (m_fs st)
      in if ret < 0 then (ret, st)
         else
           let (ret, _, st) = motosh_ioctl dev st NORMALMODE
           in if ret < 0 then (ret, st)
              else
                let (ret, tr) = wait_for_hub env dev 20 (m_trace st);
                    (v, tr) = (if forceBoot then (STM_VERSION_MISMATCH, tr)
                               else stm_versionCheck env dev (m_fs st) tr)
                in if v = STM_VERSION_MISMATCH
                   then case read_file (m_fs st) fw_file_name of
                          None \<Rightarrow> (- 1, st\<lparr>m_trace := tr\<rparr>)
                        | Some f \<Rightarrow>
                            let (tries, tr) = download_tries env dev (m_fs st) (bytes_of f) 0 tr;
                                ret = (if STM_DOWNLOADRETRIES \<le> tries then - 1 else 0)
                            in if ret < 0 then (ret, st\<lparr>m_trace := tr\<rparr>)
                               else (ret, st\<lparr>m_trace := tr, m_booted := True\<rparr>)
                   else (ret, st\<lparr>m_trace := tr, m_booted := True\<rparr>))"

section \<open>Buffers of the debugging commands\<close>

definition store_at :: "nat \<Rightarrow> bytes \<Rightarrow> bytes \<Rightarrow> bytes option" where
  "store_at off vs buf =
     (if off + length vs \<le> length buf \<or> vs = [] then Some (take off buf @ vs @ drop (off + length vs) buf)
      else None)"

text \<open>Conversion of an argument into a buffer: the count of bytes and the new buffer.\<close>

definition convert_at :: "nat \<Rightarrow> string \<Rightarrow> bytes \<Rightarrow> (nat \<times> bytes) option" where
  "convert_at off arg buf =
     (let vs = stm_convertAsciiToHex arg (length arg)
      in map_option (Pair (length vs)) (store_at off vs buf))"

definition hexinput_size :: nat where "hexinput_size = 250"

section \<open>Test commands\<close>

definition cmd_normal :: "hub_dev \<Rightarrow> motosh \<Rightarrow> run" where
  "cmd_normal dev st = (let (ret, _, st) = motosh_ioctl dev st NORMALMODE in Some (ret, st))"

definition cmd_tboot :: "hub_dev \<Rightarrow> motosh \<Rightarrow> run" where
  "cmd_tboot dev st = (let (ret, _, st) = motosh_ioctl dev st TEST_BOOTMODE in Some (ret, st))"

primrec test_reads :: "hub_dev \<Rightarrow> nat \<Rightarrow> int \<Rightarrow> motosh \<Rightarrow> int \<times> motosh" where
  "test_reads dev 0 ret st = (ret, st)"
| "test_reads dev (Suc n) ret st =
     (let (ret, _, st) = motosh_ioctl dev st TEST_READ in test_reads dev n ret st)"

definition cmd_tread :: "hub_env \<Rightarrow> hub_dev \<Rightarrow> string list \<Rightarrow> motosh \<Rightarrow> run" where
  "cmd_tread env dev argv st =
     (if length argv < 4 then Some (0, st)
      else case convert_at 0 (argv ! 2) (fresh_bytes env hexinput_size) of
             None \<Rightarrow> None
           | Some (_, hexinput) \<Rightarrow>
               let (ret, bs, st) = motosh_ioctl dev st (TEST_WRITE hexinput)
               in case convert_at 0 (argv ! 3) (overlay bs hexinput) of
                    None \<Rightarrow> None
                  | Some (_, hexinput) \<Rightarrow> Some (test_reads dev (unat (hexinput ! 0)) ret st))"

text \<open>One request for each argument.\<close>

fun test_writes :: "hub_dev \<Rightarrow> string list \<Rightarrow> bytes \<Rightarrow> int \<Rightarrow> motosh \<Rightarrow> run" where
  "test_writes dev [] hexinput ret st = Some (ret, st)"
| "test_writes dev (arg # args) hexinput ret st =
     (case convert_at 0 arg hexinput of
        None \<Rightarrow> None
      | Some (_, hexinput) \<Rightarrow>
          let (ret, bs, st) = motosh_ioctl dev st (TEST_WRITE hexinput)
          in test_writes dev args (overlay bs hexinput) ret st)"

definition cmd_twrite :: "hub_env \<Rightarrow> hub_dev \<Rightarrow> string list \<Rightarrow> motosh \<Rightarrow> run" where
  "cmd_twrite env dev argv st =
     test_writes dev (drop 2 argv) (fresh_bytes env hexinput_size) STM_SUCCESS st"

fun convert_args :: "nat \<Rightarrow> string list \<Rightarrow> bytes \<Rightarrow> bytes option" where
  "convert_args i [] hexinput = Some hexinput"
| "convert_args i (arg # args) hexinput =
     (case convert_at i arg hexinput of
        None \<Rightarrow> None
      | Some (_, hexinput) \<Rightarrow> convert_args (Suc i) args hexinput)"

text \<open>\<open>write\<close> of more bytes than the buffer has reads outside it.\<close>

definition cmd_tmwrite :: "hub_env \<Rightarrow> hub_dev \<Rightarrow> string list \<Rightarrow> motosh \<Rightarrow> run" where
  "cmd_tmwrite env dev argv st =
     (case convert_args 0 (drop 2 argv) (fresh_bytes env hexinput_size) of
        None \<Rightarrow> None
      | Some hexinput \<Rightarrow>
          let count = length argv - 2; rq = Write_Dev (take count hexinput)
          in if hexinput_size < count then None
             else Some (status (dev (m_trace st) rq), st\<lparr>m_trace := m_trace st @ [rq]\<rparr>))"

definition cmd_tmread :: "hub_env \<Rightarrow> hub_dev \<Rightarrow> string list \<Rightarrow> motosh \<Rightarrow> run" where
  "cmd_tmread env dev argv st =
     (if length argv < 4 then Some (0, st)
      else case convert_at 0 (argv ! 2) (fresh_bytes env hexinput_size) of
             None \<Rightarrow> None
           | Some (_, hexinput) \<Rightarrow>
               (case convert_at 1 (argv ! 3) hexinput of
                  None \<Rightarrow> None
                | Some (_, hexinput) \<Rightarrow>
                    let (ret, _, st) = motosh_ioctl dev st (TEST_WRITE_READ hexinput)
                    in Some (ret, st)))"

definition debug_files :: "string list" where
  "debug_files =
     [''stml0xx'', ''spi'', ''led'', ''core'', ''flash'', ''ioctl'', ''irq'', ''queue'', ''reset'',
      ''wake_irq'', ''display'']"

definition debug_command :: "bool \<Rightarrow> string \<Rightarrow> string" where
  "debug_command on file =
     ''echo 'file '' @ hd debug_files @ ''_'' @ file @ ''.c '' @ (if on then ''+'' else ''-'')
       @ ''p' > /sys/kernel/debug/dynamic_debug/control''"

definition cmd_debug :: "hub_env \<Rightarrow> hub_dev \<Rightarrow> string list \<Rightarrow> motosh \<Rightarrow> run" where
  "cmd_debug env dev argv st =
     (if length argv < 3 then Some (0, st)
      else case convert_at 0 (argv ! 2) (fresh_bytes env hexinput_size) of
             None \<Rightarrow> None
           | Some (_, hexinput) \<Rightarrow>
               let delay = (ucast (hexinput ! 0) :: 16 word);
                   (ret, _, st) = motosh_ioctl dev st (SET_DEBUG delay)
               in Some (ret, st\<lparr>m_system := m_system st
                    @ map (debug_command (delay \<noteq> 0)) (tl debug_files)\<rparr>))"

definition cmd_factory :: "hub_dev \<Rightarrow> motosh \<Rightarrow> run" where
  "cmd_factory dev st = (let (ret, _, st) = motosh_ioctl dev st SET_FACTORY_MODE in Some (ret, st))"

section \<open>Register access: readwrite\<close>

definition STM_MAX_GENERIC_DATA :: nat where "STM_MAX_GENERIC_DATA = 512"
definition STM_MAX_GENERIC_HEADER :: nat where "STM_MAX_GENERIC_HEADER = 4"
definition STM_MAX_GENERIC_COMMAND_LEN :: nat where "STM_MAX_GENERIC_COMMAND_LEN = 3"

lemmas generic_consts =
  STM_MAX_GENERIC_DATA_def STM_MAX_GENERIC_HEADER_def STM_MAX_GENERIC_COMMAND_LEN_def

definition c_atoi :: "string \<Rightarrow> int" where
  "c_atoi s = (case scan_int s of None \<Rightarrow> 0 | Some (i, _) \<Rightarrow> i)"

text \<open>Each argument has to give exactly one byte. The bytes are stored from the offset on;
  \<open>Inl ()\<close> is the early exit.\<close>

fun read_args :: "nat \<Rightarrow> string list \<Rightarrow> bytes \<Rightarrow> (unit + bytes) option" where
  "read_args off [] buf = Some (Inr buf)"
| "read_args off (arg # args) buf =
     (case convert_at off arg buf of
        None \<Rightarrow> None
      | Some (result, buf) \<Rightarrow> if result \<noteq> 1 then Some (Inl ()) else read_args (Suc off) args buf)"

definition cmd_readwrite :: "hub_env \<Rightarrow> hub_dev \<Rightarrow> string list \<Rightarrow> motosh \<Rightarrow> run" where
  "cmd_readwrite env dev argv st =
     (if length argv < 7 then Some (0, st)
      else case read_args 0 (take STM_MAX_GENERIC_HEADER (drop STM_MAX_GENERIC_COMMAND_LEN argv))
             (fresh_bytes env STM_MAX_GENERIC_HEADER) of
             None \<Rightarrow> None
           | Some (Inl _) \<Rightarrow> Some (STM_SUCCESS, st)
           | Some (Inr data_header) \<Rightarrow>
               let read_write = (word_of_int (c_atoi (argv ! 2)) :: 32 word);
                   data_size = unat (data_header ! 2) * 256 + unat (data_header ! 3)
               in if STM_MAX_GENERIC_DATA - 1 < data_size then Some (STM_SUCCESS, st)
                  else if data_size = 0 then Some (STM_SUCCESS, st)
                  else if read_write \<noteq> 0
                    \<and> int data_size \<noteq> int (length argv) - int STM_MAX_GENERIC_COMMAND_LEN
                        - int STM_MAX_GENERIC_HEADER
                  then Some (STM_SUCCESS, st)
                  else
                    let data_ptr = data_header @ replicate data_size 0
                    in if read_write \<noteq> 0
                       then case read_args STM_MAX_GENERIC_HEADER
                              (take data_size (drop (STM_MAX_GENERIC_COMMAND_LEN
                                + STM_MAX_GENERIC_HEADER) argv)) data_ptr of
                              None \<Rightarrow> None
                            | Some (Inl _) \<Rightarrow> Some (STM_SUCCESS, st)
                            | Some (Inr data_ptr) \<Rightarrow>
                                let (ret, _, st) = motosh_ioctl dev st (WRITE_REG data_ptr)
                                in Some (ret, st)
                       else
                         let (ret, _, st) = motosh_ioctl dev st (READ_REG data_ptr) in Some (ret, st))"

section \<open>Passthrough, low power, erase\<close>

text \<open>The limit \<open>MOTOSH_PASSTHROUGH_SIZE\<close> is an unsigned number, larger than 6.\<close>

definition cmd_passthrough :: "hub_env \<Rightarrow> hub_dev \<Rightarrow> string list \<Rightarrow> motosh \<Rightarrow> run" where
  "cmd_passthrough env dev argv st =
     (if length argv < 6 then Some (0, st)
      else case read_args 0 (drop 2 argv) (fresh_bytes env (MOTOSH_PASSTHROUGH_SIZE env)) of
             None \<Rightarrow> None
           | Some (Inl _) \<Rightarrow> Some (STM_SUCCESS, st)
           | Some (Inr pt_data) \<Rightarrow>
               let read_write = unat (pt_data ! 4); data_size = unat (pt_data ! 5)
               in if read_write = 0 \<and> MOTOSH_PASSTHROUGH_SIZE env - 1 < data_size
                  then Some (STM_SUCCESS, st)
                  else if read_write \<noteq> 0 \<and> MOTOSH_PASSTHROUGH_SIZE env - 6 < data_size
                  then Some (STM_SUCCESS, st)
                  else
                    let (ret, _, st) = motosh_ioctl dev st (PASSTHROUGH pt_data) in Some (ret, st))"

definition cmd_lowpower :: "hub_dev \<Rightarrow> string list \<Rightarrow> motosh \<Rightarrow> run" where
  "cmd_lowpower dev argv st =
     (if length argv < 3 then Some (0, st)
      else
        let setting = (word_of_int (c_atoi (argv ! 2)) :: 32 word)
        in if setting = 0 \<or> setting = 1
           then let (ret, _, st) = motosh_ioctl dev st (SET_LOWPOWER_MODE setting) in Some (ret, st)
           else Some (STM_FAILURE, st))"

definition cmd_masserase :: "hub_dev \<Rightarrow> motosh \<Rightarrow> run" where
  "cmd_masserase dev st =
     (let (ret, _, st) = motosh_ioctl dev st BOOTLOADERMODE
      in if ret < 0 then Some (ret, st)
         else let (ret, _, st) = motosh_ioctl dev st MASSERASE in Some (ret, st))"

section \<open>main\<close>

definition run_mode ::
    "hub_env \<Rightarrow> hub_dev \<Rightarrow> eStm_Mode \<Rightarrow> string list \<Rightarrow> motosh \<Rightarrow> run" where
  "run_mode env dev emode argv st =
     (case emode of
        BOOTLOADER \<Rightarrow> Some (boot env dev (length argv = 3 \<and> argv ! 2 = ''-f'') st)
      | NORMAL \<Rightarrow> cmd_normal dev st
      | TBOOT \<Rightarrow> cmd_tboot dev st
      | TREAD \<Rightarrow> cmd_tread env dev argv st
      | TWRITE \<Rightarrow> cmd_twrite env dev argv st
      | TMWRITE \<Rightarrow> cmd_tmwrite env dev argv st
      | TMWRRD \<Rightarrow> cmd_tmread env dev argv st
      | VERSION \<Rightarrow>
          let (_, tr) = stm_versionCheck env dev (m_fs st) (m_trace st)
          in Some (STM_SUCCESS, st\<lparr>m_trace := tr\<rparr>)
      | DEBUG \<Rightarrow> cmd_debug env dev argv st
      | FACTORY \<Rightarrow> cmd_factory dev st
      | INVALID \<Rightarrow> Some (STM_FAILURE, st)
      | READWRITE \<Rightarrow> cmd_readwrite env dev argv st
      | PASSTHRU \<Rightarrow> cmd_passthrough env dev argv st
      | LOWPOWER_MODE \<Rightarrow> cmd_lowpower dev argv st
      | MASS_ERASE_PART \<Rightarrow> cmd_masserase dev st)"

text \<open>\<open>dev_open\<close>: the device node can be opened.\<close>

definition motosh_main ::
    "hub_env \<Rightarrow> hub_dev \<Rightarrow> bool \<Rightarrow> string list \<Rightarrow> motosh \<Rightarrow> run" where
  "motosh_main env dev dev_open argv st =
     (if length argv < 2 \<or> argv ! 1 = ''help'' then Some (0, st)
      else if \<not> dev_open then Some (STM_FAILURE, st)
      else run_mode env dev (parse_mode (argv ! 1)) argv st)"

section \<open>Facts\<close>

text \<open>The driver's requests before the \<open>k\<close>-th attempt to download, and whether that
  attempt is accepted.\<close>

primrec attempt_trace :: "hub_dev \<Rightarrow> bytes \<Rightarrow> trace \<Rightarrow> nat \<Rightarrow> trace" where
  "attempt_trace dev f tr 0 = tr"
| "attempt_trace dev f tr (Suc k) = snd (stm_downloadFirmware dev (attempt_trace dev f tr k) f)"

definition accepted :: "hub_dev \<Rightarrow> bytes \<Rightarrow> trace \<Rightarrow> nat \<Rightarrow> bool" where
  "accepted dev f tr k \<longleftrightarrow> 0 \<le> fst (stm_downloadFirmware dev (attempt_trace dev f tr k) f)"

lemma download_tries_count:
  "fst (download_tries env dev fs f k (attempt_trace dev f tr k)) < 3
     \<longleftrightarrow> k < 3 \<and> (\<exists>i. k \<le> i \<and> i < 3 \<and> accepted dev f tr i)"
proof (induction "3 - k" arbitrary: k rule: less_induct)
  case less
  show ?case
  proof (cases "k < 3")
    case False
    then show ?thesis
      by (subst download_tries.simps) (simp add: STM_DOWNLOADRETRIES_def)
  next
    case k: True
    show ?thesis
    proof (cases "accepted dev f tr k")
      case True
      with k show ?thesis
        by (subst download_tries.simps)
          (auto simp: STM_DOWNLOADRETRIES_def STM_SUCCESS_def accepted_def Let_def
            split: prod.splits)
    next
      case False
      then have "fst (download_tries env dev fs f k (attempt_trace dev f tr k)) =
          fst (download_tries env dev fs f (Suc k) (attempt_trace dev f tr (Suc k)))"
        using k by (subst download_tries.simps)
          (auto simp: STM_DOWNLOADRETRIES_def STM_SUCCESS_def accepted_def Let_def
            split: prod.splits)
      also have "\<dots> < 3 \<longleftrightarrow> Suc k < 3 \<and> (\<exists>i. Suc k \<le> i \<and> i < 3 \<and> accepted dev f tr i)"
        using k by (intro less) simp
      also have "\<dots> \<longleftrightarrow> k < 3 \<and> (\<exists>i. k \<le> i \<and> i < 3 \<and> accepted dev f tr i)"
        using k False by (metis Suc_leD Suc_leI le_less_trans le_neq_implies_less)
      finally show ?thesis .
    qed
  qed
qed

text \<open>A download starts with the request for the boot loader, and nothing else sends it.\<close>

definition downloads :: "trace \<Rightarrow> nat" where
  "downloads tr = count_list tr BOOTLOADERMODE"

lemma downloads_snoc [simp]: "downloads (tr @ [rq]) = downloads tr + (if rq = BOOTLOADERMODE then 1 else 0)"
  by (simp add: downloads_def)

lemma downloads_readReg: "readReg env dev tr r n = (b, tr') \<Longrightarrow> downloads tr' = downloads tr"
  by (auto simp: readReg_def retryIoctl_def Let_def split: if_splits)

lemma downloads_reads:
  "downloads (snd (getVersionStr env dev tr)) = downloads tr" "downloads (snd (getFlashCrc env dev tr)) = downloads tr"
  by (auto simp: getVersionStr_def getFlashCrc_def Let_def dest!: downloads_readReg split: prod.split option.split)

lemma downloads_wait: "downloads (snd (wait_for_hub env dev n tr)) = downloads tr"
  by (induction n arbitrary: tr) (simp_all add: case_prod_beta downloads_reads)

lemma downloads_check: "downloads (snd (stm_versionCheck env dev fs tr)) = downloads tr"
  by (simp add: stm_versionCheck_def Let_def case_prod_beta downloads_reads split: option.split)

lemma downloads_send_all: "BOOTLOADERMODE \<notin> set rqs \<Longrightarrow> downloads (snd (send_all dev tr r rqs)) = downloads tr"
  by (induction dev tr r rqs rule: send_all.induct) (auto simp: Let_def)

lemma downloads_firmware: "downloads (snd (stm_downloadFirmware dev tr f)) = Suc (downloads tr)"
proof -
  obtain rqs where r: "download_script f = BOOTLOADERMODE # rqs" "BOOTLOADERMODE \<notin> set rqs"
    by (auto simp: download_script_def)
  show ?thesis unfolding download_refines_script r(1) using downloads_send_all [OF r(2)] by (simp add: Let_def)
qed

lemma downloads_attempts: "downloads (attempt_trace dev f tr k) = downloads tr + k"
  by (induction k) (simp_all add: downloads_firmware)

text \<open>How many attempts the loop makes: up to the first that is accepted, three at most.\<close>

definition attempts :: "hub_dev \<Rightarrow> bytes \<Rightarrow> trace \<Rightarrow> nat" where
  "attempts dev f tr = (if accepted dev f tr 0 then 1 else if accepted dev f tr 1 then 2 else 3)"

lemma download_tries_next:
  assumes "k < 3"
  shows "downloads (snd (download_tries env dev fs f k (attempt_trace dev f tr k))) =
    (if accepted dev f tr k then downloads tr + Suc k
     else downloads (snd (download_tries env dev fs f (Suc k) (attempt_trace dev f tr (Suc k)))))"
proof -
  obtain r tr1 where d: "stm_downloadFirmware dev (attempt_trace dev f tr k) f = (r, tr1)" by fastforce
  have tr1: "downloads tr1 = downloads tr + Suc k"
    using downloads_firmware [of dev "attempt_trace dev f tr k" f] by (simp add: d downloads_attempts)
  show ?thesis using assms tr1
    by (subst download_tries.simps)
      (simp add: STM_DOWNLOADRETRIES_def STM_SUCCESS_def accepted_def d Let_def case_prod_beta downloads_check)
qed

lemma download_tries_downloads:
  "downloads (snd (download_tries env dev fs f 0 tr)) = downloads tr + attempts dev f tr"
proof -
  have "download_tries env dev fs f 3 u = (3, u)" for u by (subst download_tries.simps) (simp add: STM_DOWNLOADRETRIES_def)
  then show ?thesis
    using download_tries_next [of 0 env dev fs f tr] download_tries_next [of 1 env dev fs f tr]
      download_tries_next [of 2 env dev fs f tr] downloads_attempts [of dev f tr 3]
    by (simp add: attempts_def numeral_2_eq_2 numeral_3_eq_3)
qed

text \<open>C17: a forced boot with a firmware file and a hub that accepts leaving the reset downloads
  the file again until an attempt is accepted, three times at most: that many requests for the
  boot loader are added to the trace. It returns 0 and marks the hub as booted exactly when one
  of the three attempts is accepted, whatever the version checks after the download report;
  otherwise it returns -1 and leaves the mark.\<close>

theorem forced_boot_retries:
  assumes "fw_file (stm_processBlackList (m_fs st)) = Some file"
    and "0 \<le> status (dev (m_trace st) NORMALMODE)"
  shows "let f = bytes_of file;
             tr = snd (wait_for_hub env dev 20 (m_trace st @ [NORMALMODE]));
             (ret, st') = boot env dev True st
         in downloads (m_trace st') = downloads (m_trace st) + attempts dev f tr
            \<and> attempts dev f tr \<le> 3
            \<and> (if \<exists>i<3. accepted dev f tr i then ret = 0 \<and> m_booted st'
               else ret = - 1 \<and> m_booted st' = m_booted st)"
proof -
  obtain p where p: "stm_getFwFile (stm_processBlackList (m_fs st)) = (0, p)"
    "read_file (stm_processBlackList (m_fs st)) p = Some file"
    using assms(1) by (rule stm_getFwFile_Some)
  define tr where "tr = snd (wait_for_hub env dev 20 (m_trace st @ [NORMALMODE]))"
  obtain tries tr' where d:
    "download_tries env dev (stm_processBlackList (m_fs st)) (bytes_of file) 0 tr = (tries, tr')"
    by fastforce
  have ok: "tries < 3 \<longleftrightarrow> (\<exists>i<3. accepted dev (bytes_of file) tr i)"
    using download_tries_count [of env dev "stm_processBlackList (m_fs st)" "bytes_of file" 0 tr] d
    by simp
  have n: "downloads tr' = downloads (m_trace st) + attempts dev (bytes_of file) tr"
    using download_tries_downloads [of env dev "stm_processBlackList (m_fs st)" "bytes_of file" tr] d
    by (simp add: tr_def downloads_wait)
  have b: "boot env dev True st =
      (if 3 \<le> tries
       then (- 1, st\<lparr>m_fs := stm_processBlackList (m_fs st), m_trace := tr'\<rparr>)
       else (0, st\<lparr>m_fs := stm_processBlackList (m_fs st), m_trace := tr', m_booted := True\<rparr>))"
    using assms(2) p d
    by (auto simp: boot_def motosh_ioctl_def Let_def STM_DOWNLOADRETRIES_def tr_def
        split: prod.splits)
  have "attempts dev (bytes_of file) tr \<le> 3" by (simp add: attempts_def)
  with ok n b show ?thesis
    by (cases "tries < 3") (simp_all add: Let_def tr_def del: download_tries.simps)
qed

text \<open>A driver that accepts every request and stores nothing.\<close>

definition quiet_dev :: hub_dev where
  "quiet_dev = (\<lambda>tr rq. \<lparr>status = 0, errno = 0, out_data = []\<rparr>)"

definition start :: "fsys \<Rightarrow> motosh" where
  "start fs = \<lparr>m_fs = fs, m_trace = [], m_booted = False, m_system = []\<rparr>"

lemma stock_fs_blacklist: "stm_processBlackList (stock_fs f) = stock_fs f"
  by (simp add: stm_processBlackList_def stock_fs_def read_file_def STM_FIRMWARE_BLACKLIST_def)

lemma send_all_quiet: "send_all quiet_dev tr 0 rqs = (0, tr @ rqs)"
  by (induction rqs arbitrary: tr) (auto simp: quiet_dev_def)

theorem forced_boot_retries_witness:
  "let (ret, st') = boot sample_env quiet_dev True (start (stock_fs ''image''))
   in downloads (m_trace st') = 1 \<and> ret = 0 \<and> m_booted st'"
proof -
  have a: "accepted quiet_dev f tr 0" for f tr
    by (simp add: accepted_def download_refines_script send_all_quiet)
  then have "\<exists>i<3. accepted quiet_dev f tr i" for f tr by (intro exI [of _ 0]) simp
  then show ?thesis
    using forced_boot_retries [of "start (stock_fs ''image'')" "''image''" quiet_dev sample_env] a
    by (simp add: start_def stock_fs_blacklist fw_file_stock_fs quiet_dev_def attempts_def downloads_def case_prod_beta Let_def)
qed

section \<open>Arguments that are one byte each\<close>

definition byte_arg :: "string \<Rightarrow> bool" where
  "byte_arg arg \<longleftrightarrow> length (stm_convertAsciiToHex arg (length arg)) = 1"

definition arg_byte :: "string \<Rightarrow> 8 word" where
  "arg_byte arg = hd (stm_convertAsciiToHex arg (length arg))"

lemma convert_at_byte:
  assumes "byte_arg arg"
  shows "convert_at off arg buf = (if off < length buf then Some (1, buf[off := arg_byte arg]) else None)"
proof -
  obtain b where "stm_convertAsciiToHex arg (length arg) = [b]"
    using assms by (auto simp: byte_arg_def length_Suc_conv)
  then show ?thesis
    by (auto simp: convert_at_def store_at_def arg_byte_def upd_conv_take_nth_drop)
qed

lemma read_args_bytes:
  assumes "list_all byte_arg args" and "off \<le> length buf"
  shows "read_args off args buf =
    (if off + length args \<le> length buf
     then Some (Inr (take off buf @ map arg_byte args @ drop (off + length args) buf)) else None)"
  using assms
proof (induction off args buf rule: read_args.induct)
  case (2 off arg args buf)
  show ?case
  proof (cases "off < length buf")
    case True
    let ?buf = "buf[off := arg_byte arg]"
    have "take (Suc off) ?buf = take off buf @ [arg_byte arg]"
      using True by (simp add: take_Suc_conv_app_nth)
    with 2 True show ?thesis
      by (simp add: convert_at_byte)
  next
    case False
    with 2 show ?thesis by (simp add: convert_at_byte)
  qed
qed simp

text \<open>The passthrough command stores one byte for each argument without looking at how
  many there are: more arguments than the buffer has bytes write outside it. With no more than
  that, the bytes in order, followed by whatever the buffer held, are the argument of one
  request, unless the size byte is too large, which gives 0 and sends nothing.\<close>

theorem passthrough_request:
  assumes "list_all byte_arg args" and "4 \<le> length args"
  shows "let n = MOTOSH_PASSTHROUGH_SIZE env;
             data = map arg_byte args @ drop (length args) (fresh_bytes env n);
             limit = (if data ! 4 = 0 then n - 1 else n - 6);
             rq = PASSTHROUGH data
         in cmd_passthrough env dev (a0 # a1 # args) st =
              (if n < length args then None
               else if limit < unat (data ! 5) then Some (0, st)
               else Some (status (dev (m_trace st) rq), st\<lparr>m_trace := m_trace st @ [rq]\<rparr>))"
  using assms
  by (simp add: cmd_passthrough_def read_args_bytes motosh_ioctl_def Let_def STM_SUCCESS_def
      unat_eq_zero)

theorem passthrough_request_witness:
  "cmd_passthrough sample_env quiet_dev
     (''motosh'' # ''passthrough'' # replicate 41 ''00'') (start (stock_fs ''image'')) = None"
proof -
  have "stm_convertAsciiToHex ''00'' (length ''00'') = [0]"
    by (simp add: stm_convertAsciiToHex_def convert_loop.simps scan_hex_def hex_field_def
        is_hex_def hex_val_def is_space_def Let_def)
  then have "list_all byte_arg (replicate 41 ''00'')"
    by (simp add: list_all_iff byte_arg_def)
  then show ?thesis
    using passthrough_request [of "replicate 41 ''00''" sample_env quiet_dev]
    by (simp add: Let_def sample_env_def)
qed

end
