(* ===== verification/Power_List.thy ===== *)
theory Power_List
  imports Prelude
begin

text \<open>
  The linked list of the power HAL (\<open>power/list.c\<close>), over an explicit heap: a heap maps an address to
  the node that is allocated there, and 0 is \<open>NULL\<close>. Reading through an address where nothing is allocated, and
  a walk that does not end, have the value \<open>None\<close>. The \<open>data\<close> pointer is modelled by what it points to, which
  nobody changes after it was put into the list. \<open>malloc\<close> is a parameter: it yields the address of a
  new node or refuses.

  The first lemmas relate the chain of \<open>next\<close> pointers to the list of its nodes; the refinement
  says that adding, finding and removing act on that list as a stack of entries.
\<close>

section \<open>Nodes and the heap\<close>

type_synonym addr = nat

record 'd list_node =
  next_node :: addr
  node_data :: "'d option"
  node_compare :: "('d option \<Rightarrow> 'd option \<Rightarrow> int) option"
  node_dump :: bool

type_synonym 'd heap = "addr \<Rightarrow> 'd list_node option"

definition init_list_head :: "addr \<Rightarrow> 'd heap \<Rightarrow> (int \<times> 'd heap) option" where
  "init_list_head head h =
     (if head = 0 then Some (- 1, h)
      else case h head of
        None \<Rightarrow> None
      | Some _ \<Rightarrow> Some (0, h(head \<mapsto> \<lparr>next_node = 0, node_data = None, node_compare = None, node_dump = False\<rparr>)))"

definition add_list_node :: "('d heap \<Rightarrow> addr option) \<Rightarrow> addr \<Rightarrow> 'd option \<Rightarrow> 'd heap \<Rightarrow> (addr \<times> 'd heap) option" where
  "add_list_node malloc head d h =
     (if head = 0 then Some (0, h)
      else case malloc h of
        None \<Rightarrow> Some (0, h)
      | Some new \<Rightarrow>
          (case h head of
             None \<Rightarrow> None
           | Some n \<Rightarrow>
               Some (new, h(new \<mapsto> \<lparr>next_node = next_node n, node_data = d, node_compare = node_compare n,
                                    node_dump = node_dump n\<rparr>,
                            head \<mapsto> n\<lparr>next_node := new\<rparr>))))"

definition is_list_empty :: "addr \<Rightarrow> 'd heap \<Rightarrow> bool option" where
  "is_list_empty head h =
     (if head = 0 then Some True else map_option (\<lambda>n. next_node n = 0) (h head))"

text \<open>The loop of \<open>remove_list_node\<close>: it ends at the node to delete or at the end of the list.\<close>

partial_function (option) delink_walk :: "'d heap \<Rightarrow> addr \<Rightarrow> addr \<Rightarrow> addr \<Rightarrow> (addr \<times> addr) option" where
  "delink_walk h del cur saved =
     (if cur = 0 \<or> cur = del then Some (cur, saved)
      else case h cur of None \<Rightarrow> None | Some n \<Rightarrow> delink_walk h del (next_node n) cur)"

definition remove_list_node :: "addr \<Rightarrow> addr \<Rightarrow> 'd heap \<Rightarrow> (int \<times> 'd heap) option" where
  "remove_list_node head del h =
     (if head = 0 then Some (- 1, h)
      else case h head of
        None \<Rightarrow> None
      | Some n \<Rightarrow>
          if next_node n = 0 then Some (- 1, h)
          else case delink_walk h del (next_node n) head of
            None \<Rightarrow> None
          | Some (cur, saved) \<Rightarrow>
              if saved = 0 then Some (0, if del = 0 then h else h(del := None))
              else if cur = 0 then Some (- 1, h)
              else case (h cur, h saved) of
                (Some c, Some s) \<Rightarrow>
                  (let h1 = h(saved \<mapsto> s\<lparr>next_node := next_node c\<rparr>)
                   in Some (0, if del = 0 then h1 else h1(del := None)))
              | _ \<Rightarrow> None)"

text \<open>What the \<open>dump\<close> functions of the nodes are handed, in order.\<close>

partial_function (option) dump_from :: "'d heap \<Rightarrow> addr \<Rightarrow> 'd option list option" where
  "dump_from h cur =
     (case h cur of
        None \<Rightarrow> None
      | Some n \<Rightarrow>
          if next_node n = 0 then Some []
          else case h (next_node n) of
            None \<Rightarrow> None
          | Some m \<Rightarrow> 
              Option.bind (dump_from h (next_node n)) (\<lambda>ds. Some ((if node_dump m then [node_data m] else []) @ ds)))"

definition dump_list :: "addr \<Rightarrow> 'd heap \<Rightarrow> 'd option list option" where
  "dump_list head h = (if head = 0 then Some [] else dump_from h head)"

partial_function (option) find_from :: "'d heap \<Rightarrow> 'd option \<Rightarrow> addr \<Rightarrow> addr option" where
  "find_from h d cur =
     (case h cur of
        None \<Rightarrow> None
      | Some n \<Rightarrow>
          if next_node n = 0 then Some 0
          else case h (next_node n) of
            None \<Rightarrow> None
          | Some m \<Rightarrow>
              if (case node_compare m of None \<Rightarrow> False | Some c \<Rightarrow> c (node_data m) d = 0) then Some (next_node n)
              else find_from h d (next_node n))"

definition find_node :: "addr \<Rightarrow> 'd option \<Rightarrow> 'd heap \<Rightarrow> addr option" where
  "find_node head d h = (if head = 0 then Some 0 else find_from h d head)"

section \<open>The list a heap holds\<close>

fun chain :: "'d heap \<Rightarrow> addr \<Rightarrow> (addr \<times> 'd option) list \<Rightarrow> bool" where
  "chain h a [] \<longleftrightarrow> a = 0"
| "chain h a ((x, d) # ns) \<longleftrightarrow> a = x \<and> x \<noteq> 0 \<and> (\<exists>n. h x = Some n \<and> node_data n = d \<and> chain h (next_node n) ns)"

definition list_at :: "'d heap \<Rightarrow> addr \<Rightarrow> (addr \<times> 'd option) list \<Rightarrow> bool" where
  "list_at h head ns \<longleftrightarrow>
     head \<noteq> 0 \<and> distinct (head # map fst ns) \<and> (\<exists>n. h head = Some n \<and> chain h (next_node n) ns)"

definition all_compare :: "'d heap \<Rightarrow> ('d option \<Rightarrow> 'd option \<Rightarrow> int) \<Rightarrow> addr list \<Rightarrow> bool" where
  "all_compare h c as \<longleftrightarrow> (\<forall>a \<in> set as. \<exists>n. h a = Some n \<and> node_compare n = Some c)"

text \<open>The documented behaviour of \<open>malloc\<close>: what it yields was free and is not \<open>NULL\<close>.\<close>

definition mallocs :: "('d heap \<Rightarrow> addr option) \<Rightarrow> bool" where
  "mallocs malloc \<longleftrightarrow> (\<forall>h a. malloc h = Some a \<longrightarrow> a \<noteq> 0 \<and> h a = None)"

lemma chain_upd: "a \<notin> fst ` set ns \<Longrightarrow> chain (h(a := v)) p ns = chain h p ns"
  by (induction ns arbitrary: p) (auto split: if_splits)

lemma chain_allocated: "chain h p ns \<Longrightarrow> a \<in> fst ` set ns \<Longrightarrow> \<exists>n. h a = Some n"
  by (induction ns arbitrary: p) (fastforce simp: image_iff)+

lemma chain_not_null: "chain h p ns \<Longrightarrow> a \<in> fst ` set ns \<Longrightarrow> a \<noteq> 0"
  by (induction ns arbitrary: p) (fastforce simp: image_iff)+

lemma chain_split:
  "chain h p (ns @ (a, d) # ms) \<Longrightarrow> \<exists>n. h a = Some n \<and> node_data n = d \<and> a \<noteq> 0 \<and> chain h (next_node n) ms"
  by (induction ns arbitrary: p) auto

text \<open>Redirecting the pointer before a node cuts that node out.\<close>

lemma chain_cut:
  assumes "chain h p (ns @ (a, d) # ms)" and "h a = Some n" and "ns \<noteq> []" and "distinct (map fst (ns @ (a, d) # ms))"
    and "h (fst (last ns)) = Some l"
  shows "chain (h(fst (last ns) \<mapsto> l\<lparr>next_node := next_node n\<rparr>)) p (ns @ ms)"
  using assms
proof (induction ns arbitrary: p)
  case (Cons x ns)
  obtain b e where x: "x = (b, e)" by fastforce
  show ?case
  proof (cases "ns = []")
    case True
    with Cons.prems x have "chain h (next_node n) ms" "b \<notin> fst ` set ms" by auto
    then have "chain (h(b \<mapsto> l\<lparr>next_node := next_node n\<rparr>)) (next_node n) ms" by (simp add: chain_upd)
    with True Cons.prems x show ?thesis by (simp add: fun_upd_def)
  next
    case False
    with Cons.prems x have "b \<noteq> fst (last ns)" by (auto simp: distinct_map dest!: last_in_set)
    with False Cons x show ?thesis by auto
  qed
qed simp

section \<open>Refinement\<close>

text \<open>The relation between a heap and the entries: the nodes after the head, each with its data, all with the
  comparison of the head.\<close>

definition list_rep :: "'d heap \<Rightarrow> addr \<Rightarrow> ('d option \<Rightarrow> 'd option \<Rightarrow> int) \<Rightarrow> (addr \<times> 'd option) list \<Rightarrow> bool" where
  "list_rep h head c ns \<longleftrightarrow> list_at h head ns \<and> all_compare h c (head # map fst ns)"

lemma list_repD:
  assumes "list_rep h head c ns"
  obtains n where "head \<noteq> 0" "distinct (head # map fst ns)" "h head = Some n" "node_compare n = Some c"
    "chain h (next_node n) ns"
  using assms unfolding list_rep_def list_at_def all_compare_def by (auto intro: that)

lemma list_rep_distinct: "list_rep h head c ns \<Longrightarrow> distinct (head # map fst ns)"
  by (simp add: list_rep_def list_at_def)

lemma list_rep_compare:
  "list_rep h head c ns \<Longrightarrow> a \<in> fst ` set ns \<Longrightarrow> h a = Some n \<Longrightarrow> node_compare n = Some c"
  unfolding list_rep_def all_compare_def by fastforce

lemma add_list_node_rep:
  assumes "list_rep h head c ns" and "mallocs malloc" and "malloc h = Some a"
  shows "\<exists>h'. add_list_node malloc head d h = Some (a, h') \<and> list_rep h' head c ((a, d) # ns)"
proof -
  obtain n where n: "head \<noteq> 0" "distinct (head # map fst ns)" "h head = Some n" "node_compare n = Some c"
    "chain h (next_node n) ns" using assms(1) by (rule list_repD)
  have a: "a \<noteq> 0" "h a = None" using assms(2,3) by (auto simp: mallocs_def)
  then have "a \<notin> fst ` set ns" "a \<noteq> head" using chain_allocated [OF n(5), of a] n(3) by auto
  moreover have "head \<notin> fst ` set ns" using n(2) by simp
  ultimately show ?thesis
    using n a assms by (auto simp: add_list_node_def list_rep_def list_at_def all_compare_def chain_upd)
qed

lemma find_from_chain:
  assumes "h p = Some n" and "chain h (next_node n) ns"
    and "\<And>a m. a \<in> fst ` set ns \<Longrightarrow> h a = Some m \<Longrightarrow> node_compare m = Some c"
  shows "find_from h d p = Some (case find (\<lambda>x. c (snd x) d = 0) ns of None \<Rightarrow> 0 | Some x \<Rightarrow> fst x)"
  using assms
proof (induction ns arbitrary: p n)
  case Nil
  then show ?case by (subst find_from.simps) simp
next
  case (Cons x ns)
  obtain a e where x: "x = (a, e)" by fastforce
  with Cons.prems obtain m where m: "h a = Some m" "node_data m = e" "a \<noteq> 0" "next_node n = a"
    "chain h (next_node m) ns" "node_compare m = Some c" by auto
  have "find_from h d a = Some (case find (\<lambda>x. c (snd x) d = 0) ns of None \<Rightarrow> 0 | Some x \<Rightarrow> fst x)"
    by (rule Cons.IH [OF m(1,5)]) (use Cons.prems(3) in auto)
  then show ?case
    using Cons.prems(1) m x by (subst find_from.simps) simp
qed

lemma find_node_rep:
  assumes "list_rep h head c ns"
  shows "find_node head d h = Some (case find (\<lambda>x. c (snd x) d = 0) ns of None \<Rightarrow> 0 | Some x \<Rightarrow> fst x)"
proof -
  obtain n where n: "head \<noteq> 0" "h head = Some n" "chain h (next_node n) ns" using assms by (rule list_repD)
  show ?thesis
    unfolding find_node_def using n(1) find_from_chain [OF n(2,3) list_rep_compare [OF assms]] by simp
qed

text \<open>The walk to a node that is not in the list ends at \<open>NULL\<close>, the walk to one that is ends there.\<close>

lemma delink_walk_missing:
  "chain h p ns \<Longrightarrow> del \<notin> fst ` set ns \<Longrightarrow> delink_walk h del p q = Some (0, last (q # map fst ns))"
proof (induction ns arbitrary: p q)
  case (Cons x ns)
  then show ?case by (cases x) (subst delink_walk.simps, auto)
qed (subst delink_walk.simps, simp)

lemma delink_walk_found:
  "chain h p (ns @ (del, d) # ms) \<Longrightarrow> del \<notin> fst ` set ns \<Longrightarrow>
     delink_walk h del p q = Some (del, last (q # map fst ns))"
proof (induction ns arbitrary: p q)
  case (Cons x ns)
  then show ?case by (cases x) (subst delink_walk.simps, auto)
qed (subst delink_walk.simps, simp)

lemma remove_list_node_rep:
  assumes "list_rep h head c (ns @ (del, d) # ms)"
  shows "\<exists>h'. remove_list_node head del h = Some (0, h') \<and> list_rep h' head c (ns @ ms) \<and> h' del = None"
proof -
  let ?all = "ns @ (del, d) # ms"
  obtain n where n: "head \<noteq> 0" "distinct (head # map fst ?all)" "h head = Some n" "node_compare n = Some c"
    "chain h (next_node n) ?all" using assms by (rule list_repD)
  obtain k where k: "h del = Some k" "del \<noteq> 0" "chain h (next_node k) ms" using chain_split [OF n(5)] by auto
  have ne: "next_node n \<noteq> 0" using n(5) by (cases ns) auto
  define p where "p = last (head # map fst ns)"
  have w: "delink_walk h del (next_node n) head = Some (del, p)"
    unfolding p_def by (rule delink_walk_found [OF n(5)]) (use n(2) in auto)
  have p: "p \<in> set (head # map fst ns)" unfolding p_def by (rule last_in_set) simp
  then obtain l where l: "h p = Some l"
    using n(3) chain_allocated [OF n(5), of p] by (auto simp: image_iff)
  have "p \<noteq> 0" using p n(1) chain_not_null [OF n(5), of p] by auto
  define h' where "h' = h(p \<mapsto> l\<lparr>next_node := next_node k\<rparr>, del := None)"
  have pd: "p \<noteq> del" using p n(2) by auto
  have r: "remove_list_node head del h = Some (0, h')"
    using n(1,3) ne w k l \<open>p \<noteq> 0\<close> by (simp add: remove_list_node_def h'_def Let_def)
  have "list_at h' head (ns @ ms)"
  proof (cases "ns = []")
    case True
    with l n(3) have "p = head" "l = n" by (simp_all add: p_def)
    with True n k show ?thesis by (auto simp: list_at_def h'_def chain_upd)
  next
    case False
    then have pl: "p = fst (last ns)" by (simp add: p_def last_map)
    then have "p \<noteq> head" using n(2) False by (auto dest: last_in_set)
    have "chain (h(p \<mapsto> l\<lparr>next_node := next_node k\<rparr>)) (next_node n) (ns @ ms)"
      using chain_cut [OF n(5) k(1) False] n(2) l by (simp add: pl)
    then have "chain h' (next_node n) (ns @ ms)"
      unfolding h'_def by (subst chain_upd) (use n(2) in auto)
    with \<open>p \<noteq> head\<close> n pd show ?thesis by (auto simp: list_at_def h'_def)
  qed
  moreover have "all_compare h' c (head # map fst (ns @ ms))"
  proof -
    have "node_compare l = Some c"
      using p n(3,4) l list_rep_compare [OF assms, of p l] by auto
    with assms n(2) pd show ?thesis by (auto simp: list_rep_def all_compare_def h'_def)
  qed
  ultimately show ?thesis using r by (simp add: list_rep_def h'_def)
qed

lemma remove_list_node_missing:
  assumes "list_rep h head c ns" and "del \<notin> fst ` set ns"
  shows "remove_list_node head del h = Some (- 1, h)"
proof -
  obtain n where n: "head \<noteq> 0" "distinct (head # map fst ns)" "h head = Some n"
    "chain h (next_node n) ns" using assms(1) by (rule list_repD)
  have "last (head # map fst ns) \<in> set (head # map fst ns)" by (rule last_in_set) simp
  then have "last (head # map fst ns) \<noteq> 0"
    using n(1) chain_not_null [OF n(4), of "last (head # map fst ns)"] by (metis set_ConsD set_map)
  then show ?thesis
    using n delink_walk_missing [OF n(4) assms(2), of head] by (simp add: remove_list_node_def)
qed

lemma remove_list_node_filter:
  assumes "list_rep h head c ns" and "del \<in> fst ` set ns"
  shows "\<exists>h'. remove_list_node head del h = Some (0, h') \<and> list_rep h' head c (filter (\<lambda>x. fst x \<noteq> del) ns) \<and> h' del = None"
proof -
  obtain d as bs where ns: "ns = as @ (del, d) # bs" using assms(2) by (auto dest!: split_list)
  have "distinct (map fst ns)" using list_rep_distinct [OF assms(1)] by simp
  then have "\<forall>x \<in> set as. fst x \<noteq> del" "\<forall>x \<in> set bs. fst x \<noteq> del" by (auto simp: ns)
  then have "filter (\<lambda>x. fst x \<noteq> del) ns = as @ bs" by (simp add: ns)
  with remove_list_node_rep [of h head c as del d bs] assms(1) ns show ?thesis by simp
qed

definition first_free :: "'d heap \<Rightarrow> addr option" where
  "first_free h = find (\<lambda>a. h a = None) [1, 2, 3, 4, 5, 6, 7, 8]"

lemma mallocs_first_free: "mallocs first_free"
  by (auto simp: mallocs_def first_free_def split: if_splits)

definition one_node :: "nat heap" where
  "one_node = [1 \<mapsto> \<lparr>next_node = 2, node_data = None, node_compare = Some (\<lambda>x y. if x = y then 0 else 1), node_dump = True\<rparr>,
               2 \<mapsto> \<lparr>next_node = 0, node_data = Some 7, node_compare = Some (\<lambda>x y. if x = y then 0 else 1), node_dump = True\<rparr>]"

lemma one_node_rep: "list_rep one_node 1 (\<lambda>x y. if x = y then 0 else 1) [(2, Some 7)]"
  by (simp add: list_rep_def list_at_def all_compare_def one_node_def)

text \<open>On a well-formed list the operations return, never read through a bad pointer, and act as a stack of
  entries: adding puts an entry in front, finding yields the first entry that compares equal or \<open>NULL\<close>, removing takes
  exactly the given node out and frees it, and removing a node that is not in the list reports the error -1 and changes
  nothing.\<close>

theorem list_operations_refine:
  assumes "list_rep h head c ns" and "mallocs malloc"
  shows "(\<forall>a d. malloc h = Some a \<longrightarrow>
            (\<exists>h'. add_list_node malloc head d h = Some (a, h') \<and> list_rep h' head c ((a, d) # ns)))
    \<and> (\<forall>d. find_node head d h = Some (case find (\<lambda>x. c (snd x) d = 0) ns of None \<Rightarrow> 0 | Some x \<Rightarrow> fst x))
    \<and> (\<forall>del. if del \<in> fst ` set ns
         then \<exists>h'. remove_list_node head del h = Some (0, h')
                \<and> list_rep h' head c (filter (\<lambda>x. fst x \<noteq> del) ns) \<and> h' del = None
         else remove_list_node head del h = Some (- 1, h))"
  using add_list_node_rep [OF assms] find_node_rep [OF assms(1)] remove_list_node_filter [OF assms(1)]
    remove_list_node_missing [OF assms(1)] by simp

theorem list_operations_refine_witness:
  "find_node 1 (Some 7) one_node = Some 2 \<and> remove_list_node 1 5 one_node = Some (- 1, one_node)"
proof -
  note w = list_operations_refine [OF one_node_rep mallocs_first_free]
  show ?thesis
    using spec [OF conjunct1 [OF conjunct2 [OF w]], of "Some 7"] spec [OF conjunct2 [OF conjunct2 [OF w]], of 5] by simp
qed

end
