(* ===== verification/Power_Metadata.thy ===== *)
theory Power_Metadata
  imports C_Text
begin

text \<open>
  The metadata of a video hint (\<open>power/metadata-parser.c\<close>): a text of attributes \<open>name=value\<close>
  separated by \<open>;\<close>. Texts are lists of characters without the terminating zero. \<open>strtok_r\<close> keeps
  the unread rest of the text in its save pointer, here the second component of its value; \<open>strlcpy\<close>
  copies at most one character less than the size it is given.
\<close>

definition strtok_semicolon :: "string \<Rightarrow> (string \<times> string) option" where
  "strtok_semicolon s =
     (let t = dropWhile (\<lambda>c. c = CHR '';'') s
      in if t = [] then None
         else Some (takeWhile (\<lambda>c. c \<noteq> CHR '';'') t, tl (dropWhile (\<lambda>c. c \<noteq> CHR '';'') t)))"

definition strlcpy :: "string \<Rightarrow> nat \<Rightarrow> string" where
  "strlcpy src n = take (n - 1) src"

text \<open>One attribute, in buffers of the given sizes, and the rest of the text; \<open>None\<close> is
  \<open>METADATA_PARSING_DONE\<close>.\<close>

definition parse_metadata :: "string \<Rightarrow> nat \<Rightarrow> nat \<Rightarrow> ((string \<times> string) \<times> string) option" where
  "parse_metadata s attribute_size value_size =
     (case strtok_semicolon s of
        None \<Rightarrow> None
      | Some (attribute_string, rest) \<Rightarrow>
          (if CHR ''='' \<in> set attribute_string then
             (let delim = length (takeWhile (\<lambda>c. c \<noteq> CHR ''='') attribute_string);
                  attribute = strlcpy attribute_string (min delim (attribute_size - 1) + 1);
                  val = strlcpy (drop (delim + 1) attribute_string)
                          (min (length attribute_string - length attribute - 1) (value_size - 1) + 1)
              in Some ((attribute, val), rest))
           else Some (('''', ''''), rest)))"

record video_metadata =
  hint_id :: int
  state :: int

definition atoi :: "string \<Rightarrow> int" where
  "atoi s = (case scan_int s of None \<Rightarrow> 0 | Some (i, _) \<Rightarrow> i)"

definition apply_attribute :: "string \<times> string \<Rightarrow> video_metadata \<Rightarrow> video_metadata" where
  "apply_attribute av m =
     (let (attribute, val) = av;
          m1 = (if attribute = ''hint_id'' \<and> val \<noteq> [] then m\<lparr>hint_id := atoi val\<rparr> else m)
      in if attribute = ''state'' \<and> val \<noteq> [] then m1\<lparr>state := atoi val\<rparr> else m1)"

lemma length_dropWhile_tl: "length (tl (dropWhile P xs)) \<le> length xs - 1"
  by (simp add: length_dropWhile_le diff_le_mono)

lemma parse_metadata_shorter: "parse_metadata s a v = Some (av, r) \<Longrightarrow> length r < length s"
proof -
  assume p: "parse_metadata s a v = Some (av, r)"
  let ?t = "dropWhile (\<lambda>c. c = CHR '';'') s"
  from p have "?t \<noteq> []" and "r = tl (dropWhile (\<lambda>c. c \<noteq> CHR '';'') ?t)"
    by (auto simp: parse_metadata_def strtok_semicolon_def Let_def split: if_splits)
  then have "length r \<le> length ?t - 1" "0 < length ?t" using length_dropWhile_tl by auto
  then show "length r < length s" using length_dropWhile_le [of "\<lambda>c. c = CHR '';''" s] by linarith
qed

text \<open>The loop consumes the text, so it ends. \<open>parse_metadata\<close> never reports an error, so neither
  does the loop: its value is always 0.\<close>

function parse_loop :: "string \<Rightarrow> video_metadata \<Rightarrow> video_metadata" where
  "parse_loop s m =
     (case parse_metadata s 1024 1024 of
        None \<Rightarrow> m
      | Some (av, rest) \<Rightarrow> parse_loop rest (apply_attribute av m))"
  by pat_completeness auto
termination
  by (relation "measure (length \<circ> fst)") (auto dest: parse_metadata_shorter)

declare parse_loop.simps [simp del]

definition parse_video_encode_metadata :: "string \<Rightarrow> video_metadata \<Rightarrow> int \<times> video_metadata" where
  "parse_video_encode_metadata s m = (0, parse_loop s m)"

definition parse_video_decode_metadata :: "string \<Rightarrow> video_metadata \<Rightarrow> int \<times> video_metadata" where
  "parse_video_decode_metadata s m = (0, parse_loop s m)"

section \<open>Attributes one by one\<close>

text \<open>How a client writes attributes.\<close>

definition show_attribute :: "string \<times> string \<Rightarrow> string" where
  "show_attribute av = fst av @ CHR ''='' # snd av"

fun show_metadata :: "(string \<times> string) list \<Rightarrow> string" where
  "show_metadata [] = ''''"
| "show_metadata [av] = show_attribute av"
| "show_metadata (av # avs) = show_attribute av @ CHR '';'' # show_metadata avs"

definition plain_attribute :: "string \<times> string \<Rightarrow> bool" where
  "plain_attribute av \<longleftrightarrow>
     CHR '';'' \<notin> set (fst av) \<and> CHR ''='' \<notin> set (fst av) \<and> CHR '';'' \<notin> set (snd av)
     \<and> length (fst av) < 1024 \<and> length (snd av) < 1024"

lemma span_until:
  assumes "\<forall>c \<in> set t. c \<noteq> d" and "rest = [] \<or> (\<exists>r. rest = d # r)"
  shows "takeWhile (\<lambda>c. c \<noteq> d) (t @ rest) = t" and "dropWhile (\<lambda>c. c \<noteq> d) (t @ rest) = rest"
  using assms by (induction t) auto

lemma parse_metadata_show:
  assumes "plain_attribute av" and "rest = [] \<or> (\<exists>r. rest = CHR '';'' # r)"
  shows "parse_metadata (show_attribute av @ rest) 1024 1024 = Some (av, tl rest)"
proof -
  obtain a v where av: "av = (a, v)" by fastforce
  let ?t = "a @ CHR ''='' # v"
  have n: "\<forall>c \<in> set ?t. c \<noteq> CHR '';''" "\<forall>c \<in> set a. c \<noteq> CHR ''=''" "length a < 1024" "length v < 1024"
    using assms(1) by (auto simp: plain_attribute_def av)
  have s: "dropWhile (\<lambda>c. c = CHR '';'') (?t @ rest) = ?t @ rest" using n(1) by (cases a) auto
  have "takeWhile (\<lambda>c. c \<noteq> CHR '';'') (?t @ rest) = ?t" "dropWhile (\<lambda>c. c \<noteq> CHR '';'') (?t @ rest) = rest"
    by (rule span_until [OF n(1) assms(2)])+
  then have t: "strtok_semicolon (show_attribute av @ rest) = Some (?t, tl rest)"
    using s by (simp add: strtok_semicolon_def show_attribute_def av Let_def)
  have d: "takeWhile (\<lambda>c. c \<noteq> CHR ''='') ?t = a" using n(2) by (simp add: takeWhile_append2)
  show ?thesis
    using n(3,4) d by (simp add: parse_metadata_def t [unfolded av] Let_def strlcpy_def av)
qed

lemma parse_loop_show:
  "list_all plain_attribute avs \<Longrightarrow> parse_loop (show_metadata avs) m = fold apply_attribute avs m"
proof (induction avs arbitrary: m rule: show_metadata.induct)
  case 1
  show ?case by (subst parse_loop.simps) (simp add: parse_metadata_def strtok_semicolon_def)
next
  case (2 av)
  have "parse_loop '''' m = m" for m by (subst parse_loop.simps) (simp add: parse_metadata_def strtok_semicolon_def)
  then show ?case using parse_metadata_show [of av "''''"] 2 by (subst parse_loop.simps) simp
next
  case (3 av b avs)
  then show ?case
    using parse_metadata_show [of av "CHR '';'' # show_metadata (b # avs)"] by (subst parse_loop.simps) simp
qed

text \<open>The values that count for a name: the non-empty ones, as numbers.\<close>

definition values_of :: "string \<Rightarrow> (string \<times> string) list \<Rightarrow> int list" where
  "values_of name avs = map (atoi \<circ> snd) (filter (\<lambda>av. fst av = name \<and> snd av \<noteq> []) avs)"

lemma fold_apply_attribute:
  "fold apply_attribute avs m =
     m\<lparr>hint_id := last (hint_id m # values_of ''hint_id'' avs), state := last (state m # values_of ''state'' avs)\<rparr>"
  by (induction avs arbitrary: m) (auto simp: values_of_def apply_attribute_def Let_def)

lemma strtok_chars:
  assumes "strtok_semicolon s = Some (t, r)"
  shows "set t \<subseteq> set s" and "set r \<subseteq> set s"
proof -
  let ?u = "dropWhile (\<lambda>c. c = CHR '';'') s"
  have u: "set ?u \<subseteq> set s" by (auto dest: set_dropWhileD)
  from assms have tr: "t = takeWhile (\<lambda>c. c \<noteq> CHR '';'') ?u" "r = tl (dropWhile (\<lambda>c. c \<noteq> CHR '';'') ?u)"
    by (auto simp: strtok_semicolon_def Let_def split: if_splits)
  show "set t \<subseteq> set s" using u by (auto simp: tr dest: set_takeWhileD)
  have "set (tl xs) \<subseteq> set xs" for xs :: string by (cases xs) auto
  moreover have "set (dropWhile P xs) \<subseteq> set xs" for P and xs :: string by (auto dest: set_dropWhileD)
  ultimately show "set r \<subseteq> set s" using u unfolding tr by blast
qed

text \<open>A text without \<open>=\<close> carries no attribute.\<close>

lemma parse_loop_plain: "CHR ''='' \<notin> set s \<Longrightarrow> parse_loop s m = m"
proof (induction s m rule: parse_loop.induct)
  case (1 s m)
  show ?case
  proof (cases "strtok_semicolon s")
    case None
    then show ?thesis by (subst parse_loop.simps) (simp add: parse_metadata_def)
  next
    case (Some tr)
    obtain t r where tr: "tr = (t, r)" by fastforce
    then have "CHR ''='' \<notin> set t" "CHR ''='' \<notin> set r" using 1(2) strtok_chars [of s t r] Some by auto
    then have p: "parse_metadata s 1024 1024 = Some (('''', ''''), r)" using Some tr by (simp add: parse_metadata_def)
    have "apply_attribute ('''', '''') m = m" by (simp add: apply_attribute_def)
    with 1(1) [OF p refl] p \<open>CHR ''='' \<notin> set r\<close> show ?thesis by (subst parse_loop.simps) simp
  qed
qed

text \<open>The parser is the inverse of writing attributes \<open>name=value\<close> separated by semicolons: of each of the two
  names it knows the last non-empty value counts, other attributes are ignored and what is not mentioned keeps its
  value; the result is always success.\<close>

theorem metadata_roundtrip:
  assumes "list_all plain_attribute avs"
  shows "parse_video_encode_metadata (show_metadata avs) m =
    (0, m\<lparr>hint_id := last (hint_id m # values_of ''hint_id'' avs), state := last (state m # values_of ''state'' avs)\<rparr>)"
  using parse_loop_show [OF assms] by (simp add: parse_video_encode_metadata_def fold_apply_attribute)

theorem metadata_roundtrip_witness:
  "parse_video_encode_metadata ''hint_id=12;state=0;state=1'' \<lparr>hint_id = 0, state = - 1\<rparr> = (0, \<lparr>hint_id = 12, state = 1\<rparr>)"
proof -
  have "atoi ''12'' = 12" "atoi ''0'' = 0" "atoi ''1'' = 1" by code_simp+
  then show ?thesis
    using metadata_roundtrip [of "[(''hint_id'', ''12''), (''state'', ''0''), (''state'', ''1'')]" "\<lparr>hint_id = 0, state = - 1\<rparr>"]
    by (simp add: plain_attribute_def values_of_def show_attribute_def)
qed

end
