(* ===== verification/Power_Hints.thy ===== *)
theory Power_Hints
  imports Power_List Power_Metadata
begin

unbundle bit_operations_syntax

text \<open>
  The hints of the power HAL: the calls of the vendor's perf library and the list of active hints
  (\<open>power/utils.c\<close>, \<open>hint-data.c\<close>), the overrides of the board (\<open>power-8953.c\<close>), the hints common to all boards
  (\<open>power-common.c\<close>) and the service (\<open>Power.cpp\<close>). Static variables are fields of the state \<open>power\<close>; \<open>None\<close> is
  reading through a bad pointer.

  The perf library, \<open>malloc\<close>, the codes of \<open>hardware/power.h\<close> and the files of sysfs are not part of the
  repository and are fields of \<open>power_env\<close>. A pointer is its address. The functions of \<open>power-8953.c\<close>
  take one parameter more than the weak functions of \<open>power-common.c\<close> they replace; \<open>passed3\<close> and \<open>passed2\<close> say
  what the parameters of such a callee hold.
\<close>

section \<open>The platform\<close>

record hint_data =
  hd_hint_id :: int
  perflock_handle :: int

datatype perf_request = Perf_Lock_Acq int int "int list" | Perf_Lock_Rel int | Perf_Hint int int

record power_env =
  qcopt_handle :: bool \<comment> \<open>the perf library was opened\<close>
  has_lock_acq :: bool
  has_lock_rel :: bool
  has_perf_hint :: bool
  perf_answer :: "perf_request driver"
  malloc_node :: "hint_data heap \<Rightarrow> addr option"
  malloc_hint :: "perf_request list \<Rightarrow> bool" \<comment> \<open>whether \<open>malloc\<close> of a \<open>hint_data\<close> succeeds\<close>
  sysfs :: fsys
  interaction_boost :: bool \<comment> \<open>the build option \<open>INTERACTION_BOOST\<close>\<close>
  HINT_VSYNC :: int
  HINT_INTERACTION :: int
  HINT_VIDEO_ENCODE :: int
  HINT_SUSTAINED_PERFORMANCE :: int
  HINT_VR_MODE :: int
  HINT_DISABLE_TOUCH :: int
  text_at :: "int \<Rightarrow> string"
  passed3 :: "int \<Rightarrow> int \<Rightarrow> int \<times> int \<times> int"
  passed2 :: "int \<Rightarrow> int \<times> int"
  address_of_data :: int \<comment> \<open>the address of the parameter \<open>data\<close> of \<open>Power::powerHint\<close>\<close>
  display_open_ok :: "int \<Rightarrow> bool" \<comment> \<open>whether the n-th call can open the display node\<close>

datatype power_error =
    Lock_Failed | Hint_Lock_Failed int | Hint_Failed | Release_Failed | Invalid_Hint_Id | Not_Acquired int
  | No_Governor | Display_Open_Failed

record hint_handles =
  hh_handle :: int
  ref_count :: int

record power =
  perf_trace :: "perf_request list"
  hint_heap :: "hint_data heap"
  boost_handle :: int \<comment> \<open>the static \<open>lock_handle\<close> of \<open>interaction\<close>\<close>
  handles :: "int \<Rightarrow> hint_handles"
  saved_interactive_mode :: int
  display_hint_sent :: bool
  video_encode_hint_sent :: bool
  camera_hint_ref_count :: int
  init_interactive_hint :: bool
  set_i_count :: int
  display_writes :: "string list"
  errors :: "power_error list"

definition log_error :: "power_error \<Rightarrow> power \<Rightarrow> power" where
  "log_error e s = s\<lparr>errors := errors s @ [e]\<rparr>"

definition perf_call :: "power_env \<Rightarrow> perf_request \<Rightarrow> power \<Rightarrow> int \<times> power" where
  "perf_call E rq s = (perf_answer E (perf_trace s) rq, s\<lparr>perf_trace := perf_trace s @ [rq]\<rparr>)"

section \<open>Locks and active hints\<close>

definition interaction :: "power_env \<Rightarrow> int \<Rightarrow> int list \<Rightarrow> power \<Rightarrow> power" where
  "interaction E duration opts s =
     (if \<not> interaction_boost E \<or> duration < 0 \<or> length opts < 1 \<or> hd opts = 0 then s
      else if qcopt_handle E \<and> has_lock_acq E then
        (let (h, s1) = perf_call E (Perf_Lock_Acq (boost_handle s) duration opts) s;
             s2 = s1\<lparr>boost_handle := h\<rparr>
         in if h = - 1 then log_error Lock_Failed s2 else s2)
      else s)"

definition interaction_with_handle :: "power_env \<Rightarrow> int \<Rightarrow> int \<Rightarrow> int list \<Rightarrow> power \<Rightarrow> int \<times> power" where
  "interaction_with_handle E lock duration opts s =
     (if duration < 0 \<or> length opts < 1 \<or> hd opts = 0 then (0, s)
      else if qcopt_handle E \<and> has_lock_acq E then
        (let (h, s1) = perf_call E (Perf_Lock_Acq lock duration opts) s
         in (h, if h = - 1 then log_error Lock_Failed s1 else s1))
      else (lock, s))"

definition perf_hint_enable :: "power_env \<Rightarrow> int \<Rightarrow> int \<Rightarrow> power \<Rightarrow> int \<times> power" where
  "perf_hint_enable E hid duration s =
     (if duration < 0 then (0, s)
      else if qcopt_handle E \<and> has_perf_hint E then
        (let (h, s1) = perf_call E (Perf_Hint hid duration) s
         in (h, if h = - 1 then log_error (Hint_Lock_Failed hid) s1 else s1))
      else (0, s))"

definition release_request :: "power_env \<Rightarrow> int \<Rightarrow> power \<Rightarrow> power" where
  "release_request E lock s =
     (if qcopt_handle E \<and> has_lock_rel E then snd (perf_call E (Perf_Lock_Rel lock) s) else s)"

definition hint_compare :: "hint_data option \<Rightarrow> hint_data option \<Rightarrow> int" where
  "hint_compare x y =
     (if x = y then 0
      else case (x, y) of
        (Some a, Some b) \<Rightarrow> if hd_hint_id a = hd_hint_id b then 0 else 1
      | _ \<Rightarrow> 1)"

text \<open>The static list head.\<close>

definition active_hint_list_head :: addr where "active_hint_list_head = 1"

definition with_compare :: "hint_data heap \<Rightarrow> hint_data heap" where
  "with_compare h =
     (case h active_hint_list_head of
        Some n \<Rightarrow>
          if node_compare n = None
          then h(active_hint_list_head \<mapsto> n\<lparr>node_compare := Some hint_compare, node_dump := True\<rparr>) else h
      | None \<Rightarrow> h)"

definition perform_hint_action :: "power_env \<Rightarrow> int \<Rightarrow> int list \<Rightarrow> power \<Rightarrow> power option" where
  "perform_hint_action E hid vals s =
     (if qcopt_handle E \<and> has_lock_acq E then
        (let (lock, s1) = perf_call E (Perf_Lock_Acq 0 0 vals) s;
             give_up = (\<lambda>t. log_error Hint_Failed
               (if has_lock_rel E then snd (perf_call E (Perf_Lock_Rel lock) t) else t))
         in if lock = - 1 then Some (log_error Lock_Failed s1)
            else if malloc_hint E (perf_trace s1) then
              (case add_list_node (malloc_node E) active_hint_list_head
                      (Some \<lparr>hd_hint_id = hid, perflock_handle = lock\<rparr>) (with_compare (hint_heap s1)) of
                 None \<Rightarrow> None
               | Some (node, h) \<Rightarrow>
                   Some (if node = 0 then give_up (s1\<lparr>hint_heap := h\<rparr>) else s1\<lparr>hint_heap := h\<rparr>))
            else Some (give_up s1))
      else Some s)"

definition undo_hint_action :: "power_env \<Rightarrow> int \<Rightarrow> power \<Rightarrow> power option" where
  "undo_hint_action E hid s =
     (if qcopt_handle E \<and> has_lock_rel E then
        (case find_node active_hint_list_head (Some \<lparr>hd_hint_id = hid, perflock_handle = 0\<rparr>) (hint_heap s) of
           None \<Rightarrow> None
         | Some found \<Rightarrow>
             if found = 0 then Some (log_error Invalid_Hint_Id s)
             else case hint_heap s found of
               None \<Rightarrow> None
             | Some n \<Rightarrow>
                 (let s1 = (case node_data n of
                              None \<Rightarrow> s
                            | Some d \<Rightarrow>
                                (let (r, t) = perf_call E (Perf_Lock_Rel (perflock_handle d)) s
                                 in if r = - 1 then log_error Release_Failed t else t))
                  in map_option (\<lambda>(_, h). s1\<lparr>hint_heap := h\<rparr>)
                       (remove_list_node active_hint_list_head found (hint_heap s1))))
      else Some s)"

definition undo_initial_hint_action :: "power_env \<Rightarrow> power \<Rightarrow> power" where
  "undo_initial_hint_action E s =
     (if qcopt_handle E \<and> has_lock_rel E then snd (perf_call E (Perf_Lock_Rel 1) s) else s)"

section \<open>Files\<close>

definition sysfs_read :: "fsys \<Rightarrow> path \<Rightarrow> nat \<Rightarrow> string option" where
  "sysfs_read fs p num_bytes = map_option (take (num_bytes - 1)) (read_file fs p)"

definition sysfs_write :: "fsys \<Rightarrow> path \<Rightarrow> string \<Rightarrow> int \<times> fsys" where
  "sysfs_write fs p s = (let (ok, fs') = write_file fs p s in (if ok then 0 else - 1, fs'))"

definition strip_newlines :: "string \<Rightarrow> string" where
  "strip_newlines s = rev (dropWhile (\<lambda>c. c = CHR 0x0A \<or> c = CHR 0x0D) (rev s))"

definition SCALING_GOVERNOR_PATH :: path where
  "SCALING_GOVERNOR_PATH = ''/sys/devices/system/cpu/cpu0/cpufreq/scaling_governor''"

definition scaling_gov_path :: "path list" where
  "scaling_gov_path =
    [''sys/devices/system/cpu/cpu0/cpufreq/scaling_governor'',
     ''sys/devices/system/cpu/cpu1/cpufreq/scaling_governor'',
     ''sys/devices/system/cpu/cpu2/cpufreq/scaling_governor'',
     ''sys/devices/system/cpu/cpu3/cpufreq/scaling_governor'']"

definition get_scaling_governor :: "fsys \<Rightarrow> nat \<Rightarrow> string option" where
  "get_scaling_governor fs n = map_option strip_newlines (sysfs_read fs SCALING_GOVERNOR_PATH n)"

definition get_scaling_governor_check_cores :: "fsys \<Rightarrow> nat \<Rightarrow> nat \<Rightarrow> string option" where
  "get_scaling_governor_check_cores fs n core = map_option strip_newlines (sysfs_read fs (scaling_gov_path ! core) n)"

definition INTERACTIVE_GOVERNOR :: string where "INTERACTIVE_GOVERNOR = ''interactive''"
definition SCHEDUTIL_GOVERNOR :: string where "SCHEDUTIL_GOVERNOR = ''schedutil''"

definition is_interactive_governor :: "string \<Rightarrow> bool" where
  "is_interactive_governor g \<longleftrightarrow> g = INTERACTIVE_GOVERNOR"

text \<open>The nested tests at the start of two functions: the governor of the first core that can be read.\<close>

definition first_governor :: "fsys \<Rightarrow> string option" where
  "first_governor fs =
     (case get_scaling_governor_check_cores fs 80 0 of Some g \<Rightarrow> Some g | None \<Rightarrow>
      case get_scaling_governor_check_cores fs 80 1 of Some g \<Rightarrow> Some g | None \<Rightarrow>
      case get_scaling_governor_check_cores fs 80 2 of Some g \<Rightarrow> Some g | None \<Rightarrow>
      get_scaling_governor_check_cores fs 80 3)"

section \<open>Lists of active hints\<close>

definition perf_available :: "power_env \<Rightarrow> bool" where
  "perf_available E \<longleftrightarrow> qcopt_handle E \<and> has_lock_acq E \<and> has_lock_rel E \<and> has_perf_hint E
     \<and> (\<forall>tr d vs. perf_answer E tr (Perf_Lock_Acq 0 d vs) \<noteq> - 1)
     \<and> (\<forall>tr. malloc_hint E tr) \<and> mallocs (malloc_node E)"

text \<open>The entries of the active hints; before the first hint the head has no comparison yet.\<close>

abbreviation hint_list :: "hint_data heap \<Rightarrow> (addr \<times> hint_data option) list \<Rightarrow> bool" where
  "hint_list h ns \<equiv> list_rep h active_hint_list_head hint_compare ns"

definition same_hint :: "int \<Rightarrow> addr \<times> hint_data option \<Rightarrow> bool" where
  "same_hint hid x \<longleftrightarrow> (case snd x of None \<Rightarrow> False | Some d \<Rightarrow> hd_hint_id d = hid)"

lemma hint_compare_same:
  "hint_compare (snd x) (Some \<lparr>hd_hint_id = hid, perflock_handle = 0\<rparr>) = 0 \<longleftrightarrow> same_hint hid x"
  by (auto simp: hint_compare_def same_hint_def split: option.splits)

lemma with_compare_id: "list_rep h active_hint_list_head hint_compare ns \<Longrightarrow> with_compare h = h"
  by (auto simp: with_compare_def elim!: list_repD)

lemma perform_hint_action_ok:
  assumes "perf_available E" and "hint_list (with_compare (hint_heap s)) ns"
    and "malloc_node E (with_compare (hint_heap s)) \<noteq> None"
  shows "\<exists>a h. perform_hint_action E hid vals s =
        Some (s\<lparr>perf_trace := perf_trace s @ [Perf_Lock_Acq 0 0 vals], hint_heap := h\<rparr>)
    \<and> hint_list h ((a, Some \<lparr>hd_hint_id = hid, perflock_handle = perf_answer E (perf_trace s) (Perf_Lock_Acq 0 0 vals)\<rparr>) # ns)"
proof -
  let ?h = "with_compare (hint_heap s)"
  let ?d = "Some \<lparr>hd_hint_id = hid, perflock_handle = perf_answer E (perf_trace s) (Perf_Lock_Acq 0 0 vals)\<rparr>"
  obtain a where a: "malloc_node E ?h = Some a" using assms(3) by blast
  have m: "mallocs (malloc_node E)" using assms(1) by (simp add: perf_available_def)
  then have "a \<noteq> 0" using a by (auto simp: mallocs_def)
  obtain h where "add_list_node (malloc_node E) active_hint_list_head ?d ?h = Some (a, h)" "hint_list h ((a, ?d) # ns)"
    using add_list_node_rep [OF assms(2) m a] by blast
  then show ?thesis
    using assms(1) \<open>a \<noteq> 0\<close> by (auto simp: perform_hint_action_def perf_call_def perf_available_def)
qed

lemma undo_hint_action_ok:
  assumes "perf_available E" and "hint_list (hint_heap s) ns" and "find (same_hint hid) ns = Some (a, Some d)"
  shows "\<exists>h es. undo_hint_action E hid s =
        Some (s\<lparr>perf_trace := perf_trace s @ [Perf_Lock_Rel (perflock_handle d)], hint_heap := h, errors := es\<rparr>)
    \<and> hint_list h (filter (\<lambda>x. fst x \<noteq> a) ns)"
proof -
  have f: "find_node active_hint_list_head (Some \<lparr>hd_hint_id = hid, perflock_handle = 0\<rparr>) (hint_heap s) = Some a"
    using find_node_rep [OF assms(2)] assms(3) by (simp add: hint_compare_same)
  have i: "(a, Some d) \<in> set ns" using assms(3) by (auto simp: find_Some_iff)
  then obtain as bs where ns: "ns = as @ (a, Some d) # bs" by (auto dest!: split_list)
  obtain n where n: "hint_heap s a = Some n" "node_data n = Some d" "a \<noteq> 0"
    using assms(2) chain_split unfolding ns by (blast elim: list_repD)
  obtain h where h: "remove_list_node active_hint_list_head a (hint_heap s) = Some (0, h)"
    "hint_list h (filter (\<lambda>x. fst x \<noteq> a) ns)"
    using remove_list_node_filter [OF assms(2), of a] i by force
  have "\<exists>es. undo_hint_action E hid s =
      Some (s\<lparr>perf_trace := perf_trace s @ [Perf_Lock_Rel (perflock_handle d)], hint_heap := h, errors := es\<rparr>)"
    using assms(1) f n h(1)
    by (intro exI [of _ "errors s @ (if perf_answer E (perf_trace s) (Perf_Lock_Rel (perflock_handle d)) = - 1
        then [Release_Failed] else [])"])
      (auto simp: undo_hint_action_def perf_available_def perf_call_def log_error_def)
  with h(2) show ?thesis by blast
qed

text \<open>A hint performed and then undone releases exactly the lock that was acquired for it and leaves the active
  hints as they were; of several active hints with the same id the youngest is undone first.\<close>

theorem perform_undo_roundtrip:
  assumes "perf_available E" and "hint_list (with_compare (hint_heap s)) ns"
    and "malloc_node E (with_compare (hint_heap s)) \<noteq> None"
  shows "\<exists>t u. perform_hint_action E hid vals s = Some t \<and> undo_hint_action E hid t = Some u
    \<and> perf_trace u = perf_trace s @ [Perf_Lock_Acq 0 0 vals,
         Perf_Lock_Rel (perf_answer E (perf_trace s) (Perf_Lock_Acq 0 0 vals))]
    \<and> hint_list (hint_heap u) ns"
proof -
  let ?d = "\<lparr>hd_hint_id = hid, perflock_handle = perf_answer E (perf_trace s) (Perf_Lock_Acq 0 0 vals)\<rparr>"
  obtain a h where t: "perform_hint_action E hid vals s =
      Some (s\<lparr>perf_trace := perf_trace s @ [Perf_Lock_Acq 0 0 vals], hint_heap := h\<rparr>)" (is "_ = Some ?t")
    and l: "hint_list h ((a, Some ?d) # ns)"
    using perform_hint_action_ok [OF assms] by blast
  have f: "find (same_hint hid) ((a, Some ?d) # ns) = Some (a, Some ?d)" by (simp add: same_hint_def)
  have "a \<notin> fst ` set ns" using list_rep_distinct [OF l] by simp
  then have "filter (\<lambda>x. fst x \<noteq> a) ns = ns" by (auto simp: filter_id_conv image_iff)
  then obtain h' es where "undo_hint_action E hid ?t = Some (?t\<lparr>perf_trace := perf_trace ?t @ [Perf_Lock_Rel (perflock_handle ?d)],
      hint_heap := h', errors := es\<rparr>)" "hint_list h' ns"
    using undo_hint_action_ok [OF assms(1), of ?t _ hid a ?d, OF _ f] l by auto
  with t show ?thesis by simp
qed

section \<open>A concrete platform\<close>

text \<open>The initial state: everything static is zero.\<close>

definition zero_power :: power where
  "zero_power = \<lparr>perf_trace = [], hint_heap = [active_hint_list_head \<mapsto>
       \<lparr>next_node = 0, node_data = None, node_compare = None, node_dump = False\<rparr>],
     boost_handle = 0, handles = (\<lambda>_. \<lparr>hh_handle = 0, ref_count = 0\<rparr>), saved_interactive_mode = - 1,
     display_hint_sent = False, video_encode_hint_sent = False, camera_hint_ref_count = 0,
     init_interactive_hint = False, set_i_count = 0, display_writes = [], errors = []\<rparr>"

definition board_files :: fsys where
  "board_files = \<lparr>content = [''sys/devices/system/cpu/cpu0/cpufreq/scaling_governor'' \<mapsto> ''interactive'' @ [CHR 0x0A]],
     write_fails = (\<lambda>_. False)\<rparr>"

definition board :: power_env where
  "board = \<lparr>qcopt_handle = True, has_lock_acq = True, has_lock_rel = True, has_perf_hint = True,
     perf_answer = (\<lambda>tr _. 1 + int (length tr)), malloc_node = first_free, malloc_hint = (\<lambda>_. True),
     sysfs = board_files, interaction_boost = False, HINT_VSYNC = 1, HINT_INTERACTION = 2, HINT_VIDEO_ENCODE = 3,
     HINT_SUSTAINED_PERFORMANCE = 6, HINT_VR_MODE = 7, HINT_DISABLE_TOUCH = 9,
     text_at = (\<lambda>a. if a = 64 then ''state=1'' else if a = 128 then ''state=0'' else [CHR 0x01]),
     passed3 = (\<lambda>a b. (a, b, 0)), passed2 = (\<lambda>a. (a, 0)), address_of_data = 4096, display_open_ok = (\<lambda>_. True)\<rparr>"

lemma board_available: "perf_available board"
  by (simp add: perf_available_def board_def mallocs_first_free)

lemma zero_power_list: "hint_list (with_compare (hint_heap zero_power)) []"
  by (simp add: zero_power_def with_compare_def list_rep_def list_at_def all_compare_def active_hint_list_head_def)

lemma zero_power_malloc: "malloc_node board (with_compare (hint_heap zero_power)) = Some 2"
  by (simp add: board_def first_free_def zero_power_def with_compare_def active_hint_list_head_def)

theorem perform_undo_roundtrip_witness:
  "\<exists>t u. perform_hint_action board 12 [5, 6] zero_power = Some t \<and> undo_hint_action board 12 t = Some u
    \<and> perf_trace u = [Perf_Lock_Acq 0 0 [5, 6], Perf_Lock_Rel 1]"
  using perform_undo_roundtrip [OF board_available zero_power_list, of 12 "[5, 6]"] zero_power_malloc
  by (auto simp: zero_power_def board_def)

end
