(* ===== verification/Power_Board.thy ===== *)
theory Power_Board
  imports Power_Hints
begin

text \<open>
  The board's overrides of the power HAL (\<open>power/power-8953.c\<close>), the hints common to all boards
  (\<open>power-common.c\<close>) and the entry points of the service (\<open>Power.cpp\<close>).
\<close>

section \<open>Overrides of the board\<close>

definition DEFAULT_VIDEO_ENCODE_HINT_ID :: int where "DEFAULT_VIDEO_ENCODE_HINT_ID = 0x0A00"
definition DISPLAY_STATE_HINT_ID :: int where "DISPLAY_STATE_HINT_ID = 0x0C00"
definition AOSP_DELTA :: int where "AOSP_DELTA = 0x1200"

lemmas hint_ids = DEFAULT_VIDEO_ENCODE_HINT_ID_def DISPLAY_STATE_HINT_ID_def AOSP_DELTA_def

definition is_target_SDM632 :: "fsys \<Rightarrow> bool" where
  "is_target_SDM632 fs =
     (case read_file fs ''/sys/devices/soc0/soc_id'' of
        None \<Rightarrow> False
      | Some t \<Rightarrow> atoi (take 9 t) \<in> {349, 350})"

definition encode_values :: "power_env \<Rightarrow> string \<Rightarrow> int list option" where
  "encode_values E governor =
     (if governor = SCHEDUTIL_GOVERNOR then
        Some (if is_target_SDM632 (sysfs E)
              then [0x41820000, 0xa, 0x40c68100, - 6, 0x40c68110, - 6, 0x40c68120, - 6, 0x40c68130, - 6,
                    0x41440100, 0x5f, 0x4143c100, 0x40c]
              else [0x41820000, 0xa])
      else if governor = INTERACTIVE_GOVERNOR then Some [0x41430000, 0x1, 0x41434000, 0x1, 0x41424000, 0x28]
      else None)"

text \<open>The passage under the lock that the three cases of a starting encoder share.\<close>

definition start_encode :: "power_env \<Rightarrow> int \<Rightarrow> int list \<Rightarrow> power \<Rightarrow> power option" where
  "start_encode E hid vals s =
     (let s1 = s\<lparr>camera_hint_ref_count := camera_hint_ref_count s + 1\<rparr>
      in if camera_hint_ref_count s1 = 1 \<and> \<not> video_encode_hint_sent s1
         then map_option (\<lambda>t. t\<lparr>video_encode_hint_sent := True\<rparr>) (perform_hint_action E hid vals s1)
         else Some s1)"

definition stop_encode :: "power_env \<Rightarrow> int \<Rightarrow> power \<Rightarrow> power option" where
  "stop_encode E hid s =
     (let s1 = s\<lparr>camera_hint_ref_count := camera_hint_ref_count s - 1\<rparr>
      in if camera_hint_ref_count s1 = 0
         then map_option (\<lambda>t. t\<lparr>video_encode_hint_sent := False\<rparr>) (undo_hint_action E hid s1)
         else Some s1)"

definition process_video_encode_hint :: "power_env \<Rightarrow> int \<Rightarrow> power \<Rightarrow> power option" where
  "process_video_encode_hint E metadata s =
     (let (governor, s1) = (case first_governor (sysfs E) of
            Some g \<Rightarrow> (g, s)
          | None \<Rightarrow> ('''', log_error No_Governor s))
      in if metadata = 0 then Some s1
         else
           (let (_, m) = parse_video_encode_metadata (text_at E metadata)
                           \<lparr>hint_id = DEFAULT_VIDEO_ENCODE_HINT_ID, state = - 1\<rparr>
            in if state m = 1 then
                 (case encode_values E governor of
                    Some vals \<Rightarrow> start_encode E (hint_id m) vals s1
                  | None \<Rightarrow> Some s1)
               else if state m = 0 \<and> (governor = INTERACTIVE_GOVERNOR \<or> governor = SCHEDUTIL_GOVERNOR)
               then stop_encode E (hint_id m) s1
               else Some s1))"

text \<open>The value is whether the hint was handled.\<close>

definition power_hint_override :: "power_env \<Rightarrow> int \<Rightarrow> int \<Rightarrow> int \<Rightarrow> power \<Rightarrow> (bool \<times> power) option" where
  "power_hint_override E module hint data s =
     (if hint = HINT_VIDEO_ENCODE E then map_option (Pair True) (process_video_encode_hint E data s)
      else Some (False, s))"

text \<open>The display node: the call that opens it writes nothing.\<close>

definition write_display :: "power_env \<Rightarrow> int \<Rightarrow> power \<Rightarrow> power" where
  "write_display E on s =
     (if \<not> init_interactive_hint s then
        (if display_open_ok E (set_i_count s) then s\<lparr>init_interactive_hint := True\<rparr>
         else log_error Display_Open_Failed s)
      else s\<lparr>display_writes := display_writes s @ [if on = 0 then ''0'' else ''1'']\<rparr>)"

definition set_interactive_override :: "power_env \<Rightarrow> int \<Rightarrow> int \<Rightarrow> power \<Rightarrow> power option" where
  "set_interactive_override E module on s =
     (case first_governor (sysfs E) of
        None \<Rightarrow> Some (log_error No_Governor s)
      | Some governor \<Rightarrow>
          (let r = (if governor \<noteq> INTERACTIVE_GOVERNOR then Some s
                    else if on = 0 then
                      (if display_hint_sent s then Some s
                       else map_option (\<lambda>t. t\<lparr>display_hint_sent := True\<rparr>)
                              (perform_hint_action E DISPLAY_STATE_HINT_ID [0x41424000, 0x28] s))
                    else map_option (\<lambda>t. t\<lparr>display_hint_sent := False\<rparr>) (undo_hint_action E DISPLAY_STATE_HINT_ID s))
           in map_option (\<lambda>t. write_display E on
                (t\<lparr>saved_interactive_mode := (if on = 0 then 0 else 1), set_i_count := set_i_count t + 1\<rparr>)) r))"

section \<open>Common hints\<close>

definition no_handles :: hint_handles where "no_handles = \<lparr>hh_handle = 0, ref_count = 0\<rparr>"

definition NUM_HINTS :: "power_env \<Rightarrow> int" where "NUM_HINTS E = HINT_DISABLE_TOUCH E + 1"

definition power_init :: "power_env \<Rightarrow> power \<Rightarrow> power" where
  "power_init E s = s\<lparr>handles := (\<lambda>i. if 0 \<le> i \<and> i < NUM_HINTS E then no_handles else handles s i)\<rparr>"

text \<open>A pointer passed where the callee reads an \<open>int\<close>.\<close>

definition as_int :: "int \<Rightarrow> int" where "as_int p = sint (word_of_int p :: 32 word)"

definition set_handle :: "int \<Rightarrow> hint_handles \<Rightarrow> power \<Rightarrow> power" where
  "set_handle hint v s = s\<lparr>handles := (handles s)(hint := v)\<rparr>"

text \<open>A client starts or ends one of the two counted hints. The \<open>else\<close> of the release belongs to the inner
  \<open>if\<close>: the error is logged when clients are left.\<close>

definition counted_on :: "power_env \<Rightarrow> int \<Rightarrow> power \<Rightarrow> power" where
  "counted_on E hint s =
     (let s1 = (if ref_count (handles s hint) = 0
                then (let (h, t) = perf_hint_enable E (AOSP_DELTA + hint) 0 s
                      in set_handle hint ((handles t hint)\<lparr>hh_handle := h\<rparr>) t)
                else s)
      in if hh_handle (handles s1 hint) > 0
         then set_handle hint ((handles s1 hint)\<lparr>ref_count := ref_count (handles s1 hint) + 1\<rparr>) s1
         else s1)"

definition counted_off :: "power_env \<Rightarrow> int \<Rightarrow> power \<Rightarrow> power" where
  "counted_off E hint s =
     (if hh_handle (handles s hint) > 0 then
        (let s1 = set_handle hint ((handles s hint)\<lparr>ref_count := ref_count (handles s hint) - 1\<rparr>) s
         in if ref_count (handles s1 hint) = 0
            then (let s2 = release_request E (hh_handle (handles s1 hint)) s1
                  in set_handle hint ((handles s2 hint)\<lparr>hh_handle := 0\<rparr>) s2)
            else log_error (Not_Acquired hint) s1)
      else s)"

definition power_hint_common :: "power_env \<Rightarrow> int \<Rightarrow> int \<Rightarrow> power \<Rightarrow> power" where
  "power_hint_common E hint data s =
     (if hint = HINT_VSYNC E then s
      else if hint = HINT_VR_MODE E then s
      else if hint = HINT_INTERACTION E then interaction E 3000 [0x702, 0x20F, 0x30F] s
      else if hint = HINT_SUSTAINED_PERFORMANCE E \<or> hint = HINT_VIDEO_ENCODE E
      then (if data \<noteq> 0 then counted_on E hint s else counted_off E hint s)
      else s)"

definition power_hint :: "power_env \<Rightarrow> int \<Rightarrow> int \<Rightarrow> power \<Rightarrow> power option" where
  "power_hint E hint data s =
     (let (module, h, d) = passed3 E hint data
      in case power_hint_override E module (as_int h) d s of
           None \<Rightarrow> None
         | Some (handled, s1) \<Rightarrow> Some (if handled then s1 else power_hint_common E hint data s1))"

definition VENDOR_HINT_DISPLAY_OFF :: int where "VENDOR_HINT_DISPLAY_OFF = 0x1040"
definition VENDOR_HINT_DISPLAY_ON :: int where "VENDOR_HINT_DISPLAY_ON = 0x1041"

definition set_interactive :: "power_env \<Rightarrow> int \<Rightarrow> power \<Rightarrow> power option" where
  "set_interactive E on s =
     (let s1 = snd (perf_hint_enable E (if on = 0 then VENDOR_HINT_DISPLAY_OFF else VENDOR_HINT_DISPLAY_ON) 0 s);
          (module, on') = passed2 E on
      in set_interactive_override E module (as_int on') s1)"

text \<open>Without a build-time node for double tap to wake there is no feature.\<close>

definition set_feature :: "int \<Rightarrow> int \<Rightarrow> power \<Rightarrow> power" where
  "set_feature feature st s = s"

section \<open>The service\<close>

definition new_Power :: "power_env \<Rightarrow> power \<Rightarrow> power" where
  "new_Power E s = power_init E s"

definition Power_setInteractive :: "power_env \<Rightarrow> bool \<Rightarrow> power \<Rightarrow> power option" where
  "Power_setInteractive E interactive s = set_interactive E (if interactive then 1 else 0) s"

definition Power_powerHint :: "power_env \<Rightarrow> int \<Rightarrow> int \<Rightarrow> power \<Rightarrow> power option" where
  "Power_powerHint E hint data s = power_hint E hint (if data \<noteq> 0 then address_of_data E else 0) s"

definition Power_setFeature :: "int \<Rightarrow> bool \<Rightarrow> power \<Rightarrow> power" where
  "Power_setFeature feature activate s = set_feature feature (if activate then 1 else 0) s"

definition Power_powerHintAsync :: "power_env \<Rightarrow> int \<Rightarrow> int \<Rightarrow> power \<Rightarrow> power option" where
  "Power_powerHintAsync E hint data s = Power_powerHint E hint data s"

definition Power_powerHintAsync_1_2 :: "power_env \<Rightarrow> int \<Rightarrow> int \<Rightarrow> power \<Rightarrow> power option" where
  "Power_powerHintAsync_1_2 E hint data s = Power_powerHint E hint data s"

section \<open>Counted hints\<close>

text \<open>The documented codes of \<open>hardware/power.h\<close>.\<close>

definition documented_codes :: "power_env \<Rightarrow> bool" where
  "documented_codes E \<longleftrightarrow> HINT_VSYNC E = 1 \<and> HINT_INTERACTION E = 2 \<and> HINT_VIDEO_ENCODE E = 3
     \<and> HINT_SUSTAINED_PERFORMANCE E = 6 \<and> HINT_VR_MODE E = 7 \<and> HINT_DISABLE_TOUCH E = 9"

text \<open>The calling convention: a callee reads the arguments it is given from the first on.\<close>

definition in_order :: "power_env \<Rightarrow> bool" where
  "in_order E \<longleftrightarrow> (\<forall>a b. fst (passed3 E a b) = a \<and> fst (snd (passed3 E a b)) = b)"

lemma as_int_aligned:
  assumes "4 dvd p"
  shows "as_int p \<noteq> 3"
proof
  assume "as_int p = 3"
  then have "(word_of_int (as_int p) :: 32 word) = 3" by simp
  then have "word_of_int p = (3 :: 32 word)" by (simp add: as_int_def)
  then have "uint (word_of_int p :: 32 word) = 3" by simp
  then have "p mod 4294967296 mod 4 = 3" by (simp add: uint_word_of_int)
  then have "p mod 4 = 3" by (simp add: mod_mod_cancel)
  with assms show False by (simp add: dvd_eq_mod_eq_0)
qed

text \<open>The override reads the pointer as the hint, so it handles nothing.\<close>

lemma power_hint_common_only:
  assumes "documented_codes E" and "in_order E" and "4 dvd data"
  shows "power_hint E hint data s = Some (power_hint_common E hint data s)"
proof -
  obtain m h d where p: "passed3 E hint data = (m, h, d)" by (metis prod_cases3)
  moreover have "fst (snd (passed3 E hint data)) = data" using assms(2) by (simp add: in_order_def)
  ultimately have "h = data" by simp
  with as_int_aligned [OF assms(3)] assms(1) p show ?thesis
    by (simp add: power_hint_def power_hint_override_def documented_codes_def)
qed

text \<open>The reference: \<open>n\<close> clients hold the hint, which is the lock \<open>h\<close>. The first client requests the hint, the
  last one releases what was granted; a client that ends without any being counted is ignored.\<close>

fun client_requests :: "power_env \<Rightarrow> int \<Rightarrow> perf_request list \<Rightarrow> nat \<Rightarrow> int \<Rightarrow> int list \<Rightarrow> perf_request list" where
  "client_requests E hint tr n h [] = []"
| "client_requests E hint tr n h (d # ds) =
     (if d \<noteq> 0 then
        (if n = 0 then
           (let rq = Perf_Hint (AOSP_DELTA + hint) 0
            in rq # client_requests E hint (tr @ [rq]) 1 (perf_answer E tr rq) ds)
         else client_requests E hint tr (n + 1) h ds)
      else
        (if n = 0 then client_requests E hint tr 0 h ds
         else if n = 1 then Perf_Lock_Rel h # client_requests E hint (tr @ [Perf_Lock_Rel h]) 0 0 ds
         else client_requests E hint tr (n - 1) h ds))"

fun clients :: "nat \<Rightarrow> int list \<Rightarrow> nat" where
  "clients n [] = n"
| "clients n (d # ds) = clients (if d \<noteq> 0 then n + 1 else n - 1) ds"

fun run_hint :: "power_env \<Rightarrow> int \<Rightarrow> int list \<Rightarrow> power \<Rightarrow> power option" where
  "run_hint E hint [] s = Some s"
| "run_hint E hint (d # ds) s = (case Power_powerHint E hint d s of None \<Rightarrow> None | Some t \<Rightarrow> run_hint E hint ds t)"

definition grants_hints :: "power_env \<Rightarrow> bool" where
  "grants_hints E \<longleftrightarrow> qcopt_handle E \<and> has_perf_hint E \<and> has_lock_rel E
     \<and> (\<forall>tr i. perf_answer E tr (Perf_Hint i 0) > 0)"

definition counts :: "int \<Rightarrow> nat \<Rightarrow> power \<Rightarrow> bool" where
  "counts hint n s \<longleftrightarrow> ref_count (handles s hint) = int n \<and> (hh_handle (handles s hint) > 0 \<longleftrightarrow> n > 0)
     \<and> (n = 0 \<longrightarrow> hh_handle (handles s hint) = 0)"

lemma counted_on_step:
  assumes "grants_hints E" and "counts hint n s"
  shows "counts hint (n + 1) (counted_on E hint s)"
    and "n = 0 \<Longrightarrow> perf_trace (counted_on E hint s) = perf_trace s @ [Perf_Hint (AOSP_DELTA + hint) 0]"
    and "n = 0 \<Longrightarrow> hh_handle (handles (counted_on E hint s) hint) = perf_answer E (perf_trace s) (Perf_Hint (AOSP_DELTA + hint) 0)"
    and "n > 0 \<Longrightarrow> perf_trace (counted_on E hint s) = perf_trace s
          \<and> hh_handle (handles (counted_on E hint s) hint) = hh_handle (handles s hint)"
  using assms
  by (auto simp: counts_def counted_on_def grants_hints_def perf_hint_enable_def perf_call_def set_handle_def
      log_error_def Let_def)

lemma counted_off_step:
  assumes "grants_hints E" and "counts hint n s"
  shows "counts hint (n - 1) (counted_off E hint s)"
    and "n = 0 \<Longrightarrow> counted_off E hint s = s"
    and "n = 1 \<Longrightarrow> perf_trace (counted_off E hint s) = perf_trace s @ [Perf_Lock_Rel (hh_handle (handles s hint))]"
    and "n > 1 \<Longrightarrow> perf_trace (counted_off E hint s) = perf_trace s
          \<and> hh_handle (handles (counted_off E hint s) hint) = hh_handle (handles s hint)"
  using assms
  by (auto simp: counts_def counted_off_def grants_hints_def release_request_def perf_call_def set_handle_def
      log_error_def Let_def)

lemma powerHint_counted:
  assumes "documented_codes E" and "in_order E" and "address_of_data E \<noteq> 0" and "4 dvd address_of_data E"
    and "hint = HINT_SUSTAINED_PERFORMANCE E \<or> hint = HINT_VIDEO_ENCODE E"
  shows "Power_powerHint E hint d s = Some (if d \<noteq> 0 then counted_on E hint s else counted_off E hint s)"
  using assms
  by (auto simp: Power_powerHint_def power_hint_common_only power_hint_common_def documented_codes_def)

text \<open>C6: the service counts the clients of the two hints that last (sustained performance and video encoding): whatever
  the order in which clients start (any data but 0) and end, the hint is requested exactly when the first one starts,
  exactly the lock that was granted is released when the last one ends, and the count never goes below zero. The
  override of the board for video encoding never runs: it reads the address of the data as the hint.\<close>

theorem powerHint_counts_clients:
  assumes "documented_codes E" and "in_order E" and "address_of_data E \<noteq> 0" and "4 dvd address_of_data E"
    and "grants_hints E" and "hint = HINT_SUSTAINED_PERFORMANCE E \<or> hint = HINT_VIDEO_ENCODE E" and "counts hint n s"
  shows "\<exists>t. run_hint E hint ds s = Some t \<and> counts hint (clients n ds) t
    \<and> perf_trace t = perf_trace s @ client_requests E hint (perf_trace s) n (hh_handle (handles s hint)) ds"
  using assms(7)
proof (induction ds arbitrary: n s)
  case (Cons d ds)
  note p = powerHint_counted [OF assms(1-4,6)]
  note on = counted_on_step [OF assms(5) Cons.prems] and off = counted_off_step [OF assms(5) Cons.prems]
  show ?case
  proof (cases "d = 0")
    case False
    from Cons.IH [OF on(1)] False on(2-4) show ?thesis by (cases "n = 0") (auto simp: p Let_def)
  next
    case True
    consider "n = 0" | "n = 1" | "n > 1" by linarith
    then show ?thesis
    proof cases
      case 2
      with Cons.IH [OF off(1)] have "hh_handle (handles (counted_off E hint s) hint) = 0"
        using off(1) by (simp add: counts_def)
      with 2 Cons.IH [OF off(1)] True off(3) show ?thesis by (auto simp: p)
    qed (use Cons.IH [OF off(1)] True off(2,4) Cons.IH [OF Cons.prems] in \<open>auto simp: p\<close>)
  qed
qed simp

lemma board_codes: "documented_codes board" "in_order board" "grants_hints board"
  "address_of_data board \<noteq> 0" "4 dvd address_of_data board"
  by (simp_all add: documented_codes_def in_order_def grants_hints_def board_def)

lemma zero_counts: "counts hint 0 zero_power"
  by (simp add: counts_def zero_power_def)

theorem powerHint_counts_clients_witness:
  "\<exists>t. run_hint board 3 [1, 1, 0, 0, 0, 1] zero_power = Some t
     \<and> perf_trace t = [Perf_Hint 0x1203 0, Perf_Lock_Rel 1, Perf_Hint 0x1203 0]"
  using powerHint_counts_clients [OF board_codes(1,2,4,5,3) _ zero_counts, of 3 "[1, 1, 0, 0, 0, 1]"]
  by (auto simp: board_def zero_power_def AOSP_DELTA_def Let_def)

text \<open>When a client ends while others are left, the lock is kept but an error says that it had not been acquired; when
  a client ends although none had acquired the lock, nothing is logged. Neither ever calls the perf library.\<close>

theorem release_error_misplaced:
  assumes "hh_handle (handles s hint) > 0 \<Longrightarrow> ref_count (handles s hint) \<ge> 2"
  shows "perf_trace (counted_off E hint s) = perf_trace s
    \<and> hh_handle (handles (counted_off E hint s) hint) = hh_handle (handles s hint)
    \<and> errors (counted_off E hint s) = errors s @ (if hh_handle (handles s hint) > 0 then [Not_Acquired hint] else [])"
  using assms by (auto simp: counted_off_def set_handle_def log_error_def Let_def)

theorem release_error_misplaced_witness:
  "errors (counted_off board 3 (counted_on board 3 (counted_on board 3 zero_power))) = [Not_Acquired 3]
   \<and> errors (counted_off board 3 zero_power) = []"
proof -
  let ?s = "counted_on board 3 (counted_on board 3 zero_power)"
  have s: "hh_handle (handles ?s 3) = 1" "ref_count (handles ?s 3) = 2" "errors ?s = []"
    by (simp_all add: counted_on_def perf_hint_enable_def perf_call_def set_handle_def board_def zero_power_def Let_def)
  show ?thesis
    using release_error_misplaced [of ?s 3 board] release_error_misplaced [of zero_power 3 board] s
    by (simp add: zero_power_def)
qed

section \<open>Video encoding\<close>

text \<open>The override called as its own file declares it: what the start and the end of one encoder do.\<close>

definition encode_ready :: "power_env \<Rightarrow> int \<Rightarrow> int \<Rightarrow> int \<Rightarrow> int list \<Rightarrow> bool" where
  "encode_ready E start stop hid vals \<longleftrightarrow>
     (\<exists>g. first_governor (sysfs E) = Some g \<and> encode_values E g = Some vals) \<and> start \<noteq> 0 \<and> stop \<noteq> 0
     \<and> snd (parse_video_encode_metadata (text_at E start) \<lparr>hint_id = DEFAULT_VIDEO_ENCODE_HINT_ID, state = - 1\<rparr>)
        = \<lparr>hint_id = hid, state = 1\<rparr>
     \<and> snd (parse_video_encode_metadata (text_at E stop) \<lparr>hint_id = DEFAULT_VIDEO_ENCODE_HINT_ID, state = - 1\<rparr>)
        = \<lparr>hint_id = hid, state = 0\<rparr>"

lemma encode_ready_steps:
  assumes "encode_ready E start stop hid vals"
  shows "process_video_encode_hint E start s = start_encode E hid vals s"
    and "process_video_encode_hint E stop s = stop_encode E hid s"
proof -
  obtain g where g: "first_governor (sysfs E) = Some g" "encode_values E g = Some vals"
    using assms by (auto simp: encode_ready_def)
  then have "g = INTERACTIVE_GOVERNOR \<or> g = SCHEDUTIL_GOVERNOR" by (auto simp: encode_values_def split: if_splits)
  with assms g show "process_video_encode_hint E start s = start_encode E hid vals s"
    and "process_video_encode_hint E stop s = stop_encode E hid s"
    by (auto simp: process_video_encode_hint_def encode_ready_def case_prod_beta Let_def)
qed

fun run_encode :: "power_env \<Rightarrow> int list \<Rightarrow> power \<Rightarrow> power option" where
  "run_encode E [] s = Some s"
| "run_encode E (m # ms) s = (case process_video_encode_hint E m s of None \<Rightarrow> None | Some t \<Rightarrow> run_encode E ms t)"

lemma run_encode_append:
  "run_encode E (ms @ ks) s = (case run_encode E ms s of None \<Rightarrow> None | Some t \<Rightarrow> run_encode E ks t)"
  by (induction ms arbitrary: s) (auto split: option.splits)

lemma more_starts:
  assumes "encode_ready E start stop hid vals" and "camera_hint_ref_count s \<ge> 1"
  shows "run_encode E (replicate n start) s = Some (s\<lparr>camera_hint_ref_count := camera_hint_ref_count s + int n\<rparr>)"
  using assms(2)
proof (induction n arbitrary: s)
  case (Suc n)
  have "start_encode E hid vals s = Some (s\<lparr>camera_hint_ref_count := camera_hint_ref_count s + 1\<rparr>)"
    using Suc.prems by (simp add: start_encode_def Let_def)
  then show ?case
    using Suc.IH [of "s\<lparr>camera_hint_ref_count := camera_hint_ref_count s + 1\<rparr>"] Suc.prems
    by (simp add: encode_ready_steps [OF assms(1)] algebra_simps)
qed simp

lemma more_stops:
  assumes "encode_ready E start stop hid vals" and "camera_hint_ref_count s > int n"
  shows "run_encode E (replicate n stop) s = Some (s\<lparr>camera_hint_ref_count := camera_hint_ref_count s - int n\<rparr>)"
  using assms(2)
proof (induction n arbitrary: s)
  case (Suc n)
  have "stop_encode E hid s = Some (s\<lparr>camera_hint_ref_count := camera_hint_ref_count s - 1\<rparr>)"
    using Suc.prems by (simp add: stop_encode_def Let_def)
  then show ?case
    using Suc.IH [of "s\<lparr>camera_hint_ref_count := camera_hint_ref_count s - 1\<rparr>"] Suc.prems
    by (simp add: encode_ready_steps [OF assms(1)] algebra_simps)
qed simp

text \<open>C34: called as declared, the override boosts once for any number of encoders that run at the same time, and when
  the last of them has ended the lock is released and the state is idle again.\<close>

theorem encoders_share_one_boost:
  assumes "encode_ready E start stop hid vals" and "perf_available E"
    and "camera_hint_ref_count s = 0" and "\<not> video_encode_hint_sent s" and "hint_list (with_compare (hint_heap s)) ns"
    and "malloc_node E (with_compare (hint_heap s)) \<noteq> None"
  shows "\<exists>t. run_encode E (replicate (Suc n) start @ replicate (Suc n) stop) s = Some t
    \<and> perf_trace t = perf_trace s @ [Perf_Lock_Acq 0 0 vals,
         Perf_Lock_Rel (perf_answer E (perf_trace s) (Perf_Lock_Acq 0 0 vals))]
    \<and> camera_hint_ref_count t = 0 \<and> \<not> video_encode_hint_sent t \<and> hint_list (hint_heap t) ns"
proof -
  let ?lock = "perf_answer E (perf_trace s) (Perf_Lock_Acq 0 0 vals)"
  let ?d = "\<lparr>hd_hint_id = hid, perflock_handle = ?lock\<rparr>"
  let ?s1 = "s\<lparr>camera_hint_ref_count := 1\<rparr>"
  obtain a h where p: "perform_hint_action E hid vals ?s1 =
        Some (?s1\<lparr>perf_trace := perf_trace s @ [Perf_Lock_Acq 0 0 vals], hint_heap := h\<rparr>)"
    and l: "hint_list h ((a, Some ?d) # ns)"
    using perform_hint_action_ok [OF assms(2), of ?s1 ns hid vals] assms(5,6) by auto
  let ?t = "?s1\<lparr>perf_trace := perf_trace s @ [Perf_Lock_Acq 0 0 vals], hint_heap := h, video_encode_hint_sent := True\<rparr>"
  have starts: "run_encode E (replicate (Suc n) start) s = Some (?t\<lparr>camera_hint_ref_count := 1 + int n\<rparr>)"
    using assms(3,4) p more_starts [OF assms(1), of ?t n]
    by (simp add: encode_ready_steps [OF assms(1)] start_encode_def Let_def)
  have stops: "run_encode E (replicate n stop) (?t\<lparr>camera_hint_ref_count := 1 + int n\<rparr>) = Some ?t"
    using more_stops [OF assms(1), of n "?t\<lparr>camera_hint_ref_count := 1 + int n\<rparr>"] by simp
  have "a \<notin> fst ` set ns" using list_rep_distinct [OF l] by simp
  then have f: "filter (\<lambda>x. fst x \<noteq> a) ((a, Some ?d) # ns) = ns" by (auto simp: filter_id_conv image_iff)
  have fd: "find (same_hint hid) ((a, Some ?d) # ns) = Some (a, Some ?d)" by (simp add: same_hint_def)
  note undo = undo_hint_action_ok [OF assms(2) _ fd, of "?t\<lparr>camera_hint_ref_count := 0\<rparr>", unfolded f]
  obtain h' es where u: "undo_hint_action E hid (?t\<lparr>camera_hint_ref_count := 0\<rparr>) =
      Some (?t\<lparr>camera_hint_ref_count := 0, perf_trace := perf_trace s @ [Perf_Lock_Acq 0 0 vals, Perf_Lock_Rel ?lock],
        hint_heap := h', errors := es\<rparr>)" "hint_list h' ns"
    using undo l by auto
  have r: "replicate (Suc n) stop = replicate n stop @ [stop]" by (simp add: replicate_append_same)
  show ?thesis
    unfolding r run_encode_append starts option.case stops
    using u by (simp add: encode_ready_steps [OF assms(1)] stop_encode_def Let_def)
qed

lemma board_encode: "encode_ready board 64 128 0xA00 [0x41430000, 0x1, 0x41434000, 0x1, 0x41424000, 0x28]"
proof -
  have "first_governor (sysfs board) = Some INTERACTIVE_GOVERNOR" by code_simp
  moreover have "encode_values board INTERACTIVE_GOVERNOR = Some [0x41430000, 0x1, 0x41434000, 0x1, 0x41424000, 0x28]"
    by (simp add: encode_values_def SCHEDUTIL_GOVERNOR_def INTERACTIVE_GOVERNOR_def)
  moreover have "atoi ''1'' = 1" "atoi ''0'' = 0" by code_simp+
  ultimately show ?thesis
    using parse_loop_show [of "[(''state'', ''1'')]"] parse_loop_show [of "[(''state'', ''0'')]"]
    by (simp add: encode_ready_def board_def parse_video_encode_metadata_def plain_attribute_def show_attribute_def
        apply_attribute_def DEFAULT_VIDEO_ENCODE_HINT_ID_def)
qed

theorem encoders_share_one_boost_witness:
  "\<exists>t. run_encode board [64, 64, 128, 128] zero_power = Some t
    \<and> perf_trace t = [Perf_Lock_Acq 0 0 [0x41430000, 0x1, 0x41434000, 0x1, 0x41424000, 0x28], Perf_Lock_Rel 1]"
  using encoders_share_one_boost [OF board_encode board_available _ _ zero_power_list, of 1] zero_power_malloc
  by (auto simp: zero_power_def board_def)

text \<open>An encoder that ends without having been counted leaves the count at -1, and the next one that starts
  gets no boost: nothing is requested, although nothing was active.\<close>

theorem unmatched_stop_loses_boost:
  assumes "encode_ready E start stop hid vals" and "camera_hint_ref_count s = 0"
  shows "run_encode E [stop, start] s = Some s"
proof -
  have "stop_encode E hid s = Some (s\<lparr>camera_hint_ref_count := - 1\<rparr>)"
    using assms(2) by (simp add: stop_encode_def Let_def)
  moreover have "start_encode E hid vals (s\<lparr>camera_hint_ref_count := - 1\<rparr>) = Some s"
    using assms(2) by (simp add: start_encode_def Let_def)
  ultimately show ?thesis by (simp add: encode_ready_steps [OF assms(1)])
qed

theorem unmatched_stop_loses_boost_witness:
  "run_encode board [128, 64] zero_power = Some zero_power"
  using unmatched_stop_loses_boost [OF board_encode, of zero_power] by (simp add: zero_power_def)

section \<open>The display\<close>

text \<open>The display node is told of every change but the first: the call that opens the node, normally the first
  time the display goes off, writes nothing, and each later one writes its state.\<close>

theorem first_display_state_lost:
  assumes "\<And>i. display_open_ok E i" and "\<not> init_interactive_hint s"
  shows "display_writes (fold (write_display E) ons s) = display_writes s @ map (\<lambda>on. if on = 0 then ''0'' else ''1'') (tl ons)"
proof (cases ons)
  case (Cons on rest)
  have later: "display_writes (fold (write_display E) rest t) = display_writes t @ map (\<lambda>on. if on = 0 then ''0'' else ''1'') rest"
    if "init_interactive_hint t" for t
    using that by (induction rest arbitrary: t) (auto simp: write_display_def)
  have "write_display E on s = s\<lparr>init_interactive_hint := True\<rparr>" using assms by (simp add: write_display_def)
  with later [of "s\<lparr>init_interactive_hint := True\<rparr>"] Cons show ?thesis by simp
qed simp

theorem first_display_state_lost_witness:
  "display_writes (fold (write_display board) [0, 1, 0] zero_power) = [''1'', ''0'']"
  using first_display_state_lost [of board zero_power "[0, 1, 0]"] by (simp add: board_def zero_power_def)

end
