(* ===== verification/Power_Xml.thy ===== *)
theory Power_Xml
  imports C_Text
begin

text \<open>
  The table of hints of the power HAL (\<open>power/powerhintparser.c\<close>). The tree that libxml2 makes of the
  file is the input: an element has a name, attributes and children; everything else (text, comments) has a name that
  is no element's of interest. An attribute whose value libxml2 fails to return is \<open>None\<close>. The static table
  and its counter are the state; \<open>None\<close> as the value of the parser is a write outside the table.
\<close>

section \<open>Documents and numbers\<close>

datatype xml_node = Element string "(string \<times> string option) list" "xml_node list" | Other_Node string

fun xml_name :: "xml_node \<Rightarrow> string" where
  "xml_name (Element n _ _) = n"
| "xml_name (Other_Node n) = n"

fun xml_attrs :: "xml_node \<Rightarrow> (string \<times> string option) list" where
  "xml_attrs (Element _ as _) = as"
| "xml_attrs (Other_Node _) = []"

fun xml_children :: "xml_node \<Rightarrow> xml_node list" where
  "xml_children (Element _ _ ns) = ns"
| "xml_children (Other_Node _) = []"

fun is_element :: "xml_node \<Rightarrow> bool" where
  "is_element (Element _ _ _) = True"
| "is_element (Other_Node _) = False"

datatype hint_file = No_File | Unparsable | Empty_Document | Document xml_node

definition hexit :: "char \<Rightarrow> nat option" where
  "hexit c =
     (let k = of_char c
      in if 48 \<le> k \<and> k \<le> 57 then Some (k - 48)
         else if 97 \<le> k \<and> k \<le> 102 then Some (k - 87)
         else if 65 \<le> k \<and> k \<le> 70 then Some (k - 55) else None)"

fun hex_digits :: "int \<Rightarrow> string \<Rightarrow> int" where
  "hex_digits acc [] = acc"
| "hex_digits acc (c # cs) = (case hexit c of None \<Rightarrow> acc | Some d \<Rightarrow> hex_digits (16 * acc + int d) cs)"

text \<open>\<open>strtol\<close> with base 16: blanks, a sign, an optional \<open>0x\<close> before a digit, digits; a value out of range
  becomes the nearest \<open>long\<close>.\<close>

definition hex_unsigned :: "string \<Rightarrow> int" where
  "hex_unsigned s =
     (case s of
        z # x # d # ds \<Rightarrow>
          if z = CHR ''0'' \<and> (x = CHR ''x'' \<or> x = CHR ''X'') \<and> hexit d \<noteq> None then hex_digits 0 (d # ds)
          else hex_digits 0 s
      | _ \<Rightarrow> hex_digits 0 s)"

definition strtol16 :: "int \<Rightarrow> string \<Rightarrow> int" where
  "strtol16 LONG_MAX s =
     (let t = dropWhile is_space s;
          v = (case t of
                 [] \<Rightarrow> 0
               | c # cs \<Rightarrow> if c = CHR ''-'' then - hex_unsigned cs
                            else if c = CHR ''+'' then hex_unsigned cs else hex_unsigned t)
      in max (- LONG_MAX - 1) (min LONG_MAX v))"

definition long_to_int :: "int \<Rightarrow> int" where
  "long_to_int v = sint (word_of_int v :: 32 word)"

section \<open>The table\<close>

definition MAX_HINT :: nat where "MAX_HINT = 6"
definition MAX_PARAM :: nat where "MAX_PARAM = 30"

record perflock_param =
  pp_type :: int
  pp_numParams :: nat
  paramList :: "int list"

record hint_table =
  powerhint :: "perflock_param list"
  hintCount :: nat

definition zero_table :: hint_table where
  "zero_table = \<lparr>powerhint = replicate MAX_HINT \<lparr>pp_type = 0, pp_numParams = 0, paramList = replicate MAX_PARAM 0\<rparr>,
     hintCount = 0\<rparr>"

text \<open>\<open>powerhint[hintCount].paramList[i] = v\<close>, and the two assignments that complete a row.\<close>

definition set_row :: "perflock_param \<Rightarrow> hint_table \<Rightarrow> hint_table" where
  "set_row row T = T\<lparr>powerhint := (powerhint T)[hintCount T := row]\<rparr>"

definition put_param :: "nat \<Rightarrow> int \<Rightarrow> hint_table \<Rightarrow> hint_table option" where
  "put_param i v T =
     (if hintCount T < length (powerhint T) \<and> i < length (paramList (powerhint T ! hintCount T))
      then Some (set_row ((powerhint T ! hintCount T)\<lparr>paramList := (paramList (powerhint T ! hintCount T))[i := v]\<rparr>) T)
      else None)"

definition close_row :: "int \<Rightarrow> nat \<Rightarrow> hint_table \<Rightarrow> hint_table option" where
  "close_row ty n T =
     (if hintCount T < length (powerhint T)
      then Some (set_row ((powerhint T ! hintCount T)\<lparr>pp_type := ty, pp_numParams := n\<rparr>) T)
      else None)"

section \<open>The parser\<close>

text \<open>An attribute sets a variable, if it is present; \<open>None\<close> when its value cannot be had.\<close>

definition read_attr :: "int \<Rightarrow> string \<Rightarrow> xml_node \<Rightarrow> int \<Rightarrow> int option" where
  "read_attr LONG_MAX name n old =
     (case map_of (xml_attrs n) name of
        None \<Rightarrow> Some old
      | Some None \<Rightarrow> None
      | Some (Some str) \<Rightarrow> Some (long_to_int (strtol16 LONG_MAX str)))"

text \<open>The loop over the children of a hint, with \<open>numParams\<close>; \<open>False\<close> is the return of -1. The variables
  \<open>opcode\<close> and \<open>value\<close> are 0 whenever a child is looked at.\<close>

fun parse_resources :: "int \<Rightarrow> xml_node list \<Rightarrow> nat \<Rightarrow> hint_table \<Rightarrow> (bool \<times> nat \<times> hint_table) option" where
  "parse_resources L [] k T = Some (True, k, T)"
| "parse_resources L (n # ns) k T =
     (if xml_name n \<noteq> ''Resource'' then parse_resources L ns k T
      else case read_attr L ''opcode'' n 0 of
        None \<Rightarrow> Some (False, k, T)
      | Some opcode \<Rightarrow>
          (case read_attr L ''value'' n 0 of
             None \<Rightarrow> Some (False, k, T)
           | Some v \<Rightarrow>
               if opcode > 0 then
                 (if k < MAX_PARAM - 1 then
                    (case put_param k opcode T of
                       None \<Rightarrow> None
                     | Some T1 \<Rightarrow>
                         (case put_param (k + 1) v T1 of
                            None \<Rightarrow> None
                          | Some T2 \<Rightarrow> parse_resources L ns (k + 2) T2))
                  else Some (True, k, T))
               else parse_resources L ns k T))"

text \<open>The loop over the children of the root; \<open>ty\<close> is the variable \<open>type\<close>. Every element takes a row of the
  table, whatever its name.\<close>

fun parse_hints :: "int \<Rightarrow> xml_node list \<Rightarrow> int \<Rightarrow> hint_table \<Rightarrow> (bool \<times> hint_table) option" where
  "parse_hints L [] ty T = Some (True, T)"
| "parse_hints L (n # ns) ty T =
     (if \<not> is_element n then parse_hints L ns ty T
      else if hintCount T = MAX_HINT then Some (True, T)
      else if xml_name n = ''Hint'' then
        (case read_attr L ''type'' n ty of
           None \<Rightarrow> Some (False, T)
         | Some ty' \<Rightarrow>
             (case parse_resources L (xml_children n) 0 T of
                None \<Rightarrow> None
              | Some (ok, k, T1) \<Rightarrow>
                  if \<not> ok then Some (False, T1)
                  else case close_row ty' k T1 of
                    None \<Rightarrow> None
                  | Some T2 \<Rightarrow> parse_hints L ns ty' (T2\<lparr>hintCount := hintCount T2 + 1\<rparr>)))
      else parse_hints L ns ty (T\<lparr>hintCount := hintCount T + 1\<rparr>))"

definition parsePowerhintXML :: "int \<Rightarrow> hint_file \<Rightarrow> hint_table \<Rightarrow> (int \<times> hint_table) option" where
  "parsePowerhintXML L f T =
     (case f of
        Document root \<Rightarrow>
          if xml_name root \<noteq> ''Powerhint'' then Some (- 1, T)
          else map_option (\<lambda>(ok, T1). (if ok then 0 else - 1, T1)) (parse_hints L (xml_children root) 0 T)
      | _ \<Rightarrow> Some (- 1, T))"

text \<open>The number of parameters and their list for a hint.\<close>

definition getPowerhint :: "int \<Rightarrow> hint_file \<Rightarrow> int \<Rightarrow> hint_table \<Rightarrow> ((nat \<times> int list) option \<times> hint_table) option" where
  "getPowerhint L f hid T =
     (if hid = 0 then Some (None, T)
      else
        (let r = (if pp_numParams (powerhint T ! 0) = 0 then map_option snd (parsePowerhintXML L f T) else Some T)
         in map_option (\<lambda>T1.
              (map_option (\<lambda>row. (pp_numParams row, paramList row)) (find (\<lambda>row. pp_type row = hid) (powerhint T1)), T1)) r))"

section \<open>The parser stays inside the table\<close>

definition table_ok :: "hint_table \<Rightarrow> bool" where
  "table_ok T \<longleftrightarrow> length (powerhint T) = MAX_HINT \<and> hintCount T \<le> MAX_HINT
     \<and> (\<forall>row \<in> set (powerhint T). length (paramList row) = MAX_PARAM \<and> pp_numParams row \<le> MAX_PARAM)"

lemma table_ok_row:
  assumes "table_ok T" and "length (paramList row) = MAX_PARAM" and "pp_numParams row \<le> MAX_PARAM"
  shows "table_ok (set_row row T)" and "hintCount (set_row row T) = hintCount T"
  using assms set_update_subset_insert [of "powerhint T" "hintCount T" row] by (auto simp: table_ok_def set_row_def)

lemma table_ok_nth:
  "table_ok T \<Longrightarrow> hintCount T < MAX_HINT \<Longrightarrow>
     length (paramList (powerhint T ! hintCount T)) = MAX_PARAM \<and> pp_numParams (powerhint T ! hintCount T) \<le> MAX_PARAM"
  by (simp add: table_ok_def)

lemma put_param_ok:
  assumes "table_ok T" and "hintCount T < MAX_HINT" and "i < MAX_PARAM"
  shows "\<exists>T'. put_param i v T = Some T' \<and> table_ok T' \<and> hintCount T' = hintCount T"
proof -
  let ?row = "(powerhint T ! hintCount T)\<lparr>paramList := (paramList (powerhint T ! hintCount T))[i := v]\<rparr>"
  have "put_param i v T = Some (set_row ?row T)"
    using table_ok_nth [OF assms(1,2)] assms by (simp add: put_param_def table_ok_def)
  then show ?thesis using table_ok_row [OF assms(1), of ?row] table_ok_nth [OF assms(1,2)] by simp
qed

lemma close_row_ok:
  assumes "table_ok T" and "hintCount T < MAX_HINT" and "k \<le> MAX_PARAM"
  shows "\<exists>T'. close_row ty k T = Some T' \<and> table_ok T' \<and> hintCount T' = hintCount T"
proof -
  let ?row = "(powerhint T ! hintCount T)\<lparr>pp_type := ty, pp_numParams := k\<rparr>"
  have "close_row ty k T = Some (set_row ?row T)" using assms by (simp add: close_row_def table_ok_def)
  then show ?thesis using table_ok_row [OF assms(1), of ?row] table_ok_nth [OF assms(1,2)] assms(3) by simp
qed

lemma parse_resources_cases:
  obtains (skip) "parse_resources L (n # ns) k T = parse_resources L ns k T"
  | (stop) ok where "parse_resources L (n # ns) k T = Some (ok, k, T)"
  | (put) opcode v where "k < MAX_PARAM - 1" "parse_resources L (n # ns) k T =
      (case put_param k opcode T of None \<Rightarrow> None | Some T1 \<Rightarrow>
         (case put_param (k + 1) v T1 of None \<Rightarrow> None | Some T2 \<Rightarrow> parse_resources L ns (k + 2) T2))"
proof (cases "read_attr L ''opcode'' n 0")
  case None
  then show ?thesis using skip stop by (cases "xml_name n = ''Resource''") auto
next
  case op: (Some opcode)
  show ?thesis
  proof (cases "read_attr L ''value'' n 0")
    case None
    then show ?thesis using op skip stop by (cases "xml_name n = ''Resource''") auto
  next
    case (Some v)
    show ?thesis
    proof (cases "xml_name n = ''Resource'' \<and> opcode > 0")
      case True
      then show ?thesis using op Some stop put by (cases "k < MAX_PARAM - 1") auto
    qed (use op Some skip in auto)
  qed
qed

lemma parse_resources_ok:
  assumes "table_ok T" and "hintCount T < MAX_HINT" and "even k" and "k \<le> MAX_PARAM"
  shows "\<exists>ok k' T'. parse_resources L ns k T = Some (ok, k', T') \<and> table_ok T' \<and> hintCount T' = hintCount T
    \<and> k' \<le> MAX_PARAM"
  using assms
proof (induction ns arbitrary: k T)
  case (Cons n ns)
  show ?case
  proof (cases rule: parse_resources_cases [of L n ns k T])
    case skip
    with Cons show ?thesis by metis
  next
    case stop
    with Cons.prems show ?thesis by simp
  next
    case (put opcode v)
    with Cons.prems(3) have k: "k + 2 \<le> MAX_PARAM" unfolding MAX_PARAM_def by presburger
    obtain T1 where T1: "put_param k opcode T = Some T1" "table_ok T1" "hintCount T1 = hintCount T"
      using put_param_ok [OF Cons.prems(1,2), of k opcode] k by auto
    obtain T2 where T2: "put_param (k + 1) v T1 = Some T2" "table_ok T2" "hintCount T2 = hintCount T"
      using put_param_ok [OF T1(2), of "k + 1" v] T1(3) Cons.prems(2) k by auto
    show ?thesis
      using Cons.IH [of T2 "k + 2"] Cons.prems(2,3) k T1(1) T2 unfolding put(2) by simp
  qed
qed auto

lemma parse_hints_cases:
  obtains (skip) "parse_hints L (n # ns) ty T = parse_hints L ns ty T"
  | (stop) ok where "parse_hints L (n # ns) ty T = Some (ok, T)"
  | (hint) ty' where "hintCount T \<noteq> MAX_HINT" "parse_hints L (n # ns) ty T =
      (case parse_resources L (xml_children n) 0 T of None \<Rightarrow> None
       | Some (ok, k, T1) \<Rightarrow> if \<not> ok then Some (False, T1)
           else case close_row ty' k T1 of None \<Rightarrow> None
           | Some T2 \<Rightarrow> parse_hints L ns ty' (T2\<lparr>hintCount := hintCount T2 + 1\<rparr>))"
  | (other) "hintCount T \<noteq> MAX_HINT" "parse_hints L (n # ns) ty T = parse_hints L ns ty (T\<lparr>hintCount := hintCount T + 1\<rparr>)"
proof (cases "is_element n \<and> hintCount T \<noteq> MAX_HINT")
  case True
  then show ?thesis using other stop hint
    by (cases "xml_name n = ''Hint''"; cases "read_attr L ''type'' n ty") auto
next
  case False
  show ?thesis
  proof (cases "is_element n")
    case True
    with False show ?thesis by (intro stop [of True]) simp
  qed (use skip in simp)
qed

lemma parse_hints_ok:
  "table_ok T \<Longrightarrow> \<exists>ok T'. parse_hints L ns ty T = Some (ok, T') \<and> table_ok T'"
proof (induction ns arbitrary: ty T)
  case (Cons n ns)
  have next_ok: "table_ok (T'\<lparr>hintCount := hintCount T' + 1\<rparr>)" if "table_ok T'" "hintCount T' \<noteq> MAX_HINT" for T'
    using that by (auto simp: table_ok_def)
  show ?case
  proof (cases rule: parse_hints_cases [of L n ns ty T])
    case (hint ty')
    then have hc: "hintCount T < MAX_HINT" using Cons.prems by (auto simp: table_ok_def)
    obtain ok k T1 where r: "parse_resources L (xml_children n) 0 T = Some (ok, k, T1)" "table_ok T1"
      "hintCount T1 = hintCount T" "k \<le> MAX_PARAM"
      using parse_resources_ok [OF Cons.prems hc, of 0 L "xml_children n"] by auto
    obtain T2 where "close_row ty' k T1 = Some T2" "table_ok T2" "hintCount T2 = hintCount T"
      using close_row_ok [OF r(2), of k ty'] hc r(3,4) by auto
    with Cons.IH [OF next_ok, of T2 ty'] hint(1) r(1,2) show ?thesis
      unfolding hint(2) by (cases ok) auto
  qed (use Cons next_ok in auto)
qed auto

lemma parsePowerhintXML_ok:
  assumes "table_ok T"
  shows "\<exists>r T'. parsePowerhintXML L f T = Some (r, T') \<and> table_ok T'"
proof (cases f)
  case (Document root)
  obtain ok T' where "parse_hints L (xml_children root) 0 T = Some (ok, T')" "table_ok T'"
    using parse_hints_ok [OF assms] by blast
  with Document assms show ?thesis by (cases "xml_name root = ''Powerhint''") (simp_all add: parsePowerhintXML_def)
qed (use assms in \<open>simp_all add: parsePowerhintXML_def\<close>)

section \<open>What well-formed documents give\<close>

definition pairs :: "(int \<times> int) list \<Rightarrow> int list" where
  "pairs rs = concat (map (\<lambda>(opcode, v). [opcode, v]) rs)"

lemma pairs_simps [simp]: "pairs [] = []" "pairs ((a, b) # rs) = a # b # pairs rs" "length (pairs rs) = 2 * length rs"
  by (simp_all add: pairs_def) (induction rs, auto)

definition describes_resource :: "int \<Rightarrow> xml_node \<Rightarrow> int \<times> int \<Rightarrow> bool" where
  "describes_resource L n r \<longleftrightarrow>
     read_attr L ''opcode'' n 0 = Some (fst r) \<and> read_attr L ''value'' n 0 = Some (snd r) \<and> fst r > 0"

definition describes_hint :: "int \<Rightarrow> xml_node \<Rightarrow> int \<times> (int \<times> int) list \<Rightarrow> bool" where
  "describes_hint L n h \<longleftrightarrow> xml_name n = ''Hint'' \<and> map_of (xml_attrs n) ''type'' \<noteq> None \<and> read_attr L ''type'' n 0 = Some (fst h)
     \<and> length (snd h) \<le> 15
     \<and> list_all2 (describes_resource L) (filter (\<lambda>m. xml_name m = ''Resource'') (xml_children n)) (snd h)"

definition zero_row :: perflock_param where
  "zero_row = \<lparr>pp_type = 0, pp_numParams = 0, paramList = replicate MAX_PARAM 0\<rparr>"

definition filled_row :: "int \<times> (int \<times> int) list \<Rightarrow> perflock_param" where
  "filled_row h = \<lparr>pp_type = fst h, pp_numParams = 2 * length (snd h),
     paramList = pairs (snd h) @ replicate (MAX_PARAM - 2 * length (snd h)) 0\<rparr>"

lemma two_updates:
  "k + 1 < length xs \<Longrightarrow> xs[k := a, Suc k := b] = take k xs @ a # b # drop (k + 2) xs"
proof -
  assume k: "k + 1 < length xs"
  have "xs[k := a] = take k xs @ a # drop (Suc k) xs" using k by (simp add: upd_conv_take_nth_drop)
  moreover have "drop (Suc k) xs = (xs ! Suc k) # drop (k + 2) xs" using k by (simp add: Cons_nth_drop_Suc)
  ultimately show ?thesis using k by (simp add: list_update_append)
qed

lemma parse_resources_eq:
  assumes "list_all2 (describes_resource L) (filter (\<lambda>m. xml_name m = ''Resource'') ns) rs"
    and "hintCount T < length (powerhint T)" and "powerhint T ! hintCount T = row"
    and "length (paramList row) = MAX_PARAM" and "k + 2 * length rs \<le> MAX_PARAM"
  shows "parse_resources L ns k T = Some (True, k + 2 * length rs,
      set_row (row\<lparr>paramList := take k (paramList row) @ pairs rs @ drop (k + 2 * length rs) (paramList row)\<rparr>) T)"
  using assms
proof (induction ns arbitrary: rs T row k)
  case Nil
  then show ?case by (auto simp: set_row_def)
next
  case (Cons n ns)
  show ?case
  proof (cases "xml_name n = ''Resource''")
    case False
    with Cons show ?thesis by simp
  next
    case True
    with Cons.prems(1) obtain opcode v rs' where rs: "rs = (opcode, v) # rs'"
      and r: "read_attr L ''opcode'' n 0 = Some opcode" "read_attr L ''value'' n 0 = Some v" "opcode > 0"
      and rest: "list_all2 (describes_resource L) (filter (\<lambda>m. xml_name m = ''Resource'') ns) rs'"
      by (auto simp: list_all2_Cons1 describes_resource_def [of L n])
    let ?row = "row\<lparr>paramList := take k (paramList row) @ opcode # v # drop (k + 2) (paramList row)\<rparr>"
    have k: "k + 1 < MAX_PARAM" using Cons.prems(5) rs by simp
    have put: "put_param k opcode T = Some (set_row (row\<lparr>paramList := (paramList row)[k := opcode]\<rparr>) T)"
      "put_param (Suc k) v (set_row (row\<lparr>paramList := (paramList row)[k := opcode]\<rparr>) T) = Some (set_row ?row T)"
      using Cons.prems(2-4) k two_updates [of k "paramList row" opcode v] by (simp_all add: put_param_def set_row_def)
    have "parse_resources L ns (k + 2) (set_row ?row T) = Some (True, k + 2 + 2 * length rs',
        set_row (?row\<lparr>paramList := take (k + 2) (paramList ?row) @ pairs rs' @ drop (k + 2 + 2 * length rs') (paramList ?row)\<rparr>)
          (set_row ?row T))"
      by (rule Cons.IH [OF rest]) (use Cons.prems(2-5) rs k in \<open>auto simp: set_row_def\<close>)
    moreover have "take (k + 2) (paramList ?row) = take k (paramList row) @ [opcode, v]"
      "drop (k + 2 + 2 * length rs') (paramList ?row) = drop (k + 2 + 2 * length rs') (paramList row)"
      using Cons.prems(4) k by (simp_all add: min_def add.commute)
    ultimately show ?thesis
      using True r put k by (simp add: rs set_row_def)
  qed
qed

lemma parse_hints_eq:
  assumes "list_all2 (describes_hint L) (filter is_element ns) hs"
    and "powerhint T = prev @ replicate m zero_row" and "hintCount T = length prev"
    and "length hs \<le> m" and "length (powerhint T) = MAX_HINT"
  shows "\<exists>T'. parse_hints L ns ty T = Some (True, T') \<and> powerhint T' = prev @ map filled_row hs @ replicate (m - length hs) zero_row"
  using assms
proof (induction ns arbitrary: hs T prev m ty)
  case Nil
  then show ?case by auto
next
  case (Cons n ns)
  show ?case
  proof (cases "is_element n")
    case False
    with Cons show ?thesis by simp
  next
    case True
    with Cons.prems(1) obtain t rs hs' where hs: "hs = (t, rs) # hs'" and h: "describes_hint L n (t, rs)"
      and rest: "list_all2 (describes_hint L) (filter is_element ns) hs'"
      by (auto simp: list_all2_Cons1)
    obtain m' where m: "m = Suc m'" using Cons.prems(4) hs by (cases m) auto
    have lt: "hintCount T < length (powerhint T)" using Cons.prems(2,3) m by simp
    have row: "powerhint T ! hintCount T = zero_row" using Cons.prems(2,3) m by (simp add: nth_append)
    have rs: "length rs \<le> 15" "xml_name n = ''Hint''" "read_attr L ''type'' n ty = Some t"
      "list_all2 (describes_resource L) (filter (\<lambda>m. xml_name m = ''Resource'') (xml_children n)) rs"
      using h by (auto simp: describes_hint_def read_attr_def)
    let ?row = "zero_row\<lparr>paramList := pairs rs @ replicate (MAX_PARAM - 2 * length rs) 0\<rparr>"
    have pr: "parse_resources L (xml_children n) 0 T = Some (True, 2 * length rs, set_row ?row T)"
      using parse_resources_eq [OF rs(4) lt row, of 0] rs(1) by (simp add: zero_row_def MAX_PARAM_def)
    have cl: "close_row t (2 * length rs) (set_row ?row T) = Some (set_row (filled_row (t, rs)) T)"
      using lt by (simp add: close_row_def set_row_def filled_row_def zero_row_def)
    let ?T = "set_row (filled_row (t, rs)) T\<lparr>hintCount := Suc (hintCount T)\<rparr>"
    have T: "powerhint ?T = (prev @ [filled_row (t, rs)]) @ replicate m' zero_row"
      using Cons.prems(2,3) m by (simp add: set_row_def list_update_append)
    obtain T' where "parse_hints L ns t ?T = Some (True, T')"
      "powerhint T' = (prev @ [filled_row (t, rs)]) @ map filled_row hs' @ replicate (m' - length hs') zero_row"
      using Cons.IH [OF rest T] Cons.prems(3-5) hs m by (auto simp: set_row_def)
    then show ?thesis
      using True rs lt Cons.prems(5) pr cl hs m by (simp add: set_row_def)
  qed
qed

text \<open>The parser never writes outside its table, whatever the document: it returns, and keeps six rows of thirty
  parameters whose counts are within bounds, so that the list \<open>getPowerhint\<close> yields has as many entries as it says.\<close>

theorem powerhint_table_safe:
  assumes "table_ok T"
  shows "(\<exists>r T'. parsePowerhintXML L f T = Some (r, T') \<and> table_ok T')
    \<and> (\<exists>x T'. getPowerhint L f hid T = Some (x, T') \<and> table_ok T'
          \<and> (case x of None \<Rightarrow> True | Some (n, ps) \<Rightarrow> n \<le> length ps))"
proof -
  have rows: "case map_option (\<lambda>row. (pp_numParams row, paramList row)) (find P (powerhint T')) of
      None \<Rightarrow> True | Some (n, ps) \<Rightarrow> n \<le> length ps" if "table_ok T'" for P T'
    using that by (auto simp: table_ok_def find_Some_iff split: option.split)
  obtain r T' where p: "parsePowerhintXML L f T = Some (r, T')" "table_ok T'"
    using parsePowerhintXML_ok [OF assms] by blast
  then show ?thesis
    using assms rows [of T] rows [of T'] by (simp add: getPowerhint_def)
qed

lemma zero_table_ok: "table_ok zero_table"
  by (simp add: table_ok_def zero_table_def)

theorem powerhint_table_safe_witness:
  "\<exists>r T'. parsePowerhintXML 0x7fffffff (Document (Element ''Powerhint'' []
      (replicate 9 (Element ''Hint'' [] (replicate 40 (Element ''Resource'' [(''opcode'', Some ''0x7'')] [])))))) zero_table
    = Some (r, T') \<and> table_ok T'"
  using powerhint_table_safe [OF zero_table_ok] by blast

text \<open>For a document of at most six hints with at most fifteen resources each, every resource with a positive opcode,
  \<open>getPowerhint\<close> yields for each hint the opcodes and values of its first entry in the order of the document,
  and nothing for the types the document does not have.\<close>

theorem getPowerhint_reads_document:
  assumes "list_all2 (describes_hint L) (filter is_element (xml_children root)) hs"
    and "length hs \<le> 6" and "xml_name root = ''Powerhint''" and "hid \<noteq> 0"
  shows "\<exists>T'. getPowerhint L (Document root) hid zero_table =
      Some (map_option (\<lambda>h. (2 * length (snd h), pairs (snd h) @ replicate (30 - 2 * length (snd h)) 0))
        (find (\<lambda>h. fst h = hid) hs), T')"
proof -
  have "powerhint zero_table = [] @ replicate 6 zero_row" "hintCount zero_table = length []"
    by (simp_all add: zero_table_def zero_row_def MAX_HINT_def)
  then obtain T' where T': "parse_hints L (xml_children root) 0 zero_table = Some (True, T')"
    "powerhint T' = map filled_row hs @ replicate (6 - length hs) zero_row"
    using parse_hints_eq [OF assms(1), of zero_table "[]" 6 0] assms(2) by (auto simp: zero_table_def MAX_HINT_def)
  have z: "find (\<lambda>row. pp_type row = hid) (replicate k zero_row) = None" for k
    using assms(4) by (induction k) (simp_all add: zero_row_def)
  have ty: "pp_type (filled_row h) = fst h" for h by (simp add: filled_row_def)
  have "find (\<lambda>row. pp_type row = hid) (map filled_row hs @ replicate k zero_row)
      = map_option filled_row (find (\<lambda>h. fst h = hid) hs)" for k
    by (induction hs) (simp_all add: z ty)
  then have "find (\<lambda>row. pp_type row = hid) (powerhint T') = map_option filled_row (find (\<lambda>h. fst h = hid) hs)"
    unfolding T'(2) .
  moreover have "powerhint zero_table ! 0 = zero_row" by (simp add: zero_table_def zero_row_def MAX_HINT_def)
  ultimately show ?thesis
    using assms(3,4) T'(1)
    by (cases "find (\<lambda>h. fst h = hid) hs")
      (simp_all add: getPowerhint_def parsePowerhintXML_def zero_row_def filled_row_def MAX_PARAM_def)
qed

definition resource :: "string \<Rightarrow> string \<Rightarrow> xml_node" where
  "resource opcode v = Element ''Resource'' [(''opcode'', Some opcode), (''value'', Some v)] []"

text \<open>The file of the board (\<open>configs/powerhint.xml\<close>), with the text and comment nodes between the elements left out but
  for the comment that opens each hint.\<close>

definition board_hints :: "(string \<times> (string \<times> string) list) list" where
  "board_hints =
    [(''0x0E00'', [(''0x41400000'', ''0x4''), (''0x41410000'', ''0x5F''), (''0x41414000'', ''0x22C''), (''0x41420000'', ''0x5A''),
       (''0x41400100'', ''0x4''), (''0x41410100'', ''0x5F''), (''0x41414100'', ''0x22C''), (''0x41420100'', ''0x5A''),
       (''0x41810000'', ''0x9C4''), (''0x41814000'', ''0x32'')]),
     (''0x0A00'', [(''0x41400000'', ''0x4''), (''0x41410000'', ''0x5F''), (''0x41414000'', ''0x326''), (''0x41420000'', ''0x5A''),
       (''0x41400100'', ''0x4''), (''0x41410100'', ''0x5F''), (''0x41414100'', ''0x22C''), (''0x41420100'', ''0x5A''),
       (''0x41810000'', ''0x9C4''), (''0x41814000'', ''0x32''), (''0x4180C000'', ''0x0''), (''0x41820000'', ''0xA''),
       (''0x41438100'', ''0x0''), (''0x41438000'', ''0x0'')]),
     (''0x0B00'', [(''0x41400100'', ''0x4''), (''0x41410100'', ''0x5F''), (''0x41414100'', ''0x2D9''), (''0x41420100'', ''0x5A''),
       (''0x41400000'', ''0x4''), (''0x41410000'', ''0x5F''), (''0x41414000'', ''0x2D9''), (''0x41420000'', ''0x5A'')]),
     (''0x0F00'', [(''0x40800000'', ''0x0''), (''0x40800100'', ''0x0''), (''0x40804000'', ''0x4E0''), (''0x40804100'', ''0x4E0''),
       (''0x4280C000'', ''0xB4''), (''0x42810000'', ''0x156''), (''0x42814000'', ''0x0'')]),
     (''0x1000'', [(''0x40800000'', ''0x579''), (''0x40800100'', ''0x579''), (''0x40804000'', ''0x579''), (''0x40804100'', ''0x579''),
       (''0x4280C000'', ''0x203''), (''0x42810000'', ''0x203''), (''0x42814000'', ''0x1E4F'')]),
     (''0x1001'', [(''0x40800000'', ''0x4E0''), (''0x40800100'', ''0x4E0''), (''0x40804000'', ''0x4E0''), (''0x40804100'', ''0x4E0''),
       (''0x4280C000'', ''0x156''), (''0x42810000'', ''0x156''), (''0x42814000'', ''0x1E4F'')])]"

definition board_document :: xml_node where
  "board_document = Element ''Powerhint'' []
     (map (\<lambda>(ty, rs). Element ''Hint'' [(''type'', Some ty)] (Other_Node ''comment'' # map (\<lambda>(o', v). resource o' v) rs)) board_hints)"

definition number :: "string \<Rightarrow> int" where
  "number s = long_to_int (strtol16 0x7fffffff s)"

lemma board_numbers:
  "number ''0x41400000'' = 0x41400000" "number ''0x41410000'' = 0x41410000" "number ''0x41414000'' = 0x41414000"
  "number ''0x41420000'' = 0x41420000" "number ''0x41400100'' = 0x41400100" "number ''0x41410100'' = 0x41410100"
  "number ''0x41414100'' = 0x41414100" "number ''0x41420100'' = 0x41420100" "number ''0x41810000'' = 0x41810000"
  "number ''0x41814000'' = 0x41814000" "number ''0x4180C000'' = 0x4180C000" "number ''0x41820000'' = 0x41820000"
  "number ''0x41438100'' = 0x41438100" "number ''0x41438000'' = 0x41438000" "number ''0x40800000'' = 0x40800000"
  "number ''0x40800100'' = 0x40800100" "number ''0x40804000'' = 0x40804000" "number ''0x40804100'' = 0x40804100"
  "number ''0x4280C000'' = 0x4280C000" "number ''0x42810000'' = 0x42810000" "number ''0x42814000'' = 0x42814000"
  by (simp_all add: number_def long_to_int_def strtol16_def is_space_def hex_unsigned_def hexit_def)

lemma board_opcodes: "list_all (\<lambda>(ty, rs). length rs \<le> 15 \<and> list_all (\<lambda>(o', v). 0 < number o') rs) board_hints"
  by (simp add: board_hints_def board_numbers)

lemma describes_resources:
  "list_all (\<lambda>(o', v). 0 < number o') rs \<Longrightarrow>
     list_all2 (describes_resource 0x7fffffff) (filter (\<lambda>m. xml_name m = ''Resource'') (map (\<lambda>(o', v). resource o' v) rs))
       (map (\<lambda>(o', v). (number o', number v)) rs)"
  by (induction rs) (auto simp: describes_resource_def resource_def read_attr_def number_def)

lemma read_attr_number: "read_attr 0x7fffffff a (Element n ((a, Some v) # as) ns) old = Some (number v)"
  by (simp add: read_attr_def number_def)

lemma board_described:
  "list_all2 (describes_hint 0x7fffffff) (filter is_element (xml_children board_document))
     (map (\<lambda>(ty, rs). (number ty, map (\<lambda>(o', v). (number o', number v)) rs)) board_hints)"
proof -
  have "list_all2 (describes_hint 0x7fffffff)
      (filter is_element (map (\<lambda>(ty, rs). Element ''Hint'' [(''type'', Some ty)]
         (Other_Node ''comment'' # map (\<lambda>(o', v). resource o' v) rs)) hs))
      (map (\<lambda>(ty, rs). (number ty, map (\<lambda>(o', v). (number o', number v)) rs)) hs)"
    if "list_all (\<lambda>(ty, rs). length rs \<le> 15 \<and> list_all (\<lambda>(o', v). 0 < number o') rs) hs" for hs
    using that by (induction hs) (auto simp: describes_hint_def describes_resources read_attr_number)
  from this [OF board_opcodes] show ?thesis by (simp add: board_document_def)
qed

lemma sustained_entry:
  "find (\<lambda>h. fst h = 0x0F00) (map (\<lambda>(ty, rs). (number ty, map (\<lambda>(o', v). (number o', number v)) rs)) board_hints)
    = Some (0x0F00, [(0x40800000, 0), (0x40800100, 0), (0x40804000, 0x4E0),
      (0x40804100, 0x4E0), (0x4280C000, 0xB4), (0x42810000, 0x156), (0x42814000, 0)])"
proof -
  have "number ''0x0E00'' = 0xE00" "number ''0x0A00'' = 0xA00" "number ''0x0B00'' = 0xB00" "number ''0x0F00'' = 0xF00"
    "number ''0x0'' = 0" "number ''0x4E0'' = 0x4E0" "number ''0xB4'' = 0xB4" "number ''0x156'' = 0x156"
    "number ''0x40800000'' = 0x40800000" "number ''0x40800100'' = 0x40800100" "number ''0x40804000'' = 0x40804000"
    "number ''0x40804100'' = 0x40804100" "number ''0x4280C000'' = 0x4280C000" "number ''0x42810000'' = 0x42810000"
    "number ''0x42814000'' = 0x42814000"
    by code_simp+
  then show ?thesis by (simp add: board_hints_def)
qed

theorem getPowerhint_reads_document_witness:
  "\<exists>T'. getPowerhint 0x7fffffff (Document board_document) 0x0F00 zero_table =
     Some (Some (14, [0x40800000, 0, 0x40800100, 0, 0x40804000, 0x4E0, 0x40804100, 0x4E0, 0x4280C000, 0xB4,
       0x42810000, 0x156, 0x42814000, 0] @ replicate 16 0), T')"
  using getPowerhint_reads_document [OF board_described, of "0x0F00"] sustained_entry
  by (simp add: board_hints_def board_document_def)

end
