(* ===== verification/L4_Types.thy ===== *)
theory L4_Types
  imports Sensors_Types
begin

text \<open>
  The handles, sensor types and the table of sensors of the HAL for the L4 hub
  (\<open>hardware-moto-sensors/motosh_hal/SensorList.cpp\<close>). The kernel's header \<open>linux/motosh.h\<close>, which numbers the handles, is
  not in the repository: a handle is a constructor and its number a parameter of the driver's environment. The build's
  options are constructors too; an entry under an \<open>#ifdef\<close> is in the table when its options are on. The descriptive
  fields of an entry, which no code of the HAL reads, are left out.
\<close>

datatype l4_handle =
    ID_A | ID_G | ID_PR | ID_M | ID_O | ID_T | ID_L | ID_DR | ID_P | ID_FU | ID_FD | ID_S | ID_CA |
  ID_IR_GESTURE | ID_IR_RAW | ID_IR_OBJECT | ID_SIM | ID_STEP_DETECTOR | ID_STEP_COUNTER | ID_UNCALIB_GYRO
  | ID_UNCALIB_MAG | ID_CHOPCHOP_GESTURE | ID_LIFT_GESTURE | ID_QUAT_9AXIS | ID_QUAT_6AXIS | ID_GAME_RV |
  ID_GRAVITY | ID_LA | ID_GLANCE_GESTURE | ID_MOTO_GLANCE_GESTURE | ID_MOTO_MOD_CURRENT_DRAIN |
  ID_SENSOR_SYNC | ID_ULTRASOUND_GESTURE | ID_MOTION_DETECT | ID_STATIONARY_DETECT

definition all_l4_handles :: "l4_handle list" where
  "all_l4_handles =
    [ID_A, ID_G, ID_PR, ID_M, ID_O, ID_T, ID_L, ID_DR, ID_P, ID_FU, ID_FD, ID_S, ID_CA, ID_IR_GESTURE,
     ID_IR_RAW, ID_IR_OBJECT, ID_SIM, ID_STEP_DETECTOR, ID_STEP_COUNTER, ID_UNCALIB_GYRO, ID_UNCALIB_MAG,
     ID_CHOPCHOP_GESTURE, ID_LIFT_GESTURE, ID_QUAT_9AXIS, ID_QUAT_6AXIS, ID_GAME_RV, ID_GRAVITY, ID_LA,
     ID_GLANCE_GESTURE, ID_MOTO_GLANCE_GESTURE, ID_MOTO_MOD_CURRENT_DRAIN, ID_SENSOR_SYNC,
     ID_ULTRASOUND_GESTURE, ID_MOTION_DETECT, ID_STATIONARY_DETECT]"

lemma all_l4_handles_complete: "h \<in> set all_l4_handles"
  by (cases h) (simp_all add: all_l4_handles_def)

lemma distinct_all_l4_handles: "distinct all_l4_handles"
  by (simp add: all_l4_handles_def)

datatype l4_feature = F_LA | F_GR | F_IR | F_RAW_IR | F_PEDO | F_CHOPCHOP | F_LIFT | F_CAMFSYNC | F_ULTRASOUND

datatype l4_type =
    SENSOR_TYPE_META_DATA | SENSOR_TYPE_ACCELEROMETER | SENSOR_TYPE_GYROSCOPE | SENSOR_TYPE_MAGNETIC_FIELD |
  SENSOR_TYPE_ORIENTATION | SENSOR_TYPE_LIGHT | SENSOR_TYPE_DISPLAY_ROTATE | SENSOR_TYPE_PROXIMITY |
  SENSOR_TYPE_FLAT_UP | SENSOR_TYPE_FLAT_DOWN | SENSOR_TYPE_STOWED | SENSOR_TYPE_CAMERA_ACTIVATE |
  SENSOR_TYPE_IR_GESTURE | SENSOR_TYPE_IR_RAW | SENSOR_TYPE_IR_OBJECT | SENSOR_TYPE_SIGNIFICANT_MOTION |
  SENSOR_TYPE_STEP_DETECTOR | SENSOR_TYPE_STEP_COUNTER | SENSOR_TYPE_GYROSCOPE_UNCALIBRATED |
  SENSOR_TYPE_MAGNETIC_FIELD_UNCALIBRATED | SENSOR_TYPE_CHOPCHOP_GESTURE | SENSOR_TYPE_LIFT_GESTURE |
  SENSOR_TYPE_ROTATION_VECTOR | SENSOR_TYPE_GEOMAGNETIC_ROTATION_VECTOR | SENSOR_TYPE_GAME_ROTATION_VECTOR
  | SENSOR_TYPE_GRAVITY | SENSOR_TYPE_LINEAR_ACCELERATION | SENSOR_TYPE_GLANCE_GESTURE |
  SENSOR_TYPE_MOTO_GLANCE_GESTURE | SENSOR_TYPE_MOTO_MOD_CURRENT_DRAIN | SENSOR_TYPE_SENSOR_SYNC |
  SENSOR_TYPE_ULTRASOUND_GESTURE | SENSOR_TYPE_MOTION_DETECT | SENSOR_TYPE_STATIONARY_DETECT |
  SENSOR_TYPE_PRESSURE | SENSOR_TYPE_TEMPERATURE

datatype l4_mode = Continuous | On_Change | One_Shot | Special_Reporting

record l4_sensor =
  handle :: l4_handle
  stype :: l4_type
  minDelay :: int
  maxDelay :: int
  fifoReserved :: int
  fifoMax :: int
  reporting :: l4_mode
  wake_up :: bool

section \<open>Delay limits in microseconds\<close>

definition ACCEL_MIN_DELAY_US :: int where "ACCEL_MIN_DELAY_US = 5000"
definition GYRO_MIN_DELAY_US :: int where "GYRO_MIN_DELAY_US = 5000"
definition MAG_MIN_DELAY_US :: int where "MAG_MIN_DELAY_US = 20000"
definition STEP_MIN_DELAY_US :: int where "STEP_MIN_DELAY_US = 1000000"
definition MOTO_MOD_MIN_DELAY_US :: int where "MOTO_MOD_MIN_DELAY_US = 1000000"
definition ACCEL_MAX_DELAY_US :: int where "ACCEL_MAX_DELAY_US = 200000"
definition GYRO_MAX_DELAY_US :: int where "GYRO_MAX_DELAY_US = 200000"
definition MAG_MAX_DELAY_US :: int where "MAG_MAX_DELAY_US = 200000"
definition STEP_MAX_DELAY_US :: int where "STEP_MAX_DELAY_US = 0"
definition MOTO_MOD_MAX_DELAY_US :: int where "MOTO_MOD_MAX_DELAY_US = 0"

section \<open>The entries\<close>

definition l4_a :: l4_sensor where
  "l4_a = \<lparr>handle = ID_A, stype = SENSOR_TYPE_ACCELEROMETER, minDelay = ACCEL_MIN_DELAY_US, maxDelay = ACCEL_MAX_DELAY_US,
     fifoReserved = 0, fifoMax = 500, reporting = Continuous, wake_up = False\<rparr>"

definition l4_g :: l4_sensor where
  "l4_g = \<lparr>handle = ID_G, stype = SENSOR_TYPE_GYROSCOPE, minDelay = GYRO_MIN_DELAY_US, maxDelay = GYRO_MAX_DELAY_US,
     fifoReserved = 0, fifoMax = 0, reporting = Continuous, wake_up = False\<rparr>"

definition l4_m :: l4_sensor where
  "l4_m = \<lparr>handle = ID_M, stype = SENSOR_TYPE_MAGNETIC_FIELD, minDelay = MAG_MIN_DELAY_US, maxDelay = MAG_MAX_DELAY_US,
     fifoReserved = 0, fifoMax = 0, reporting = Continuous, wake_up = False\<rparr>"

definition l4_o :: l4_sensor where
  "l4_o = \<lparr>handle = ID_O, stype = SENSOR_TYPE_ORIENTATION, minDelay = MAG_MIN_DELAY_US, maxDelay = MAG_MAX_DELAY_US,
     fifoReserved = 0, fifoMax = 0, reporting = Continuous, wake_up = False\<rparr>"

definition l4_l :: l4_sensor where
  "l4_l = \<lparr>handle = ID_L, stype = SENSOR_TYPE_LIGHT, minDelay = 0, maxDelay = 0,
     fifoReserved = 0, fifoMax = 0, reporting = On_Change, wake_up = False\<rparr>"

definition l4_dr :: l4_sensor where
  "l4_dr = \<lparr>handle = ID_DR, stype = SENSOR_TYPE_DISPLAY_ROTATE, minDelay = 0, maxDelay = 0,
     fifoReserved = 0, fifoMax = 0, reporting = On_Change, wake_up = False\<rparr>"

definition l4_p :: l4_sensor where
  "l4_p = \<lparr>handle = ID_P, stype = SENSOR_TYPE_PROXIMITY, minDelay = 0, maxDelay = 0,
     fifoReserved = 0, fifoMax = 0, reporting = On_Change, wake_up = True\<rparr>"

definition l4_fu :: l4_sensor where
  "l4_fu = \<lparr>handle = ID_FU, stype = SENSOR_TYPE_FLAT_UP, minDelay = 0, maxDelay = 0,
     fifoReserved = 0, fifoMax = 0, reporting = On_Change, wake_up = True\<rparr>"

definition l4_fd :: l4_sensor where
  "l4_fd = \<lparr>handle = ID_FD, stype = SENSOR_TYPE_FLAT_DOWN, minDelay = 0, maxDelay = 0,
     fifoReserved = 0, fifoMax = 0, reporting = On_Change, wake_up = True\<rparr>"

definition l4_s :: l4_sensor where
  "l4_s = \<lparr>handle = ID_S, stype = SENSOR_TYPE_STOWED, minDelay = 0, maxDelay = 0,
     fifoReserved = 0, fifoMax = 0, reporting = On_Change, wake_up = True\<rparr>"

definition l4_ca :: l4_sensor where
  "l4_ca = \<lparr>handle = ID_CA, stype = SENSOR_TYPE_CAMERA_ACTIVATE, minDelay = 0, maxDelay = 0,
     fifoReserved = 0, fifoMax = 0, reporting = Special_Reporting, wake_up = True\<rparr>"

definition l4_ir_gesture :: l4_sensor where
  "l4_ir_gesture = \<lparr>handle = ID_IR_GESTURE, stype = SENSOR_TYPE_IR_GESTURE, minDelay = 0, maxDelay = 0,
     fifoReserved = 8, fifoMax = 8, reporting = On_Change, wake_up = True\<rparr>"

definition l4_ir_raw :: l4_sensor where
  "l4_ir_raw = \<lparr>handle = ID_IR_RAW, stype = SENSOR_TYPE_IR_RAW, minDelay = 10000, maxDelay = 200000,
     fifoReserved = 0, fifoMax = 0, reporting = Continuous, wake_up = False\<rparr>"

definition l4_ir_object :: l4_sensor where
  "l4_ir_object = \<lparr>handle = ID_IR_OBJECT, stype = SENSOR_TYPE_IR_OBJECT, minDelay = - 1, maxDelay = 0,
     fifoReserved = 0, fifoMax = 0, reporting = One_Shot, wake_up = False\<rparr>"

definition l4_sim :: l4_sensor where
  "l4_sim = \<lparr>handle = ID_SIM, stype = SENSOR_TYPE_SIGNIFICANT_MOTION, minDelay = - 1, maxDelay = 0,
     fifoReserved = 0, fifoMax = 0, reporting = One_Shot, wake_up = True\<rparr>"

definition l4_step_detector :: l4_sensor where
  "l4_step_detector = \<lparr>handle = ID_STEP_DETECTOR, stype = SENSOR_TYPE_STEP_DETECTOR, minDelay = 0, maxDelay = 0,
     fifoReserved = 0, fifoMax = 0, reporting = Special_Reporting, wake_up = False\<rparr>"

definition l4_step_counter :: l4_sensor where
  "l4_step_counter = \<lparr>handle = ID_STEP_COUNTER, stype = SENSOR_TYPE_STEP_COUNTER, minDelay = STEP_MIN_DELAY_US, maxDelay = STEP_MAX_DELAY_US,
     fifoReserved = 0, fifoMax = 0, reporting = On_Change, wake_up = False\<rparr>"

definition l4_uncalib_gyro :: l4_sensor where
  "l4_uncalib_gyro = \<lparr>handle = ID_UNCALIB_GYRO, stype = SENSOR_TYPE_GYROSCOPE_UNCALIBRATED, minDelay = GYRO_MIN_DELAY_US, maxDelay = GYRO_MAX_DELAY_US,
     fifoReserved = 0, fifoMax = 0, reporting = Continuous, wake_up = False\<rparr>"

definition l4_uncalib_mag :: l4_sensor where
  "l4_uncalib_mag = \<lparr>handle = ID_UNCALIB_MAG, stype = SENSOR_TYPE_MAGNETIC_FIELD_UNCALIBRATED, minDelay = MAG_MIN_DELAY_US, maxDelay = MAG_MAX_DELAY_US,
     fifoReserved = 0, fifoMax = 0, reporting = Continuous, wake_up = False\<rparr>"

definition l4_chopchop_gesture :: l4_sensor where
  "l4_chopchop_gesture = \<lparr>handle = ID_CHOPCHOP_GESTURE, stype = SENSOR_TYPE_CHOPCHOP_GESTURE, minDelay = 0, maxDelay = 0,
     fifoReserved = 0, fifoMax = 0, reporting = Special_Reporting, wake_up = True\<rparr>"

definition l4_lift_gesture :: l4_sensor where
  "l4_lift_gesture = \<lparr>handle = ID_LIFT_GESTURE, stype = SENSOR_TYPE_LIFT_GESTURE, minDelay = 0, maxDelay = 0,
     fifoReserved = 0, fifoMax = 0, reporting = Special_Reporting, wake_up = True\<rparr>"

definition l4_quat_9axis :: l4_sensor where
  "l4_quat_9axis = \<lparr>handle = ID_QUAT_9AXIS, stype = SENSOR_TYPE_ROTATION_VECTOR, minDelay = ACCEL_MIN_DELAY_US, maxDelay = 0,
     fifoReserved = 0, fifoMax = 0, reporting = Continuous, wake_up = False\<rparr>"

definition l4_quat_6axis :: l4_sensor where
  "l4_quat_6axis = \<lparr>handle = ID_QUAT_6AXIS, stype = SENSOR_TYPE_GEOMAGNETIC_ROTATION_VECTOR, minDelay = ACCEL_MIN_DELAY_US, maxDelay = 0,
     fifoReserved = 0, fifoMax = 0, reporting = Continuous, wake_up = False\<rparr>"

definition l4_game_rv :: l4_sensor where
  "l4_game_rv = \<lparr>handle = ID_GAME_RV, stype = SENSOR_TYPE_GAME_ROTATION_VECTOR, minDelay = ACCEL_MIN_DELAY_US, maxDelay = 0,
     fifoReserved = 0, fifoMax = 0, reporting = Continuous, wake_up = False\<rparr>"

definition l4_gravity :: l4_sensor where
  "l4_gravity = \<lparr>handle = ID_GRAVITY, stype = SENSOR_TYPE_GRAVITY, minDelay = 10000, maxDelay = 0,
     fifoReserved = 0, fifoMax = 0, reporting = Continuous, wake_up = False\<rparr>"

definition l4_la :: l4_sensor where
  "l4_la = \<lparr>handle = ID_LA, stype = SENSOR_TYPE_LINEAR_ACCELERATION, minDelay = 10000, maxDelay = 0,
     fifoReserved = 0, fifoMax = 0, reporting = Continuous, wake_up = False\<rparr>"

definition l4_glance_gesture :: l4_sensor where
  "l4_glance_gesture = \<lparr>handle = ID_GLANCE_GESTURE, stype = SENSOR_TYPE_GLANCE_GESTURE, minDelay = - 1, maxDelay = 0,
     fifoReserved = 0, fifoMax = 0, reporting = One_Shot, wake_up = True\<rparr>"

definition l4_moto_glance_gesture :: l4_sensor where
  "l4_moto_glance_gesture = \<lparr>handle = ID_MOTO_GLANCE_GESTURE, stype = SENSOR_TYPE_MOTO_GLANCE_GESTURE, minDelay = - 1, maxDelay = 0,
     fifoReserved = 0, fifoMax = 0, reporting = One_Shot, wake_up = True\<rparr>"

definition l4_moto_mod_current_drain :: l4_sensor where
  "l4_moto_mod_current_drain = \<lparr>handle = ID_MOTO_MOD_CURRENT_DRAIN, stype = SENSOR_TYPE_MOTO_MOD_CURRENT_DRAIN, minDelay = MOTO_MOD_MIN_DELAY_US, maxDelay = MOTO_MOD_MAX_DELAY_US,
     fifoReserved = 0, fifoMax = 0, reporting = On_Change, wake_up = False\<rparr>"

definition l4_sensor_sync :: l4_sensor where
  "l4_sensor_sync = \<lparr>handle = ID_SENSOR_SYNC, stype = SENSOR_TYPE_SENSOR_SYNC, minDelay = 0, maxDelay = 0,
     fifoReserved = 0, fifoMax = 0, reporting = Special_Reporting, wake_up = False\<rparr>"

definition l4_ultrasound_gesture :: l4_sensor where
  "l4_ultrasound_gesture = \<lparr>handle = ID_ULTRASOUND_GESTURE, stype = SENSOR_TYPE_ULTRASOUND_GESTURE, minDelay = 0, maxDelay = 0,
     fifoReserved = 0, fifoMax = 0, reporting = Special_Reporting, wake_up = False\<rparr>"

definition l4_motion_detect :: l4_sensor where
  "l4_motion_detect = \<lparr>handle = ID_MOTION_DETECT, stype = SENSOR_TYPE_MOTION_DETECT, minDelay = - 1, maxDelay = 0,
     fifoReserved = 0, fifoMax = 0, reporting = One_Shot, wake_up = True\<rparr>"

definition l4_stationary_detect :: l4_sensor where
  "l4_stationary_detect = \<lparr>handle = ID_STATIONARY_DETECT, stype = SENSOR_TYPE_STATIONARY_DETECT, minDelay = - 1, maxDelay = 0,
     fifoReserved = 0, fifoMax = 0, reporting = One_Shot, wake_up = True\<rparr>"

text \<open>The entries in the order of the table, each with the options it needs.\<close>

definition hubSensorRows :: "(l4_sensor \<times> l4_feature list) list" where
  "hubSensorRows = [
    (l4_a, []),
    (l4_g, []),
    (l4_m, []),
    (l4_o, []),
    (l4_l, []),
    (l4_dr, []),
    (l4_p, []),
    (l4_fu, []),
    (l4_fd, []),
    (l4_s, []),
    (l4_ca, []),
    (l4_ir_gesture, [F_IR]),
    (l4_ir_raw, [F_IR, F_RAW_IR]),
    (l4_ir_object, [F_IR]),
    (l4_sim, []),
    (l4_step_detector, [F_PEDO]),
    (l4_step_counter, [F_PEDO]),
    (l4_uncalib_gyro, []),
    (l4_uncalib_mag, []),
    (l4_chopchop_gesture, [F_CHOPCHOP]),
    (l4_lift_gesture, [F_LIFT]),
    (l4_quat_9axis, []),
    (l4_quat_6axis, []),
    (l4_game_rv, []),
    (l4_gravity, [F_GR]),
    (l4_la, [F_LA]),
    (l4_glance_gesture, []),
    (l4_moto_glance_gesture, []),
    (l4_moto_mod_current_drain, []),
    (l4_sensor_sync, [F_CAMFSYNC]),
    (l4_ultrasound_gesture, [F_ULTRASOUND]),
    (l4_motion_detect, []),
    (l4_stationary_detect, [])]"

definition hubSensorList :: "(l4_feature \<Rightarrow> bool) \<Rightarrow> l4_sensor list" where
  "hubSensorList on = map fst (filter (\<lambda>(e, fs). list_all on fs) hubSensorRows)"

end
