(* ===== verification/L4_State.thy ===== *)
theory L4_State
  imports L4_Types C_Text
begin

unbundle bit_operations_syntax

text \<open>
  The driver of the L4 sensor hub, first part (\<open>motosh_hal/HubSensors.h\<close> and \<open>HubSensors.cpp\<close>): what it needs
  from the platform, its members, the constructor, and the rates of the compass and the gyroscope. Masks, message codes
  and the numbers of handles of \<open>linux/motosh.h\<close> are fields of the environment; function-local statics are fields
  of the state.
\<close>

section \<open>The platform\<close>

datatype l4_mask =
    M_ACCEL | M_GYRO | M_PRESSURE | M_ALS | M_LIN_ACCEL | M_GRAVITY | M_DISP_ROTATE | M_IR_GESTURE | M_IR_RAW | M_IR_OBJECT
  | M_UNCALIB_GYRO | M_UNCALIB_MAG | M_STEP_COUNTER | M_STEP_DETECTOR | M_QUAT_6AXIS | M_QUAT_9AXIS | M_GAME_RV
  | M_MOTO_MOD_CURRENT_DRAIN | M_SENSOR_SYNC | M_ECOMPASS | M_PROXIMITY | M_FLATUP | M_FLATDOWN | M_STOWED | M_CAMERA_ACT
  | M_SIM | M_CHOPCHOP | M_LIFT | M_GLANCE | M_MOTION_DETECT | M_STATIONARY_DETECT

datatype l4_request =
    GET_SENSORS | GET_WAKESENSORS | SET_SENSORS "32 word" | SET_WAKESENSORS "32 word"
  | SET_MAG_CAL "8 word list" | SET_GYRO_CAL "8 word list" | SET_ACCEL_CAL "8 word list"
  | GET_MAG_CAL | GET_GYRO_CAL | GET_ACCEL_CAL
  | SET_ACC_DELAY "16 word" "32 word" | SET_PRES_DELAY "16 word" | SET_ALS_DELAY "16 word" | SET_IR_GESTURE_DELAY "16 word"
  | SET_IR_RAW_DELAY "16 word" | SET_STEP_COUNTER_DELAY "16 word" | SET_MAG_DELAY "16 word" | SET_GYRO_DELAY "16 word"
  | SET_FLUSH int

datatype l4_dt =
    DT_FLUSH | DT_ACCEL | DT_GYRO | DT_UNCALIB_GYRO | DT_UNCALIB_MAG | DT_QUAT_6AXIS | DT_QUAT_9AXIS | DT_GAME_RV
  | DT_STEP_COUNTER | DT_STEP_DETECTOR | DT_PRESSURE | DT_MAG | DT_ORIENT | DT_TEMP | DT_ALS | DT_LIN_ACCEL | DT_GRAVITY
  | DT_DISP_ROTATE | DT_PROX | DT_FLAT_UP | DT_FLAT_DOWN | DT_STOWED | DT_CAMERA_ACT | DT_IR_GESTURE | DT_IR_RAW
  | DT_IR_OBJECT | DT_SIM | DT_CHOPCHOP | DT_LIFT | DT_GLANCE | DT_GYRO_CAL | DT_ACCEL_CAL | DT_MOTION_DETECT
  | DT_STATIONARY_DETECT | DT_DOCK | DT_NFC | DT_RESET | DT_OTHER

record 'f l4_env =
  flt :: "'f farith"
  GRAVITY_EARTH :: 'f
  rad_per_degree :: 'f
  feature :: "l4_feature \<Rightarrow> bool"
  handle_code :: "l4_handle \<Rightarrow> nat"
  l4_masks :: "l4_mask \<Rightarrow> 32 word"
  dt_code :: "l4_dt \<Rightarrow> int"
  MOTOSH_CAMERA_DATA :: int
  MAG_CAL_SIZE :: nat
  GYRO_CAL_SIZE :: nat
  ACCEL_CAL_SIZE :: nat
  l4_ioctl :: "l4_request driver"
  reply_flags :: "l4_request list \<Rightarrow> 8 word \<times> 8 word \<times> 8 word" \<comment> \<open>the three bytes of a mask\<close>
  reply_cal :: "l4_request list \<Rightarrow> 8 word list"
  rate_write :: "path \<Rightarrow> 8 word \<Rightarrow> int" \<comment> \<open>the status of writing a rate to its attribute\<close>
  fopen_fails :: "path \<Rightarrow> bool"
  fwritten :: "path \<Rightarrow> nat \<Rightarrow> nat"
  time_now :: "nat \<Rightarrow> int"
  time_text :: "int \<Rightarrow> string option"
  hub_pid :: nat
  above_15_percent :: "int \<Rightarrow> int \<Rightarrow> bool" \<comment> \<open>\<open>d > v * 0.15\<close> in double precision\<close>

section \<open>The state\<close>

datatype event_version = META_DATA_VERSION | SENSORS_EVENT_T_SIZE

datatype vec_status = SENSOR_STATUS_ACCURACY_HIGH | Hub_Status "8 word"

datatype 'f payload =
    Flush_Complete int
  | Vector 'f 'f 'f vec_status
  | Vector3 'f 'f 'f
  | Uncalibrated 'f 'f 'f 'f 'f 'f
  | Data "'f list"
  | Scalar 'f
  | Step_Count "64 word"
  | Ir_Gesture "8 word" "8 word" "8 word" "8 word" "8 word"
  | Ir_Raw "int list"

record 'f l4_event =
  version :: event_version
  sensor :: int
  etype :: l4_type
  timestamp :: int
  payload :: "'f payload"

record 'f l4_hub =
  mEnabled :: "32 word"
  mWakeEnabled :: "32 word"
  mEnabledHandles :: "64 word"
  mMagCal :: "8 word list"
  mGyroCal :: "8 word list"
  mAccelCal :: "8 word list"
  mErrorCnt :: "8 word list"
  mGyroEnabled :: bool
  mUncalGyroEnabled :: bool
  mOrientEnabled :: bool
  mMagEnabled :: bool
  mUncalMagEnabled :: bool
  mGyroReqDelay :: "16 word"
  mUncalGyroReqDelay :: "16 word"
  mMagReqDelay :: "16 word"
  mUncalMagReqDelay :: "16 word"
  mOrientReqDelay :: "16 word"
  mGyroDelay :: "16 word"
  mEcompassDelay :: "16 word"
  pendingEvents :: "'f l4_event list"
  nextPendingEvent :: nat
  last_logged_val :: int
  last_logged_ts_ns :: int
  sent_bug2go_sec :: int
  last_stepcount :: "32 word"
  step_offset :: "32 word"
  requests :: "l4_request list"
  rates :: "(path \<times> 8 word) list" \<comment> \<open>what was written to the rate attributes\<close>
  hub_files :: "path \<Rightarrow> 8 word list option"
  dumps :: "(path \<times> string) list"
  ticks :: nat

definition l4_send :: "'f l4_env \<Rightarrow> l4_request \<Rightarrow> 'f l4_hub \<Rightarrow> int \<times> 'f l4_hub" where
  "l4_send E rq s = (l4_ioctl E (requests s) rq, s\<lparr>requests := requests s @ [rq]\<rparr>)"

section \<open>Handles\<close>

definition handle_of :: "'f l4_env \<Rightarrow> int \<Rightarrow> l4_handle option" where
  "handle_of E i = find (\<lambda>h. int (handle_code E h) = i) all_l4_handles"

definition mIdToSensor :: "'f l4_env \<Rightarrow> int \<Rightarrow> l4_sensor option" where
  "mIdToSensor E i = find (\<lambda>e. int (handle_code E (handle e)) = i) (hubSensorList (feature E))"

definition hasSensor :: "'f l4_env \<Rightarrow> int \<Rightarrow> bool" where
  "hasSensor E i \<longleftrightarrow> mIdToSensor E i \<noteq> None"

definition isHandleEnabled :: "'f l4_env \<Rightarrow> 'f l4_hub \<Rightarrow> l4_handle \<Rightarrow> bool" where
  "isHandleEnabled E s h \<longleftrightarrow> mEnabledHandles s AND push_bit (handle_code E h) 1 \<noteq> 0"

text \<open>What the platform header has to provide: different numbers that fit the mask of handles.\<close>

definition handles_ok :: "'f l4_env \<Rightarrow> bool" where
  "handles_ok E \<longleftrightarrow> inj (handle_code E) \<and> (\<forall>h. handle_code E h < 64)"

section \<open>Rates of compass and gyroscope\<close>

definition USHRT_MAX :: "16 word" where "USHRT_MAX = 65535"

definition compass_delays :: "'f l4_hub \<Rightarrow> 16 word list" where
  "compass_delays s =
     [if mMagEnabled s then mMagReqDelay s else USHRT_MAX,
      if mOrientEnabled s then mOrientReqDelay s else USHRT_MAX,
      if mUncalMagEnabled s then mUncalMagReqDelay s else USHRT_MAX]"

definition gyro_delays :: "'f l4_hub \<Rightarrow> 16 word list" where
  "gyro_delays s =
     [if mGyroEnabled s then mGyroReqDelay s else USHRT_MAX,
      if mUncalGyroEnabled s then mUncalGyroReqDelay s else USHRT_MAX]"

text \<open>The loop the two functions share.\<close>

definition min_req_delay :: "16 word list \<Rightarrow> 16 word" where
  "min_req_delay ds = fold (\<lambda>d m. if d < m then d else m) ds USHRT_MAX"

definition updateEcompassRate :: "'f l4_env \<Rightarrow> 'f l4_hub \<Rightarrow> int \<times> 'f l4_hub" where
  "updateEcompassRate E s =
     (let m = min_req_delay (compass_delays s)
      in if m = USHRT_MAX then (0, s\<lparr>mEcompassDelay := USHRT_MAX\<rparr>)
         else if mEcompassDelay s \<noteq> m then l4_send E (SET_MAG_DELAY m) (s\<lparr>mEcompassDelay := m\<rparr>)
         else (0, s))"

definition updateGyroRate :: "'f l4_env \<Rightarrow> 'f l4_hub \<Rightarrow> int \<times> 'f l4_hub" where
  "updateGyroRate E s =
     (let m = min_req_delay (gyro_delays s)
      in if m = USHRT_MAX then (0, s\<lparr>mGyroDelay := USHRT_MAX\<rparr>)
         else if mGyroDelay s \<noteq> m then l4_send E (SET_GYRO_DELAY m) (s\<lparr>mGyroDelay := m\<rparr>)
         else (0, s))"

section \<open>The constructor\<close>

definition MAG_CAL_FILE :: path where "MAG_CAL_FILE = ''/data/misc/sensorhub/akmd_set.bin''"
definition GYRO_CAL_FILE :: path where "GYRO_CAL_FILE = ''/data/misc/sensorhub/gyro_cal.bin''"
definition ACCEL_CAL_FILE :: path where "ACCEL_CAL_FILE = ''/data/misc/sensorhub/accel_cal.bin''"

definition ERROR_TYPES :: nat where "ERROR_TYPES = 9"

definition zero_l4 :: "'f l4_env \<Rightarrow> (path \<Rightarrow> 8 word list option) \<Rightarrow> 'f l4_hub" where
  "zero_l4 E files =
     \<lparr>mEnabled = 0, mWakeEnabled = 0, mEnabledHandles = 0, mMagCal = replicate (MAG_CAL_SIZE E) 0,
      mGyroCal = replicate (GYRO_CAL_SIZE E) 0, mAccelCal = replicate (ACCEL_CAL_SIZE E) 0,
      mErrorCnt = replicate (ERROR_TYPES + 1) 0,
      mGyroEnabled = False, mUncalGyroEnabled = False, mOrientEnabled = False, mMagEnabled = False, mUncalMagEnabled = False,
      mGyroReqDelay = USHRT_MAX, mUncalGyroReqDelay = USHRT_MAX, mMagReqDelay = USHRT_MAX, mUncalMagReqDelay = USHRT_MAX,
      mOrientReqDelay = USHRT_MAX, mGyroDelay = USHRT_MAX, mEcompassDelay = USHRT_MAX,
      pendingEvents = [], nextPendingEvent = 0, last_logged_val = - 1, last_logged_ts_ns = 0, sent_bug2go_sec = 0,
      last_stepcount = 0, step_offset = 0, requests = [], rates = [], hub_files = files, dumps = [], ticks = 0\<rparr>"

text \<open>The bytes of a mask are of type \<open>char\<close>, which is unsigned on the target.\<close>

definition join_flags :: "8 word \<times> 8 word \<times> 8 word \<Rightarrow> 32 word" where
  "join_flags = (\<lambda>(a, b, c). ucast a OR push_bit 8 (ucast b) OR push_bit 16 (ucast c))"

text \<open>The calibrations of magnetometer and gyroscope: a file that is too short zeroes the whole table, which is sent
  all the same.\<close>

definition cal_bytes :: "nat \<Rightarrow> 8 word list \<Rightarrow> 8 word list" where
  "cal_bytes n bytes = (if length bytes < n then replicate n 0 else take n bytes)"

definition load_mag_cal :: "'f l4_env \<Rightarrow> 'f l4_hub \<Rightarrow> 'f l4_hub" where
  "load_mag_cal E s =
     (case hub_files s MAG_CAL_FILE of
        None \<Rightarrow> s
      | Some b \<Rightarrow> let cal = cal_bytes (MAG_CAL_SIZE E) b in snd (l4_send E (SET_MAG_CAL cal) (s\<lparr>mMagCal := cal\<rparr>)))"

definition load_gyro_cal :: "'f l4_env \<Rightarrow> 'f l4_hub \<Rightarrow> 'f l4_hub" where
  "load_gyro_cal E s =
     (case hub_files s GYRO_CAL_FILE of
        None \<Rightarrow> s
      | Some b \<Rightarrow> let cal = cal_bytes (GYRO_CAL_SIZE E) b in snd (l4_send E (SET_GYRO_CAL cal) (s\<lparr>mGyroCal := cal\<rparr>)))"

definition load_accel_cal :: "'f l4_env \<Rightarrow> 'f l4_hub \<Rightarrow> 'f l4_hub" where
  "load_accel_cal E s =
     (case hub_files s ACCEL_CAL_FILE of
        None \<Rightarrow> s
      | Some b \<Rightarrow>
          if length b < ACCEL_CAL_SIZE E then s\<lparr>mAccelCal := replicate (ACCEL_CAL_SIZE E) 0\<rparr>
          else let cal = take (ACCEL_CAL_SIZE E) b in snd (l4_send E (SET_ACCEL_CAL cal) (s\<lparr>mAccelCal := cal\<rparr>)))"

definition new_HubSensors :: "'f l4_env \<Rightarrow> (path \<Rightarrow> 8 word list option) \<Rightarrow> 'f l4_hub" where
  "new_HubSensors E files =
     (let s0 = zero_l4 E files;
          f1 = join_flags (reply_flags E (requests s0));
          (e1, s1) = l4_send E GET_SENSORS s0;
          s2 = (if e1 = 0 then s1\<lparr>mEnabled := f1\<rparr> else s1);
          f2 = join_flags (reply_flags E (requests s2));
          (e2, s3) = l4_send E GET_WAKESENSORS s2;
          s4 = (if e2 = 0 then s3\<lparr>mWakeEnabled := f2\<rparr> else s3)
      in load_accel_cal E (load_gyro_cal E (load_mag_cal E s4)))"

end
