(* ===== verification/L4_Enable.thy ===== *)
theory L4_Enable
  imports L4_State "HOL-Library.Signed_Division"
begin

unbundle bit_operations_syntax

text \<open>
  The driver of the L4 sensor hub, second part (\<open>motosh_hal/HubSensors.cpp\<close>): \<open>setEnable\<close>, \<open>batch\<close> and
  \<open>flush\<close>. The masks sent to the hub, the members that say which sensors are on, and the rates of compass and
  gyroscope follow from the set of enabled handles, which is the invariant of the driver.
\<close>

section \<open>Switching sensors\<close>

definition switch_mask :: "bool \<Rightarrow> 32 word \<Rightarrow> 32 word \<Rightarrow> 32 word" where
  "switch_mask on m w = (let w1 = w AND NOT m in if on then w1 OR m else w1)"

text \<open>The first switch: the bit of a non-wake sensor, if its case is compiled.\<close>

definition main_mask :: "(l4_feature \<Rightarrow> bool) \<Rightarrow> l4_handle \<Rightarrow> l4_mask option" where
  "main_mask on h =
     (case h of
        ID_A \<Rightarrow> Some M_ACCEL
      | ID_G \<Rightarrow> Some M_GYRO
      | ID_PR \<Rightarrow> Some M_PRESSURE
      | ID_L \<Rightarrow> Some M_ALS
      | ID_LA \<Rightarrow> if on F_LA then Some M_LIN_ACCEL else None
      | ID_GRAVITY \<Rightarrow> if on F_GR then Some M_GRAVITY else None
      | ID_DR \<Rightarrow> Some M_DISP_ROTATE
      | ID_IR_GESTURE \<Rightarrow> if on F_IR then Some M_IR_GESTURE else None
      | ID_IR_RAW \<Rightarrow> if on F_IR then Some M_IR_RAW else None
      | ID_IR_OBJECT \<Rightarrow> if on F_IR then Some M_IR_OBJECT else None
      | ID_UNCALIB_GYRO \<Rightarrow> Some M_UNCALIB_GYRO
      | ID_UNCALIB_MAG \<Rightarrow> Some M_UNCALIB_MAG
      | ID_STEP_COUNTER \<Rightarrow> if on F_PEDO then Some M_STEP_COUNTER else None
      | ID_STEP_DETECTOR \<Rightarrow> if on F_PEDO then Some M_STEP_DETECTOR else None
      | ID_QUAT_6AXIS \<Rightarrow> Some M_QUAT_6AXIS
      | ID_QUAT_9AXIS \<Rightarrow> Some M_QUAT_9AXIS
      | ID_GAME_RV \<Rightarrow> Some M_GAME_RV
      | ID_MOTO_MOD_CURRENT_DRAIN \<Rightarrow> Some M_MOTO_MOD_CURRENT_DRAIN
      | ID_SENSOR_SYNC \<Rightarrow> if on F_CAMFSYNC then Some M_SENSOR_SYNC else None
      | _ \<Rightarrow> None)"

text \<open>\<open>found\<close> after the first switch.\<close>

definition main_found :: "(l4_feature \<Rightarrow> bool) \<Rightarrow> l4_handle \<Rightarrow> bool" where
  "main_found on h \<longleftrightarrow> h = ID_M \<or> h = ID_O \<or> main_mask on h \<noteq> None"

text \<open>The members the first switch keeps; a sensor that is switched off forgets its rate.\<close>

definition note_switch :: "l4_handle \<Rightarrow> bool \<Rightarrow> 'f l4_hub \<Rightarrow> 'f l4_hub" where
  "note_switch h on s =
     (case h of
        ID_G \<Rightarrow> let s1 = s\<lparr>mGyroEnabled := on\<rparr> in if on then s1 else s1\<lparr>mGyroReqDelay := USHRT_MAX\<rparr>
      | ID_M \<Rightarrow> let s1 = s\<lparr>mMagEnabled := on\<rparr> in if on then s1 else s1\<lparr>mMagReqDelay := USHRT_MAX\<rparr>
      | ID_O \<Rightarrow> let s1 = s\<lparr>mOrientEnabled := on\<rparr> in if on then s1 else s1\<lparr>mOrientReqDelay := USHRT_MAX\<rparr>
      | ID_UNCALIB_GYRO \<Rightarrow>
          let s1 = s\<lparr>mUncalGyroEnabled := on\<rparr> in if on then s1 else s1\<lparr>mUncalGyroReqDelay := USHRT_MAX\<rparr>
      | ID_UNCALIB_MAG \<Rightarrow>
          let s1 = s\<lparr>mUncalMagEnabled := on\<rparr> in if on then s1 else s1\<lparr>mUncalMagReqDelay := USHRT_MAX\<rparr>
      | _ \<Rightarrow> s)"

text \<open>\<open>fwritten\<close> is how many bytes reach the file.\<close>

definition write_cal :: "'f l4_env \<Rightarrow> path \<Rightarrow> nat \<Rightarrow> 8 word list \<Rightarrow> 'f l4_hub \<Rightarrow> 'f l4_hub" where
  "write_cal E file n bytes s =
     (if fopen_fails E file then s
      else s\<lparr>hub_files := (hub_files s)(file := Some (take (fwritten E file n) bytes))\<rparr>)"

definition save_mag_cal :: "'f l4_env \<Rightarrow> 'f l4_hub \<Rightarrow> int \<times> 'f l4_hub" where
  "save_mag_cal E s =
     (let bytes = reply_cal E (requests s); (err, s1) = l4_send E GET_MAG_CAL s
      in (err, if err < 0 then s1 else write_cal E MAG_CAL_FILE (MAG_CAL_SIZE E) bytes (s1\<lparr>mMagCal := bytes\<rparr>)))"

text \<open>Magnetometer and orientation are the compass of the hub; it stays off for the uncalibrated magnetometer alone.\<close>

definition compass_part :: "'f l4_env \<Rightarrow> l4_handle \<Rightarrow> 32 word \<Rightarrow> 'f l4_hub \<Rightarrow> int \<times> 32 word \<times> 'f l4_hub" where
  "compass_part E h w s =
     (if h = ID_M \<or> h = ID_O \<or> h = ID_UNCALIB_MAG
      then
        let (_, s1) = updateEcompassRate E s
        in if \<not> mMagEnabled s1 \<and> \<not> mOrientEnabled s1
           then let (err, s2) = save_mag_cal E s1 in (err, w AND NOT (l4_masks E M_ECOMPASS), s2)
           else (0, w OR l4_masks E M_ECOMPASS, s1)
      else (0, w, s))"

definition enable_main :: "'f l4_env \<Rightarrow> l4_handle \<Rightarrow> bool \<Rightarrow> 'f l4_hub \<Rightarrow> int \<times> 'f l4_hub" where
  "enable_main E h on s =
     (let w = (case main_mask (feature E) h of None \<Rightarrow> mEnabled s | Some m \<Rightarrow> switch_mask on (l4_masks E m) (mEnabled s));
          (err, w, s) = compass_part E h w (note_switch h on s);
          s = (if h = ID_G \<or> h = ID_UNCALIB_GYRO then snd (updateGyroRate E s) else s)
      in if main_found (feature E) h \<and> w \<noteq> mEnabled s
         then let (_, s') = l4_send E (SET_SENSORS w) s in (0, s'\<lparr>mEnabled := w\<rparr>)
         else (err, s))"

text \<open>The second switch: the mask of wake sensors, \<open>None\<close> when \<open>found\<close> stays 0. The case of
  \<open>ID_MOTO_GLANCE_GESTURE\<close> has no \<open>break\<close>: that of \<open>ID_MOTION_DETECT\<close> follows.\<close>

definition wake_word :: "'f l4_env \<Rightarrow> l4_handle \<Rightarrow> bool \<Rightarrow> 'f l4_hub \<Rightarrow> 32 word option" where
  "wake_word E h on s =
     (let w = mWakeEnabled s; put = (\<lambda>m. switch_mask on (l4_masks E m)) in
      case h of
        ID_P \<Rightarrow> Some (put M_PROXIMITY w)
      | ID_FU \<Rightarrow> Some (put M_FLATUP w)
      | ID_FD \<Rightarrow> Some (put M_FLATDOWN w)
      | ID_S \<Rightarrow> Some (put M_STOWED w)
      | ID_CA \<Rightarrow> Some (put M_CAMERA_ACT w)
      | ID_SIM \<Rightarrow> Some (put M_SIM w)
      | ID_CHOPCHOP_GESTURE \<Rightarrow> if feature E F_CHOPCHOP then Some (put M_CHOPCHOP w) else None
      | ID_LIFT_GESTURE \<Rightarrow> if feature E F_LIFT then Some (put M_LIFT w) else None
      | ID_GLANCE_GESTURE \<Rightarrow> if \<not> isHandleEnabled E s ID_MOTO_GLANCE_GESTURE then Some (put M_GLANCE w) else None
      | ID_MOTO_GLANCE_GESTURE \<Rightarrow>
          let w1 = (if \<not> isHandleEnabled E s ID_GLANCE_GESTURE then put M_GLANCE w else w)
          in Some (if on then w1 OR l4_masks E M_MOTION_DETECT else w1 AND NOT (l4_masks E M_MOTION_DETECT))
      | ID_MOTION_DETECT \<Rightarrow>
          Some (if on then w OR l4_masks E M_MOTION_DETECT else w AND NOT (l4_masks E M_MOTION_DETECT))
      | ID_STATIONARY_DETECT \<Rightarrow>
          Some (if on then w OR l4_masks E M_STATIONARY_DETECT else w AND NOT (l4_masks E M_STATIONARY_DETECT))
      | _ \<Rightarrow> None)"

definition enable_wake :: "'f l4_env \<Rightarrow> l4_handle \<Rightarrow> bool \<Rightarrow> int \<times> 'f l4_hub \<Rightarrow> int \<times> 'f l4_hub" where
  "enable_wake E h on = (\<lambda>(err, s).
     case wake_word E h on s of
       None \<Rightarrow> (err, s)
     | Some w \<Rightarrow>
         if w \<noteq> mWakeEnabled s
         then let (_, s') = l4_send E (SET_WAKESENSORS w) s in (0, s'\<lparr>mWakeEnabled := w\<rparr>)
         else (err, s))"

definition mark_enabled :: "'f l4_env \<Rightarrow> l4_handle \<Rightarrow> bool \<Rightarrow> 'f l4_hub \<Rightarrow> 'f l4_hub" where
  "mark_enabled E h on s =
     s\<lparr>mEnabledHandles := (if on then mEnabledHandles s OR push_bit (handle_code E h) 1
                           else mEnabledHandles s AND NOT (push_bit (handle_code E h) 1))\<rparr>"

definition l4_setEnable :: "'f l4_env \<Rightarrow> int \<Rightarrow> int \<Rightarrow> 'f l4_hub \<Rightarrow> int \<times> 'f l4_hub" where
  "l4_setEnable E i en s =
     (case mIdToSensor E i of
        None \<Rightarrow> (- EINVAL, s)
      | Some e \<Rightarrow>
          let h = handle e; on = (en \<noteq> 0); (err, s1) = enable_wake E h on (enable_main E h on s)
          in (err, mark_enabled E h on s1))"

section \<open>Sampling periods\<close>

definition QUAT_6AXIS_RATE_ATTR_NAME :: path where
  "QUAT_6AXIS_RATE_ATTR_NAME = ''/sys/devices/virtual/motosh/motosh_as/rv_6axis_update_rate''"
definition QUAT_9AXIS_RATE_ATTR_NAME :: path where
  "QUAT_9AXIS_RATE_ATTR_NAME = ''/sys/devices/virtual/motosh/motosh_as/rv_9axis_update_rate''"
definition GAME_RV_RATE_ATTR_NAME :: path where
  "GAME_RV_RATE_ATTR_NAME = ''/sys/devices/virtual/motosh/motosh_as/game_rv_update_rate''"
definition GRAVITY_RATE_ATTR_NAME :: path where
  "GRAVITY_RATE_ATTR_NAME = ''/sys/devices/virtual/motosh/motosh_as/gravity_update_rate''"
definition LINEAR_ACCEL_RATE_ATTR_NAME :: path where
  "LINEAR_ACCEL_RATE_ATTR_NAME = ''/sys/devices/virtual/motosh/motosh_as/linear_accel_update_rate''"

text \<open>An attribute takes the first byte of the period, which is the low one. \<open>rate_write\<close> is -1 when the attribute
  cannot be opened or written, else the number of bytes.\<close>

definition write_rate :: "'f l4_env \<Rightarrow> path \<Rightarrow> 16 word \<Rightarrow> 'f l4_hub \<Rightarrow> int \<times> 'f l4_hub" where
  "write_rate E file d s =
     (let n = rate_write E file (ucast d) in if n = 1 then (0, s\<lparr>rates := rates s @ [(file, ucast d)]\<rparr>) else (n, s))"

definition period_ms :: "int \<Rightarrow> 16 word" where
  "period_ms ns = word_of_int (ns sdiv 1000000)"

definition timeout_ms :: "int \<Rightarrow> 32 word" where
  "timeout_ms t = word_of_int (t sdiv 1000000)"

text \<open>The period of the step counter in seconds.\<close>

definition step_period :: "16 word \<Rightarrow> 16 word" where
  "step_period d = (let secs = d div 1000 in if secs = 0 then 1 else if secs > 3600 then 3600 else secs)"

definition batch_case :: "'f l4_env \<Rightarrow> l4_handle \<Rightarrow> 16 word \<Rightarrow> 32 word \<Rightarrow> 'f l4_hub \<Rightarrow> int \<times> 'f l4_hub" where
  "batch_case E h d t s =
     (let on = feature E; bad = (- EINVAL, s) in
      case h of
        ID_A \<Rightarrow> l4_send E (SET_ACC_DELAY d t) s
      | ID_G \<Rightarrow> (- EINVAL, s\<lparr>mGyroReqDelay := d\<rparr>)
      | ID_PR \<Rightarrow> l4_send E (SET_PRES_DELAY d) s
      | ID_M \<Rightarrow> (- EINVAL, s\<lparr>mMagReqDelay := d\<rparr>)
      | ID_O \<Rightarrow> (- EINVAL, s\<lparr>mOrientReqDelay := d\<rparr>)
      | ID_L \<Rightarrow> l4_send E (SET_ALS_DELAY d) s
      | ID_LA \<Rightarrow> if on F_LA then write_rate E LINEAR_ACCEL_RATE_ATTR_NAME d s else bad
      | ID_GRAVITY \<Rightarrow> if on F_GR then write_rate E GRAVITY_RATE_ATTR_NAME d s else bad
      | ID_IR_GESTURE \<Rightarrow> if on F_IR then l4_send E (SET_IR_GESTURE_DELAY d) s else bad
      | ID_IR_RAW \<Rightarrow> if on F_IR then l4_send E (SET_IR_RAW_DELAY d) s else bad
      | ID_IR_OBJECT \<Rightarrow> if on F_IR then (0, s) else bad
      | ID_UNCALIB_GYRO \<Rightarrow> (- EINVAL, s\<lparr>mUncalGyroReqDelay := d\<rparr>)
      | ID_UNCALIB_MAG \<Rightarrow> (- EINVAL, s\<lparr>mUncalMagReqDelay := d\<rparr>)
      | ID_STEP_COUNTER \<Rightarrow> if on F_PEDO then l4_send E (SET_STEP_COUNTER_DELAY (step_period d)) s else bad
      | ID_STEP_DETECTOR \<Rightarrow> if on F_PEDO then (0, s) else bad
      | ID_CHOPCHOP_GESTURE \<Rightarrow> if on F_CHOPCHOP then (0, s) else bad
      | ID_LIFT_GESTURE \<Rightarrow> if on F_LIFT then (0, s) else bad
      | ID_QUAT_6AXIS \<Rightarrow> write_rate E QUAT_6AXIS_RATE_ATTR_NAME d s
      | ID_QUAT_9AXIS \<Rightarrow> write_rate E QUAT_9AXIS_RATE_ATTR_NAME d s
      | ID_GAME_RV \<Rightarrow> write_rate E GAME_RV_RATE_ATTR_NAME d s
      | ID_SENSOR_SYNC \<Rightarrow> if on F_CAMFSYNC then (0, s) else bad
      | ID_ULTRASOUND_GESTURE \<Rightarrow> bad
      | _ \<Rightarrow> (0, s))"

definition l4_batch :: "'f l4_env \<Rightarrow> int \<Rightarrow> int \<Rightarrow> int \<Rightarrow> 'f l4_hub \<Rightarrow> int \<times> 'f l4_hub" where
  "l4_batch E i ns timeout s =
     (if ns < 0 then (- EINVAL, s)
      else case mIdToSensor E i of
        None \<Rightarrow> (- EINVAL, s)
      | Some e \<Rightarrow>
          let h = handle e;
              (status, s1) = batch_case E h (period_ms ns) (timeout_ms timeout) s;
              (status, s2) =
                (if h = ID_M \<or> h = ID_O \<or> h = ID_UNCALIB_MAG then updateEcompassRate E s1
                 else if h = ID_G \<or> h = ID_UNCALIB_GYRO then updateGyroRate E s1
                 else (status, s1))
          in (if status = - EIO then 0 else status, s2))"

definition l4_flush :: "'f l4_env \<Rightarrow> int \<Rightarrow> 'f l4_hub \<Rightarrow> int \<times> 'f l4_hub" where
  "l4_flush E i s =
     (case mIdToSensor E i of
        None \<Rightarrow> (- EINVAL, s)
      | Some e \<Rightarrow> if reporting e = One_Shot then (- EINVAL, s) else l4_send E (SET_FLUSH i) s)"

section \<open>What the enabled handles ask of the hub\<close>

definition l4_on :: "'f l4_env \<Rightarrow> 'f l4_hub \<Rightarrow> l4_handle set" where
  "l4_on E s = {h. isHandleEnabled E s h}"

text \<open>The bit of a wake sensor. Motion detection is left out: its bit is also moved by a glance.\<close>

definition l4_wake_mask :: "(l4_feature \<Rightarrow> bool) \<Rightarrow> l4_handle \<Rightarrow> l4_mask option" where
  "l4_wake_mask on h =
     (case h of
        ID_P \<Rightarrow> Some M_PROXIMITY
      | ID_FU \<Rightarrow> Some M_FLATUP
      | ID_FD \<Rightarrow> Some M_FLATDOWN
      | ID_S \<Rightarrow> Some M_STOWED
      | ID_CA \<Rightarrow> Some M_CAMERA_ACT
      | ID_SIM \<Rightarrow> Some M_SIM
      | ID_CHOPCHOP_GESTURE \<Rightarrow> if on F_CHOPCHOP then Some M_CHOPCHOP else None
      | ID_LIFT_GESTURE \<Rightarrow> if on F_LIFT then Some M_LIFT else None
      | ID_GLANCE_GESTURE \<Rightarrow> Some M_GLANCE
      | ID_MOTO_GLANCE_GESTURE \<Rightarrow> Some M_GLANCE
      | ID_STATIONARY_DETECT \<Rightarrow> Some M_STATIONARY_DETECT
      | _ \<Rightarrow> None)"

definition main_bits :: "l4_mask set" where
  "main_bits = {M_ACCEL, M_GYRO, M_PRESSURE, M_ALS, M_LIN_ACCEL, M_GRAVITY, M_DISP_ROTATE, M_IR_GESTURE, M_IR_RAW,
     M_IR_OBJECT, M_UNCALIB_GYRO, M_UNCALIB_MAG, M_STEP_COUNTER, M_STEP_DETECTOR, M_QUAT_6AXIS, M_QUAT_9AXIS, M_GAME_RV,
     M_MOTO_MOD_CURRENT_DRAIN, M_SENSOR_SYNC, M_ECOMPASS}"

definition wake_bits :: "l4_mask set" where
  "wake_bits = {M_PROXIMITY, M_FLATUP, M_FLATDOWN, M_STOWED, M_CAMERA_ACT, M_SIM, M_CHOPCHOP, M_LIFT, M_GLANCE,
     M_MOTION_DETECT, M_STATIONARY_DETECT}"

text \<open>What the platform header has to provide: the masks of each word have no bit in common.\<close>

definition masks_ok :: "(l4_mask \<Rightarrow> 32 word) \<Rightarrow> bool" where
  "masks_ok M \<longleftrightarrow> (\<forall>m\<in>main_bits. \<forall>k\<in>main_bits. m \<noteq> k \<longrightarrow> M m AND M k = 0)
     \<and> (\<forall>m\<in>wake_bits. \<forall>k\<in>wake_bits. m \<noteq> k \<longrightarrow> M m AND M k = 0)"

definition main_wanted :: "(l4_feature \<Rightarrow> bool) \<Rightarrow> l4_handle set \<Rightarrow> l4_mask \<Rightarrow> bool" where
  "main_wanted on H m \<longleftrightarrow> (if m = M_ECOMPASS then ID_M \<in> H \<or> ID_O \<in> H else \<exists>h\<in>H. main_mask on h = Some m)"

definition wake_wanted :: "(l4_feature \<Rightarrow> bool) \<Rightarrow> l4_handle set \<Rightarrow> l4_mask \<Rightarrow> bool" where
  "wake_wanted on H m \<longleftrightarrow> (\<exists>h\<in>H. l4_wake_mask on h = Some m)"

text \<open>The last value sent to the hub, and the mask the hub has: nothing when none was sent.\<close>

definition last_req :: "(l4_request \<Rightarrow> 'a option) \<Rightarrow> l4_request list \<Rightarrow> 'a option" where
  "last_req f rs = foldl (\<lambda>a r. case f r of None \<Rightarrow> a | Some v \<Rightarrow> Some v) None rs"

definition last_word :: "(l4_request \<Rightarrow> 32 word option) \<Rightarrow> l4_request list \<Rightarrow> 32 word" where
  "last_word f rs = (case last_req f rs of None \<Rightarrow> 0 | Some w \<Rightarrow> w)"

definition main_req :: "l4_request \<Rightarrow> 32 word option" where
  "main_req r = (case r of SET_SENSORS w \<Rightarrow> Some w | _ \<Rightarrow> None)"
definition wake_req :: "l4_request \<Rightarrow> 32 word option" where
  "wake_req r = (case r of SET_WAKESENSORS w \<Rightarrow> Some w | _ \<Rightarrow> None)"
definition mag_req :: "l4_request \<Rightarrow> 16 word option" where
  "mag_req r = (case r of SET_MAG_DELAY d \<Rightarrow> Some d | _ \<Rightarrow> None)"
definition gyro_req :: "l4_request \<Rightarrow> 16 word option" where
  "gyro_req r = (case r of SET_GYRO_DELAY d \<Rightarrow> Some d | _ \<Rightarrow> None)"

definition flags_inv :: "'f l4_env \<Rightarrow> 'f l4_hub \<Rightarrow> bool" where
  "flags_inv E s \<longleftrightarrow>
     mGyroEnabled s = (ID_G \<in> l4_on E s) \<and> mUncalGyroEnabled s = (ID_UNCALIB_GYRO \<in> l4_on E s)
     \<and> mMagEnabled s = (ID_M \<in> l4_on E s) \<and> mOrientEnabled s = (ID_O \<in> l4_on E s)
     \<and> mUncalMagEnabled s = (ID_UNCALIB_MAG \<in> l4_on E s)"

text \<open>The bit of motion detection, moved by its own sensor and by the moto glance gesture: it is set while both are on
  and clear while both are off; with just one of them on it is set or clear, depending on what was switched last.\<close>

definition motion_bit_inv :: "'f l4_env \<Rightarrow> 'f l4_hub \<Rightarrow> bool" where
  "motion_bit_inv E s \<longleftrightarrow>
     (let w = mWakeEnabled s AND l4_masks E M_MOTION_DETECT;
          motion = ID_MOTION_DETECT \<in> l4_on E s; glance = ID_MOTO_GLANCE_GESTURE \<in> l4_on E s
      in if motion \<and> glance then w = l4_masks E M_MOTION_DETECT
         else if motion \<or> glance then w = 0 \<or> w = l4_masks E M_MOTION_DETECT
         else w = 0)"

definition bits_inv :: "'f l4_env \<Rightarrow> 'f l4_hub \<Rightarrow> bool" where
  "bits_inv E s \<longleftrightarrow>
     (\<forall>m\<in>main_bits. mEnabled s AND l4_masks E m = (if main_wanted (feature E) (l4_on E s) m then l4_masks E m else 0))
     \<and> (\<forall>m\<in>wake_bits - {M_MOTION_DETECT}.
          mWakeEnabled s AND l4_masks E m = (if wake_wanted (feature E) (l4_on E s) m then l4_masks E m else 0))
     \<and> motion_bit_inv E s"

definition rates_inv :: "'f l4_hub \<Rightarrow> bool" where
  "rates_inv s \<longleftrightarrow> mEcompassDelay s = min_req_delay (compass_delays s) \<and> mGyroDelay s = min_req_delay (gyro_delays s)"

text \<open>The hub knows the masks and rates the driver keeps.\<close>

definition sent_inv :: "'f l4_hub \<Rightarrow> bool" where
  "sent_inv s \<longleftrightarrow>
     last_word main_req (requests s) = mEnabled s
     \<and> last_word wake_req (requests s) = mWakeEnabled s
     \<and> (mEcompassDelay s = USHRT_MAX \<or> last_req mag_req (requests s) = Some (mEcompassDelay s))
     \<and> (mGyroDelay s = USHRT_MAX \<or> last_req gyro_req (requests s) = Some (mGyroDelay s))"

definition l4_inv :: "'f l4_env \<Rightarrow> 'f l4_hub \<Rightarrow> bool" where
  "l4_inv E s \<longleftrightarrow> flags_inv E s \<and> bits_inv E s \<and> rates_inv s \<and> sent_inv s"

lemmas req_defs = main_req_def wake_req_def mag_req_def gyro_req_def

lemma last_req_Nil [simp]: "last_req f [] = None"
  by (simp add: last_req_def)

lemma last_req_snoc [simp]: "last_req f (rs @ [r]) = (case f r of None \<Rightarrow> last_req f rs | Some v \<Rightarrow> Some v)"
  by (simp add: last_req_def split: option.split)

lemma last_word_snoc [simp]: "last_word f (rs @ [r]) = (case f r of None \<Rightarrow> last_word f rs | Some v \<Rightarrow> v)"
  by (simp add: last_word_def split: option.split)

lemma last_word_Nil [simp]: "last_word f [] = 0"
  by (simp add: last_word_def)

lemma l4_send_simps [simp]:
  "fst (l4_send E rq s) = l4_ioctl E (requests s) rq" "snd (l4_send E rq s) = s\<lparr>requests := requests s @ [rq]\<rparr>"
  by (simp_all add: l4_send_def)

subsection \<open>Bits\<close>

lemma switch_mask_eq: "switch_mask on m w = (if on then w OR m else w AND NOT m)"
  by (auto simp: switch_mask_def Let_def bit_eq_iff bit_simps)

lemma and_or_same: "(w OR m) AND (m :: 32 word) = m" "(w AND NOT m) AND m = 0"
  by (auto simp: bit_eq_iff bit_simps)

lemma and_or_other:
  assumes "m AND k = (0 :: 32 word)"
  shows "(w OR m) AND k = w AND k" "(w AND NOT m) AND k = w AND k"
proof -
  have "\<not> (bit m i \<and> bit k i)" for i using assms by (metis bit_and_iff bit_0_eq bot_fun_def bot_bool_def)
  then show "(w OR m) AND k = w AND k" "(w AND NOT m) AND k = w AND k"
    by (auto simp: bit_eq_iff bit_simps)
qed

lemma switch_mask_same [simp]: "switch_mask on m w AND m = (if on then m else 0)"
  by (simp add: switch_mask_eq and_or_same)

lemma switch_mask_other: "m AND k = 0 \<Longrightarrow> switch_mask on m w AND k = w AND k"
  by (simp add: switch_mask_eq and_or_other)

lemma and_push_bit: "n < 64 \<Longrightarrow> w AND push_bit n 1 \<noteq> (0 :: 64 word) \<longleftrightarrow> bit w n"
  by (auto simp: bit_eq_iff [where 'a = "64 word"] bit_simps)

lemma isHandleEnabled_bit_l4: "handles_ok E \<Longrightarrow> isHandleEnabled E s h \<longleftrightarrow> bit (mEnabledHandles s) (handle_code E h)"
  unfolding isHandleEnabled_def by (rule and_push_bit) (simp add: handles_ok_def)

lemma handle_code_eq: "handles_ok E \<Longrightarrow> handle_code E k = handle_code E h \<longleftrightarrow> k = h"
  by (auto simp: handles_ok_def inj_def)

lemma code_bit: "handles_ok E \<Longrightarrow> bit (2 ^ handle_code E h :: 64 word) (handle_code E k) \<longleftrightarrow> k = h"
  by (auto simp: handles_ok_def inj_def bit_simps)

lemma l4_on_mark:
  assumes "handles_ok E"
  shows "l4_on E (mark_enabled E h on s) = (if on then insert h (l4_on E s) else l4_on E s - {h})"
proof (rule set_eqI)
  fix k
  have "handle_code E k < 64" using assms by (simp add: handles_ok_def)
  then show "k \<in> l4_on E (mark_enabled E h on s) \<longleftrightarrow> k \<in> (if on then insert h (l4_on E s) else l4_on E s - {h})"
    by (simp add: l4_on_def isHandleEnabled_bit_l4 [OF assms] mark_enabled_def bit_or_iff bit_and_iff bit_not_iff
        code_bit [OF assms] disj_commute)
qed

subsection \<open>The parts of setEnable\<close>

lemma updateEcompassRate_state:
  "snd (updateEcompassRate E s) =
     (let m = min_req_delay (compass_delays s)
      in s\<lparr>mEcompassDelay := m,
           requests := requests s @ (if m = USHRT_MAX \<or> mEcompassDelay s = m then [] else [SET_MAG_DELAY m])\<rparr>)"
  by (simp add: updateEcompassRate_def Let_def)

lemma updateGyroRate_state:
  "snd (updateGyroRate E s) =
     (let m = min_req_delay (gyro_delays s)
      in s\<lparr>mGyroDelay := m,
           requests := requests s @ (if m = USHRT_MAX \<or> mGyroDelay s = m then [] else [SET_GYRO_DELAY m])\<rparr>)"
  by (simp add: updateGyroRate_def Let_def)

lemma save_mag_cal_state:
  "\<exists>c f. snd (save_mag_cal E s) = s\<lparr>mMagCal := c, hub_files := f, requests := requests s @ [GET_MAG_CAL]\<rparr>"
proof -
  let ?s = "snd (save_mag_cal E s)"
  have "?s = s\<lparr>mMagCal := mMagCal ?s, hub_files := hub_files ?s, requests := requests s @ [GET_MAG_CAL]\<rparr>"
    by (cases s) (simp add: save_mag_cal_def write_cal_def Let_def case_prod_beta)
  then show ?thesis by blast
qed

text \<open>The mask of the first switch and of the compass.\<close>

definition main_word :: "'f l4_env \<Rightarrow> l4_handle \<Rightarrow> bool \<Rightarrow> 'f l4_hub \<Rightarrow> 32 word" where
  "main_word E h on s =
     (let w = (case main_mask (feature E) h of None \<Rightarrow> mEnabled s | Some m \<Rightarrow> switch_mask on (l4_masks E m) (mEnabled s));
          s1 = note_switch h on s
      in if h = ID_M \<or> h = ID_O \<or> h = ID_UNCALIB_MAG
         then switch_mask (mMagEnabled s1 \<or> mOrientEnabled s1) (l4_masks E M_ECOMPASS) w
         else w)"

text \<open>What \<open>setEnable\<close> leaves alone apart from masks, rates, requests and the saved calibration.\<close>

definition switches :: "'f l4_hub \<Rightarrow> bool list \<times> 16 word list \<times> 64 word" where
  "switches s =
     ([mGyroEnabled s, mUncalGyroEnabled s, mMagEnabled s, mOrientEnabled s, mUncalMagEnabled s],
      [mGyroReqDelay s, mUncalGyroReqDelay s, mMagReqDelay s, mOrientReqDelay s, mUncalMagReqDelay s], mEnabledHandles s)"

lemma switches_delays:
  "switches s = switches s' \<Longrightarrow> compass_delays s = compass_delays s' \<and> gyro_delays s = gyro_delays s'"
  by (simp add: switches_def compass_delays_def gyro_delays_def)

lemma note_switch_keeps:
  "mEnabled (note_switch h on s) = mEnabled s" "mWakeEnabled (note_switch h on s) = mWakeEnabled s"
  "mEnabledHandles (note_switch h on s) = mEnabledHandles s" "requests (note_switch h on s) = requests s"
  "mEcompassDelay (note_switch h on s) = mEcompassDelay s" "mGyroDelay (note_switch h on s) = mGyroDelay s"
  by (cases h; simp add: note_switch_def Let_def)+

lemma note_switch_delays:
  "h \<notin> {ID_M, ID_O, ID_UNCALIB_MAG} \<Longrightarrow> compass_delays (note_switch h on s) = compass_delays s"
  "h \<notin> {ID_G, ID_UNCALIB_GYRO} \<Longrightarrow> gyro_delays (note_switch h on s) = gyro_delays s"
  by (cases h; simp add: note_switch_def Let_def compass_delays_def gyro_delays_def)+

lemma compass_part_spec:
  assumes "compass_part E h w s = (err, w', s')"
  shows "switches s' = switches s \<and> mEnabled s' = mEnabled s \<and> mWakeEnabled s' = mWakeEnabled s \<and> mGyroDelay s' = mGyroDelay s
    \<and> w' = (if h \<in> {ID_M, ID_O, ID_UNCALIB_MAG}
            then switch_mask (mMagEnabled s \<or> mOrientEnabled s) (l4_masks E M_ECOMPASS) w else w)
    \<and> mEcompassDelay s' = (if h \<in> {ID_M, ID_O, ID_UNCALIB_MAG} then min_req_delay (compass_delays s) else mEcompassDelay s)
    \<and> (sent_inv s \<longrightarrow> sent_inv s')"
proof (cases "h \<in> {ID_M, ID_O, ID_UNCALIB_MAG}")
  case True
  define s1 where "s1 = snd (updateEcompassRate E s)"
  have 1: "switches s1 = switches s" "mEnabled s1 = mEnabled s" "mWakeEnabled s1 = mWakeEnabled s" "mGyroDelay s1 = mGyroDelay s"
      "mEcompassDelay s1 = min_req_delay (compass_delays s)" "mMagEnabled s1 = mMagEnabled s" "mOrientEnabled s1 = mOrientEnabled s"
    by (simp_all add: s1_def updateEcompassRate_state Let_def switches_def)
  have 2: "sent_inv s \<longrightarrow> sent_inv s1"
    by (auto simp: s1_def updateEcompassRate_state Let_def sent_inv_def req_defs)
  obtain c f where 3: "snd (save_mag_cal E s1) = s1\<lparr>mMagCal := c, hub_files := f, requests := requests s1 @ [GET_MAG_CAL]\<rparr>"
    using save_mag_cal_state by blast
  have 4: "sent_inv s1 \<longrightarrow> sent_inv (snd (save_mag_cal E s1))" by (simp add: 3 sent_inv_def req_defs)
  show ?thesis
  proof (cases "mMagEnabled s \<or> mOrientEnabled s")
    case on: True
    with True assms 1 2 show ?thesis
      by (auto simp: compass_part_def Let_def case_prod_beta s1_def [symmetric] switch_mask_eq)
  next
    case off: False
    with True assms 1 have "s' = snd (save_mag_cal E s1)" "w' = w AND NOT (l4_masks E M_ECOMPASS)"
      by (auto simp: compass_part_def Let_def case_prod_beta s1_def [symmetric])
    with True off 1 2 3 4 show ?thesis by (auto simp: switch_mask_eq switches_def)
  qed
qed (use assms in \<open>auto simp: compass_part_def\<close>)

lemma updateGyroRate_spec:
  "switches (snd (updateGyroRate E s)) = switches s" "mEnabled (snd (updateGyroRate E s)) = mEnabled s"
  "mWakeEnabled (snd (updateGyroRate E s)) = mWakeEnabled s" "mEcompassDelay (snd (updateGyroRate E s)) = mEcompassDelay s"
  "mGyroDelay (snd (updateGyroRate E s)) = min_req_delay (gyro_delays s)"
  "sent_inv s \<Longrightarrow> sent_inv (snd (updateGyroRate E s))"
  by (auto simp: updateGyroRate_state Let_def switches_def sent_inv_def req_defs)

lemma updateEcompassRate_spec:
  "switches (snd (updateEcompassRate E s)) = switches s" "mEnabled (snd (updateEcompassRate E s)) = mEnabled s"
  "mWakeEnabled (snd (updateEcompassRate E s)) = mWakeEnabled s" "mGyroDelay (snd (updateEcompassRate E s)) = mGyroDelay s"
  "mEcompassDelay (snd (updateEcompassRate E s)) = min_req_delay (compass_delays s)"
  "sent_inv s \<Longrightarrow> sent_inv (snd (updateEcompassRate E s))"
  by (auto simp: updateEcompassRate_state Let_def switches_def sent_inv_def req_defs)

lemma sent_inv_main [simp]: "sent_inv s \<Longrightarrow> sent_inv (s\<lparr>requests := requests s @ [SET_SENSORS w], mEnabled := w\<rparr>)"
  by (simp add: sent_inv_def req_defs)

lemma sent_inv_wake [simp]: "sent_inv s \<Longrightarrow> sent_inv (s\<lparr>requests := requests s @ [SET_WAKESENSORS w], mWakeEnabled := w\<rparr>)"
  by (simp add: sent_inv_def req_defs)

lemma sent_inv_note: "sent_inv s \<Longrightarrow> sent_inv (note_switch h on s)"
  by (simp add: sent_inv_def note_switch_keeps)

lemma rates_inv_note:
  assumes "rates_inv s"
  shows "h \<notin> {ID_M, ID_O, ID_UNCALIB_MAG} \<Longrightarrow> mEcompassDelay (note_switch h on s) = min_req_delay (compass_delays (note_switch h on s))"
    "h \<notin> {ID_G, ID_UNCALIB_GYRO} \<Longrightarrow> mGyroDelay (note_switch h on s) = min_req_delay (gyro_delays (note_switch h on s))"
  using assms note_switch_delays [of h on s] by (simp_all add: rates_inv_def note_switch_keeps del: insert_iff)

lemma main_word_not_found: "\<not> main_found (feature E) h \<Longrightarrow> main_word E h on s = mEnabled s"
  by (auto simp: main_found_def main_word_def Let_def main_mask_def)

lemma enable_main_spec:
  assumes "rates_inv s"
  shows "switches (snd (enable_main E h on s)) = switches (note_switch h on s)
    \<and> mEnabled (snd (enable_main E h on s)) = main_word E h on s
    \<and> mWakeEnabled (snd (enable_main E h on s)) = mWakeEnabled s
    \<and> rates_inv (snd (enable_main E h on s)) \<and> (sent_inv s \<longrightarrow> sent_inv (snd (enable_main E h on s)))"
proof -
  define w where "w = (case main_mask (feature E) h of None \<Rightarrow> mEnabled s | Some m \<Rightarrow> switch_mask on (l4_masks E m) (mEnabled s))"
  define s0 where "s0 = note_switch h on s"
  obtain err w' s1 where c: "compass_part E h w s0 = (err, w', s1)" by (metis prod_cases3)
  define s2 where "s2 = (if h = ID_G \<or> h = ID_UNCALIB_GYRO then snd (updateGyroRate E s1) else s1)"
  note n = note_switch_keeps [where h = h and on = on and s = s, folded s0_def]
  note cs = compass_part_spec [OF c]
  have sw: "switches s2 = switches s0" "mEnabled s2 = mEnabled s" "mWakeEnabled s2 = mWakeEnabled s"
    using cs n by (simp_all add: s2_def updateGyroRate_spec)
  have w': "w' = main_word E h on s"
    using cs by (simp add: main_word_def Let_def w_def [symmetric] s0_def)
  have d1: "mEcompassDelay s1 = min_req_delay (compass_delays s1)" "mGyroDelay s1 = mGyroDelay s0"
      "gyro_delays s1 = gyro_delays s0"
    using cs rates_inv_note(1) [OF assms, of h on] switches_delays [of s1 s0] by (auto simp: s0_def)
  have r2: "rates_inv s2"
    using d1 rates_inv_note(2) [OF assms, of h on] switches_delays [OF updateGyroRate_spec(1), of E s1]
    by (auto simp: s2_def rates_inv_def updateGyroRate_spec s0_def)
  have t2: "sent_inv s \<longrightarrow> sent_inv s2"
    using cs sent_inv_note [of s h on] updateGyroRate_spec(6) [of s1 E] by (auto simp: s2_def s0_def)
  have r3: "rates_inv (s2\<lparr>requests := rq, mEnabled := v\<rparr>)" for rq v
    using r2 by (simp add: rates_inv_def compass_delays_def gyro_delays_def)
  have e: "snd (enable_main E h on s)
      = (if main_found (feature E) h \<and> w' \<noteq> mEnabled s2
         then s2\<lparr>requests := requests s2 @ [SET_SENSORS w'], mEnabled := w'\<rparr> else s2)"
    by (simp add: enable_main_def Let_def w_def [symmetric] s0_def [symmetric] c s2_def case_prod_beta)
  show ?thesis
  proof (cases "main_found (feature E) h \<and> w' \<noteq> mEnabled s2")
    case True
    then show ?thesis
      using sw w' r3 t2 by (simp only: e if_True) (simp add: s0_def switches_def)
  next
    case False
    moreover from False have "mEnabled s2 = w'" using sw w' main_word_not_found [of E h on s] by auto
    ultimately show ?thesis using sw w' r2 t2 by (simp only: e if_False) (simp add: s0_def)
  qed
qed

lemma enable_wake_spec:
  "switches (snd (enable_wake E h on (err, s))) = switches s \<and> mEnabled (snd (enable_wake E h on (err, s))) = mEnabled s
    \<and> mWakeEnabled (snd (enable_wake E h on (err, s))) = (case wake_word E h on s of None \<Rightarrow> mWakeEnabled s | Some w \<Rightarrow> w)
    \<and> (rates_inv s \<longrightarrow> rates_inv (snd (enable_wake E h on (err, s))))
    \<and> (sent_inv s \<longrightarrow> sent_inv (snd (enable_wake E h on (err, s))))"
  by (simp add: enable_wake_def Let_def case_prod_beta switches_def rates_inv_def compass_delays_def gyro_delays_def
      split: option.split)

text \<open>\<open>setEnable\<close> on a sensor of the table.\<close>

lemma setEnable_state:
  assumes "mIdToSensor E i = Some e" and "rates_inv s" and s': "s' = snd (l4_setEnable E i en s)"
  shows "l4_on E s' = l4_on E (mark_enabled E (handle e) (en \<noteq> 0) s)"
    and "fst (switches s') = fst (switches (note_switch (handle e) (en \<noteq> 0) s))"
    and "mEnabled s' = main_word E (handle e) (en \<noteq> 0) s"
    and "mWakeEnabled s' = (case wake_word E (handle e) (en \<noteq> 0) s of None \<Rightarrow> mWakeEnabled s | Some w \<Rightarrow> w)"
    and "rates_inv s'" and "sent_inv s \<Longrightarrow> sent_inv s'"
proof -
  let ?h = "handle e" and ?on = "en \<noteq> 0"
  obtain err s1 where m: "enable_main E ?h ?on s = (err, s1)" by fastforce
  obtain err' s2 where w: "enable_wake E ?h ?on (err, s1) = (err', s2)" by fastforce
  have e: "s' = mark_enabled E ?h ?on s2" using assms(1) m w s' by (simp add: l4_setEnable_def Let_def)
  note ms = enable_main_spec [OF assms(2), of E ?h ?on, unfolded m snd_conv]
  note ws = enable_wake_spec [of E ?h ?on err s1, unfolded w snd_conv]
  have h: "mEnabledHandles s2 = mEnabledHandles s" "mEnabledHandles s1 = mEnabledHandles s"
    using ms ws by (simp_all add: switches_def note_switch_keeps)
  have "isHandleEnabled E s1 = isHandleEnabled E s" "mWakeEnabled s1 = mWakeEnabled s"
    using ms h by (simp_all add: fun_eq_iff isHandleEnabled_def)
  then have ww: "wake_word E ?h ?on s1 = wake_word E ?h ?on s" by (simp only: wake_word_def)
  show "l4_on E s' = l4_on E (mark_enabled E ?h ?on s)"
    by (simp add: l4_on_def isHandleEnabled_def e mark_enabled_def h)
  show "fst (switches s') = fst (switches (note_switch ?h ?on s))"
    using ms ws by (simp add: e mark_enabled_def switches_def)
  show "mEnabled s' = main_word E ?h ?on s" "mWakeEnabled s' = (case wake_word E ?h ?on s of None \<Rightarrow> mWakeEnabled s | Some w \<Rightarrow> w)"
    using ms ws ww by (simp_all add: e mark_enabled_def split: option.split)
  show "rates_inv s'" using ms ws by (simp add: e mark_enabled_def rates_inv_def compass_delays_def gyro_delays_def)
  have "sent_inv s' = sent_inv s2" by (simp add: e mark_enabled_def sent_inv_def)
  then show "sent_inv s \<Longrightarrow> sent_inv s'" using ms ws by simp
qed

subsection \<open>The invariant\<close>

definition toggled :: "l4_handle \<Rightarrow> bool \<Rightarrow> l4_handle set \<Rightarrow> l4_handle set" where
  "toggled h on H = (if on then insert h H else H - {h})"

lemma toggled_iff: "k \<in> toggled h on H \<longleftrightarrow> (if k = h then on else k \<in> H)"
  by (simp add: toggled_def)

text \<open>No two sensors share a bit, but for the two glance gestures.\<close>

definition bit_owner :: "l4_mask \<Rightarrow> l4_handle" where
  "bit_owner m =
     (case m of
        M_ACCEL \<Rightarrow> ID_A | M_GYRO \<Rightarrow> ID_G | M_PRESSURE \<Rightarrow> ID_PR | M_ALS \<Rightarrow> ID_L | M_LIN_ACCEL \<Rightarrow> ID_LA
      | M_GRAVITY \<Rightarrow> ID_GRAVITY | M_DISP_ROTATE \<Rightarrow> ID_DR | M_IR_GESTURE \<Rightarrow> ID_IR_GESTURE | M_IR_RAW \<Rightarrow> ID_IR_RAW
      | M_IR_OBJECT \<Rightarrow> ID_IR_OBJECT | M_UNCALIB_GYRO \<Rightarrow> ID_UNCALIB_GYRO | M_UNCALIB_MAG \<Rightarrow> ID_UNCALIB_MAG
      | M_STEP_COUNTER \<Rightarrow> ID_STEP_COUNTER | M_STEP_DETECTOR \<Rightarrow> ID_STEP_DETECTOR | M_QUAT_6AXIS \<Rightarrow> ID_QUAT_6AXIS
      | M_QUAT_9AXIS \<Rightarrow> ID_QUAT_9AXIS | M_GAME_RV \<Rightarrow> ID_GAME_RV | M_MOTO_MOD_CURRENT_DRAIN \<Rightarrow> ID_MOTO_MOD_CURRENT_DRAIN
      | M_SENSOR_SYNC \<Rightarrow> ID_SENSOR_SYNC | M_PROXIMITY \<Rightarrow> ID_P | M_FLATUP \<Rightarrow> ID_FU | M_FLATDOWN \<Rightarrow> ID_FD
      | M_STOWED \<Rightarrow> ID_S | M_CAMERA_ACT \<Rightarrow> ID_CA | M_SIM \<Rightarrow> ID_SIM | M_CHOPCHOP \<Rightarrow> ID_CHOPCHOP_GESTURE
      | M_LIFT \<Rightarrow> ID_LIFT_GESTURE | M_STATIONARY_DETECT \<Rightarrow> ID_STATIONARY_DETECT | _ \<Rightarrow> ID_GLANCE_GESTURE)"

lemma main_mask_owner: "main_mask on h = Some m \<Longrightarrow> bit_owner m = h \<and> m \<in> main_bits \<and> m \<noteq> M_ECOMPASS"
  by (cases h) (auto simp: main_mask_def bit_owner_def main_bits_def split: if_splits)

lemma wake_mask_owner:
  "l4_wake_mask on h = Some m \<Longrightarrow> (bit_owner m = h \<or> m = M_GLANCE \<and> h = ID_MOTO_GLANCE_GESTURE)
    \<and> m \<in> wake_bits \<and> m \<noteq> M_MOTION_DETECT \<and> (m = M_GLANCE \<longrightarrow> h = ID_GLANCE_GESTURE \<or> h = ID_MOTO_GLANCE_GESTURE)"
  by (cases h) (auto simp: l4_wake_mask_def bit_owner_def wake_bits_def split: if_splits)

lemma main_wanted_toggled:
  "main_wanted on (toggled h en H) m =
     (if m = M_ECOMPASS then ID_M \<in> toggled h en H \<or> ID_O \<in> toggled h en H
      else if main_mask on h = Some m then en else main_wanted on H m)"
  using main_mask_owner [of on _ m] by (auto simp: main_wanted_def toggled_iff Bex_def) metis+

lemma flags_toggled:
  assumes "flags_inv E s" and on: "l4_on E s' = toggled h en (l4_on E s)"
    and "fst (switches s') = fst (switches (note_switch h en s))"
  shows "flags_inv E s'"
  using assms(1,3) unfolding flags_inv_def on
  by (cases h) (simp_all add: switches_def note_switch_def Let_def toggled_iff)

lemma masks_disjoint:
  assumes "masks_ok M" and "m \<noteq> k"
  shows "m \<in> main_bits \<Longrightarrow> k \<in> main_bits \<Longrightarrow> M m AND M k = 0" "m \<in> wake_bits \<Longrightarrow> k \<in> wake_bits \<Longrightarrow> M m AND M k = 0"
  using assms by (simp_all add: masks_ok_def)

lemma main_word_bits:
  assumes ok: "masks_ok (l4_masks E)" and inv: "bits_inv E s" "flags_inv E s" and m: "m \<in> main_bits"
  shows "main_word E h en s AND l4_masks E m
    = (if main_wanted (feature E) (toggled h en (l4_on E s)) m then l4_masks E m else 0)"
proof -
  define w where "w = (case main_mask (feature E) h of None \<Rightarrow> mEnabled s | Some m \<Rightarrow> switch_mask en (l4_masks E m) (mEnabled s))"
  have old: "mEnabled s AND l4_masks E m = (if main_wanted (feature E) (l4_on E s) m then l4_masks E m else 0)"
    using inv(1) m by (simp add: bits_inv_def)
  have w: "w AND l4_masks E m = (if main_mask (feature E) h = Some m then if en then l4_masks E m else 0 else mEnabled s AND l4_masks E m)"
    using masks_disjoint(1) [OF ok] main_mask_owner m by (auto simp: w_def switch_mask_other split: option.split)
  have ec: "M_ECOMPASS \<in> main_bits" by (simp add: main_bits_def)
  have mw: "main_word E h en s = (if h = ID_M \<or> h = ID_O \<or> h = ID_UNCALIB_MAG
      then switch_mask (mMagEnabled (note_switch h en s) \<or> mOrientEnabled (note_switch h en s)) (l4_masks E M_ECOMPASS) w else w)"
    by (simp only: main_word_def Let_def w_def)
  show ?thesis
  proof (cases "m = M_ECOMPASS")
    case False
    then have "main_word E h en s AND l4_masks E m = w AND l4_masks E m"
      using masks_disjoint(1) [OF ok _ ec m] by (simp add: mw switch_mask_other)
    with False w old show ?thesis by (simp add: main_wanted_toggled)
  next
    case True
    note ecm = this
    show ?thesis
    proof (cases "h = ID_M \<or> h = ID_O \<or> h = ID_UNCALIB_MAG")
      case True
      have "mMagEnabled (note_switch h en s) = (ID_M \<in> toggled h en (l4_on E s))"
        "mOrientEnabled (note_switch h en s) = (ID_O \<in> toggled h en (l4_on E s))"
        using True by (elim disjE; cases en; simp add: note_switch_def toggled_iff inv(2) [unfolded flags_inv_def])+
      with True ecm show ?thesis by (simp add: mw main_wanted_toggled)
    next
      case False
      then have "main_word E h en s = w" by (simp add: mw)
      with w old False ecm main_mask_owner show ?thesis by (auto simp: main_wanted_def toggled_iff)
    qed
  qed
qed

lemma wake_word_eq:
  "(case wake_word E h en s of None \<Rightarrow> mWakeEnabled s | Some w \<Rightarrow> w) =
     (let w = mWakeEnabled s; M = l4_masks E in
      if h = ID_GLANCE_GESTURE then (if isHandleEnabled E s ID_MOTO_GLANCE_GESTURE then w else switch_mask en (M M_GLANCE) w)
      else if h = ID_MOTO_GLANCE_GESTURE
      then switch_mask en (M M_MOTION_DETECT)
             (if isHandleEnabled E s ID_GLANCE_GESTURE then w else switch_mask en (M M_GLANCE) w)
      else if h = ID_MOTION_DETECT then switch_mask en (M M_MOTION_DETECT) w
      else case l4_wake_mask (feature E) h of None \<Rightarrow> w | Some m \<Rightarrow> switch_mask en (M m) w)"
  by (cases h) (simp_all add: wake_word_def l4_wake_mask_def switch_mask_eq Let_def)

lemma wake_wanted_toggled:
  assumes "m \<noteq> M_GLANCE"
  shows "wake_wanted on (toggled h en H) m = (if l4_wake_mask on h = Some m then en else wake_wanted on H m)"
  using wake_mask_owner [of on _ m] assms by (auto simp: wake_wanted_def toggled_iff Bex_def) metis+

lemma wake_wanted_glance: "wake_wanted on H M_GLANCE \<longleftrightarrow> ID_GLANCE_GESTURE \<in> H \<or> ID_MOTO_GLANCE_GESTURE \<in> H"
proof -
  have "l4_wake_mask on ID_GLANCE_GESTURE = Some M_GLANCE" "l4_wake_mask on ID_MOTO_GLANCE_GESTURE = Some M_GLANCE"
    by (simp_all add: l4_wake_mask_def)
  moreover have "l4_wake_mask on h = Some M_GLANCE \<Longrightarrow> h = ID_GLANCE_GESTURE \<or> h = ID_MOTO_GLANCE_GESTURE" for h
    using wake_mask_owner by blast
  ultimately show ?thesis by (auto simp: wake_wanted_def)
qed

lemma wake_word_bits:
  assumes ok: "masks_ok (l4_masks E)" and inv: "bits_inv E s" and m: "m \<in> wake_bits - {M_MOTION_DETECT}"
  shows "(case wake_word E h en s of None \<Rightarrow> mWakeEnabled s | Some w \<Rightarrow> w) AND l4_masks E m
    = (if wake_wanted (feature E) (toggled h en (l4_on E s)) m then l4_masks E m else 0)"
proof -
  have old: "mWakeEnabled s AND l4_masks E m = (if wake_wanted (feature E) (l4_on E s) m then l4_masks E m else 0)"
    using inv m by (simp add: bits_inv_def)
  have in_bits: "M_MOTION_DETECT \<in> wake_bits" "M_GLANCE \<in> wake_bits" by (simp_all add: wake_bits_def)
  have md: "switch_mask en (l4_masks E M_MOTION_DETECT) w AND l4_masks E m = w AND l4_masks E m" for w
    using masks_disjoint(2) [OF ok _ in_bits(1), of m] m by (intro switch_mask_other) auto
  have on: "isHandleEnabled E s k \<longleftrightarrow> k \<in> l4_on E s" for k by (simp add: l4_on_def)
  show ?thesis
  proof (cases "m = M_GLANCE")
    case True
    have other: "l4_wake_mask (feature E) h \<noteq> Some M_GLANCE" if "h \<noteq> ID_GLANCE_GESTURE" "h \<noteq> ID_MOTO_GLANCE_GESTURE"
      using wake_mask_owner [of "feature E" h M_GLANCE] that by auto
    have sw: "switch_mask en (l4_masks E k) w AND l4_masks E M_GLANCE = w AND l4_masks E M_GLANCE"
      if "l4_wake_mask (feature E) h = Some k" "k \<noteq> M_GLANCE" for k w
      using masks_disjoint(2) [OF ok _ _ in_bits(2), of k] wake_mask_owner [OF that(1)] that(2) by (simp add: switch_mask_other)
    from True old md sw other show ?thesis
      by (auto simp: wake_word_eq Let_def on wake_wanted_glance toggled_iff split: option.split)
  next
    case False
    have gl: "switch_mask en (l4_masks E M_GLANCE) w AND l4_masks E m = w AND l4_masks E m" for w
      using masks_disjoint(2) [OF ok _ in_bits(2), of m] m False by (intro switch_mask_other) auto
    have sw: "switch_mask en (l4_masks E k) w AND l4_masks E m = (if k = m then if en then l4_masks E m else 0 else w AND l4_masks E m)"
      if "l4_wake_mask (feature E) h = Some k" for k w
      using masks_disjoint(2) [OF ok, of k m] wake_mask_owner [OF that] m by (auto simp: switch_mask_other)
    have glances: "l4_wake_mask (feature E) ID_GLANCE_GESTURE = Some M_GLANCE"
      "l4_wake_mask (feature E) ID_MOTO_GLANCE_GESTURE = Some M_GLANCE" "l4_wake_mask (feature E) ID_MOTION_DETECT = None"
      by (simp_all add: l4_wake_mask_def)
    from False old md gl sw glances show ?thesis
      by (auto simp: wake_word_eq Let_def wake_wanted_toggled split: option.split)
  qed
qed

lemma wake_word_motion:
  assumes ok: "masks_ok (l4_masks E)" and inv: "motion_bit_inv E s" and on: "l4_on E s' = toggled h en (l4_on E s)"
    and w: "mWakeEnabled s' = (case wake_word E h en s of None \<Rightarrow> mWakeEnabled s | Some w \<Rightarrow> w)"
  shows "motion_bit_inv E s'"
proof -
  let ?M = "l4_masks E"
  have other: "switch_mask en (?M k) w AND ?M M_MOTION_DETECT = w AND ?M M_MOTION_DETECT"
    if "k \<in> wake_bits" "k \<noteq> M_MOTION_DETECT" for k w
    using masks_disjoint(2) [OF ok that(2) that(1)] by (intro switch_mask_other) (simp add: wake_bits_def)
  have gl: "M_GLANCE \<in> wake_bits" by (simp add: wake_bits_def)
  have "mWakeEnabled s' AND ?M M_MOTION_DETECT
      = (if h = ID_MOTION_DETECT \<or> h = ID_MOTO_GLANCE_GESTURE then if en then ?M M_MOTION_DETECT else 0
         else mWakeEnabled s AND ?M M_MOTION_DETECT)"
    using wake_mask_owner [of "feature E" h] by (auto simp: w wake_word_eq Let_def other gl split: option.split)
  with inv show ?thesis by (auto simp: motion_bit_inv_def on toggled_iff Let_def)
qed

lemma setEnable_keeps_l4_inv:
  assumes ok: "handles_ok E" "masks_ok (l4_masks E)" and inv: "l4_inv E s"
  shows "l4_inv E (snd (l4_setEnable E i en s))"
proof (cases "mIdToSensor E i")
  case None
  with inv show ?thesis by (simp add: l4_setEnable_def)
next
  case (Some e)
  define s' where "s' = snd (l4_setEnable E i en s)"
  have parts: "flags_inv E s" "bits_inv E s" "rates_inv s" "sent_inv s" using inv by (simp_all add: l4_inv_def)
  note st = setEnable_state [OF Some parts(3) s'_def]
  have on: "l4_on E s' = toggled (handle e) (en \<noteq> 0) (l4_on E s)"
    by (simp only: st(1) l4_on_mark [OF ok(1)] toggled_def)
  have "bits_inv E s'"
    unfolding bits_inv_def
    using main_word_bits [OF ok(2) parts(2,1), of _ "handle e" "en \<noteq> 0"] wake_word_bits [OF ok(2) parts(2), of _ "handle e" "en \<noteq> 0"]
      wake_word_motion [OF ok(2) _ on st(4)] parts(2) by (simp add: on st(3,4) bits_inv_def)
  moreover have "flags_inv E s'" by (rule flags_toggled [OF parts(1) on st(2)])
  ultimately show ?thesis using st(5) st(6) [OF parts(4)] by (simp add: l4_inv_def s'_def)
qed

text \<open>What \<open>batch\<close> and \<open>flush\<close> move: only requested rates.\<close>

definition kept :: "'f l4_hub \<Rightarrow> 32 word \<times> 32 word \<times> bool list \<times> 64 word" where
  "kept s = (mEnabled s, mWakeEnabled s, fst (switches s), snd (snd (switches s)))"

lemma kept_inv:
  assumes "kept s' = kept s" and "flags_inv E s" and "bits_inv E s"
  shows "flags_inv E s' \<and> bits_inv E s'"
proof -
  have "l4_on E s' = l4_on E s" using assms(1) by (simp add: kept_def switches_def l4_on_def isHandleEnabled_def)
  with assms show ?thesis by (simp add: kept_def switches_def flags_inv_def bits_inv_def motion_bit_inv_def)
qed

lemma write_rate_keeps:
  "snd (write_rate E p d s) = s\<lparr>rates := rates s @ (if rate_write E p (ucast d) = 1 then [(p, ucast d)] else [])\<rparr>"
  by (simp add: write_rate_def Let_def)

lemma batch_case_kept: "kept (snd (batch_case E h d t s)) = kept s"
  by (cases h) (simp_all add: batch_case_def kept_def switches_def write_rate_keeps)

lemma batch_case_delays:
  "mEcompassDelay (snd (batch_case E h d t s)) = mEcompassDelay s"
  "mGyroDelay (snd (batch_case E h d t s)) = mGyroDelay s"
  "h \<notin> {ID_M, ID_O, ID_UNCALIB_MAG} \<Longrightarrow> compass_delays (snd (batch_case E h d t s)) = compass_delays s"
  "h \<notin> {ID_G, ID_UNCALIB_GYRO} \<Longrightarrow> gyro_delays (snd (batch_case E h d t s)) = gyro_delays s"
  by (cases h; simp add: batch_case_def write_rate_keeps compass_delays_def gyro_delays_def)+

lemma batch_case_sent: "sent_inv s \<Longrightarrow> sent_inv (snd (batch_case E h d t s))"
  by (cases h) (simp_all add: batch_case_def write_rate_keeps sent_inv_def req_defs)

lemma batch_keeps_l4_inv:
  assumes inv: "l4_inv E s"
  shows "l4_inv E (snd (l4_batch E i ns t s))"
proof (cases "ns < 0 \<or> mIdToSensor E i = None")
  case True
  with inv show ?thesis by (auto simp: l4_batch_def)
next
  case False
  then obtain e where e: "mIdToSensor E i = Some e" by auto
  let ?h = "handle e"
  define s1 where "s1 = snd (batch_case E ?h (period_ms ns) (timeout_ms t) s)"
  define s2 where "s2 = (if ?h = ID_M \<or> ?h = ID_O \<or> ?h = ID_UNCALIB_MAG then snd (updateEcompassRate E s1)
    else if ?h = ID_G \<or> ?h = ID_UNCALIB_GYRO then snd (updateGyroRate E s1) else s1)"
  have s2: "snd (l4_batch E i ns t s) = s2"
    using False by (simp add: l4_batch_def Let_def e case_prod_beta s1_def s2_def)
  have parts: "flags_inv E s" "bits_inv E s" "rates_inv s" "sent_inv s" using inv by (simp_all add: l4_inv_def)
  note upd = updateEcompassRate_spec [where E = E and s = s1] updateGyroRate_spec [where E = E and s = s1]
  have "kept s2 = kept s"
    using batch_case_kept [of E ?h "period_ms ns" "timeout_ms t" s] upd by (simp add: s2_def s1_def [symmetric] kept_def)
  note fb = kept_inv [OF this parts(1,2)]
  have "sent_inv s2" using batch_case_sent [OF parts(4)] upd by (simp add: s2_def s1_def)
  moreover have "rates_inv s2"
    using batch_case_delays [where E = E and h = ?h and s = s, of "period_ms ns" "timeout_ms t", folded s1_def] parts(3)
      switches_delays [OF upd(1)] switches_delays [OF upd(7)] upd
    by (auto simp: s2_def rates_inv_def)
  ultimately show ?thesis using fb by (simp add: s2 l4_inv_def)
qed

lemma flush_keeps_l4_inv:
  assumes "l4_inv E s"
  shows "l4_inv E (snd (l4_flush E i s))"
proof -
  have k: "kept (s\<lparr>requests := r\<rparr>) = kept s" for r by (simp add: kept_def switches_def)
  have "rates_inv (s\<lparr>requests := r\<rparr>) = rates_inv s" for r
    by (simp add: rates_inv_def compass_delays_def gyro_delays_def)
  moreover have "sent_inv (s\<lparr>requests := requests s @ [SET_FLUSH i]\<rparr>) = sent_inv s" by (simp add: sent_inv_def req_defs)
  ultimately have "l4_inv E (s\<lparr>requests := requests s @ [SET_FLUSH i]\<rparr>)"
    using assms kept_inv [OF k, where E = E] by (simp add: l4_inv_def)
  with assms show ?thesis by (simp add: l4_flush_def split: option.split)
qed

end
