(* ===== verification/L4_Events.thy ===== *)
theory L4_Events
  imports L4_Enable
begin

unbundle bit_operations_syntax

text \<open>
  The driver of the L4 sensor hub, third part (\<open>motosh_hal/HubSensors.cpp\<close>): \<open>readEvents\<close>, which turns the messages
  of the hub into events, with the queue of events that did not fit, the one-shot sensors it switches off, the step
  counter, the saved calibrations and the reports of resets.
\<close>

section \<open>Messages\<close>

text \<open>\<open>struct motosh_android_sensor_data\<close>. A \<open>read\<close> may give a message or fail with an \<open>errno\<close>.\<close>

record l4_message =
  m_type :: l4_dt
  m_data :: "nat \<Rightarrow> 8 word"
  m_status :: "8 word"
  m_time :: int

datatype l4_read = Got_Message l4_message | Got_Errno int

definition STM16TOH :: "l4_message \<Rightarrow> nat \<Rightarrow> int" where
  "STM16TOH m i = sint (word_cat (m_data m i) (m_data m (i + 1)) :: 16 word)"

definition STM32TOH :: "l4_message \<Rightarrow> nat \<Rightarrow> int" where
  "STM32TOH m i = sint (word_cat (word_cat (m_data m i) (m_data m (i + 1)) :: 16 word)
     (word_cat (m_data m (i + 2)) (m_data m (i + 3)) :: 16 word) :: 32 word)"

section \<open>Unit conversions\<close>

definition CONVERT_A :: "'f l4_env \<Rightarrow> 'f" where
  "CONVERT_A E = f_div (flt E) (GRAVITY_EARTH E) (f_lit (flt E) 2048 1)"
definition CONVERT_GRAVITY :: "'f l4_env \<Rightarrow> 'f" where
  "CONVERT_GRAVITY E = f_div (flt E) (GRAVITY_EARTH E) (f_of_int (flt E) 32767)"
definition CONVERT_M :: "'f l4_env \<Rightarrow> 'f" where
  "CONVERT_M E = f_div (flt E) (f_lit (flt E) 1 1) (f_lit (flt E) 8 1)"
definition CONVERT_O :: "'f l4_env \<Rightarrow> 'f" where
  "CONVERT_O E = f_div (flt E) (f_lit (flt E) 1 1) (f_lit (flt E) 64 1)"
definition CONVERT_G :: "'f l4_env \<Rightarrow> 'f" where
  "CONVERT_G E = f_mul (flt E) (f_div (flt E) (f_lit (flt E) 2000 1) (f_lit (flt E) 32767 1)) (rad_per_degree E)"
definition CONVERT_RV :: "'f l4_env \<Rightarrow> 'f" where
  "CONVERT_RV E = f_div (flt E) (f_lit (flt E) 1 1) (f_lit (flt E) 32767 1)"
definition RV_ACCURACY :: "'f l4_env \<Rightarrow> 'f" where
  "RV_ACCURACY E = f_mul (flt E) (f_lit (flt E) 5 1) (f_div (flt E) (f_lit (flt E) 314159 100000) (f_lit (flt E) 180 1))"
definition PROX_UNCOVERED :: "'f farith \<Rightarrow> 'f" where "PROX_UNCOVERED A = f_lit A 100 1"
definition PROX_COVERED :: "'f farith \<Rightarrow> 'f" where "PROX_COVERED A = f_lit A 3 1"
definition PROX_SATURATED :: "'f farith \<Rightarrow> 'f" where "PROX_SATURATED A = f_lit A 1 1"
definition FLAT_NOTDETECTED :: "'f farith \<Rightarrow> 'f" where "FLAT_NOTDETECTED A = f_lit A 0 1"
definition FLAT_DETECTED :: "'f farith \<Rightarrow> 'f" where "FLAT_DETECTED A = f_lit A 1 1"
definition DISP_FLAT :: "8 word" where "DISP_FLAT = 0x10"
definition DISP_UNKNOWN :: "'f farith \<Rightarrow> 'f" where "DISP_UNKNOWN A = f_lit A (- 1) 1"

definition l4_scaled :: "'f l4_env \<Rightarrow> 'f \<Rightarrow> l4_message \<Rightarrow> nat \<Rightarrow> 'f" where
  "l4_scaled E unit m i = f_mul (flt E) (f_of_int (flt E) (STM16TOH m i)) unit"

text \<open>The members of the event's union: three axes, with bias, a rotation vector.\<close>

definition vec3 :: "'f l4_env \<Rightarrow> 'f \<Rightarrow> l4_message \<Rightarrow> vec_status \<Rightarrow> 'f payload" where
  "vec3 E unit m st = Vector (l4_scaled E unit m 0) (l4_scaled E unit m 2) (l4_scaled E unit m 4) st"

definition biased :: "'f l4_env \<Rightarrow> 'f \<Rightarrow> l4_message \<Rightarrow> 'f payload" where
  "biased E unit m = Uncalibrated (l4_scaled E unit m 0) (l4_scaled E unit m 2) (l4_scaled E unit m 4)
     (l4_scaled E unit m 6) (l4_scaled E unit m 8) (l4_scaled E unit m 10)"

definition rotation :: "'f l4_env \<Rightarrow> l4_message \<Rightarrow> 'f payload" where
  "rotation E m = Data (map (l4_scaled E (CONVERT_RV E) m) [0, 2, 4, 6] @ [RV_ACCURACY E])"

definition l4_out :: "'f l4_env \<Rightarrow> l4_handle \<Rightarrow> l4_type \<Rightarrow> l4_message \<Rightarrow> 'f payload \<Rightarrow> 'f l4_event" where
  "l4_out E h ty m p =
     \<lparr>version = SENSORS_EVENT_T_SIZE, sensor = SENSORS_HANDLE_BASE + int (handle_code E h), etype = ty,
      timestamp = m_time m, payload = p\<rparr>"

section \<open>Reports\<close>

definition DROPBOX_FLAGS :: int where "DROPBOX_FLAGS = 6"

text \<open>The path is cut to the 127 characters that fit its buffer.\<close>

definition open_dropbox_file :: "'f l4_env \<Rightarrow> string \<Rightarrow> int \<Rightarrow> path option" where
  "open_dropbox_file E ts flags =
     (let p = take 127 (''/data/system/dropbox-add/SENSOR_HUB:'' @ show_int flags @ '':'' @ show_int (int (hub_pid E)) @ ''-'' @ ts)
      in if fopen_fails E p then None else Some p)"

definition two_digits :: "int \<Rightarrow> string" where
  "two_digits i = (if 0 \<le> i \<and> i < 10 then ''0'' @ show_int i else show_int i)"

definition line_end :: string where "line_end = [CHR 0x0A]"

definition capture_dump :: "'f l4_env \<Rightarrow> string \<Rightarrow> int \<Rightarrow> 'f l4_hub \<Rightarrow> 'f l4_hub" where
  "capture_dump E ts code s =
     (case open_dropbox_file E ts DROPBOX_FLAGS of
        None \<Rightarrow> s
      | Some p \<Rightarrow>
          s\<lparr>dumps := dumps s @ [(p,
               ''timestamp:'' @ ts @ line_end @ ''reason:'' @ two_digits code @ line_end
               @ concat (map (\<lambda>i. ''['' @ show_int (int i) @ '']:'' @ show_int (uint (mErrorCnt s ! i)) @ line_end)
                   [0..<ERROR_TYPES + 1]))],
            mErrorCnt := replicate (ERROR_TYPES + 1) 0\<rparr>)"

definition DAY :: int where "DAY = 24 * 60 * 60"

definition count_error :: "nat \<Rightarrow> 'f l4_hub \<Rightarrow> 'f l4_hub" where
  "count_error i s = s\<lparr>mErrorCnt := (mErrorCnt s)[i := mErrorCnt s ! i + 1]\<rparr>"

text \<open>The messages that are only counted: at most once a day the counts are dumped. The dump is skipped when the local
  time cannot be told.\<close>

definition unsupported :: "l4_dt \<Rightarrow> bool" where
  "unsupported ty \<longleftrightarrow> ty \<in> {DT_PRESSURE, DT_TEMP, DT_DOCK, DT_NFC, DT_RESET}"

definition on_unsupported :: "'f l4_env \<Rightarrow> l4_message \<Rightarrow> 'f l4_hub \<Rightarrow> 'f l4_hub" where
  "on_unsupported E m s =
     (let c = unat (m_data m 0);
          s1 = (if m_type m = DT_RESET then if 1 \<le> c \<and> c \<le> ERROR_TYPES then count_error c s else s else count_error 0 s);
          t = time_now E (ticks s1);
          s2 = s1\<lparr>ticks := ticks s1 + 1\<rparr>
      in if sent_bug2go_sec s2 = 0 \<or> t - sent_bug2go_sec s2 > DAY
         then (case time_text E t of None \<Rightarrow> s2 | Some ts \<Rightarrow> capture_dump E ts (dt_code E (m_type m)) s2)
              \<lparr>sent_bug2go_sec := t\<rparr>
         else s2)"

section \<open>One message\<close>

definition logAlsEvent :: "'f l4_env \<Rightarrow> int \<Rightarrow> int \<Rightarrow> 'f l4_hub \<Rightarrow> 'f l4_hub" where
  "logAlsEvent E lux ts s =
     (let luxDelta = \<bar>lux - last_logged_val s\<bar>
      in if last_logged_val s = - 1
            \<or> above_15_percent E luxDelta (last_logged_val s) \<and> luxDelta \<ge> 5 \<and> ts - last_logged_ts_ns s \<ge> 1000000000
         then s\<lparr>last_logged_val := lux, last_logged_ts_ns := ts\<rparr> else s)"

definition l4_steps :: "l4_message \<Rightarrow> 32 word" where
  "l4_steps m = push_bit 24 (ucast (m_data m 0)) OR push_bit 16 (ucast (m_data m 1))
     OR push_bit 8 (ucast (m_data m 2)) OR ucast (m_data m 3)"

definition l4_on_steps :: "'f l4_env \<Rightarrow> l4_message \<Rightarrow> 'f l4_hub \<Rightarrow> 'f l4_hub \<times> 'f l4_event list" where
  "l4_on_steps E m s =
     (let stepcount = l4_steps m;
          s1 = (if stepcount + step_offset s < last_stepcount s then s\<lparr>step_offset := last_stepcount s\<rparr> else s);
          s2 = s1\<lparr>last_stepcount := stepcount + step_offset s1\<rparr>
      in (s2, [l4_out E ID_STEP_COUNTER SENSOR_TYPE_STEP_COUNTER m (Step_Count (ucast (last_stepcount s2)))]))"

definition switch_off :: "'f l4_env \<Rightarrow> l4_handle \<Rightarrow> 'f l4_hub \<Rightarrow> 'f l4_hub" where
  "switch_off E h s = snd (l4_setEnable E (int (handle_code E h)) 0 s)"

text \<open>A glance may be reported twice. \<open>room\<close> is how many events still fit the caller's buffer: the second one is kept
  in the queue when the first took the last place.\<close>

definition l4_on_glance :: "'f l4_env \<Rightarrow> int \<Rightarrow> l4_message \<Rightarrow> 'f l4_hub \<Rightarrow> 'f l4_hub \<times> 'f l4_event list" where
  "l4_on_glance E room m s =
     (let A = flt E; g = f_of_int A (STM16TOH m 0); z = f_lit A 0 1;
          (s1, ev1) =
            (if isHandleEnabled E s ID_MOTO_GLANCE_GESTURE
             then (switch_off E ID_MOTO_GLANCE_GESTURE s,
                   [l4_out E ID_MOTO_GLANCE_GESTURE SENSOR_TYPE_MOTO_GLANCE_GESTURE m (Data [g, z, z])])
             else (s, []))
      in if isHandleEnabled E s1 ID_GLANCE_GESTURE
         then
           let e = l4_out E ID_GLANCE_GESTURE SENSOR_TYPE_GLANCE_GESTURE m (Data [f_lit A 1 1, g, z]);
               (s2, ev2) = (if int (length ev1) < room then (s1, [e]) else (s1\<lparr>pendingEvents := pendingEvents s1 @ [e]\<rparr>, []))
           in (switch_off E ID_GLANCE_GESTURE s2, ev1 @ ev2)
         else (s1, ev1))"

definition l4_gyro_cal :: "'f l4_env \<Rightarrow> 'f l4_hub \<Rightarrow> 'f l4_hub" where
  "l4_gyro_cal E s =
     (let bytes = reply_cal E (requests s); (ret, s1) = l4_send E GET_GYRO_CAL s
      in if ret < 0 then s1 else write_cal E GYRO_CAL_FILE (GYRO_CAL_SIZE E) bytes (s1\<lparr>mGyroCal := bytes\<rparr>))"

definition l4_accel_cal :: "'f l4_env \<Rightarrow> 'f l4_hub \<Rightarrow> 'f l4_hub" where
  "l4_accel_cal E s =
     (let bytes = reply_cal E (requests s); (ret, s1) = l4_send E GET_ACCEL_CAL s
      in if ret < 0 then s1 else write_cal E ACCEL_CAL_FILE (ACCEL_CAL_SIZE E) bytes (s1\<lparr>mAccelCal := bytes\<rparr>))"

text \<open>The cases of the switch, in three groups. The messages that are only counted do not get here.\<close>

definition motion_case :: "'f l4_env \<Rightarrow> l4_message \<Rightarrow> 'f l4_hub \<Rightarrow> 'f l4_hub \<times> 'f l4_event list" where
  "motion_case E m s =
     (let A = flt E; b0 = m_data m 0; num = f_of_int A; on = feature E;
          one = (\<lambda>h ty p. [l4_out E h ty m p])
      in case m_type m of
        DT_FLUSH \<Rightarrow>
          (s, if hasSensor E (STM32TOH m 0)
              then [\<lparr>version = META_DATA_VERSION, sensor = 0, etype = SENSOR_TYPE_META_DATA, timestamp = 0,
                     payload = Flush_Complete (STM32TOH m 0)\<rparr>]
              else [])
      | DT_ACCEL \<Rightarrow> (s, one ID_A SENSOR_TYPE_ACCELEROMETER (vec3 E (CONVERT_A E) m SENSOR_STATUS_ACCURACY_HIGH))
      | DT_GYRO \<Rightarrow> (s, one ID_G SENSOR_TYPE_GYROSCOPE
          (Vector3 (l4_scaled E (CONVERT_G E) m 0) (l4_scaled E (CONVERT_G E) m 2) (l4_scaled E (CONVERT_G E) m 4)))
      | DT_UNCALIB_GYRO \<Rightarrow> (s, one ID_UNCALIB_GYRO SENSOR_TYPE_GYROSCOPE_UNCALIBRATED (biased E (CONVERT_G E) m))
      | DT_UNCALIB_MAG \<Rightarrow> (s, one ID_UNCALIB_MAG SENSOR_TYPE_MAGNETIC_FIELD_UNCALIBRATED (biased E (CONVERT_M E) m))
      | DT_QUAT_6AXIS \<Rightarrow> (s, one ID_QUAT_6AXIS SENSOR_TYPE_GEOMAGNETIC_ROTATION_VECTOR (rotation E m))
      | DT_QUAT_9AXIS \<Rightarrow> (s, one ID_QUAT_9AXIS SENSOR_TYPE_ROTATION_VECTOR (rotation E m))
      | DT_GAME_RV \<Rightarrow> (s, one ID_GAME_RV SENSOR_TYPE_GAME_ROTATION_VECTOR (rotation E m))
      | DT_STEP_COUNTER \<Rightarrow> if on F_PEDO then l4_on_steps E m s else (s, [])
      | DT_STEP_DETECTOR \<Rightarrow> (s, if on F_PEDO then one ID_STEP_DETECTOR SENSOR_TYPE_STEP_DETECTOR (Data [num (uint b0)]) else [])
      | _ \<Rightarrow> (s, []))"

definition ambient_case :: "'f l4_env \<Rightarrow> l4_message \<Rightarrow> 'f l4_hub \<Rightarrow> 'f l4_hub \<times> 'f l4_event list" where
  "ambient_case E m s =
     (let A = flt E; b0 = m_data m 0; num = f_of_int A; on = feature E;
          one = (\<lambda>h ty p. [l4_out E h ty m p])
      in case m_type m of
        DT_MAG \<Rightarrow> (s, one ID_M SENSOR_TYPE_MAGNETIC_FIELD (vec3 E (CONVERT_M E) m (Hub_Status (m_status m))))
      | DT_ORIENT \<Rightarrow> (s, one ID_O SENSOR_TYPE_ORIENTATION (vec3 E (CONVERT_O E) m (Hub_Status (m_status m))))
      | DT_ALS \<Rightarrow> (let lux = STM16TOH m 0 mod 65536
                   in (logAlsEvent E lux (m_time m) s, one ID_L SENSOR_TYPE_LIGHT (Scalar (num lux))))
      | DT_LIN_ACCEL \<Rightarrow> (s, if on F_LA then one ID_LA SENSOR_TYPE_LINEAR_ACCELERATION
                              (vec3 E (CONVERT_A E) m SENSOR_STATUS_ACCURACY_HIGH) else [])
      | DT_GRAVITY \<Rightarrow> (s, if on F_GR then one ID_GRAVITY SENSOR_TYPE_GRAVITY
                              (vec3 E (CONVERT_GRAVITY E) m SENSOR_STATUS_ACCURACY_HIGH) else [])
      | DT_DISP_ROTATE \<Rightarrow> (s, one ID_DR SENSOR_TYPE_DISPLAY_ROTATE
                             (Data [if b0 = DISP_FLAT then DISP_UNKNOWN A else num (uint b0)]))
      | DT_PROX \<Rightarrow> (s, one ID_P SENSOR_TYPE_PROXIMITY
                      (Scalar (if b0 = 0 then PROX_UNCOVERED A else if b0 = 1 then PROX_COVERED A else PROX_SATURATED A)))
      | DT_FLAT_UP \<Rightarrow> (s, one ID_FU SENSOR_TYPE_FLAT_UP (Data [if b0 = 1 then FLAT_DETECTED A else FLAT_NOTDETECTED A]))
      | DT_FLAT_DOWN \<Rightarrow> (s, one ID_FD SENSOR_TYPE_FLAT_DOWN (Data [if b0 = 2 then FLAT_DETECTED A else FLAT_NOTDETECTED A]))
      | DT_STOWED \<Rightarrow> (s, one ID_S SENSOR_TYPE_STOWED (Data [num (uint b0)]))
      | DT_CAMERA_ACT \<Rightarrow> (s, one ID_CA SENSOR_TYPE_CAMERA_ACTIVATE (Data [num (MOTOSH_CAMERA_DATA E), num (STM16TOH m 0)]))
      | _ \<Rightarrow> (s, []))"

definition gesture_case :: "'f l4_env \<Rightarrow> int \<Rightarrow> l4_message \<Rightarrow> 'f l4_hub \<Rightarrow> 'f l4_hub \<times> 'f l4_event list" where
  "gesture_case E room m s =
     (let A = flt E; b0 = m_data m 0; num = f_of_int A; on = feature E;
          one = (\<lambda>h ty p. [l4_out E h ty m p])
      in case m_type m of
        DT_IR_GESTURE \<Rightarrow>
          (s, if on F_IR then one ID_IR_GESTURE SENSOR_TYPE_IR_GESTURE
                (Ir_Gesture b0 (m_data m 1) (m_data m 2 AND 0x0F) (drop_bit 4 (m_data m 2)) (m_data m 3)) else [])
      | DT_IR_RAW \<Rightarrow> (s, if on F_IR then one ID_IR_RAW SENSOR_TYPE_IR_RAW
                (Ir_Raw (map (STM16TOH m) [0, 2, 4, 6, 8, 10, 12, 14, 16, 18])) else [])
      | DT_IR_OBJECT \<Rightarrow>
          if on F_IR
          then (switch_off E ID_IR_OBJECT s, one ID_IR_OBJECT SENSOR_TYPE_IR_OBJECT (Data [num (uint (drop_bit 2 b0 AND 1))]))
          else (s, [])
      | DT_SIM \<Rightarrow> (switch_off E ID_SIM s, one ID_SIM SENSOR_TYPE_SIGNIFICANT_MOTION (Data [num 1]))
      | DT_CHOPCHOP \<Rightarrow> (s, if on F_CHOPCHOP then one ID_CHOPCHOP_GESTURE SENSOR_TYPE_CHOPCHOP_GESTURE
                            (Data [num (STM16TOH m 0)]) else [])
      | DT_LIFT \<Rightarrow> (s, if on F_LIFT then one ID_LIFT_GESTURE SENSOR_TYPE_LIFT_GESTURE
                            (Data [num (STM32TOH m 0), num (STM32TOH m 4), num (STM32TOH m 8)]) else [])
      | DT_GLANCE \<Rightarrow> l4_on_glance E room m s
      | DT_GYRO_CAL \<Rightarrow> (l4_gyro_cal E s, [])
      | DT_ACCEL_CAL \<Rightarrow> (l4_accel_cal E s, [])
      | DT_MOTION_DETECT \<Rightarrow> (switch_off E ID_MOTION_DETECT s, one ID_MOTION_DETECT SENSOR_TYPE_MOTION_DETECT (Data [f_lit A 1 1]))
      | DT_STATIONARY_DETECT \<Rightarrow>
          (switch_off E ID_STATIONARY_DETECT s, one ID_STATIONARY_DETECT SENSOR_TYPE_STATIONARY_DETECT (Data [f_lit A 1 1]))
      | _ \<Rightarrow> (s, []))"

definition l4_step :: "'f l4_env \<Rightarrow> int \<Rightarrow> l4_message \<Rightarrow> 'f l4_hub \<Rightarrow> 'f l4_hub \<times> 'f l4_event list" where
  "l4_step E room m s =
     (if m_type m \<in> {DT_FLUSH, DT_ACCEL, DT_GYRO, DT_UNCALIB_GYRO, DT_UNCALIB_MAG, DT_QUAT_6AXIS, DT_QUAT_9AXIS, DT_GAME_RV,
          DT_STEP_COUNTER, DT_STEP_DETECTOR} then motion_case E m s
      else if m_type m \<in> {DT_MAG, DT_ORIENT, DT_ALS, DT_LIN_ACCEL, DT_GRAVITY, DT_DISP_ROTATE, DT_PROX, DT_FLAT_UP,
          DT_FLAT_DOWN, DT_STOWED, DT_CAMERA_ACT} then ambient_case E m s
      else gesture_case E room m s)"

definition l4_message_step :: "'f l4_env \<Rightarrow> int \<Rightarrow> l4_message \<Rightarrow> 'f l4_hub \<Rightarrow> 'f l4_hub \<times> 'f l4_event list" where
  "l4_message_step E room m s = (if unsupported (m_type m) then (on_unsupported E m s, []) else l4_step E room m s)"

section \<open>The read loop\<close>

definition hasPendingEvents :: "'f l4_hub \<Rightarrow> bool" where
  "hasPendingEvents s \<longleftrightarrow> pendingEvents s \<noteq> []"

text \<open>The first loop: events of the queue, while there is room for \<open>n\<close> of them.\<close>

fun take_pending :: "nat \<Rightarrow> 'f l4_hub \<Rightarrow> 'f l4_hub \<times> 'f l4_event list" where
  "take_pending 0 s = (s, [])"
| "take_pending (Suc n) s =
     (if nextPendingEvent s = length (pendingEvents s) then (s, [])
      else
        let e = pendingEvents s ! nextPendingEvent s;
            s1 = s\<lparr>nextPendingEvent := nextPendingEvent s + 1\<rparr>;
            s2 = (if nextPendingEvent s1 = length (pendingEvents s1) then s1\<lparr>pendingEvents := [], nextPendingEvent := 0\<rparr> else s1);
            (s3, es) = take_pending n s2
        in (s3, e # es))"

text \<open>\<open>reads\<close> holds what the calls of \<open>read\<close> give up to the first 0, after which the loop ends. The value is the number
  of events or a negative \<open>errno\<close>, the reads that are left, the state, and the events in the caller's buffer.\<close>

fun l4_read_loop :: "'f l4_env \<Rightarrow> int \<Rightarrow> l4_read list \<Rightarrow> 'f l4_hub \<Rightarrow> 'f l4_event list \<Rightarrow>
    int \<times> l4_read list \<times> 'f l4_hub \<times> 'f l4_event list" where
  "l4_read_loop E dLen [] s evs = (int (length evs), [], s, evs)"
| "l4_read_loop E dLen (r # rs) s evs =
     (if int (length evs) \<ge> dLen then (int (length evs), r # rs, s, evs)
      else
        case r of
          Got_Errno e \<Rightarrow> (- e, rs, s, evs)
        | Got_Message m \<Rightarrow>
            let (s', new) = l4_message_step E (dLen - int (length evs)) m s
            in l4_read_loop E dLen rs s' (evs @ new))"

definition l4_readEvents :: "'f l4_env \<Rightarrow> int \<Rightarrow> l4_read list \<Rightarrow> 'f l4_hub \<Rightarrow>
    int \<times> l4_read list \<times> 'f l4_hub \<times> 'f l4_event list" where
  "l4_readEvents E dLen reads s =
     (if dLen < 1 then (- EINVAL, reads, s, [])
      else
        let (s1, evs) = (if hasPendingEvents s then take_pending (nat dLen) s else (s, []))
        in l4_read_loop E dLen reads s1 evs)"

end
