(* ===== verification/L4_Control.thy ===== *)
theory L4_Control
  imports L4_Enable Quaternions
begin

text \<open>
  What the control operations of the L4 hub's driver promise, on any platform and on a concrete one
  (\<open>plain_l4\<close>: every option on, one bit per mask, a hub that accepts everything).
\<close>

section \<open>A concrete platform\<close>

definition all_l4_masks :: "l4_mask list" where
  "all_l4_masks =
     [M_ACCEL, M_GYRO, M_PRESSURE, M_ALS, M_LIN_ACCEL, M_GRAVITY, M_DISP_ROTATE, M_IR_GESTURE, M_IR_RAW,
      M_IR_OBJECT, M_UNCALIB_GYRO, M_UNCALIB_MAG, M_STEP_COUNTER, M_STEP_DETECTOR, M_QUAT_6AXIS, M_QUAT_9AXIS, M_GAME_RV,
      M_MOTO_MOD_CURRENT_DRAIN, M_SENSOR_SYNC, M_ECOMPASS, M_PROXIMITY, M_FLATUP, M_FLATDOWN, M_STOWED, M_CAMERA_ACT,
      M_SIM, M_CHOPCHOP, M_LIFT, M_GLANCE, M_MOTION_DETECT, M_STATIONARY_DETECT]"

definition position :: "'a list \<Rightarrow> 'a \<Rightarrow> nat" where
  "position xs x = length (takeWhile (\<lambda>y. y \<noteq> x) xs)"

lemma position_nth: "x \<in> set xs \<Longrightarrow> position xs x < length xs \<and> xs ! position xs x = x"
  unfolding position_def by (induction xs) auto

lemma position_inj: "x \<in> set xs \<Longrightarrow> y \<in> set xs \<Longrightarrow> position xs x = position xs y \<Longrightarrow> x = y"
  by (metis position_nth)

lemma all_l4_masks_complete: "m \<in> set all_l4_masks"
  by (cases m) (simp_all add: all_l4_masks_def)

definition plain_l4 :: "real l4_env" where
  "plain_l4 =
     \<lparr>flt = real_arith, GRAVITY_EARTH = 980665 / 100000, rad_per_degree = 1 / 57, feature = (\<lambda>_. True),
      handle_code = position all_l4_handles, l4_masks = (\<lambda>m. push_bit (position all_l4_masks m) 1),
      dt_code = (\<lambda>_. 0), MOTOSH_CAMERA_DATA = 1, MAG_CAL_SIZE = 2, GYRO_CAL_SIZE = 2, ACCEL_CAL_SIZE = 2,
      l4_ioctl = (\<lambda>_ _. 0), reply_flags = (\<lambda>_. (0, 0, 0)), reply_cal = (\<lambda>_. [1, 2]), rate_write = (\<lambda>_ _. 1),
      fopen_fails = (\<lambda>_. False), fwritten = (\<lambda>_ n. n), time_now = int, time_text = (\<lambda>_. None), hub_pid = 1,
      above_15_percent = (\<lambda>d v. 100 * d > 15 * v)\<rparr>"

definition plain_l4_hub :: "real l4_hub" where
  "plain_l4_hub = new_HubSensors plain_l4 (\<lambda>_. None)"

lemma plain_l4_ok: "handles_ok plain_l4" "masks_ok (l4_masks plain_l4)"
proof -
  have "position all_l4_handles h < 64" for h
    using position_nth [OF all_l4_handles_complete [of h]] by (simp add: all_l4_handles_def)
  then show "handles_ok plain_l4"
    by (auto simp: handles_ok_def plain_l4_def inj_def intro: position_inj all_l4_handles_complete)
  have "push_bit (position all_l4_masks m) 1 AND push_bit (position all_l4_masks k) 1 = (0 :: 32 word)" if "m \<noteq> k" for m k
  proof -
    have "position all_l4_masks m \<noteq> position all_l4_masks k"
      using that position_inj all_l4_masks_complete by metis
    then show ?thesis by (auto simp: bit_eq_iff [where 'a = "32 word"] bit_simps)
  qed
  then show "masks_ok (l4_masks plain_l4)" by (simp add: masks_ok_def plain_l4_def)
qed

section \<open>Properties\<close>

lemma cal_update_keeps:
  "kept (s\<lparr>mMagCal := c\<rparr>) = kept s" "kept (s\<lparr>mGyroCal := c\<rparr>) = kept s" "kept (s\<lparr>mAccelCal := c\<rparr>) = kept s"
  "kept (s\<lparr>requests := r\<rparr>) = kept s"
  "rates_inv (s\<lparr>mMagCal := c\<rparr>) = rates_inv s" "rates_inv (s\<lparr>mGyroCal := c\<rparr>) = rates_inv s"
  "rates_inv (s\<lparr>mAccelCal := c\<rparr>) = rates_inv s" "rates_inv (s\<lparr>requests := r\<rparr>) = rates_inv s"
  "sent_inv (s\<lparr>mMagCal := c\<rparr>) = sent_inv s" "sent_inv (s\<lparr>mGyroCal := c\<rparr>) = sent_inv s"
  "sent_inv (s\<lparr>mAccelCal := c\<rparr>) = sent_inv s"
  by (simp_all add: kept_def switches_def rates_inv_def sent_inv_def compass_delays_def gyro_delays_def split del: if_split cong: if_cong)

lemma cal_request_keeps:
  "main_req rq = None \<Longrightarrow> wake_req rq = None \<Longrightarrow> mag_req rq = None \<Longrightarrow> gyro_req rq = None
    \<Longrightarrow> sent_inv (s\<lparr>requests := requests s @ [rq]\<rparr>) = sent_inv s"
  by (simp add: sent_inv_def)

lemma load_cal_keeps:
  "kept (load_mag_cal E s) = kept s" "kept (load_gyro_cal E s) = kept s" "kept (load_accel_cal E s) = kept s"
  "rates_inv (load_mag_cal E s) = rates_inv s" "rates_inv (load_gyro_cal E s) = rates_inv s" "rates_inv (load_accel_cal E s) = rates_inv s"
  by (simp_all add: load_mag_cal_def load_gyro_cal_def load_accel_cal_def Let_def cal_update_keeps split: option.split)

lemma load_cal_sent:
  "sent_inv (load_mag_cal E s) = sent_inv s" "sent_inv (load_gyro_cal E s) = sent_inv s" "sent_inv (load_accel_cal E s) = sent_inv s"
  using cal_request_keeps [of "SET_MAG_CAL c" "s\<lparr>mMagCal := c\<rparr>" for c] cal_request_keeps [of "SET_GYRO_CAL c" "s\<lparr>mGyroCal := c\<rparr>" for c]
    cal_request_keeps [of "SET_ACCEL_CAL c" "s\<lparr>mAccelCal := c\<rparr>" for c]
  by (simp_all add: load_mag_cal_def load_gyro_cal_def load_accel_cal_def Let_def cal_update_keeps req_defs split: option.split)

lemma new_HubSensors_inv:
  assumes "\<And>rs. reply_flags E rs = (0, 0, 0)"
  shows "l4_inv E (new_HubSensors E files)" "l4_on E (new_HubSensors E files) = {}"
proof -
  let ?s = "(zero_l4 E files)\<lparr>requests := [GET_SENSORS, GET_WAKESENSORS]\<rparr>"
  have j: "join_flags (0, 0, 0) = 0" by (simp add: join_flags_def)
  have s: "new_HubSensors E files = load_accel_cal E (load_gyro_cal E (load_mag_cal E ?s))"
    by (simp add: new_HubSensors_def Let_def case_prod_beta assms j zero_l4_def)
  have on: "l4_on E ?s = {}" by (simp add: l4_on_def isHandleEnabled_def zero_l4_def)
  have "flags_inv E ?s" by (simp add: flags_inv_def on) (simp add: zero_l4_def)
  moreover have "bits_inv E ?s"
    by (simp add: bits_inv_def motion_bit_inv_def on main_wanted_def wake_wanted_def) (simp add: zero_l4_def)
  moreover have "rates_inv ?s"
    by (simp add: rates_inv_def zero_l4_def compass_delays_def gyro_delays_def min_req_delay_def)
  moreover have "sent_inv ?s" by (simp add: sent_inv_def zero_l4_def last_req_def last_word_def req_defs)
  moreover have k: "kept (new_HubSensors E files) = kept ?s" by (simp add: s load_cal_keeps)
  ultimately show "l4_inv E (new_HubSensors E files)"
    using kept_inv [OF k] by (simp add: l4_inv_def s load_cal_keeps load_cal_sent)
  show "l4_on E (new_HubSensors E files) = {}"
    using k on by (simp add: kept_def switches_def l4_on_def isHandleEnabled_def)
qed

text \<open>C35: \<open>setEnable\<close> refines adding a sensor to the set of enabled ones or taking it out, for a sensor of the table;
  for any other handle it is refused without effect.\<close>

theorem l4_setEnable_refines_set:
  assumes "handles_ok E" and "l4_inv E s"
  shows "l4_on E (snd (l4_setEnable E i en s))
      = (case mIdToSensor E i of None \<Rightarrow> l4_on E s | Some e \<Rightarrow> toggled (handle e) (en \<noteq> 0) (l4_on E s))
    \<and> (mIdToSensor E i = None \<longrightarrow> l4_setEnable E i en s = (- EINVAL, s))"
proof (cases "mIdToSensor E i")
  case None
  then show ?thesis by (simp add: l4_setEnable_def)
next
  case (Some e)
  have "rates_inv s" using assms(2) by (simp add: l4_inv_def)
  with Some setEnable_state(1) [OF Some this refl] show ?thesis
    by (simp add: l4_on_mark [OF assms(1)] toggled_def)
qed

theorem l4_setEnable_refines_set_witness:
  "l4_on plain_l4 (snd (l4_setEnable plain_l4 1 1 plain_l4_hub)) = {ID_G}"
proof -
  have r: "\<And>rs. reply_flags plain_l4 rs = (0, 0, 0)" by (simp add: plain_l4_def)
  have m: "mIdToSensor plain_l4 1 = Some l4_g"
    by (simp add: mIdToSensor_def plain_l4_def hubSensorList_def hubSensorRows_def position_def all_l4_handles_def
        l4_a_def l4_g_def)
  show ?thesis
    using l4_setEnable_refines_set [OF plain_l4_ok(1) new_HubSensors_inv(1) [OF r], of 1 1 "\<lambda>_. None"] new_HubSensors_inv(2) [OF r]
    by (simp add: plain_l4_hub_def m l4_g_def toggled_def)
qed

text \<open>With motion detection enabled and its bit set in the hub, switching the glance gesture of the same vendor on or
  off moves that bit too: switched off, the hub no longer detects motion, while the sensor still counts as enabled.\<close>

theorem moto_glance_moves_motion_detect:
  assumes "handles_ok E" and "l4_inv E s" and "mIdToSensor E i = Some e" and "handle e = ID_MOTO_GLANCE_GESTURE"
    and "ID_MOTION_DETECT \<in> l4_on E s"
  shows "mWakeEnabled (snd (l4_setEnable E i en s)) AND l4_masks E M_MOTION_DETECT
      = (if en = 0 then 0 else l4_masks E M_MOTION_DETECT)
    \<and> ID_MOTION_DETECT \<in> l4_on E (snd (l4_setEnable E i en s))"
proof -
  have "rates_inv s" using assms(2) by (simp add: l4_inv_def)
  note st = setEnable_state [OF assms(3) this refl, of en]
  from assms(4,5) show ?thesis
    by (simp add: st(1,4) l4_on_mark [OF assms(1)] wake_word_eq Let_def)
qed

definition motion_then_glance :: "real l4_hub" where
  "motion_then_glance = snd (l4_setEnable plain_l4 29 1 (snd (l4_setEnable plain_l4 33 1 plain_l4_hub)))"

lemma plain_l4_find:
  "mIdToSensor plain_l4 i = find (\<lambda>e. int (position all_l4_handles (handle e)) = i) (hubSensorList (\<lambda>_. True))"
  by (simp add: mIdToSensor_def plain_l4_def)

lemma plain_l4_lookup:
  "mIdToSensor plain_l4 29 = Some l4_moto_glance_gesture" "mIdToSensor plain_l4 33 = Some l4_motion_detect"
  "mIdToSensor plain_l4 18 = Some l4_step_counter" "mIdToSensor plain_l4 3 = Some l4_m" "mIdToSensor plain_l4 1 = Some l4_g"
  unfolding plain_l4_find by code_simp+

theorem moto_glance_moves_motion_detect_witness:
  "mWakeEnabled (snd (l4_setEnable plain_l4 29 0 motion_then_glance)) AND l4_masks plain_l4 M_MOTION_DETECT = 0"
proof -
  have r: "\<And>rs. reply_flags plain_l4 rs = (0, 0, 0)" by (simp add: plain_l4_def)
  note n = new_HubSensors_inv [OF r, of "\<lambda>_. None", folded plain_l4_hub_def]
  have i: "l4_inv plain_l4 motion_then_glance"
    unfolding motion_then_glance_def using setEnable_keeps_l4_inv [OF plain_l4_ok] n(1) by blast
  have "ID_MOTION_DETECT \<in> l4_on plain_l4 motion_then_glance"
    using n(1) setEnable_keeps_l4_inv [OF plain_l4_ok]
    by (simp add: motion_then_glance_def setEnable_state(1) [OF plain_l4_lookup(1) _ refl] setEnable_state(1) [OF plain_l4_lookup(2) _ refl]
        l4_on_mark [OF plain_l4_ok(1)] l4_inv_def l4_moto_glance_gesture_def l4_motion_detect_def)
  with moto_glance_moves_motion_detect [OF plain_l4_ok(1) i plain_l4_lookup(1), of 0] show ?thesis
    by (simp add: l4_moto_glance_gesture_def)
qed

text \<open>Whatever period is asked for, the step counter of the hub is set to one between 1 and 65 seconds: the period
  in milliseconds has gone through 16 bits before it is limited to an hour.\<close>

theorem l4_step_period_bounds:
  assumes "0 \<le> ns" and "mIdToSensor E i = Some e" and "handle e = ID_STEP_COUNTER" and "feature E F_PEDO"
  shows "requests (snd (l4_batch E i ns t s)) = requests s @ [SET_STEP_COUNTER_DELAY (step_period (period_ms ns))]
    \<and> uint (step_period (period_ms ns)) = max 1 (ns div 1000000 mod 65536 div 1000)
    \<and> 1 \<le> uint (step_period (period_ms ns)) \<and> uint (step_period (period_ms ns)) \<le> 65"
proof -
  have rq: "requests (snd (l4_batch E i ns t s)) = requests s @ [SET_STEP_COUNTER_DELAY (step_period (period_ms ns))]"
    using assms by (simp add: l4_batch_def batch_case_def Let_def case_prod_beta)
  define d where "d = period_ms ns div 1000"
  have p: "uint (period_ms ns) = ns div 1000000 mod 65536"
    using assms(1) by (simp add: period_ms_def signed_divide_int_def sgn_if uint_word_of_int take_bit_eq_mod)
  have d: "uint d = ns div 1000000 mod 65536 div 1000"
    by (simp add: d_def uint_div_distrib p)
  have "ns div 1000000 mod 65536 < 65536" "0 \<le> ns div 1000000 mod 65536" by simp_all
  then have r: "0 \<le> uint d" "uint d \<le> 65" by (simp_all add: d)
  have "\<not> 3600 < d" using r(2) by (simp add: word_less_def)
  then have sp: "step_period (period_ms ns) = (if d = 0 then 1 else d)"
    by (simp only: step_period_def Let_def d_def [symmetric] if_False)
  have "1 \<le> uint d" if "d \<noteq> 0" using uint_0_iff [of d] r(1) that by linarith
  then have u: "uint (step_period (period_ms ns)) = max 1 (uint d)"
    by (cases "d = 0") (simp_all only: sp if_True if_False max_absorb2 unsigned_0 unsigned_1 refl, simp)
  have "1 \<le> max 1 (uint d)" "max 1 (uint d) \<le> 65" using r by simp_all
  then show ?thesis unfolding u [symmetric] using rq u [unfolded d] by blast
qed

theorem l4_step_period_bounds_witness:
  "uint (step_period (period_ms 3600000000000)) = 61"
  using l4_step_period_bounds [of 3600000000000 plain_l4 18, OF _ plain_l4_lookup(3)]
  by (simp add: l4_step_counter_def plain_l4_def)

end
