(* ===== verification/L4_Stream.thy ===== *)
theory L4_Stream
  imports L4_Events L4_Control
begin

text \<open>
  The events of the L4 hub's driver as a stream: \<open>readEvents\<close> delivers what the messages mean in their order, however
  the caller cuts it by the size of its buffer, except when a \<open>read\<close> fails.
\<close>

section \<open>The queue is only touched by a glance\<close>

abbreviation with_queue :: "'f l4_event list \<times> nat \<Rightarrow> 'f l4_hub \<Rightarrow> 'f l4_hub" where
  "with_queue p s \<equiv> s\<lparr>pendingEvents := fst p, nextPendingEvent := snd p\<rparr>"

lemma note_switch_queue: "note_switch h on (with_queue p s) = with_queue p (note_switch h on s)"
  by (cases h) (simp_all add: note_switch_def Let_def)

lemma update_rate_queue:
  "updateEcompassRate E (with_queue p s) = map_prod id (with_queue p) (updateEcompassRate E s)"
  "updateGyroRate E (with_queue p s) = map_prod id (with_queue p) (updateGyroRate E s)"
  by (simp_all add: updateEcompassRate_def updateGyroRate_def Let_def l4_send_def compass_delays_def gyro_delays_def
      split del: if_split cong: if_cong) (simp_all split: if_split)

lemma save_mag_cal_queue: "save_mag_cal E (with_queue p s) = map_prod id (with_queue p) (save_mag_cal E s)"
  by (simp add: save_mag_cal_def write_cal_def Let_def l4_send_def)

lemma compass_part_queue:
  "compass_part E h w (with_queue p s) = map_prod id (map_prod id (with_queue p)) (compass_part E h w s)"
  by (simp add: compass_part_def update_rate_queue save_mag_cal_queue case_prod_beta Let_def)

lemma enable_main_queue: "enable_main E h on (with_queue p s) = map_prod id (with_queue p) (enable_main E h on s)"
proof -
  let ?w = "case main_mask (feature E) h of None \<Rightarrow> mEnabled s | Some m \<Rightarrow> switch_mask on (l4_masks E m) (mEnabled s)"
  obtain err w s1 where c: "compass_part E h ?w (note_switch h on s) = (err, w, s1)" by (metis prod_cases3)
  obtain s2 where u: "(if h = ID_G \<or> h = ID_UNCALIB_GYRO then snd (updateGyroRate E s1) else s1) = s2" by blast
  then have u': "(if h = ID_G \<or> h = ID_UNCALIB_GYRO then snd (updateGyroRate E (with_queue p s1)) else with_queue p s1) = with_queue p s2"
    by (auto simp: update_rate_queue)
  have w: "(case main_mask (feature E) h of None \<Rightarrow> mEnabled (with_queue p s)
      | Some m \<Rightarrow> switch_mask on (l4_masks E m) (mEnabled (with_queue p s))) = ?w" by (simp split: option.split)
  have c': "compass_part E h ?w (note_switch h on (with_queue p s)) = (err, w, with_queue p s1)"
    by (simp add: note_switch_queue compass_part_queue c)
  show ?thesis
    unfolding enable_main_def by (simp add: c w c' u u' Let_def l4_send_def)
qed

lemma wake_word_queue: "wake_word E h on (with_queue p s) = wake_word E h on s"
  by (simp add: wake_word_def isHandleEnabled_def Let_def cong: l4_handle.case_cong)

lemma enable_wake_queue:
  "enable_wake E h on (map_prod id (with_queue p) r) = map_prod id (with_queue p) (enable_wake E h on r)"
  by (cases r) (simp add: enable_wake_def wake_word_queue l4_send_def split: option.split)

lemma mark_enabled_queue: "mark_enabled E h on (with_queue p s) = with_queue p (mark_enabled E h on s)"
  by (simp add: mark_enabled_def)

lemma setEnable_queue: "l4_setEnable E i en (with_queue p s) = map_prod id (with_queue p) (l4_setEnable E i en s)"
proof (cases "mIdToSensor E i")
  case (Some e)
  obtain err s1 where w: "enable_wake E (handle e) (en \<noteq> 0) (enable_main E (handle e) (en \<noteq> 0) s) = (err, s1)" by fastforce
  then have "enable_wake E (handle e) (en \<noteq> 0) (enable_main E (handle e) (en \<noteq> 0) (with_queue p s)) = (err, with_queue p s1)"
    by (simp only: enable_main_queue enable_wake_queue) simp
  with Some w show ?thesis by (simp only: l4_setEnable_def) (simp only: option.case Let_def prod.case mark_enabled_queue map_prod_simp id_apply)
qed (simp add: l4_setEnable_def)

lemma switch_off_queue [simp]: "switch_off E h (with_queue p s) = with_queue p (switch_off E h s)"
  by (simp add: switch_off_def setEnable_queue)

lemma with_queue_same: "with_queue (pendingEvents s, nextPendingEvent s) s = s"
  by simp

lemma with_queue_fixed:
  assumes "with_queue q s = s"
  shows "pendingEvents s = fst q" "nextPendingEvent s = snd q"
  using arg_cong [OF assms, of pendingEvents] arg_cong [OF assms, of nextPendingEvent] by simp_all

lemma switch_off_keeps_queue [simp]:
  "pendingEvents (switch_off E h s) = pendingEvents s" "nextPendingEvent (switch_off E h s) = nextPendingEvent s"
proof -
  have "with_queue (pendingEvents s, nextPendingEvent s) (switch_off E h s) = switch_off E h s"
    by (simp only: switch_off_queue [symmetric] with_queue_same)
  from with_queue_fixed [OF this] show "pendingEvents (switch_off E h s) = pendingEvents s"
    "nextPendingEvent (switch_off E h s) = nextPendingEvent s" by simp_all
qed

section \<open>The stream of events\<close>

text \<open>What a list of messages means, with room for everything.\<close>

fun l4_stream :: "'f l4_env \<Rightarrow> l4_message list \<Rightarrow> 'f l4_hub \<Rightarrow> 'f l4_hub \<times> 'f l4_event list" where
  "l4_stream E [] s = (s, [])"
| "l4_stream E (m # ms) s =
     (let (s1, es) = l4_message_step E 2 m s; (s2, es') = l4_stream E ms s1 in (s2, es @ es'))"

definition queue :: "'f l4_hub \<Rightarrow> 'f l4_event list" where
  "queue s = drop (nextPendingEvent s) (pendingEvents s)"

definition queue_ok :: "'f l4_hub \<Rightarrow> bool" where
  "queue_ok s \<longleftrightarrow> (if pendingEvents s = [] then nextPendingEvent s = 0 else nextPendingEvent s < length (pendingEvents s))"

abbreviation emptied :: "'f l4_hub \<Rightarrow> 'f l4_hub" where
  "emptied s \<equiv> with_queue ([], 0) s"

lemma capture_dump_queue [simp]:
  "pendingEvents (capture_dump E ts c s) = pendingEvents s" "nextPendingEvent (capture_dump E ts c s) = nextPendingEvent s"
  by (simp_all add: capture_dump_def split: option.split)

lemma on_unsupported_queue [simp]:
  "pendingEvents (on_unsupported E m s) = pendingEvents s" "nextPendingEvent (on_unsupported E m s) = nextPendingEvent s"
  by (simp_all add: on_unsupported_def Let_def count_error_def split: option.split)

lemma cal_queue [simp]:
  "pendingEvents (l4_gyro_cal E s) = pendingEvents s" "nextPendingEvent (l4_gyro_cal E s) = nextPendingEvent s"
  "pendingEvents (l4_accel_cal E s) = pendingEvents s" "nextPendingEvent (l4_accel_cal E s) = nextPendingEvent s"
  by (simp_all add: l4_gyro_cal_def l4_accel_cal_def Let_def write_cal_def case_prod_beta)

lemma steps_queue [simp]:
  "pendingEvents (fst (l4_on_steps E m s)) = pendingEvents s" "nextPendingEvent (fst (l4_on_steps E m s)) = nextPendingEvent s"
  "length (snd (l4_on_steps E m s)) = 1"
  by (simp_all add: l4_on_steps_def Let_def)

lemma log_queue [simp]:
  "pendingEvents (logAlsEvent E l t s) = pendingEvents s" "nextPendingEvent (logAlsEvent E l t s) = nextPendingEvent s"
  by (simp_all add: logAlsEvent_def Let_def)

text \<open>With less room a step does the same, and puts into the queue what does not fit.\<close>

lemma switch_off_pending: "switch_off E h (s\<lparr>pendingEvents := p\<rparr>) = (switch_off E h s)\<lparr>pendingEvents := p\<rparr>"
proof -
  have q: "t\<lparr>pendingEvents := p\<rparr> = with_queue (p, nextPendingEvent t) t" for t :: "'a l4_hub" by simp
  show ?thesis by (simp only: q switch_off_queue switch_off_keeps_queue)
qed

lemma glance_room:
  assumes "1 \<le> room"
  shows "l4_on_glance E room m s =
    (let (s2, es) = l4_on_glance E 2 m s
     in (s2\<lparr>pendingEvents := pendingEvents s2 @ drop (nat room) es\<rparr>, take (nat room) es))"
    (is ?room) and "length (snd (l4_on_glance E 2 m s)) \<le> 2" (is ?len)
    and "pendingEvents (fst (l4_on_glance E 2 m s)) = pendingEvents s
      \<and> nextPendingEvent (fst (l4_on_glance E 2 m s)) = nextPendingEvent s" (is ?queue)
proof -
  let ?A = "flt E" and ?g = "f_of_int (flt E) (STM16TOH m 0)" and ?z = "f_lit (flt E) 0 1"
  let ?e = "l4_out E ID_GLANCE_GESTURE SENSOR_TYPE_GLANCE_GESTURE m (Data [f_lit ?A 1 1, ?g, ?z])"
  obtain s1 ev1 where 1: "(if isHandleEnabled E s ID_MOTO_GLANCE_GESTURE
      then (switch_off E ID_MOTO_GLANCE_GESTURE s,
            [l4_out E ID_MOTO_GLANCE_GESTURE SENSOR_TYPE_MOTO_GLANCE_GESTURE m (Data [?g, ?z, ?z])])
      else (s, [])) = (s1, ev1)" by fastforce
  have l1: "length ev1 \<le> 1" and q1: "pendingEvents s1 = pendingEvents s" "nextPendingEvent s1 = nextPendingEvent s"
    using 1 by (auto split: if_splits)
  have step: "l4_on_glance E r m s =
      (if isHandleEnabled E s1 ID_GLANCE_GESTURE
       then if int (length ev1) < r then (switch_off E ID_GLANCE_GESTURE s1, ev1 @ [?e])
            else ((switch_off E ID_GLANCE_GESTURE s1)\<lparr>pendingEvents := pendingEvents s1 @ [?e]\<rparr>, ev1)
       else (s1, ev1))" for r
    by (simp add: l4_on_glance_def Let_def 1 switch_off_pending)
  have two: "l4_on_glance E 2 m s =
      (if isHandleEnabled E s1 ID_GLANCE_GESTURE then (switch_off E ID_GLANCE_GESTURE s1, ev1 @ [?e]) else (s1, ev1))"
    using l1 by (simp add: step)
  have "int (length ev1) < room \<or> room = 1 \<and> length ev1 = 1" using l1 assms by linarith
  then show ?room
    unfolding two step using assms q1 l1 by (elim disjE) auto
  show ?len ?queue using l1 q1 by (auto simp: two)
qed

lemma step_room:
  assumes "1 \<le> room"
  shows "l4_message_step E room m s =
    (let (s2, es) = l4_message_step E 2 m s
     in (s2\<lparr>pendingEvents := pendingEvents s2 @ drop (nat room) es\<rparr>, take (nat room) es))"
    (is ?room) and "length (snd (l4_message_step E 2 m s)) \<le> 2" (is ?len)
    and "pendingEvents (fst (l4_message_step E 2 m s)) = pendingEvents s
      \<and> nextPendingEvent (fst (l4_message_step E 2 m s)) = nextPendingEvent s" (is ?queue)
proof -
  have same: "l4_step E room m s = l4_step E 2 m s" "length (snd (l4_step E 2 m s)) \<le> 1"
    "pendingEvents (fst (l4_step E 2 m s)) = pendingEvents s \<and> nextPendingEvent (fst (l4_step E 2 m s)) = nextPendingEvent s"
    if "m_type m \<noteq> DT_GLANCE"
    using that by (cases "m_type m"; simp add: l4_step_def motion_case_def ambient_case_def gesture_case_def Let_def)+
  have glance: "l4_step E r m s = l4_on_glance E r m s" if "m_type m = DT_GLANCE" for r
    using that by (simp add: l4_step_def motion_case_def ambient_case_def gesture_case_def Let_def)
  have short: "drop (nat room) (snd (l4_step E 2 m s)) = []" "take (nat room) (snd (l4_step E 2 m s)) = snd (l4_step E 2 m s)"
    if "m_type m \<noteq> DT_GLANCE" using same(2) [OF that] assms by auto
  have id: "t\<lparr>pendingEvents := pendingEvents t\<rparr> = t" for t :: "'a l4_hub" by simp
  consider "unsupported (m_type m)" | "\<not> unsupported (m_type m)" "m_type m = DT_GLANCE"
    | "\<not> unsupported (m_type m)" "m_type m \<noteq> DT_GLANCE" by blast
  then show ?room
  proof cases
    case 2
    then show ?thesis by (simp only: l4_message_step_def if_False glance) (rule glance_room(1) [OF assms])
  next
    case 3
    then show ?thesis by (simp add: l4_message_step_def same(1) short case_prod_beta id)
  qed (simp add: l4_message_step_def)
  show ?len ?queue
    using glance_room(2,3) [OF assms, of E m s] same(2,3)
    by (cases "m_type m = DT_GLANCE"; auto simp: l4_message_step_def glance)+
qed

section \<open>The loops\<close>

lemma queue_empty: "queue_ok s \<Longrightarrow> queue s = [] \<longleftrightarrow> pendingEvents s = []"
  by (auto simp: queue_ok_def queue_def split: if_splits)

lemma queue_ok_emptied: "queue_ok s \<Longrightarrow> queue s = [] \<Longrightarrow> emptied s = s"
  by (auto simp: queue_ok_def queue_def split: if_splits)

lemma take_pending_spec:
  assumes "queue_ok s" and "take_pending n s = (s', es)"
  shows "es = take n (queue s) \<and> queue s' = drop n (queue s) \<and> queue_ok s' \<and> emptied s' = emptied s"
  using assms
proof (induction n arbitrary: s s' es)
  case 0
  then show ?case by simp
next
  case (Suc n)
  show ?case
  proof (cases "nextPendingEvent s = length (pendingEvents s)")
    case True
    with Suc.prems show ?thesis by (auto simp: queue_def)
  next
    case False
    then have lt: "nextPendingEvent s < length (pendingEvents s)"
      using Suc.prems(1) by (auto simp: queue_ok_def split: if_splits)
    define s2 where "s2 = (if nextPendingEvent s + 1 = length (pendingEvents s) then emptied s
      else s\<lparr>nextPendingEvent := nextPendingEvent s + 1\<rparr>)"
    obtain s3 es' where t: "take_pending n s2 = (s3, es')" by fastforce
    have q: "queue s = pendingEvents s ! nextPendingEvent s # queue s2"
      using lt Cons_nth_drop_Suc [OF lt] by (auto simp: queue_def s2_def)
    have ok: "queue_ok s2" "emptied s2 = emptied s" using lt by (auto simp: queue_ok_def s2_def)
    have "s' = s3" "es = pendingEvents s ! nextPendingEvent s # es'"
      using Suc.prems(2) False t by (cases "Suc (nextPendingEvent s) = length (pendingEvents s)"; simp add: Let_def s2_def)+
    with Suc.IH [OF ok(1) t] ok(2) show ?thesis by (simp add: q)
  qed
qed

lemma read_loop_full:
  "int (length evs) \<ge> dLen \<Longrightarrow> l4_read_loop E dLen rs s evs = (int (length evs), rs, s, evs)"
  by (cases rs) simp_all

lemma read_loop_stream:
  assumes "pendingEvents s = []" and "nextPendingEvent s = 0" and "int (length evs) \<le> dLen"
    and "l4_read_loop E dLen (map Got_Message ms) s evs = (ret, rest, s', evs')"
  shows "\<exists>used left s2 es. ms = used @ left \<and> rest = map Got_Message left \<and> l4_stream E used s = (s2, es)
    \<and> evs @ es = evs' @ pendingEvents s' \<and> s' = s2\<lparr>pendingEvents := pendingEvents s'\<rparr> \<and> nextPendingEvent s' = 0
    \<and> ret = int (length evs') \<and> int (length evs') \<le> dLen
    \<and> (left = [] \<and> pendingEvents s' = [] \<or> int (length evs') = dLen)"
  using assms
proof (induction ms arbitrary: s evs)
  case Nil
  then show ?case by (intro exI [of _ "[]"]) auto
next
  case (Cons m ms)
  show ?case
  proof (cases "int (length evs) \<ge> dLen")
    case True
    with Cons.prems show ?thesis by (intro exI [of _ "[]"] exI [of _ "m # ms"]) auto
  next
    case False
    let ?room = "dLen - int (length evs)"
    obtain s2 es where two: "l4_message_step E 2 m s = (s2, es)" by fastforce
    have room: "1 \<le> ?room" using False by simp
    have keeps: "pendingEvents s2 = []" "nextPendingEvent s2 = 0"
      using step_room(3) [OF room, of E m s] Cons.prems(1,2) by (simp_all add: two)
    let ?s1 = "s2\<lparr>pendingEvents := drop (nat ?room) es\<rparr>" and ?evs1 = "evs @ take (nat ?room) es"
    have go: "l4_read_loop E dLen (map Got_Message ms) ?s1 ?evs1 = (ret, rest, s', evs')"
      using Cons.prems(4) False by (simp add: step_room(1) [OF room] two keeps)
    show ?thesis
    proof (cases "length es \<le> nat ?room")
      case True
      then have "?s1 = s2" "?evs1 = evs @ es" using keeps by simp_all
      moreover have "int (length (evs @ es)) \<le> dLen" using True False by simp
      ultimately obtain used left s3 es' where IH: "ms = used @ left" "rest = map Got_Message left" "l4_stream E used s2 = (s3, es')"
        "(evs @ es) @ es' = evs' @ pendingEvents s'" "s' = s3\<lparr>pendingEvents := pendingEvents s'\<rparr>" "nextPendingEvent s' = 0"
        "ret = int (length evs')" "int (length evs') \<le> dLen" "left = [] \<and> pendingEvents s' = [] \<or> int (length evs') = dLen"
        using Cons.IH [OF keeps, of "evs @ es"] go by (metis (no_types, lifting))
      then show ?thesis
        by (intro exI [of _ "m # used"] exI [of _ left] exI [of _ s3] exI [of _ "es @ es'"]) (simp add: two)
    next
      case full: False
      then have len: "int (length ?evs1) = dLen" using False by simp
      then have "l4_read_loop E dLen (map Got_Message ms) ?s1 ?evs1 = (int (length ?evs1), map Got_Message ms, ?s1, ?evs1)"
        by (intro read_loop_full) simp
      with go have "ret = int (length ?evs1)" "rest = map Got_Message ms" "s' = ?s1" "evs' = ?evs1"
        by (auto simp only: prod.inject)
      with len keeps show ?thesis
        by (intro exI [of _ "[m]"] exI [of _ ms] exI [of _ s2] exI [of _ es]) (simp add: two)
    qed
  qed
qed

lemma stream_queue:
  "pendingEvents (fst (l4_stream E ms s)) = pendingEvents s \<and> nextPendingEvent (fst (l4_stream E ms s)) = nextPendingEvent s"
proof (induction ms arbitrary: s)
  case (Cons m ms)
  with step_room(3) [of 2 E m s] show ?case by (simp add: Let_def case_prod_beta)
qed simp

lemma readEvents_spec:
  assumes ok: "queue_ok s" and d: "1 \<le> dLen" and r: "l4_readEvents E dLen (map Got_Message ms) s = (ret, rest, s', evs)"
  shows "\<exists>used left es. ms = used @ left \<and> rest = map Got_Message left \<and> l4_stream E used (emptied s) = (emptied s', es)
    \<and> queue s @ es = evs @ queue s' \<and> queue_ok s' \<and> ret = int (length evs) \<and> int (length evs) \<le> dLen
    \<and> (left = [] \<and> queue s' = [] \<or> int (length evs) = dLen)"
proof -
  obtain s1 e1 where t: "take_pending (nat dLen) s = (s1, e1)" by fastforce
  note tp = take_pending_spec [OF ok t]
  have nothing: "s1 = s \<and> e1 = []" if "pendingEvents s = []"
    using that ok t d by (cases "nat dLen") (auto simp: queue_ok_def)
  then have loop: "l4_read_loop E dLen (map Got_Message ms) s1 e1 = (ret, rest, s', evs)"
    using r d t by (auto simp: l4_readEvents_def hasPendingEvents_def split: if_splits)
  show ?thesis
  proof (cases "length (queue s) \<le> nat dLen")
    case True
    with tp have q: "queue s1 = []" "e1 = queue s" "queue_ok s1" "emptied s1 = emptied s" by simp_all
    then have s1: "pendingEvents s1 = []" "nextPendingEvent s1 = 0" "emptied s = s1"
      using queue_empty [OF q(3)] queue_ok_emptied [OF q(3,1)] by (auto simp: queue_ok_def split: if_splits)
    have "int (length e1) \<le> dLen" using True q(2) d by simp
    from read_loop_stream [OF s1(1,2) this loop] obtain used left s2 es where rs: "ms = used @ left" "rest = map Got_Message left"
      "l4_stream E used s1 = (s2, es)" "e1 @ es = evs @ pendingEvents s'" "s' = s2\<lparr>pendingEvents := pendingEvents s'\<rparr>"
      "nextPendingEvent s' = 0" "ret = int (length evs)" "int (length evs) \<le> dLen"
      "left = [] \<and> pendingEvents s' = [] \<or> int (length evs) = dLen" by blast
    have "pendingEvents s2 = []" "nextPendingEvent s2 = 0" using stream_queue [of E used s1] rs(3) s1 by simp_all
    then have "emptied s' = s2" by (subst rs(5)) simp
    moreover have "queue s' = pendingEvents s'" "queue_ok s'" using rs(6) by (auto simp: queue_def queue_ok_def)
    ultimately show ?thesis using rs(1-4,7-9) s1(3) q(2) by metis
  next
    case False
    with tp d have "int (length e1) = dLen" by simp
    with loop have "ret = int (length e1) \<and> rest = map Got_Message ms \<and> s' = s1 \<and> evs = e1"
      by (auto simp: read_loop_full)
    with tp \<open>int (length e1) = dLen\<close> show ?thesis
      by (intro exI [of _ "[]"] exI [of _ ms]) auto
  qed
qed

lemma stream_append:
  "l4_stream E (a @ b) s = (let (s1, e1) = l4_stream E a s; (s2, e2) = l4_stream E b s1 in (s2, e1 @ e2))"
  by (induction a arbitrary: s) (simp_all add: Let_def case_prod_beta)

section \<open>Properties\<close>

text \<open>Successive reads into buffers of the given sizes.\<close>

fun l4_read_cuts :: "'f l4_env \<Rightarrow> int list \<Rightarrow> l4_read list \<Rightarrow> 'f l4_hub \<Rightarrow> 'f l4_event list \<times> l4_read list \<times> 'f l4_hub" where
  "l4_read_cuts E [] reads s = ([], reads, s)"
| "l4_read_cuts E (d # ds) reads s =
     (let (ret, rest, s1, evs) = l4_readEvents E d reads s; (es, rest', s2) = l4_read_cuts E ds rest s1
      in (evs @ es, rest', s2))"

text \<open>C7: however successive reads are cut by the sizes of the buffers, they deliver the events of the messages read, in
  their order and each once: what was queued before and the stream of these messages is what was delivered and what is
  queued after. The buffers are filled as long as messages are left.\<close>

theorem l4_cuts_do_not_matter:
  assumes "queue_ok s" and "\<forall>d\<in>set ds. 1 \<le> d"
    and "l4_read_cuts E ds (map Got_Message ms) s = (evs, rest, s')"
  shows "\<exists>used left es. ms = used @ left \<and> rest = map Got_Message left \<and> l4_stream E used (emptied s) = (emptied s', es)
    \<and> queue s @ es = evs @ queue s' \<and> queue_ok s' \<and> (left = [] \<and> queue s' = [] \<or> int (length evs) = sum_list ds)"
  using assms
proof (induction ds arbitrary: s ms evs)
  case Nil
  then show ?case by (intro exI [of _ "[]"] exI [of _ ms]) auto
next
  case (Cons d ds)
  obtain ret rest1 s1 e1 where r: "l4_readEvents E d (map Got_Message ms) s = (ret, rest1, s1, e1)" by (metis prod_cases4)
  obtain e2 where c: "l4_read_cuts E ds rest1 s1 = (e2, rest, s')" and evs: "evs = e1 @ e2"
    using Cons.prems(3) r by (auto simp: Let_def split: prod.splits)
  from readEvents_spec [OF Cons.prems(1) _ r] Cons.prems(2) obtain used left es where 1: "ms = used @ left"
    "rest1 = map Got_Message left" "l4_stream E used (emptied s) = (emptied s1, es)" "queue s @ es = e1 @ queue s1" "queue_ok s1"
    "left = [] \<and> queue s1 = [] \<or> int (length e1) = d" by auto
  from Cons.IH [OF 1(5) _ c [unfolded 1(2)]] Cons.prems(2) obtain used2 left2 es2 where 2: "left = used2 @ left2"
    "rest = map Got_Message left2" "l4_stream E used2 (emptied s1) = (emptied s', es2)" "queue s1 @ es2 = e2 @ queue s'" "queue_ok s'"
    "left2 = [] \<and> queue s' = [] \<or> int (length e2) = sum_list ds" by auto
  have "left2 = [] \<and> queue s' = [] \<or> int (length evs) = sum_list (d # ds)"
    using 1(6) 2(1,3,4,6) by (auto simp: evs)
  moreover have "l4_stream E (used @ used2) (emptied s) = (emptied s', es @ es2)"
    using 1(3) 2(3) by (simp add: stream_append)
  moreover have "queue s @ es @ es2 = evs @ queue s'"
    using 1(4) 2(4) by (simp add: evs) (metis append_assoc)
  ultimately show ?case using 1(1) 2(1,2,5) by (metis append_assoc)
qed

lemma read_loop_fits:
  assumes "int (length evs) \<le> dLen" and "l4_read_loop E dLen reads s evs = (ret, rest, s', evs')"
  shows "int (length evs') \<le> dLen \<and> (ret = int (length evs') \<or> (\<exists>e. Got_Errno e \<in> set reads \<and> ret = - e))"
  using assms
proof (induction reads arbitrary: s evs)
  case (Cons r reads)
  show ?case
  proof (cases "int (length evs) \<ge> dLen")
    case True
    with Cons.prems show ?thesis by auto
  next
    case False
    show ?thesis
    proof (cases r)
      case (Got_Errno e)
      with Cons.prems False show ?thesis by auto
    next
      case (Got_Message m)
      let ?room = "dLen - int (length evs)"
      obtain s1 new where st: "l4_message_step E ?room m s = (s1, new)" by fastforce
      have "1 \<le> ?room" using False by simp
      from step_room(1) [OF this, of E m s] st have "length new \<le> nat ?room"
        by (auto simp: case_prod_beta Let_def)
      then have "int (length (evs @ new)) \<le> dLen" using False by simp
      from Cons.IH [OF this, of s1] Cons.prems(2) False Got_Message st show ?thesis by auto
    qed
  qed
qed auto

text \<open>C23: one call never writes more events than its buffer holds; it returns their number or the error of a read.\<close>

theorem l4_readEvents_fits:
  assumes "queue_ok s" and "1 \<le> dLen" and "l4_readEvents E dLen reads s = (ret, rest, s', evs)"
  shows "int (length evs) \<le> dLen \<and> (ret = int (length evs) \<or> (\<exists>e. Got_Errno e \<in> set reads \<and> ret = - e))"
proof -
  obtain s1 e1 where t: "(if hasPendingEvents s then take_pending (nat dLen) s else (s, [])) = (s1, e1)" by fastforce
  have "int (length e1) \<le> dLen"
    using t take_pending_spec [OF assms(1)] assms(2) by (cases "hasPendingEvents s") fastforce+
  moreover have "l4_read_loop E dLen reads s1 e1 = (ret, rest, s', evs)"
    using assms(2,3) t by (simp add: l4_readEvents_def)
  ultimately show ?thesis by (rule read_loop_fits)
qed

lemma read_loop_prefix:
  assumes "l4_stream E ms s = (s2, es)" and "int (length (evs @ es)) < dLen" and "pendingEvents s = []"
  shows "l4_read_loop E dLen (map Got_Message ms @ rs) s evs = l4_read_loop E dLen rs s2 (evs @ es)"
  using assms
proof (induction ms arbitrary: s evs es)
  case (Cons m ms)
  obtain s1 e1 e2 where st: "l4_message_step E 2 m s = (s1, e1)" "l4_stream E ms s1 = (s2, e2)" "es = e1 @ e2"
    using Cons.prems(1) by (auto simp: Let_def split: prod.splits)
  let ?room = "dLen - int (length evs)"
  have room: "1 \<le> ?room" "length e1 \<le> nat ?room" using Cons.prems(2) st(3) by auto
  have s1: "pendingEvents s1 = []" using step_room(3) [OF room(1), of E m s] Cons.prems(3) st(1) by simp
  then have "l4_message_step E ?room m s = (s1, e1)" using step_room(1) [OF room(1), of E m s] st(1) room(2) by simp
  with Cons.IH [OF st(2), of "evs @ e1"] Cons.prems(2) st(3) s1 room(1) show ?case by simp
qed simp

text \<open>C26: when a read fails, the events of the messages before it are gone: the call returns the error, and nothing of
  them is queued for the next one.\<close>

theorem l4_read_error_drops_events:
  assumes "queue_ok s" and "queue s = []" and "l4_stream E ms s = (s2, es)" and "int (length es) < dLen"
  shows "l4_readEvents E dLen (map Got_Message ms @ Got_Errno e # rs) s = (- e, rs, s2, es) \<and> queue s2 = []"
proof -
  have "pendingEvents s = []" using queue_empty [OF assms(1)] assms(2) by simp
  moreover from this have "queue s2 = []" using stream_queue [of E ms s] assms(3) by (simp add: queue_def)
  ultimately show ?thesis
    using read_loop_prefix [OF assms(3), of "[]" dLen] assms(4) by (simp add: l4_readEvents_def hasPendingEvents_def)
qed

section \<open>Reading keeps the invariant\<close>

text \<open>What the invariant depends on.\<close>

definition l4_core :: "'f l4_hub \<Rightarrow> (32 word \<times> 32 word \<times> 16 word \<times> 16 word) \<times> (bool list \<times> 16 word list \<times> 64 word)
    \<times> 32 word option \<times> 32 word option \<times> 16 word option \<times> 16 word option" where
  "l4_core s = ((mEnabled s, mWakeEnabled s, mEcompassDelay s, mGyroDelay s), switches s,
     last_req main_req (requests s), last_req wake_req (requests s), last_req mag_req (requests s), last_req gyro_req (requests s))"

lemma l4_inv_core:
  assumes "l4_core s' = l4_core s" and inv: "l4_inv E s"
  shows "l4_inv E s'"
proof -
  have k: "kept s' = kept s" and sw: "switches s' = switches s" using assms(1) by (simp_all add: l4_core_def kept_def)
  then have "flags_inv E s' \<and> bits_inv E s'" using kept_inv inv by (auto simp: l4_inv_def)
  moreover have "rates_inv s'" using inv assms(1) switches_delays [OF sw] by (simp add: l4_inv_def rates_inv_def l4_core_def)
  moreover have "sent_inv s'" using inv assms(1) by (simp add: l4_inv_def sent_inv_def l4_core_def last_word_def)
  ultimately show ?thesis by (simp add: l4_inv_def)
qed

lemma core_updates [simp]:
  "l4_core (s\<lparr>mErrorCnt := v1\<rparr>) = l4_core s" "l4_core (s\<lparr>ticks := v2\<rparr>) = l4_core s" "l4_core (s\<lparr>sent_bug2go_sec := v3\<rparr>) = l4_core s"
  "l4_core (s\<lparr>dumps := v4\<rparr>) = l4_core s" "l4_core (s\<lparr>last_logged_val := v5\<rparr>) = l4_core s"
  "l4_core (s\<lparr>last_logged_ts_ns := v5\<rparr>) = l4_core s" "l4_core (s\<lparr>last_stepcount := v6\<rparr>) = l4_core s"
  "l4_core (s\<lparr>step_offset := v6\<rparr>) = l4_core s" "l4_core (s\<lparr>pendingEvents := v7\<rparr>) = l4_core s"
  "l4_core (s\<lparr>nextPendingEvent := v8\<rparr>) = l4_core s" "l4_core (s\<lparr>hub_files := v9\<rparr>) = l4_core s"
  "l4_core (s\<lparr>mGyroCal := v10\<rparr>) = l4_core s" "l4_core (s\<lparr>mAccelCal := v10\<rparr>) = l4_core s"
  "l4_core (s\<lparr>requests := requests s @ [GET_GYRO_CAL]\<rparr>) = l4_core s" "l4_core (s\<lparr>requests := requests s @ [GET_ACCEL_CAL]\<rparr>) = l4_core s"
  by (simp_all add: l4_core_def switches_def req_defs)

lemma message_core_l4:
  "l4_core (on_unsupported E m s) = l4_core s" "l4_core (l4_gyro_cal E s) = l4_core s" "l4_core (l4_accel_cal E s) = l4_core s"
  "l4_core (logAlsEvent E l t s) = l4_core s" "l4_core (fst (l4_on_steps E m s)) = l4_core s"
  by (simp_all add: on_unsupported_def count_error_def capture_dump_def l4_gyro_cal_def l4_accel_cal_def write_cal_def
      logAlsEvent_def l4_on_steps_def Let_def case_prod_beta split: option.split)

lemma take_pending_core: "l4_core (fst (take_pending n s)) = l4_core s"
  by (induction n arbitrary: s) (simp_all add: Let_def case_prod_beta)

lemma message_keeps_l4_inv:
  assumes ok: "handles_ok E" "masks_ok (l4_masks E)" and inv: "l4_inv E s" and room: "1 \<le> room"
  shows "l4_inv E (fst (l4_message_step E room m s))"
proof -
  have off: "l4_inv E t \<Longrightarrow> l4_inv E (switch_off E h t)" for h t
    unfolding switch_off_def by (rule setEnable_keeps_l4_inv [OF ok])
  have q: "l4_inv E t \<Longrightarrow> l4_inv E (t\<lparr>pendingEvents := p\<rparr>)" for t p by (rule l4_inv_core) simp_all
  have "l4_inv E (fst (l4_on_glance E room m s))"
    by (simp add: l4_on_glance_def Let_def inv off q)
  then have "l4_inv E (fst (l4_step E room m s))"
    by (cases "m_type m"; simp add: l4_step_def motion_case_def ambient_case_def gesture_case_def Let_def inv off message_core_l4 l4_inv_core [OF message_core_l4(2)]
        l4_inv_core [OF message_core_l4(3)] l4_inv_core [OF message_core_l4(4)] l4_inv_core [OF message_core_l4(5)])
  then show ?thesis by (simp add: l4_message_step_def l4_inv_core [OF message_core_l4(1) inv])
qed

lemma read_keeps_l4_inv:
  assumes ok: "handles_ok E" "masks_ok (l4_masks E)" and inv: "l4_inv E s"
  shows "l4_inv E (fst (snd (snd (l4_readEvents E dLen reads s))))"
proof -
  have loop: "l4_inv E t \<Longrightarrow> l4_inv E (fst (snd (snd (l4_read_loop E dLen reads t evs))))" for t evs
  proof (induction reads arbitrary: t evs)
    case (Cons r reads)
    then show ?case
      using message_keeps_l4_inv [OF ok Cons.prems, of "dLen - int (length evs)"]
      by (cases r) (simp_all add: case_prod_beta Let_def)
  qed simp
  have "l4_inv E (fst (take_pending n s))" for n by (rule l4_inv_core [OF take_pending_core inv])
  with inv loop show ?thesis by (simp add: l4_readEvents_def case_prod_beta Let_def)
qed

text \<open>The calls of the framework and the reads, in any order.\<close>

datatype l4_call = Activate int int | Batch int int int | Flush int | Read_Events int "l4_read list"

definition l4_do :: "'f l4_env \<Rightarrow> l4_call \<Rightarrow> 'f l4_hub \<Rightarrow> 'f l4_hub" where
  "l4_do E c s =
     (case c of Activate i en \<Rightarrow> snd (l4_setEnable E i en s) | Batch i ns t \<Rightarrow> snd (l4_batch E i ns t s)
      | Flush i \<Rightarrow> snd (l4_flush E i s) | Read_Events dLen reads \<Rightarrow> fst (snd (snd (l4_readEvents E dLen reads s))))"

lemma calls_keep_l4_inv:
  assumes "handles_ok E" "masks_ok (l4_masks E)" and "l4_inv E s"
  shows "l4_inv E (fold (l4_do E) cs s)"
  using assms(3)
  by (induction cs arbitrary: s)
     (auto simp: l4_do_def assms(1,2) setEnable_keeps_l4_inv batch_keeps_l4_inv flush_keeps_l4_inv read_keeps_l4_inv
       split: l4_call.split)

text \<open>C5: after any sequence of calls and reads on a new driver whose hub starts with everything off, the invariant
  holds. Each bit of the two masks is set exactly when an enabled sensor needs it (the compass for magnetometer or
  orientation, the glance for either gesture), but for the bit of motion detection, which the moto glance gesture moves
  too: it is set while both sensors are on, clear while both are off, and with just one of them on set or clear. The masks last sent to the hub (0 when none was sent) are those kept, and the rates of compass and gyroscope are the smallest
  requested by an enabled sensor, sent whenever there is one.\<close>

theorem l4_masks_follow_handles:
  assumes "handles_ok E" and "masks_ok (l4_masks E)" and "\<And>rs. reply_flags E rs = (0, 0, 0)"
  shows "l4_inv E (fold (l4_do E) calls (new_HubSensors E files))"
  by (rule calls_keep_l4_inv [OF assms(1,2) new_HubSensors_inv(1) [OF assms(3)]])

theorem l4_masks_follow_handles_witness:
  "l4_inv plain_l4 (fold (l4_do plain_l4) [Batch 3 20000000 0, Activate 3 1, Activate 4 1, Activate 3 0] plain_l4_hub)"
  using l4_masks_follow_handles [OF plain_l4_ok, of "[Batch 3 20000000 0, Activate 3 1, Activate 4 1, Activate 3 0]" "\<lambda>_. None"]
  by (simp add: plain_l4_hub_def plain_l4_def)

section \<open>Instances\<close>

lemma load_cal_queue [simp]:
  "pendingEvents (load_mag_cal E s) = pendingEvents s" "nextPendingEvent (load_mag_cal E s) = nextPendingEvent s"
  "pendingEvents (load_gyro_cal E s) = pendingEvents s" "nextPendingEvent (load_gyro_cal E s) = nextPendingEvent s"
  "pendingEvents (load_accel_cal E s) = pendingEvents s" "nextPendingEvent (load_accel_cal E s) = nextPendingEvent s"
  by (simp_all add: load_mag_cal_def load_gyro_cal_def load_accel_cal_def Let_def split: option.split)

lemma new_HubSensors_queue: "pendingEvents (new_HubSensors E files) = []" "nextPendingEvent (new_HubSensors E files) = 0"
  by (simp_all add: new_HubSensors_def Let_def case_prod_beta) (simp_all add: zero_l4_def)

lemma plain_l4_queue: "queue_ok plain_l4_hub" "queue plain_l4_hub = []" "emptied plain_l4_hub = plain_l4_hub"
proof -
  have q: "pendingEvents plain_l4_hub = []" "nextPendingEvent plain_l4_hub = 0"
    by (simp_all add: plain_l4_hub_def new_HubSensors_queue)
  then show "queue_ok plain_l4_hub" "queue plain_l4_hub = []" by (simp_all add: queue_ok_def queue_def)
  from queue_ok_emptied [OF this] show "emptied plain_l4_hub = plain_l4_hub" .
qed

definition stowed_message :: l4_message where
  "stowed_message = \<lparr>m_type = DT_STOWED, m_data = (\<lambda>_. 1), m_status = 0, m_time = 7\<rparr>"

definition stowed_event :: "real l4_event" where
  "stowed_event = l4_out plain_l4 ID_S SENSOR_TYPE_STOWED stowed_message (Data [f_of_int (flt plain_l4) 1])"

lemma stowed_step: "l4_message_step plain_l4 r stowed_message s = (s, [stowed_event])"
proof -
  have m: "m_type stowed_message = DT_STOWED" "m_data stowed_message 0 = 1" by (simp_all add: stowed_message_def)
  show ?thesis by (simp add: l4_message_step_def unsupported_def l4_step_def motion_case_def ambient_case_def gesture_case_def Let_def stowed_event_def m)
qed

lemma no_pending: "hasPendingEvents plain_l4_hub = False"
  using queue_empty [OF plain_l4_queue(1)] plain_l4_queue(2) by (simp add: hasPendingEvents_def)

theorem l4_cuts_do_not_matter_witness:
  "l4_stream plain_l4 [stowed_message, stowed_message, stowed_message] plain_l4_hub
   = (plain_l4_hub, fst (l4_read_cuts plain_l4 [2, 1] (map Got_Message [stowed_message, stowed_message, stowed_message]) plain_l4_hub))"
proof -
  let ?ms = "[stowed_message, stowed_message, stowed_message]"
  have "l4_read_cuts plain_l4 [2, 1] (map Got_Message ?ms) plain_l4_hub = ([stowed_event, stowed_event, stowed_event], [], plain_l4_hub)"
    by (simp add: l4_readEvents_def no_pending stowed_step Let_def)
  with l4_cuts_do_not_matter [OF plain_l4_queue(1) _ this] plain_l4_queue show ?thesis by simp
qed

theorem l4_readEvents_fits_witness:
  "length (snd (snd (snd (l4_readEvents plain_l4 1 [Got_Message stowed_message, Got_Errno 5] plain_l4_hub)))) \<le> 1"
proof -
  obtain ret rest s' evs where r: "l4_readEvents plain_l4 1 [Got_Message stowed_message, Got_Errno 5] plain_l4_hub = (ret, rest, s', evs)"
    by (metis prod_cases4)
  from l4_readEvents_fits [OF plain_l4_queue(1) _ r] show ?thesis by (simp add: r)
qed

theorem l4_read_error_drops_events_witness:
  "fst (l4_readEvents plain_l4 8 [Got_Message stowed_message, Got_Errno 5] plain_l4_hub) = - 5"
proof -
  have "l4_stream plain_l4 [stowed_message] plain_l4_hub = (plain_l4_hub, [stowed_event])"
    by (simp add: stowed_step)
  from l4_read_error_drops_events [OF plain_l4_queue(1,2) this, of 8 5 "[]"] show ?thesis by simp
qed

end
