(* ===== verification/Event_Loop.thy ===== *)
theory Event_Loop
  imports Input_Drivers
begin

text \<open>
  What the drivers of input devices of the other HALs share: input events with the codes they look at, and the loop of
  \<open>readEvents\<close>, which takes events from the circular reader while there is room for output. A driver is an
  \<open>emit\<close> function that handles one input event and gives at most one output (locale \<open>emitter\<close>); the loop then is
  a cut of running it over the whole stream.
\<close>

section \<open>Input events\<close>

datatype abs_code = ABS_DISTANCE | ABS_MISC | ABS_HAT1X | ABS_HAT0Y | ABS_GAS | ABS_OTHER int

record abs_event =
  ae_type :: ev_type
  ae_code :: abs_code
  ae_value :: int

section \<open>The loop\<close>

definition emit_step :: "('e \<Rightarrow> 'p \<Rightarrow> 'p \<times> 'o list) \<Rightarrow> 'e \<Rightarrow> int \<times> 'p \<times> 'o list \<Rightarrow> int \<times> 'p \<times> 'o list" where
  "emit_step emit e = (\<lambda>(count, p, out). let (p', new) = emit e p in (count - int (length new), p', out @ new))"

definition has_room :: "int \<times> 'p \<times> 'o list \<Rightarrow> bool" where
  "has_room = (\<lambda>(count, p, out). count \<noteq> 0)"

lemma emit_step_apply [simp]:
  "emit_step emit e (count, p, out) = (count - int (length (snd (emit e p))), fst (emit e p), out @ snd (emit e p))"
  "has_room (count, p, out) = (count \<noteq> 0)"
  by (simp_all add: emit_step_def has_room_def case_prod_beta)

text \<open>\<open>readEvents\<close> from \<open>fill\<close> to its end. The fuel is one more than the reader can hold.\<close>

definition emit_loop :: "('e \<Rightarrow> 'p \<Rightarrow> 'p \<times> 'o list) \<Rightarrow> (nat \<Rightarrow> 'e read_result) \<Rightarrow> int \<Rightarrow> 'e reader \<Rightarrow> 'p \<Rightarrow>
    ('e reader \<times> 'p \<times> 'o list) option" where
  "emit_loop emit dev count r p =
     (let (n, r1) = fill dev r
      in if n < 0 then Some (r1, p, [])
         else map_option (\<lambda>(r2, (_, p2, out)). (r2, p2, out))
           (drain peek_event next_event has_room (emit_step emit) (Suc (mBufferEnd r)) (r1, (count, p, []))))"

text \<open>Running over a whole stream: the last state and all outputs.\<close>

fun run_emit :: "('e \<Rightarrow> 'p \<Rightarrow> 'p \<times> 'o list) \<Rightarrow> 'e list \<Rightarrow> 'p \<Rightarrow> 'p \<times> 'o list" where
  "run_emit emit [] p = (p, [])"
| "run_emit emit (e # es) p = (let (p1, new) = emit e p; (p2, out) = run_emit emit es p1 in (p2, new @ out))"

lemma run_emit_append:
  "run_emit emit (a @ b) p = (let (p1, o1) = run_emit emit a p; (p2, o2) = run_emit emit b p1 in (p2, o1 @ o2))"
  by (induction a arbitrary: p) (simp_all add: Let_def case_prod_beta)

locale emitter =
  fixes emit :: "'e \<Rightarrow> 'p \<Rightarrow> 'p \<times> 'o list"
  assumes at_most_one: "length (snd (emit e p)) \<le> 1"
begin

lemma consume_emit:
  assumes "0 \<le> count" and "consume has_room (emit_step emit) es (count, p, out) = (left, count', p', out')"
  shows "\<exists>used new. es = used @ left \<and> run_emit emit used p = (p', new) \<and> out' = out @ new
    \<and> int (length new) \<le> count \<and> (left \<noteq> [] \<longrightarrow> int (length new) = count)"
  using assms
proof (induction es arbitrary: count p out)
  case (Cons e es)
  show ?case
  proof (cases "count = 0")
    case True
    with Cons.prems show ?thesis by (intro exI [of _ "[]"]) auto
  next
    case False
    obtain p1 new1 where e: "emit e p = (p1, new1)" by fastforce
    have "length new1 \<le> 1" using at_most_one [of e p] by (simp add: e)
    with False Cons.prems have "0 \<le> count - int (length new1)"
      "consume has_room (emit_step emit) es (count - int (length new1), p1, out @ new1) = (left, count', p', out')"
      by (simp_all add: e)
    from Cons.IH [OF this] obtain used new where "es = used @ left" "run_emit emit used p1 = (p', new)"
      "out' = (out @ new1) @ new" "int (length new) \<le> count - int (length new1)"
      "left \<noteq> [] \<longrightarrow> int (length new) = count - int (length new1)" by blast
    then show ?thesis by (intro exI [of _ "e # used"] exI [of _ "new1 @ new"]) (auto simp: e)
  qed
qed auto

text \<open>Once the reader is filled, the loop runs over a first part of what it holds; the rest stays.\<close>

lemma loop_filled:
  assumes f: "fill dev r = (n, r1)" "0 \<le> n" and r1: "reader_inv r1" "mBufferEnd r1 = mBufferEnd r" and count: "0 \<le> count"
  shows "\<exists>r' p' out used. emit_loop emit dev count r p = Some (r', p', out) \<and> reader_abs r1 = used @ reader_abs r'
    \<and> run_emit emit used p = (p', out) \<and> reader_inv r' \<and> mBufferEnd r' = mBufferEnd r \<and> int (length out) \<le> count
    \<and> (reader_abs r' \<noteq> [] \<longrightarrow> int (length out) = count)"
proof -
  have "length (reader_abs r1) < Suc (mBufferEnd r)" using input_queue.bounded [OF r1(1)] r1(2) by simp
  from input_queue.drain_consume [OF r1(1) this, of has_room "emit_step emit" "(count, p, [])"]
  obtain r2 where r2: "drain peek_event next_event has_room (emit_step emit) (Suc (mBufferEnd r)) (r1, (count, p, []))
      = Some (r2, snd (consume has_room (emit_step emit) (reader_abs r1) (count, p, [])))"
    "reader_inv r2" "reader_abs r2 = fst (consume has_room (emit_step emit) (reader_abs r1) (count, p, []))"
    "mBufferEnd r2 = mBufferEnd r1" by blast
  obtain left count' p' out where c: "consume has_room (emit_step emit) (reader_abs r1) (count, p, []) = (left, count', p', out)"
    by (metis prod_cases4)
  from consume_emit [OF count c] r1 r2 f c show ?thesis by (auto simp: emit_loop_def)
qed

text \<open>Whatever the device answers, the loop ends, keeps the reader, and writes at most what fits.\<close>

lemma loop_returns:
  assumes inv: "reader_inv r" and ok: "dev_ok dev" and count: "0 \<le> count"
  shows "\<exists>r' p' out used. emit_loop emit dev count r p = Some (r', p', out) \<and> reader_inv r'
    \<and> mBufferEnd r' = mBufferEnd r \<and> run_emit emit used p = (p', out) \<and> int (length out) \<le> count"
proof (cases "fst (fill dev r) < 0")
  case True
  with fill_keeps [OF inv ok] count show ?thesis
    by (auto simp: emit_loop_def case_prod_beta intro!: exI [of _ "[]"])
next
  case False
  obtain n r1 where "fill dev r = (n, r1)" by fastforce
  with loop_filled [OF this _ _ _ count] fill_keeps [OF inv ok] False show ?thesis by fastforce
qed

end

text \<open>Successive reads: each call of \<open>readEvents\<close> has room for \<open>count\<close> events and finds \<open>k\<close> input
  events available; the device holds \<open>rest\<close>.\<close>

fun emit_reads :: "('e \<Rightarrow> 'p \<Rightarrow> 'p \<times> 'o list) \<Rightarrow> (int \<times> nat) list \<Rightarrow> 'e reader \<times> 'p \<times> 'e list \<Rightarrow>
    ('e reader \<times> 'p \<times> 'e list \<times> 'o list) option" where
  "emit_reads emit [] (r, p, rest) = Some (r, p, rest, [])"
| "emit_reads emit ((count, k) # ds) (r, p, rest) =
     (case emit_loop emit (\<lambda>n. Read_Events (take (min k n) rest) 0) count r p of
        None \<Rightarrow> None
      | Some (r1, p1, o1) \<Rightarrow> map_option (\<lambda>(r2, p2, rest2, o2). (r2, p2, rest2, o1 @ o2))
          (emit_reads emit ds (r1, p1, drop (min k (mFreeSpace r)) rest)))"

lemma fill_take:
  assumes "reader_inv r"
  shows "\<exists>n r1. fill (\<lambda>n. Read_Events (take (min k n) rest) 0) r = (n, r1) \<and> 0 \<le> n \<and> reader_inv r1
    \<and> mBufferEnd r1 = mBufferEnd r \<and> reader_abs r1 @ drop (min k (mFreeSpace r)) rest = reader_abs r @ rest"
proof (cases "mFreeSpace r = 0")
  case True
  with assms show ?thesis by (simp add: fill_def)
next
  case False
  from fill_queue [OF assms _ False, of "\<lambda>n. Read_Events (take (min k n) rest) 0", OF refl] show ?thesis
    by (cases "fill (\<lambda>n. Read_Events (take (min k n) rest) 0) r") auto
qed

context emitter begin

lemma reads_stream:
  assumes "reader_inv r" and "\<forall>d\<in>set ds. 0 \<le> fst d"
  shows "\<exists>r' p' rest' out used. emit_reads emit ds (r, p, rest) = Some (r', p', rest', out)
    \<and> reader_abs r @ rest = used @ reader_abs r' @ rest' \<and> run_emit emit used p = (p', out) \<and> reader_inv r'
    \<and> mBufferEnd r' = mBufferEnd r"
  using assms
proof (induction ds arbitrary: r p rest)
  case Nil
  then show ?case by (auto intro: exI [of _ "[]"])
next
  case (Cons d ds)
  obtain count k where d: "d = (count, k)" by fastforce
  let ?dev = "\<lambda>n. Read_Events (take (min k n) rest) 0" and ?rest = "drop (min k (mFreeSpace r)) rest"
  obtain n r1 where f: "fill ?dev r = (n, r1)" "0 \<le> n" "reader_inv r1" "mBufferEnd r1 = mBufferEnd r"
    and st: "reader_abs r1 @ ?rest = reader_abs r @ rest" using fill_take [OF Cons.prems(1)] by blast
  from loop_filled [OF f, of count p] Cons.prems(2) obtain r2 p2 o1 used1 where
    l: "emit_loop emit ?dev count r p = Some (r2, p2, o1)" "reader_abs r1 = used1 @ reader_abs r2"
      "run_emit emit used1 p = (p2, o1)" "reader_inv r2" "mBufferEnd r2 = mBufferEnd r" by (auto simp: d)
  from Cons.IH [OF l(4), of p2 ?rest] Cons.prems(2) obtain r' p' rest' o2 used2 where
    i: "emit_reads emit ds (r2, p2, ?rest) = Some (r', p', rest', o2)" "reader_abs r2 @ ?rest = used2 @ reader_abs r' @ rest'"
      "run_emit emit used2 p2 = (p', o2)" "reader_inv r'" "mBufferEnd r' = mBufferEnd r2" by auto
  have "reader_abs r @ rest = (used1 @ used2) @ reader_abs r' @ rest'" using st l(2) i(2) by (metis append.assoc)
  moreover have "run_emit emit (used1 @ used2) p = (p', o1 @ o2)" using l(3) i(3) by (simp add: run_emit_append)
  moreover have "emit_reads emit (d # ds) (r, p, rest) = Some (r', p', rest', o1 @ o2)" using l(1) i(1) by (simp add: d)
  ultimately show ?case using i(4,5) l(5) by (intro exI [of _ r'] exI [of _ p'] exI [of _ rest'] exI) auto
qed

end

text \<open>Whole numbers as an implementation of the arithmetic, for instances that are evaluated.\<close>

definition whole_arith :: "int farith" where
  "whole_arith = \<lparr>f_of_int = (\<lambda>i. i), f_lit = (\<lambda>n d. n div d), f_add = (+), f_sub = (-), f_mul = (*), f_div = (div),
     f_neg = uminus, f_abs = abs, f_sqrt = (\<lambda>x. x), f_sin = (\<lambda>x. x), f_cos = (\<lambda>x. x), f_copysign = (\<lambda>x y. x),
     f_less = (<), f_le = (\<le>), f_eq = (=)\<rparr>"

end
