(* ===== verification/Laser_Prox.thy ===== *)
theory Laser_Prox
  imports L4_State Event_Loop
begin

text \<open>
  The driver of the laser proximity sensor of the HALs \<open>motosh_hal\<close> and \<open>vl53l0_hal\<close> (\<open>RearProxSensor.cpp\<close>, the
  same code in both). Its handle \<open>rp\<close> is a parameter: \<open>0xFE\<close> in one HAL, a constant of the kernel header in the
  other. The time of an event is never set; the sensor is switched by the attributes under \<open>/sys/kernel/range\<close>.
\<close>

section \<open>The driver\<close>

record 'f laser =
  lz_enabled :: bool
  lz_reader :: "abs_event reader"
  lz_pending :: "'f l4_event"
  lz_flush_seen :: bool

definition lz_attr :: "string \<Rightarrow> path" where
  "lz_attr attr = ''/sys/kernel/range/'' @ attr"

definition lz_handle :: "int \<Rightarrow> int" where
  "lz_handle rp = SENSORS_HANDLE_BASE + rp"

definition lz_hasSensor :: "int \<Rightarrow> int \<Rightarrow> bool" where
  "lz_hasSensor rp h \<longleftrightarrow> h = lz_handle rp"

text \<open>\<open>junk\<close> is what the constructor leaves unset: the buffer of the reader, the time and the distance. The distance is
  read back when the first attribute starts with the character of code 1; when the second cannot be read, the buffer
  still holds that character. An empty first attribute leaves the buffer indeterminate and is taken as off.\<close>

definition new_laser :: "'f farith \<Rightarrow> int \<Rightarrow> fsys \<Rightarrow> abs_event list \<times> int \<times> 'f \<Rightarrow> 'f laser" where
  "new_laser A rp fs = (\<lambda>(junk, ts0, dist0).
     let on = (case read_file fs (lz_attr ''enable_sar'') of Some (c # _) \<Rightarrow> c = CHR 0x01 | _ \<Rightarrow> False);
         dist = (if on then (case read_file fs (lz_attr ''near'') of Some (c # _) \<Rightarrow> f_of_int A (int (of_char c)) | _ \<Rightarrow> f_of_int A 1)
                 else dist0)
     in \<lparr>lz_enabled = False, lz_reader = new_reader 8 junk,
         lz_pending = \<lparr>version = SENSORS_EVENT_T_SIZE, sensor = lz_handle rp, etype = SENSOR_TYPE_PROXIMITY,
            timestamp = ts0, payload = Scalar dist\<rparr>,
         lz_flush_seen = False\<rparr>)"

definition lz_flush_event :: "int \<Rightarrow> 'f l4_event" where
  "lz_flush_event rp =
     \<lparr>version = META_DATA_VERSION, sensor = 0, etype = SENSOR_TYPE_META_DATA, timestamp = 0, payload = Flush_Complete (lz_handle rp)\<rparr>"

text \<open>The two bytes written are the digit and the terminating NUL. The result of \<open>write\<close> is not looked at.\<close>

definition lz_setEnable :: "int \<Rightarrow> int \<Rightarrow> int \<Rightarrow> 'f laser \<times> fsys \<Rightarrow> int \<times> 'f laser \<times> fsys" where
  "lz_setEnable rp h en = (\<lambda>(s, fs).
     if h \<noteq> lz_handle rp then (- EINVAL, s, fs)
     else
       let s1 = s\<lparr>lz_enabled := (en \<noteq> 0)\<rparr>;
           (ok, fs1) = write_file fs (lz_attr ''enable_sar'') ((if en \<noteq> 0 then ''1'' else ''0'') @ NUL)
       in (if ok then 0 else - EIO, s1, fs1))"

definition lz_getEnable :: "'f laser \<Rightarrow> int" where
  "lz_getEnable s = (if lz_enabled s then 1 else 0)"

text \<open>\<open>batch\<close>, with the period in nanoseconds.\<close>

definition lz_batch :: "int \<Rightarrow> int \<Rightarrow> int \<Rightarrow> fsys \<Rightarrow> int \<times> fsys" where
  "lz_batch rp h ns fs =
     (if h \<noteq> lz_handle rp then (- EINVAL, fs)
      else if ns < 0 then (- EINVAL, fs)
      else
        let txt = show_int (int32 (ns div 1000000))
        in if length txt \<ge> 32 then (- EINVAL, fs)
           else let (ok, fs1) = write_file fs (lz_attr ''set_delay_ms'') (txt @ NUL) in (if ok then 0 else - EIO, fs1))"

definition REAR_PROX_DT_FLUSH :: int where "REAR_PROX_DT_FLUSH = 1"

definition lz_processEvent :: "'f farith \<Rightarrow> abs_code \<Rightarrow> int \<Rightarrow> 'f l4_event \<Rightarrow> 'f l4_event" where
  "lz_processEvent A c v p = (if c = ABS_DISTANCE then p\<lparr>payload := Scalar (f_of_int A v)\<rparr> else p)"

text \<open>One turn of the loop of \<open>readEvents\<close>: the pending event and what is reported.\<close>

definition lz_emit :: "'f farith \<Rightarrow> int \<Rightarrow> abs_event \<Rightarrow> 'f l4_event \<Rightarrow> 'f l4_event \<times> 'f l4_event list" where
  "lz_emit A rp e p =
     (if ae_type e = EV_ABS
      then if ae_code e = ABS_MISC \<and> ae_value e = REAR_PROX_DT_FLUSH then (p, [lz_flush_event rp])
           else (lz_processEvent A (ae_code e) (ae_value e) p, [])
      else if ae_type e = EV_SYN then (p, [p])
      else (p, []))"

definition lz_readEvents :: "'f farith \<Rightarrow> int \<Rightarrow> (nat \<Rightarrow> abs_event read_result) \<Rightarrow> int \<Rightarrow> 'f laser \<Rightarrow>
    ('f laser \<times> 'f l4_event list) option" where
  "lz_readEvents A rp dev count s =
     (if count < 1 then Some (s, [])
      else map_option (\<lambda>(r, p, out). (s\<lparr>lz_reader := r, lz_pending := p\<rparr>, out))
        (emit_loop (lz_emit A rp) dev count (lz_reader s) (lz_pending s)))"

definition lz_flush :: "int \<Rightarrow> int \<Rightarrow> 'f laser \<times> fsys \<Rightarrow> int \<times> 'f laser \<times> fsys" where
  "lz_flush rp h = (\<lambda>(s, fs).
     if h \<noteq> lz_handle rp then (- EINVAL, s, fs)
     else let (ok, fs1) = write_file fs (lz_attr ''enable_sar'') (''2'' @ NUL)
          in if ok then (0, s\<lparr>lz_flush_seen := True\<rparr>, fs1) else (- EIO, s, fs1))"

interpretation laser_emit: emitter "lz_emit A rp" for A :: "'f farith" and rp
  by unfold_locales (simp add: lz_emit_def)

section \<open>Properties\<close>

text \<open>A read in any state ends, writes at most what fits and keeps the reader.\<close>

lemma lz_readEvents_returns:
  assumes "reader_inv (lz_reader s)" and "dev_ok dev"
  shows "\<exists>s' out. lz_readEvents A rp dev count s = Some (s', out) \<and> reader_inv (lz_reader s')
    \<and> int (length out) \<le> max 0 count"
proof (cases "count < 1")
  case True
  with assms show ?thesis by (simp add: lz_readEvents_def)
next
  case False
  with laser_emit.loop_returns [OF assms, of count A rp "lz_pending s"] show ?thesis
    by (auto simp: lz_readEvents_def)
qed

text \<open>What a stream of input events reports: a distance per synchronisation, a completion per flush marker.\<close>

fun lz_reports :: "'f farith \<Rightarrow> int \<Rightarrow> abs_event list \<Rightarrow> 'f l4_event \<Rightarrow> 'f l4_event list" where
  "lz_reports A rp [] p = []"
| "lz_reports A rp (e # es) p = snd (lz_emit A rp e p) @ lz_reports A rp es (fst (lz_emit A rp e p))"

lemma run_lz_reports: "snd (run_emit (lz_emit A rp) es p) = lz_reports A rp es p"
  by (induction es arbitrary: p) (simp_all add: case_prod_beta)

definition is_flush_mark :: "abs_event \<Rightarrow> bool" where
  "is_flush_mark e \<longleftrightarrow> ae_type e = EV_ABS \<and> ae_code e = ABS_MISC \<and> ae_value e = REAR_PROX_DT_FLUSH"

lemma lz_emit_type:
  "etype p \<noteq> SENSOR_TYPE_META_DATA \<Longrightarrow> etype (fst (lz_emit A rp e p)) \<noteq> SENSOR_TYPE_META_DATA
   \<and> filter (\<lambda>v. etype v = SENSOR_TYPE_META_DATA) (snd (lz_emit A rp e p)) = (if is_flush_mark e then [lz_flush_event rp] else [])"
  by (auto simp: lz_emit_def lz_processEvent_def is_flush_mark_def lz_flush_event_def)

lemma lz_reports_flushes:
  "etype p \<noteq> SENSOR_TYPE_META_DATA \<Longrightarrow>
   filter (\<lambda>v. etype v = SENSOR_TYPE_META_DATA) (lz_reports A rp es p) = replicate (length (filter is_flush_mark es)) (lz_flush_event rp)"
  by (induction es arbitrary: p) (auto simp: lz_emit_type)


lemma lz_reports_time: "v \<in> set (lz_reports A rp es p) \<Longrightarrow> timestamp v = timestamp p \<or> v = lz_flush_event rp"
proof (induction es arbitrary: p)
  case (Cons e es)
  have "timestamp (fst (lz_emit A rp e p)) = timestamp p" by (simp add: lz_emit_def lz_processEvent_def)
  with Cons.IH [of "fst (lz_emit A rp e p)"] Cons.prems show ?case by (auto simp: lz_emit_def split: if_splits)
qed simp

text \<open>However the reads cut the stream of input events, what the driver has reported is what the events taken so far
  ask for, in their order: the last distance at each synchronisation and one completion for each flush marker; the
  events not yet taken are still in the reader and the device. Every report but a completion carries the time the pending
  event was created with.\<close>

theorem laser_stream_intact:
  assumes "reader_inv r" and "\<forall>d\<in>set ds. 0 \<le> fst d" and "etype p \<noteq> SENSOR_TYPE_META_DATA"
  shows "\<exists>r' p' rest' out used. emit_reads (lz_emit A rp) ds (r, p, rest) = Some (r', p', rest', out)
    \<and> reader_abs r @ rest = used @ reader_abs r' @ rest' \<and> out = lz_reports A rp used p
    \<and> filter (\<lambda>v. etype v = SENSOR_TYPE_META_DATA) out = replicate (length (filter is_flush_mark used)) (lz_flush_event rp)
    \<and> (\<forall>v\<in>set out. timestamp v = timestamp p \<or> v = lz_flush_event rp)"
proof -
  from laser_emit.reads_stream [OF assms(1,2), of A rp p rest] obtain r' p' rest' out used where
    e: "emit_reads (lz_emit A rp) ds (r, p, rest) = Some (r', p', rest', out)" "reader_abs r @ rest = used @ reader_abs r' @ rest'"
      "run_emit (lz_emit A rp) used p = (p', out)" by blast
  have "out = lz_reports A rp used p" using run_lz_reports [of A rp used p] e(3) by simp
  with e lz_reports_flushes [OF assms(3), of A rp used] lz_reports_time [of _ A rp used p] show ?thesis by blast
qed

definition plain_laser :: "real laser" where
  "plain_laser = new_laser real_arith 0xFE \<lparr>content = (\<lambda>_. None), write_fails = (\<lambda>_. False)\<rparr>
     (replicate 16 \<lparr>ae_type = EV_SYN, ae_code = ABS_OTHER 0, ae_value = 0\<rparr>, 0, 0)"

lemma plain_laser_inv: "reader_inv (lz_reader plain_laser)" "etype (lz_pending plain_laser) \<noteq> SENSOR_TYPE_META_DATA"
  using reader_inv_new [of 8 "replicate 16 \<lparr>ae_type = EV_SYN, ae_code = ABS_OTHER 0, ae_value = 0\<rparr>"]
  by (simp_all add: plain_laser_def new_laser_def Let_def)

theorem laser_stream_intact_witness:
  "\<exists>r' p' rest' out. emit_reads (lz_emit real_arith 0xFE) [(1, 2), (3, 8)] (lz_reader plain_laser, lz_pending plain_laser,
      [\<lparr>ae_type = EV_ABS, ae_code = ABS_MISC, ae_value = 1\<rparr>, \<lparr>ae_type = EV_SYN, ae_code = ABS_OTHER 0, ae_value = 0\<rparr>])
    = Some (r', p', rest', out) \<and> (\<forall>v\<in>set out. timestamp v = timestamp (lz_pending plain_laser) \<or> v = lz_flush_event 0xFE)"
  using laser_stream_intact [OF plain_laser_inv(1) _ plain_laser_inv(2), where ds = "[(1, 2), (3, 8)]" and A = real_arith and rp = "0xFE"
      and rest = "[\<lparr>ae_type = EV_ABS, ae_code = ABS_MISC, ae_value = 1\<rparr>, \<lparr>ae_type = EV_SYN, ae_code = ABS_OTHER 0, ae_value = 0\<rparr>]"] by auto

end
