(* ===== verification/Base_Hal.thy ===== *)
theory Base_Hal
  imports Prelude
begin

text \<open>
  The framework that the HALs of the L4 hub and of the ranging sensors are built on: the base class with its dispatch by
  handle (\<open>BaseHal.h\<close>), the poll context over the list of drivers (\<open>SensorsPollContext.cpp\<close>, in the variant of
  \<open>motosh_hal\<close> and that of \<open>tof_hal\<close> and \<open>vl53l0_hal\<close>) and the poll loop of the module. A driver is an object with
  the virtual functions of \<open>SensorBase\<close>: here a state with a table of operations. The contract of a driver is a locale,
  which the HALs interpret on their own drivers.
\<close>

section \<open>Drivers\<close>

text \<open>The virtual functions; \<open>'i\<close> is what the device gives to a read. A read answers a count or a negative \<open>errno\<close>,
  with the events it wrote; \<open>None\<close> is a read that does not return.\<close>

record ('d, 'i, 'e) driver_ops =
  op_hasSensor :: "'d \<Rightarrow> int \<Rightarrow> bool"
  op_hasPending :: "'d \<Rightarrow> bool"
  op_getFd :: "'d \<Rightarrow> int"
  op_setEnable :: "int \<Rightarrow> int \<Rightarrow> 'd \<times> fsys \<Rightarrow> int \<times> 'd \<times> fsys"
  op_batch :: "int \<Rightarrow> int \<Rightarrow> int \<Rightarrow> int \<Rightarrow> 'd \<times> fsys \<Rightarrow> int \<times> 'd \<times> fsys"
  op_flush :: "int \<Rightarrow> 'd \<times> fsys \<Rightarrow> int \<times> 'd \<times> fsys"
  op_readEvents :: "'i \<Rightarrow> int \<Rightarrow> 'd \<times> fsys \<Rightarrow> (int \<times> ('d \<times> fsys) \<times> 'e list) option"

text \<open>The list \<open>drivers\<close> and the files the drivers use.\<close>

type_synonym 'd hal_state = "'d list \<times> fsys"

section \<open>Dispatch\<close>

fun find_driver :: "('d, 'i, 'e) driver_ops \<Rightarrow> int \<Rightarrow> nat \<Rightarrow> 'd list \<Rightarrow> nat option" where
  "find_driver ops h i [] = None"
| "find_driver ops h i (d # ds) = (if op_hasSensor ops d h then Some i else find_driver ops h (i + 1) ds)"

definition hal_handleToDriver :: "('d, 'i, 'e) driver_ops \<Rightarrow> int \<Rightarrow> 'd list \<Rightarrow> nat option" where
  "hal_handleToDriver ops h ds = find_driver ops h 0 ds"

definition on_driver :: "('d \<times> fsys \<Rightarrow> int \<times> 'd \<times> fsys) \<Rightarrow> nat \<Rightarrow> 'd hal_state \<Rightarrow> int \<times> 'd hal_state" where
  "on_driver call i = (\<lambda>(ds, fs). let (r, d, fs1) = call (ds ! i, fs) in (r, ds[i := d], fs1))"

definition hal_activate :: "('d, 'i, 'e) driver_ops \<Rightarrow> int \<Rightarrow> int \<Rightarrow> 'd hal_state \<Rightarrow> int \<times> 'd hal_state" where
  "hal_activate ops h en st =
     (case hal_handleToDriver ops h (fst st) of None \<Rightarrow> (- EINVAL, st) | Some i \<Rightarrow> on_driver (op_setEnable ops h en) i st)"

definition hal_batch :: "('d, 'i, 'e) driver_ops \<Rightarrow> int \<Rightarrow> int \<Rightarrow> int \<Rightarrow> int \<Rightarrow> 'd hal_state \<Rightarrow> int \<times> 'd hal_state" where
  "hal_batch ops h flags ns timeout st =
     (case hal_handleToDriver ops h (fst st) of None \<Rightarrow> (- EINVAL, st) | Some i \<Rightarrow> on_driver (op_batch ops h flags ns timeout) i st)"

definition hal_flush :: "('d, 'i, 'e) driver_ops \<Rightarrow> int \<Rightarrow> 'd hal_state \<Rightarrow> int \<times> 'd hal_state" where
  "hal_flush ops h st =
     (case hal_handleToDriver ops h (fst st) of None \<Rightarrow> (- EINVAL, st) | Some i \<Rightarrow> on_driver (op_flush ops h) i st)"

definition hal_setDelay :: "('d, 'i, 'e) driver_ops \<Rightarrow> int \<Rightarrow> int \<Rightarrow> 'd hal_state \<Rightarrow> int \<times> 'd hal_state" where
  "hal_setDelay ops h ns st = hal_batch ops h 0 ns 0 st"

definition hal_setOperationMode :: "32 word \<Rightarrow> int" where
  "hal_setOperationMode mode = (if mode = 0 then 0 else - EINVAL)"

text \<open>\<open>getSensorsList\<close> appends what each driver offers; \<open>offers\<close> is that virtual function.\<close>

definition hal_getSensorsList :: "('d \<Rightarrow> 's list) \<Rightarrow> 'd list \<Rightarrow> 's list \<times> int" where
  "hal_getSensorsList offers ds = (let ls = concat (map offers ds) in (ls, int (length ls)))"

section \<open>Polling\<close>

text \<open>The answer of \<open>poll\<close> on the descriptors, interrupted calls retried: which drivers are readable, a time-out or an
  error.\<close>

datatype sys_poll = Sys_Ready "nat \<Rightarrow> bool" | Sys_Timeout | Sys_Failed int

text \<open>What the loops of one call of \<open>poll\<close> carry: \<open>count\<close>, \<open>nbEvents\<close>, the buffer written so far and the drivers. What
  a read that fails has written is overwritten by the next.\<close>

type_synonym ('d, 'e) polling = "int \<times> int \<times> 'e list \<times> 'd hal_state"

definition eventReader :: "('d, 'i, 'e) driver_ops \<Rightarrow> (nat \<Rightarrow> 'i) \<Rightarrow> nat \<Rightarrow> ('d, 'e) polling \<Rightarrow> (int \<times> ('d, 'e) polling) option" where
  "eventReader ops inp i = (\<lambda>(count, nbEvents, buf, ds, fs).
     case op_readEvents ops (inp i) count (ds ! i, fs) of
       None \<Rightarrow> None
     | Some (nb, (d, fs1), new) \<Rightarrow>
         if nb > 0 then Some (nb, count - nb, nbEvents + nb, buf @ new, ds[i := d], fs1)
         else Some (nb, count, nbEvents, buf, ds[i := d], fs1))"

fun read_pending :: "('d, 'i, 'e) driver_ops \<Rightarrow> (nat \<Rightarrow> 'i) \<Rightarrow> nat list \<Rightarrow> ('d, 'e) polling \<Rightarrow> ('d, 'e) polling option" where
  "read_pending ops inp [] st = Some st"
| "read_pending ops inp (i # is) st =
     (case st of (count, nbEvents, buf, ds, fs) \<Rightarrow>
        if op_hasPending ops (ds ! i)
        then (case eventReader ops inp i st of None \<Rightarrow> None | Some (nb, st') \<Rightarrow> read_pending ops inp is st')
        else read_pending ops inp is st)"

text \<open>The loop over the descriptors in \<open>motosh_hal\<close>: the first ready driver without events ends the call with 0.\<close>

fun read_ready_strict :: "('d, 'i, 'e) driver_ops \<Rightarrow> (nat \<Rightarrow> 'i) \<Rightarrow> (nat \<Rightarrow> bool) \<Rightarrow> nat list \<Rightarrow> ('d, 'e) polling \<Rightarrow>
    (bool \<times> ('d, 'e) polling) option" where
  "read_ready_strict ops inp ready [] st = Some (True, st)"
| "read_ready_strict ops inp ready (i # is) st =
     (if ready i
      then (case eventReader ops inp i st of
              None \<Rightarrow> None
            | Some (nb, st') \<Rightarrow> if nb \<le> 0 then Some (False, st') else read_ready_strict ops inp ready is st')
      else read_ready_strict ops inp ready is st)"

text \<open>The loop in the other HALs: an error is only logged.\<close>

fun read_ready :: "('d, 'i, 'e) driver_ops \<Rightarrow> (nat \<Rightarrow> 'i) \<Rightarrow> (nat \<Rightarrow> bool) \<Rightarrow> nat list \<Rightarrow> ('d, 'e) polling \<Rightarrow> ('d, 'e) polling option" where
  "read_ready ops inp ready [] st = Some st"
| "read_ready ops inp ready (i # is) st =
     (if ready i
      then (case eventReader ops inp i st of None \<Rightarrow> None | Some (nb, st') \<Rightarrow> read_ready ops inp ready is st')
      else read_ready ops inp ready is st)"

text \<open>The constructor registers the drivers that have a descriptor.\<close>

definition pollFds :: "('d, 'i, 'e) driver_ops \<Rightarrow> 'd list \<Rightarrow> nat list" where
  "pollFds ops ds = filter (\<lambda>i. op_getFd ops (ds ! i) \<ge> 0) [0..<length ds]"

text \<open>The return value, what is in the buffer, and the drivers.\<close>

definition poll_result :: "('d, 'e) polling \<Rightarrow> int \<times> 'e list \<times> 'd hal_state" where
  "poll_result = (\<lambda>(count, nbEvents, buf, st). (if nbEvents \<ge> 0 then nbEvents else 0, buf, st))"

definition hal_poll :: "bool \<Rightarrow> ('d, 'i, 'e) driver_ops \<Rightarrow> (nat \<Rightarrow> 'i) \<Rightarrow> (nat \<Rightarrow> 'i) \<Rightarrow> sys_poll \<Rightarrow> bool \<Rightarrow> int \<Rightarrow> 'd hal_state \<Rightarrow>
    (int \<times> 'e list \<times> 'd hal_state) option" where
  "hal_poll strict ops pend inp answer has_data count st =
     (if \<not> has_data then Some (- EINVAL, [], st)
      else if count < 1 then Some (- EINVAL, [], st)
      else
        case read_pending ops pend [0..<length (fst st)] (count, 0, [], st) of
          None \<Rightarrow> None
        | Some (count1, nbEvents, buf, st1) \<Rightarrow>
            if nbEvents \<noteq> 0 then Some (nbEvents, buf, st1)
            else
              case answer of
                Sys_Ready ready \<Rightarrow>
                  if strict
                  then (case read_ready_strict ops inp ready (pollFds ops (fst st1)) (count1, nbEvents, buf, st1) of
                          None \<Rightarrow> None
                        | Some (True, p) \<Rightarrow> Some (poll_result p)
                        | Some (False, (count2, nb2, buf2, st2)) \<Rightarrow> Some (0, buf2, st2))
                  else map_option poll_result (read_ready ops inp ready (pollFds ops (fst st1)) (count1, nbEvents, buf, st1))
              | _ \<Rightarrow> Some (poll_result (count1, nbEvents, buf, st1)))"

text \<open>The module's \<open>poll\<close> repeats the call until it does not answer 0. Each round comes with what the system gives; when
  they run out the loop has not ended. The caller gets as many events of the buffer as the return value says.\<close>

fun module_poll :: "bool \<Rightarrow> ('d, 'i, 'e) driver_ops \<Rightarrow> ((nat \<Rightarrow> 'i) \<times> (nat \<Rightarrow> 'i) \<times> sys_poll) list \<Rightarrow> bool \<Rightarrow> int \<Rightarrow> 'd hal_state \<Rightarrow>
    (int \<times> 'e list \<times> 'd hal_state) option" where
  "module_poll strict ops [] has_data count st = None"
| "module_poll strict ops ((pend, inp, answer) # rounds) has_data count st =
     (case hal_poll strict ops pend inp answer has_data count st of
        None \<Rightarrow> None
      | Some (ret, buf, st') \<Rightarrow>
          if ret = 0 then module_poll strict ops rounds has_data count st' else Some (ret, take (nat ret) buf, st'))"

section \<open>The contract of a driver\<close>

locale base_driver =
  fixes ops :: "('d, 'i, 'e) driver_ops"
    and good :: "'d \<Rightarrow> bool"
    and fair :: "'i \<Rightarrow> bool"
  assumes reads: "good d \<Longrightarrow> fair i \<Longrightarrow> 0 \<le> count \<Longrightarrow>
    \<exists>nb d' fs' new. op_readEvents ops i count (d, fs) = Some (nb, (d', fs'), new) \<and> good d' \<and> nb \<le> count
      \<and> (0 < nb \<longrightarrow> nb = int (length new))"
begin

definition poll_ok :: "int \<Rightarrow> ('d, 'e) polling \<Rightarrow> bool" where
  "poll_ok room = (\<lambda>(count, nbEvents, buf, ds, fs).
     0 \<le> count \<and> count + nbEvents = room \<and> nbEvents = int (length buf) \<and> (\<forall>d\<in>set ds. good d))"

lemma eventReader_ok:
  assumes "poll_ok room st" and "fair (inp i)" and "i < length (fst (snd (snd (snd st))))"
  shows "\<exists>nb st'. eventReader ops inp i st = Some (nb, st') \<and> poll_ok room st'
    \<and> length (fst (snd (snd (snd st')))) = length (fst (snd (snd (snd st))))"
proof -
  obtain count nbEvents buf ds fs where st: "st = (count, nbEvents, buf, ds, fs)" by (metis prod_cases5)
  with assms have g: "good (ds ! i)" "0 \<le> count" by (auto simp: poll_ok_def)
  from reads [OF g(1) assms(2) g(2), of fs] obtain nb d' fs' new where
    r: "op_readEvents ops (inp i) count (ds ! i, fs) = Some (nb, (d', fs'), new)" "good d'" "nb \<le> count"
      "0 < nb \<longrightarrow> nb = int (length new)" by blast
  have "\<forall>d\<in>set (ds[i := d']). good d"
    using assms(1) r(2) set_update_subset_insert [of ds i d'] by (auto simp: poll_ok_def st)
  with r assms(1) show ?thesis by (auto simp: eventReader_def st poll_ok_def)
qed

lemma read_pending_ok:
  assumes "poll_ok room st" and "\<forall>i. fair (inp i)" and "\<forall>i\<in>set is. i < length (fst (snd (snd (snd st))))"
  shows "\<exists>st'. read_pending ops inp is st = Some st' \<and> poll_ok room st'
    \<and> length (fst (snd (snd (snd st')))) = length (fst (snd (snd (snd st))))"
  using assms
proof (induction "is" arbitrary: st)
  case (Cons i "is")
  from eventReader_ok [OF Cons.prems(1), of inp i] Cons.prems obtain nb st1 where
    e: "eventReader ops inp i st = Some (nb, st1)" "poll_ok room st1"
      "length (fst (snd (snd (snd st1)))) = length (fst (snd (snd (snd st))))" by auto
  show ?case using Cons.IH [OF e(2)] Cons.IH [OF Cons.prems(1)] Cons.prems(2,3) e by (auto split: prod.split)
qed simp

lemma read_ready_ok:
  assumes "poll_ok room st" and "\<forall>i. fair (inp i)" and "\<forall>i\<in>set is. i < length (fst (snd (snd (snd st))))"
  shows "(\<exists>st'. read_ready ops inp ready is st = Some st' \<and> poll_ok room st')
    \<and> (\<exists>c st'. read_ready_strict ops inp ready is st = Some (c, st') \<and> poll_ok room st')"
  using assms
proof (induction "is" arbitrary: st)
  case (Cons i "is")
  from eventReader_ok [OF Cons.prems(1), of inp i] Cons.prems obtain nb st1 where
    e: "eventReader ops inp i st = Some (nb, st1)" "poll_ok room st1"
      "length (fst (snd (snd (snd st1)))) = length (fst (snd (snd (snd st))))" by auto
  show ?case using Cons.IH [OF e(2)] Cons.IH [OF Cons.prems(1)] Cons.prems(2,3) e by (cases "ready i"; cases "nb \<le> 0") (auto simp del: split_paired_Ex)
qed auto

lemma poll_ok_result:
  "poll_ok room p \<Longrightarrow> \<exists>buf ds fs. poll_result p = (int (length buf), buf, ds, fs) \<and> int (length buf) \<le> room
     \<and> (\<forall>d\<in>set ds. good d) \<and> fst (snd (snd p)) = buf \<and> snd (snd (snd p)) = (ds, fs)"
  by (cases p) (auto simp: poll_result_def poll_ok_def)

text \<open>One call answers; it says as many events as the buffer holds, and they fit, unless it gives up and says 0.\<close>

lemma hal_poll_ok:
  assumes "\<forall>d\<in>set ds. good d" and "\<forall>i. fair (pend i)" and "\<forall>i. fair (inp i)" and "1 \<le> count"
  shows "\<exists>ret buf ds' fs'. hal_poll strict ops pend inp answer True count (ds, fs) = Some (ret, buf, ds', fs')
    \<and> (\<forall>d\<in>set ds'. good d) \<and> 0 \<le> ret \<and> int (length buf) \<le> count \<and> (ret = int (length buf) \<or> strict \<and> ret = 0)"
proof -
  have "poll_ok count (count, 0, [], ds, fs)" using assms(1,4) by (simp add: poll_ok_def)
  from read_pending_ok [OF this assms(2), of "[0..<length ds]"] obtain count1 nb buf ds1 fs1 where
    p: "read_pending ops pend [0..<length ds] (count, 0, [], ds, fs) = Some (count1, nb, buf, ds1, fs1)"
      "poll_ok count (count1, nb, buf, ds1, fs1)" by auto
  have "\<forall>i\<in>set (pollFds ops ds1). i < length (fst (snd (snd (snd (count1, nb, buf, ds1, fs1)))))"
    by (simp add: pollFds_def)
  note r = read_ready_ok [OF p(2) assms(3) this]
  show ?thesis
  proof (cases answer)
    case (Sys_Ready ready)
    from r [of ready] obtain p1 where r1: "read_ready ops inp ready (pollFds ops ds1) (count1, nb, buf, ds1, fs1) = Some p1"
      "poll_ok count p1" by blast
    from r [of ready] obtain c p2 where
      r2: "read_ready_strict ops inp ready (pollFds ops ds1) (count1, nb, buf, ds1, fs1) = Some (c, p2)" "poll_ok count p2" by blast
    from poll_ok_result [OF r1(2)] poll_ok_result [OF r2(2)] p r1 r2 assms(4) show ?thesis
      by (cases p2; cases strict; cases c) (auto simp: hal_poll_def Sys_Ready poll_ok_def)
  qed (use poll_ok_result [OF p(2)] p assms(4) in \<open>auto simp: hal_poll_def poll_ok_def\<close>)
qed

text \<open>The module's loop: when it ends, it delivers at least one event and at most as many as fit.\<close>

lemma module_poll_ok:
  assumes "\<forall>d\<in>set ds. good d" and "\<forall>(pend, inp, answer)\<in>set rounds. (\<forall>i. fair (pend i)) \<and> (\<forall>i. fair (inp i))" and "1 \<le> count"
    and "module_poll strict ops rounds True count (ds, fs) = Some (ret, evs, ds', fs')"
  shows "1 \<le> ret \<and> ret \<le> count \<and> int (length evs) = ret \<and> (\<forall>d\<in>set ds'. good d)"
  using assms
proof (induction rounds arbitrary: ds fs)
  case (Cons r rounds)
  obtain pend inp answer where r: "r = (pend, inp, answer)" by (metis prod_cases3)
  from hal_poll_ok [OF Cons.prems(1) _ _ Cons.prems(3), of pend inp strict answer fs] Cons.prems(2) obtain ret1 buf ds1 fs1 where
    h: "hal_poll strict ops pend inp answer True count (ds, fs) = Some (ret1, buf, ds1, fs1)" "\<forall>d\<in>set ds1. good d"
      "0 \<le> ret1" "int (length buf) \<le> count" "ret1 = int (length buf) \<or> strict \<and> ret1 = 0" by (auto simp: r)
  show ?case
  proof (cases "ret1 = 0")
    case True
    with Cons.IH [OF h(2)] Cons.prems h(1) show ?thesis by (simp add: r)
  next
    case False
    with Cons.prems(4) h show ?thesis by (auto simp: r Suc_le_eq)
  qed
qed simp

end


text \<open>One driver without pending events, ready: the call answers what its read gives.\<close>

lemma hal_poll_single:
  assumes "\<not> op_hasPending ops d" and "0 \<le> op_getFd ops d" and "ready 0" and "1 \<le> count"
    and "op_readEvents ops (inp 0) count (d, fs) = Some (nb, (d', fs'), new)"
  shows "hal_poll False ops pend inp (Sys_Ready ready) True count ([d], fs)
    = Some (if 0 < nb then nb else 0, if 0 < nb then new else [], [d'], fs')"
  using assms by (simp add: hal_poll_def pollFds_def eventReader_def poll_result_def)

text \<open>Unknown handles are refused, and nothing changes.\<close>

lemma find_driver_None: "find_driver ops h i ds = None \<longleftrightarrow> (\<forall>d\<in>set ds. \<not> op_hasSensor ops d h)"
  by (induction ds arbitrary: i) auto

lemma find_driver_Some:
  "find_driver ops h i ds = Some j \<Longrightarrow> i \<le> j \<and> j - i < length ds \<and> op_hasSensor ops (ds ! (j - i)) h
    \<and> (\<forall>k < j - i. \<not> op_hasSensor ops (ds ! k) h)"
proof (induction ds arbitrary: i)
  case (Cons d ds)
  show ?case
  proof (cases "op_hasSensor ops d h")
    case False
    with Cons have IH: "i + 1 \<le> j \<and> j - (i + 1) < length ds \<and> op_hasSensor ops (ds ! (j - (i + 1))) h
      \<and> (\<forall>k < j - (i + 1). \<not> op_hasSensor ops (ds ! k) h)" by simp
    then obtain m where "j = Suc (i + m)" by (metis Suc_eq_plus1 add_Suc nat_le_iff_add)
    with IH False show ?thesis by (auto simp: nth_Cons split: nat.split)
  qed (use Cons.prems in auto)
qed simp

text \<open>The dispatch of a HAL: a call for a handle that no driver has is refused with \<open>EINVAL\<close> and changes nothing; any
  other goes to the first driver that has it, the others keep their state, and the answer is that driver's.\<close>

theorem hal_dispatch:
  "if \<forall>d\<in>set ds. \<not> op_hasSensor ops d h
   then hal_activate ops h en (ds, fs) = (- EINVAL, ds, fs) \<and> hal_batch ops h fl ns timeout (ds, fs) = (- EINVAL, ds, fs)
     \<and> hal_flush ops h (ds, fs) = (- EINVAL, ds, fs)
   else \<exists>j < length ds. op_hasSensor ops (ds ! j) h \<and> (\<forall>k < j. \<not> op_hasSensor ops (ds ! k) h)
     \<and> hal_activate ops h en (ds, fs) = on_driver (op_setEnable ops h en) j (ds, fs)
     \<and> hal_batch ops h fl ns timeout (ds, fs) = on_driver (op_batch ops h fl ns timeout) j (ds, fs)
     \<and> hal_flush ops h (ds, fs) = on_driver (op_flush ops h) j (ds, fs)"
proof (cases "find_driver ops h 0 ds")
  case None
  then have "\<forall>d\<in>set ds. \<not> op_hasSensor ops d h" by (simp only: find_driver_None)
  with None show ?thesis by (simp add: hal_activate_def hal_batch_def hal_flush_def hal_handleToDriver_def)
next
  case (Some j)
  from find_driver_Some [OF this] have "j < length ds" "op_hasSensor ops (ds ! j) h" "\<forall>k < j. \<not> op_hasSensor ops (ds ! k) h" by simp_all
  moreover from this have "\<not> (\<forall>d\<in>set ds. \<not> op_hasSensor ops d h)" by auto
  ultimately show ?thesis using Some by (auto simp: hal_activate_def hal_batch_def hal_flush_def hal_handleToDriver_def)
qed

end
