(* ===== verification/L4_Poll.thy ===== *)
theory L4_Poll
  imports L4_Stream Laser_Prox Base_Hal
begin

text \<open>
  The HAL of the L4 hub put together (\<open>motosh_hal/SensorsPollContext.cpp\<close>): the hub and the laser sensor as drivers of
  the poll context, with their descriptors as parameters. Both keep the contract of a driver; the poll loop of this HAL,
  which ends a call at the first ready driver without events, loses what the drivers before it delivered.
\<close>

section \<open>The drivers\<close>

datatype 'f l4_driver = Hub_Driver "'f l4_hub" | Laser_Driver "'f laser"

record l4_input =
  li_reads :: "l4_read list"
  li_dev :: "nat \<Rightarrow> abs_event read_result"

record l4_fds =
  hub_fd :: int
  laser_fd :: int

fun lift_driver :: "('s \<Rightarrow> 'd) \<Rightarrow> int \<times> 's \<times> fsys \<Rightarrow> int \<times> 'd \<times> fsys" where
  "lift_driver c (r, s, fs) = (r, c s, fs)"

fun with_files :: "fsys \<Rightarrow> int \<times> 's \<Rightarrow> int \<times> 's \<times> fsys" where
  "with_files fs (r, s) = (r, s, fs)"

fun l4_hasSensor :: "'f l4_env \<Rightarrow> int \<Rightarrow> 'f l4_driver \<Rightarrow> int \<Rightarrow> bool" where
  "l4_hasSensor E rp (Hub_Driver s) h = hasSensor E h"
| "l4_hasSensor E rp (Laser_Driver s) h = lz_hasSensor rp h"

fun l4_hasPending :: "'f l4_driver \<Rightarrow> bool" where
  "l4_hasPending (Hub_Driver s) = hasPendingEvents s"
| "l4_hasPending (Laser_Driver s) = False"

fun l4_getFd :: "l4_fds \<Rightarrow> 'f l4_driver \<Rightarrow> int" where
  "l4_getFd fds (Hub_Driver s) = hub_fd fds"
| "l4_getFd fds (Laser_Driver s) = laser_fd fds"

fun l4_drv_setEnable :: "'f l4_env \<Rightarrow> int \<Rightarrow> int \<Rightarrow> int \<Rightarrow> 'f l4_driver \<times> fsys \<Rightarrow> int \<times> 'f l4_driver \<times> fsys" where
  "l4_drv_setEnable E rp h en (Hub_Driver s, fs) = lift_driver Hub_Driver (with_files fs (l4_setEnable E h en s))"
| "l4_drv_setEnable E rp h en (Laser_Driver s, fs) = lift_driver Laser_Driver (lz_setEnable rp h en (s, fs))"

fun l4_drv_batch :: "'f l4_env \<Rightarrow> int \<Rightarrow> int \<Rightarrow> int \<Rightarrow> int \<Rightarrow> int \<Rightarrow> 'f l4_driver \<times> fsys \<Rightarrow> int \<times> 'f l4_driver \<times> fsys" where
  "l4_drv_batch E rp h flags ns timeout (Hub_Driver s, fs) = lift_driver Hub_Driver (with_files fs (l4_batch E h ns timeout s))"
| "l4_drv_batch E rp h flags ns timeout (Laser_Driver s, fs) = (let (r, fs1) = lz_batch rp h ns fs in (r, Laser_Driver s, fs1))"

fun l4_drv_flush :: "'f l4_env \<Rightarrow> int \<Rightarrow> int \<Rightarrow> 'f l4_driver \<times> fsys \<Rightarrow> int \<times> 'f l4_driver \<times> fsys" where
  "l4_drv_flush E rp h (Hub_Driver s, fs) = lift_driver Hub_Driver (with_files fs (l4_flush E h s))"
| "l4_drv_flush E rp h (Laser_Driver s, fs) = lift_driver Laser_Driver (lz_flush rp h (s, fs))"

fun l4_drv_readEvents :: "'f l4_env \<Rightarrow> int \<Rightarrow> l4_input \<Rightarrow> int \<Rightarrow> 'f l4_driver \<times> fsys \<Rightarrow>
    (int \<times> ('f l4_driver \<times> fsys) \<times> 'f l4_event list) option" where
  "l4_drv_readEvents E rp i count (Hub_Driver s, fs) =
     (let (ret, rest, s', evs) = l4_readEvents E count (li_reads i) s in Some (ret, (Hub_Driver s', fs), evs))"
| "l4_drv_readEvents E rp i count (Laser_Driver s, fs) =
     map_option (\<lambda>(s', evs). (int (length evs), (Laser_Driver s', fs), evs)) (lz_readEvents (flt E) rp (li_dev i) count s)"

definition l4_ops :: "'f l4_env \<Rightarrow> int \<Rightarrow> l4_fds \<Rightarrow> ('f l4_driver, l4_input, 'f l4_event) driver_ops" where
  "l4_ops E rp fds =
     \<lparr>op_hasSensor = l4_hasSensor E rp, op_hasPending = l4_hasPending, op_getFd = l4_getFd fds,
      op_setEnable = l4_drv_setEnable E rp, op_batch = l4_drv_batch E rp, op_flush = l4_drv_flush E rp,
      op_readEvents = l4_drv_readEvents E rp\<rparr>"

text \<open>The constructor makes the hub first and the laser sensor second, when the build has it.\<close>

definition l4_drivers :: "bool \<Rightarrow> 'f l4_hub \<Rightarrow> 'f laser \<Rightarrow> 'f l4_driver list" where
  "l4_drivers with_laser s l = Hub_Driver s # (if with_laser then [Laser_Driver l] else [])"

section \<open>The contract\<close>

fun l4_good :: "'f l4_driver \<Rightarrow> bool" where
  "l4_good (Hub_Driver s) = queue_ok s"
| "l4_good (Laser_Driver s) = reader_inv (lz_reader s)"

definition l4_fair :: "l4_input \<Rightarrow> bool" where
  "l4_fair i \<longleftrightarrow> (\<forall>e. Got_Errno e \<in> set (li_reads i) \<longrightarrow> 0 \<le> e) \<and> dev_ok (li_dev i)"

lemma l4_loop_queue:
  assumes "pendingEvents s = []" and "nextPendingEvent s = 0" and "l4_read_loop E dLen reads s evs = (ret, rest, s', evs')"
  shows "nextPendingEvent s' = 0"
  using assms
proof (induction reads arbitrary: s evs)
  case (Cons r reads)
  show ?case
  proof (cases "int (length evs) < dLen \<and> (\<exists>m. r = Got_Message m)")
    case False
    with Cons.prems show ?thesis by (cases r) (auto split: if_splits)
  next
    case True
    then obtain m where r: "r = Got_Message m" by blast
    let ?room = "dLen - int (length evs)"
    have room: "1 \<le> ?room" using True by simp
    obtain s2 es where two: "l4_message_step E 2 m s = (s2, es)" by fastforce
    have keeps: "pendingEvents s2 = []" "nextPendingEvent s2 = 0"
      using step_room(3) [OF room, of E m s] Cons.prems(1,2) by (simp_all add: two)
    let ?s1 = "s2\<lparr>pendingEvents := drop (nat ?room) es\<rparr>" and ?evs1 = "evs @ take (nat ?room) es"
    have go: "l4_read_loop E dLen reads ?s1 ?evs1 = (ret, rest, s', evs')"
      using Cons.prems(3) True by (simp add: r step_room(1) [OF room] two keeps)
    show ?thesis
    proof (cases "length es \<le> nat ?room")
      case True
      with keeps have "?s1 = s2" by simp
      with Cons.IH [OF keeps, of ?evs1] go show ?thesis by simp
    next
      case False
      then have "int (length ?evs1) \<ge> dLen" using True by simp
      from read_loop_full [OF this, of E reads ?s1] go keeps show ?thesis by auto
    qed
  qed
qed auto

lemma queue_ok_start: "nextPendingEvent s = 0 \<Longrightarrow> queue_ok s"
  by (simp add: queue_ok_def)

lemma l4_readEvents_good:
  assumes ok: "queue_ok s" and r: "l4_readEvents E dLen reads s = (ret, rest, s', evs)"
    and err: "\<forall>e. Got_Errno e \<in> set reads \<longrightarrow> 0 \<le> e" and d: "0 \<le> dLen"
  shows "queue_ok s' \<and> ret \<le> dLen \<and> (0 < ret \<longrightarrow> ret = int (length evs))"
proof (cases "dLen < 1")
  case True
  with assms show ?thesis by (auto simp: l4_readEvents_def EINVAL_def)
next
  case False
  obtain s1 e1 where t: "(if hasPendingEvents s then take_pending (nat dLen) s else (s, [])) = (s1, e1)" by fastforce
  then have loop: "l4_read_loop E dLen reads s1 e1 = (ret, rest, s', evs)" using r False by (simp add: l4_readEvents_def)
  have e1: "int (length e1) \<le> dLen" "queue_ok s1" "int (length e1) < dLen \<longrightarrow> queue s1 = []"
    using t take_pending_spec [OF ok, of "nat dLen" s1 e1] False ok queue_empty [OF ok]
    by (auto simp: hasPendingEvents_def split: if_splits)
  have "queue_ok s'"
  proof (cases "int (length e1) < dLen")
    case True
    then have "pendingEvents s1 = []" "nextPendingEvent s1 = 0"
      using e1 queue_empty [OF e1(2)] by (auto simp: queue_ok_def split: if_splits)
    from l4_loop_queue [OF this loop] show ?thesis by (rule queue_ok_start)
  next
    case False
    with read_loop_full [of dLen e1 E reads s1] loop e1(2) show ?thesis by auto
  qed
  with read_loop_fits [OF e1(1) loop] err show ?thesis by auto
qed

interpretation l4_driver: base_driver "l4_ops E rp fds" l4_good l4_fair
  for E :: "'f l4_env" and rp and fds
proof (unfold_locales, goal_cases)
  case (1 d i count fs)
  show ?case
  proof (cases d)
    case (Hub_Driver s)
    obtain ret rest s' evs where r: "l4_readEvents E count (li_reads i) s = (ret, rest, s', evs)" by (metis prod_cases4)
    from l4_readEvents_good [OF _ r _ 1(3)] 1 Hub_Driver r show ?thesis by (auto simp: l4_ops_def l4_fair_def)
  next
    case (Laser_Driver s)
    with lz_readEvents_returns [of s "li_dev i" "flt E" rp count] 1 show ?thesis by (auto simp: l4_ops_def l4_fair_def)
  qed
qed


section \<open>One call\<close>

lemma l4_ops_simps [simp]:
  "op_hasPending (l4_ops E rp fds) = l4_hasPending" "op_getFd (l4_ops E rp fds) = l4_getFd fds"
  "op_readEvents (l4_ops E rp fds) = l4_drv_readEvents E rp"
  by (simp_all add: l4_ops_def)

lemma l4_pollFds:
  assumes "0 \<le> hub_fd fds" and "0 \<le> laser_fd fds"
  shows "pollFds (l4_ops E rp fds) [Hub_Driver s, Laser_Driver l] = [0, 1]"
proof -
  have "[0..<length [Hub_Driver s, Laser_Driver l]] = [0, 1]" by (simp add: upt_rec)
  with assms show ?thesis by (simp add: pollFds_def)
qed

lemma l4_no_pending:
  "\<not> hasPendingEvents s \<Longrightarrow> read_pending (l4_ops E rp fds) pend [0..<length [Hub_Driver s, Laser_Driver l]]
     (count, nb, buf, [Hub_Driver s, Laser_Driver l], fs) = Some (count, nb, buf, [Hub_Driver s, Laser_Driver l], fs)"
  by (simp add: upt_rec)

lemma l4_hub_turn:
  assumes "l4_readEvents E count (li_reads (inp 0)) s = (nb, rest, s', evs)" and "0 < nb"
  shows "eventReader (l4_ops E rp fds) inp 0 (count, 0, [], Hub_Driver s # ds, fs) = Some (nb, count - nb, nb, evs, Hub_Driver s' # ds, fs)"
  using assms by (simp add: eventReader_def)

lemma l4_laser_turn:
  assumes "lz_readEvents (flt E) rp (li_dev (inp 1)) count l = Some (l', out)"
  shows "eventReader (l4_ops E rp fds) inp 1 (count, nb, buf, [d, Laser_Driver l], fs)
    = Some (int (length out), count - int (length out), nb + int (length out), buf @ out, [d, Laser_Driver l'], fs)"
  using assms by (cases out) (simp_all add: eventReader_def)

section \<open>Properties\<close>

text \<open>C18: the poll loop of this HAL throws events away: when the hub has delivered events and the laser sensor, ready too,
  reports none in the room left (its input events are not a full report, or the hub has filled the buffer), the call
  answers 0. The hub's events are in the buffer and gone from the hub, and the module's loop calls again and overwrites
  them.\<close>

theorem l4_poll_loses_hub_events:
  assumes "\<not> hasPendingEvents s" and "0 \<le> hub_fd fds" and "0 \<le> laser_fd fds" and "1 \<le> count" and "ready 0" and "ready 1"
    and "l4_readEvents E count (li_reads (inp 0)) s = (nb, rest, s', evs)" and "0 < nb"
    and "lz_readEvents (flt E) rp (li_dev (inp 1)) (count - nb) l = Some (l', [])"
  shows "hal_poll True (l4_ops E rp fds) pend inp (Sys_Ready ready) True count (l4_drivers True s l, fs)
      = Some (0, evs, l4_drivers True s' l', fs)
    \<and> module_poll True (l4_ops E rp fds) ((pend, inp, Sys_Ready ready) # rounds) True count (l4_drivers True s l, fs)
      = module_poll True (l4_ops E rp fds) rounds True count (l4_drivers True s' l', fs)"
proof -
  have "hal_poll True (l4_ops E rp fds) pend inp (Sys_Ready ready) True count (l4_drivers True s l, fs)
      = Some (0, evs, l4_drivers True s' l', fs)"
  proof -
    have hub: "eventReader (l4_ops E rp fds) inp 0 (count, 0, [], [Hub_Driver s, Laser_Driver l], fs)
        = Some (nb, count - nb, nb, evs, [Hub_Driver s', Laser_Driver l], fs)" by (rule l4_hub_turn) (rule assms(7,8))+
    have laser: "eventReader (l4_ops E rp fds) inp 1 (count - nb, nb, evs, [Hub_Driver s', Laser_Driver l], fs)
        = Some (0, count - nb, nb, evs, [Hub_Driver s', Laser_Driver l'], fs)"
      using l4_laser_turn [where inp = inp, OF assms(9)] by simp
    show ?thesis
      using assms(4-6,8) l4_no_pending [OF assms(1)] hub laser l4_pollFds [OF assms(2,3), of E rp s l]
      by (simp add: hal_poll_def l4_drivers_def del: upt_Suc)
  qed
  then show ?thesis by simp
qed

text \<open>C30: when the module's loop ends, the framework gets at least one event, never more than its buffer holds, and the
  return value counts them; the drivers keep their contract, whatever the devices answer.\<close>

theorem l4_module_poll_delivers:
  assumes "queue_ok s" and "reader_inv (lz_reader l)"
    and "\<forall>(pend, inp, answer)\<in>set rounds. (\<forall>i. l4_fair (pend i)) \<and> (\<forall>i. l4_fair (inp i))" and "1 \<le> count"
    and "module_poll True (l4_ops E rp fds) rounds True count (l4_drivers with_laser s l, fs) = Some (ret, evs, ds', fs')"
  shows "1 \<le> ret \<and> ret \<le> count \<and> int (length evs) = ret \<and> (\<forall>d\<in>set ds'. l4_good d)"
  using l4_driver.module_poll_ok [OF _ assms(3-5)] assms(1,2) by (simp add: l4_drivers_def)

section \<open>Instances\<close>

definition stowed_input :: l4_input where
  "stowed_input = \<lparr>li_reads = [Got_Message stowed_message], li_dev = (\<lambda>_. Read_Events [] 0)\<rparr>"

theorem l4_poll_loses_hub_events_witness:
  "hal_poll True (l4_ops plain_l4 0xFE \<lparr>hub_fd = 3, laser_fd = 4\<rparr>) (\<lambda>_. stowed_input) (\<lambda>_. stowed_input) (Sys_Ready (\<lambda>_. True)) True 1
     (l4_drivers True plain_l4_hub plain_laser, \<lparr>content = (\<lambda>_. None), write_fails = (\<lambda>_. False)\<rparr>)
   = Some (0, [stowed_event], l4_drivers True plain_l4_hub plain_laser, \<lparr>content = (\<lambda>_. None), write_fails = (\<lambda>_. False)\<rparr>)"
proof -
  let ?fs = "\<lparr>content = (\<lambda>_. None), write_fails = (\<lambda>_. False)\<rparr>"
  have h: "l4_readEvents plain_l4 1 (li_reads stowed_input) plain_l4_hub = (1, [], plain_l4_hub, [stowed_event])"
    by (simp add: l4_readEvents_def no_pending stowed_step Let_def stowed_input_def)
  have "lz_readEvents (flt plain_l4) 0xFE (li_dev stowed_input) (1 - 1) plain_laser = Some (plain_laser, [])" by (simp add: lz_readEvents_def)
  note loses = l4_poll_loses_hub_events [where fds = "\<lparr>hub_fd = 3, laser_fd = 4\<rparr>" and ready = "\<lambda>_. True" and inp = "\<lambda>_. stowed_input"
      and pend = "\<lambda>_. stowed_input" and fs = ?fs, OF _ _ _ _ _ _ h _ this]
  show ?thesis by (rule loses [THEN conjunct1]) (simp_all add: no_pending)
qed

theorem l4_module_poll_delivers_witness:
  "module_poll True (l4_ops plain_l4 0xFE \<lparr>hub_fd = 3, laser_fd = 4\<rparr>) [(\<lambda>_. stowed_input, \<lambda>_. stowed_input, Sys_Ready (\<lambda>i. i = 0))] True 4
     (l4_drivers True plain_l4_hub plain_laser, \<lparr>content = (\<lambda>_. None), write_fails = (\<lambda>_. False)\<rparr>)
   = Some (1, [stowed_event], l4_drivers True plain_l4_hub plain_laser, \<lparr>content = (\<lambda>_. None), write_fails = (\<lambda>_. False)\<rparr>)
   \<and> int (length [stowed_event]) = 1"
proof -
  let ?fs = "\<lparr>content = (\<lambda>_. None), write_fails = (\<lambda>_. False)\<rparr>" and ?fds = "\<lparr>hub_fd = 3, laser_fd = 4\<rparr>"
  have h: "l4_readEvents plain_l4 4 (li_reads stowed_input) plain_l4_hub = (1, [], plain_l4_hub, [stowed_event])"
    by (simp add: l4_readEvents_def no_pending stowed_step Let_def stowed_input_def)
  have m: "module_poll True (l4_ops plain_l4 0xFE \<lparr>hub_fd = 3, laser_fd = 4\<rparr>) [(\<lambda>_. stowed_input, \<lambda>_. stowed_input, Sys_Ready (\<lambda>i. i = 0))] True 4
     (l4_drivers True plain_l4_hub plain_laser, ?fs) = Some (1, [stowed_event], l4_drivers True plain_l4_hub plain_laser, ?fs)"
  proof -
    have "eventReader (l4_ops plain_l4 0xFE ?fds) (\<lambda>_. stowed_input) 0 (4, 0, [], [Hub_Driver plain_l4_hub, Laser_Driver plain_laser], ?fs)
        = Some (1, 4 - 1, 1, [stowed_event], [Hub_Driver plain_l4_hub, Laser_Driver plain_laser], ?fs)"
      by (rule l4_hub_turn [OF h]) simp
    moreover have "\<not> hasPendingEvents plain_l4_hub" by (simp add: no_pending)
    moreover have "pollFds (l4_ops plain_l4 0xFE ?fds) [Hub_Driver plain_l4_hub, Laser_Driver plain_laser] = [0, 1]" by (rule l4_pollFds) simp_all
    ultimately show ?thesis using l4_no_pending [of plain_l4_hub]
      by (simp add: hal_poll_def l4_drivers_def poll_result_def del: upt_Suc)
  qed
  from l4_module_poll_delivers [OF plain_l4_queue(1) plain_laser_inv(1) _ _ m] have "int (length [stowed_event]) = 1"
    by (simp add: l4_fair_def stowed_input_def dev_ok_def)
  with m show ?thesis by simp
qed

end
