(* ===== verification/Tof_Prox.thy ===== *)
theory Tof_Prox
  imports Event_Loop
begin

text \<open>
  The driver of the ranging sensor of \<open>tof_hal/RearProxSensor.cpp\<close>. It finds the directory of the sensor among those
  of \<open>/sys/devices/virtual/laser\<close>, arms the sensor to interrupt when the distance crosses a threshold, and decides
  between close and far with hysteresis: two samples on one side of the band between the thresholds decide, the event
  is reported when the decision is not the one the sensor is armed for.
\<close>

section \<open>Constants\<close>

definition PATH_BASE :: string where "PATH_BASE = ''/sys/devices/virtual/laser''"
definition MODE_SAR_RESUME :: char where "MODE_SAR_RESUME = CHR ''2''"
definition MODE_SAR_ON :: char where "MODE_SAR_ON = CHR ''1''"
definition MODE_SAR_OFF :: char where "MODE_SAR_OFF = CHR ''0''"
definition DETECT_MODE_CROSS_LOW :: "32 word" where "DETECT_MODE_CROSS_LOW = 0"
definition DETECT_MODE_CROSS_HIGH :: "32 word" where "DETECT_MODE_CROSS_HIGH = 1"
definition DETECT_WEIGHT_CEILING :: "32 word" where "DETECT_WEIGHT_CEILING = 2"
definition DETECT_DEFAULT_INTERVAL_MS :: "32 word" where "DETECT_DEFAULT_INTERVAL_MS = 500"
definition DETECT_DEFAULT_LOW_THRESHOLD_MM :: int where "DETECT_DEFAULT_LOW_THRESHOLD_MM = 70"
definition DETECT_DEFAULT_HIGH_THRESHOLD_MM :: int where "DETECT_DEFAULT_HIGH_THRESHOLD_MM = 75"
definition DETECT_DISTANCE_CLOSE :: "32 word" where "DETECT_DISTANCE_CLOSE = 1"
definition DETECT_DISTANCE_FAR :: "32 word" where "DETECT_DISTANCE_FAR = 10"
definition VL53L1_INPUT_DEVICE_NAME :: string where "VL53L1_INPUT_DEVICE_NAME = ''STM VL53L1 proximity sensor''"
definition TOF_ID_RP :: int where "TOF_ID_RP = 0xFE"

section \<open>The state\<close>

record 'f tof =
  tf_enabled :: "32 word"
  tf_flushEnabled :: bool
  mDetectInterval :: "32 word"
  mDetectDistance :: "32 word"
  mDetectWeight :: "32 word"
  mDetectMode :: "32 word"
  mCurrentDistance :: "32 word"
  mTimestampUpdated :: bool
  mSendData :: bool
  mFilePath :: string
  tf_reader :: "abs_event reader"
  tf_pending :: "'f sensors_event"

text \<open>\<open>junk\<close>: the buffer of the reader, the time and the distance, which the constructor does not set.\<close>

definition new_tof :: "abs_event list \<times> int \<times> 'f \<Rightarrow> 'f tof" where
  "new_tof = (\<lambda>(junk, ts0, dist0).
     \<lparr>tf_enabled = 0, tf_flushEnabled = False, mDetectInterval = DETECT_DEFAULT_INTERVAL_MS,
      mDetectDistance = DETECT_DISTANCE_CLOSE, mDetectWeight = 0, mDetectMode = DETECT_MODE_CROSS_HIGH,
      mCurrentDistance = 0, mTimestampUpdated = False, mSendData = False, mFilePath = '''', tf_reader = new_reader 8 junk,
      tf_pending = \<lparr>version = SENSORS_EVENT_T_SIZE, sensor = TOF_ID_RP, etype = SENSOR_TYPE_PROXIMITY,
         timestamp = ts0, payload = Scalar dist0\<rparr>\<rparr>)"

section \<open>Finding the sensor\<close>

text \<open>A directory entry: its name, whether it is a directory or a link, and its attribute \<open>name\<close>: \<open>None\<close> when it
  does not open, \<open>Some None\<close> when it cannot be read.\<close>

record tof_item =
  ti_name :: string
  ti_dir :: bool
  ti_attr :: "string option option"

fun strstr_found :: "string \<Rightarrow> string \<Rightarrow> bool" where
  "strstr_found [] needle = (needle = [])"
| "strstr_found (c # cs) needle = (needle = take (length needle) (c # cs) \<or> strstr_found cs needle)"

text \<open>63 bytes are read; the text ends at the first NUL.\<close>

definition attr_matches :: "string \<Rightarrow> bool" where
  "attr_matches txt = strstr_found (takeWhile (\<lambda>c. c \<noteq> CHR 0x00) (take 63 txt)) VL53L1_INPUT_DEVICE_NAME"

definition item_path :: "tof_item \<Rightarrow> string" where
  "item_path it = PATH_BASE @ ''/'' @ ti_name it"

fun findPath :: "tof_item list \<Rightarrow> string \<Rightarrow> string \<times> bool" where
  "findPath [] path = (path, False)"
| "findPath (it # its) path =
     (if \<not> ti_dir it then findPath its ''''
      else if take 1 (ti_name it) = ''.'' then findPath its ''''
      else
        case ti_attr it of
          None \<Rightarrow> findPath its (item_path it @ ''/name'')
        | Some None \<Rightarrow> findPath its (item_path it @ ''/name'')
        | Some (Some txt) \<Rightarrow>
            if attr_matches txt then (item_path it, True) else findPath its (item_path it @ ''/name''))"

definition findPathByAttr :: "tof_item list option \<Rightarrow> string \<Rightarrow> string \<times> bool" where
  "findPathByAttr dir path = (case dir of None \<Rightarrow> (path, False) | Some its \<Rightarrow> findPath its path)"

section \<open>The attributes\<close>

definition tof_attr :: "'f tof \<Rightarrow> string \<Rightarrow> path" where
  "tof_attr s attr = mFilePath s @ ''/'' @ attr"

definition sar_text :: "32 word \<Rightarrow> 32 word \<Rightarrow> string" where
  "sar_text interval mode =
     show_int (sint interval) @ '' 1 '' @ show_int (if mode \<noteq> 0 then 1 else 0) @ '' '' @ show_int (sint mode) @ '' ''
     @ show_int DETECT_DEFAULT_HIGH_THRESHOLD_MM @ '' '' @ show_int DETECT_DEFAULT_LOW_THRESHOLD_MM
     @ '' 0 0.000000 0.000000'' @ [CHR 0x0A]"

definition setSARConfig :: "32 word \<Rightarrow> 'f tof \<times> fsys \<Rightarrow> int \<times> 'f tof \<times> fsys" where
  "setSARConfig mode = (\<lambda>(s, fs).
     if mode \<noteq> DETECT_MODE_CROSS_HIGH \<and> mode \<noteq> DETECT_MODE_CROSS_LOW then (- EINVAL, s, fs)
     else
       let (ok, fs1) = write_file fs (tof_attr s ''autonomous_config'') (sar_text (mDetectInterval s) mode)
       in if ok then (0, s\<lparr>mDetectMode := mode\<rparr>, fs1) else (- EIO, s, fs1))"

definition enableSAR :: "char \<Rightarrow> 'f tof \<times> fsys \<Rightarrow> int \<times> 'f tof \<times> fsys" where
  "enableSAR c = (\<lambda>(s, fs).
     let (ok, fs1) = write_file fs (tof_attr s ''enable_sar'') (c # NUL) in (if ok then 0 else - EIO, s, fs1))"

section \<open>Calls of the framework\<close>

text \<open>\<open>ival\<close> is the property \<open>ro.sensors.tof.interval_ms\<close>; \<open>atoi\<close> of a text that is no number is 0.\<close>

definition atoi :: "string \<Rightarrow> int" where
  "atoi txt = (case scan_int txt of None \<Rightarrow> 0 | Some (i, _) \<Rightarrow> i)"

definition tof_locate :: "tof_item list option \<Rightarrow> string option \<Rightarrow> 'f tof \<Rightarrow> 'f tof" where
  "tof_locate dir ival s =
     (let s1 = (if length (mFilePath s) = 0 then s\<lparr>mFilePath := fst (findPathByAttr dir (mFilePath s))\<rparr> else s)
      in case ival of None \<Rightarrow> s1 | Some v \<Rightarrow> if length v > 0 then s1\<lparr>mDetectInterval := word_of_int (atoi v)\<rparr> else s1)"

definition tof_setEnable :: "tof_item list option \<Rightarrow> string option \<Rightarrow> int \<Rightarrow> int \<Rightarrow> 'f tof \<times> fsys \<Rightarrow> int \<times> 'f tof \<times> fsys" where
  "tof_setEnable dir ival h en = (\<lambda>(s, fs).
     let s1 = tof_locate dir ival s
     in if h = TOF_ID_RP
        then
          let s2 = s1\<lparr>tf_enabled := word_of_int en\<rparr>;
              st = (if tf_enabled s2 \<noteq> 0
                    then snd (setSARConfig DETECT_MODE_CROSS_HIGH (s2\<lparr>mDetectDistance := DETECT_DISTANCE_CLOSE\<rparr>, fs))
                    else (s2, fs));
              (_, s3, fs3) = enableSAR (if en \<noteq> 0 then MODE_SAR_ON else MODE_SAR_OFF) st
          in (0, s3, fs3)
        else (- EINVAL, s1, fs))"

definition tof_batch :: "int \<Rightarrow> int \<Rightarrow> 'f tof \<times> fsys \<Rightarrow> int \<times> 'f tof \<times> fsys" where
  "tof_batch h ns = (\<lambda>(s, fs).
     if ns < 0 then (- EINVAL, s, fs)
     else
       let txt = show_int (int32 (ns div 1000000))
       in if length txt \<ge> 32 then (- EINVAL, s, fs)
          else if h = TOF_ID_RP
          then let (ok, fs1) = write_file fs (tof_attr s ''set_delay_ms'') (txt @ NUL) in (if ok then 0 else - EIO, s, fs1)
          else (- EINVAL, s, fs))"

definition tof_flush :: "int \<Rightarrow> 'f tof \<times> fsys \<Rightarrow> int \<times> 'f tof \<times> fsys" where
  "tof_flush h = (\<lambda>(s, fs).
     if h = TOF_ID_RP
     then let (ok, fs1) = write_file fs (tof_attr s ''do_flush'') (''1'' @ NUL) in (if ok then 0 else - EIO, s, fs1)
     else (- EINVAL, s, fs))"

section \<open>Reading\<close>

text \<open>The samples below the low threshold are close, those above the high one far, those between change nothing.\<close>

definition weigh :: "int \<Rightarrow> 'f tof \<Rightarrow> 'f tof" where
  "weigh distance s =
     (if distance \<le> DETECT_DEFAULT_LOW_THRESHOLD_MM
      then let s1 = (if mDetectDistance s = DETECT_DISTANCE_FAR
                     then s\<lparr>mDetectDistance := DETECT_DISTANCE_CLOSE, mDetectWeight := 0\<rparr> else s)
           in s1\<lparr>mDetectWeight := mDetectWeight s1 + 1\<rparr>
      else if distance \<ge> DETECT_DEFAULT_HIGH_THRESHOLD_MM
      then let s1 = (if mDetectDistance s = DETECT_DISTANCE_CLOSE
                     then s\<lparr>mDetectDistance := DETECT_DISTANCE_FAR, mDetectWeight := 0\<rparr> else s)
           in s1\<lparr>mDetectWeight := mDetectWeight s1 + 1\<rparr>
      else s)"

definition armed_mode :: "32 word \<Rightarrow> 32 word" where
  "armed_mode d = (if d = DETECT_DISTANCE_CLOSE then DETECT_MODE_CROSS_HIGH else DETECT_MODE_CROSS_LOW)"

definition handleSARprocess :: "'f farith \<Rightarrow> int \<Rightarrow> 'f tof \<times> fsys \<Rightarrow> 'f tof \<times> fsys" where
  "handleSARprocess A distance = (\<lambda>(s0, fs).
     let s = weigh distance s0
     in if mDetectWeight s \<ge> DETECT_WEIGHT_CEILING
        then
          let mode = armed_mode (mDetectDistance s);
              s1 = s\<lparr>tf_pending := (tf_pending s)\<lparr>payload := Scalar (f_of_int A (uint (mDetectDistance s)))\<rparr>\<rparr>
          in if mDetectMode s1 \<noteq> mode
             then
               let (_, s2, fs2) = enableSAR MODE_SAR_OFF (s1, fs);
                   (_, s3, fs3) = setSARConfig mode (s2, fs2);
                   (_, s4, fs4) = enableSAR MODE_SAR_RESUME (s3, fs3)
               in (s4\<lparr>mSendData := True\<rparr>, fs4)
             else (s1, fs)
        else (s, fs))"

definition tof_processEvent :: "'f farith \<Rightarrow> abs_code \<Rightarrow> int \<Rightarrow> 'f tof \<times> fsys \<Rightarrow> 'f tof \<times> fsys" where
  "tof_processEvent A c v = (\<lambda>(s, fs).
     case c of
       ABS_HAT1X \<Rightarrow>
         let (s1, fs1) = (if \<not> mTimestampUpdated s then handleSARprocess A v (s, fs) else (s, fs))
         in (s1\<lparr>mCurrentDistance := word_of_int v\<rparr>, fs1)
     | ABS_HAT0Y \<Rightarrow> (s\<lparr>mTimestampUpdated := True\<rparr>, fs)
     | ABS_GAS \<Rightarrow> (s\<lparr>tf_flushEnabled := True\<rparr>, fs)
     | _ \<Rightarrow> (s, fs))"

definition tof_flush_event :: "int \<Rightarrow> 'f sensors_event" where
  "tof_flush_event h =
     \<lparr>version = META_DATA_VERSION, sensor = 0, etype = SENSOR_TYPE_META_DATA, timestamp = 0, payload = Flush_Complete h\<rparr>"

text \<open>One turn of the loop of \<open>readEvents\<close>.\<close>

definition tof_emit :: "'f farith \<Rightarrow> abs_event \<Rightarrow> 'f tof \<times> fsys \<Rightarrow> ('f tof \<times> fsys) \<times> 'f sensors_event list" where
  "tof_emit A e = (\<lambda>(s, fs).
     if ae_type e = EV_ABS
     then (if tf_enabled s = 1 then tof_processEvent A (ae_code e) (ae_value e) (s, fs) else (s, fs), [])
     else if ae_type e = EV_SYN
     then
       if tf_flushEnabled s then ((s\<lparr>tf_flushEnabled := False\<rparr>, fs), [tof_flush_event TOF_ID_RP])
       else
         let (s1, fs1) = (if mTimestampUpdated s
                          then let (t, gs) = handleSARprocess A (sint (mCurrentDistance s)) (s, fs)
                               in (t\<lparr>mTimestampUpdated := False\<rparr>, gs)
                          else (s, fs))
         in if mSendData s1 then ((s1\<lparr>mSendData := False\<rparr>, fs1), [tf_pending s1]) else ((s1, fs1), [])
     else ((s, fs), []))"

definition tof_readEvents :: "'f farith \<Rightarrow> (nat \<Rightarrow> abs_event read_result) \<Rightarrow> int \<Rightarrow> 'f tof \<times> fsys \<Rightarrow>
    (('f tof \<times> fsys) \<times> 'f sensors_event list) option" where
  "tof_readEvents A dev count = (\<lambda>(s, fs).
     if count < 1 then Some ((s, fs), [])
     else map_option (\<lambda>(r, (s1, fs1), out). ((s1\<lparr>tf_reader := r\<rparr>, fs1), out))
       (emit_loop (tof_emit A) dev count (tf_reader s) (s, fs)))"

interpretation tof_emitter: emitter "tof_emit A" for A :: "'f farith"
  by unfold_locales (auto simp: tof_emit_def Let_def split: prod.split)


section \<open>One sample\<close>

lemma write_file_fails [simp]: "write_fails (snd (write_file fs p t)) = write_fails fs"
  by (simp add: write_file_def)

lemma write_file_ok [simp]: "fst (write_file fs p t) \<longleftrightarrow> \<not> write_fails fs p"
  by (simp add: write_file_def)

text \<open>Whether the configuration of the sensor cannot be written.\<close>

definition sar_fails :: "'f tof \<times> fsys \<Rightarrow> bool" where
  "sar_fails = (\<lambda>(s, fs). write_fails fs (tof_attr s ''autonomous_config''))"

definition decide :: "'f farith \<Rightarrow> bool \<Rightarrow> 'f tof \<Rightarrow> 'f tof" where
  "decide A bad s =
     (if mDetectWeight s \<ge> DETECT_WEIGHT_CEILING
      then
        let s1 = s\<lparr>tf_pending := (tf_pending s)\<lparr>payload := Scalar (f_of_int A (uint (mDetectDistance s)))\<rparr>\<rparr>
        in if mDetectMode s = armed_mode (mDetectDistance s) then s1
           else (if bad then s1 else s1\<lparr>mDetectMode := armed_mode (mDetectDistance s)\<rparr>)\<lparr>mSendData := True\<rparr>
      else s)"

lemma weigh_other [simp]:
  "mDetectMode (weigh d s) = mDetectMode s" "mFilePath (weigh d s) = mFilePath s" "tf_pending (weigh d s) = tf_pending s"
  "mSendData (weigh d s) = mSendData s" "tf_enabled (weigh d s) = tf_enabled s" "tf_flushEnabled (weigh d s) = tf_flushEnabled s"
  "mTimestampUpdated (weigh d s) = mTimestampUpdated s" "mCurrentDistance (weigh d s) = mCurrentDistance s"
  "tf_reader (weigh d s) = tf_reader s" "mDetectInterval (weigh d s) = mDetectInterval s"
  by (simp_all add: weigh_def Let_def)

lemma decide_other [simp]:
  "mDetectDistance (decide A bad s) = mDetectDistance s" "mDetectWeight (decide A bad s) = mDetectWeight s"
  "mFilePath (decide A bad s) = mFilePath s" "tf_enabled (decide A bad s) = tf_enabled s"
  "tf_flushEnabled (decide A bad s) = tf_flushEnabled s" "mTimestampUpdated (decide A bad s) = mTimestampUpdated s"
  "mCurrentDistance (decide A bad s) = mCurrentDistance s" "tf_reader (decide A bad s) = tf_reader s"
  by (simp_all add: decide_def Let_def)

lemma enableSAR_keeps [simp]:
  "fst (snd (enableSAR c (s, fs))) = s" "write_fails (snd (snd (enableSAR c (s, fs)))) = write_fails fs"
  by (simp_all add: enableSAR_def case_prod_beta Let_def)

lemma setSARConfig_state:
  "fst (snd (setSARConfig (armed_mode d) (s, fs))) = (if sar_fails (s, fs) then s else s\<lparr>mDetectMode := armed_mode d\<rparr>)"
  "write_fails (snd (snd (setSARConfig (armed_mode d) (s, fs)))) = write_fails fs"
  by (simp_all add: setSARConfig_def case_prod_beta Let_def sar_fails_def armed_mode_def)

lemma handle_decide:
  "fst (handleSARprocess A d (s, fs)) = decide A (sar_fails (s, fs)) (weigh d s)"
  "write_fails (snd (handleSARprocess A d (s, fs))) = write_fails fs"
proof -
  have fails: "sar_fails (t, snd (snd (enableSAR c (u, fs)))) = write_fails fs (tof_attr t ''autonomous_config'')" for c t u
    by (simp add: sar_fails_def)
  show "fst (handleSARprocess A d (s, fs)) = decide A (sar_fails (s, fs)) (weigh d s)"
    by (simp add: handleSARprocess_def decide_def Let_def case_prod_beta setSARConfig_state fails)
       (simp add: sar_fails_def tof_attr_def)
  show "write_fails (snd (handleSARprocess A d (s, fs))) = write_fails fs"
    by (simp add: handleSARprocess_def Let_def case_prod_beta setSARConfig_state)
qed

section \<open>The decision\<close>

datatype side = Close | Far

definition side_of :: "int \<Rightarrow> side option" where
  "side_of d = (if d \<le> 70 then Some Close else if 75 \<le> d then Some Far else None)"

text \<open>The reference: of the samples outside the band, latest first, the last two in a row that agree decide; at first the
  decision is close.\<close>

fun settled :: "side list \<Rightarrow> side" where
  "settled (a # b # r) = (if a = b then a else settled (b # r))"
| "settled _ = Close"

definition note_sample :: "int \<Rightarrow> side list \<Rightarrow> side list" where
  "note_sample d seen = (case side_of d of None \<Rightarrow> seen | Some c \<Rightarrow> c # seen)"

fun side_word :: "side \<Rightarrow> 32 word" where
  "side_word Close = DETECT_DISTANCE_CLOSE"
| "side_word Far = DETECT_DISTANCE_FAR"

definition latest_side :: "side list \<Rightarrow> side" where
  "latest_side seen = (case seen of [] \<Rightarrow> Close | c # _ \<Rightarrow> c)"

lemmas tof_consts = DETECT_DISTANCE_CLOSE_def DETECT_DISTANCE_FAR_def DETECT_MODE_CROSS_LOW_def DETECT_MODE_CROSS_HIGH_def
  DETECT_WEIGHT_CEILING_def DETECT_DEFAULT_LOW_THRESHOLD_MM_def DETECT_DEFAULT_HIGH_THRESHOLD_MM_def

definition tracks :: "side list \<Rightarrow> 'f tof \<Rightarrow> bool" where
  "tracks seen s \<longleftrightarrow> mDetectDistance s = side_word (latest_side seen) \<and> mDetectMode s = armed_mode (side_word (settled seen))
     \<and> (settled seen = latest_side seen \<or> mDetectWeight s = 1)"

lemma side_word_inject [simp]: "side_word a = side_word b \<longleftrightarrow> a = b" "armed_mode (side_word a) = armed_mode (side_word b) \<longleftrightarrow> a = b"
  by (cases a; cases b; simp add: armed_mode_def tof_consts)+

lemma weigh_side:
  "mDetectDistance s = side_word l \<Longrightarrow> weigh d s =
     (case side_of d of None \<Rightarrow> s
      | Some c \<Rightarrow> s\<lparr>mDetectDistance := side_word c, mDetectWeight := (if c = l then mDetectWeight s else 0) + 1\<rparr>)"
  by (cases l) (auto simp: weigh_def side_of_def tof_consts Let_def)

definition tof_report :: "'f farith \<Rightarrow> 'f tof \<Rightarrow> side \<Rightarrow> 'f sensors_event" where
  "tof_report A s c = (tf_pending s)\<lparr>payload := Scalar (f_of_int A (uint (side_word c)))\<rparr>"

lemma settled_Cons: "settled (c # seen) = (if c = latest_side seen then c else settled seen)"
  by (cases seen; cases c) (auto simp: latest_side_def)

lemma two_words: "\<not> (2::32 word) \<le> 1" "(2::32 word) \<le> 2"
  by (simp_all add: word_le_nat_alt)

lemma latest_side_Cons [simp]: "latest_side (c # seen) = c"
  by (simp add: latest_side_def)

lemma sample_step:
  fixes A :: "'f farith" and d :: int and s :: "'f tof"
  assumes t: "tracks seen s" and send: "\<not> mSendData s"
  defines "s' \<equiv> decide A False (weigh d s)"
  shows "tracks (note_sample d seen) s'"
    and "mSendData s' = (settled (note_sample d seen) \<noteq> settled seen)"
    and "mSendData s' \<Longrightarrow> tf_pending s' = tof_report A s (settled (note_sample d seen))"
    and "tof_report A s' = tof_report A s"
proof -
  note facts = t [unfolded tracks_def] send weigh_side [of s "latest_side seen" d] settled_Cons [of _ seen]
  show "tracks (note_sample d seen) s'"
    using facts by (cases "side_of d") (auto simp: s'_def tracks_def note_sample_def decide_def Let_def two_words DETECT_WEIGHT_CEILING_def)
  show "mSendData s' = (settled (note_sample d seen) \<noteq> settled seen)"
    using facts by (cases "side_of d") (auto simp: s'_def note_sample_def decide_def Let_def two_words DETECT_WEIGHT_CEILING_def)
  show "mSendData s' \<Longrightarrow> tf_pending s' = tof_report A s (settled (note_sample d seen))"
    using facts by (cases "side_of d") (auto simp: s'_def note_sample_def decide_def Let_def tof_report_def two_words DETECT_WEIGHT_CEILING_def split: if_splits)
  show "tof_report A s' = tof_report A s"
    by (rule ext) (simp add: s'_def tof_report_def decide_def Let_def)
qed


section \<open>A stream of frames\<close>

text \<open>What the sensor sends per sample: a new distance, a new time with a new distance, or a new time when the distance
  is the one before (the input layer drops a value that has not changed).\<close>

datatype frame = New_Distance int | Stamped int int | Stamp_Only int

definition distance_events :: "int \<Rightarrow> abs_event list" where
  "distance_events d = [\<lparr>ae_type = EV_ABS, ae_code = ABS_HAT1X, ae_value = d\<rparr>, \<lparr>ae_type = EV_SYN, ae_code = ABS_OTHER 0, ae_value = 0\<rparr>]"

fun frame_events :: "frame \<Rightarrow> abs_event list" where
  "frame_events (New_Distance d) = distance_events d"
| "frame_events (Stamped t d) = \<lparr>ae_type = EV_ABS, ae_code = ABS_HAT0Y, ae_value = t\<rparr> # distance_events d"
| "frame_events (Stamp_Only t) = [\<lparr>ae_type = EV_ABS, ae_code = ABS_HAT0Y, ae_value = t\<rparr>, \<lparr>ae_type = EV_SYN, ae_code = ABS_OTHER 0, ae_value = 0\<rparr>]"

fun frame_sample :: "int \<Rightarrow> frame \<Rightarrow> int" where
  "frame_sample cur (New_Distance d) = d"
| "frame_sample cur (Stamped t d) = int32 d"
| "frame_sample cur (Stamp_Only t) = cur"

fun frame_latest :: "int \<Rightarrow> frame \<Rightarrow> int" where
  "frame_latest cur (New_Distance d) = int32 d"
| "frame_latest cur (Stamped t d) = int32 d"
| "frame_latest cur (Stamp_Only t) = cur"

text \<open>The reference: a report per change of the decision.\<close>

fun settled_changes :: "side list \<Rightarrow> int \<Rightarrow> frame list \<Rightarrow> side list" where
  "settled_changes seen cur [] = []"
| "settled_changes seen cur (f # fs) =
     (let seen' = note_sample (frame_sample cur f) seen
      in (if settled seen' = settled seen then [] else [settled seen']) @ settled_changes seen' (frame_latest cur f) fs)"

definition tof_quiet :: "'f tof \<Rightarrow> bool" where
  "tof_quiet s \<longleftrightarrow> tf_enabled s = 1 \<and> \<not> tf_flushEnabled s \<and> \<not> mTimestampUpdated s \<and> \<not> mSendData s"

lemma run_emit_pair [simp]:
  "run_emit emit (e # es) p = (fst (run_emit emit es (fst (emit e p))), snd (emit e p) @ snd (run_emit emit es (fst (emit e p))))"
  by (simp add: case_prod_beta Let_def)

lemma weigh_stamp [simp]:
  "weigh d (s\<lparr>mTimestampUpdated := b\<rparr>) = (weigh d s)\<lparr>mTimestampUpdated := b\<rparr>"
  "weigh d (s\<lparr>mCurrentDistance := c\<rparr>) = (weigh d s)\<lparr>mCurrentDistance := c\<rparr>"
  by (simp_all add: weigh_def Let_def)

lemma decide_stamp [simp]:
  "decide A bad (s\<lparr>mTimestampUpdated := b\<rparr>) = (decide A bad s)\<lparr>mTimestampUpdated := b\<rparr>"
  "decide A bad (s\<lparr>mCurrentDistance := c\<rparr>) = (decide A bad s)\<lparr>mCurrentDistance := c\<rparr>"
  by (simp_all add: decide_def Let_def)

text \<open>A frame runs one sample and reports when the sample asks for it.\<close>

lemma frame_run:
  fixes A :: "'f farith" and s :: "'f tof" and f :: frame
  assumes q: "tof_quiet s" and ok: "\<not> sar_fails (s, fs)"
  defines "s' \<equiv> decide A False (weigh (frame_sample (sint (mCurrentDistance s)) f) s)"
  shows "\<exists>s2 fs2. run_emit (tof_emit A) (frame_events f) (s, fs) = ((s2, fs2), if mSendData s' then [tf_pending s'] else [])
    \<and> s2 = s'\<lparr>mSendData := False, mCurrentDistance := mCurrentDistance s2\<rparr> \<and> tof_quiet s2 \<and> \<not> sar_fails (s2, fs2)
    \<and> sint (mCurrentDistance s2) = frame_latest (sint (mCurrentDistance s)) f"
proof -
  have h: "\<exists>gs. handleSARprocess A d (t, fs) = (decide A False (weigh d t), gs) \<and> write_fails gs = write_fails fs"
    if "mFilePath t = mFilePath s" for d t
  proof -
    have "\<not> sar_fails (t, fs)" using that ok by (simp add: sar_fails_def tof_attr_def)
    with handle_decide [of A d t fs] show ?thesis by (cases "handleSARprocess A d (t, fs)") auto
  qed
  note simps = tof_emit_def tof_processEvent_def tof_quiet_def sar_fails_def tof_attr_def Let_def
  show ?thesis
  proof (cases f)
    case (New_Distance d)
    obtain gs where "handleSARprocess A d (s, fs) = (decide A False (weigh d s), gs)" "write_fails gs = write_fails fs"
      using h by blast
    with q ok show ?thesis by (simp add: New_Distance s'_def simps int32_def distance_events_def)
  next
    case (Stamped t d)
    obtain gs where "handleSARprocess A (int32 d) (s\<lparr>mTimestampUpdated := True, mCurrentDistance := word_of_int d\<rparr>, fs)
       = (decide A False (weigh (int32 d) (s\<lparr>mTimestampUpdated := True, mCurrentDistance := word_of_int d\<rparr>)), gs)"
      "write_fails gs = write_fails fs" using h [of "s\<lparr>mTimestampUpdated := True, mCurrentDistance := word_of_int d\<rparr>"] by auto
    with q ok Stamped show ?thesis by (simp add: s'_def simps int32_def distance_events_def)
  next
    case (Stamp_Only t)
    let ?d = "sint (mCurrentDistance s)"
    obtain gs where "handleSARprocess A ?d (s\<lparr>mTimestampUpdated := True\<rparr>, fs)
       = (decide A False (weigh ?d (s\<lparr>mTimestampUpdated := True\<rparr>)), gs)"
      "write_fails gs = write_fails fs" using h [of "s\<lparr>mTimestampUpdated := True\<rparr>"] by auto
    with q ok Stamp_Only show ?thesis by (simp add: s'_def simps)
  qed
qed


lemma frames_run:
  assumes "tracks seen s" and "tof_quiet s" and "\<not> sar_fails (s, fs)"
  shows "snd (run_emit (tof_emit A) (concat (map frame_events frs)) (s, fs))
    = map (tof_report A s) (settled_changes seen (sint (mCurrentDistance s)) frs)"
  using assms
proof (induction frs arbitrary: seen s fs)
  case (Cons f frs)
  let ?d = "frame_sample (sint (mCurrentDistance s)) f"
  let ?s = "decide A False (weigh ?d s)"
  from frame_run [OF Cons.prems(2,3), of A f] obtain s2 fs2 where
    r: "run_emit (tof_emit A) (frame_events f) (s, fs) = ((s2, fs2), if mSendData ?s then [tf_pending ?s] else [])"
      "s2 = ?s\<lparr>mSendData := False, mCurrentDistance := mCurrentDistance s2\<rparr>" "tof_quiet s2" "\<not> sar_fails (s2, fs2)"
      "sint (mCurrentDistance s2) = frame_latest (sint (mCurrentDistance s)) f" by blast
  have "\<not> mSendData s" using Cons.prems(2) by (simp add: tof_quiet_def)
  note st = sample_step [where d = ?d and A = A, OF Cons.prems(1) this]
  have "tracks (note_sample ?d seen) s2" using st(1) by (subst r(2)) (simp add: tracks_def)
  from Cons.IH [OF this r(3,4)] have "snd (run_emit (tof_emit A) (concat (map frame_events frs)) (s2, fs2))
    = map (tof_report A s2) (settled_changes (note_sample ?d seen) (frame_latest (sint (mCurrentDistance s)) f) frs)"
    by (simp add: r(5))
  moreover have "tof_report A s2 = tof_report A s" using st(4) by (subst r(2)) (simp add: tof_report_def fun_eq_iff)
  moreover have "(if mSendData ?s then [tf_pending ?s] else [])
    = map (tof_report A s) (if settled (note_sample ?d seen) = settled seen then [] else [settled (note_sample ?d seen)])"
    using st(2,3) by auto
  ultimately show ?case by (simp add: run_emit_append r(1) case_prod_beta Let_def)
qed simp

lemma settled_changes_alternate: "successively (\<noteq>) (settled seen # settled_changes seen cur frs)"
proof (induction frs arbitrary: seen cur)
  case (Cons f frs)
  show ?case using Cons.IH [of "note_sample (frame_sample cur f) seen" "frame_latest cur f"]
    by (simp add: Let_def successively_Cons del: successively.simps(3)) auto
qed simp

text \<open>Switching on arms the driver: it tracks no samples.\<close>

lemma setEnable_arms:
  assumes e: "tof_setEnable dir ival TOF_ID_RP 1 (s0, fs0) = (err, s, fs)" and ok: "\<not> sar_fails (s, fs)"
    and idle: "\<not> tf_flushEnabled s0" "\<not> mTimestampUpdated s0" "\<not> mSendData s0"
  shows "tracks [] s \<and> tof_quiet s"
proof -
  define t where "t = (tof_locate dir ival s0)\<lparr>tf_enabled := 1, mDetectDistance := DETECT_DISTANCE_CLOSE\<rparr>"
  have same: "\<not> tf_flushEnabled t" "\<not> mTimestampUpdated t" "\<not> mSendData t" "tf_enabled t = 1" "mDetectDistance t = DETECT_DISTANCE_CLOSE"
    using idle by (auto simp: t_def tof_locate_def Let_def split: option.splits)
  have s: "s = fst (snd (setSARConfig (armed_mode DETECT_DISTANCE_CLOSE) (t, fs0)))"
    and fs: "write_fails fs = write_fails fs0"
    using e setSARConfig_state(2) [of DETECT_DISTANCE_CLOSE t fs0]
    by (auto simp: tof_setEnable_def t_def Let_def case_prod_beta armed_mode_def enableSAR_def split: prod.splits)
  have "mFilePath s = mFilePath t" by (simp add: s setSARConfig_state)
  with ok fs have "\<not> sar_fails (t, fs0)" by (simp add: sar_fails_def tof_attr_def)
  then have "s = t\<lparr>mDetectMode := armed_mode DETECT_DISTANCE_CLOSE\<rparr>" by (simp add: s setSARConfig_state)
  with same show ?thesis by (simp add: tracks_def tof_quiet_def latest_side_def)
qed

text \<open>A sample while the configuration cannot be written: the decision is reported, but never taken over.\<close>

lemma failing_run:
  assumes "sar_fails (s, fs)" and "tof_quiet s" and "mDetectDistance s = DETECT_DISTANCE_FAR"
    and "mDetectMode s = DETECT_MODE_CROSS_HIGH" and "DETECT_WEIGHT_CEILING \<le> mDetectWeight s" and "\<forall>d\<in>set ds. 70 < d \<and> d < 75"
  shows "snd (run_emit (tof_emit A) (concat (map distance_events ds)) (s, fs)) = replicate (length ds) (tof_report A s Far)"
  using assms
proof (induction ds arbitrary: s fs)
  case (Cons d ds)
  let ?s = "s\<lparr>tf_pending := tof_report A s Far, mSendData := True\<rparr>"
  have "weigh d s = s" using Cons.prems(6) by (simp add: weigh_def tof_consts)
  then have "decide A True (weigh d s) = ?s"
    using Cons.prems(3-5) by (simp add: decide_def armed_mode_def tof_report_def tof_consts)
  with handle_decide [of A d s fs] Cons.prems(1) obtain gs where
    h: "handleSARprocess A d (s, fs) = (?s, gs)" "write_fails gs = write_fails fs" by (cases "handleSARprocess A d (s, fs)") auto
  let ?t = "s\<lparr>tf_pending := tof_report A s Far, mSendData := False, mCurrentDistance := word_of_int d\<rparr>"
  have step: "run_emit (tof_emit A) (distance_events d) (s, fs) = ((?t, gs), [tof_report A s Far])"
    using Cons.prems(2) h by (simp add: distance_events_def tof_emit_def tof_processEvent_def tof_quiet_def Let_def)
  have "sar_fails (?t, gs)" "tof_quiet ?t" using Cons.prems(1,2) h(2) by (simp_all add: sar_fails_def tof_attr_def tof_quiet_def)
  with Cons.IH [of ?t gs] Cons.prems have
    "snd (run_emit (tof_emit A) (concat (map distance_events ds)) (?t, gs)) = replicate (length ds) (tof_report A ?t Far)" by simp
  moreover have "tof_report A ?t Far = tof_report A s Far" by (simp add: tof_report_def)
  ultimately show ?case by (simp add: run_emit_append step case_prod_beta Let_def)
qed simp

section \<open>Well-formed states\<close>

definition side_payload :: "'f farith \<Rightarrow> 'f payload \<Rightarrow> bool" where
  "side_payload A p \<longleftrightarrow> p = Scalar (f_of_int A (uint (side_word Close))) \<or> p = Scalar (f_of_int A (uint (side_word Far)))"

definition prox_event :: "'f sensors_event \<Rightarrow> bool" where
  "prox_event v \<longleftrightarrow> version v = SENSORS_EVENT_T_SIZE \<and> sensor v = TOF_ID_RP \<and> etype v = SENSOR_TYPE_PROXIMITY"

definition well_typed :: "'f farith \<Rightarrow> 'f sensors_event \<Rightarrow> bool" where
  "well_typed A v \<longleftrightarrow> v = tof_flush_event TOF_ID_RP \<or> prox_event v \<and> side_payload A (payload v)"

definition tof_core :: "'f farith \<Rightarrow> 'f tof \<Rightarrow> bool" where
  "tof_core A s \<longleftrightarrow> (mDetectDistance s = DETECT_DISTANCE_CLOSE \<or> mDetectDistance s = DETECT_DISTANCE_FAR)
     \<and> (mDetectMode s = DETECT_MODE_CROSS_LOW \<or> mDetectMode s = DETECT_MODE_CROSS_HIGH)
     \<and> prox_event (tf_pending s) \<and> (mSendData s \<longrightarrow> side_payload A (payload (tf_pending s)))"

definition tof_ok :: "'f farith \<Rightarrow> 'f tof \<Rightarrow> bool" where
  "tof_ok A s \<longleftrightarrow> tof_core A s \<and> reader_inv (tf_reader s)"

lemma weigh_distance:
  "mDetectDistance s = DETECT_DISTANCE_CLOSE \<or> mDetectDistance s = DETECT_DISTANCE_FAR
   \<Longrightarrow> mDetectDistance (weigh d s) = DETECT_DISTANCE_CLOSE \<or> mDetectDistance (weigh d s) = DETECT_DISTANCE_FAR"
  by (auto simp: weigh_def Let_def)

lemma decide_core: "tof_core A s \<Longrightarrow> tof_core A (decide A bad s)"
  by (auto simp: tof_core_def decide_def Let_def armed_mode_def prox_event_def side_payload_def)

lemma weigh_core: "tof_core A s \<Longrightarrow> tof_core A (weigh d s)"
  using weigh_distance [of s d] by (simp add: tof_core_def)

lemma handle_core: "tof_core A s \<Longrightarrow> tof_core A (fst (handleSARprocess A d (s, fs)))"
  by (simp add: handle_decide decide_core weigh_core)

lemma core_stamps [simp]:
  "tof_core A (s\<lparr>mTimestampUpdated := b\<rparr>) = tof_core A s" "tof_core A (s\<lparr>mCurrentDistance := c\<rparr>) = tof_core A s"
  "tof_core A (s\<lparr>tf_flushEnabled := f\<rparr>) = tof_core A s" "tof_core A (s\<lparr>tf_reader := r\<rparr>) = tof_core A s"
  "tof_core A (s\<lparr>mFilePath := p\<rparr>) = tof_core A s" "tof_core A (s\<lparr>mDetectInterval := i\<rparr>) = tof_core A s"
  "tof_core A (s\<lparr>tf_enabled := e\<rparr>) = tof_core A s"
  by (simp_all add: tof_core_def)

lemma emit_core:
  assumes "tof_core A (fst p)"
  shows "tof_core A (fst (fst (tof_emit A e p))) \<and> (\<forall>v\<in>set (snd (tof_emit A e p)). well_typed A v)"
proof -
  obtain s fs where p: "p = (s, fs)" by fastforce
  have h: "tof_core A (fst (handleSARprocess A d (s, fs)))" for d using assms handle_core by (simp add: p)
  have process: "tof_core A (fst (tof_processEvent A (ae_code e) (ae_value e) (s, fs)))"
    using assms h by (simp add: p tof_processEvent_def Let_def case_prod_beta split: abs_code.split)
  have send: "tof_core A (t\<lparr>mSendData := False\<rparr>) \<and> (mSendData t \<longrightarrow> well_typed A (tf_pending t))" if "tof_core A t" for t
    using that by (auto simp: tof_core_def well_typed_def)
  show ?thesis
    using assms process h send by (simp add: p tof_emit_def Let_def case_prod_beta well_typed_def)
qed

lemma run_core:
  "tof_core A (fst p) \<Longrightarrow> run_emit (tof_emit A) es p = (q, out) \<Longrightarrow> tof_core A (fst q) \<and> (\<forall>v\<in>set out. well_typed A v)"
proof (induction es arbitrary: p out)
  case (Cons e es)
  obtain p1 new where e: "tof_emit A e p = (p1, new)" by fastforce
  obtain o2 where r: "run_emit (tof_emit A) es p1 = (q, o2)" using Cons.prems(2) e by (cases "run_emit (tof_emit A) es p1") simp
  from emit_core [OF Cons.prems(1), of e] have "tof_core A (fst p1)" "\<forall>v\<in>set new. well_typed A v" by (simp_all add: e)
  with Cons.IH [of p1 o2] Cons.prems(2) e r show ?case by auto
qed simp

lemma tof_read_ok:
  assumes "tof_ok A s" and "dev_ok dev"
  shows "\<exists>s' fs' out. tof_readEvents A dev count (s, fs) = Some ((s', fs'), out) \<and> tof_ok A s'
    \<and> (\<forall>v\<in>set out. well_typed A v) \<and> int (length out) \<le> max 0 count"
proof (cases "count < 1")
  case True
  with assms show ?thesis by (simp add: tof_readEvents_def)
next
  case False
  then have c: "0 \<le> count" by simp
  from assms(1) have inv: "reader_inv (tf_reader s)" "tof_core A (fst (s, fs))" by (simp_all add: tof_ok_def)
  from tof_emitter.loop_returns [OF inv(1) assms(2) c, of A "(s, fs)"] obtain r p out used where
    l: "emit_loop (tof_emit A) dev count (tf_reader s) (s, fs) = Some (r, p, out)" "reader_inv r"
      "run_emit (tof_emit A) used (s, fs) = (p, out)" "int (length out) \<le> count" by blast
  with run_core [OF inv(2) l(3)] False show ?thesis
    by (cases p) (auto simp: tof_readEvents_def tof_ok_def)
qed

lemma tof_locate_ok:
  "tof_core A (tof_locate dir ival s) = tof_core A s" "tf_reader (tof_locate dir ival s) = tf_reader s"
  by (simp_all add: tof_locate_def Let_def split: option.split)

lemma setEnable_ok: "tof_ok A s \<Longrightarrow> tof_ok A (fst (snd (tof_setEnable dir ival h en (s, fs))))"
  using tof_locate_ok(1) [of A dir ival s] tof_locate_ok(2) [of dir ival s]
  by (auto simp: tof_setEnable_def tof_ok_def Let_def case_prod_beta enableSAR_def setSARConfig_def tof_core_def split: prod.splits)

section \<open>Calls\<close>

datatype tof_call =
    Tof_Enable "tof_item list option" "string option" int int
  | Tof_Batch int int
  | Tof_Flush int
  | Tof_Read "nat \<Rightarrow> abs_event read_result" int

fun tof_do :: "'f farith \<Rightarrow> tof_call \<Rightarrow> 'f tof \<times> fsys \<Rightarrow> (('f tof \<times> fsys) \<times> 'f sensors_event list) option" where
  "tof_do A (Tof_Enable dir ival h en) p = Some (snd (tof_setEnable dir ival h en p), [])"
| "tof_do A (Tof_Batch h ns) p = Some (snd (tof_batch h ns p), [])"
| "tof_do A (Tof_Flush h) p = Some (snd (tof_flush h p), [])"
| "tof_do A (Tof_Read dev count) p = tof_readEvents A dev count p"

fun tof_run :: "'f farith \<Rightarrow> tof_call list \<Rightarrow> 'f tof \<times> fsys \<Rightarrow> (('f tof \<times> fsys) \<times> 'f sensors_event list) option" where
  "tof_run A [] p = Some (p, [])"
| "tof_run A (c # cs) p =
     (case tof_do A c p of None \<Rightarrow> None | Some (p1, o1) \<Rightarrow> map_option (\<lambda>(p2, o2). (p2, o1 @ o2)) (tof_run A cs p1))"

definition call_ok :: "tof_call \<Rightarrow> bool" where
  "call_ok c \<longleftrightarrow> (case c of Tof_Read dev count \<Rightarrow> dev_ok dev | _ \<Rightarrow> True)"

lemma tof_do_ok:
  assumes "tof_ok A (fst p)" and "call_ok c"
  shows "\<exists>p' out. tof_do A c p = Some (p', out) \<and> tof_ok A (fst p') \<and> (\<forall>v\<in>set out. well_typed A v)"
proof (cases c)
  case (Tof_Read dev count)
  with assms tof_read_ok [of A "fst p" dev count "snd p"] show ?thesis by (auto simp: call_ok_def)
next
  case (Tof_Enable dir ival h en)
  with assms setEnable_ok [of A "fst p" dir ival h en "snd p"] show ?thesis by simp
qed (use assms in \<open>auto simp: tof_batch_def tof_flush_def Let_def case_prod_beta\<close>)

lemma tof_run_ok:
  "tof_ok A (fst p) \<Longrightarrow> \<forall>c\<in>set cs. call_ok c
   \<Longrightarrow> \<exists>p' out. tof_run A cs p = Some (p', out) \<and> tof_ok A (fst p') \<and> (\<forall>v\<in>set out. well_typed A v)"
proof (induction cs arbitrary: p)
  case (Cons c cs)
  obtain p1 o1 where c: "tof_do A c p = Some (p1, o1)" "tof_ok A (fst p1)" "\<forall>v\<in>set o1. well_typed A v"
    using tof_do_ok [OF Cons.prems(1), of c] Cons.prems(2) by auto
  with Cons.IH [OF c(2)] Cons.prems(2) show ?case by auto
qed simp

lemma new_tof_ok: "length junk = 16 \<Longrightarrow> tof_ok A (new_tof (junk, ts0, dist0))"
  by (simp add: new_tof_def tof_ok_def tof_core_def prox_event_def reader_inv_new)

section \<open>Properties\<close>

text \<open>C9: after the sensor was switched on, and while its configuration can be written, the events reported for a stream
  of samples are the changes of the debounced decision: two samples in a row on one side of the band decide, samples
  inside it change nothing, and each event carries the distance of its side. So the events alternate, far first. It does
  not matter how the reads cut the stream.\<close>

theorem tof_reports_decisions:
  assumes "tof_setEnable dir ival TOF_ID_RP 1 (s0, fs0) = (err, s, fs)" and "\<not> sar_fails (s, fs)"
    and "\<not> tf_flushEnabled s0" and "\<not> mTimestampUpdated s0" and "\<not> mSendData s0"
    and "reader_inv r" and "reader_abs r = []" and "\<forall>d\<in>set ds. 0 \<le> fst d"
    and "emit_reads (tof_emit A) ds (r, (s, fs), concat (map frame_events frs)) = Some (r', p', [], out)" and "reader_abs r' = []"
  shows "out = map (tof_report A s) (settled_changes [] (sint (mCurrentDistance s)) frs)
    \<and> successively (\<noteq>) (Close # settled_changes [] (sint (mCurrentDistance s)) frs)"
proof -
  have "tracks [] s" "tof_quiet s" using setEnable_arms [OF assms(1-5)] by simp_all
  note run = frames_run [OF this assms(2), of A frs]
  from tof_emitter.reads_stream [OF assms(6,8), of A "(s, fs)" "concat (map frame_events frs)"] assms(7,9,10)
  have "out = snd (run_emit (tof_emit A) (concat (map frame_events frs)) (s, fs))" by auto
  with run settled_changes_alternate [of "[]"] show ?thesis by simp
qed


text \<open>C21: whatever a driver is asked and whatever its device delivers, from its construction on: every call returns, the
  state is well formed (the decision is close or far, the armed mode low or high, the pending event is one of the sensor,
  with the distance of a side when it is to be sent), and every event delivered is a flush completion or an event of the
  sensor whose distance is that of a side.\<close>

theorem tof_state_well_typed:
  assumes "length junk = 16" and "\<forall>c\<in>set calls. call_ok c"
  shows "\<exists>s fs' out. tof_run A calls (new_tof (junk, ts0, dist0), fs) = Some ((s, fs'), out) \<and> tof_ok A s
    \<and> (\<forall>v\<in>set out. well_typed A v)"
  using tof_run_ok [of A "(new_tof (junk, ts0, dist0), fs)" calls] new_tof_ok [OF assms(1), of A ts0 dist0] assms(2) by auto

text \<open>C29: the loop of \<open>readEvents\<close> ends for every answer of the device, with at most as many turns as the reader holds
  events and one more (the fuel), and it writes at most as many events as the caller has room for; a caller without room
  gets none and the device is not read.\<close>

theorem tof_read_terminates:
  assumes "tof_ok A s" and "dev_ok dev"
  shows "\<exists>p out. tof_readEvents A dev count (s, fs) = Some (p, out) \<and> int (length out) \<le> max 0 count
    \<and> (count < 1 \<longrightarrow> p = (s, fs))"
proof -
  from tof_read_ok [OF assms, of count fs] obtain p out where
    "tof_readEvents A dev count (s, fs) = Some (p, out)" "int (length out) \<le> max 0 count" by auto
  moreover from this have "count < 1 \<longrightarrow> p = (s, fs)" by (auto simp: tof_readEvents_def)
  ultimately show ?thesis by blast
qed

text \<open>Once the driver has decided for far and the configuration cannot be written, every further sample reports far
  again, even one in the band between the thresholds: the change of mode that would stop the reports never happens.\<close>

theorem tof_config_failure_repeats:
  assumes "sar_fails (s, fs)" and "tof_quiet s" and "mDetectDistance s = DETECT_DISTANCE_FAR"
    and "mDetectMode s = DETECT_MODE_CROSS_HIGH" and "DETECT_WEIGHT_CEILING \<le> mDetectWeight s"
    and "\<forall>d\<in>set ds. 70 < d \<and> d < 75"
  shows "snd (run_emit (tof_emit A) (concat (map distance_events ds)) (s, fs)) = replicate (length ds) (tof_report A s Far)"
  using assms by (rule failing_run)

definition matching :: "tof_item \<Rightarrow> bool" where
  "matching it \<longleftrightarrow> (case ti_attr it of Some (Some txt) \<Rightarrow> attr_matches txt | _ \<Rightarrow> False)"

lemma findPath_fails:
  assumes "\<forall>i\<in>set its. \<not> matching i" and "ti_dir it" and "take 1 (ti_name it) \<noteq> ''.''" and "\<not> matching it"
  shows "findPath (its @ [it]) path = (item_path it @ ''/name'', False)"
  using assms
proof (induction its arbitrary: path)
  case Nil
  then show ?case by (auto simp: matching_def split: option.splits)
next
  case (Cons i its)
  then have "\<not> matching i" by simp
  with Cons show ?case by (auto simp: matching_def split: option.splits)
qed

lemma setEnable_path [simp]:
  "mFilePath (fst (snd (tof_setEnable dir ival h en (s, fs)))) = mFilePath (tof_locate dir ival s)"
  by (simp add: tof_setEnable_def Let_def case_prod_beta enableSAR_def setSARConfig_def)

text \<open>A search that fails is never repeated: when the last directory of \<open>/sys/devices/virtual/laser\<close> is not the
  sensor's and none before is, the path is left at the attribute \<open>name\<close> of that directory. It is not empty, so no later
  call searches again, even when the sensor has appeared: every call then does what it does without any directory.\<close>

theorem tof_failed_search_sticks:
  assumes "mFilePath s = ''''" and "\<forall>i\<in>set its. \<not> matching i" and "ti_dir it" and "take 1 (ti_name it) \<noteq> ''.''"
    and "\<not> matching it" and "tof_setEnable (Some (its @ [it])) ival h en (s, fs) = (err, s1, fs1)"
  shows "mFilePath s1 = item_path it @ ''/name''
    \<and> tof_setEnable dir2 ival2 h2 en2 (s1, fs1) = tof_setEnable None ival2 h2 en2 (s1, fs1)
    \<and> mFilePath (fst (snd (tof_setEnable dir2 ival2 h2 en2 (s1, fs1)))) = mFilePath s1"
proof -
  have "mFilePath (tof_locate (Some (its @ [it])) ival s) = item_path it @ ''/name''"
    using assms(1) findPath_fails [OF assms(2-5)] by (auto simp: tof_locate_def findPathByAttr_def Let_def split: option.split)
  with assms(6) setEnable_path [of "Some (its @ [it])" ival h en s fs] have p: "mFilePath s1 = item_path it @ ''/name''" by simp
  then have "tof_locate dir2 ival2 s1 = tof_locate None ival2 s1" "mFilePath (tof_locate dir2 ival2 s1) = mFilePath s1"
    by (auto simp: tof_locate_def Let_def split: option.split)
  moreover from this(1) have "tof_setEnable dir2 ival2 h2 en2 (s1, fs1) = tof_setEnable None ival2 h2 en2 (s1, fs1)"
    by (simp only: tof_setEnable_def prod.case)
  ultimately show ?thesis using p setEnable_path [of dir2 ival2 h2 en2 s1 fs1] by simp
qed

section \<open>Instances\<close>

definition plain_abs :: abs_event where
  "plain_abs = \<lparr>ae_type = EV_SYN, ae_code = ABS_OTHER 0, ae_value = 0\<rparr>"

definition plain_tof :: "int tof" where
  "plain_tof = new_tof (replicate 16 plain_abs, 0, 0)"

definition open_files :: fsys where "open_files = \<lparr>content = (\<lambda>_. None), write_fails = (\<lambda>_. False)\<rparr>"
definition closed_files :: fsys where "closed_files = \<lparr>content = (\<lambda>_. None), write_fails = (\<lambda>_. True)\<rparr>"

definition far_frames :: "frame list" where
  "far_frames = [Stamped 1 100, New_Distance 72, Stamp_Only 2, New_Distance 90, New_Distance 5, New_Distance 6]"

theorem tof_reports_decisions_witness:
  "\<exists>s fs. snd (tof_setEnable None None TOF_ID_RP 1 (plain_tof, open_files)) = (s, fs)
    \<and> settled_changes [] (sint (mCurrentDistance s)) far_frames = [Far, Close]
    \<and> (\<exists>r' p' out. emit_reads (tof_emit whole_arith) [(2, 8), (1, 3), (4, 8)] (tf_reader plain_tof, (s, fs), concat (map frame_events far_frames))
         = Some (r', p', [], out) \<and> out = map (tof_report whole_arith s) [Far, Close])"
proof -
  obtain err s fs where e: "tof_setEnable None None TOF_ID_RP 1 (plain_tof, open_files) = (err, s, fs)" by (metis prod_cases3)
  then have se: "s = fst (snd (tof_setEnable None None TOF_ID_RP 1 (plain_tof, open_files)))"
    "fs = snd (snd (tof_setEnable None None TOF_ID_RP 1 (plain_tof, open_files)))" by simp_all
  have "map_option (\<lambda>(r, p, rest, out). (reader_abs r, rest))
      (emit_reads (tof_emit whole_arith) [(2, 8), (1, 3), (4, 8)] (tf_reader plain_tof, (s, fs), concat (map frame_events far_frames)))
      = Some ([], [])" unfolding se by code_simp
  then obtain r' p' out where r: "emit_reads (tof_emit whole_arith) [(2, 8), (1, 3), (4, 8)]
      (tf_reader plain_tof, (s, fs), concat (map frame_events far_frames)) = Some (r', p', [], out)" "reader_abs r' = []" by auto
  have ok: "\<not> sar_fails (s, fs)" unfolding se by code_simp
  have idle: "\<not> tf_flushEnabled plain_tof" "\<not> mTimestampUpdated plain_tof" "\<not> mSendData plain_tof"
    "reader_inv (tf_reader plain_tof)" "reader_abs (tf_reader plain_tof) = []"
    using reader_inv_new [of 8 "replicate 16 plain_abs"] by (simp_all add: plain_tof_def new_tof_def)
  have ch: "settled_changes [] (sint (mCurrentDistance s)) far_frames = [Far, Close]" unfolding se by code_simp
  from tof_reports_decisions [OF e ok idle _ r] ch e r(1) show ?thesis by auto
qed

theorem tof_state_well_typed_witness:
  "\<exists>s fs' out. tof_run whole_arith [Tof_Enable None None TOF_ID_RP 1, Tof_Read (\<lambda>n. Read_Events [] 0) 4] (new_tof (replicate 16 plain_abs, 0, 0), open_files)
    = Some ((s, fs'), out) \<and> tof_ok whole_arith s"
  using tof_state_well_typed [of "replicate 16 plain_abs" "[Tof_Enable None None TOF_ID_RP 1, Tof_Read (\<lambda>n. Read_Events [] 0) 4]" whole_arith 0 0 open_files]
  by (auto simp: call_ok_def dev_ok_def)

theorem tof_read_terminates_witness:
  "\<exists>p out. tof_readEvents whole_arith (\<lambda>n. Read_Events [plain_abs] 3) 1 (plain_tof, open_files) = Some (p, out) \<and> length out \<le> 1"
proof -
  have "dev_ok (\<lambda>n. if n = 0 then Read_Error 5 else Read_Events [plain_abs] 3)" by (simp add: dev_ok_def)
  moreover have "tof_ok whole_arith plain_tof" by (simp add: plain_tof_def new_tof_ok)
  ultimately have "\<exists>p out. tof_readEvents whole_arith (\<lambda>n. if n = 0 then Read_Error 5 else Read_Events [plain_abs] 3) 1 (plain_tof, open_files)
      = Some (p, out) \<and> length out \<le> 1"
    using tof_read_terminates [of whole_arith plain_tof "\<lambda>n. if n = 0 then Read_Error 5 else Read_Events [plain_abs] 3" 1 open_files] by auto
  moreover have "fill (\<lambda>n. if n = 0 then Read_Error 5 else Read_Events [plain_abs] 3) (tf_reader plain_tof)
      = fill (\<lambda>n. Read_Events [plain_abs] 3) (tf_reader plain_tof)"
    by (simp add: fill_def plain_tof_def new_tof_def new_reader_def)
  ultimately show ?thesis by (simp add: tof_readEvents_def emit_loop_def)
qed

theorem tof_config_failure_repeats_witness:
  "\<exists>s. snd (run_emit (tof_emit whole_arith) (concat (map distance_events [72, 73, 72])) (s, closed_files)) = replicate 3 (tof_report whole_arith s Far)"
  using tof_config_failure_repeats [of "plain_tof\<lparr>tf_enabled := 1, mDetectDistance := DETECT_DISTANCE_FAR, mDetectWeight := DETECT_WEIGHT_CEILING\<rparr>"
      closed_files "[72, 73, 72]" whole_arith]
  by (auto simp: sar_fails_def tof_quiet_def plain_tof_def new_tof_def closed_files_def eval_nat_numeral)

theorem tof_failed_search_sticks_witness:
  "\<exists>s1 fs1. snd (tof_setEnable (Some [\<lparr>ti_name = ''laser0'', ti_dir = True, ti_attr = Some (Some ''other'')\<rparr>]) None TOF_ID_RP 1 (plain_tof, open_files)) = (s1, fs1)
    \<and> mFilePath s1 = ''/sys/devices/virtual/laser/laser0/name''"
proof -
  let ?it = "\<lparr>ti_name = ''laser0'', ti_dir = True, ti_attr = Some (Some ''other'')\<rparr>"
  obtain err s1 fs1 where e: "tof_setEnable (Some ([] @ [?it])) None TOF_ID_RP 1 (plain_tof, open_files) = (err, s1, fs1)"
    by (metis prod_cases3)
  have "\<not> matching ?it" by code_simp
  from tof_failed_search_sticks [OF _ _ _ _ this e, of None None 0 0] e show ?thesis
    by (simp add: plain_tof_def new_tof_def item_path_def PATH_BASE_def)
qed

end
