(* ===== verification/Tof_Poll.thy ===== *)
theory Tof_Poll
  imports Tof_Prox Base_Hal
begin

text \<open>
  The HAL of the ranging sensor put together (\<open>tof_hal/SensorsPollContext.cpp\<close>): its one driver in the poll context
  whose loop only logs errors. The driver keeps the contract of \<open>Base_Hal\<close>, so the module delivers exactly what the
  driver reports.
\<close>

section \<open>The driver\<close>

text \<open>\<open>fd\<close> is the descriptor of the input device, negative when none was found.\<close>

definition tof_ops :: "'f farith \<Rightarrow> tof_item list option \<Rightarrow> string option \<Rightarrow> int \<Rightarrow>
    ('f tof, nat \<Rightarrow> abs_event read_result, 'f sensors_event) driver_ops" where
  "tof_ops A dir ival fd =
     \<lparr>op_hasSensor = (\<lambda>d h. h = TOF_ID_RP), op_hasPending = (\<lambda>d. False), op_getFd = (\<lambda>d. fd),
      op_setEnable = tof_setEnable dir ival, op_batch = (\<lambda>h flags ns timeout. tof_batch h ns), op_flush = tof_flush,
      op_readEvents = (\<lambda>dev count st. map_option (\<lambda>(st', evs). (int (length evs), st', evs)) (tof_readEvents A dev count st))\<rparr>"

interpretation tof_driver: base_driver "tof_ops A dir ival fd" "tof_ok A" dev_ok
  for A :: "'f farith" and dir and ival and fd
proof (unfold_locales, goal_cases)
  case (1 d i count fs)
  from tof_read_ok [OF 1(1,2), of count fs] 1(3) show ?case by (auto simp: tof_ops_def)
qed

section \<open>Properties\<close>

text \<open>When the sensor is ready, one call of the HAL answers exactly what the driver reports: their number, and the
  events in the buffer.\<close>

theorem tof_poll_is_read:
  assumes "0 \<le> fd" and "ready 0" and "1 \<le> count" and "tof_readEvents A (inp 0) count (d, fs) = Some ((d', fs'), out)"
  shows "hal_poll False (tof_ops A dir ival fd) pend inp (Sys_Ready ready) True count ([d], fs)
    = Some (int (length out), out, [d'], fs')"
  using hal_poll_single [of "tof_ops A dir ival fd" d ready count inp fs "int (length out)" d' fs' out pend] assms
  by (simp add: tof_ops_def)

theorem tof_poll_is_read_witness:
  "hal_poll False (tof_ops whole_arith None None 5) (\<lambda>_ _. Read_Error 4) (\<lambda>_ _. Read_Error 4) (Sys_Ready (\<lambda>_. True)) True 3 ([plain_tof], open_files)
   = Some (0, [], [plain_tof], open_files)"
proof -
  have "tof_readEvents whole_arith (\<lambda>_. Read_Error 4) 3 (plain_tof, open_files) = Some ((plain_tof, open_files), [])"
    by (simp add: tof_readEvents_def emit_loop_def fill_def plain_tof_def new_tof_def new_reader_def)
  from tof_poll_is_read [of 5 "\<lambda>_. True" 3, OF _ _ _ this] show ?thesis by simp
qed

text \<open>The module's loop delivers at least one event and at most as many as fit.\<close>

lemma tof_module_poll_delivers:
  assumes "tof_ok A d" and "\<forall>(pend, inp, answer)\<in>set rounds. (\<forall>i. dev_ok (pend i)) \<and> (\<forall>i. dev_ok (inp i))" and "1 \<le> count"
    and "module_poll False (tof_ops A dir ival fd) rounds True count ([d], fs) = Some (ret, evs, ds', fs')"
  shows "1 \<le> ret \<and> ret \<le> count \<and> int (length evs) = ret \<and> (\<forall>d\<in>set ds'. tof_ok A d)"
  using tof_driver.module_poll_ok [OF _ assms(2-4)] assms(1) by simp

end
