(* ===== verification/Native_Driver.thy ===== *)
theory Native_Driver
  imports Event_Loop "HOL-Library.Signed_Division"
begin

text \<open>
  The drivers of the generic HAL \<open>rearProx\<close>: \<open>ProximitySensor.cpp\<close> and \<open>CapSensor.cpp\<close>, which differ in the type of
  their events and the property that sets them out of action, and their base class \<open>SensorBase.cpp\<close> with the latency
  and the flush completions. A driver controls its device by the attributes in its directory.
\<close>

section \<open>Events\<close>

datatype native_code = CODE_DISTANCE | CODE_SYN_REPORT | CODE_NATIVE int

text \<open>\<open>te_time\<close> is the time of the event in nanoseconds.\<close>

record timed_event =
  te_type :: ev_type
  te_code :: native_code
  te_value :: int
  te_time :: int

section \<open>The driver\<close>

datatype native_kind = Proximity_Kind | Cap_Kind

fun kind_type :: "native_kind \<Rightarrow> sensor_type" where
  "kind_type Proximity_Kind = SENSOR_TYPE_PROXIMITY"
| "kind_type Cap_Kind = SENSOR_TYPE_MOTO_CAPSENSE"

text \<open>\<open>mUseAbsTimeStamp\<close> is never set by the code.\<close>

record 'f native_driver =
  nd_kind :: native_kind
  nd_handle :: int
  mUseAbsTimeStamp :: bool
  input_sysfs_path :: string
  nd_fd :: int
  nd_enabled :: bool
  mHasPendingEvent :: bool
  mHasPendingMetadata :: int
  nd_reader :: "timed_event reader"
  mPendingEvent :: "'f sensors_event"
  meta_data :: "'f sensors_event"

text \<open>\<open>junk\<close>: the buffer of the reader, the member \<open>mUseAbsTimeStamp\<close> and the time of the pending event; the
  constructor clears the data of the event.\<close>

definition new_native_driver :: "'f farith \<Rightarrow> native_kind \<Rightarrow> int \<Rightarrow> string \<Rightarrow> int \<Rightarrow> timed_event list \<times> bool \<times> int \<Rightarrow> 'f native_driver" where
  "new_native_driver A k h path fd = (\<lambda>(junk, absolute, ts0).
     \<lparr>nd_kind = k, nd_handle = h, mUseAbsTimeStamp = absolute, input_sysfs_path = path, nd_fd = fd, nd_enabled = False,
      mHasPendingEvent = False, mHasPendingMetadata = 0, nd_reader = new_reader 4 junk,
      mPendingEvent = \<lparr>version = SENSORS_EVENT_T_SIZE, sensor = h, etype = kind_type k, timestamp = ts0,
         payload = Scalar (f_of_int A 0)\<rparr>,
      meta_data = \<lparr>version = META_DATA_VERSION, sensor = h, etype = SENSOR_TYPE_META_DATA, timestamp = 0,
         payload = Flush_Complete h\<rparr>\<rparr>)"

section \<open>Control\<close>

text \<open>\<open>property\<close> gives the value of a property, the default \<open>0\<close> when it is not set. The cap sensor looks at its own
  property in both calls, the proximity sensor at that of the light sensor for the delay.\<close>

fun enable_property :: "native_kind \<Rightarrow> string" where
  "enable_property Proximity_Kind = ''sensors.proxymity.loopback''"
| "enable_property Cap_Kind = ''sensors.capsense.loopback''"

fun delay_property :: "native_kind \<Rightarrow> string" where
  "delay_property Proximity_Kind = ''sensors.light.loopback''"
| "delay_property Cap_Kind = ''sensors.capsense.loopback''"

text \<open>The attributes are opened for reading and writing, so one that cannot be read cannot be opened. Switching looks only
  at whether the attribute opens, the other calls also at whether the write went through.\<close>

definition attr_opens :: "fsys \<Rightarrow> path \<Rightarrow> bool" where
  "attr_opens fs p \<longleftrightarrow> read_file fs p \<noteq> None"

definition write_attr :: "fsys \<Rightarrow> path \<Rightarrow> string \<Rightarrow> bool \<times> fsys" where
  "write_attr fs p t = (if attr_opens fs p then write_file fs p t else (False, fs))"

definition nd_enable :: "(string \<Rightarrow> string) \<Rightarrow> int \<Rightarrow> 'f native_driver \<times> fsys \<Rightarrow> int \<times> 'f native_driver \<times> fsys" where
  "nd_enable property en = (\<lambda>(d, fs).
     if property (enable_property (nd_kind d)) = ''1'' then (0, d\<lparr>nd_enabled := (en \<noteq> 0)\<rparr>, fs)
     else if (en \<noteq> 0) \<noteq> nd_enabled d
     then
       let p = input_sysfs_path d @ ''enable''
       in if attr_opens fs p
          then (0, d\<lparr>nd_enabled := (en \<noteq> 0)\<rparr>, snd (write_file fs p ((if en \<noteq> 0 then ''1'' else ''0'') @ NUL)))
          else (- 1, d, fs)
     else if en \<noteq> 0 then (0, d\<lparr>mHasPendingEvent := True\<rparr>, fs)
     else (0, d, fs))"

definition nd_setDelay :: "(string \<Rightarrow> string) \<Rightarrow> int \<Rightarrow> 'f native_driver \<times> fsys \<Rightarrow> int \<times> 'f native_driver \<times> fsys" where
  "nd_setDelay property ns = (\<lambda>(d, fs).
     if property (delay_property (nd_kind d)) = ''1'' then (0, d, fs)
     else
       let (ok, fs1) = write_attr fs (input_sysfs_path d @ ''poll_delay'') (show_int (int32 (ns sdiv 1000000)) @ NUL)
       in (if ok then 0 else - 1, d, fs1))"

text \<open>The latency is divided as an unsigned number, so a negative one is too large.\<close>

definition nd_setLatency :: "int \<Rightarrow> 'f native_driver \<times> fsys \<Rightarrow> int \<times> 'f native_driver \<times> fsys" where
  "nd_setLatency ns = (\<lambda>(d, fs).
     if uint (word_of_int ns :: 64 word) div 1000000 \<ge> 2 ^ 31 - 1 then (- EINVAL, d, fs)
     else
       let (ok, fs1) = write_attr fs (input_sysfs_path d @ ''max_latency'') (show_int (int32 (ns sdiv 1000000)) @ NUL)
       in (if ok then 0 else - 1, d, fs1))"

text \<open>\<open>fifo\<close> is \<open>fifoMaxEventCount\<close> of the sensor with the handle, \<open>None\<close> when the manager has none.\<close>

definition nd_flush :: "int option \<Rightarrow> 'f native_driver \<times> fsys \<Rightarrow> int \<times> 'f native_driver \<times> fsys" where
  "nd_flush fifo = (\<lambda>(d, fs).
     case fifo of
       None \<Rightarrow> (- EINVAL, d, fs)
     | Some n \<Rightarrow>
         if \<not> nd_enabled d then (- EINVAL, d, fs)
         else
           let (ok, fs1) = (if n \<noteq> 0 then write_attr fs (input_sysfs_path d @ ''flush'') (''1'' @ NUL) else (True, fs))
           in if ok then (0, d\<lparr>mHasPendingMetadata := mHasPendingMetadata d + 1\<rparr>, fs1) else (- 1, d, fs1))"

section \<open>Reading\<close>

definition nd_hasPendingEvents :: "'f native_driver \<Rightarrow> bool" where
  "nd_hasPendingEvents d \<longleftrightarrow> mHasPendingEvent d \<or> mHasPendingMetadata d \<noteq> 0"

text \<open>The parameter of \<open>indexToValue\<close> is a \<open>size_t\<close>, of 64 bits on this device: a negative value becomes a huge one.\<close>

definition indexToValue :: "'f farith \<Rightarrow> int \<Rightarrow> 'f" where
  "indexToValue A v = f_of_int A (uint (word_of_int v :: 64 word))"

definition nd_emit :: "'f farith \<Rightarrow> bool \<Rightarrow> bool \<Rightarrow> timed_event \<Rightarrow> 'f sensors_event \<Rightarrow> 'f sensors_event \<times> 'f sensors_event list" where
  "nd_emit A enabled absolute e p =
     (if te_type e = EV_ABS
      then (if te_code e = CODE_DISTANCE \<and> te_value e \<noteq> - 1 then p\<lparr>payload := Scalar (indexToValue A (te_value e))\<rparr> else p, [])
      else if te_type e = EV_SYN \<and> te_code e = CODE_SYN_REPORT
      then let p1 = (if absolute then p else p\<lparr>timestamp := te_time e\<rparr>) in (p1, if enabled then [p1] else [])
      else (p, []))"

interpretation native_emitter: emitter "nd_emit A enabled absolute" for A :: "'f farith" and enabled and absolute
  by unfold_locales (simp add: nd_emit_def Let_def)

text \<open>\<open>now\<close> is the clock. The value is the count or a negative \<open>errno\<close>, the driver and the events written.\<close>

definition nd_readEvents :: "'f farith \<Rightarrow> int \<Rightarrow> (nat \<Rightarrow> timed_event read_result) \<Rightarrow> int \<Rightarrow> 'f native_driver \<Rightarrow>
    (int \<times> 'f native_driver \<times> 'f sensors_event list) option" where
  "nd_readEvents A now dev count d =
     (if count < 1 then Some (- EINVAL, d, [])
      else if mHasPendingEvent d
      then let p = (mPendingEvent d)\<lparr>timestamp := now\<rparr>
           in Some (if nd_enabled d then 1 else 0, d\<lparr>mHasPendingEvent := False, mPendingEvent := p\<rparr>, [p])
      else if mHasPendingMetadata d \<noteq> 0
      then let m = (meta_data d)\<lparr>timestamp := now\<rparr>
           in Some (if nd_enabled d then 1 else 0, d\<lparr>mHasPendingMetadata := mHasPendingMetadata d - 1, meta_data := m\<rparr>, [m])
      else if fst (fill dev (nd_reader d)) < 0
      then Some (fst (fill dev (nd_reader d)), d\<lparr>nd_reader := snd (fill dev (nd_reader d))\<rparr>, [])
      else map_option (\<lambda>(r, p, out). (int (length out), d\<lparr>nd_reader := r, mPendingEvent := p\<rparr>, out))
        (emit_loop (nd_emit A (nd_enabled d) (mUseAbsTimeStamp d)) dev count (nd_reader d) (mPendingEvent d)))"

definition nd_good :: "'f native_driver \<Rightarrow> bool" where
  "nd_good d \<longleftrightarrow> reader_inv (nd_reader d) \<and> mBufferEnd (nd_reader d) = 4 \<and> 0 \<le> mHasPendingMetadata d"

lemma new_native_driver_good: "length junk = 8 \<Longrightarrow> nd_good (new_native_driver A k h path fd (junk, absolute, ts0))"
  by (simp add: nd_good_def new_native_driver_def reader_inv_new) (simp add: new_reader_def)

lemma nd_readEvents_returns:
  assumes "nd_good d" and "dev_ok dev"
  shows "\<exists>nb d' out. nd_readEvents A now dev count d = Some (nb, d', out) \<and> nd_good d' \<and> nd_enabled d' = nd_enabled d
    \<and> nd_kind d' = nd_kind d \<and> input_sysfs_path d' = input_sysfs_path d \<and> (1 \<le> count \<longrightarrow> nb \<le> count)
    \<and> (0 < nb \<longrightarrow> nb = int (length out))"
proof (cases "1 \<le> count \<and> \<not> mHasPendingEvent d \<and> mHasPendingMetadata d = 0 \<and> \<not> fst (fill dev (nd_reader d)) < 0")
  case False
  have "nd_good (d\<lparr>nd_reader := snd (fill dev (nd_reader d))\<rparr>)"
    using assms fill_keeps [of "nd_reader d" dev] by (simp add: nd_good_def)
  with False assms(1) show ?thesis by (auto simp: nd_readEvents_def Let_def nd_good_def EINVAL_def)
next
  case True
  then have c: "0 \<le> count" by simp
  have inv: "reader_inv (nd_reader d)" using assms(1) by (simp add: nd_good_def)
  from native_emitter.loop_returns [OF inv assms(2) c, of A "nd_enabled d" "mUseAbsTimeStamp d" "mPendingEvent d"] obtain r p out used where
    "emit_loop (nd_emit A (nd_enabled d) (mUseAbsTimeStamp d)) dev count (nd_reader d) (mPendingEvent d) = Some (r, p, out)"
    "reader_inv r" "mBufferEnd r = mBufferEnd (nd_reader d)" "int (length out) \<le> count" by blast
  with True assms(1) show ?thesis by (auto simp: nd_readEvents_def nd_good_def)
qed

section \<open>Flush completions\<close>

text \<open>A sequence of calls. Each read comes with the clock, the answers of the device and the room.\<close>

datatype nd_call =
    ND_Enable int
  | ND_Delay int
  | ND_Latency int
  | ND_Flush "int option"
  | ND_Read int "nat \<Rightarrow> timed_event read_result" int

fun nd_do :: "'f farith \<Rightarrow> (string \<Rightarrow> string) \<Rightarrow> nd_call \<Rightarrow> 'f native_driver \<times> fsys \<Rightarrow>
    (int \<times> ('f native_driver \<times> fsys) \<times> 'f sensors_event list) option" where
  "nd_do A property (ND_Enable en) st = (let (r, st') = nd_enable property en st in Some (r, st', []))"
| "nd_do A property (ND_Delay ns) st = (let (r, st') = nd_setDelay property ns st in Some (r, st', []))"
| "nd_do A property (ND_Latency ns) st = (let (r, st') = nd_setLatency ns st in Some (r, st', []))"
| "nd_do A property (ND_Flush fifo) st = (let (r, st') = nd_flush fifo st in Some (r, st', []))"
| "nd_do A property (ND_Read now dev count) (d, fs) =
     map_option (\<lambda>(nb, d', out). (nb, (d', fs), take (nat nb) out)) (nd_readEvents A now dev count d)"

text \<open>The run, with the number of flushes that answered 0.\<close>

fun nd_run :: "'f farith \<Rightarrow> (string \<Rightarrow> string) \<Rightarrow> nd_call list \<Rightarrow> 'f native_driver \<times> fsys \<Rightarrow>
    (nat \<times> ('f native_driver \<times> fsys) \<times> 'f sensors_event list) option" where
  "nd_run A property [] st = Some (0, st, [])"
| "nd_run A property (c # cs) st =
     (case nd_do A property c st of
        None \<Rightarrow> None
      | Some (r, st1, o1) \<Rightarrow>
          map_option (\<lambda>(k, st2, o2). ((case c of ND_Flush _ \<Rightarrow> if r = 0 then 1 else 0 | _ \<Rightarrow> 0) + k, st2, o1 @ o2))
            (nd_run A property cs st1))"

text \<open>Calls that leave the driver enabled, and reads whose device gives no more events than fit.\<close>

fun nd_call_ok :: "nd_call \<Rightarrow> bool" where
  "nd_call_ok (ND_Enable en) \<longleftrightarrow> en \<noteq> 0"
| "nd_call_ok (ND_Read now dev count) \<longleftrightarrow> dev_ok dev"
| "nd_call_ok _ \<longleftrightarrow> True"

definition is_completion :: "'f sensors_event \<Rightarrow> bool" where
  "is_completion v \<longleftrightarrow> etype v = SENSOR_TYPE_META_DATA"


definition nd_typed :: "'f native_driver \<Rightarrow> bool" where
  "nd_typed d \<longleftrightarrow> nd_good d \<and> \<not> is_completion (mPendingEvent d) \<and> is_completion (meta_data d)"

lemma nd_emit_typed:
  "\<not> is_completion p \<Longrightarrow> \<not> is_completion (fst (nd_emit A en ab e p)) \<and> (\<forall>v\<in>set (snd (nd_emit A en ab e p)). \<not> is_completion v)"
  by (auto simp: nd_emit_def is_completion_def Let_def)

lemma run_nd_typed:
  "\<not> is_completion p \<Longrightarrow> run_emit (nd_emit A en ab) es p = (q, out) \<Longrightarrow> \<not> is_completion q \<and> (\<forall>v\<in>set out. \<not> is_completion v)"
proof (induction es arbitrary: p out)
  case (Cons e es)
  obtain p1 new where e: "nd_emit A en ab e p = (p1, new)" by fastforce
  obtain o2 where r: "run_emit (nd_emit A en ab) es p1 = (q, o2)" using Cons.prems(2) e by (cases "run_emit (nd_emit A en ab) es p1") simp
  from nd_emit_typed [OF Cons.prems(1), of A en ab e] have "\<not> is_completion p1" "\<forall>v\<in>set new. \<not> is_completion v" by (simp_all add: e)
  with Cons.IH [of p1 o2] Cons.prems(2) e r show ?case by auto
qed simp

text \<open>A read delivers at most one completion, and takes it off the count.\<close>

lemma read_completions:
  assumes "nd_typed d" and "nd_enabled d" and "dev_ok dev"
  shows "\<exists>nb d' out. nd_readEvents A now dev count d = Some (nb, d', out) \<and> nd_typed d' \<and> nd_enabled d'
    \<and> int (length (filter is_completion (take (nat nb) out))) + mHasPendingMetadata d' = mHasPendingMetadata d"
proof (cases "1 \<le> count \<and> \<not> mHasPendingEvent d \<and> mHasPendingMetadata d = 0 \<and> \<not> fst (fill dev (nd_reader d)) < 0")
  case False
  have "nd_good (d\<lparr>nd_reader := snd (fill dev (nd_reader d))\<rparr>)"
    using assms fill_keeps [of "nd_reader d" dev] by (simp add: nd_good_def nd_typed_def)
  with False assms show ?thesis
    by (auto simp: nd_readEvents_def Let_def nd_typed_def nd_good_def is_completion_def EINVAL_def)
next
  case True
  then have c: "0 \<le> count" by simp
  have inv: "reader_inv (nd_reader d)" and p: "\<not> is_completion (mPendingEvent d)" using assms(1) by (simp_all add: nd_typed_def nd_good_def)
  from native_emitter.loop_returns [OF inv assms(3) c, of A "nd_enabled d" "mUseAbsTimeStamp d" "mPendingEvent d"] obtain r q out used where
    l: "emit_loop (nd_emit A (nd_enabled d) (mUseAbsTimeStamp d)) dev count (nd_reader d) (mPendingEvent d) = Some (r, q, out)"
    "reader_inv r" "mBufferEnd r = mBufferEnd (nd_reader d)" "run_emit (nd_emit A (nd_enabled d) (mUseAbsTimeStamp d)) used (mPendingEvent d) = (q, out)" by blast
  from run_nd_typed [OF p l(4)] have "\<not> is_completion q" "filter is_completion out = []" by (auto simp: filter_empty_conv)
  with True l assms(1,2) show ?thesis by (auto simp: nd_readEvents_def nd_typed_def nd_good_def)
qed

lemma flush_counts:
  "nd_flush fifo (d, fs) = (r, (d', fs')) \<Longrightarrow> mHasPendingMetadata d' = mHasPendingMetadata d + (if r = 0 then 1 else 0)
   \<and> d' = d\<lparr>mHasPendingMetadata := mHasPendingMetadata d'\<rparr>"
  by (auto simp: nd_flush_def EINVAL_def split: option.splits prod.splits if_splits)

text \<open>Switching on again and the periods leave the completions alone.\<close>

lemma control_keeps:
  "en \<noteq> 0 \<Longrightarrow> nd_enabled d \<Longrightarrow> \<exists>d'. fst (snd (nd_enable property en (d, fs))) = d' \<and> (d' = d \<or> d' = d\<lparr>mHasPendingEvent := True\<rparr>)"
  "fst (snd (nd_setDelay property ns (d, fs))) = d" "fst (snd (nd_setLatency ns (d, fs))) = d"
  by (auto simp: nd_enable_def nd_setDelay_def nd_setLatency_def Let_def case_prod_beta)

lemma nd_typed_pending: "nd_typed (d\<lparr>mHasPendingEvent := True\<rparr>) = nd_typed d"
  by (simp add: nd_typed_def nd_good_def)

text \<open>One call: what it adds to the completions delivered and pending is 1 for a flush that answered 0, else nothing.\<close>

lemma call_completions:
  assumes "nd_typed d" and "nd_enabled d" and "nd_call_ok c"
  shows "\<exists>r d' fs' out. nd_do A property c (d, fs) = Some (r, (d', fs'), out) \<and> nd_typed d' \<and> nd_enabled d'
    \<and> int (length (filter is_completion out)) + mHasPendingMetadata d'
      = mHasPendingMetadata d + (case c of ND_Flush _ \<Rightarrow> if r = 0 then 1 else 0 | _ \<Rightarrow> 0)"
proof (cases c)
  case (ND_Enable en)
  obtain r d1 fs1 where e: "nd_enable property en (d, fs) = (r, d1, fs1)" by (metis prod_cases3)
  with control_keeps(1) [of en d property fs] ND_Enable assms have "d1 = d \<or> d1 = d\<lparr>mHasPendingEvent := True\<rparr>" by simp
  with assms e ND_Enable show ?thesis by (auto simp: nd_typed_pending)
next
  case (ND_Delay ns)
  obtain r d1 fs1 where e: "nd_setDelay property ns (d, fs) = (r, d1, fs1)" by (metis prod_cases3)
  with control_keeps(2) [of property ns d fs] have "d1 = d" by simp
  with assms e ND_Delay show ?thesis by simp
next
  case (ND_Latency ns)
  obtain r d1 fs1 where e: "nd_setLatency ns (d, fs) = (r, d1, fs1)" by (metis prod_cases3)
  with control_keeps(3) [of ns d fs] have "d1 = d" by simp
  with assms e ND_Latency show ?thesis by simp
next
  case (ND_Flush fifo)
  obtain r d1 fs1 where f: "nd_flush fifo (d, fs) = (r, d1, fs1)" by (metis prod_cases3)
  note fc = flush_counts [OF f]
  have "nd_typed d1" "nd_enabled d1"
    using fc assms(1,2) by (subst fc [THEN conjunct2]; auto simp: nd_typed_def nd_good_def split: if_splits)+
  with fc f ND_Flush show ?thesis by auto
next
  case (ND_Read now dev count)
  with assms(3) have "dev_ok dev" by simp
  from read_completions [OF assms(1,2) this, of A now count] ND_Read show ?thesis by fastforce
qed

text \<open>C38: the comment on \<open>flush\<close> holds while the driver stays enabled: over any calls but switching off, each read with
  answers of the device of its own, every call returns, each flush that answered 0 gives exactly one completion, delivered
  or still pending, and no other call (switching on again, the periods, reading) gives one.\<close>

theorem native_flush_completions:
  assumes "nd_typed d" and "nd_enabled d" and "\<forall>c\<in>set calls. nd_call_ok c"
  shows "\<exists>k d' fs' out. nd_run A property calls (d, fs) = Some (k, (d', fs'), out) \<and> nd_typed d' \<and> nd_enabled d'
    \<and> int (length (filter is_completion out)) + mHasPendingMetadata d' = mHasPendingMetadata d + int k"
  using assms
proof (induction calls arbitrary: d fs)
  case (Cons c cs)
  then have "nd_call_ok c" by simp
  from call_completions [OF Cons.prems(1,2) this, of A property fs] obtain r d1 fs1 o1 where
    1: "nd_do A property c (d, fs) = Some (r, (d1, fs1), o1)" "nd_typed d1" "nd_enabled d1"
      "int (length (filter is_completion o1)) + mHasPendingMetadata d1
        = mHasPendingMetadata d + (case c of ND_Flush _ \<Rightarrow> if r = 0 then 1 else 0 | _ \<Rightarrow> 0)" by blast
  from Cons.IH [OF 1(2,3), of fs1] Cons.prems(3) obtain k d2 fs2 o2 where
    "nd_run A property cs (d1, fs1) = Some (k, (d2, fs2), o2)" "nd_typed d2" "nd_enabled d2"
      "int (length (filter is_completion o2)) + mHasPendingMetadata d2 = mHasPendingMetadata d1 + int k" by auto
  with 1 show ?case by (cases c) auto
qed simp

definition whole_driver :: "real native_driver" where
  "whole_driver = (new_native_driver real_arith Proximity_Kind 1 ''/sys/class/sensors/proximity/'' 5
     (replicate 8 \<lparr>te_type = EV_SYN, te_code = CODE_SYN_REPORT, te_value = 0, te_time = 0\<rparr>, False, 0))\<lparr>nd_enabled := True\<rparr>"

definition some_calls :: "nd_call list" where
  "some_calls = [ND_Flush (Some 0), ND_Enable 1, ND_Read 7 (\<lambda>_. Read_Error 11) 4, ND_Read 8 (\<lambda>_. Read_Error 4) 4, ND_Delay 5]"

theorem native_flush_completions_witness:
  "\<exists>d' fs' out. nd_run real_arith (\<lambda>_. ''0'') some_calls (whole_driver, \<lparr>content = (\<lambda>_. None), write_fails = (\<lambda>_. False)\<rparr>)
    = Some (1, (d', fs'), out) \<and> int (length (filter is_completion out)) + mHasPendingMetadata d' = 1"
proof -
  let ?fs = "\<lparr>content = (\<lambda>_. None), write_fails = (\<lambda>_. False)\<rparr>"
  have "nd_good (new_native_driver real_arith Proximity_Kind 1 ''/sys/class/sensors/proximity/'' 5
     (replicate 8 \<lparr>te_type = EV_SYN, te_code = CODE_SYN_REPORT, te_value = 0, te_time = 0\<rparr>, False, 0))"
    by (rule new_native_driver_good) simp
  then have t: "nd_typed whole_driver" "nd_enabled whole_driver"
    by (simp_all add: nd_typed_def whole_driver_def nd_good_def) (simp add: new_native_driver_def is_completion_def)
  have m: "mHasPendingMetadata whole_driver = 0" "\<not> mHasPendingEvent whole_driver" by (simp_all add: whole_driver_def new_native_driver_def)
  have "\<forall>c\<in>set some_calls. nd_call_ok c" by (simp add: some_calls_def dev_ok_def)
  from native_flush_completions [OF t this, of real_arith "\<lambda>_. ''0''" ?fs] obtain k d' fs' out where
    r: "nd_run real_arith (\<lambda>_. ''0'') some_calls (whole_driver, ?fs) = Some (k, (d', fs'), out)"
      "int (length (filter is_completion out)) + mHasPendingMetadata d' = int k" by (auto simp: m)
  moreover have "k = 1" using r(1) t(2) m by (auto simp: some_calls_def nd_flush_def Let_def split: option.splits)
  ultimately show ?thesis by auto
qed

end
