(* ===== verification/Native_Manager.thy ===== *)
theory Native_Manager
  imports Native_Driver
begin

unbundle bit_operations_syntax

text \<open>
  The sensor manager of the generic HAL (\<open>rearProx/NativeSensorManager.cpp\<close>): it finds the sensors in
  \<open>/sys/class/sensors\<close> and their input devices, makes their drivers, and carries out the calls of the framework, with
  the dependencies and listeners that virtual sensors would need. \<open>None\<close> is a program that goes wrong: a null pointer is
  followed or an array left.
\<close>

section \<open>The state\<close>

record 'f nsensor =
  sn_name :: string
  sn_vendor :: string
  sn_version :: int
  sn_type :: int
  sn_maxRange :: 'f
  sn_resolution :: 'f
  sn_power :: 'f
  sn_minDelay :: int
  sn_fifoReserved :: int
  sn_fifoMax :: int
  sn_maxDelay :: int
  sn_flags :: int
  sn_handle :: int
  sn_stringType :: "string option"

text \<open>A \<open>SensorContext\<close>; other contexts are their index in the array.\<close>

record 'f sctx =
  sc_sensor :: "'f nsensor"
  sc_driver :: "'f native_driver option"
  enable_path :: string
  data_path :: string
  sc_data_fd :: int
  sc_enable :: int
  is_virtual :: bool
  delay_ns :: int
  latency_ns :: int
  dep_list :: "nat list"
  listener :: "nat list"

record 'f manager =
  context_list :: "'f sctx list"
  handle_map :: "int \<rightharpoonup> nat"
  nm_fs :: fsys

text \<open>What the model is given: floating point, \<open>atof\<close>, the properties and the constants of the Android headers.\<close>

record 'f nm_env =
  n_flt :: "'f farith"
  n_atof :: "string \<Rightarrow> 'f"
  n_property :: "string \<Rightarrow> string"
  TYPE_PROXIMITY :: int
  PRIVATE_BASE :: int
  ON_CHANGE_FLAG :: int

definition MAX_SENSORS :: nat where "MAX_SENSORS = 20"
definition SYSFS_MAXLEN :: nat where "SYSFS_MAXLEN = 50"
definition SYSFS_CLASS :: string where "SYSFS_CLASS = ''/sys/class/sensors/''"
definition EVENT_PATH :: string where "EVENT_PATH = ''/dev/input/''"
definition ENODEV :: int where "ENODEV = 19"

definition TYPE_CAPSENSE :: "'f nm_env \<Rightarrow> int" where
  "TYPE_CAPSENSE E = PRIVATE_BASE E + 16"

definition SENSORS_HANDLE :: "nat \<Rightarrow> int" where
  "SENSORS_HANDLE x = SENSORS_HANDLE_BASE + int x + 1"

section \<open>The attributes of a sensor\<close>

datatype node_field =
    N_name | N_vendor | N_version | N_type | N_maxRange | N_resolution | N_power | N_minDelay
  | N_fifoReserved | N_fifoMax | N_maxDelay | N_flags

text \<open>Each with its node and whether it is required.\<close>

definition node_map :: "(node_field \<times> string \<times> bool) list" where
  "node_map =
     [(N_name, ''name'', True), (N_vendor, ''vendor'', True), (N_version, ''version'', True), (N_type, ''type'', True),
      (N_maxRange, ''max_range'', True), (N_resolution, ''resolution'', True), (N_power, ''sensor_power'', True),
      (N_minDelay, ''min_delay'', True), (N_fifoReserved, ''fifo_reserved_event_count'', False),
      (N_fifoMax, ''fifo_max_event_count'', False), (N_maxDelay, ''max_delay'', False), (N_flags, ''flags'', False)]"

definition c_atoi :: "string \<Rightarrow> int" where
  "c_atoi txt = (case scan_int txt of None \<Rightarrow> 0 | Some (i, _) \<Rightarrow> i)"

fun set_node :: "'f nm_env \<Rightarrow> node_field \<Rightarrow> string \<Rightarrow> 'f nsensor \<Rightarrow> 'f nsensor" where
  "set_node E N_name t s = s\<lparr>sn_name := t\<rparr>"
| "set_node E N_vendor t s = s\<lparr>sn_vendor := t\<rparr>"
| "set_node E N_version t s = s\<lparr>sn_version := c_atoi t\<rparr>"
| "set_node E N_type t s = s\<lparr>sn_type := c_atoi t\<rparr>"
| "set_node E N_maxRange t s = s\<lparr>sn_maxRange := n_atof E t\<rparr>"
| "set_node E N_resolution t s = s\<lparr>sn_resolution := n_atof E t\<rparr>"
| "set_node E N_power t s = s\<lparr>sn_power := n_atof E t\<rparr>"
| "set_node E N_minDelay t s = s\<lparr>sn_minDelay := c_atoi t\<rparr>"
| "set_node E N_fifoReserved t s = s\<lparr>sn_fifoReserved := c_atoi t\<rparr>"
| "set_node E N_fifoMax t s = s\<lparr>sn_fifoMax := c_atoi t\<rparr>"
| "set_node E N_maxDelay t s = s\<lparr>sn_maxDelay := c_atoi t\<rparr>"
| "set_node E N_flags t s = s\<lparr>sn_flags := c_atoi t\<rparr>"

definition NEWLINE :: char where "NEWLINE = CHR 0x0A"

text \<open>The text of a node: the last byte read is cut off, then a newline that is last. When nothing is left after the
  first cut, the code looks at the byte before the array.\<close>

definition node_text :: "string \<Rightarrow> string option" where
  "node_text tmp =
     (let t = takeWhile (\<lambda>c. c \<noteq> CHR 0x00) (butlast tmp)
      in if t = [] then None else Some (if last t = NEWLINE then butlast t else t))"

text \<open>\<open>attr\<close> is the content of the node, \<open>None\<close> when it does not open.\<close>

definition getNode :: "'f nm_env \<Rightarrow> string option \<Rightarrow> node_field \<Rightarrow> bool \<Rightarrow> 'f nsensor \<Rightarrow> (int \<times> 'f nsensor) option" where
  "getNode E attr f required s =
     (let failed = Some (if required then - 1 else 0, s)
      in case attr of
           None \<Rightarrow> failed
         | Some c \<Rightarrow>
             let tmp = take (SYSFS_MAXLEN - 1) c
             in if tmp = [] \<or> hd tmp = CHR 0x00 then failed
                else case node_text tmp of None \<Rightarrow> None | Some t \<Rightarrow> Some (0, set_node E f t s))"

fun getNodes :: "'f nm_env \<Rightarrow> (string \<Rightarrow> string option) \<Rightarrow> (node_field \<times> string \<times> bool) list \<Rightarrow> 'f nsensor \<Rightarrow> (bool \<times> 'f nsensor) option" where
  "getNodes E attrs [] s = Some (True, s)"
| "getNodes E attrs ((f, node, required) # nodes) s =
     (case getNode E (attrs node) f required s of
        None \<Rightarrow> None
      | Some (err, s1) \<Rightarrow> if err \<noteq> 0 then Some (False, s1) else getNodes E attrs nodes s1)"

section \<open>Input devices\<close>

text \<open>What \<open>device\<close> under the sensor's directory is: \<open>None\<close> when it does not open, else its link, if it has one, and
  the names in it.\<close>

type_synonym device_dir = "(string option \<times> string list) option"

definition after_slash :: "string \<Rightarrow> string" where
  "after_slash p = rev (takeWhile (\<lambda>c. c \<noteq> CHR ''/'') (rev p))"

definition starts_with :: "string \<Rightarrow> string \<Rightarrow> bool" where
  "starts_with pre s \<longleftrightarrow> take (length pre) s = pre"

definition getEventPath :: "device_dir \<Rightarrow> string \<Rightarrow> int \<times> string" where
  "getEventPath dev path =
     (case dev of
        None \<Rightarrow> (- 1, path)
      | Some (None, names) \<Rightarrow> (- 1, path)
      | Some (Some link, names) \<Rightarrow>
          if CHR ''/'' \<notin> set link then (- 1, path)
          else if \<not> starts_with ''input'' (after_slash link) then (- ENODEV, path)
          else (0, EVENT_PATH @ (case filter (starts_with ''event'') names of [] \<Rightarrow> '''' | n # _ \<Rightarrow> n)))"

text \<open>An entry of \<open>/dev/input\<close> in alphabetical order: whether it is a character device, whether it opens, and its device
  name.\<close>

record input_node =
  in_name :: string
  in_chr :: bool
  in_opens :: bool
  in_gname :: "string option"

definition scan_input :: "input_node list \<Rightarrow> (string \<times> string) list" where
  "scan_input nodes =
     map (\<lambda>n. (case in_gname n of None \<Rightarrow> '''' | Some t \<Rightarrow> take 79 t, EVENT_PATH @ in_name n))
       (filter (\<lambda>n. in_chr n \<and> in_opens n) (take MAX_SENSORS nodes))"

fun pick_path :: "string \<Rightarrow> string \<Rightarrow> (string \<times> string) list \<Rightarrow> string \<Rightarrow> string" where
  "pick_path name common [] path = path"
| "pick_path name common ((dname, dpath) # evs) path =
     (if name = dname then dpath else pick_path name common evs (if dname = common then dpath else path))"

text \<open>\<open>scanned\<close> is \<open>event_list\<close> once \<open>mScanned\<close> is set. \<open>type_to_name\<close> gives the same name for every type.\<close>

definition getEventPathOld :: "input_node list option \<Rightarrow> (string \<times> string) list option \<Rightarrow> string \<Rightarrow> string \<Rightarrow>
    (string \<times> string) list option \<times> string" where
  "getEventPathOld inputs scanned name path =
     (let evs = (case scanned of Some l \<Rightarrow> Some l | None \<Rightarrow> map_option scan_input inputs)
      in case evs of None \<Rightarrow> (None, path) | Some l \<Rightarrow> (Some l, pick_path name ''proximity'' l path))"

section \<open>The list of sensors\<close>

record class_entry =
  ce_name :: string
  ce_attr :: "string \<Rightarrow> string option"
  ce_device :: device_dir

definition zero_sensor :: "'f nm_env \<Rightarrow> 'f nsensor" where
  "zero_sensor E =
     \<lparr>sn_name = '''', sn_vendor = '''', sn_version = 0, sn_type = 0, sn_maxRange = f_of_int (n_flt E) 0,
      sn_resolution = f_of_int (n_flt E) 0, sn_power = f_of_int (n_flt E) 0, sn_minDelay = 0, sn_fifoReserved = 0,
      sn_fifoMax = 0, sn_maxDelay = 0, sn_flags = 0, sn_handle = 0, sn_stringType = None\<rparr>"

definition zero_ctx :: "'f nsensor \<Rightarrow> string \<Rightarrow> string \<Rightarrow> 'f sctx" where
  "zero_ctx s ep dp =
     \<lparr>sc_sensor = s, sc_driver = None, enable_path = ep, data_path = dp, sc_data_fd = 0, sc_enable = 0, is_virtual = False,
      delay_ns = 0, latency_ns = 0, dep_list = [], listener = []\<rparr>"

definition finish_sensor :: "nat \<Rightarrow> 'f nsensor \<Rightarrow> 'f nsensor" where
  "finish_sensor number s =
     s\<lparr>sn_maxDelay := (if sn_maxDelay s = 0 then 10000000 else sn_maxDelay s * 1000), sn_handle := SENSORS_HANDLE number\<rparr>"

text \<open>The loop over the directory. \<open>cur\<close> is the next element of the array, which a directory that is given up leaves partly
  filled; there is no element after the last.\<close>

fun scan_class :: "'f nm_env \<Rightarrow> input_node list option \<Rightarrow> class_entry list \<Rightarrow> 'f nsensor \<Rightarrow> (string \<times> string) list option \<Rightarrow>
    'f sctx list \<Rightarrow> 'f sctx list option" where
  "scan_class E inputs [] cur scanned cs = Some cs"
| "scan_class E inputs (de # des) cur scanned cs =
     (if ce_name de = ''.'' \<or> ce_name de = ''..'' then scan_class E inputs des cur scanned cs
      else if length cs \<ge> MAX_SENSORS then None
      else
        case getNodes E (ce_attr de) node_map cur of
          None \<Rightarrow> None
        | Some (False, s) \<Rightarrow> scan_class E inputs des s scanned cs
        | Some (True, s) \<Rightarrow>
            let s1 = finish_sensor (length cs) s;
                (err, dp) = getEventPath (ce_device de) '''';
                (scanned1, dp1) = (if err = - ENODEV then getEventPathOld inputs scanned (sn_name s1) dp else (scanned, dp))
            in scan_class E inputs des (zero_sensor E) scanned1 (cs @ [zero_ctx s1 (SYSFS_CLASS @ ce_name de @ ''/'') dp1]))"

definition getSensorListInner :: "'f nm_env \<Rightarrow> input_node list option \<Rightarrow> class_entry list option \<Rightarrow> 'f sctx list option" where
  "getSensorListInner E inputs dir =
     (case dir of None \<Rightarrow> Some [] | Some des \<Rightarrow> scan_class E inputs des (zero_sensor E) None [])"

section \<open>Drivers\<close>

text \<open>\<open>open_fd\<close> opens a device node; \<open>junk\<close> is what the constructors of the drivers leave unset.\<close>

definition make_context :: "'f nm_env \<Rightarrow> (string \<Rightarrow> int) \<Rightarrow> timed_event list \<times> bool \<times> int \<Rightarrow> nat \<Rightarrow> 'f sctx \<Rightarrow> 'f sctx" where
  "make_context E open_fd junk i c =
     (let s = sc_sensor c;
          fd = (if data_path c \<noteq> '''' then open_fd (data_path c) else - 1);
          flagged = s\<lparr>sn_flags := sn_flags s OR ON_CHANGE_FLAG E\<rparr>;
          drv = (\<lambda>k. Some (new_native_driver (n_flt E) k (sn_handle s) (enable_path c) fd junk));
          c1 = c\<lparr>is_virtual := False, dep_list := dep_list c @ [i], sc_data_fd := fd\<rparr>
      in if sn_type s = TYPE_PROXIMITY E then c1\<lparr>sc_sensor := flagged, sc_driver := drv Proximity_Kind\<rparr>
         else if sn_type s = TYPE_CAPSENSE E
         then c1\<lparr>sc_sensor := flagged\<lparr>sn_stringType := Some ''com.motorola.sensor.capsense''\<rparr>, sc_driver := drv Cap_Kind\<rparr>
         else c1\<lparr>sc_driver := None\<rparr>)"

definition getDataInfo :: "'f nm_env \<Rightarrow> (string \<Rightarrow> int) \<Rightarrow> timed_event list \<times> bool \<times> int \<Rightarrow> 'f sctx list \<Rightarrow> fsys \<Rightarrow> 'f manager" where
  "getDataInfo E open_fd junk cs fs =
     (let cs1 = map (\<lambda>(i, c). make_context E open_fd junk i c) (enumerate 0 cs)
      in \<lparr>context_list = cs1, handle_map = map_of (map (\<lambda>(i, c). (sn_handle (sc_sensor c), i)) (rev (enumerate 0 cs1))), nm_fs = fs\<rparr>)"

definition new_manager :: "'f nm_env \<Rightarrow> input_node list option \<Rightarrow> class_entry list option \<Rightarrow> (string \<Rightarrow> int) \<Rightarrow>
    timed_event list \<times> bool \<times> int \<Rightarrow> fsys \<Rightarrow> 'f manager option" where
  "new_manager E inputs dir open_fd junk fs =
     map_option (\<lambda>cs. getDataInfo E open_fd junk cs fs) (getSensorListInner E inputs dir)"

section \<open>Access\<close>

abbreviation ctx :: "'f manager \<Rightarrow> nat \<Rightarrow> 'f sctx" where
  "ctx m i \<equiv> context_list m ! i"

definition upd_ctx :: "nat \<Rightarrow> ('f sctx \<Rightarrow> 'f sctx) \<Rightarrow> 'f manager \<Rightarrow> 'f manager" where
  "upd_ctx i f m = m\<lparr>context_list := (context_list m)[i := f (ctx m i)]\<rparr>"

definition getInfoByHandle :: "int \<Rightarrow> 'f manager \<Rightarrow> nat option" where
  "getInfoByHandle h m = handle_map m h"

text \<open>A call of the driver of a context; there may be none.\<close>

definition drv_call :: "nat \<Rightarrow> ('f native_driver \<times> fsys \<Rightarrow> int \<times> 'f native_driver \<times> fsys) \<Rightarrow> 'f manager \<Rightarrow> (int \<times> 'f manager) option" where
  "drv_call i call m =
     (case sc_driver (ctx m i) of
        None \<Rightarrow> None
      | Some d \<Rightarrow> let (r, d1, fs1) = call (d, nm_fs m) in Some (r, (upd_ctx i (sc_driver_update (\<lambda>_. Some d1)) m)\<lparr>nm_fs := fs1\<rparr>))"

fun each :: "('a \<Rightarrow> 's \<Rightarrow> 's option) \<Rightarrow> 'a list \<Rightarrow> 's \<Rightarrow> 's option" where
  "each f [] s = Some s"
| "each f (x # xs) s = (case f x s of None \<Rightarrow> None | Some s1 \<Rightarrow> each f xs s1)"

end
