(* ===== verification/Native_Calls.thy ===== *)
theory Native_Calls
  imports Native_Manager
begin

text \<open>
  The calls of the framework on the manager of \<open>rearProx\<close>: switching sensors with their background sensors, the delays
  and latencies the listeners agree on, reading, flushing (\<open>NativeSensorManager.cpp\<close>), and the poll loop of the module
  (\<open>sensors.cpp\<close>).
\<close>

section \<open>Listeners\<close>

definition addDependency :: "nat \<Rightarrow> int \<Rightarrow> 'f manager \<Rightarrow> (int \<times> 'f manager) option" where
  "addDependency i h m =
     (if \<not> is_virtual (ctx m i) then Some (- 1, m)
      else
        case getInfoByHandle h m of
          None \<Rightarrow> None
        | Some d \<Rightarrow>
            let own = sn_maxDelay (sc_sensor (ctx m i));
                theirs = sn_maxDelay (sc_sensor (ctx m d));
                md = (if own = 0 then theirs else if theirs < own then theirs else own);
                m1 = upd_ctx i (\<lambda>c. c\<lparr>sc_sensor := (sc_sensor c)\<lparr>sn_maxDelay := md\<rparr>\<rparr>) m
            in if d \<in> set (dep_list (ctx m i)) then Some (0, m1)
               else Some (0, upd_ctx i (\<lambda>c. c\<lparr>dep_list := dep_list c @ [d]\<rparr>) m1))"

definition registerListener :: "nat \<Rightarrow> nat \<Rightarrow> 'f manager \<Rightarrow> int \<times> 'f manager" where
  "registerListener hw virt m =
     (if \<exists>l\<in>set (listener (ctx m hw)). sn_handle (sc_sensor (ctx m l)) = sn_handle (sc_sensor (ctx m virt))
      then (- 1, m)
      else (0, upd_ctx hw (\<lambda>c. c\<lparr>listener := listener c @ [virt]\<rparr>) m))"

definition unregisterListener :: "nat \<Rightarrow> nat \<Rightarrow> 'f manager \<Rightarrow> int \<times> 'f manager" where
  "unregisterListener hw virt m =
     (if virt \<in> set (listener (ctx m hw)) then (0, upd_ctx hw (\<lambda>c. c\<lparr>listener := remove1 virt (listener c)\<rparr>) m)
      else (- 1, m))"

section \<open>Delays and latencies\<close>

text \<open>The loop of \<open>syncDelay\<close>: it starts from the delay of the first listener and skips delays of 0.\<close>

fun min_delay :: "int \<Rightarrow> int list \<Rightarrow> int" where
  "min_delay m [] = m"
| "min_delay m (d # ds) = min_delay (if d = 0 then m else if m > d then d else m) ds"

fun min_latency :: "int \<Rightarrow> int list \<Rightarrow> int" where
  "min_latency m [] = m"
| "min_latency m (d # ds) = min_latency (if m > d then d else m) ds"

definition listener_delays :: "'f manager \<Rightarrow> nat \<Rightarrow> int list" where
  "listener_delays m i = map (\<lambda>l. delay_ns (ctx m l)) (listener (ctx m i))"

definition listener_latencies :: "'f manager \<Rightarrow> nat \<Rightarrow> int list" where
  "listener_latencies m i = map (\<lambda>l. latency_ns (ctx m l)) (listener (ctx m i))"

definition syncDelay :: "'f nm_env \<Rightarrow> int \<Rightarrow> 'f manager \<Rightarrow> (int \<times> 'f manager) option" where
  "syncDelay E h m =
     (case getInfoByHandle h m of
        None \<Rightarrow> Some (- EINVAL, m)
      | Some i \<Rightarrow>
          (case listener_delays m i of
             [] \<Rightarrow> Some (0, m)
           | d # ds \<Rightarrow> drv_call i (nd_setDelay (n_property E) (min_delay d (d # ds))) m))"

definition syncLatency :: "int \<Rightarrow> 'f manager \<Rightarrow> (int \<times> 'f manager) option" where
  "syncLatency h m =
     (case getInfoByHandle h m of
        None \<Rightarrow> Some (- EINVAL, m)
      | Some i \<Rightarrow>
          (case listener_latencies m i of
             [] \<Rightarrow> Some (0, m)
           | d # ds \<Rightarrow>
               if sn_fifoMax (sc_sensor (ctx m i)) \<noteq> 0
               then map_option (\<lambda>(r, m1). (0, m1)) (drv_call i (nd_setLatency (min_latency d (d # ds))) m)
               else Some (0, m)))"

definition handle_at :: "'f manager \<Rightarrow> nat \<Rightarrow> int" where
  "handle_at m d = sn_handle (sc_sensor (ctx m d))"

definition sync_both :: "'f nm_env \<Rightarrow> nat \<Rightarrow> 'f manager \<Rightarrow> 'f manager option" where
  "sync_both E d m =
     (case syncDelay E (handle_at m d) m of None \<Rightarrow> None | Some (r, m1) \<Rightarrow> map_option snd (syncLatency (handle_at m d) m1))"

section \<open>Calls\<close>

definition switch_on :: "'f nm_env \<Rightarrow> nat \<Rightarrow> nat \<Rightarrow> 'f manager \<Rightarrow> 'f manager option" where
  "switch_on E i d m =
     (case sync_both E d (snd (registerListener d i m)) of
        None \<Rightarrow> None
      | Some m1 \<Rightarrow> map_option snd (drv_call d (nd_enable (n_property E) 1) m1))"

definition switch_off_dep :: "'f nm_env \<Rightarrow> nat \<Rightarrow> nat \<Rightarrow> 'f manager \<Rightarrow> 'f manager option" where
  "switch_off_dep E i d m =
     (case (if listener (ctx m d) \<noteq> [] then sync_both E d (snd (unregisterListener d i m)) else Some m) of
        None \<Rightarrow> None
      | Some m1 \<Rightarrow>
          if listener (ctx m1 d) = [] then map_option snd (drv_call d (nd_enable (n_property E) 0) m1) else Some m1)"

definition nm_activate :: "'f nm_env \<Rightarrow> int \<Rightarrow> int \<Rightarrow> 'f manager \<Rightarrow> (int \<times> 'f manager) option" where
  "nm_activate E h en m =
     (case getInfoByHandle h m of
        None \<Rightarrow> Some (- EINVAL, m)
      | Some i \<Rightarrow>
          let m1 = upd_ctx i (sc_enable_update (\<lambda>_. en)) m
          in case each (\<lambda>d. if en \<noteq> 0 then switch_on E i d else switch_off_dep E i d) (dep_list (ctx m1 i)) m1 of
               None \<Rightarrow> None
             | Some m2 \<Rightarrow>
                 if is_virtual (ctx m2 i) then map_option (\<lambda>(r, m3). (0, m3)) (drv_call i (nd_enable (n_property E) en) m2)
                 else Some (0, m2))"

definition nm_setDelay :: "'f nm_env \<Rightarrow> int \<Rightarrow> int \<Rightarrow> 'f manager \<Rightarrow> (int \<times> 'f manager) option" where
  "nm_setDelay E h ns m =
     (case getInfoByHandle h m of
        None \<Rightarrow> Some (- EINVAL, m)
      | Some i \<Rightarrow>
          if ns = 0 then Some (- EINVAL, m)
          else
            let least = int32 (sn_minDelay (sc_sensor (ctx m i)) * 1000);
                m1 = upd_ctx i (delay_ns_update (\<lambda>_. if ns < least then least else ns)) m
            in map_option (\<lambda>m2. (0, m2))
                 (each (\<lambda>d m. map_option snd (syncDelay E (handle_at m d) m)) (dep_list (ctx m1 i)) m1))"

definition nm_batch :: "'f nm_env \<Rightarrow> int \<Rightarrow> int \<Rightarrow> int \<Rightarrow> 'f manager \<Rightarrow> (int \<times> 'f manager) option" where
  "nm_batch E h sample latency m =
     (if latency \<noteq> 0 \<and> latency < sample then Some (- EINVAL, m)
      else case getInfoByHandle h m of
        None \<Rightarrow> Some (- EINVAL, m)
      | Some i \<Rightarrow>
          let m1 = upd_ctx i (\<lambda>c. c\<lparr>delay_ns := sample, latency_ns := latency\<rparr>) m
          in map_option (\<lambda>m2. (0, m2)) (each (\<lambda>d m. sync_both E d m) (dep_list (ctx m1 i)) m1))"

text \<open>\<open>SensorBase::flush\<close> looks the sensor up again by its handle.\<close>

definition flush_driver :: "nat \<Rightarrow> int \<Rightarrow> 'f manager \<Rightarrow> (int \<times> 'f manager) option" where
  "flush_driver d h m = drv_call d (nd_flush (map_option (\<lambda>j. sn_fifoMax (sc_sensor (ctx m j))) (getInfoByHandle h m))) m"

fun flush_deps :: "nat list \<Rightarrow> 'f manager \<Rightarrow> (int \<times> 'f manager) option" where
  "flush_deps [] m = Some (0, m)"
| "flush_deps (d # ds) m =
     (case flush_driver d (handle_at m d) m of
        None \<Rightarrow> None
      | Some (r, m1) \<Rightarrow> if r \<noteq> 0 then Some (r, m1) else flush_deps ds m1)"

definition nm_flush :: "int \<Rightarrow> 'f manager \<Rightarrow> (int \<times> 'f manager) option" where
  "nm_flush h m =
     (case getInfoByHandle h m of
        None \<Rightarrow> Some (- EINVAL, m)
      | Some i \<Rightarrow>
          (case flush_deps (dep_list (ctx m i)) m of
             None \<Rightarrow> None
           | Some (r, m1) \<Rightarrow>
               if r \<noteq> 0 then Some (r, m1)
               else if is_virtual (ctx m1 i) then flush_driver i h m1
               else Some (0, m1)))"

section \<open>Reading\<close>

definition EAGAIN :: int where "EAGAIN = 11"

definition nm_hasPendingEvents :: "int \<Rightarrow> 'f manager \<Rightarrow> int option" where
  "nm_hasPendingEvents h m =
     (case getInfoByHandle h m of
        None \<Rightarrow> Some (- EINVAL)
      | Some i \<Rightarrow> map_option (\<lambda>d. if nd_hasPendingEvents d then 1 else 0) (sc_driver (ctx m i)))"

text \<open>The retry loop: each turn comes with the next answer of the device; when they run out, it goes on for ever.\<close>

fun read_retry :: "'f nm_env \<Rightarrow> int \<Rightarrow> (nat \<Rightarrow> timed_event read_result) list \<Rightarrow> int \<Rightarrow> 'f native_driver \<Rightarrow>
    (int \<times> 'f native_driver \<times> 'f sensors_event list) option" where
  "read_retry E now [] count d = None"
| "read_retry E now (dev # devs) count d =
     (case nd_readEvents (n_flt E) now dev count d of
        None \<Rightarrow> None
      | Some (nb, d1, out) \<Rightarrow> if nb = - EAGAIN \<or> nb = - EINTR then read_retry E now devs count d1 else Some (nb, d1, out))"

text \<open>The events are handed to the enabled listeners other than the sensor itself; the drivers drop them.\<close>

definition injects :: "nat \<Rightarrow> 'f manager \<Rightarrow> bool" where
  "injects i m \<longleftrightarrow> (\<forall>l\<in>set (listener (ctx m i)). sc_enable (ctx m l) \<noteq> 0 \<and> l \<noteq> i \<longrightarrow> sc_driver (ctx m l) \<noteq> None)"

definition nm_readEvents :: "'f nm_env \<Rightarrow> int \<Rightarrow> int \<Rightarrow> (nat \<Rightarrow> timed_event read_result) list \<Rightarrow> int \<Rightarrow> 'f manager \<Rightarrow>
    (int \<times> 'f sensors_event list \<times> 'f manager) option" where
  "nm_readEvents E now h devs count m =
     (case getInfoByHandle h m of
        None \<Rightarrow> Some (- EINVAL, [], m)
      | Some i \<Rightarrow>
          (case sc_driver (ctx m i) of
             None \<Rightarrow> None
           | Some d \<Rightarrow>
               (case read_retry E now devs count d of
                  None \<Rightarrow> None
                | Some (nb, d1, out) \<Rightarrow>
                    let m1 = upd_ctx i (sc_driver_update (\<lambda>_. Some d1)) m
                    in if 0 < nb \<and> \<not> injects i m1 then None
                       else Some (if sc_enable (ctx m1 i) \<noteq> 0 then nb else 0, out, m1))))"

section \<open>The poll loop\<close>

text \<open>What one turn of the loop gets from the system: the clock, the answers of each device, and the answer of \<open>poll\<close>:
  an error, or which descriptors and whether the wake pipe is readable (nothing is a time-out, which happens only when
  there are events already).\<close>

datatype native_poll = Poll_Failed int | Poll_Fds "nat \<Rightarrow> bool" bool

record round_input =
  rn_now :: int
  rn_devs :: "nat \<Rightarrow> (nat \<Rightarrow> timed_event read_result) list"
  rn_poll :: native_poll

text \<open>\<open>revents\<close> says whether \<open>POLLIN\<close> is set for each sensor.\<close>

type_synonym 'f poll_state = "(nat \<Rightarrow> bool) \<times> 'f manager"

text \<open>Reading what is ready or left over: \<open>Inl\<close> is an error, which ends the call.\<close>

fun read_sensors :: "'f nm_env \<Rightarrow> round_input \<Rightarrow> nat list \<Rightarrow> int \<times> int \<times> 'f sensors_event list \<times> 'f poll_state \<Rightarrow>
    ((int \<times> 'f poll_state) + (int \<times> int \<times> 'f sensors_event list \<times> 'f poll_state)) option" where
  "read_sensors E inp [] st = Some (Inr st)"
| "read_sensors E inp (i # is) st =
     (case st of (count, nbEvents, buf, revents, m) \<Rightarrow>
        if count = 0 then Some (Inr st)
        else
          case (if revents i then Some 1 else nm_hasPendingEvents (handle_at m i) m) of
            None \<Rightarrow> None
          | Some pending \<Rightarrow>
              if pending = 0 then read_sensors E inp is st
              else
                case nm_readEvents E (rn_now inp) (handle_at m i) (rn_devs inp i) count m of
                  None \<Rightarrow> None
                | Some (nb, out, m1) \<Rightarrow>
                    if nb < 0 then Some (Inl (nb, revents, m1))
                    else read_sensors E inp is
                      (count - nb, nbEvents + nb, buf @ take (nat nb) out,
                       if nb \<le> count then revents(i := False) else revents, m1))"

fun ready_count :: "nat \<Rightarrow> native_poll \<Rightarrow> nat" where
  "ready_count n (Poll_Failed e) = 0"
| "ready_count n (Poll_Fds ready wake) = length (filter ready [0..<n]) + (if wake then 1 else 0)"

text \<open>The loop, a turn for each input. The result: the value, the events written, and what is kept for the next call.\<close>

fun nm_pollEvents :: "'f nm_env \<Rightarrow> round_input list \<Rightarrow> int \<times> int \<times> 'f sensors_event list \<times> 'f poll_state \<Rightarrow>
    (int \<times> 'f sensors_event list \<times> 'f poll_state) option" where
  "nm_pollEvents E [] st = None"
| "nm_pollEvents E (inp # inps) st =
     (case read_sensors E inp [0..<length (context_list (snd (snd (snd (snd st)))))] st of
        None \<Rightarrow> None
      | Some (Inl (err, ps)) \<Rightarrow> Some (err, fst (snd (snd st)), ps)
      | Some (Inr (count, nbEvents, buf, revents, m)) \<Rightarrow>
          if count = 0 then Some (nbEvents, buf, revents, m)
          else
            case rn_poll inp of
              Poll_Failed e \<Rightarrow> Some (- e, buf, revents, m)
            | Poll_Fds ready wake \<Rightarrow>
                if ready_count (length (context_list m)) (rn_poll inp) \<noteq> 0
                then nm_pollEvents E inps (count, nbEvents, buf, ready, m)
                else Some (nbEvents, buf, ready, m))"

text \<open>\<open>activate\<close> and \<open>flush\<close> of the module also write to the wake pipe; \<open>pipe\<close> counts the messages in it.\<close>

definition ctx_activate :: "'f nm_env \<Rightarrow> int \<Rightarrow> int \<Rightarrow> nat \<times> 'f manager \<Rightarrow> (int \<times> nat \<times> 'f manager) option" where
  "ctx_activate E h en = (\<lambda>(pipe, m).
     map_option (\<lambda>(r, m1). (r, if en \<noteq> 0 \<and> r = 0 then pipe + 1 else pipe, m1)) (nm_activate E h en m))"

text \<open>The entries of the device take 64-bit times; \<open>batch\<close> of the context takes them as \<open>int\<close>.\<close>

definition ctx_setDelay :: "'f nm_env \<Rightarrow> int \<Rightarrow> int \<Rightarrow> nat \<times> 'f manager \<Rightarrow> (int \<times> nat \<times> 'f manager) option" where
  "ctx_setDelay E h ns = (\<lambda>(pipe, m). map_option (\<lambda>(r, m1). (r, pipe, m1)) (nm_setDelay E h ns m))"

definition ctx_batch :: "'f nm_env \<Rightarrow> int \<Rightarrow> int \<Rightarrow> int \<Rightarrow> nat \<times> 'f manager \<Rightarrow> (int \<times> nat \<times> 'f manager) option" where
  "ctx_batch E h sample latency = (\<lambda>(pipe, m).
     map_option (\<lambda>(r, m1). (r, pipe, m1)) (nm_batch E h (int32 sample) (int32 latency) m))"

definition ctx_flush :: "int \<Rightarrow> nat \<times> 'f manager \<Rightarrow> (int \<times> nat \<times> 'f manager) option" where
  "ctx_flush h = (\<lambda>(pipe, m). map_option (\<lambda>(r, m1). (r, pipe + 1, m1)) (nm_flush h m))"

end
