(* ===== verification/Native_Props.thy ===== *)
theory Native_Props
  imports Native_Calls
begin

text \<open>
  What holds of the manager of \<open>rearProx\<close> and its poll loop: with sensors of the two known types no call goes wrong and
  the listeners follow the switches; a sensor of another type brings the program down; the delays agreed on; the events
  that wait in a reader.
\<close>

section \<open>What a call of a driver leaves alone\<close>

definition ctx_core :: "'f sctx \<Rightarrow> 'f sctx" where
  "ctx_core c = c\<lparr>sc_driver := None\<rparr>"

definition nm_core :: "'f manager \<Rightarrow> (int \<rightharpoonup> nat) \<times> 'f sctx list" where
  "nm_core m = (handle_map m, map ctx_core (context_list m))"

definition drivers_good :: "'f manager \<Rightarrow> bool" where
  "drivers_good m \<longleftrightarrow> (\<forall>c\<in>set (context_list m). \<exists>d. sc_driver c = Some d \<and> nd_good d)"

lemma ctx_core_simps [simp]:
  "sc_sensor (ctx_core c) = sc_sensor c" "sc_enable (ctx_core c) = sc_enable c" "is_virtual (ctx_core c) = is_virtual c"
  "delay_ns (ctx_core c) = delay_ns c" "latency_ns (ctx_core c) = latency_ns c" "dep_list (ctx_core c) = dep_list c"
  "listener (ctx_core c) = listener c"
  by (simp_all add: ctx_core_def)

lemma core_length: "nm_core m' = nm_core m \<Longrightarrow> length (context_list m') = length (context_list m)"
  by (metis nm_core_def length_map snd_conv)

lemma core_map: "nm_core m' = nm_core m \<Longrightarrow> handle_map m' = handle_map m"
  by (simp add: nm_core_def)

lemma core_ctx:
  assumes "nm_core m' = nm_core m" and "i < length (context_list m)"
  shows "ctx_core (ctx m' i) = ctx_core (ctx m i)"
proof -
  have "map ctx_core (context_list m') ! i = map ctx_core (context_list m) ! i" using assms(1) by (simp add: nm_core_def)
  with assms core_length [OF assms(1)] show ?thesis by simp
qed

text \<open>The fields the calls look at.\<close>

lemma core_fields:
  assumes "nm_core m' = nm_core m" and "i < length (context_list m)"
  shows "sc_sensor (ctx m' i) = sc_sensor (ctx m i)" "sc_enable (ctx m' i) = sc_enable (ctx m i)"
    "is_virtual (ctx m' i) = is_virtual (ctx m i)" "dep_list (ctx m' i) = dep_list (ctx m i)" "listener (ctx m' i) = listener (ctx m i)"
  using core_ctx [OF assms] by (metis ctx_core_simps)+

lemma drivers_goodD: "drivers_good m \<Longrightarrow> i < length (context_list m) \<Longrightarrow> \<exists>d. sc_driver (ctx m i) = Some d \<and> nd_good d"
  by (simp add: drivers_good_def)

lemma upd_driver_core: "nm_core ((upd_ctx i (sc_driver_update f) m)\<lparr>nm_fs := fs\<rparr>) = nm_core m"
proof (cases "i < length (context_list m)")
  case True
  have "(map ctx_core (context_list m))[i := ctx_core (ctx m i)] = map ctx_core (context_list m)"
    using True by (metis list_update_id nth_map)
  then show ?thesis by (simp add: nm_core_def upd_ctx_def map_update ctx_core_def)
qed (simp add: nm_core_def upd_ctx_def list_update_beyond)

lemma drv_call_keeps:
  assumes "drivers_good m" and "i < length (context_list m)"
    and "\<And>d fs. nd_good d \<Longrightarrow> nd_good (fst (snd (call (d, fs))))"
  shows "\<exists>r m'. drv_call i call m = Some (r, m') \<and> nm_core m' = nm_core m \<and> drivers_good m'"
proof -
  obtain d where d: "sc_driver (ctx m i) = Some d" "nd_good d" using drivers_goodD [OF assms(1,2)] by blast
  obtain r d1 fs1 where c: "call (d, nm_fs m) = (r, d1, fs1)" by (metis prod_cases3)
  have "nd_good d1" using assms(3) [OF d(2), of "nm_fs m"] by (simp add: c)
  then have "drivers_good ((upd_ctx i (sc_driver_update (\<lambda>_. Some d1)) m)\<lparr>nm_fs := fs1\<rparr>)"
    using assms(1) set_update_subset_insert [of "context_list m" i] by (fastforce simp: drivers_good_def upd_ctx_def)
  with upd_driver_core d(1) c show ?thesis by (simp add: drv_call_def)
qed

lemma nd_ops_good:
  assumes "nd_good d"
  shows "nd_good (fst (snd (nd_enable p en (d, fs))))" "nd_good (fst (snd (nd_setDelay p ns (d, fs))))"
    "nd_good (fst (snd (nd_setLatency ns (d, fs))))" "nd_good (fst (snd (nd_flush fifo (d, fs))))"
  using assms by (auto simp: nd_enable_def nd_setDelay_def nd_setLatency_def nd_flush_def nd_good_def Let_def case_prod_beta split: option.split)

section \<open>The invariant\<close>

definition handles_ok :: "'f manager \<Rightarrow> bool" where
  "handles_ok m \<longleftrightarrow> (\<forall>h i. handle_map m h = Some i \<longrightarrow> i < length (context_list m) \<and> handle_at m i = h)
     \<and> (\<forall>i < length (context_list m). handle_map m (handle_at m i) = Some i)"

definition plain_ctx :: "nat \<Rightarrow> 'f sctx \<Rightarrow> bool" where
  "plain_ctx i c \<longleftrightarrow> \<not> is_virtual c \<and> dep_list c = [i] \<and> listener c = (if sc_enable c \<noteq> 0 then [i] else [])"

definition nm_inv :: "'f manager \<Rightarrow> bool" where
  "nm_inv m \<longleftrightarrow> handles_ok m \<and> drivers_good m \<and> (\<forall>i < length (context_list m). plain_ctx i (ctx m i))"

lemma nm_inv_core:
  assumes "nm_core m' = nm_core m" and "drivers_good m'" and "nm_inv m"
  shows "nm_inv m'"
proof -
  note f = core_fields [OF assms(1)] and len = core_length [OF assms(1)] and mp = core_map [OF assms(1)]
  have "handle_at m' i = handle_at m i" if "i < length (context_list m)" for i using f(1) [OF that] by (simp add: handle_at_def)
  then have "handles_ok m'" using assms(3) len mp by (fastforce simp: nm_inv_def handles_ok_def)
  moreover have "\<forall>i < length (context_list m'). plain_ctx i (ctx m' i)"
    using assms(3) f len by (simp add: nm_inv_def plain_ctx_def)
  ultimately show ?thesis using assms(2) by (simp add: nm_inv_def)
qed

text \<open>A step that ends well, leaves everything but the drivers alone, and keeps those good.\<close>

definition fine :: "'f manager \<Rightarrow> 'f manager option \<Rightarrow> bool" where
  "fine m r \<longleftrightarrow> (\<exists>m'. r = Some m' \<and> nm_core m' = nm_core m \<and> drivers_good m')"

lemma syncDelay_fine:
  assumes "handles_ok m" and "drivers_good m"
  shows "fine m (map_option snd (syncDelay E h m))"
proof (cases "getInfoByHandle h m")
  case (Some i)
  then have "i < length (context_list m)" using assms(1) by (auto simp: getInfoByHandle_def handles_ok_def)
  note k = drv_call_keeps [OF assms(2) this, where call = "nd_setDelay (n_property E) x" for x, OF nd_ops_good(2)]
  show ?thesis using assms(2) k by (cases "listener_delays m i") (fastforce simp: fine_def syncDelay_def Some)+
qed (use assms in \<open>simp add: fine_def syncDelay_def\<close>)

lemma syncLatency_fine:
  assumes "handles_ok m" and "drivers_good m"
  shows "fine m (map_option snd (syncLatency h m))"
proof (cases "getInfoByHandle h m")
  case (Some i)
  then have "i < length (context_list m)" using assms(1) by (auto simp: getInfoByHandle_def handles_ok_def)
  note k = drv_call_keeps [OF assms(2) this, where call = "nd_setLatency x" for x, OF nd_ops_good(3)]
  show ?thesis using assms(2) k by (cases "listener_latencies m i") (fastforce simp: fine_def syncLatency_def Some)+
qed (use assms in \<open>simp add: fine_def syncLatency_def\<close>)

lemma handles_ok_core:
  assumes "nm_core m' = nm_core m" and "handles_ok m"
  shows "handles_ok m'"
proof -
  have "handle_at m' i = handle_at m i" if "i < length (context_list m)" for i
    using core_fields(1) [OF assms(1) that] by (simp add: handle_at_def)
  with assms(2) core_length [OF assms(1)] core_map [OF assms(1)] show ?thesis by (fastforce simp: handles_ok_def)
qed

lemma sync_both_fine:
  assumes "handles_ok m" and "drivers_good m"
  shows "fine m (sync_both E d m)"
proof -
  from syncDelay_fine [OF assms] obtain r m1 where 1: "syncDelay E (handle_at m d) m = Some (r, m1)" "nm_core m1 = nm_core m" "drivers_good m1"
    unfolding fine_def by fastforce
  from syncLatency_fine [OF handles_ok_core [OF 1(2) assms(1)] 1(3), of "handle_at m d"] 1 show ?thesis
    by (auto simp: sync_both_def fine_def)
qed


section \<open>Calls keep the invariant\<close>

lemma upd_ctx_simps [simp]:
  "length (context_list (upd_ctx i f m)) = length (context_list m)" "handle_map (upd_ctx i f m) = handle_map m"
  by (simp_all add: upd_ctx_def)

lemma ctx_upd: "i < length (context_list m) \<Longrightarrow> ctx (upd_ctx i f m) j = (if j = i then f (ctx m i) else ctx m j)"
  by (cases "j = i") (simp_all add: upd_ctx_def)

lemma drivers_good_upd:
  assumes "drivers_good m" and "i < length (context_list m)" and "sc_driver (f (ctx m i)) = sc_driver (ctx m i)"
  shows "drivers_good (upd_ctx i f m)"
  using assms drivers_goodD [OF assms(1)] by (fastforce simp: drivers_good_def all_set_conv_all_nth ctx_upd)

lemma handles_ok_upd:
  assumes "handles_ok m" and "i < length (context_list m)" and "sc_sensor (f (ctx m i)) = sc_sensor (ctx m i)"
  shows "handles_ok (upd_ctx i f m)"
  using assms by (simp add: handles_ok_def handle_at_def ctx_upd)

lemma upd_ctx_twice: "upd_ctx i f (upd_ctx i g m) = upd_ctx i (f \<circ> g) m"
  by (cases "i < length (context_list m)") (simp_all add: upd_ctx_def list_update_beyond)

lemma upd_ctx_id: "f (ctx m i) = ctx m i \<Longrightarrow> upd_ctx i f m = m"
  by (simp add: upd_ctx_def)

definition set_listener :: "nat list \<Rightarrow> 'f sctx \<Rightarrow> 'f sctx" where
  "set_listener l c = c\<lparr>listener := l\<rparr>"

lemma register_plain:
  assumes "i < length (context_list m)" and "listener (ctx m i) = [] \<or> listener (ctx m i) = [i]"
  shows "snd (registerListener i i m) = upd_ctx i (set_listener [i]) m"
proof (cases "listener (ctx m i) = []")
  case False
  then have l: "listener (ctx m i) = [i]" using assms(2) by blast
  then have "set_listener [i] (ctx m i) = ctx m i" by (cases "ctx m i") (simp add: set_listener_def)
  with l show ?thesis by (simp add: registerListener_def upd_ctx_id)
qed (simp add: registerListener_def upd_ctx_def set_listener_def)

lemma unregister_plain:
  assumes "i < length (context_list m)" and "listener (ctx m i) = [i]"
  shows "snd (unregisterListener i i m) = upd_ctx i (set_listener []) m"
  using assms by (simp add: unregisterListener_def upd_ctx_def set_listener_def)

lemma each_one: "each f [x] s = f x s"
  by (simp split: option.split)

lemma fine_Some: "fine m (Some m') \<longleftrightarrow> nm_core m' = nm_core m \<and> drivers_good m'"
  by (simp add: fine_def)

lemma fine_enable:
  "drivers_good m \<Longrightarrow> i < length (context_list m) \<Longrightarrow> fine m (map_option snd (drv_call i (nd_enable p en) m))"
  using drv_call_keeps [of m i "nd_enable p en", OF _ _ nd_ops_good(1)] by (fastforce simp: fine_def)

lemma fine_step:
  assumes "fine m r" and "\<And>m1. r = Some m1 \<Longrightarrow> nm_core m1 = nm_core m \<Longrightarrow> drivers_good m1 \<Longrightarrow> fine m1 (f m1)"
  shows "fine m (case r of None \<Rightarrow> None | Some m1 \<Rightarrow> f m1)"
proof -
  from assms(1) obtain m1 where m1: "r = Some m1" "nm_core m1 = nm_core m" "drivers_good m1" by (auto simp: fine_def)
  with assms(2) [OF m1] show ?thesis by (auto simp: fine_def)
qed

lemma switch_on_fine:
  assumes "handles_ok m" and "drivers_good m" and i: "i < length (context_list m)"
    and l: "listener (ctx m i) = [] \<or> listener (ctx m i) = [i]"
  shows "fine (upd_ctx i (set_listener [i]) m) (switch_on E i i m)"
proof -
  let ?m = "upd_ctx i (set_listener [i]) m"
  have "handles_ok ?m" using assms(1) i by (intro handles_ok_upd) (simp_all add: set_listener_def)
  moreover have g: "drivers_good ?m" using assms(2) i by (intro drivers_good_upd) (simp_all add: set_listener_def)
  ultimately have "fine ?m (sync_both E i ?m)" by (rule sync_both_fine)
  then show ?thesis unfolding switch_on_def register_plain [OF i l]
  proof (rule fine_step)
    fix m1 assume m1: "nm_core m1 = nm_core ?m" "drivers_good m1"
    show "fine m1 (map_option snd (drv_call i (nd_enable (n_property E) 1) m1))"
      using fine_enable [OF m1(2)] core_length [OF m1(1)] i by simp
  qed
qed

lemma switch_off_fine:
  assumes "handles_ok m" and "drivers_good m" and i: "i < length (context_list m)"
    and l: "listener (ctx m i) = [] \<or> listener (ctx m i) = [i]"
  shows "fine (upd_ctx i (set_listener []) m) (switch_off_dep E i i m)"
proof -
  let ?m = "upd_ctx i (set_listener []) m"
  have ok: "handles_ok ?m" using assms(1) i by (intro handles_ok_upd) (simp_all add: set_listener_def)
  have g: "drivers_good ?m" using assms(2) i by (intro drivers_good_upd) (simp_all add: set_listener_def)
  have first: "fine ?m (if listener (ctx m i) \<noteq> [] then sync_both E i (snd (unregisterListener i i m)) else Some m)"
  proof (cases "listener (ctx m i) = []")
    case True
    then have "set_listener [] (ctx m i) = ctx m i" by (cases "ctx m i") (simp add: set_listener_def)
    then have "?m = m" by (rule upd_ctx_id)
    with True g show ?thesis by (simp add: fine_Some)
  next
    case False
    with l have "listener (ctx m i) = [i]" by blast
    with unregister_plain [OF i this] sync_both_fine [OF ok g] show ?thesis by simp
  qed
  show ?thesis unfolding switch_off_dep_def
  proof (rule fine_step [OF first])
    fix m1 assume m1: "nm_core m1 = nm_core ?m" "drivers_good m1"
    have "listener (ctx m1 i) = []" using core_fields(5) [OF m1(1)] i by (simp add: ctx_upd set_listener_def)
    with fine_enable [OF m1(2)] core_length [OF m1(1)] i show
      "fine m1 (if listener (ctx m1 i) = [] then map_option snd (drv_call i (nd_enable (n_property E) 0) m1) else Some m1)" by simp
  qed
qed

text \<open>The state a switch leads to, but for the drivers.\<close>

definition switched :: "nat \<Rightarrow> int \<Rightarrow> 'f manager \<Rightarrow> 'f manager" where
  "switched i en m = upd_ctx i (set_listener (if en \<noteq> 0 then [i] else []) \<circ> sc_enable_update (\<lambda>_. en)) m"

lemma switched_inv:
  assumes "nm_inv m" and "i < length (context_list m)"
  shows "nm_inv (switched i en m)"
proof -
  have "handles_ok (switched i en m)" "drivers_good (switched i en m)"
    using assms by (auto simp: switched_def nm_inv_def set_listener_def intro!: handles_ok_upd drivers_good_upd)
  with assms show ?thesis by (auto simp: nm_inv_def switched_def ctx_upd plain_ctx_def set_listener_def)
qed

lemma activate_core:
  assumes inv: "nm_inv m" and h: "handle_map m h = Some i"
  shows "\<exists>m'. nm_activate E h en m = Some (0, m') \<and> nm_core m' = nm_core (switched i en m) \<and> drivers_good m'"
proof -
  have i: "i < length (context_list m)" and p: "plain_ctx i (ctx m i)" and ok: "handles_ok m" "drivers_good m"
    using inv h by (auto simp: nm_inv_def handles_ok_def)
  let ?m = "upd_ctx i (sc_enable_update (\<lambda>_. en)) m"
  have l: "listener (ctx ?m i) = [] \<or> listener (ctx ?m i) = [i]" "dep_list (ctx ?m i) = [i]" "\<not> is_virtual (ctx ?m i)"
    using p i by (simp_all add: ctx_upd plain_ctx_def)
  have ok1: "handles_ok ?m" "drivers_good ?m" using ok i by (auto intro: handles_ok_upd drivers_good_upd)
  have "fine (upd_ctx i (set_listener (if en \<noteq> 0 then [i] else [])) ?m) (if en \<noteq> 0 then switch_on E i i ?m else switch_off_dep E i i ?m)"
    using switch_on_fine [OF ok1 _ l(1), of E] switch_off_fine [OF ok1 _ l(1), of E] i by (cases "en = 0") simp_all
  then have "fine (switched i en m) (if en \<noteq> 0 then switch_on E i i ?m else switch_off_dep E i i ?m)"
    by (simp add: upd_ctx_twice switched_def)
  then obtain m2 where m2: "(if en \<noteq> 0 then switch_on E i i ?m else switch_off_dep E i i ?m) = Some m2"
    "nm_core m2 = nm_core (switched i en m)" "drivers_good m2" unfolding fine_def by blast
  have "\<not> is_virtual (ctx m2 i)"
    using core_fields(3) [OF m2(2), of i] p i by (simp add: switched_def ctx_upd set_listener_def plain_ctx_def)
  moreover have "each (\<lambda>d. if en \<noteq> 0 then switch_on E i d else switch_off_dep E i d) [i] ?m = Some m2"
    using m2(1) unfolding each_one by (cases "en = 0") simp_all
  ultimately show ?thesis using m2(2,3) l(2) h by (simp add: nm_activate_def getInfoByHandle_def Let_def del: each.simps)
qed

lemma activate_inv:
  assumes "nm_inv m"
  shows "\<exists>r m'. nm_activate E h en m = Some (r, m') \<and> nm_inv m'"
proof (cases "handle_map m h")
  case (Some i)
  have "i < length (context_list m)" using assms Some by (auto simp: nm_inv_def handles_ok_def)
  with activate_core [OF assms Some, of E en] switched_inv [OF assms] nm_inv_core show ?thesis by blast
qed (use assms in \<open>simp add: nm_activate_def getInfoByHandle_def\<close>)


text \<open>The other calls change only the delays of the sensor and the drivers.\<close>

definition set_delays :: "int \<Rightarrow> int \<Rightarrow> 'f sctx \<Rightarrow> 'f sctx" where
  "set_delays ns lat c = c\<lparr>delay_ns := ns, latency_ns := lat\<rparr>"

lemma set_delays_inv:
  assumes "nm_inv m" and "i < length (context_list m)" and "\<And>c. f c = set_delays (delay_ns (f c)) (latency_ns (f c)) c"
  shows "nm_inv (upd_ctx i f m)"
proof -
  have f: "sc_sensor (f c) = sc_sensor c" "sc_driver (f c) = sc_driver c" "plain_ctx i (f c) = plain_ctx i c" for c i
    by (subst assms(3), simp add: set_delays_def plain_ctx_def)+
  have "handles_ok (upd_ctx i f m)" "drivers_good (upd_ctx i f m)"
    using assms(1,2) f by (auto simp: nm_inv_def intro!: handles_ok_upd drivers_good_upd)
  with assms(1,2) f show ?thesis by (auto simp: nm_inv_def ctx_upd)
qed

lemma fine_inv: "nm_inv m \<Longrightarrow> fine m r \<Longrightarrow> \<exists>m'. r = Some m' \<and> nm_inv m'"
  using nm_inv_core by (auto simp: fine_def)

lemma nm_inv_parts:
  assumes "nm_inv m" and "handle_map m h = Some i"
  shows "i < length (context_list m)" "dep_list (ctx m i) = [i]" "\<not> is_virtual (ctx m i)"
    "\<exists>d. sc_driver (ctx m i) = Some d \<and> nd_good d" "handles_ok m" "drivers_good m"
  using assms drivers_goodD [of m i] by (auto simp: nm_inv_def handles_ok_def plain_ctx_def)

lemma setDelay_inv:
  assumes "nm_inv m"
  shows "\<exists>r m'. nm_setDelay E h ns m = Some (r, m') \<and> nm_inv m'"
proof (cases "ns = 0 \<or> handle_map m h = None")
  case False
  then obtain i where i: "handle_map m h = Some i" by blast
  let ?least = "int32 (sn_minDelay (sc_sensor (ctx m i)) * 1000)"
  let ?m = "upd_ctx i (delay_ns_update (\<lambda>_. if ns < ?least then ?least else ns)) m"
  have "nm_inv ?m" by (rule set_delays_inv [OF assms nm_inv_parts(1) [OF assms i]]) (simp add: set_delays_def)
  moreover from this have "fine ?m (map_option snd (syncDelay E (handle_at ?m i) ?m))"
    using nm_inv_parts(5,6) [of ?m h i] i by (intro syncDelay_fine) simp_all
  ultimately obtain m' where "each (\<lambda>d m. map_option snd (syncDelay E (handle_at m d) m)) [i] ?m = Some m'" "nm_inv m'"
    using fine_inv [of ?m] unfolding each_one by blast
  moreover have "dep_list (ctx ?m i) = [i]" using nm_inv_parts(1,2) [OF assms i] by (simp add: ctx_upd)
  ultimately show ?thesis using i False by (simp add: nm_setDelay_def getInfoByHandle_def Let_def del: each.simps)
qed (use assms in \<open>auto simp: nm_setDelay_def getInfoByHandle_def split: option.split\<close>)

lemma batch_keeps:
  assumes "nm_inv m" and "handle_map m h = Some i" and "lat = 0 \<or> ns \<le> lat"
  shows "\<exists>m'. nm_batch E h ns lat m = Some (0, m') \<and> nm_inv m' \<and> nm_core m' = nm_core (upd_ctx i (set_delays ns lat) m)"
proof -
  let ?m = "upd_ctx i (set_delays ns lat) m"
  have inv: "nm_inv ?m" by (rule set_delays_inv [OF assms(1) nm_inv_parts(1) [OF assms(1,2)]]) (simp add: set_delays_def)
  then have "fine ?m (sync_both E i ?m)"
    using nm_inv_parts(5,6) [of ?m h i] assms(2) by (intro sync_both_fine) simp_all
  then obtain m' where "each (sync_both E) [i] ?m = Some m'" "nm_core m' = nm_core ?m" "drivers_good m'"
    unfolding each_one fine_def by blast
  moreover have "dep_list (ctx ?m i) = [i]" using nm_inv_parts(1,2) [OF assms(1,2)] by (simp add: ctx_upd set_delays_def)
  ultimately show ?thesis using assms(2,3) nm_inv_core [OF _ _ inv]
    by (auto simp: nm_batch_def getInfoByHandle_def Let_def set_delays_def [abs_def] simp del: each.simps)
qed

lemma batch_inv:
  assumes "nm_inv m"
  shows "\<exists>r m'. nm_batch E h ns lat m = Some (r, m') \<and> nm_inv m'"
proof (cases "lat \<noteq> 0 \<and> lat < ns \<or> handle_map m h = None")
  case False
  with batch_keeps [OF assms, of h _ lat ns E] show ?thesis by fastforce
qed (use assms in \<open>auto simp: nm_batch_def getInfoByHandle_def\<close>)

lemma flush_driver_ok:
  assumes "nm_inv m" and "i < length (context_list m)"
  shows "\<exists>r m'. flush_driver i h m = Some (r, m') \<and> nm_core m' = nm_core m \<and> drivers_good m'"
  unfolding flush_driver_def using assms by (intro drv_call_keeps nd_ops_good) (simp_all add: nm_inv_def)

lemma flush_inv:
  assumes "nm_inv m"
  shows "\<exists>r m'. nm_flush h m = Some (r, m') \<and> nm_inv m'"
proof (cases "handle_map m h")
  case (Some i)
  note p = nm_inv_parts [OF assms Some]
  from flush_driver_ok [OF assms p(1), of "handle_at m i"] obtain r m1 where
    f: "flush_driver i (handle_at m i) m = Some (r, m1)" "nm_core m1 = nm_core m" "drivers_good m1" by blast
  have "nm_inv m1" using nm_inv_core [OF f(2,3) assms] .
  moreover have "\<not> is_virtual (ctx m1 i)" using core_fields(3) [OF f(2) p(1)] p(3) by simp
  ultimately show ?thesis using f(1) p(2) Some by (simp add: nm_flush_def getInfoByHandle_def)
qed (use assms in \<open>simp add: nm_flush_def getInfoByHandle_def\<close>)

section \<open>Reading keeps the invariant\<close>

text \<open>The answers of a device for one read: events that fit, and in the end not an error that is tried again.\<close>

definition answers_ok :: "(nat \<Rightarrow> timed_event read_result) list \<Rightarrow> bool" where
  "answers_ok devs \<longleftrightarrow> devs \<noteq> [] \<and> (\<forall>dev\<in>set devs. dev_ok dev)
     \<and> (\<forall>n e. last devs n = Read_Error e \<longrightarrow> e \<noteq> EAGAIN \<and> e \<noteq> EINTR)"

lemma fill_negative:
  assumes "fst (fill dev r) < 0"
  shows "fst (fill dev r) = - EINVAL \<or> (\<exists>n e. dev n = Read_Error e \<and> fst (fill dev r) = - e)"
proof (cases "dev (mFreeSpace r)")
  case (Read_Error e)
  with assms show ?thesis by (auto simp: fill_def split: if_splits)
next
  case (Read_Events es partial)
  with assms show ?thesis by (auto simp: fill_def Let_def split: if_splits)
qed

lemma read_negative:
  assumes "nd_readEvents A now dev count d = Some (nb, d', out)" and "nb < 0"
  shows "nb = - EINVAL \<or> (\<exists>n e. dev n = Read_Error e \<and> nb = - e)"
  using assms fill_negative [of dev "nd_reader d"] by (auto simp: nd_readEvents_def Let_def split: if_splits)

lemma read_retry_ok:
  assumes "nd_good d" and "answers_ok devs"
  shows "\<exists>nb d' out. read_retry E now devs count d = Some (nb, d', out) \<and> nd_good d' \<and> (1 \<le> count \<longrightarrow> nb \<le> count)
    \<and> (0 < nb \<longrightarrow> nb = int (length out))"
  using assms
proof (induction devs arbitrary: d)
  case (Cons dev devs)
  then have "dev_ok dev" by (simp add: answers_ok_def)
  from nd_readEvents_returns [OF Cons.prems(1) this, of "n_flt E" now count] obtain nb d1 out where
    r: "nd_readEvents (n_flt E) now dev count d = Some (nb, d1, out)" "nd_good d1" "1 \<le> count \<longrightarrow> nb \<le> count"
      "0 < nb \<longrightarrow> nb = int (length out)" by blast
  show ?case
  proof (cases "nb = - EAGAIN \<or> nb = - EINTR")
    case True
    then have "nb < 0" "nb \<noteq> - EINVAL" by (auto simp: EAGAIN_def EINTR_def EINVAL_def)
    with read_negative [OF r(1)] obtain n e where "dev n = Read_Error e" "nb = - e" by blast
    with True Cons.prems(2) have "devs \<noteq> []" by (auto simp: answers_ok_def split: if_splits)
    with Cons.prems(2) have "answers_ok devs" by (simp add: answers_ok_def)
    with Cons.IH [OF r(2)] True r(1) show ?thesis by simp
  next
    case False
    with r show ?thesis by simp
  qed
qed (simp add: answers_ok_def)

lemma plain_injects:
  assumes "plain_ctx i (ctx m i)"
  shows "injects i m"
  using assms by (simp add: injects_def plain_ctx_def split: if_splits)

lemma readEvents_inv:
  assumes "nm_inv m" and "answers_ok devs"
  shows "\<exists>nb out m'. nm_readEvents E now h devs count m = Some (nb, out, m') \<and> nm_inv m' \<and> nm_core m' = nm_core m
    \<and> (1 \<le> count \<longrightarrow> nb \<le> count) \<and> (0 < nb \<longrightarrow> nb = int (length out))"
proof (cases "handle_map m h")
  case (Some i)
  note p = nm_inv_parts [OF assms(1) Some]
  obtain d where d: "sc_driver (ctx m i) = Some d" "nd_good d" using p(4) by blast
  from read_retry_ok [OF d(2) assms(2), of E now count] obtain nb d1 out where
    r: "read_retry E now devs count d = Some (nb, d1, out)" "nd_good d1" "1 \<le> count \<longrightarrow> nb \<le> count"
      "0 < nb \<longrightarrow> nb = int (length out)" by blast
  let ?m = "upd_ctx i (sc_driver_update (\<lambda>_. Some d1)) m"
  have core: "nm_core ?m = nm_core m" using upd_driver_core [where i = i and f = "\<lambda>_. Some d1" and m = m and fs = "nm_fs ?m"] by simp
  have "drivers_good ?m"
    using p(6) r(2) set_update_subset_insert [of "context_list m" i] by (fastforce simp: drivers_good_def upd_ctx_def)
  then have inv: "nm_inv ?m" using nm_inv_core [OF core _ assms(1)] by blast
  have "injects i ?m" using inv p(1) by (intro plain_injects) (simp add: nm_inv_def)
  with d(1) r Some inv core show ?thesis by (simp add: nm_readEvents_def getInfoByHandle_def Let_def)
qed (use assms in \<open>simp add: nm_readEvents_def getInfoByHandle_def EINVAL_def\<close>)


section \<open>The manager at start\<close>

definition fresh_ctx :: "nat \<Rightarrow> 'f sctx \<Rightarrow> bool" where
  "fresh_ctx i c \<longleftrightarrow> sn_handle (sc_sensor c) = SENSORS_HANDLE i \<and> dep_list c = [] \<and> listener c = [] \<and> sc_enable c = 0"

lemma scan_class_fresh:
  "scan_class E inputs des cur scanned cs = Some cs' \<Longrightarrow> length cs \<le> MAX_SENSORS \<Longrightarrow> \<forall>i < length cs. fresh_ctx i (cs ! i)
   \<Longrightarrow> length cs' \<le> MAX_SENSORS \<and> (\<forall>i < length cs'. fresh_ctx i (cs' ! i))"
proof (induction des arbitrary: cur scanned cs)
  case (Cons de des)
  show ?case
  proof (cases "ce_name de = ''.'' \<or> ce_name de = ''..''")
    case True
    with Cons.IH Cons.prems show ?thesis by simp
  next
    case named: False
    with Cons.prems(1) have room: "\<not> length cs \<ge> MAX_SENSORS" by (auto split: if_splits)
    obtain ok s where n: "getNodes E (ce_attr de) node_map cur = Some (ok, s)"
      using Cons.prems(1) named room by (cases "getNodes E (ce_attr de) node_map cur") auto
    show ?thesis
    proof (cases ok)
      case False
      with named room n Cons.prems(1) have "scan_class E inputs des s scanned cs = Some cs'" by simp
      from Cons.IH [OF this Cons.prems(2,3)] show ?thesis .
    next
      case True
      obtain err dp where e: "getEventPath (ce_device de) '''' = (err, dp)" by fastforce
      define s1 where "s1 = finish_sensor (length cs) s"
      obtain sc2 dp2 where o: "(if err = - ENODEV then getEventPathOld inputs scanned (sn_name s1) dp else (scanned, dp)) = (sc2, dp2)" by fastforce
      let ?c = "zero_ctx s1 (SYSFS_CLASS @ ce_name de @ ''/'') dp2"
      have go: "scan_class E inputs des (zero_sensor E) sc2 (cs @ [?c]) = Some cs'"
        using Cons.prems(1) named room n True e o by (cases "err = - ENODEV") (simp_all add: Let_def flip: s1_def)
      have "fresh_ctx (length cs) ?c" by (simp add: fresh_ctx_def zero_ctx_def s1_def finish_sensor_def)
      with Cons.prems(3) have "\<forall>i < length (cs @ [?c]). fresh_ctx i ((cs @ [?c]) ! i)" by (auto simp: nth_append less_Suc_eq)
      moreover have "length (cs @ [?c]) \<le> MAX_SENSORS" using room by simp
      ultimately show ?thesis using Cons.IH [OF go] by blast
    qed
  qed
qed simp

lemma make_context_fresh:
  assumes "fresh_ctx i c"
  shows "sn_handle (sc_sensor (make_context E open_fd junk i c)) = SENSORS_HANDLE i" "plain_ctx i (make_context E open_fd junk i c)"
    "sc_driver (make_context E open_fd junk i c) \<noteq> None \<Longrightarrow> length (fst junk) = 8
      \<Longrightarrow> \<exists>d. sc_driver (make_context E open_fd junk i c) = Some d \<and> nd_good d"
  using assms by (cases junk; auto simp: fresh_ctx_def make_context_def plain_ctx_def Let_def new_native_driver_good split: if_splits)+

lemma getDataInfo_ctx:
  assumes "i < length cs"
  shows "ctx (getDataInfo E open_fd junk cs fs) i = make_context E open_fd junk i (cs ! i)"
  using assms by (simp add: getDataInfo_def Let_def nth_enumerate_eq)

lemma getDataInfo_length [simp]: "length (context_list (getDataInfo E open_fd junk cs fs)) = length cs"
  by (simp add: getDataInfo_def Let_def)

lemma getDataInfo_handles:
  assumes "\<forall>i < length cs. fresh_ctx i (cs ! i)"
  shows "handle_map (getDataInfo E open_fd junk cs fs) h = Some i \<longleftrightarrow> i < length cs \<and> h = SENSORS_HANDLE i"
proof -
  let ?cs = "map (\<lambda>(i, c). make_context E open_fd junk i c) (enumerate 0 cs)"
  let ?l = "map (\<lambda>(i, c). (sn_handle (sc_sensor c), i)) (enumerate 0 ?cs)"
  have l: "?l = map (\<lambda>i. (SENSORS_HANDLE i, i)) [0..<length cs]"
    using assms by (intro nth_equalityI) (simp_all add: nth_enumerate_eq make_context_fresh(1))
  have "distinct (map fst (rev ?l))" unfolding l
    by (simp add: distinct_map inj_on_def SENSORS_HANDLE_def flip: rev_map)
  then have "map_of (rev ?l) h = Some i \<longleftrightarrow> (h, i) \<in> set (rev ?l)" by simp
  also have "\<dots> \<longleftrightarrow> i < length cs \<and> h = SENSORS_HANDLE i" unfolding l by auto
  finally show ?thesis by (simp add: getDataInfo_def Let_def rev_map)
qed

lemma new_manager_parts:
  assumes "new_manager E inputs dir open_fd junk fs = Some m"
  shows "length (context_list m) \<le> MAX_SENSORS" "handles_ok m" "\<forall>i < length (context_list m). plain_ctx i (ctx m i) \<and> handle_at m i = SENSORS_HANDLE i"
    "length (fst junk) = 8 \<Longrightarrow> i < length (context_list m) \<Longrightarrow> sc_driver (ctx m i) \<noteq> None \<Longrightarrow> \<exists>d. sc_driver (ctx m i) = Some d \<and> nd_good d"
proof -
  obtain cs where cs: "getSensorListInner E inputs dir = Some cs" "m = getDataInfo E open_fd junk cs fs"
    using assms by (auto simp: new_manager_def)
  have fr: "length cs \<le> MAX_SENSORS \<and> (\<forall>i < length cs. fresh_ctx i (cs ! i))"
  proof (cases dir)
    case (Some des)
    with cs(1) have "scan_class E inputs des (zero_sensor E) None [] = Some cs" by (simp add: getSensorListInner_def)
    from scan_class_fresh [OF this] show ?thesis by simp
  qed (use cs(1) in \<open>simp add: getSensorListInner_def\<close>)
  show "length (context_list m) \<le> MAX_SENSORS" using fr by (simp add: cs(2))
  show p: "\<forall>i < length (context_list m). plain_ctx i (ctx m i) \<and> handle_at m i = SENSORS_HANDLE i"
    using fr by (simp add: cs(2) getDataInfo_ctx handle_at_def make_context_fresh(1,2))
  show "handles_ok m" using p getDataInfo_handles [of cs E open_fd junk fs] fr by (auto simp: handles_ok_def cs(2))
  show "length (fst junk) = 8 \<Longrightarrow> i < length (context_list m) \<Longrightarrow> sc_driver (ctx m i) \<noteq> None \<Longrightarrow> \<exists>d. sc_driver (ctx m i) = Some d \<and> nd_good d"
    using fr make_context_fresh(3) [of i "cs ! i" E open_fd junk] by (simp add: cs(2) getDataInfo_ctx)
qed


section \<open>Polling keeps the invariant\<close>

lemma pending_returns:
  assumes "nm_inv m"
  shows "\<exists>p. nm_hasPendingEvents h m = Some p"
proof (cases "handle_map m h")
  case (Some i)
  from nm_inv_parts(4) [OF assms Some] Some show ?thesis by (auto simp: nm_hasPendingEvents_def getInfoByHandle_def)
qed (simp add: nm_hasPendingEvents_def getInfoByHandle_def)

lemma read_sensors_inv:
  assumes "nm_inv m" and "\<forall>i. answers_ok (rn_devs inp i)"
  shows "\<exists>x. read_sensors E inp is (count, nb, buf, rv, m) = Some x
    \<and> (case x of Inl (e, rv', m') \<Rightarrow> nm_inv m' | Inr (count', nb', buf', rv', m') \<Rightarrow> nm_inv m')"
  using assms(1)
proof (induction "is" arbitrary: count nb buf rv m)
  case (Cons i "is")
  obtain p where p: "(if rv i then Some 1 else nm_hasPendingEvents (handle_at m i) m) = Some p"
    using pending_returns [OF Cons.prems, of "handle_at m i"] by (cases "rv i") auto
  from readEvents_inv [OF Cons.prems assms(2) [THEN spec, of i], of E "rn_now inp" "handle_at m i" count] obtain k out m1 where
    r: "nm_readEvents E (rn_now inp) (handle_at m i) (rn_devs inp i) count m = Some (k, out, m1)" "nm_inv m1" by blast
  show ?case
  proof (cases "count = 0 \<or> p = 0")
    case True
    with Cons.IH [OF Cons.prems] Cons.prems p show ?thesis by (cases "count = 0") simp_all
  next
    case False
    with Cons.IH [OF r(2)] p r show ?thesis by (cases "k < 0") simp_all
  qed
qed simp

text \<open>The turns of a poll: each device answers every read made of it, and in the last turn the system reports an error or
  that nothing is ready, so that the loop ends there if it has not ended before.\<close>

definition turns_ok :: "round_input list \<Rightarrow> bool" where
  "turns_ok inps \<longleftrightarrow> inps \<noteq> [] \<and> (\<forall>inp\<in>set inps. \<forall>i. answers_ok (rn_devs inp i))
     \<and> (case rn_poll (last inps) of Poll_Failed e \<Rightarrow> True | Poll_Fds ready wake \<Rightarrow> \<not> wake \<and> (\<forall>i. \<not> ready i))"

lemma pollEvents_inv:
  assumes "nm_inv m" and "turns_ok inps"
  shows "\<exists>v buf' rv' m'. nm_pollEvents E inps (count, nb, buf, rv, m) = Some (v, buf', rv', m') \<and> nm_inv m'"
  using assms
proof (induction inps arbitrary: count nb buf rv m)
  case (Cons inp inps)
  have "\<forall>i. answers_ok (rn_devs inp i)" using Cons.prems(2) by (simp add: turns_ok_def)
  from read_sensors_inv [OF Cons.prems(1) this, of E "[0..<length (context_list m)]" count nb buf rv] obtain x where
    x: "read_sensors E inp [0..<length (context_list m)] (count, nb, buf, rv, m) = Some x"
      "case x of Inl (e, rv', m') \<Rightarrow> nm_inv m' | Inr (count', nb', buf', rv', m') \<Rightarrow> nm_inv m'" by blast
  show ?case
  proof (cases x)
    case (Inl a)
    with x show ?thesis by (cases a) simp
  next
    case (Inr a)
    obtain c1 n1 b1 r1 m1 where a: "a = (c1, n1, b1, r1, m1)" by (metis prod_cases5)
    have m1: "nm_inv m1" using x(2) by (simp add: Inr a)
    have later: "turns_ok inps" if "rn_poll inp = Poll_Fds ready wake" "wake \<or> (\<exists>i. ready i)" for ready wake
      using Cons.prems(2) that by (auto simp: turns_ok_def split: if_splits)
    show ?thesis
    proof (cases "rn_poll inp")
      case (Poll_Failed e)
      with x m1 Inr a show ?thesis by (cases "c1 = 0") simp_all
    next
      case (Poll_Fds ready wake)
      have some: "wake \<or> (\<exists>i. ready i)" if "ready_count (length (context_list m1)) (rn_poll inp) \<noteq> 0"
        using that by (auto simp: Poll_Fds filter_empty_conv split: if_splits)
      show ?thesis
      proof (cases "c1 \<noteq> 0 \<and> ready_count (length (context_list m1)) (rn_poll inp) \<noteq> 0")
        case True
        from Cons.IH [OF m1 later [OF Poll_Fds some], of c1 n1 b1 ready] True x Inr a Poll_Fds show ?thesis by simp
      next
        case False
        with x m1 Inr a Poll_Fds show ?thesis by (cases "c1 = 0") simp_all
      qed
    qed
  qed
qed (simp add: turns_ok_def)

section \<open>Sequences of calls\<close>

datatype nm_call =
    NM_Activate int int
  | NM_SetDelay int int
  | NM_Batch int int int
  | NM_Flush int
  | NM_Read int int "(nat \<Rightarrow> timed_event read_result) list" int
  | NM_Pending int
  | NM_Poll "round_input list" int

text \<open>The state of the module: what \<open>poll\<close> left in \<open>revents\<close>, and the manager.\<close>

fun nm_do :: "'f nm_env \<Rightarrow> nm_call \<Rightarrow> 'f poll_state \<Rightarrow> 'f poll_state option" where
  "nm_do E (NM_Activate h en) (rv, m) = map_option (\<lambda>(r, m1). (rv, m1)) (nm_activate E h en m)"
| "nm_do E (NM_SetDelay h ns) (rv, m) = map_option (\<lambda>(r, m1). (rv, m1)) (nm_setDelay E h ns m)"
| "nm_do E (NM_Batch h ns lat) (rv, m) = map_option (\<lambda>(r, m1). (rv, m1)) (nm_batch E h ns lat m)"
| "nm_do E (NM_Flush h) (rv, m) = map_option (\<lambda>(r, m1). (rv, m1)) (nm_flush h m)"
| "nm_do E (NM_Read now h devs count) (rv, m) = map_option (\<lambda>(nb, out, m1). (rv, m1)) (nm_readEvents E now h devs count m)"
| "nm_do E (NM_Pending h) (rv, m) = map_option (\<lambda>p. (rv, m)) (nm_hasPendingEvents h m)"
| "nm_do E (NM_Poll inps count) (rv, m) = map_option (\<lambda>(v, buf, ps). ps) (nm_pollEvents E inps (count, 0, [], rv, m))"

text \<open>A read is tried again as long as the device answers \<open>EAGAIN\<close> or \<open>EINTR\<close>, so its answers have to end with another
  one; a poll has to come to an end.\<close>

fun nm_call_ok :: "nm_call \<Rightarrow> bool" where
  "nm_call_ok (NM_Read now h devs count) \<longleftrightarrow> answers_ok devs"
| "nm_call_ok (NM_Poll inps count) \<longleftrightarrow> turns_ok inps"
| "nm_call_ok _ \<longleftrightarrow> True"

lemma nm_do_inv:
  assumes "nm_inv m" and "nm_call_ok c"
  shows "\<exists>rv' m'. nm_do E c (rv, m) = Some (rv', m') \<and> nm_inv m'"
proof (cases c)
  case (NM_Activate h en)
  with activate_inv [OF assms(1), of E h en] show ?thesis by auto
next
  case (NM_SetDelay h ns)
  with setDelay_inv [OF assms(1), of E h ns] show ?thesis by auto
next
  case (NM_Batch h ns lat)
  with batch_inv [OF assms(1), of E h ns lat] show ?thesis by auto
next
  case (NM_Flush h)
  with flush_inv [OF assms(1), of h] show ?thesis by auto
next
  case (NM_Read now h devs count)
  with readEvents_inv [OF assms(1), of devs E now h count] assms(2) show ?thesis by auto
next
  case (NM_Pending h)
  with pending_returns [OF assms(1), of h] assms(1) show ?thesis by auto
next
  case (NM_Poll inps count)
  with pollEvents_inv [OF assms(1), of inps E count 0 "[]" rv] assms(2) show ?thesis by auto
qed

text \<open>C33: a manager all of whose sensors are of the two known types follows no null pointer over any calls of the
  framework, polls and questions for pending events included. Provided that no device answers a read with \<open>EAGAIN\<close> or
  \<open>EINTR\<close> for ever (the reading loop would not end) and that the system lets each poll end, every call returns; and then a
  sensor is its own only listener exactly while it is switched on.\<close>

theorem native_calls_safe:
  assumes "new_manager E inputs dir open_fd junk fs = Some m" and "length (fst junk) = 8"
    and "\<forall>c\<in>set (context_list m). sc_driver c \<noteq> None" and "\<forall>c\<in>set calls. nm_call_ok c"
  shows "\<exists>rv' m'. each (nm_do E) calls (rv, m) = Some (rv', m') \<and> nm_inv m'"
proof -
  note p = new_manager_parts [OF assms(1)]
  have "drivers_good m" using p(4) [OF assms(2)] assms(3) by (simp add: drivers_good_def all_set_conv_all_nth)
  with p(2,3) have "nm_inv m" by (simp add: nm_inv_def)
  then show ?thesis using assms(4)
  proof (induction calls arbitrary: rv m)
    case (Cons c cs)
    from nm_do_inv [OF Cons.prems(1), of c E rv] Cons.prems(2) obtain rev1 m1 where m1: "nm_do E c (rv, m) = Some (rev1, m1)" "nm_inv m1" by auto
    with Cons.IH [OF m1(2)] Cons.prems(2) show ?case by simp
  qed simp
qed

lemma make_context_type: "sn_type (sc_sensor (make_context E open_fd junk i c)) = sn_type (sc_sensor c)"
  by (simp add: make_context_def Let_def)

lemma make_context_driver:
  "sn_type (sc_sensor c) \<noteq> TYPE_PROXIMITY E \<Longrightarrow> sn_type (sc_sensor c) \<noteq> TYPE_CAPSENSE E
   \<Longrightarrow> sc_driver (make_context E open_fd junk i c) = None"
  by (simp add: make_context_def Let_def)

lemma drv_call_None: "sc_driver (ctx m i) = None \<Longrightarrow> drv_call i call m = None"
  by (simp add: drv_call_def)

lemma activate_crashes:
  assumes "handle_map m (handle_at m i) = Some i" and "i < length (context_list m)" and "plain_ctx i (ctx m i)"
    and "sc_driver (ctx m i) = None"
  shows "nm_activate E (handle_at m i) en m = None"
proof -
  let ?m = "upd_ctx i (sc_enable_update (\<lambda>_. en)) m"
  have l: "listener (ctx ?m i) = [] \<or> listener (ctx ?m i) = [i]" "dep_list (ctx ?m i) = [i]"
    using assms(2,3) by (simp_all add: ctx_upd plain_ctx_def)
  have h: "handle_at (upd_ctx i (set_listener x) ?m) i = handle_at m i" for x using assms(2) by (simp add: handle_at_def ctx_upd set_listener_def)
  have nodrv: "sc_driver (ctx (upd_ctx i (set_listener x) ?m) i) = None" for x using assms(2,4) by (simp add: ctx_upd set_listener_def)
  have ls: "listener (ctx (upd_ctx i (set_listener x) ?m) i) = x" for x using assms(2) by (simp add: ctx_upd set_listener_def)
  have on: "switch_on E i i ?m = None"
    using register_plain [of i ?m] assms(1,2) l(1) h nodrv ls
    by (simp add: switch_on_def sync_both_def syncDelay_def getInfoByHandle_def listener_delays_def drv_call_None)
  have off: "switch_off_dep E i i ?m = None"
  proof (cases "listener (ctx ?m i) = []")
    case True
    have "sc_driver (ctx ?m i) = None" using assms(2,4) by (simp add: ctx_upd)
    with True show ?thesis by (simp add: switch_off_dep_def drv_call_None)
  next
    case False
    with l(1) have "listener (ctx ?m i) = [i]" by blast
    with unregister_plain [of i ?m] assms(1,2) h nodrv ls show ?thesis
      by (simp add: switch_off_dep_def sync_both_def syncDelay_def syncLatency_def getInfoByHandle_def listener_delays_def
          listener_latencies_def drv_call_None)
  qed
  show ?thesis using assms(1) l(2) on off by (cases "en = 0") (simp_all add: nm_activate_def getInfoByHandle_def Let_def)
qed

text \<open>A sensor whose type is neither proximity nor cap sense gets no driver but stays in the list: switching it, or
  polling when it is the first, follows a null pointer.\<close>

theorem native_unknown_type_crashes:
  assumes "new_manager E inputs dir open_fd junk fs = Some m" and "i < length (context_list m)"
    and "sn_type (sc_sensor (ctx m i)) \<noteq> TYPE_PROXIMITY E" and "sn_type (sc_sensor (ctx m i)) \<noteq> TYPE_CAPSENSE E"
  shows "nm_activate E (handle_at m i) en m = None
    \<and> (i = 0 \<and> 1 \<le> count \<longrightarrow> nm_pollEvents E (inp # inps) (count, 0, [], \<lambda>_. False, m) = None)"
proof -
  note p = new_manager_parts [OF assms(1)]
  obtain cs where cs: "m = getDataInfo E open_fd junk cs fs" using assms(1) by (auto simp: new_manager_def)
  with assms(2-4) have none: "sc_driver (ctx m i) = None"
    by (simp add: getDataInfo_ctx make_context_type make_context_driver)
  have hm: "handle_map m (handle_at m i) = Some i" using p(2) assms(2) by (simp add: handles_ok_def)
  have "nm_activate E (handle_at m i) en m = None" using activate_crashes [OF hm assms(2) _ none] p(3) assms(2) by simp
  moreover have "nm_pollEvents E (inp # inps) (count, 0, [], \<lambda>_. False, m) = None" if "i = 0" "1 \<le> count"
  proof -
    from that assms(2) have "[0..<length (context_list m)] = 0 # [1..<length (context_list m)]" by (simp add: upt_conv_Cons)
    with that hm none show ?thesis by (simp add: nm_hasPendingEvents_def getInfoByHandle_def)
  qed
  ultimately show ?thesis by blast
qed

section \<open>Delays\<close>

lemma min_delay_zero: "\<forall>d\<in>set ds. 0 \<le> d \<Longrightarrow> min_delay 0 ds = 0"
  by (induction ds) auto

lemma min_delay_least:
  "0 < m \<Longrightarrow> \<forall>d\<in>set ds. 0 \<le> d \<Longrightarrow> min_delay m ds = Min (insert m {d \<in> set ds. d \<noteq> 0})"
proof (induction ds arbitrary: m)
  case (Cons d ds)
  have fin: "finite {d \<in> set ds. d \<noteq> 0}" by simp
  show ?case
  proof (cases "d = 0")
    case False
    then have "{x \<in> set (d # ds). x \<noteq> 0} = insert d {x \<in> set ds. x \<noteq> 0}" by auto
    moreover have "min_delay m (d # ds) = Min (insert (min m d) {x \<in> set ds. x \<noteq> 0})"
      using Cons.IH [of "min m d"] Cons.prems False by (auto simp: min_def)
    moreover have "Min (insert (min m d) A) = Min (insert m (insert d A))" if "finite A" for A :: "int set"
      using that by (cases "A = {}") (simp_all add: min.assoc)
    ultimately show ?thesis using fin by simp
  qed (use Cons in \<open>simp add: Collect_conv_if conj_disj_distribR\<close>)
qed simp

text \<open>The period a sensor is driven with is the least of those its listeners ask for, those of 0 left out, but
  only when the first listener's is not 0: then the sensor is driven with 0, whatever the others ask for.\<close>

theorem native_sync_delay:
  assumes "handle_map m h = Some i" and "listener (ctx m i) \<noteq> []" and "\<forall>d\<in>set (listener_delays m i). 0 \<le> d"
  shows "syncDelay E h m = drv_call i (nd_setDelay (n_property E)
     (if hd (listener_delays m i) = 0 then 0 else Min {d \<in> set (listener_delays m i). d \<noteq> 0})) m"
proof -
  obtain d ds where l: "listener_delays m i = d # ds" using assms(2) by (cases "listener_delays m i") (auto simp: listener_delays_def)
  have "min_delay d (d # ds) = (if d = 0 then 0 else Min {x \<in> set (d # ds). x \<noteq> 0})"
  proof (cases "d = 0")
    case True
    with assms(3) l min_delay_zero [of ds] show ?thesis by simp
  next
    case False
    then have "{x \<in> set (d # ds). x \<noteq> 0} = insert d {x \<in> set ds. x \<noteq> 0}" by auto
    with False min_delay_least [of d ds] assms(3) l show ?thesis by (simp del: min_delay.simps add: min_delay.simps(2))
  qed
  with assms(1) l show ?thesis by (simp add: syncDelay_def getInfoByHandle_def del: min_delay.simps)
qed

text \<open>The context narrows the period of \<open>batch\<close> to 32 bits: one between 2.147 and 4.294 seconds is kept as a
  negative period, for which the sensor's listener is the least.\<close>

theorem native_batch_narrows:
  assumes "nm_inv m" and "handle_map m h = Some i" and "2 ^ 31 \<le> ns" and "ns < 2 ^ 32"
  shows "\<exists>m'. ctx_batch E h ns 0 (pipe, m) = Some (0, pipe, m') \<and> nm_inv m' \<and> delay_ns (ctx m' i) = ns - 2 ^ 32"
proof -
  have n: "int32 ns = ns - 2 ^ 32"
    using assms(3,4) mod_add_self2 [of "ns - 2 ^ 31" "2 ^ 32"]
    by (simp add: int32_def signed_of_int signed_take_bit_eq_take_bit_shift take_bit_eq_mod add.commute [of ns])
  have l: "i < length (context_list m)" by (rule nm_inv_parts(1) [OF assms(1,2)])
  have z: "int32 0 = 0" by (simp add: int32_def)
  from batch_keeps [OF assms(1,2), of 0 "int32 ns" E] obtain m' where
    b: "nm_batch E h (int32 ns) 0 m = Some (0, m')" "nm_inv m'" "nm_core m' = nm_core (upd_ctx i (set_delays (int32 ns) 0) m)" by auto
  have "ctx_core (ctx m' i) = ctx_core (ctx (upd_ctx i (set_delays (int32 ns) 0) m) i)"
    using core_ctx [OF b(3)] l by (simp add: upd_ctx_def)
  then have "delay_ns (ctx m' i) = delay_ns (ctx (upd_ctx i (set_delays (int32 ns) 0) m) i)" by (metis ctx_core_simps(4))
  also have "\<dots> = int32 ns" using ctx_upd [OF l] by (simp add: set_delays_def)
  finally have "delay_ns (ctx m' i) = int32 ns" .
  with b(1,2) n z show ?thesis by (simp add: ctx_batch_def)
qed

section \<open>What waits\<close>

text \<open>No sensor has an event or a completion flagged; what the readers hold does not matter.\<close>

definition nothing_flagged :: "'f manager \<Rightarrow> bool" where
  "nothing_flagged m \<longleftrightarrow> (\<forall>i < length (context_list m). nm_hasPendingEvents (handle_at m i) m = Some 0)"

lemma read_sensors_idle:
  "nothing_flagged m \<Longrightarrow> \<forall>i\<in>set is. i < length (context_list m)
   \<Longrightarrow> read_sensors E inp is (count, nb, buf, \<lambda>_. False, m) = Some (Inr (count, nb, buf, \<lambda>_. False, m))"
  by (induction "is") (auto simp: nothing_flagged_def)

text \<open>The poll loop does not come back to events left in a driver's reader: with nothing flagged it goes by the
  descriptors alone, so after a call whose buffer was full the events that did not fit wait for the next input event,
  however often the loop is woken.\<close>

theorem native_leftover_waits:
  assumes "nothing_flagged m" and "1 \<le> count" and "\<forall>inp\<in>set inps. rn_poll inp = Poll_Fds (\<lambda>_. False) True"
  shows "nm_pollEvents E inps (count, 0, [], \<lambda>_. False, m) = None"
  using assms(3)
proof (induction inps)
  case (Cons inp inps)
  have "read_sensors E inp [0..<length (context_list m)] (count, 0, [], \<lambda>_. False, m) = Some (Inr (count, 0, [], \<lambda>_. False, m))"
    by (rule read_sensors_idle [OF assms(1)]) simp
  with Cons assms(2) show ?case by simp
qed simp


section \<open>What is read of the attributes\<close>

text \<open>The text of an attribute is read back only when it ends with a newline: without one its last character is lost,
  and an attribute of one character makes the code look before its buffer.\<close>

theorem native_node_needs_newline:
  assumes "t \<noteq> ''''" and "CHR 0x00 \<notin> set t" and "NEWLINE \<notin> set t"
  shows "node_text (t @ [NEWLINE]) = Some t \<and> node_text t = (if length t = 1 then None else Some (butlast t))"
proof -
  have all: "takeWhile (\<lambda>c. c \<noteq> CHR 0x00) t = t" "takeWhile (\<lambda>c. c \<noteq> CHR 0x00) (butlast t) = butlast t"
    using assms(2) by (auto simp: takeWhile_eq_all_conv dest: in_set_butlastD)
  have "last t \<noteq> NEWLINE" using assms(1,3) last_in_set by metis
  then have whole: "node_text (t @ [NEWLINE]) = Some t" using assms(1) by (simp add: node_text_def Let_def all)
  have "butlast t \<noteq> [] \<longrightarrow> last (butlast t) \<noteq> NEWLINE" using assms(3) last_in_set in_set_butlastD by metis
  moreover have "butlast t = [] \<longleftrightarrow> length t = 1" using assms(1) by (cases t rule: rev_cases) auto
  ultimately have "node_text t = (if length t = 1 then None else Some (butlast t))"
    using assms(1) by (simp add: node_text_def Let_def all)
  with whole show ?thesis by simp
qed

theorem native_node_needs_newline_witness:
  "node_text ''8'' = None \<and> node_text (''8'' @ [NEWLINE]) = Some ''8''"
  using native_node_needs_newline [of "''8''"] by (simp add: NEWLINE_def)

section \<open>Instances\<close>

definition board_env :: "int nm_env" where
  "board_env = \<lparr>n_flt = whole_arith, n_atof = (\<lambda>_. 0), n_property = (\<lambda>_. ''0''), TYPE_PROXIMITY = 8, PRIVATE_BASE = 65536,
     ON_CHANGE_FLAG = 2\<rparr>"

definition board_nodes :: "string \<Rightarrow> string \<Rightarrow> string option" where
  "board_nodes ty node =
     (if node = ''name'' then Some (''rear'' @ [NEWLINE])
      else if node = ''type'' then Some (ty @ [NEWLINE])
      else if node \<in> {''vendor'', ''version'', ''max_range'', ''resolution'', ''sensor_power'', ''min_delay''} then Some (''1'' @ [NEWLINE])
      else None)"

definition board_dir :: "string \<Rightarrow> class_entry list option" where
  "board_dir ty = Some [\<lparr>ce_name = ''..'', ce_attr = (\<lambda>_. None), ce_device = None\<rparr>,
     \<lparr>ce_name = ''rear'', ce_attr = board_nodes ty, ce_device = Some (Some ''../../input3'', [''event3''])\<rparr>]"

definition board_junk :: "timed_event list \<times> bool \<times> int" where
  "board_junk = (replicate 8 \<lparr>te_type = EV_SYN, te_code = CODE_SYN_REPORT, te_value = 0, te_time = 0\<rparr>, False, 0)"

definition board_manager :: "string \<Rightarrow> int manager" where
  "board_manager ty = the (new_manager board_env None (board_dir ty) (\<lambda>_. 5) board_junk \<lparr>content = (\<lambda>_. Some ''0''), write_fails = (\<lambda>_. False)\<rparr>)"

lemma board_made:
  "new_manager board_env None (board_dir ''8'') (\<lambda>_. 5) board_junk \<lparr>content = (\<lambda>_. Some ''0''), write_fails = (\<lambda>_. False)\<rparr> = Some (board_manager ''8'')"
  "new_manager board_env None (board_dir ''1'') (\<lambda>_. 5) board_junk \<lparr>content = (\<lambda>_. Some ''0''), write_fails = (\<lambda>_. False)\<rparr> = Some (board_manager ''1'')"
proof -
  have "\<not> Option.is_none (getSensorListInner board_env None (board_dir ''8''))" "\<not> Option.is_none (getSensorListInner board_env None (board_dir ''1''))"
    by code_simp+
  then show "new_manager board_env None (board_dir ''8'') (\<lambda>_. 5) board_junk \<lparr>content = (\<lambda>_. Some ''0''), write_fails = (\<lambda>_. False)\<rparr> = Some (board_manager ''8'')"
    "new_manager board_env None (board_dir ''1'') (\<lambda>_. 5) board_junk \<lparr>content = (\<lambda>_. Some ''0''), write_fails = (\<lambda>_. False)\<rparr> = Some (board_manager ''1'')"
    by (auto simp: board_manager_def new_manager_def Option.is_none_def)
qed

lemma board_facts:
  "list_all (\<lambda>c. \<not> Option.is_none (sc_driver c)) (context_list (board_manager ''8''))" "length (context_list (board_manager ''8'')) = 1"
  "length (context_list (board_manager ''1'')) = 1" "sn_type (sc_sensor (context_list (board_manager ''1'') ! 0)) = 1"
  "handle_map (board_manager ''8'') 1 = Some 0" "handle_at (board_manager ''8'') 0 = 1"
  by code_simp+

text \<open>A poll in which the device has nothing and then the system fails.\<close>

definition idle_turn :: round_input where
  "idle_turn = \<lparr>rn_now = 0, rn_devs = (\<lambda>_. [\<lambda>_. Read_Error 4, \<lambda>_. Read_Error 5]), rn_poll = Poll_Failed 9\<rparr>"

definition board_calls :: "nm_call list" where
  "board_calls = [NM_Batch 1 20000000 0, NM_Activate 1 1, NM_Flush 1, NM_Pending 1, NM_Poll [idle_turn] 4,
     NM_Read 0 1 [\<lambda>_. Read_Error 5] 4, NM_Activate 1 0, NM_Activate 9 1]"

theorem native_calls_safe_witness:
  "\<exists>rv' m. each (nm_do board_env) board_calls (\<lambda>_. True, board_manager ''8'') = Some (rv', m) \<and> nm_inv m"
proof -
  have "\<forall>c\<in>set (context_list (board_manager ''8'')). sc_driver c \<noteq> None"
    using board_facts(1) by (auto simp: list_all_iff Option.is_none_def)
  moreover have "\<forall>c\<in>set board_calls. nm_call_ok c"
    by (simp add: board_calls_def turns_ok_def idle_turn_def answers_ok_def dev_ok_def EAGAIN_def EINTR_def)
  ultimately show ?thesis using native_calls_safe [OF board_made(1), of board_calls "\<lambda>_. True"] by (simp add: board_junk_def)
qed

theorem native_unknown_type_crashes_witness:
  "nm_activate board_env (handle_at (board_manager ''1'') 0) 1 (board_manager ''1'') = None"
  using native_unknown_type_crashes [OF board_made(2), of 0 1 1] board_facts(3,4) by (simp add: board_env_def TYPE_CAPSENSE_def)

theorem native_batch_narrows_witness:
  "\<exists>m'. ctx_batch board_env 1 3000000000 0 (0, board_manager ''8'') = Some (0, 0, m') \<and> delay_ns (ctx m' 0) = - 1294967296"
proof -
  from board_facts(1) have "\<forall>c\<in>set (context_list (board_manager ''8'')). sc_driver c \<noteq> None"
    by (auto simp: list_all_iff Option.is_none_def)
  then have "drivers_good (board_manager ''8'')"
    using new_manager_parts(4) [OF board_made(1)] by (simp add: drivers_good_def all_set_conv_all_nth board_junk_def)
  then have "nm_inv (board_manager ''8'')" using new_manager_parts(2,3) [OF board_made(1)] by (simp add: nm_inv_def)
  from native_batch_narrows [OF this board_facts(5), of 3000000000 board_env 0] show ?thesis by auto
qed

definition listening_board :: "int manager" where
  "listening_board = upd_ctx 0 (\<lambda>c. c\<lparr>listener := [0, 0], delay_ns := 20000000\<rparr>) (board_manager ''8'')"

theorem native_sync_delay_witness:
  "syncDelay board_env 1 listening_board = drv_call 0 (nd_setDelay (n_property board_env) 20000000) listening_board"
proof -
  have l: "handle_map listening_board 1 = Some 0" "listener (ctx listening_board 0) = [0, 0]" "listener_delays listening_board 0 = [20000000, 20000000]"
    using board_facts(2,5) by (simp_all add: listening_board_def ctx_upd listener_delays_def)
  have "{d \<in> set (listener_delays listening_board 0). d \<noteq> 0} = {20000000}" by (auto simp: l)
  with native_sync_delay [OF l(1), of board_env] l show ?thesis by simp
qed

text \<open>Two reports reach a call with room for one: it delivers the first, the second is in the reader.\<close>

definition two_reports :: "timed_event list" where
  "two_reports = [\<lparr>te_type = EV_ABS, te_code = CODE_DISTANCE, te_value = 3, te_time = 1\<rparr>, \<lparr>te_type = EV_SYN, te_code = CODE_SYN_REPORT, te_value = 0, te_time = 1\<rparr>,
     \<lparr>te_type = EV_ABS, te_code = CODE_DISTANCE, te_value = 9, te_time = 2\<rparr>, \<lparr>te_type = EV_SYN, te_code = CODE_SYN_REPORT, te_value = 0, te_time = 2\<rparr>]"

definition leftover_board :: "int manager" where
  "leftover_board =
     (case each (nm_do board_env) [NM_Activate 1 1, NM_Read 0 1 [\<lambda>n. Read_Events two_reports 0] 1] (\<lambda>_. False, board_manager ''8'') of
        None \<Rightarrow> board_manager ''8'' | Some (rv, m) \<Rightarrow> m)"

lemma leftover_facts:
  "length (context_list leftover_board) = 1" "nm_hasPendingEvents (handle_at leftover_board 0) leftover_board = Some 0"
  "map_option (\<lambda>d. length (reader_abs (nd_reader d))) (sc_driver (context_list leftover_board ! 0)) = Some 2"
  by code_simp+

theorem native_leftover_waits_witness:
  "nm_pollEvents board_env (replicate 5 \<lparr>rn_now = 0, rn_devs = (\<lambda>_. []), rn_poll = Poll_Fds (\<lambda>_. False) True\<rparr>)
     (1, 0, [], \<lambda>_. False, leftover_board) = None
   \<and> map_option (\<lambda>d. length (reader_abs (nd_reader d))) (sc_driver (context_list leftover_board ! 0)) = Some 2"
proof -
  have "nothing_flagged leftover_board" using leftover_facts(1,2) by (simp add: nothing_flagged_def)
  from native_leftover_waits [OF this, of 1 "replicate 5 \<lparr>rn_now = 0, rn_devs = (\<lambda>_. []), rn_poll = Poll_Fds (\<lambda>_. False) True\<rparr>" board_env]
    leftover_facts(3) show ?thesis by simp
qed

end
