(* ===== verification/Hub_Algos.thy ===== *)
theory Hub_Algos
  imports Prelude "HOL-Library.Word"
begin

unbundle bit_operations_syntax

text \<open>
  The HAL module of the algorithms on the sensor hub (\<open>sensorhub.c\<close> of \<open>stml0xx_hal\<close>, with the interface
  \<open>mot_sensorhub_stml0xx.h\<close>; the copy in \<open>motosh_hal\<close> differs in the retries and in one event): requests and
  queries of the algorithms, and the events of the hub. \<open>None\<close> is an access outside an array.

  The kernel's header is not in the tree: the bits of the algorithms are fields of \<open>algo_env\<close>, as is the content of
  variables nothing has written.
\<close>

section \<open>Interface\<close>

definition SENSORHUB_ALGO_MODALITY :: "16 word" where "SENSORHUB_ALGO_MODALITY = 29"
definition SENSORHUB_ALGO_ORIENTATION :: "16 word" where "SENSORHUB_ALGO_ORIENTATION = 36"
definition SENSORHUB_ALGO_STOWED :: "16 word" where "SENSORHUB_ALGO_STOWED = 43"
definition SENSORHUB_ALGO_ACCUM_MODALITY :: "16 word" where "SENSORHUB_ALGO_ACCUM_MODALITY = 50"
definition SENSORHUB_ALGO_ACCUM_MVMT :: "16 word" where "SENSORHUB_ALGO_ACCUM_MVMT = 52"
definition SENSORHUB_ALGO_MOVEMENT :: "32 word" where "SENSORHUB_ALGO_MOVEMENT = 5"
definition SENSORHUB_NUM_ALGOS :: nat where "SENSORHUB_NUM_ALGOS = 6"
definition SENSORHUB_NUM_ACCUM_REQS :: "8 word" where "SENSORHUB_NUM_ACCUM_REQS = 4"
definition SENSORHUB_NUM_MODALITIES :: "8 word" where "SENSORHUB_NUM_MODALITIES = 6"
definition SENSORHUB_NUM_ORIENTATIONS :: "8 word" where "SENSORHUB_NUM_ORIENTATIONS = 4"
definition SENSORHUB_NUM_STOWED :: "8 word" where "SENSORHUB_NUM_STOWED = 3"

text \<open>The union of a request: two durations, the request of an accumulated state or that of an accumulated movement lie
  over the same three 16-bit numbers.\<close>

record sensorhub_req =
  rq_first :: "16 word"
  rq_second :: "16 word"
  rq_third :: "16 word"
  req_time_ms :: int

record 'f sensorhub_algo =
  al_type :: "32 word"
  al_enable :: "32 word"
  al_parameter0 :: 'f
  al_parameter1 :: 'f

datatype sh_event_type =
    SENSORHUB_EVENT_TRANSITION | SENSORHUB_EVENT_ACCUM_STATE | SENSORHUB_EVENT_ACCUM_MVMT
  | SENSORHUB_EVENT_START_MOVEMENT | SENSORHUB_EVENT_END_MOVEMENT | SENSORHUB_EVENT_GENERIC_CB | SENSORHUB_EVENT_RESET

text \<open>The union of an event, as the member written last. \<open>Value_2\<close> is \<open>value[2]\<close>, a small whole number.\<close>

datatype sh_union =
    Value_2 nat
  | Transition "16 word" bool "8 word" "32 word" "32 word"
  | Accum_State "16 word" "16 word"
  | Accum_Mvmt "32 word" "32 word"

record sensorhub_event =
  se_type :: sh_event_type
  se_time :: int
  se_ertime :: int
  se_union :: sh_union

section \<open>The driver\<close>

text \<open>\<open>SET_ALGOS\<close> is given the address of a 32-bit variable by one caller and of a 16-bit one by the other.\<close>

datatype sh_ioctl =
    SET_MOTION_DUR "32 word" | SET_ZRMOTION_DUR "32 word" | SET_ALGOS_32 "32 word" | SET_ALGOS_16 "16 word"
  | SET_ALGO_REQ "8 word list" | GET_ALGO_EVT "8 word list"

text \<open>What the driver answers depends on all calls so far: 0 or more is success, else \<open>- errno\<close>; the bytes are what it
  stores in the argument.\<close>

type_synonym sh_dev = "sh_ioctl list \<Rightarrow> int \<times> 8 word list"

record algo_env =
  M_ALGO_MODALITY :: "16 word"
  M_ALGO_ORIENTATION :: "16 word"
  M_ALGO_STOWED :: "16 word"
  M_ALGO_ACCUM_MODALITY :: "16 word"
  M_ALGO_ACCUM_MVMT :: "16 word"
  M_MMOVEME :: "16 word"
  M_NOMMOVE :: "16 word"
  EVT_SZ_ACCUM_MVMT :: nat
  EVT_SZ_TRANSITION :: nat
  unset_data :: "32 word"
  unset_bytes :: "nat \<Rightarrow> 8 word"

definition num_parts :: "8 word list" where
  "num_parts = [SENSORHUB_NUM_MODALITIES, SENSORHUB_NUM_ORIENTATIONS, SENSORHUB_NUM_STOWED, SENSORHUB_NUM_ACCUM_REQS, 0, 0]"

definition algo_bits :: "algo_env \<Rightarrow> 16 word list" where
  "algo_bits E = [M_ALGO_MODALITY E, M_ALGO_ORIENTATION E, M_ALGO_STOWED E, M_ALGO_ACCUM_MODALITY E, M_ALGO_ACCUM_MVMT E, 0]"

record sensorhub_context =
  active_algos :: "16 word"
  active_parts :: "32 word list"
  sh_calls :: "sh_ioctl list"

definition open_context :: sensorhub_context where
  "open_context = \<lparr>active_algos = 0, active_parts = replicate SENSORHUB_NUM_ALGOS 0, sh_calls = []\<rparr>"

text \<open>Opening: both nodes must open; the error is \<open>errno\<close> as the failed \<open>open\<close> left it.\<close>

definition sensorhub_open :: "int \<Rightarrow> int \<Rightarrow> int \<times> sensorhub_context option" where
  "sensorhub_open control data =
     (if control < 0 then (control, None)
      else if data < 0 then (data, None)
      else (0, Some open_context))"

definition sh_ioctl :: "sh_dev \<Rightarrow> sh_ioctl \<Rightarrow> sensorhub_context \<Rightarrow> int \<times> sensorhub_context" where
  "sh_ioctl dev call c = (let tr = sh_calls c @ [call] in (min 0 (fst (dev tr)), c\<lparr>sh_calls := tr\<rparr>))"

section \<open>Movement\<close>

text \<open>\<open>to_uint\<close> is the conversion of a float to \<open>unsigned int\<close>. For any other type the variable is sent as it is.\<close>

definition sensorhub_enable :: "algo_env \<Rightarrow> ('f \<Rightarrow> 32 word) \<Rightarrow> sh_dev \<Rightarrow> 'f sensorhub_algo \<Rightarrow> sensorhub_context \<Rightarrow> int \<times> sensorhub_context" where
  "sensorhub_enable E to_uint dev a c =
     (let moves = M_MMOVEME E OR M_NOMMOVE E;
          (err, data, c1) =
            (if al_type a = SENSORHUB_ALGO_MOVEMENT
             then if al_enable a \<noteq> 0
                  then
                    let (e1, c1) = sh_ioctl dev (SET_MOTION_DUR (to_uint (al_parameter0 a))) c;
                        (e2, c2) = sh_ioctl dev (SET_ZRMOTION_DUR (to_uint (al_parameter1 a))) c1
                    in (if e2 < 0 then e2 else e1, ucast (active_algos c2 OR moves), c2)
                  else (0, ucast (active_algos c) AND NOT (ucast moves), c)
             else (0, unset_data E, c))
      in if err \<noteq> 0 then (err, c1)
         else
           let (e3, c3) = sh_ioctl dev (SET_ALGOS_32 data) c1
           in if e3 < 0 then (e3, c3) else (0, c3\<lparr>active_algos := ucast data\<rparr>))"

section \<open>Requests\<close>

definition le_bytes :: "16 word \<Rightarrow> 8 word list" where
  "le_bytes w = [ucast w, ucast (drop_bit 8 w)]"

definition le_bytes32 :: "32 word \<Rightarrow> 8 word list" where
  "le_bytes32 w = le_bytes (ucast w) @ le_bytes (ucast (drop_bit 16 w))"

definition three_bytes :: "sensorhub_req \<Rightarrow> 8 word list" where
  "three_bytes r = le_bytes (rq_first r) @ le_bytes (rq_second r) @ le_bytes (rq_third r)"

definition durations_bytes :: "sensorhub_req \<Rightarrow> 8 word list" where
  "durations_bytes r = le_bytes (rq_first r) @ le_bytes (rq_second r)"

text \<open>The length field, from the index \<open>n\<close> into the tables; 8 bits.\<close>

definition algo_req_len :: "16 word \<Rightarrow> 8 word" where
  "algo_req_len algo =
     (if algo = SENSORHUB_ALGO_ACCUM_MVMT then 6
      else if algo = SENSORHUB_ALGO_ACCUM_MODALITY then 6 * num_parts ! unat algo
      else 4 + 4 * num_parts ! unat algo)"

definition algo_req_bytes :: "16 word \<Rightarrow> 32 word \<Rightarrow> sensorhub_req list \<Rightarrow> 8 word list" where
  "algo_req_bytes algo parts reqs =
     le_bytes algo @ [algo_req_len algo]
     @ (if algo = SENSORHUB_ALGO_ACCUM_MVMT then three_bytes (hd reqs)
        else if algo = SENSORHUB_ALGO_ACCUM_MODALITY
        then concat (map three_bytes (take (unat (num_parts ! unat algo)) reqs))
        else le_bytes32 parts @ concat (map durations_bytes (take (unat (num_parts ! unat algo)) reqs)))"

text \<open>The tables have \<open>SENSORHUB_NUM_ALGOS\<close> entries, and the caller must give an element for each part (one for an
  accumulated movement).\<close>

definition parts_given :: "16 word \<Rightarrow> nat" where
  "parts_given algo = (if algo = SENSORHUB_ALGO_ACCUM_MVMT then 1 else unat (num_parts ! unat algo))"

definition wanted_algos :: "algo_env \<Rightarrow> nat \<Rightarrow> 32 word \<Rightarrow> sensorhub_context \<Rightarrow> 16 word" where
  "wanted_algos E n parts c =
     (if active_parts c ! n = 0 \<and> parts \<noteq> 0 then active_algos c OR algo_bits E ! n
      else if active_parts c ! n \<noteq> 0 \<and> parts = 0 then active_algos c AND NOT (algo_bits E ! n)
      else active_algos c)"

definition sensorhub_algo_req :: "algo_env \<Rightarrow> sh_dev \<Rightarrow> 16 word \<Rightarrow> 32 word \<Rightarrow> sensorhub_req list \<Rightarrow> sensorhub_context \<Rightarrow>
    (int \<times> sensorhub_context) option" where
  "sensorhub_algo_req E dev algo parts reqs c =
     (if unat algo \<ge> SENSORHUB_NUM_ALGOS then None
      else if length reqs < parts_given algo then None
      else
        let algos = wanted_algos E (unat algo) parts c;
            (e1, c1) = sh_ioctl dev (SET_ALGO_REQ (algo_req_bytes algo parts reqs)) c
        in if e1 < 0 then Some (e1, c1)
           else
             let c2 = c1\<lparr>active_parts := (active_parts c1)[unat algo := parts]\<rparr>;
                 (e2, c3) = sh_ioctl dev (SET_ALGOS_16 algos) c2
             in Some (if e2 < 0 then (e2, c3) else (0, c3\<lparr>active_algos := algos\<rparr>)))"

section \<open>Queries\<close>

text \<open>What the driver stores goes over the buffer, which starts with the algorithm.\<close>

definition answer_bytes :: "8 word list \<Rightarrow> 8 word list \<Rightarrow> 8 word list" where
  "answer_bytes new old = take (length old) new @ drop (length new) old"

definition two_bytes :: "8 word list \<Rightarrow> nat \<Rightarrow> 32 word" where
  "two_bytes bs i = push_bit 8 (ucast (bs ! (i + 1))) OR ucast (bs ! i)"

definition sensorhub_algo_query :: "algo_env \<Rightarrow> sh_dev \<Rightarrow> 16 word \<Rightarrow> sensorhub_context \<Rightarrow> sensorhub_event \<Rightarrow>
    (int \<times> sensorhub_event \<times> sensorhub_context) option" where
  "sensorhub_algo_query E dev algo c out =
     (let size = (if algo = SENSORHUB_ALGO_ACCUM_MVMT then EVT_SZ_ACCUM_MVMT E else EVT_SZ_TRANSITION E);
          bytes = le_bytes algo @ map (unset_bytes E) [0..<size];
          (e, c1) = sh_ioctl dev (GET_ALGO_EVT bytes) c;
          evt = drop 2 (answer_bytes (snd (dev (sh_calls c1))) bytes);
          out1 = out\<lparr>se_time := 0, se_ertime := 0\<rparr>
      in if e < 0 then Some (e, out, c1)
         else if algo = SENSORHUB_ALGO_ACCUM_MVMT
         then if length evt < 4 then None
              else Some (0, out1\<lparr>se_type := SENSORHUB_EVENT_ACCUM_MVMT, se_union := Accum_Mvmt (two_bytes evt 0) (two_bytes evt 2)\<rparr>, c1)
         else if length evt < 5 then None
         else Some (0, out1\<lparr>se_type := SENSORHUB_EVENT_TRANSITION,
                se_union := Transition algo (evt ! 0 AND 0x80 \<noteq> 0) (evt ! 0 AND 0x7F) (two_bytes evt 1) (two_bytes evt 3)\<rparr>, c1))"

section \<open>Events\<close>

datatype sh_data_type = DT_MMMOVE | DT_NOMOVE | DT_ALGO_EVT | DT_GENERIC_INT | DT_RESET | DT_UNKNOWN

text \<open>\<open>poll\<close> is tried again when it was interrupted. The answers of the system are a list; when it ends, the call waits.\<close>

fun wait_events :: "int list \<Rightarrow> int option" where
  "wait_events [] = None"
| "wait_events (r # rs) = (if r \<ge> 0 then Some 0 else if r = - EINTR then wait_events rs else Some r)"

definition STMLE16TOH :: "8 word list \<Rightarrow> nat \<Rightarrow> 16 word" where
  "STMLE16TOH bs i = push_bit 8 (ucast (bs ! (i + 1))) OR ucast (bs ! i)"

text \<open>A message of type \<open>DT_ALGO_EVT\<close>; \<open>wall\<close> and \<open>elapsed\<close> are the clocks. The numbers are signed 16-bit numbers
  stored in unsigned 32-bit members.\<close>

definition algo_event :: "int \<Rightarrow> int \<Rightarrow> 8 word list \<Rightarrow> sensorhub_event \<Rightarrow> sensorhub_event" where
  "algo_event wall elapsed bs ev =
     (let algo = ucast (bs ! 7) :: 16 word;
          ev1 = ev\<lparr>se_time := wall, se_ertime := (if elapsed > 0 then elapsed else 0)\<rparr>
      in if algo = SENSORHUB_ALGO_ACCUM_MVMT
         then ev1\<lparr>se_type := SENSORHUB_EVENT_ACCUM_MVMT,
                se_union := Accum_Mvmt (scast (STMLE16TOH bs 1)) (scast (STMLE16TOH bs 3))\<rparr>
         else if algo = SENSORHUB_ALGO_ACCUM_MODALITY
         then ev1\<lparr>se_type := SENSORHUB_EVENT_ACCUM_STATE, se_union := Accum_State algo (STMLE16TOH bs 0)\<rparr>
         else
           let ms = sint (STMLE16TOH bs 5) * 1000
           in ev1\<lparr>se_type := SENSORHUB_EVENT_TRANSITION, se_time := wall - ms,
                se_ertime := (if se_ertime ev1 > 0 then se_ertime ev1 - ms else se_ertime ev1),
                se_union := Transition algo (bs ! 0 AND 0x80 \<noteq> 0) (bs ! 0 AND 0x7F)
                  (scast (STMLE16TOH bs 1)) (scast (STMLE16TOH bs 3))\<rparr>)"

text \<open>\<open>generic\<close>: whether the generic interrupt is reported, as in the copy of \<open>motosh_hal\<close>.\<close>

definition sh_message :: "bool \<Rightarrow> int \<Rightarrow> int \<Rightarrow> sh_data_type \<Rightarrow> 8 word list \<Rightarrow> sensorhub_event \<Rightarrow> int \<times> sensorhub_event" where
  "sh_message generic wall elapsed ty bs ev =
     (case ty of
        DT_MMMOVE \<Rightarrow> (1, ev\<lparr>se_type := SENSORHUB_EVENT_START_MOVEMENT, se_union := Value_2 (unat (drop_bit 4 (bs ! 0)))\<rparr>)
      | DT_NOMOVE \<Rightarrow> (1, ev\<lparr>se_type := SENSORHUB_EVENT_END_MOVEMENT, se_union := Value_2 (unat (drop_bit 4 (bs ! 0)))\<rparr>)
      | DT_ALGO_EVT \<Rightarrow> (1, algo_event wall elapsed bs ev)
      | DT_GENERIC_INT \<Rightarrow>
          if generic then (1, ev\<lparr>se_type := SENSORHUB_EVENT_GENERIC_CB, se_time := wall, se_ertime := uint (bs ! 0)\<rparr>)
          else (0, ev)
      | DT_RESET \<Rightarrow> (1, ev\<lparr>se_type := SENSORHUB_EVENT_RESET, se_time := wall\<rparr>)
      | DT_UNKNOWN \<Rightarrow> (1, ev))"

text \<open>\<open>ret\<close> is the result of \<open>read\<close>, and \<open>ty\<close> and \<open>bs\<close> are what the buffer holds after it: an error leaves what was
  there. \<open>None\<close> waits for ever.\<close>

definition sensorhub_poll :: "int \<Rightarrow> int \<Rightarrow> int list \<Rightarrow> int \<Rightarrow> sh_data_type \<Rightarrow> 8 word list \<Rightarrow> sensorhub_event \<Rightarrow>
    (int \<times> sensorhub_event) option" where
  "sensorhub_poll wall elapsed polls ret ty bs ev =
     map_option (\<lambda>err. if err < 0 then (err, ev) else if ret = 0 then (0, ev) else sh_message False wall elapsed ty bs ev)
       (wait_events polls)"

definition motosh_poll :: "int \<Rightarrow> int \<Rightarrow> int \<Rightarrow> int \<Rightarrow> sh_data_type \<Rightarrow> 8 word list \<Rightarrow> sensorhub_event \<Rightarrow> int \<times> sensorhub_event" where
  "motosh_poll wall elapsed polled ret ty bs ev =
     (if polled < 0 then (polled, ev) else if ret = 0 then (0, ev) else sh_message True wall elapsed ty bs ev)"

section \<open>The mask follows the requests\<close>

text \<open>The bits of the algorithms and of the movement are apart.\<close>

definition moves_mask :: "algo_env \<Rightarrow> 16 word" where
  "moves_mask E = M_MMOVEME E OR M_NOMMOVE E"

definition bits_apart :: "algo_env \<Rightarrow> bool" where
  "bits_apart E \<longleftrightarrow> (\<forall>i<6. \<forall>j<6. i \<noteq> j \<longrightarrow> algo_bits E ! i AND algo_bits E ! j = 0)
     \<and> (\<forall>i<6. algo_bits E ! i AND moves_mask E = 0)"

definition never_fails :: "sh_dev \<Rightarrow> bool" where
  "never_fails dev \<longleftrightarrow> (\<forall>tr. 0 \<le> fst (dev tr))"

definition algos_match :: "algo_env \<Rightarrow> sensorhub_context \<Rightarrow> bool" where
  "algos_match E c \<longleftrightarrow> length (active_parts c) = 6
     \<and> (\<forall>n<6. active_algos c AND algo_bits E ! n = (if active_parts c ! n \<noteq> 0 then algo_bits E ! n else 0))"

lemma ioctl_ok [simp]: "never_fails dev \<Longrightarrow> fst (sh_ioctl dev call c) = 0"
  by (simp add: sh_ioctl_def never_fails_def Let_def)

lemma ioctl_keeps [simp]:
  "active_algos (snd (sh_ioctl dev call c)) = active_algos c" "active_parts (snd (sh_ioctl dev call c)) = active_parts c"
  by (simp_all add: sh_ioctl_def Let_def)

lemma ioctl_keepsD: "sh_ioctl dev call c = (e, c1) \<Longrightarrow> active_algos c1 = active_algos c \<and> active_parts c1 = active_parts c"
  by (metis ioctl_keeps snd_conv)

lemma mask_or: "((a :: 16 word) OR b) AND d = (a AND d) OR (b AND d)"
  by (rule bit.conj_disj_distrib2)

lemma mask_off_same: "((a :: 16 word) AND NOT b) AND b = 0"
  by (simp add: and.assoc)

lemma mask_off_other: "(b :: 16 word) AND d = 0 \<Longrightarrow> (a AND NOT b) AND d = a AND d"
  by (rule bit_eqI) (auto simp: bit_simps dest: arg_cong [where f = "\<lambda>w. bit w n" for n])

lemma wanted_matches:
  assumes "bits_apart E" and "algos_match E c" and "n < 6" and "k < 6"
  shows "wanted_algos E n parts c AND algo_bits E ! k = (if (active_parts c)[n := parts] ! k \<noteq> 0 then algo_bits E ! k else 0)"
proof -
  have m: "active_algos c AND algo_bits E ! k = (if active_parts c ! k \<noteq> 0 then algo_bits E ! k else 0)" "length (active_parts c) = 6"
    using assms(2,4) by (simp_all add: algos_match_def)
  show ?thesis
  proof (cases "k = n")
    case True
    with m assms(3) show ?thesis by (simp add: wanted_algos_def mask_or mask_off_same)
  next
    case False
    then have "algo_bits E ! n AND algo_bits E ! k = 0" using assms(1,3,4) by (auto simp: bits_apart_def)
    with False m show ?thesis by (simp add: wanted_algos_def mask_or mask_off_other)
  qed
qed

text \<open>The calls: requests within the tables, with elements for the parts, and switches of the movement.\<close>

datatype 'f sh_call = Sh_Req "16 word" "32 word" "sensorhub_req list" | Sh_Enable "'f sensorhub_algo"

fun sh_do :: "algo_env \<Rightarrow> ('f \<Rightarrow> 32 word) \<Rightarrow> sh_dev \<Rightarrow> 'f sh_call \<Rightarrow> sensorhub_context \<Rightarrow> sensorhub_context option" where
  "sh_do E to_uint dev (Sh_Req algo parts reqs) c = map_option snd (sensorhub_algo_req E dev algo parts reqs c)"
| "sh_do E to_uint dev (Sh_Enable a) c = Some (snd (sensorhub_enable E to_uint dev a c))"

fun sh_run :: "algo_env \<Rightarrow> ('f \<Rightarrow> 32 word) \<Rightarrow> sh_dev \<Rightarrow> 'f sh_call list \<Rightarrow> sensorhub_context \<Rightarrow> sensorhub_context option" where
  "sh_run E to_uint dev [] c = Some c"
| "sh_run E to_uint dev (x # xs) c = (case sh_do E to_uint dev x c of None \<Rightarrow> None | Some c1 \<Rightarrow> sh_run E to_uint dev xs c1)"

fun sh_call_ok :: "'f sh_call \<Rightarrow> bool" where
  "sh_call_ok (Sh_Req algo parts reqs) \<longleftrightarrow> unat algo < 6 \<and> parts_given algo \<le> length reqs"
| "sh_call_ok (Sh_Enable a) \<longleftrightarrow> al_type a = SENSORHUB_ALGO_MOVEMENT"

lemma algo_req_ok:
  assumes "never_fails dev" and "unat algo < 6" and "parts_given algo \<le> length reqs"
  shows "\<exists>c'. sensorhub_algo_req E dev algo parts reqs c = Some (0, c')
    \<and> active_algos c' = wanted_algos E (unat algo) parts c \<and> active_parts c' = (active_parts c)[unat algo := parts]"
  using assms by (simp add: sensorhub_algo_req_def SENSORHUB_NUM_ALGOS_def Let_def case_prod_beta)

lemma enable_movement:
  assumes "never_fails dev" and "al_type a = SENSORHUB_ALGO_MOVEMENT"
  shows "fst (sensorhub_enable E to_uint dev a c) = 0" "active_parts (snd (sensorhub_enable E to_uint dev a c)) = active_parts c"
    "active_algos (snd (sensorhub_enable E to_uint dev a c))
       = (if al_enable a \<noteq> 0 then active_algos c OR moves_mask E else active_algos c AND NOT (moves_mask E))"
proof -
  have narrow: "ucast (ucast (w :: 16 word) :: 32 word) = w" "ucast ((ucast w :: 32 word) AND NOT (ucast v)) = w AND NOT (v :: 16 word)" for w v :: "16 word"
    by (rule bit_eqI; auto simp: bit_simps)+
  show "fst (sensorhub_enable E to_uint dev a c) = 0" "active_parts (snd (sensorhub_enable E to_uint dev a c)) = active_parts c"
    "active_algos (snd (sensorhub_enable E to_uint dev a c))
       = (if al_enable a \<noteq> 0 then active_algos c OR moves_mask E else active_algos c AND NOT (moves_mask E))"
    using assms by (simp_all add: sensorhub_enable_def Let_def case_prod_beta narrow moves_mask_def)
qed

lemma moves_apart:
  assumes "bits_apart E" and "algos_match E c" and "active_parts c' = active_parts c"
    and "active_algos c' = active_algos c OR moves_mask E \<or> active_algos c' = active_algos c AND NOT (moves_mask E)"
  shows "algos_match E c'"
proof -
  have "moves_mask E AND algo_bits E ! n = 0" if "n < 6" for n
    using assms(1) that by (simp add: bits_apart_def and.commute)
  then have "active_algos c' AND algo_bits E ! n = active_algos c AND algo_bits E ! n" if "n < 6" for n
    using assms(4) that by (auto simp: mask_or mask_off_other)
  with assms(2,3) show ?thesis by (simp add: algos_match_def)
qed

text \<open>What the calls ask for, read off the calls alone: the parts last asked of each algorithm, and whether the movement was
  last switched on.\<close>

definition parts_asked :: "'f sh_call list \<Rightarrow> nat \<Rightarrow> 32 word" where
  "parts_asked calls = fold (\<lambda>x f. case x of Sh_Req algo parts reqs \<Rightarrow> f(unat algo := parts) | Sh_Enable a \<Rightarrow> f) calls (\<lambda>_. 0)"

definition movement_asked :: "'f sh_call list \<Rightarrow> bool" where
  "movement_asked calls = fold (\<lambda>x b. case x of Sh_Req algo parts reqs \<Rightarrow> b | Sh_Enable a \<Rightarrow> al_enable a \<noteq> 0) calls False"

text \<open>The mask the hub has after a trace of calls of the driver: the one of the last \<open>SET_ALGOS\<close>, of which it takes 16
  bits, or nothing when there is none.\<close>

definition algos_step :: "sh_ioctl \<Rightarrow> 16 word \<Rightarrow> 16 word" where
  "algos_step r w = (case r of SET_ALGOS_32 w' \<Rightarrow> ucast w' | SET_ALGOS_16 w' \<Rightarrow> w' | _ \<Rightarrow> w)"

definition algos_sent :: "sh_ioctl list \<Rightarrow> 16 word" where
  "algos_sent tr = fold algos_step tr 0"

lemma algos_sent_snoc [simp]: "algos_sent (tr @ [r]) = algos_step r (algos_sent tr)" "algos_sent (tr @ [q, r]) = algos_step r (algos_step q (algos_sent tr))"
  "algos_sent [] = 0"
  by (simp_all add: algos_sent_def)

lemma ioctl_trace [simp]: "sh_calls (snd (sh_ioctl dev call c)) = sh_calls c @ [call]"
  by (simp add: sh_ioctl_def Let_def)

definition algos_inv :: "algo_env \<Rightarrow> (nat \<Rightarrow> 32 word) \<Rightarrow> bool \<Rightarrow> sensorhub_context \<Rightarrow> bool" where
  "algos_inv E f mv c \<longleftrightarrow> algos_match E c \<and> (\<forall>n<6. active_parts c ! n = f n)
     \<and> active_algos c AND moves_mask E = (if mv then moves_mask E else 0) \<and> algos_sent (sh_calls c) = active_algos c"

lemma algo_req_sent:
  assumes "never_fails dev" and "sensorhub_algo_req E dev algo parts reqs c = Some (0, c')"
  shows "algos_sent (sh_calls c') = active_algos c'"
  using assms by (auto simp: sensorhub_algo_req_def Let_def case_prod_beta algos_step_def split: if_splits)

lemma narrow_or: "ucast (ucast (w :: 16 word) :: 32 word) = w" "ucast ((ucast w :: 32 word) AND NOT (ucast v)) = w AND NOT (v :: 16 word)"
  by (rule bit_eqI; auto simp: bit_simps)+

lemma enable_sent:
  assumes "never_fails dev" and "al_type a = SENSORHUB_ALGO_MOVEMENT"
  shows "algos_sent (sh_calls (snd (sensorhub_enable E to_uint dev a c))) = active_algos (snd (sensorhub_enable E to_uint dev a c))"
  using assms by (simp add: sensorhub_enable_def Let_def case_prod_beta algos_step_def)

lemma wanted_keeps_moves:
  assumes "bits_apart E" and "n < 6"
  shows "wanted_algos E n parts c AND moves_mask E = active_algos c AND moves_mask E"
  using assms by (simp add: wanted_algos_def mask_or mask_off_other bits_apart_def)

lemma sh_req_inv:
  assumes "never_fails dev" and "bits_apart E" and "algos_inv E f mv c" and k: "unat algo < 6" "parts_given algo \<le> length reqs"
  shows "\<exists>c'. sensorhub_algo_req E dev algo parts reqs c = Some (0, c') \<and> algos_inv E (f(unat algo := parts)) mv c'"
proof -
  have inv: "algos_match E c" "\<forall>n<6. active_parts c ! n = f n" "active_algos c AND moves_mask E = (if mv then moves_mask E else 0)"
    using assms(3) by (simp_all add: algos_inv_def)
  from algo_req_ok [OF assms(1) k, of E parts c] obtain c' where c': "sensorhub_algo_req E dev algo parts reqs c = Some (0, c')"
    "active_algos c' = wanted_algos E (unat algo) parts c" "active_parts c' = (active_parts c)[unat algo := parts]" by blast
  have len: "length (active_parts c) = 6" using inv(1) by (simp add: algos_match_def)
  have "algos_match E c'" using wanted_matches [OF assms(2) inv(1) k(1)] c'(2,3) len by (simp add: algos_match_def)
  moreover have "active_parts c' ! n = (f(unat algo := parts)) n" if "n < 6" for n
    using inv(2) len that by (simp add: c'(3) nth_list_update)
  moreover have "active_algos c' AND moves_mask E = (if mv then moves_mask E else 0)"
    using inv(3) wanted_keeps_moves [OF assms(2) k(1)] by (simp add: c'(2))
  ultimately show ?thesis using c'(1) algo_req_sent [OF assms(1) c'(1)] by (simp add: algos_inv_def)
qed

lemma sh_enable_inv:
  assumes "never_fails dev" and "bits_apart E" and "algos_inv E f mv c" and a: "al_type a = SENSORHUB_ALGO_MOVEMENT"
  shows "algos_inv E f (al_enable a \<noteq> 0) (snd (sensorhub_enable E to_uint dev a c))"
proof -
  have inv: "algos_match E c" "\<forall>n<6. active_parts c ! n = f n" using assms(3) by (simp_all add: algos_inv_def)
  note e = enable_movement [OF assms(1) a, of E to_uint c]
  have "algos_match E (snd (sensorhub_enable E to_uint dev a c))" by (rule moves_apart [OF assms(2) inv(1) e(2)]) (simp add: e(3))
  then show ?thesis using inv(2) e(2,3) enable_sent [OF assms(1) a] by (simp add: algos_inv_def mask_or mask_off_same)
qed

lemma sh_run_inv:
  assumes "never_fails dev" and "bits_apart E" and "\<forall>x\<in>set calls. sh_call_ok x"
  shows "\<exists>c. sh_run E to_uint dev calls open_context = Some c \<and> algos_inv E (parts_asked calls) (movement_asked calls) c"
proof -
  have run: "\<exists>c. sh_run E to_uint dev xs c0 = Some c
      \<and> algos_inv E (fold (\<lambda>x f. case x of Sh_Req algo parts reqs \<Rightarrow> f(unat algo := parts) | Sh_Enable a \<Rightarrow> f) xs f)
          (fold (\<lambda>x b. case x of Sh_Req algo parts reqs \<Rightarrow> b | Sh_Enable a \<Rightarrow> al_enable a \<noteq> 0) xs mv) c"
    if "algos_inv E f mv c0" and "\<forall>x\<in>set xs. sh_call_ok x" for xs f mv c0
    using that
  proof (induction xs arbitrary: c0 f mv)
    case (Cons x xs)
    show ?case
    proof (cases x)
      case (Sh_Req algo parts reqs)
      with Cons.prems(2) have "unat algo < 6" "parts_given algo \<le> length reqs" by simp_all
      from sh_req_inv [OF assms(1,2) Cons.prems(1) this, of parts] obtain c1 where
        c1: "sensorhub_algo_req E dev algo parts reqs c0 = Some (0, c1)" "algos_inv E (f(unat algo := parts)) mv c1" by blast
      from Cons.IH [OF c1(2)] Cons.prems(2) c1(1) Sh_Req show ?thesis by (simp add: fun_upd_def)
    next
      case (Sh_Enable a)
      with Cons.prems(2) have a: "al_type a = SENSORHUB_ALGO_MOVEMENT" by simp
      from Cons.IH [OF sh_enable_inv [OF assms(1,2) Cons.prems(1) a, of to_uint]] Cons.prems(2) Sh_Enable show ?thesis by simp
    qed
  qed simp
  have "algos_inv E (\<lambda>_. 0) False open_context"
    by (simp add: algos_inv_def algos_match_def open_context_def SENSORHUB_NUM_ALGOS_def)
  from run [OF this assms(3)] show ?thesis by (simp only: parts_asked_def movement_asked_def)
qed

text \<open>C11: over any requests within the tables (the algorithms 0 to 5, not the numbers the interface defines) and switches of
  the movement, on a driver that accepts every call, all of them return, and in the mask last sent to the hub (nothing when none was sent) the bit of an algorithm is set exactly when
  the last request for it asks for some part, and the bits of the movement exactly when it was last switched on.\<close>

theorem algo_mask_follows_parts:
  assumes "never_fails dev" and "bits_apart E" and "\<forall>x\<in>set calls. sh_call_ok x"
  shows "\<exists>c. sh_run E to_uint dev calls open_context = Some c
    \<and> (\<forall>n<6. algos_sent (sh_calls c) AND algo_bits E ! n = (if parts_asked calls n \<noteq> 0 then algo_bits E ! n else 0))
    \<and> algos_sent (sh_calls c) AND moves_mask E = (if movement_asked calls then moves_mask E else 0)"
proof -
  from sh_run_inv [OF assms, of to_uint] obtain c where
    "sh_run E to_uint dev calls open_context = Some c" "algos_inv E (parts_asked calls) (movement_asked calls) c" by blast
  then show ?thesis by (auto simp: algos_inv_def algos_match_def)
qed

definition sample_algo_env :: algo_env where
  "sample_algo_env = \<lparr>M_ALGO_MODALITY = 1, M_ALGO_ORIENTATION = 2, M_ALGO_STOWED = 4, M_ALGO_ACCUM_MODALITY = 8,
     M_ALGO_ACCUM_MVMT = 16, M_MMOVEME = 32, M_NOMMOVE = 64, EVT_SZ_ACCUM_MVMT = 4, EVT_SZ_TRANSITION = 5, unset_data = 0,
     unset_bytes = (\<lambda>_. 0)\<rparr>"

definition zero_req :: sensorhub_req where
  "zero_req = \<lparr>rq_first = 7, rq_second = 0x1234, rq_third = 0, req_time_ms = 0\<rparr>"

lemma below_six: "(\<forall>i<6. P i) \<longleftrightarrow> P 0 \<and> P 1 \<and> P 2 \<and> P 3 \<and> P 4 \<and> P (5 :: nat)"
  by (simp add: numeral_eq_Suc All_less_Suc conj_comms)

lemma sample_apart: "bits_apart sample_algo_env"
  by (simp add: bits_apart_def below_six algo_bits_def sample_algo_env_def moves_mask_def)

theorem algo_mask_follows_parts_witness:
  "\<exists>c. sh_run sample_algo_env (\<lambda>x. word_of_nat x) (\<lambda>_. (0, [])) [Sh_Req 0 5 (replicate 6 zero_req),
       Sh_Enable \<lparr>al_type = 5, al_enable = 1, al_parameter0 = 1, al_parameter1 = 2\<rparr>, Sh_Req 2 1 (replicate 3 zero_req),
       Sh_Req 0 0 (replicate 6 zero_req)] open_context = Some c
     \<and> algos_sent (sh_calls c) AND 1 = 0 \<and> algos_sent (sh_calls c) AND 4 = 4 \<and> algos_sent (sh_calls c) AND 96 = 96"
proof -
  let ?calls = "[Sh_Req 0 5 (replicate 6 zero_req),
       Sh_Enable \<lparr>al_type = 5, al_enable = 1, al_parameter0 = 1, al_parameter1 = 2\<rparr>, Sh_Req 2 1 (replicate 3 zero_req),
       Sh_Req 0 0 (replicate 6 zero_req)]"
  have "\<forall>x\<in>set ?calls. sh_call_ok x"
    by (simp add: parts_given_def num_parts_def SENSORHUB_NUM_MODALITIES_def SENSORHUB_NUM_STOWED_def
      SENSORHUB_ALGO_ACCUM_MVMT_def SENSORHUB_ALGO_MOVEMENT_def)
  from algo_mask_follows_parts [OF _ sample_apart this, of "\<lambda>_. (0, [])" "\<lambda>x. word_of_nat x"]
  show ?thesis
    by (auto simp: never_fails_def parts_asked_def movement_asked_def below_six algo_bits_def sample_algo_env_def moves_mask_def)
qed

section \<open>A switch that failed\<close>

text \<open>The same request again, with any parts wanted, answered by a driver that accepts it.\<close>

fun requests :: "algo_env \<Rightarrow> sh_dev \<Rightarrow> 16 word \<Rightarrow> (32 word \<times> sensorhub_req list) list \<Rightarrow> sensorhub_context \<Rightarrow>
    (int list \<times> sensorhub_context) option" where
  "requests E dev algo [] c = Some ([], c)"
| "requests E dev algo ((parts, reqs) # later) c =
     (case sensorhub_algo_req E dev algo parts reqs c of
        None \<Rightarrow> None
      | Some (r, c1) \<Rightarrow> map_option (\<lambda>(rs, c2). (r # rs, c2)) (requests E dev algo later c1))"

lemma requests_stay_off:
  assumes "never_fails dev" and "unat algo < 6" and "\<forall>(parts, reqs)\<in>set later. parts \<noteq> 0 \<and> parts_given algo \<le> length reqs"
    and "length (active_parts c) = 6" and "active_parts c ! unat algo \<noteq> 0"
  shows "\<exists>c'. requests E dev algo later c = Some (replicate (length later) 0, c') \<and> active_algos c' = active_algos c"
  using assms(3-5)
proof (induction later arbitrary: c)
  case (Cons x later)
  obtain parts reqs where x: "x = (parts, reqs)" by (cases x)
  with Cons.prems(1) have p: "parts \<noteq> 0" "parts_given algo \<le> length reqs" by auto
  from algo_req_ok [OF assms(1,2) p(2), of E parts c] obtain c1 where c1: "sensorhub_algo_req E dev algo parts reqs c = Some (0, c1)"
    "active_algos c1 = wanted_algos E (unat algo) parts c" "active_parts c1 = (active_parts c)[unat algo := parts]" by blast
  have "active_algos c1 = active_algos c" using c1(2) Cons.prems(3) p(1) by (simp add: wanted_algos_def)
  with Cons.IH [of c1] Cons.prems(1,2) c1(1,3) assms(2) p(1) x show ?case by auto
qed simp

text \<open>A request that switches an algorithm on and is accepted, but whose mask the driver then refuses, is never made up
  for: every later request for it is answered with 0 while its bit stays out of the mask.\<close>

theorem refused_mask_is_lost:
  assumes "sensorhub_algo_req E dev algo parts reqs c = Some (e, c1)" and "e < 0" and "active_parts c1 ! unat algo \<noteq> 0"
    and "active_algos c AND algo_bits E ! unat algo = 0" and "length (active_parts c) = 6"
    and "never_fails dev'" and "\<forall>(parts, reqs)\<in>set later. parts \<noteq> 0 \<and> parts_given algo \<le> length reqs"
  shows "\<exists>c2. requests E dev' algo later c1 = Some (replicate (length later) 0, c2) \<and> active_algos c2 AND algo_bits E ! unat algo = 0"
proof -
  have n: "unat algo < 6" using assms(1) by (auto simp: sensorhub_algo_req_def SENSORHUB_NUM_ALGOS_def split: if_splits)
  have "active_algos c1 = active_algos c \<and> length (active_parts c1) = 6"
    using assms(1,2,5) by (auto simp: sensorhub_algo_req_def Let_def case_prod_beta dest!: ioctl_keepsD split: if_splits)
  with requests_stay_off [OF assms(6) n assms(7), of c1 E] assms(3,4) show ?thesis by auto
qed

definition refusing :: sh_dev where
  "refusing tr = (case last tr of SET_ALGOS_16 w \<Rightarrow> (- 5, []) | _ \<Rightarrow> (0, []))"

definition refused_context :: sensorhub_context where
  "refused_context = snd (the (sensorhub_algo_req sample_algo_env refusing 2 1 (replicate 3 zero_req) open_context))"

lemma refused_once:
  "sensorhub_algo_req sample_algo_env refusing 2 1 (replicate 3 zero_req) open_context = Some (- 5, refused_context)
   \<and> active_parts refused_context ! 2 = 1"
  by (simp add: refused_context_def sensorhub_algo_req_def SENSORHUB_NUM_ALGOS_def parts_given_def num_parts_def
      SENSORHUB_NUM_STOWED_def SENSORHUB_ALGO_ACCUM_MVMT_def sh_ioctl_def refusing_def open_context_def)

theorem refused_mask_is_lost_witness:
  "\<exists>c2. requests sample_algo_env (\<lambda>_. (0, [])) 2 [(1, replicate 3 zero_req), (3, replicate 3 zero_req)] refused_context = Some ([0, 0], c2)
     \<and> active_algos c2 AND 4 = 0"
  using refused_mask_is_lost [OF refused_once [THEN conjunct1], of "\<lambda>_. (0, [])" "[(1, replicate 3 zero_req), (3, replicate 3 zero_req)]"]
    refused_once [THEN conjunct2]
  by (simp add: never_fails_def open_context_def SENSORHUB_NUM_ALGOS_def parts_given_def num_parts_def SENSORHUB_NUM_STOWED_def
      SENSORHUB_ALGO_ACCUM_MVMT_def algo_bits_def sample_algo_env_def)

section \<open>The bytes of a request\<close>

definition le_number :: "8 word \<Rightarrow> 8 word \<Rightarrow> 16 word" where
  "le_number lo hi = push_bit 8 (ucast hi) OR ucast lo"

lemma le_number_bytes [simp]: "le_number (ucast w) (ucast (drop_bit 8 w)) = w"
  unfolding le_number_def by (rule bit_eqI) (auto simp: bit_simps)

text \<open>What the hub makes of a request: the algorithm, the length, the mask of the parts and two durations for each.\<close>

fun read_durations :: "8 word list \<Rightarrow> (16 word \<times> 16 word) list option" where
  "read_durations [] = Some []"
| "read_durations (a # b # c # d # bs) = map_option (\<lambda>ds. (le_number a b, le_number c d) # ds) (read_durations bs)"
| "read_durations _ = None"

fun read_request :: "8 word list \<Rightarrow> (16 word \<times> 32 word \<times> (16 word \<times> 16 word) list) option" where
  "read_request (a # b # len # p0 # p1 # p2 # p3 # bs) =
     (if unat len = 4 + length bs
      then map_option (\<lambda>ds. (le_number a b, push_bit 16 (ucast (le_number p2 p3)) OR ucast (le_number p0 p1), ds)) (read_durations bs)
      else None)"
| "read_request _ = None"

lemma read_durations_bytes:
  "read_durations (concat (map durations_bytes rs)) = Some (map (\<lambda>r. (rq_first r, rq_second r)) rs)"
  by (induction rs) (simp_all add: durations_bytes_def le_bytes_def)

lemma durations_length: "length (concat (map durations_bytes rs)) = 4 * length rs"
  by (induction rs) (simp_all add: durations_bytes_def le_bytes_def)

lemma halves: "push_bit 16 (ucast (ucast (drop_bit 16 w) :: 16 word)) OR ucast (ucast w :: 16 word) = (w :: 32 word)"
  by (rule bit_eqI) (auto simp: bit_simps)

lemma table_length:
  assumes "n < 6"
  shows "unat (4 + 4 * num_parts ! n) = 4 + 4 * unat (num_parts ! n)"
proof -
  have "\<forall>n<6. unat (4 + 4 * num_parts ! n) = 4 + 4 * unat (num_parts ! n)"
    by (simp add: below_six num_parts_def SENSORHUB_NUM_MODALITIES_def SENSORHUB_NUM_ORIENTATIONS_def SENSORHUB_NUM_STOWED_def
        SENSORHUB_NUM_ACCUM_REQS_def)
  with assms show ?thesis by blast
qed

text \<open>The bytes sent for a request within the tables are read back as the algorithm, the parts and the durations of each
  part, and their 8-bit length field counts what follows it.\<close>

theorem algo_request_roundtrip:
  assumes "unat algo < 6" and "parts_given algo \<le> length reqs"
  shows "read_request (algo_req_bytes algo parts reqs)
    = Some (algo, parts, map (\<lambda>r. (rq_first r, rq_second r)) (take (parts_given algo) reqs))"
proof -
  have a: "algo \<noteq> SENSORHUB_ALGO_ACCUM_MVMT" "algo \<noteq> SENSORHUB_ALGO_ACCUM_MODALITY"
    using assms(1) by (auto simp: SENSORHUB_ALGO_ACCUM_MVMT_def SENSORHUB_ALGO_ACCUM_MODALITY_def)
  then have g: "parts_given algo = unat (num_parts ! unat algo)" by (simp add: parts_given_def)
  have len: "unat (algo_req_len algo) = 4 + 4 * parts_given algo" using a g table_length [OF assms(1)] by (simp add: algo_req_len_def)
  have "length (concat (map durations_bytes (take (parts_given algo) reqs))) = 4 * parts_given algo"
    using assms(2) by (simp only: durations_length) simp
  with a len show ?thesis
    by (simp add: algo_req_bytes_def g [symmetric] le_bytes_def [of algo] le_bytes32_def le_bytes_def [of "ucast x" for x]
        read_durations_bytes halves del: length_concat)
qed

theorem algo_request_roundtrip_witness:
  "read_request (algo_req_bytes 2 1 (replicate 3 zero_req)) = Some (2, 1, replicate 3 (7, 0x1234))"
  using algo_request_roundtrip [of 2 "replicate 3 zero_req" 1]
  by (simp add: parts_given_def num_parts_def SENSORHUB_NUM_STOWED_def SENSORHUB_ALGO_ACCUM_MVMT_def zero_req_def)

section \<open>Polling and asking\<close>

lemma signed_same:
  "scast (push_bit 8 (ucast hi) OR ucast lo :: 16 word) = (push_bit 8 (ucast hi) OR ucast lo :: 32 word) \<longleftrightarrow> hi AND 0x80 = (0 :: 8 word)"
  for lo :: "8 word"
proof -
  have seven: "hi AND 0x80 = 0 \<longleftrightarrow> \<not> bit hi 7"
    using and_exp_eq_0_iff_not_bit [of hi 7] by simp
  have "bit (scast (push_bit 8 (ucast hi) OR ucast lo :: 16 word) :: 32 word) 20 = bit hi 7"
    using bit_imp_le_length [of lo 15] by (auto simp: bit_simps)
  moreover have "\<not> bit (push_bit 8 (ucast hi) OR ucast lo :: 32 word) 20"
    using bit_imp_le_length [of lo 20] bit_imp_le_length [of hi 12] by (auto simp: bit_simps)
  moreover have "scast (push_bit 8 (ucast hi) OR ucast lo :: 16 word) = (push_bit 8 (ucast hi) OR ucast lo :: 32 word)" if "\<not> bit hi 7"
  proof (rule bit_eqI)
    fix n
    have "\<not> bit lo n" if "8 \<le> n" using that bit_imp_le_length [of lo n] by auto
    moreover have "\<not> bit hi (n - 8)" if "15 \<le> n" using that \<open>\<not> bit hi 7\<close> bit_imp_le_length [of hi "n - 8"] by (cases "n = 15") auto
    moreover have "\<not> bit lo 15" using bit_imp_le_length [of lo 15] by auto
    ultimately show "bit (scast (push_bit 8 (ucast hi) OR ucast lo :: 16 word) :: 32 word) n = bit (push_bit 8 (ucast hi) OR ucast lo :: 32 word) n"
      using that by (cases "n < 15") (auto simp: bit_simps min_def)
  qed
  ultimately show ?thesis using seven by metis
qed

text \<open>A transition asked for and the same transition reported by the hub, byte for byte, agree on the states exactly
  when neither state has its highest bit set: the report extends the sign, the query does not.\<close>

theorem report_and_query_agree:
  assumes "length evt = 5" and "EVT_SZ_TRANSITION E = 5" and "\<And>tr. dev tr = (0, le_bytes algo @ evt)"
    and "algo \<noteq> SENSORHUB_ALGO_ACCUM_MVMT" and "algo \<noteq> SENSORHUB_ALGO_ACCUM_MODALITY" and "algo < 256"
  shows "\<exists>q c'. sensorhub_algo_query E dev algo c ev = Some (0, q, c')
    \<and> (se_union (snd (sh_message generic wall elapsed DT_ALGO_EVT (evt @ [ms0, ms1, ucast algo]) ev0)) = se_union q
       \<longleftrightarrow> evt ! 2 AND 0x80 = 0 \<and> evt ! 4 AND 0x80 = 0)"
proof -
  obtain a b c1 d e where evt: "evt = [a, b, c1, d, e]"
    using assms(1) by (auto simp: length_Suc_conv numeral_eq_Suc)
  have back_algo: "ucast (ucast algo :: 8 word) = algo"
  proof -
    have "ucast (ucast algo :: 8 word) = take_bit 8 algo" by (rule bit_eqI) (auto simp: bit_simps)
    also have "\<dots> = algo" using assms(6) by (simp add: take_bit_eq_mod word_mod_def word_less_def)
    finally show ?thesis .
  qed
  have q: "sensorhub_algo_query E dev algo c ev = Some (0, ev\<lparr>se_time := 0, se_ertime := 0, se_type := SENSORHUB_EVENT_TRANSITION,
      se_union := Transition algo (a AND 0x80 \<noteq> 0) (a AND 0x7F) (two_bytes evt 1) (two_bytes evt 3)\<rparr>,
      snd (sh_ioctl dev (GET_ALGO_EVT (le_bytes algo @ map (unset_bytes E) [0..<5])) c))"
    using assms by (simp add: sensorhub_algo_query_def sh_ioctl_def Let_def answer_bytes_def le_bytes_def evt)
  have s: "se_union (snd (sh_message generic wall elapsed DT_ALGO_EVT (evt @ [ms0, ms1, ucast algo]) ev0))
      = Transition algo (a AND 0x80 \<noteq> 0) (a AND 0x7F) (scast (STMLE16TOH evt 1)) (scast (STMLE16TOH evt 3))"
    using assms(4,5) by (simp add: sh_message_def algo_event_def Let_def evt back_algo STMLE16TOH_def)
  show ?thesis unfolding s using q by (simp add: STMLE16TOH_def two_bytes_def evt signed_same)
qed

theorem report_and_query_agree_witness:
  "\<exists>q c'. sensorhub_algo_query sample_algo_env (\<lambda>_. (0, le_bytes 29 @ [1, 0, 0x80, 0, 0])) 29 open_context
       \<lparr>se_type = SENSORHUB_EVENT_RESET, se_time = 0, se_ertime = 0, se_union = Value_2 0\<rparr> = Some (0, q, c')
     \<and> se_union (snd (sh_message False 9 9 DT_ALGO_EVT [1, 0, 0x80, 0, 0, 0, 0, 29]
         \<lparr>se_type = SENSORHUB_EVENT_RESET, se_time = 0, se_ertime = 0, se_union = Value_2 0\<rparr>)) \<noteq> se_union q"
proof -
  let ?ev = "\<lparr>se_type = SENSORHUB_EVENT_RESET, se_time = 0, se_ertime = 0, se_union = Value_2 0\<rparr>"
  have "\<exists>q c'. sensorhub_algo_query sample_algo_env (\<lambda>_. (0, le_bytes 29 @ [1, 0, 0x80, 0, 0])) 29 open_context ?ev = Some (0, q, c')
    \<and> (se_union (snd (sh_message False 9 9 DT_ALGO_EVT ([1, 0, 0x80, 0, 0] @ [0, 0, ucast (29 :: 16 word)]) ?ev)) = se_union q
       \<longleftrightarrow> [1, 0, 0x80, 0, 0] ! 2 AND 0x80 = (0 :: 8 word) \<and> [1, 0, 0x80, 0, 0] ! 4 AND 0x80 = (0 :: 8 word))"
    by (rule report_and_query_agree) (simp_all add: sample_algo_env_def SENSORHUB_ALGO_ACCUM_MVMT_def SENSORHUB_ALGO_ACCUM_MODALITY_def)
  then show ?thesis by simp
qed

end
