(* ===== verification/Akm_Files.thy ===== *)
theory Akm_Files
  imports C_Text "HOL-Library.Word"
begin

text \<open>
  The parameters of the compass daemon (\<open>AKCompass.h\<close>, the record \<open>AKSCPRMS\<close>) and the files it keeps them in
  (\<open>FileIO.c\<close>): one line \<open>name = number\<close> for each, read back in the same order with \<open>fscanf\<close>.

  The state of the closed calibration library is of the type variables \<open>'hf\<close> (\<open>AKSC_HFLUCVAR\<close>) and \<open>'hd\<close>
  (\<open>AKSC_HDOEVAR\<close>).
\<close>

section \<open>Parameters\<close>

record int16vec =
  vx :: "16 word"
  vy :: "16 word"
  vz :: "16 word"

record int32vec =
  wx :: "32 word"
  wy :: "32 word"
  wz :: "32 word"

definition zero_vec :: int16vec where
  "zero_vec = \<lparr>vx = 0, vy = 0, vz = 0\<rparr>"

definition zero_vec32 :: int32vec where
  "zero_vec32 = \<lparr>wx = 0, wy = 0, wz = 0\<rparr>"

text \<open>The lists have an element for each of the \<open>CSPEC_NUM_FORMATION\<close> formations. \<open>m_pdcptr\<close> is whether the pointer
  is set; \<open>m_hdst\<close> is a level of the library, 0 for an offset that is not determined.\<close>

record ('hf, 'hd) akscprms =
  m_ho :: int16vec
  HSUC_HO :: "int16vec list"
  m_ho32 :: int32vec
  m_hs :: int16vec
  HFLUCV_HREF :: "int16vec list"
  m_hflucv :: 'hf
  m_hdata :: "int16vec list"
  m_hn :: "16 word"
  m_hvec :: int16vec
  m_asa :: int16vec
  m_pdc :: "8 word list"
  m_pdcptr :: bool
  m_hdoev :: 'hd
  m_hdst :: int
  HSUC_HDST :: "int list"
  m_form :: nat
  m_cntSuspend :: int
  m_d6dRet :: int
  m_hnave :: "16 word"
  m_dvec :: int16vec
  m_theta :: "16 word"
  m_delta :: "16 word"
  m_hr :: "16 word"
  m_hrhoriz :: "16 word"
  m_ar :: "16 word"
  m_phi180 :: "16 word"
  m_phi90 :: "16 word"
  m_eta180 :: "16 word"
  m_eta90 :: "16 word"
  m_mat :: "16 word list"
  m_quat :: "16 word list"
  m_AO :: int16vec
  m_avec :: int16vec
  m_hlayout :: nat
  m_callcnt :: int
  m_licenser :: string
  m_licensee :: string
  m_key :: "16 word list"
  m_hbase :: int32vec
  HSUC_HBASE :: "int32vec list"

definition CSPEC_NUM_FORMATION :: nat where "CSPEC_NUM_FORMATION = 1"
definition PDC_SIZE :: nat where "PDC_SIZE = 27"
definition KEYNAME_SIZE :: nat where "KEYNAME_SIZE = 64"
definition HEADER_SIZE :: nat where "HEADER_SIZE = 256"
definition AKSC_HDST_UNSOLVED :: int where "AKSC_HDST_UNSOLVED = 0"

text \<open>\<open>InitAKSCPRMS\<close> and \<open>SetDefaultPRMS\<close> of \<open>Measure.c\<close>. \<open>fluc\<close> and \<open>doe\<close> are the variables of the library
  with all bytes 0.\<close>

definition CSPEC_HNAVE :: "16 word" where "CSPEC_HNAVE = 8"
definition CSPEC_DVEC_X :: "16 word" where "CSPEC_DVEC_X = 0"
definition CSPEC_DVEC_Y :: "16 word" where "CSPEC_DVEC_Y = 0"
definition CSPEC_DVEC_Z :: "16 word" where "CSPEC_DVEC_Z = 0"
definition AKSC_HSENSE_TARGET :: "16 word" where "AKSC_HSENSE_TARGET = 833"
definition AKSC_CI_MAX_KEYSIZE :: nat where "AKSC_CI_MAX_KEYSIZE = 16"
definition AKSC_HDATA_SIZE :: nat where "AKSC_HDATA_SIZE = 32"

definition InitAKSCPRMS :: "'hf \<Rightarrow> 'hd \<Rightarrow> ('hf, 'hd) akscprms" where
  "InitAKSCPRMS fluc doe =
     \<lparr>m_ho = zero_vec, HSUC_HO = replicate CSPEC_NUM_FORMATION zero_vec, m_ho32 = zero_vec32,
      m_hs = \<lparr>vx = AKSC_HSENSE_TARGET, vy = AKSC_HSENSE_TARGET, vz = AKSC_HSENSE_TARGET\<rparr>, HFLUCV_HREF = replicate CSPEC_NUM_FORMATION zero_vec, m_hflucv = fluc,
      m_hdata = replicate AKSC_HDATA_SIZE zero_vec, m_hn = 0, m_hvec = zero_vec, m_asa = zero_vec,
      m_pdc = replicate PDC_SIZE 0, m_pdcptr = False, m_hdoev = doe, m_hdst = AKSC_HDST_UNSOLVED,
      HSUC_HDST = replicate CSPEC_NUM_FORMATION 0, m_form = 0, m_cntSuspend = 0, m_d6dRet = 0, m_hnave = CSPEC_HNAVE,
      m_dvec = \<lparr>vx = CSPEC_DVEC_X, vy = CSPEC_DVEC_Y, vz = CSPEC_DVEC_Z\<rparr>, m_theta = 0, m_delta = 0, m_hr = 0, m_hrhoriz = 0,
      m_ar = 0, m_phi180 = 0, m_phi90 = 0, m_eta180 = 0, m_eta90 = 0, m_mat = replicate 9 0, m_quat = replicate 4 0,
      m_AO = zero_vec, m_avec = zero_vec, m_hlayout = 0, m_callcnt = 0, m_licenser = [], m_licensee = [], m_key = replicate AKSC_CI_MAX_KEYSIZE 0, m_hbase = zero_vec32,
      HSUC_HBASE = replicate CSPEC_NUM_FORMATION zero_vec32\<rparr>"

definition SetDefaultPRMS :: "('hf, 'hd) akscprms \<Rightarrow> ('hf, 'hd) akscprms" where
  "SetDefaultPRMS p =
     p\<lparr>HSUC_HDST := replicate CSPEC_NUM_FORMATION AKSC_HDST_UNSOLVED, HSUC_HO := replicate CSPEC_NUM_FORMATION zero_vec,
       HFLUCV_HREF := replicate CSPEC_NUM_FORMATION zero_vec, HSUC_HBASE := replicate CSPEC_NUM_FORMATION zero_vec32\<rparr>"

section \<open>Saving\<close>

definition NEW_LINE :: char where "NEW_LINE = CHR 0x0A"

definition DELIMITER :: string where "DELIMITER = '' = ''"

definition SaveInt :: "string \<times> int \<Rightarrow> string" where
  "SaveInt = (\<lambda>(key, val). key @ DELIMITER @ show_int val @ [NEW_LINE])"

definition SaveInt16vec :: "string \<Rightarrow> int16vec \<Rightarrow> (string \<times> int) list" where
  "SaveInt16vec key v = [(key @ ''.x'', sint (vx v)), (key @ ''.y'', sint (vy v)), (key @ ''.z'', sint (vz v))]"

definition SaveInt32vec :: "string \<Rightarrow> int32vec \<Rightarrow> (string \<times> int) list" where
  "SaveInt32vec key v = [(key @ ''.x'', sint (wx v)), (key @ ''.y'', sint (wy v)), (key @ ''.z'', sint (wz v))]"

text \<open>The lines in order. The function stops writing at the first line that fails; \<open>accepted\<close> says how many lines the
  system takes.\<close>

definition form_key :: "string \<Rightarrow> nat \<Rightarrow> string" where
  "form_key name i = name @ ''_FORM'' @ show_int (int i)"

definition form_lines :: "('hf, 'hd) akscprms \<Rightarrow> nat \<Rightarrow> (string \<times> int) list" where
  "form_lines p i =
     (form_key ''HSUC_HDST'' i, HSUC_HDST p ! i) # SaveInt16vec (form_key ''HSUC_HO'' i) (HSUC_HO p ! i)
     @ SaveInt16vec (form_key ''HFLUCV_HREF'' i) (HFLUCV_HREF p ! i) @ SaveInt32vec (form_key ''HSUC_HBASE'' i) (HSUC_HBASE p ! i)"

definition all_lines :: "('hf, 'hd) akscprms \<Rightarrow> (string \<times> int) list" where
  "all_lines p = concat (map (form_lines p) [0..<CSPEC_NUM_FORMATION]) @ SaveInt16vec ''AO'' (m_AO p)"

text \<open>The result: whether all went well, and what the file holds then (\<open>None\<close>: it did not open and is as before).\<close>

definition SaveParameters :: "bool \<Rightarrow> nat \<Rightarrow> bool \<Rightarrow> bool \<Rightarrow> ('hf, 'hd) akscprms \<Rightarrow> bool \<times> string option" where
  "SaveParameters opens accepted closes chmods p =
     (if \<not> opens then (False, None)
      else (length (all_lines p) \<le> accepted \<and> closes \<and> chmods, Some (concat (map SaveInt (take accepted (all_lines p))))))"

section \<open>Loading\<close>

text \<open>\<open>%11d\<close>: as \<open>%d\<close>, of at most eleven characters after the blanks.\<close>

definition scan_int_11 :: "string \<Rightarrow> (int \<times> string) option" where
  "scan_int_11 s =
     (let s1 = dropWhile is_space s
      in case scan_int (take 11 s1) of None \<Rightarrow> None | Some (i, r) \<Rightarrow> Some (i, r @ drop 11 s1))"

text \<open>\<open>%63s = %11d\<close>: the name, the number and the rest of the file.\<close>

definition scan_line :: "string \<Rightarrow> (string \<times> int \<times> string) option" where
  "scan_line s =
     (let s1 = dropWhile is_space s;
          name = takeWhile (\<lambda>c. \<not> is_space c) (take (KEYNAME_SIZE - 1) s1);
          s2 = dropWhile is_space (drop (length name) s1)
      in if name = [] \<or> s2 = [] \<or> hd s2 \<noteq> CHR ''='' then None
         else map_option (\<lambda>(i, r). (name, i, r)) (scan_int_11 (tl s2)))"

text \<open>\<open>tmp\<close> is the variable the number goes to; it is set even when the name is another. After a failure nothing more is
  read.\<close>

definition LoadInt :: "string \<Rightarrow> string \<times> int \<Rightarrow> bool \<times> string \<times> int" where
  "LoadInt key = (\<lambda>(fp, tmp).
     case scan_line fp of None \<Rightarrow> (False, fp, tmp) | Some (name, i, fp1) \<Rightarrow> (name = key, fp1, i))"

definition load_next :: "string \<Rightarrow> bool \<times> string \<times> int \<Rightarrow> bool \<times> string \<times> int" where
  "load_next key = (\<lambda>(ret, fp, tmp). if ret then LoadInt key (fp, tmp) else (False, fp, tmp))"

text \<open>Three components; \<open>junk\<close> is what the variable held before.\<close>

definition load_three :: "int \<Rightarrow> string \<Rightarrow> string \<Rightarrow> bool \<times> string \<times> int \<times> int \<times> int" where
  "load_three junk key fp =
     (let (r1, fp1, x) = load_next (key @ ''.x'') (True, fp, junk);
          (r2, fp2, y) = load_next (key @ ''.y'') (r1, fp1, x);
          (r3, fp3, z) = load_next (key @ ''.z'') (r2, fp2, y)
      in (r3, fp3, x, y, z))"

definition LoadInt16vec :: "int \<Rightarrow> string \<Rightarrow> bool \<times> string \<times> int16vec \<Rightarrow> bool \<times> string \<times> int16vec" where
  "LoadInt16vec junk key = (\<lambda>(ret, fp, v).
     if ret
     then let (r, fp1, x, y, z) = load_three junk key fp in (r, fp1, \<lparr>vx = word_of_int x, vy = word_of_int y, vz = word_of_int z\<rparr>)
     else (False, fp, v))"

definition LoadInt32vec :: "int \<Rightarrow> string \<Rightarrow> bool \<times> string \<times> int32vec \<Rightarrow> bool \<times> string \<times> int32vec" where
  "LoadInt32vec junk key = (\<lambda>(ret, fp, v).
     if ret
     then let (r, fp1, x, y, z) = load_three junk key fp in (r, fp1, \<lparr>wx = word_of_int x, wy = word_of_int y, wz = word_of_int z\<rparr>)
     else (False, fp, v))"

definition load_form :: "int \<Rightarrow> nat \<Rightarrow> bool \<times> string \<times> ('hf, 'hd) akscprms \<Rightarrow> bool \<times> string \<times> ('hf, 'hd) akscprms" where
  "load_form junk i = (\<lambda>(ret, fp, p).
     let (r1, fp1, tmp) = load_next (form_key ''HSUC_HDST'' i) (ret, fp, 0);
         (r2, fp2, ho) = LoadInt16vec junk (form_key ''HSUC_HO'' i) (r1, fp1, HSUC_HO p ! i);
         (r3, fp3, href) = LoadInt16vec junk (form_key ''HFLUCV_HREF'' i) (r2, fp2, HFLUCV_HREF p ! i);
         (r4, fp4, hbase) = LoadInt32vec junk (form_key ''HSUC_HBASE'' i) (r3, fp3, HSUC_HBASE p ! i)
     in (r4, fp4, p\<lparr>HSUC_HDST := (HSUC_HDST p)[i := tmp], HSUC_HO := (HSUC_HO p)[i := ho],
          HFLUCV_HREF := (HFLUCV_HREF p)[i := href], HSUC_HBASE := (HSUC_HBASE p)[i := hbase]\<rparr>))"

fun load_forms :: "int \<Rightarrow> nat list \<Rightarrow> bool \<times> string \<times> ('hf, 'hd) akscprms \<Rightarrow> bool \<times> string \<times> ('hf, 'hd) akscprms" where
  "load_forms junk [] st = st"
| "load_forms junk (i # is) st = load_forms junk is (load_form junk i st)"

text \<open>\<open>file\<close> is the content of the settings file, \<open>None\<close> when it does not open.\<close>

definition LoadParameters :: "int \<Rightarrow> string option \<Rightarrow> bool \<Rightarrow> ('hf, 'hd) akscprms \<Rightarrow> bool \<times> ('hf, 'hd) akscprms" where
  "LoadParameters junk file closes p =
     (case file of
        None \<Rightarrow> (False, p)
      | Some fp \<Rightarrow>
          let (r, fp1, p1) = load_forms junk [0..<CSPEC_NUM_FORMATION] (True, fp, p);
              (r2, fp2, ao) = LoadInt16vec junk ''AO'' (r, fp1, m_AO p1)
          in (r2 \<and> closes, p1\<lparr>m_AO := ao\<rparr>))"

text \<open>Every caller sets the defaults when the loading fails.\<close>

definition start_parameters :: "int \<Rightarrow> string option \<Rightarrow> bool \<Rightarrow> ('hf, 'hd) akscprms \<Rightarrow> ('hf, 'hd) akscprms" where
  "start_parameters junk file closes p =
     (case LoadParameters junk file closes p of (ok, p1) \<Rightarrow> if ok then p1 else SetDefaultPRMS p1)"

section \<open>The table of the magnetometer\<close>

text \<open>\<open>fgets\<close> takes a line of at most 255 characters, with its newline.\<close>

definition fgets_rest :: "string \<Rightarrow> string option" where
  "fgets_rest fp =
     (if fp = [] then None
      else let line = takeWhile (\<lambda>c. c \<noteq> NEW_LINE) (take (HEADER_SIZE - 1) fp)
           in Some (drop (if length line < HEADER_SIZE - 1 then Suc (length line) else length line) fp))"

fun load_pdc :: "nat list \<Rightarrow> bool \<times> string \<Rightarrow> bool \<times> string \<times> 8 word list" where
  "load_pdc [] (ret, fp) = (ret, fp, [])"
| "load_pdc (i # is) (ret, fp) =
     (let (r, fp1, tmp) = load_next (''HPRMS'' @ show_int (int i)) (ret, fp, 0);
          (r2, fp2, bs) = load_pdc is (r, fp1)
      in (r2, fp2, word_of_int tmp # bs))"

definition LoadPDC :: "string option \<Rightarrow> bool \<Rightarrow> ('hf, 'hd) akscprms \<Rightarrow> bool \<times> ('hf, 'hd) akscprms" where
  "LoadPDC file closes p =
     (let failed = (False, p\<lparr>m_pdc := replicate PDC_SIZE 0, m_pdcptr := False\<rparr>)
      in case file of
           None \<Rightarrow> failed
         | Some fp \<Rightarrow>
             (case fgets_rest fp of
                None \<Rightarrow> failed
              | Some fp1 \<Rightarrow>
                  let (r, fp2, bs) = load_pdc [0..<PDC_SIZE] (True, fp1)
                  in if closes \<and> r then (True, p\<lparr>m_pdc := bs, m_pdcptr := True\<rparr>) else failed))"

section \<open>A line is read back\<close>

lemma show_nat_length: "n < 10 ^ k \<Longrightarrow> 0 < k \<Longrightarrow> length (show_nat n) \<le> k"
proof (induction k arbitrary: n)
  case (Suc k)
  show ?case
  proof (cases "n < 10")
    case False
    then have "0 < k" using Suc.prems(1) by (cases k) simp_all
    moreover have "n div 10 < 10 ^ k" using Suc.prems(1) by (simp add: less_mult_imp_div_less)
    ultimately have "length (show_nat (n div 10)) \<le> k" using Suc.IH by blast
    with False show ?thesis by (subst show_nat.simps) simp
  qed (subst show_nat.simps, simp)
qed simp

definition fits_int :: "int \<Rightarrow> bool" where
  "fits_int v \<longleftrightarrow> - (2 ^ 31) \<le> v \<and> v < 2 ^ 31"

lemma show_int_length:
  assumes "fits_int v"
  shows "length (show_int v) \<le> 11"
proof (cases "v < 0")
  case True
  have "nat (- v) < 10 ^ 10" using assms True by (simp add: fits_int_def nat_less_iff)
  from show_nat_length [OF this] True show ?thesis by (simp add: show_int_def)
next
  case False
  have "nat v < 10 ^ 11" using assms False by (simp add: fits_int_def nat_less_iff)
  from show_nat_length [OF this] False show ?thesis by (simp add: show_int_def)
qed

definition key_ok :: "string \<Rightarrow> bool" where
  "key_ok key \<longleftrightarrow> key \<noteq> [] \<and> (\<forall>c\<in>set key. \<not> is_space c) \<and> length key < KEYNAME_SIZE"

definition blanks :: "string \<Rightarrow> bool" where
  "blanks ws \<longleftrightarrow> (\<forall>c\<in>set ws. is_space c)"

lemma skip_blanks: "blanks ws \<Longrightarrow> s \<noteq> [] \<Longrightarrow> \<not> is_space (hd s) \<Longrightarrow> dropWhile is_space (ws @ s) = s"
  by (induction ws) (auto simp: blanks_def neq_Nil_conv)

lemma scan_int_11_show:
  assumes "fits_int v"
  shows "scan_int_11 (CHR '' '' # show_int v @ NEW_LINE # rest) = Some (v, NEW_LINE # rest)"
proof -
  let ?tl = "NEW_LINE # rest" and ?k = "11 - length (show_int v)"
  have len: "length (show_int v) \<le> 11" by (rule show_int_length [OF assms])
  have d: "dropWhile is_space (CHR '' '' # show_int v @ ?tl) = show_int v @ ?tl"
    using skip_blanks [of "'' ''" "show_int v @ ?tl"] show_int_nonempty [of v] show_int_ends(1) [of v]
    by (simp add: blanks_def is_space_def)
  have "ends_number (take ?k ?tl)" by (cases ?k) (simp_all add: ends_number_def NEW_LINE_def is_digit_def)
  from scan_int_show [OF this, of v] have "scan_int (take 11 (show_int v @ ?tl)) = Some (v, take ?k ?tl)" using len by simp
  with d len show ?thesis by (simp add: scan_int_11_def Let_def)
qed

lemma take_name:
  assumes "key_ok key"
  shows "takeWhile (\<lambda>c. \<not> is_space c) (take (KEYNAME_SIZE - 1) (key @ CHR '' '' # s)) = key"
proof -
  have "take (KEYNAME_SIZE - 1) (key @ CHR '' '' # s) = key @ take (KEYNAME_SIZE - 1 - length key) (CHR '' '' # s)"
    using assms by (simp add: key_ok_def KEYNAME_SIZE_def)
  moreover have "takeWhile (\<lambda>c. \<not> is_space c) (take n (CHR '' '' # s)) = []" for n by (cases n) (simp_all add: is_space_def)
  ultimately show ?thesis using assms by (simp add: key_ok_def takeWhile_append)
qed

lemma scan_line_saved:
  assumes "blanks ws" and "key_ok key" and "fits_int v"
  shows "scan_line (ws @ SaveInt (key, v) @ rest) = Some (key, v, NEW_LINE # rest)"
proof -
  have key: "key \<noteq> []" "\<not> is_space (hd key)" using assms(2) by (auto simp: key_ok_def)
  let ?s = "key @ CHR '' '' # CHR ''='' # CHR '' '' # show_int v @ NEW_LINE # rest"
  have "dropWhile is_space (ws @ ?s) = ?s" by (rule skip_blanks [OF assms(1)]) (use key in simp_all)
  moreover have sp: "is_space CHR '' ''" "\<not> is_space CHR ''=''" by (simp_all add: is_space_def)
  ultimately show ?thesis using key(1) scan_int_11_show [OF assms(3), of rest] take_name [OF assms(2)]
    by (simp add: scan_line_def SaveInt_def DELIMITER_def Let_def sp)
qed

lemma load_next_saved:
  "blanks ws \<Longrightarrow> key_ok key \<Longrightarrow> fits_int v \<Longrightarrow> load_next key (True, ws @ SaveInt (key, v) @ rest, t) = (True, NEW_LINE # rest, v)"
  by (simp add: load_next_def LoadInt_def scan_line_saved)

lemma blanks_line: "blanks [NEW_LINE]" "blanks []"
  by (simp_all add: blanks_def is_space_def NEW_LINE_def)

lemma load_next_line:
  "key_ok key \<Longrightarrow> fits_int v \<Longrightarrow> load_next key (True, NEW_LINE # SaveInt (key, v) @ rest, t) = (True, NEW_LINE # rest, v)"
  using load_next_saved [of "[NEW_LINE]" key v rest t] blanks_line by simp

definition three_keys_ok :: "string \<Rightarrow> bool" where
  "three_keys_ok key \<longleftrightarrow> key_ok (key @ ''.x'') \<and> key_ok (key @ ''.y'') \<and> key_ok (key @ ''.z'')"

lemma load_three_saved:
  assumes "three_keys_ok key" and "fits_int x" and "fits_int y" and "fits_int z"
  shows "load_three junk key (NEW_LINE # SaveInt (key @ ''.x'', x) @ SaveInt (key @ ''.y'', y) @ SaveInt (key @ ''.z'', z) @ rest)
    = (True, NEW_LINE # rest, x, y, z)"
  using assms by (simp add: load_three_def three_keys_ok_def load_next_line)

lemma word_fits: "fits_int (sint (w :: 16 word))" "fits_int (sint (u :: 32 word))"
  using sint_greater_eq [of w] sint_less [of w] sint_greater_eq [of u] sint_less [of u] by (simp_all add: fits_int_def)

lemma load_vec_saved:
  assumes "three_keys_ok key"
  shows "LoadInt16vec junk key (True, NEW_LINE # concat (map SaveInt (SaveInt16vec key v)) @ rest, u) = (True, NEW_LINE # rest, v)"
    and "LoadInt32vec junk key (True, NEW_LINE # concat (map SaveInt (SaveInt32vec key w)) @ rest, t) = (True, NEW_LINE # rest, w)"
  using load_three_saved [OF assms] word_fits
  by (simp_all add: LoadInt16vec_def LoadInt32vec_def SaveInt16vec_def SaveInt32vec_def)

lemma keys_ok:
  "key_ok (form_key ''HSUC_HDST'' 0)" "three_keys_ok (form_key ''HSUC_HO'' 0)" "three_keys_ok (form_key ''HFLUCV_HREF'' 0)"
  "three_keys_ok (form_key ''HSUC_HBASE'' 0)" "three_keys_ok ''AO''"
proof -
  have z: "show_int (int 0) = ''0''" by code_simp
  show "key_ok (form_key ''HSUC_HDST'' 0)" "three_keys_ok (form_key ''HSUC_HO'' 0)" "three_keys_ok (form_key ''HFLUCV_HREF'' 0)"
    "three_keys_ok (form_key ''HSUC_HBASE'' 0)" "three_keys_ok ''AO''"
    unfolding three_keys_ok_def key_ok_def form_key_def z KEYNAME_SIZE_def is_space_def by simp_all
qed

section \<open>Settings\<close>

text \<open>Parameters as the daemon has them: a list element for each formation and a level that is an \<open>int\<close>.\<close>

definition params_ok :: "('hf, 'hd) akscprms \<Rightarrow> bool" where
  "params_ok p \<longleftrightarrow> length (HSUC_HDST p) = CSPEC_NUM_FORMATION \<and> length (HSUC_HO p) = CSPEC_NUM_FORMATION
     \<and> length (HFLUCV_HREF p) = CSPEC_NUM_FORMATION \<and> length (HSUC_HBASE p) = CSPEC_NUM_FORMATION
     \<and> (\<forall>d\<in>set (HSUC_HDST p). fits_int d)"

definition settings_text :: "('hf, 'hd) akscprms \<Rightarrow> string" where
  "settings_text p = concat (map SaveInt (form_lines p 0))"

lemma load_form_saved:
  assumes "params_ok p" and "params_ok q"
  shows "load_forms junk [0..<CSPEC_NUM_FORMATION] (True, settings_text p @ rest, q)
    = (True, NEW_LINE # rest, q\<lparr>HSUC_HDST := HSUC_HDST p, HSUC_HO := HSUC_HO p, HFLUCV_HREF := HFLUCV_HREF p, HSUC_HBASE := HSUC_HBASE p\<rparr>)"
proof -
  obtain d ho hr hb d' ho' hr' hb' where
    l: "HSUC_HDST p = [d]" "HSUC_HO p = [ho]" "HFLUCV_HREF p = [hr]" "HSUC_HBASE p = [hb]"
      "HSUC_HDST q = [d']" "HSUC_HO q = [ho']" "HFLUCV_HREF q = [hr']" "HSUC_HBASE q = [hb']"
    using assms by (auto simp: params_ok_def CSPEC_NUM_FORMATION_def length_Suc_conv)
  have d: "fits_int d" using assms(1) l by (simp add: params_ok_def)
  have first: "load_next (form_key ''HSUC_HDST'' 0) (True, SaveInt (form_key ''HSUC_HDST'' 0, d) @ s, t) = (True, NEW_LINE # s, d)" for s t
    using load_next_saved [OF blanks_line(2) keys_ok(1) d] by simp
  note v = load_vec_saved [OF keys_ok(2)] load_vec_saved [OF keys_ok(3)] load_vec_saved [OF keys_ok(4)]
  show ?thesis using l
    by (simp add: CSPEC_NUM_FORMATION_def load_form_def settings_text_def form_lines_def first v)
qed

lemma load_saved:
  assumes "params_ok p" and "params_ok q" and "SaveParameters opens accepted closes chmods p = (True, doc)"
  shows "LoadParameters junk doc True q = (True, q\<lparr>HSUC_HDST := HSUC_HDST p, HSUC_HO := HSUC_HO p,
    HFLUCV_HREF := HFLUCV_HREF p, HSUC_HBASE := HSUC_HBASE p, m_AO := m_AO p\<rparr>)"
proof -
  have "doc = Some (settings_text p @ concat (map SaveInt (SaveInt16vec ''AO'' (m_AO p))))"
    using assms(3) by (auto simp: SaveParameters_def all_lines_def settings_text_def CSPEC_NUM_FORMATION_def split: if_splits)
  then show ?thesis
    using load_form_saved [OF assms(1,2)] load_vec_saved(1) [OF keys_ok(5), of junk "m_AO p" "[]"]
    by (simp add: LoadParameters_def)
qed

text \<open>Settings saved without an error are read back in full, whatever the daemon holds then.\<close>

theorem settings_roundtrip:
  assumes "params_ok p" and "params_ok q" and "SaveParameters opens accepted closes chmods p = (True, doc)"
  shows "LoadParameters junk doc True q = (True, q\<lparr>HSUC_HDST := HSUC_HDST p, HSUC_HO := HSUC_HO p,
    HFLUCV_HREF := HFLUCV_HREF p, HSUC_HBASE := HSUC_HBASE p, m_AO := m_AO p\<rparr>)"
  by (rule load_saved [OF assms])

definition some_params :: "(unit, unit) akscprms" where
  "some_params = (InitAKSCPRMS () ())\<lparr>HSUC_HDST := [3], HSUC_HO := [\<lparr>vx = - 120, vy = 33, vz = 0x8000\<rparr>],
     m_AO := \<lparr>vx = 5, vy = - 6, vz = 7\<rparr>\<rparr>"

lemma some_params_ok: "params_ok some_params" "params_ok (InitAKSCPRMS () ())"
  by (simp_all add: params_ok_def some_params_def InitAKSCPRMS_def CSPEC_NUM_FORMATION_def fits_int_def)

theorem settings_roundtrip_witness:
  "\<exists>doc. SaveParameters True 13 True True some_params = (True, doc)
     \<and> m_AO (snd (LoadParameters 77 doc True (InitAKSCPRMS () ()))) = \<lparr>vx = 5, vy = - 6, vz = 7\<rparr>"
proof -
  obtain doc where f: "SaveParameters True 13 True True some_params = (True, doc)"
    by (simp add: SaveParameters_def all_lines_def CSPEC_NUM_FORMATION_def form_lines_def SaveInt16vec_def SaveInt32vec_def)
  from settings_roundtrip [OF some_params_ok f, of 77] f show ?thesis by (simp add: some_params_def)
qed

section \<open>A save that was cut off\<close>

lemma load_next_end:
  "load_next key (True, [NEW_LINE], t) = (False, [NEW_LINE], t)" "load_next key (True, [], t) = (False, [], t)"
  "load_next key (False, fp, t) = (False, fp, t)"
proof -
  have "scan_line [NEW_LINE] = None" "scan_line [] = None" by (simp_all add: scan_line_def NEW_LINE_def is_space_def)
  then show "load_next key (True, [NEW_LINE], t) = (False, [NEW_LINE], t)" "load_next key (True, [], t) = (False, [], t)"
    "load_next key (False, fp, t) = (False, fp, t)" by (simp_all add: load_next_def LoadInt_def)
qed

lemma load_next_last:
  "key_ok key \<Longrightarrow> fits_int v \<Longrightarrow> load_next key (True, NEW_LINE # SaveInt (key, v), t) = (True, [NEW_LINE], v)"
  using load_next_line [of key v "[]"] by simp

lemma load_next_first:
  "key_ok key \<Longrightarrow> fits_int v \<Longrightarrow> load_next key (True, SaveInt (key, v) @ rest, t) = (True, NEW_LINE # rest, v)"
  "key_ok key \<Longrightarrow> fits_int v \<Longrightarrow> load_next key (True, SaveInt (key, v), t) = (True, [NEW_LINE], v)"
  using load_next_saved [OF blanks_line(2), of key v rest] load_next_saved [OF blanks_line(2), of key v "[]"] by simp_all

lemmas cut_reads = load_next_end load_next_last load_next_first load_next_line

lemma load_form_keeps_offset: "m_AO (snd (snd (load_forms junk is (ret, fp, p)))) = m_AO p"
  by (induction "is" arbitrary: ret fp p) (simp_all add: load_form_def Let_def case_prod_beta)

lemma below_ten: "n < 10 \<Longrightarrow> n \<in> {0, 1, 2, 3, 4, 5, 6, 7, 8, 9 :: nat}"
  by auto

text \<open>With fewer than all lines of a formation its loading fails.\<close>

lemma load_form_cut:
  assumes "params_ok p" and "n < 10"
  shows "fst (load_forms junk [0..<CSPEC_NUM_FORMATION] (True, concat (map SaveInt (take n (form_lines p 0))), q)) = False"
proof -
  have d: "fits_int (HSUC_HDST p ! 0)" using assms(1) by (simp add: params_ok_def CSPEC_NUM_FORMATION_def)
  note k = keys_ok(1) keys_ok(2-4) [unfolded three_keys_ok_def, THEN conjunct1]
    keys_ok(2-4) [unfolded three_keys_ok_def, THEN conjunct2, THEN conjunct1]
    keys_ok(2-4) [unfolded three_keys_ok_def, THEN conjunct2, THEN conjunct2]
  show ?thesis using below_ten [OF assms(2)]
    by (elim insertE emptyE; simp add: CSPEC_NUM_FORMATION_def load_form_def form_lines_def SaveInt16vec_def SaveInt32vec_def
        LoadInt16vec_def LoadInt32vec_def load_three_def cut_reads k d word_fits)
qed

lemma load_offset_cut:
  "LoadInt16vec junk ''AO'' (True, [NEW_LINE], v) = (False, [NEW_LINE], \<lparr>vx = word_of_int junk, vy = word_of_int junk, vz = word_of_int junk\<rparr>)"
  "LoadInt16vec junk ''AO'' (True, NEW_LINE # SaveInt (''AO.x'', sint x), v) = (False, [NEW_LINE], \<lparr>vx = x, vy = x, vz = x\<rparr>)"
  "LoadInt16vec junk ''AO'' (True, NEW_LINE # SaveInt (''AO.x'', sint x) @ SaveInt (''AO.y'', sint y), v)
    = (False, [NEW_LINE], \<lparr>vx = x, vy = y, vz = y\<rparr>)"
  using keys_ok(5) by (simp_all add: LoadInt16vec_def load_three_def three_keys_ok_def cut_reads word_fits)

text \<open>C16: the offset of the accelerometer a daemon starts with when the save of its settings was cut off after \<open>n\<close> of the
  thirteen lines. Before the lines of the offset it keeps the one it has; right before them it measures with what an
  unwritten variable held; after the first or second of them the last number read stands for the missing ones. The loading
  fails in all these cases, but the defaults set then leave the offset out.\<close>

theorem lost_offset_is_junk:
  assumes "params_ok p" and "params_ok q" and "SaveParameters True n closes chmods p = (ok, doc)"
  shows "m_AO (start_parameters junk doc closed q) =
    (if n < 10 then m_AO q
     else if n = 10 then \<lparr>vx = word_of_int junk, vy = word_of_int junk, vz = word_of_int junk\<rparr>
     else if n = 11 then \<lparr>vx = vx (m_AO p), vy = vx (m_AO p), vz = vx (m_AO p)\<rparr>
     else if n = 12 then \<lparr>vx = vx (m_AO p), vy = vy (m_AO p), vz = vy (m_AO p)\<rparr>
     else m_AO p)"
proof -
  let ?ao = "SaveInt16vec ''AO'' (m_AO p)"
  have len: "length (form_lines p 0) = 10" by (simp add: form_lines_def SaveInt16vec_def SaveInt32vec_def)
  have f: "doc = Some (concat (map SaveInt (take n (form_lines p 0))) @ concat (map SaveInt (take (n - 10) ?ao)))"
    using assms(3) by (auto simp: SaveParameters_def all_lines_def CSPEC_NUM_FORMATION_def len)
  have start: "m_AO (start_parameters junk doc closed q) = m_AO (snd (LoadParameters junk doc closed q))"
    by (simp add: start_parameters_def SetDefaultPRMS_def case_prod_beta)
  show ?thesis
  proof (cases "n < 10")
    case True
    let ?r = "load_forms junk [0..<CSPEC_NUM_FORMATION] (True, concat (map SaveInt (take n (form_lines p 0))), q)"
    have "doc = Some (concat (map SaveInt (take n (form_lines p 0))))" using f True by simp
    then have "m_AO (snd (LoadParameters junk doc closed q)) = m_AO (snd (snd ?r))"
      using load_form_cut [OF assms(1) True, of junk q] by (simp add: LoadParameters_def LoadInt16vec_def case_prod_beta)
    with True show ?thesis unfolding start by (simp add: load_form_keeps_offset)
  next
    case False
    then have "take n (form_lines p 0) = form_lines p 0" using len by simp
    with f load_form_saved [OF assms(1,2)] have l: "m_AO (snd (LoadParameters junk doc closed q))
        = snd (snd (LoadInt16vec junk ''AO'' (True, NEW_LINE # concat (map SaveInt (take (n - 10) ?ao)), m_AO q)))"
      by (simp add: LoadParameters_def settings_text_def case_prod_beta)
    have all: "take (n - 10) ?ao = ?ao" if "13 \<le> n" using that by (simp add: SaveInt16vec_def)
    have full: "snd (snd (LoadInt16vec junk ''AO'' (True, NEW_LINE # concat (map SaveInt ?ao), m_AO q))) = m_AO p"
      using load_vec_saved(1) [OF keys_ok(5), of junk "m_AO p" "[]"] by simp
    consider "n = 10" | "n = 11" | "n = 12" | "13 \<le> n" using False by linarith
    then show ?thesis unfolding start l
      by cases (simp_all add: SaveInt16vec_def load_offset_cut, use all full in \<open>simp add: SaveInt16vec_def\<close>)
  qed
qed

theorem lost_offset_is_junk_witness:
  "\<exists>ok doc. SaveParameters True 10 True True some_params = (ok, doc)
     \<and> m_AO (start_parameters 77 doc True (InitAKSCPRMS () ())) = \<lparr>vx = 77, vy = 77, vz = 77\<rparr>"
proof -
  obtain ok doc where f: "SaveParameters True 10 True True some_params = (ok, doc)" by fastforce
  from lost_offset_is_junk [OF some_params_ok f, of 77 True] f show ?thesis by simp
qed

end
