(* ===== verification/Akm_Device.thy ===== *)
theory Akm_Device
  imports Akm_Files "HOL-Library.Signed_Division"
begin

unbundle bit_operations_syntax

text \<open>
  The device of the compass daemon (\<open>AKMD_Driver.c\<close>, with the accelerometer of the hub in \<open>Acc_aot.c\<close>), the factory
  test (\<open>FST_AK09912.c\<close>) and the conversions of \<open>misc.c\<close>.

  A call of the driver is appended to a trace; what the kernel answers to it depends on the trace. The user sees the answer as
  0 or more, or as \<open>- 1\<close> with the error in \<open>errno\<close>. \<open>None\<close> is a write behind an array. The constants of the kernel's
  header, which is not in the tree, are the fields of \<open>akm_env\<close>.
\<close>

section \<open>The driver\<close>

datatype akm_call =
    ECS_RESET | ECS_READ "8 word" nat | ECS_WRITE "8 word" "8 word list" | ECS_SET_MODE "8 word" | ECS_GET_DATA
  | ECS_GET_INFO | ECS_GET_CONF | ECS_GET_LAYOUT | ECS_CHECK_READY | ECS_GET_OPEN_STATUS | ECS_GET_CLOSE_STATUS
  | ECS_GET_DELAY | ECS_GET_ACCEL | ECS_SET_YPR "int list" "8 word list"

type_synonym akm_kernel = "akm_call list \<Rightarrow> int \<times> 8 word list"

record akm_env =
  AKM_RWBUF_SIZE :: nat
  AKM_SENSOR_DATA_SIZE :: nat
  AKM_SENSOR_TIME_SIZE :: nat
  AKM_SENSOR_INFO_SIZE :: nat
  AKM_SENSOR_CONF_SIZE :: nat
  REG_WIA1 :: "8 word"
  REG_CNTL1 :: "8 word"
  REG_CNTL2 :: "8 word"
  FUSE_ASAX :: "8 word"
  MODE_FUSE_ACCESS :: "8 word"
  MODE_POWERDOWN :: "8 word"
  MODE_SNG_MEASURE :: "8 word"
  MODE_SELF_TEST :: "8 word"
  CNTL1_ENABLE_TEMP :: "8 word"
  LSG_per_g :: int
  rw_unset :: "nat \<Rightarrow> 8 word"

record akm_dev =
  s_fdDev :: int
  akm_calls :: "akm_call list"

definition akm_ioctl :: "akm_kernel \<Rightarrow> akm_call \<Rightarrow> akm_dev \<Rightarrow> (int \<times> 8 word list) \<times> akm_dev" where
  "akm_ioctl kern call st =
     (let tr = akm_calls st @ [call] in ((if fst (kern tr) < 0 then - 1 else fst (kern tr), snd (kern tr)), st\<lparr>akm_calls := tr\<rparr>))"

text \<open>What the kernel stores over \<open>n\<close> cleared bytes.\<close>

definition stored :: "nat \<Rightarrow> 8 word list \<Rightarrow> 8 word list" where
  "stored n bs = take n (bs @ replicate n 0)"

text \<open>Calls with nothing but success or failure, and calls that store something.\<close>

definition akm_simple :: "akm_kernel \<Rightarrow> akm_call \<Rightarrow> akm_dev \<Rightarrow> bool \<times> akm_dev" where
  "akm_simple kern call st =
     (if s_fdDev st < 0 then (False, st)
      else case akm_ioctl kern call st of ((ret, bs), st1) \<Rightarrow> (0 \<le> ret, st1))"

definition akm_fetch :: "akm_kernel \<Rightarrow> akm_call \<Rightarrow> nat \<Rightarrow> akm_dev \<Rightarrow> bool \<times> 8 word list \<times> akm_dev" where
  "akm_fetch kern call n st =
     (if s_fdDev st < 0 then (False, replicate n 0, st)
      else case akm_ioctl kern call st of ((ret, bs), st1) \<Rightarrow> (0 \<le> ret, stored n bs, st1))"

definition AKD_InitDevice :: "int \<Rightarrow> akm_dev \<Rightarrow> bool \<times> akm_dev" where
  "AKD_InitDevice opened st =
     (let st1 = (if s_fdDev st < 0 then st\<lparr>s_fdDev := opened\<rparr> else st)
      in if s_fdDev st1 < 0 then (False, st1) else (True, st1))"

definition AKD_DeinitDevice :: "akm_dev \<Rightarrow> akm_dev" where
  "AKD_DeinitDevice st = (if s_fdDev st \<ge> 0 then st\<lparr>s_fdDev := - 1\<rparr> else st)"

definition AKD_TxData :: "akm_env \<Rightarrow> akm_kernel \<Rightarrow> 8 word \<Rightarrow> 8 word list \<Rightarrow> akm_dev \<Rightarrow> bool \<times> akm_dev" where
  "AKD_TxData E kern address data st =
     (if length data > AKM_RWBUF_SIZE E - 2 then (False, st) else akm_simple kern (ECS_WRITE address data) st)"

text \<open>The buffer of the call holds the length, the address and what was on the stack (\<open>rw_unset\<close>); the kernel stores over it
  from its second byte.\<close>

definition rx_bytes :: "akm_env \<Rightarrow> 8 word \<Rightarrow> nat \<Rightarrow> 8 word list \<Rightarrow> 8 word list" where
  "rx_bytes E address n bs = take n (bs @ drop (length bs) (address # map (rw_unset E) [0..<AKM_RWBUF_SIZE E]))"

text \<open>The caller's bytes are cleared first, and taken from the buffer only when the call went well.\<close>

definition AKD_RxData :: "akm_env \<Rightarrow> akm_kernel \<Rightarrow> 8 word \<Rightarrow> nat \<Rightarrow> akm_dev \<Rightarrow> bool \<times> 8 word list \<times> akm_dev" where
  "AKD_RxData E kern address n st =
     (if s_fdDev st < 0 \<or> n > AKM_RWBUF_SIZE E - 1 then (False, replicate n 0, st)
      else case akm_ioctl kern (ECS_READ address n) st of
             ((ret, bs), st1) \<Rightarrow> if 0 \<le> ret then (True, rx_bytes E address n bs, st1) else (False, replicate n 0, st1))"

definition AKD_Reset :: "akm_kernel \<Rightarrow> akm_dev \<Rightarrow> bool \<times> akm_dev" where
  "AKD_Reset kern = akm_simple kern ECS_RESET"

definition AKD_GetSensorInfo :: "akm_env \<Rightarrow> akm_kernel \<Rightarrow> akm_dev \<Rightarrow> bool \<times> 8 word list \<times> akm_dev" where
  "AKD_GetSensorInfo E kern = akm_fetch kern ECS_GET_INFO (AKM_SENSOR_INFO_SIZE E)"

definition AKD_GetSensorConf :: "akm_env \<Rightarrow> akm_kernel \<Rightarrow> akm_dev \<Rightarrow> bool \<times> 8 word list \<times> akm_dev" where
  "AKD_GetSensorConf E kern = akm_fetch kern ECS_GET_CONF (AKM_SENSOR_CONF_SIZE E)"

definition AKD_SetMode :: "akm_kernel \<Rightarrow> 8 word \<Rightarrow> akm_dev \<Rightarrow> bool \<times> akm_dev" where
  "AKD_SetMode kern mode = akm_simple kern (ECS_SET_MODE mode)"

text \<open>The loop of \<open>AKD_GetMagneticData\<close> goes on while \<open>ioctl\<close> returns \<open>- EINTR\<close>, which it never does.\<close>

function get_data_loop :: "akm_kernel \<Rightarrow> akm_dev \<Rightarrow> (int \<times> 8 word list) \<times> akm_dev" where
  "get_data_loop kern st =
     (case akm_ioctl kern ECS_GET_DATA st of
        ((ret, bs), st1) \<Rightarrow> if ret = - EINTR then get_data_loop kern st1 else ((ret, bs), st1))"
  by auto
termination
  by (relation "{}") (auto simp: akm_ioctl_def EINTR_def Let_def split: if_splits)

lemma get_data_once [simp]: "get_data_loop kern st = akm_ioctl kern ECS_GET_DATA st"
  by (subst get_data_loop.simps) (simp add: akm_ioctl_def EINTR_def Let_def)

declare get_data_loop.simps [simp del]

text \<open>\<open>room\<close>: the bytes the caller's array has. The function clears as many as a measurement and a time stamp take.\<close>

definition AKD_GetMagneticData :: "akm_env \<Rightarrow> akm_kernel \<Rightarrow> nat \<Rightarrow> akm_dev \<Rightarrow> (bool \<times> 8 word list \<times> akm_dev) option" where
  "AKD_GetMagneticData E kern room st =
     (let n = AKM_SENSOR_DATA_SIZE E + AKM_SENSOR_TIME_SIZE E
      in if n > room then None
         else if s_fdDev st < 0 then Some (False, replicate n 0, st)
         else case get_data_loop kern st of ((ret, bs), st1) \<Rightarrow> Some (0 \<le> ret, stored n bs, st1))"

definition AKD_SetYPR :: "akm_kernel \<Rightarrow> int list \<Rightarrow> 8 word list \<Rightarrow> akm_dev \<Rightarrow> akm_dev" where
  "AKD_SetYPR kern buf time st = snd (akm_simple kern (ECS_SET_YPR buf time) st)"

text \<open>A number the driver stores in a variable: an \<open>int\<close> of four bytes, or a \<open>char\<close>, which has no sign on this platform.
  The variable is left alone when the call fails.\<close>

definition read_int :: "8 word list \<Rightarrow> int" where
  "read_int bs = sint (word_of_int (foldr (\<lambda>b acc. uint b + 256 * acc) (stored 4 bs) 0) :: 32 word)"

definition read_char :: "8 word list \<Rightarrow> int" where
  "read_char bs = uint (stored 1 bs ! 0)"

definition fetch_status :: "(8 word list \<Rightarrow> int) \<Rightarrow> akm_kernel \<Rightarrow> akm_call \<Rightarrow> int \<Rightarrow> akm_dev \<Rightarrow> bool \<times> int \<times> akm_dev" where
  "fetch_status decode kern call status st =
     (if s_fdDev st < 0 then (False, status, st)
      else case akm_ioctl kern call st of
        ((ret, bs), st1) \<Rightarrow> if ret < 0 then (False, status, st1) else (True, if bs = [] then status else decode bs, st1))"

definition AKD_GetOpenStatus :: "akm_kernel \<Rightarrow> int \<Rightarrow> akm_dev \<Rightarrow> bool \<times> int \<times> akm_dev" where
  "AKD_GetOpenStatus kern = fetch_status read_int kern ECS_GET_OPEN_STATUS"

definition AKD_GetCloseStatus :: "akm_kernel \<Rightarrow> int \<Rightarrow> akm_dev \<Rightarrow> bool \<times> int \<times> akm_dev" where
  "AKD_GetCloseStatus kern = fetch_status read_int kern ECS_GET_CLOSE_STATUS"

definition AKD_GetLayout :: "akm_kernel \<Rightarrow> int \<Rightarrow> akm_dev \<Rightarrow> bool \<times> int \<times> akm_dev" where
  "AKD_GetLayout kern = fetch_status read_char kern ECS_GET_LAYOUT"

text \<open>The loop waits a second between tries, for as long as \<open>ioctl\<close> returns \<open>- EAGAIN\<close>. \<open>status\<close> is what the
  variable held; the value says how many seconds passed.\<close>

definition EAGAIN_NUM :: int where "EAGAIN_NUM = 11"

fun wait_ready :: "akm_kernel \<Rightarrow> nat \<Rightarrow> int \<Rightarrow> akm_dev \<Rightarrow> nat \<times> int \<times> int \<times> akm_dev" where
  "wait_ready kern retries status st =
     (case akm_ioctl kern ECS_CHECK_READY st of
        ((err, bs), st1) \<Rightarrow>
          let status1 = (if err < 0 \<or> bs = [] then status else read_char bs)
          in if err = - EAGAIN_NUM
             then case retries of 0 \<Rightarrow> (0, err, status1, st1) | Suc k \<Rightarrow> wait_ready kern k status1 st1
             else (retries, err, status1, st1))"

definition AKD_WaitReady :: "akm_kernel \<Rightarrow> int \<Rightarrow> akm_dev \<Rightarrow> bool \<times> akm_dev" where
  "AKD_WaitReady kern status st =
     (if s_fdDev st < 0 then (False, st)
      else case wait_ready kern 10 status st of
        (retries, err, status1, st1) \<Rightarrow> (\<not> (retries = 0 \<or> err < 0 \<or> status1 \<noteq> 1), st1))"

section \<open>The accelerometer of the hub\<close>

text \<open>The scale \<open>720 / LSG\<close> has an exact product with a 16-bit number; the result is cut towards 0.\<close>

definition scale_acc :: "akm_env \<Rightarrow> 16 word \<Rightarrow> 16 word" where
  "scale_acc E d = word_of_int ((sint d * 720) sdiv LSG_per_g E)"

definition le_word :: "8 word \<Rightarrow> 8 word \<Rightarrow> 16 word" where
  "le_word lo hi = push_bit 8 (ucast hi) + ucast lo"

definition AOT_GetAccData :: "akm_env \<Rightarrow> akm_kernel \<Rightarrow> akm_dev \<Rightarrow> (16 word \<times> 16 word \<times> 16 word) option \<times> akm_dev" where
  "AOT_GetAccData E kern st =
     (case akm_fetch kern ECS_GET_ACCEL 6 st of
        (ok, bs, st1) \<Rightarrow>
          (if ok then Some (scale_acc E (le_word (bs ! 0) (bs ! 1)), scale_acc E (le_word (bs ! 2) (bs ! 3)), scale_acc E (le_word (bs ! 4) (bs ! 5)))
           else None, st1))"

text \<open>The hub is switched by others: the daemon's calls do nothing, and there is no offset to measure.\<close>

definition AOT_SetEnable :: "bool \<Rightarrow> bool" where
  "AOT_SetEnable enabled = True"

definition AOT_SetDelay :: "int \<Rightarrow> bool" where
  "AOT_SetDelay ns = True"

definition AOT_GetAccOffset :: "bool \<times> int16vec" where
  "AOT_GetAccOffset = (True, zero_vec)"

definition AOT_GetAccVector :: "16 word \<times> 16 word \<times> 16 word \<Rightarrow> int16vec \<Rightarrow> int16vec" where
  "AOT_GetAccVector data offset =
     (case data of (x, y, z) \<Rightarrow> \<lparr>vx = x - vx offset, vy = y - vy offset, vz = z - vz offset\<rparr>)"

section \<open>Layouts\<close>

text \<open>The patterns 1 to 8; the value says whether the pattern is one of them.\<close>

definition ConvertCoordinate :: "nat \<Rightarrow> int16vec \<Rightarrow> bool \<times> int16vec" where
  "ConvertCoordinate pat v =
     (if pat = 1 then (True, v)
      else if pat = 2 then (True, v\<lparr>vx := vy v, vy := - vx v\<rparr>)
      else if pat = 3 then (True, v\<lparr>vx := - vx v, vy := - vy v\<rparr>)
      else if pat = 4 then (True, v\<lparr>vx := - vy v, vy := vx v\<rparr>)
      else if pat = 5 then (True, v\<lparr>vx := - vx v, vz := - vz v\<rparr>)
      else if pat = 6 then (True, v\<lparr>vx := vy v, vy := vx v, vz := - vz v\<rparr>)
      else if pat = 7 then (True, v\<lparr>vy := - vy v, vz := - vz v\<rparr>)
      else if pat = 8 then (True, v\<lparr>vx := - vy v, vy := - vx v, vz := - vz v\<rparr>)
      else (False, v))"

section \<open>Times and intervals\<close>

definition int64_to_timespec :: "int \<Rightarrow> int \<times> int" where
  "int64_to_timespec val = (let sec = val sdiv 1000000000 in (sec, val - sec))"

definition timespec_to_int64 :: "int \<times> int \<Rightarrow> int" where
  "timespec_to_int64 ts = fst ts * 1000000000 + snd ts"

definition CalcDuration :: "int \<times> int \<Rightarrow> int \<times> int \<Rightarrow> int" where
  "CalcDuration b e =
     (let sec = fst b - fst e; nsec = snd b - snd e;
          (sec1, nsec1) = (if nsec < 0 then (sec - 1, nsec + 1000000000) else (sec, nsec))
      in if sec1 < 0 then 0 else timespec_to_int64 (sec1, nsec1))"

definition s_interval :: "(int \<times> int) list" where
  "s_interval =
     [(10000000, 10), (16666667, 6), (20000000, 5), (25000000, 4), (40000000, 3), (50000000, 2), (66667000, 2), (100000000, 1),
      (125000000, 1), (200000000, 1), (1000000000, 1)]"

text \<open>The loop stops at the first interval that is long enough, or at the last.\<close>

fun decimator :: "int \<Rightarrow> (int \<times> int) list \<Rightarrow> int \<times> int \<Rightarrow> int \<times> int" where
  "decimator org [] cur = cur"
| "decimator org (i # is) cur = (if org \<le> fst i then i else decimator org is i)"

definition GetHDOEDecimator :: "int \<Rightarrow> int \<times> int" where
  "GetHDOEDecimator time = decimator time s_interval (time, 0)"

section \<open>The factory test\<close>

text \<open>\<open>TEST_DATA\<close> without its display: the flag for all tests is 1 while all have passed.\<close>

definition TEST_DATA :: "int \<Rightarrow> int \<Rightarrow> int \<Rightarrow> int \<Rightarrow> int" where
  "TEST_DATA v lo hi flag =
     (if flag \<noteq> 0 then (if flag = 1 \<and> lo \<le> v \<and> v \<le> hi then 1 else - 1) else flag)"

text \<open>\<open>START\<close> and \<open>END\<close> display a header and the result, and pass.\<close>

definition TEST_DATA_frame :: "int \<Rightarrow> int" where
  "TEST_DATA_frame flag = (if flag \<noteq> 0 then (if flag = 1 then 1 else - 1) else flag)"

text \<open>The sensitivity adjustment of a value of the self test, in floating point exact for these numbers; cut to 16 bits
  as the argument of \<open>TEST_DATA\<close> (the C standard leaves the numbers that do not fit undefined; the compiled code cuts
  them off).\<close>

definition adjusted :: "16 word \<Rightarrow> 8 word \<Rightarrow> int" where
  "adjusted h asa = sint (word_of_int ((sint h * (uint asa + 128)) sdiv 256) :: 16 word)"

definition hdata_of :: "8 word list \<Rightarrow> nat \<Rightarrow> 16 word" where
  "hdata_of bs i = le_word (bs ! (1 + 2 * i)) (bs ! (2 + 2 * i))"

definition tests_reset :: "8 word list \<Rightarrow> int \<Rightarrow> int" where
  "tests_reset wia = TEST_DATA (uint (wia ! 1)) 0x04 0x04 \<circ> TEST_DATA (uint (wia ! 0)) 0x48 0x48"

definition tests_fuse :: "8 word list \<Rightarrow> int \<Rightarrow> int" where
  "tests_fuse asa = TEST_DATA (uint (asa ! 2)) 1 254 \<circ> TEST_DATA (uint (asa ! 1)) 1 254 \<circ> TEST_DATA (uint (asa ! 0)) 1 254"

definition tests_single :: "8 word list \<Rightarrow> int \<Rightarrow> int" where
  "tests_single bs = TEST_DATA (uint (bs ! 8)) 0 0 \<circ> TEST_DATA (uint (bs ! 7)) 0x28 0xE0
     \<circ> TEST_DATA (sint (hdata_of bs 2)) (- 32751) 32751 \<circ> TEST_DATA (sint (hdata_of bs 1)) (- 32751) 32751
     \<circ> TEST_DATA (sint (hdata_of bs 0)) (- 32751) 32751 \<circ> TEST_DATA (uint (bs ! 0 AND 0x7F)) 1 1"

definition tests_self :: "8 word list \<Rightarrow> 8 word list \<Rightarrow> int \<Rightarrow> int" where
  "tests_self asa bs = TEST_DATA (uint (bs ! 8)) 0 0 \<circ> TEST_DATA (adjusted (hdata_of bs 2) (asa ! 2)) (- 1600) (- 400)
     \<circ> TEST_DATA (adjusted (hdata_of bs 1) (asa ! 1)) (- 200) 200
     \<circ> TEST_DATA (adjusted (hdata_of bs 0) (asa ! 0)) (- 200) 200 \<circ> TEST_DATA (uint (bs ! 0 AND 0x7F)) 1 1"

definition I2C_DATA :: nat where "I2C_DATA = 16"

definition FST_AK09912 :: "akm_env \<Rightarrow> akm_kernel \<Rightarrow> akm_dev \<Rightarrow> (int \<times> akm_dev) option" where
  "FST_AK09912 E kern st =
     (let (ok1, s1) = AKD_Reset kern st in if \<not> ok1 then Some (0, s1) else
      let (ok2, wia, s2) = AKD_RxData E kern (REG_WIA1 E) 2 s1 in if \<not> ok2 then Some (0, s2) else
      let t1 = tests_reset wia 1;
          (ok3, s3) = AKD_SetMode kern (MODE_FUSE_ACCESS E) s2 in if \<not> ok3 then Some (0, s3) else
      let (ok4, cntl, s4) = AKD_RxData E kern (REG_CNTL2 E) 1 s3 in if \<not> ok4 then Some (0, s4) else
      let t2 = TEST_DATA (uint (cntl ! 0)) 0x1F 0x1F t1;
          (ok5, asa, s5) = AKD_RxData E kern (FUSE_ASAX E) 3 s4 in if \<not> ok5 then Some (0, s5) else
      let t3 = tests_fuse asa t2;
          (ok6, s6) = AKD_SetMode kern (MODE_POWERDOWN E) s5 in if \<not> ok6 then Some (0, s6) else
      let (ok7, s7) = AKD_TxData E kern (REG_CNTL1 E) [CNTL1_ENABLE_TEMP E] s6 in if \<not> ok7 then Some (0, s7) else
      let (ok8, s8) = AKD_SetMode kern (MODE_SNG_MEASURE E) s7 in if \<not> ok8 then Some (0, s8) else
      case AKD_GetMagneticData E kern I2C_DATA s8 of None \<Rightarrow> None | Some (ok9, sng, s9) \<Rightarrow> if \<not> ok9 then Some (0, s9) else
      let t4 = tests_single sng t3;
          (ok10, s10) = AKD_SetMode kern (MODE_SELF_TEST E) s9 in if \<not> ok10 then Some (0, s10) else
      case AKD_GetMagneticData E kern I2C_DATA s10 of None \<Rightarrow> None | Some (ok11, slf, s11) \<Rightarrow> if \<not> ok11 then Some (0, s11) else
      Some (tests_self asa slf t4, s11))"

definition FST_Body :: "akm_env \<Rightarrow> akm_kernel \<Rightarrow> akm_dev \<Rightarrow> (int \<times> akm_dev) option" where
  "FST_Body E kern st = map_option (\<lambda>(r, st1). (TEST_DATA_frame r, st1)) (FST_AK09912 E kern st)"

section \<open>The factory test runs over its array\<close>

lemma FST_before_data:
  assumes "I2C_DATA < AKM_SENSOR_DATA_SIZE E + AKM_SENSOR_TIME_SIZE E"
  shows "FST_AK09912 E kern st = None \<or> (\<exists>st'. FST_AK09912 E kern st = Some (0, st'))"
  using assms by (auto simp: FST_AK09912_def AKD_GetMagneticData_def Let_def split: prod.split)

text \<open>The kernel answers every call, and stores enough bytes.\<close>

definition kernel_works :: "akm_kernel \<Rightarrow> bool" where
  "kernel_works kern \<longleftrightarrow> (\<forall>tr. 0 \<le> fst (kern tr))"

lemma kernel_worksD: "kernel_works kern \<Longrightarrow> \<not> fst (kern tr) < 0" "kernel_works kern \<Longrightarrow> 0 \<le> fst (kern tr)"
  by (auto simp: kernel_works_def not_less)

text \<open>C3: with a measurement and its time stamp of more than sixteen bytes the factory test never comes to a result: it ends
  in an error of the device, or clears bytes behind its array; a device that works always brings it to the latter.\<close>

theorem factory_test_overruns:
  assumes "16 < AKM_SENSOR_DATA_SIZE E + AKM_SENSOR_TIME_SIZE E"
  shows "(\<forall>r st'. FST_Body E kern st = Some (r, st') \<longrightarrow> r = 0)
    \<and> (kernel_works kern \<and> 0 \<le> s_fdDev st \<and> 4 \<le> AKM_RWBUF_SIZE E \<longrightarrow> FST_Body E kern st = None)"
proof
  have big: "I2C_DATA < AKM_SENSOR_DATA_SIZE E + AKM_SENSOR_TIME_SIZE E" using assms by (simp add: I2C_DATA_def)
  show "\<forall>r st'. FST_Body E kern st = Some (r, st') \<longrightarrow> r = 0"
    using FST_before_data [OF big, of kern st] by (auto simp: FST_Body_def TEST_DATA_frame_def)
  have "FST_Body E kern st = None" if k: "kernel_works kern" "0 \<le> s_fdDev st" "4 \<le> AKM_RWBUF_SIZE E"
  proof -
    have ok: "fst (akm_simple kern c s)" "s_fdDev (snd (akm_simple kern c s)) = s_fdDev s" if "0 \<le> s_fdDev s" for c s
      using k(1) that by (simp_all add: akm_simple_def akm_ioctl_def kernel_worksD Let_def case_prod_beta)
    have rx: "fst (AKD_RxData E kern a n s)" "s_fdDev (snd (snd (AKD_RxData E kern a n s))) = s_fdDev s"
      if "0 \<le> s_fdDev s" "n \<le> 3" for a n s
      using k(1,3) that by (simp_all add: AKD_RxData_def akm_fetch_def akm_ioctl_def kernel_worksD Let_def case_prod_beta)
    have none: "AKD_GetMagneticData E kern I2C_DATA s = None" for s using big by (simp add: AKD_GetMagneticData_def)
    show ?thesis using k(2,3) ok rx none
      by (simp add: FST_Body_def FST_AK09912_def AKD_Reset_def AKD_SetMode_def AKD_TxData_def case_prod_beta Let_def)
  qed
  then show "kernel_works kern \<and> 0 \<le> s_fdDev st \<and> 4 \<le> AKM_RWBUF_SIZE E \<longrightarrow> FST_Body E kern st = None" by blast
qed

definition ak_env :: akm_env where
  "ak_env = \<lparr>AKM_RWBUF_SIZE = 16, AKM_SENSOR_DATA_SIZE = 9, AKM_SENSOR_TIME_SIZE = 8, AKM_SENSOR_INFO_SIZE = 2,
     AKM_SENSOR_CONF_SIZE = 3, REG_WIA1 = 0, REG_CNTL1 = 0x30, REG_CNTL2 = 0x31, FUSE_ASAX = 0x60, MODE_FUSE_ACCESS = 0x1F,
     MODE_POWERDOWN = 0, MODE_SNG_MEASURE = 1, MODE_SELF_TEST = 0x10, CNTL1_ENABLE_TEMP = 0x80, LSG_per_g = 1024,
     rw_unset = (\<lambda>_. 0xA5)\<rparr>"

theorem factory_test_overruns_witness:
  "FST_Body ak_env (\<lambda>_. (0, [])) \<lparr>s_fdDev = 3, akm_calls = []\<rparr> = None"
  using factory_test_overruns [of ak_env "\<lambda>_. (0, [])" "\<lparr>s_fdDev = 3, akm_calls = []\<rparr>"] by (simp add: ak_env_def kernel_works_def)

section \<open>The verdict\<close>

lemma simple_works:
  assumes "kernel_works kern" and "0 \<le> s_fdDev s"
  shows "akm_simple kern c s = (True, s\<lparr>akm_calls := akm_calls s @ [c]\<rparr>)"
  using assms by (simp add: akm_simple_def akm_ioctl_def kernel_worksD Let_def case_prod_beta)

lemma RxData_works:
  assumes "kernel_works kern" and "0 \<le> s_fdDev s" and "n < AKM_RWBUF_SIZE E"
  shows "AKD_RxData E kern a n s
    = (True, rx_bytes E a n (snd (kern (akm_calls s @ [ECS_READ a n]))), s\<lparr>akm_calls := akm_calls s @ [ECS_READ a n]\<rparr>)"
  using assms by (auto simp: AKD_RxData_def akm_fetch_def akm_ioctl_def kernel_worksD Let_def case_prod_beta)

lemma GetMagneticData_works:
  assumes "kernel_works kern" and "0 \<le> s_fdDev s" and "AKM_SENSOR_DATA_SIZE E + AKM_SENSOR_TIME_SIZE E \<le> room"
  shows "AKD_GetMagneticData E kern room s
    = Some (True, stored (AKM_SENSOR_DATA_SIZE E + AKM_SENSOR_TIME_SIZE E) (snd (kern (akm_calls s @ [ECS_GET_DATA]))),
        s\<lparr>akm_calls := akm_calls s @ [ECS_GET_DATA]\<rparr>)"
  using assms by (simp add: AKD_GetMagneticData_def akm_ioctl_def kernel_worksD Let_def case_prod_beta not_less)

lemma TEST_DATA_known:
  "TEST_DATA v lo hi 1 = (if lo \<le> v \<and> v \<le> hi then 1 else - 1)"
  "TEST_DATA v lo hi (if b then 1 else - 1) = (if b \<and> lo \<le> v \<and> v \<le> hi then 1 else - 1)"
  by (simp_all add: TEST_DATA_def)

text \<open>The values tested with their limits, and what the kernel answered to call \<open>k\<close>.\<close>

definition fst_limits :: "8 word list \<Rightarrow> 8 word list \<Rightarrow> 8 word list \<Rightarrow> 8 word list \<Rightarrow> 8 word list \<Rightarrow> (int \<times> int \<times> int) list" where
  "fst_limits wia cntl asa sng slf =
     [(uint (wia ! 0), 0x48, 0x48), (uint (wia ! 1), 0x04, 0x04), (uint (cntl ! 0), 0x1F, 0x1F), (uint (asa ! 0), 1, 254),
      (uint (asa ! 1), 1, 254), (uint (asa ! 2), 1, 254), (uint (sng ! 0 AND 0x7F), 1, 1),
      (sint (hdata_of sng 0), - 32751, 32751), (sint (hdata_of sng 1), - 32751, 32751), (sint (hdata_of sng 2), - 32751, 32751),
      (uint (sng ! 7), 0x28, 0xE0), (uint (sng ! 8), 0, 0), (uint (slf ! 0 AND 0x7F), 1, 1),
      (adjusted (hdata_of slf 0) (asa ! 0), - 200, 200), (adjusted (hdata_of slf 1) (asa ! 1), - 200, 200),
      (adjusted (hdata_of slf 2) (asa ! 2), - 1600, - 400), (uint (slf ! 8), 0, 0)]"

definition fst_calls :: "akm_env \<Rightarrow> akm_call list" where
  "fst_calls E =
     [ECS_RESET, ECS_READ (REG_WIA1 E) 2, ECS_SET_MODE (MODE_FUSE_ACCESS E), ECS_READ (REG_CNTL2 E) 1, ECS_READ (FUSE_ASAX E) 3,
      ECS_SET_MODE (MODE_POWERDOWN E), ECS_WRITE (REG_CNTL1 E) [CNTL1_ENABLE_TEMP E], ECS_SET_MODE (MODE_SNG_MEASURE E),
      ECS_GET_DATA, ECS_SET_MODE (MODE_SELF_TEST E), ECS_GET_DATA]"

definition fst_answer :: "akm_env \<Rightarrow> akm_kernel \<Rightarrow> akm_dev \<Rightarrow> nat \<Rightarrow> nat \<Rightarrow> 8 word list" where
  "fst_answer E kern st n k =
     (let bs = snd (kern (akm_calls st @ take (Suc k) (fst_calls E)))
      in case fst_calls E ! k of ECS_READ a m \<Rightarrow> rx_bytes E a n bs | _ \<Rightarrow> stored n bs)"

lemma tests_verdict:
  "tests_self asa slf (tests_single sng (tests_fuse asa (TEST_DATA (uint (cntl ! 0)) 0x1F 0x1F (tests_reset wia 1))))
   = (if list_all (\<lambda>(v, lo, hi). lo \<le> v \<and> v \<le> hi) (fst_limits wia cntl asa sng slf) then 1 else - 1)"
  unfolding tests_self_def tests_single_def tests_fuse_def tests_reset_def comp_def TEST_DATA_known fst_limits_def
  by (simp only: list.pred_inject prod.case conj_assoc simp_thms)

text \<open>C40: when a measurement fits the test's array and the device works, the test makes its eleven calls in order and passes
  exactly when each of the seventeen values read lies within its limits.\<close>

theorem factory_test_verdict:
  assumes "kernel_works kern" and "0 \<le> s_fdDev st" and "4 \<le> AKM_RWBUF_SIZE E"
    and "n = AKM_SENSOR_DATA_SIZE E + AKM_SENSOR_TIME_SIZE E" and "n \<le> 16"
  shows "FST_Body E kern st = Some
    (if list_all (\<lambda>(v, lo, hi). lo \<le> v \<and> v \<le> hi)
          (fst_limits (fst_answer E kern st 2 1) (fst_answer E kern st 1 3) (fst_answer E kern st 3 4) (fst_answer E kern st n 8)
            (fst_answer E kern st n 10))
     then 1 else - 1, st\<lparr>akm_calls := akm_calls st @ fst_calls E\<rparr>)"
proof -
  have room: "AKM_SENSOR_DATA_SIZE E + AKM_SENSOR_TIME_SIZE E \<le> I2C_DATA" using assms(4,5) by (simp add: I2C_DATA_def)
  have "FST_AK09912 E kern st = Some
    (tests_self (fst_answer E kern st 3 4) (fst_answer E kern st n 10) (tests_single (fst_answer E kern st n 8)
       (tests_fuse (fst_answer E kern st 3 4) (TEST_DATA (uint (fst_answer E kern st 1 3 ! 0)) 0x1F 0x1F
          (tests_reset (fst_answer E kern st 2 1) 1)))), st\<lparr>akm_calls := akm_calls st @ fst_calls E\<rparr>)"
    using assms(2,3)
    by (simp add: FST_AK09912_def AKD_Reset_def AKD_SetMode_def AKD_TxData_def simple_works [OF assms(1)] RxData_works [OF assms(1)]
        GetMagneticData_works [OF assms(1) _ room] fst_answer_def fst_calls_def assms(4) numeral_eq_Suc)
  then show ?thesis unfolding tests_verdict by (simp add: FST_Body_def TEST_DATA_frame_def)
qed

definition good_kernel :: akm_kernel where
  "good_kernel tr = (0,
     case last tr of
       ECS_READ a n \<Rightarrow> (if a = 0 then [0x48, 0x04] else if a = 0x31 then [0x1F] else [128, 128, 128])
     | ECS_GET_DATA \<Rightarrow> (if length tr = 9 then [1, 0, 0, 0, 0, 0, 0, 0x80, 0] else [1, 0, 0, 0, 0, 0x18, 0xFC, 0x80, 0])
     | _ \<Rightarrow> [])"

definition fitting_env :: akm_env where
  "fitting_env = ak_env\<lparr>AKM_SENSOR_TIME_SIZE := 7\<rparr>"

lemma good_answers:
  "fst_answer fitting_env good_kernel \<lparr>s_fdDev = 3, akm_calls = []\<rparr> 2 1 = [0x48, 0x04]"
  "fst_answer fitting_env good_kernel \<lparr>s_fdDev = 3, akm_calls = []\<rparr> 1 3 = [0x1F]"
  "fst_answer fitting_env good_kernel \<lparr>s_fdDev = 3, akm_calls = []\<rparr> 3 4 = [128, 128, 128]"
  "fst_answer fitting_env good_kernel \<lparr>s_fdDev = 3, akm_calls = []\<rparr> 16 8 = [1, 0, 0, 0, 0, 0, 0, 0x80, 0] @ replicate 7 0"
  "fst_answer fitting_env good_kernel \<lparr>s_fdDev = 3, akm_calls = []\<rparr> 16 10 = [1, 0, 0, 0, 0, 0x18, 0xFC, 0x80, 0] @ replicate 7 0"
  by (simp_all add: fst_answer_def fst_calls_def stored_def rx_bytes_def good_kernel_def fitting_env_def ak_env_def)

lemma good_values:
  "list_all (\<lambda>(v, lo, hi). lo \<le> v \<and> v \<le> hi)
     (fst_limits [0x48, 0x04] [0x1F] [128, 128, 128] ([1, 0, 0, 0, 0, 0, 0, 0x80, 0] @ replicate 7 0)
       ([1, 0, 0, 0, 0, 0x18, 0xFC, 0x80, 0] @ replicate 7 0))"
  by (simp add: fst_limits_def hdata_of_def le_word_def adjusted_def signed_divide_int_def)

theorem factory_test_verdict_witness:
  "FST_Body fitting_env good_kernel \<lparr>s_fdDev = 3, akm_calls = []\<rparr> = Some (1, \<lparr>s_fdDev = 3, akm_calls = fst_calls fitting_env\<rparr>)"
proof -
  have "kernel_works good_kernel" by (simp add: kernel_works_def good_kernel_def)
  moreover have "4 \<le> AKM_RWBUF_SIZE fitting_env" "16 = AKM_SENSOR_DATA_SIZE fitting_env + AKM_SENSOR_TIME_SIZE fitting_env"
    by (simp_all add: fitting_env_def ak_env_def)
  ultimately show ?thesis
    using factory_test_verdict [of good_kernel "\<lparr>s_fdDev = 3, akm_calls = []\<rparr>" fitting_env 16] by (simp add: good_answers good_values [simplified append.simps] del: One_nat_def)
qed

section \<open>Waiting for the hub\<close>

text \<open>The daemon does not wait for a hub that is still booting: whatever the kernel answers it is asked once, and an error
  fails the start.\<close>

theorem wait_ready_asks_once:
  assumes "0 \<le> s_fdDev st"
  shows "\<exists>ok. AKD_WaitReady kern status st = (ok, st\<lparr>akm_calls := akm_calls st @ [ECS_CHECK_READY]\<rparr>)
    \<and> (fst (kern (akm_calls st @ [ECS_CHECK_READY])) < 0 \<longrightarrow> \<not> ok)"
  using assms by (simp add: AKD_WaitReady_def akm_ioctl_def EAGAIN_NUM_def Let_def numeral_eq_Suc)

theorem wait_ready_asks_once_witness:
  "\<exists>ok. AKD_WaitReady (\<lambda>_. (- 11, [])) 0 \<lparr>s_fdDev = 3, akm_calls = []\<rparr> = (ok, \<lparr>s_fdDev = 3, akm_calls = [ECS_CHECK_READY]\<rparr>) \<and> \<not> ok"
  using wait_ready_asks_once [of "\<lparr>s_fdDev = 3, akm_calls = []\<rparr>" "\<lambda>_. (- 11, [])" 0] by auto

section \<open>Layouts and times\<close>

definition back_layout :: "nat \<Rightarrow> nat" where
  "back_layout pat = (if pat = 2 then 4 else if pat = 4 then 2 else pat)"

text \<open>Each of the eight layouts only turns the vector: another layout turns it back, and its squared length is the same
  modulo the width of the numbers.\<close>

theorem layouts_turn_back:
  assumes "1 \<le> pat" and "pat \<le> 8"
  shows "ConvertCoordinate (back_layout pat) (snd (ConvertCoordinate pat v)) = (True, v)
    \<and> fst (ConvertCoordinate pat v)
    \<and> (let u = snd (ConvertCoordinate pat v) in vx u * vx u + vy u * vy u + vz u * vz u = vx v * vx v + vy v * vy v + vz v * vz v)"
proof -
  from assms have "pat = 1 \<or> pat = 2 \<or> pat = 3 \<or> pat = 4 \<or> pat = 5 \<or> pat = 6 \<or> pat = 7 \<or> pat = 8" by arith
  then show ?thesis by (elim disjE) (simp_all add: ConvertCoordinate_def back_layout_def Let_def)
qed

theorem layouts_turn_back_witness:
  "ConvertCoordinate 4 (snd (ConvertCoordinate 2 \<lparr>vx = 1, vy = 2, vz = 3\<rparr>)) = (True, \<lparr>vx = 1, vy = 2, vz = 3\<rparr>)"
  using layouts_turn_back [of 2 "\<lparr>vx = 1, vy = 2, vz = 3\<rparr>"] by (simp add: back_layout_def)

text \<open>A time of a second or more does not survive the conversion to \<open>timespec\<close> and back: the seconds are counted twice.\<close>

theorem timespec_counts_seconds_twice:
  assumes "0 \<le> val"
  shows "timespec_to_int64 (int64_to_timespec val) = val + (val div 1000000000) * 999999999
    \<and> (timespec_to_int64 (int64_to_timespec val) = val \<longleftrightarrow> val < 1000000000)"
proof -
  have d: "val sdiv 1000000000 = val div 1000000000" using assms by (simp add: signed_divide_int_def sgn_if)
  have e: "timespec_to_int64 (int64_to_timespec val) = val + (val div 1000000000) * 999999999"
    by (simp add: timespec_to_int64_def int64_to_timespec_def Let_def d)
  have "val div 1000000000 = 0 \<longleftrightarrow> val < 1000000000" using assms by (auto simp: zdiv_eq_0_iff)
  with e show ?thesis by simp
qed

theorem timespec_counts_seconds_twice_witness:
  "timespec_to_int64 (int64_to_timespec 2500000000) = 4499999998"
  using timespec_counts_seconds_twice [of 2500000000] by simp

lemma decimator_filter:
  "decimator org is cur = (case filter (\<lambda>i. org \<le> fst i) is of [] \<Rightarrow> last (cur # is) | i # _ \<Rightarrow> i)"
  by (induction "is" arbitrary: cur) (auto split: list.split)

text \<open>The interval chosen for the magnetometer is the first, that is the shortest, of the table that is not shorter than
  the one asked for, or the last when all are, and comes with its own decimation.\<close>

theorem interval_rounded_up:
  "GetHDOEDecimator time = (case filter (\<lambda>i. time \<le> fst i) s_interval of [] \<Rightarrow> (1000000000, 1) | i # _ \<Rightarrow> i)
   \<and> sorted (map fst s_interval)"
  unfolding GetHDOEDecimator_def decimator_filter by (simp add: s_interval_def)

end
