(* ===== verification/Akm_Measure.thy ===== *)
theory Akm_Measure
  imports Akm_Device
begin

text \<open>
  The measurement of the compass daemon (\<open>Measure.c\<close>) and its main program (\<open>main.c\<close>). The calibration library is
  closed; its functions are the fields of \<open>smart_compass\<close>, of which nothing is assumed.
\<close>

section \<open>The library\<close>

record decomposed =
  dc_ret :: int
  dc_hdata :: "int16vec list"
  dc_hbase :: int32vec
  dc_hn :: "16 word"
  dc_have :: int16vec
  dc_derr :: bool
  dc_hofl :: bool
  dc_cb :: bool

record direction =
  dr_ret :: int
  dr_theta :: "16 word"
  dr_delta :: "16 word"
  dr_hr :: "16 word"
  dr_hrhoriz :: "16 word"
  dr_ar :: "16 word"
  dr_phi180 :: "16 word"
  dr_phi90 :: "16 word"
  dr_eta180 :: "16 word"
  dr_eta90 :: "16 word"
  dr_mat :: "16 word list"
  dr_quat :: "16 word list"

record ('hf, 'hd) smart_compass =
  GetVersion_Device :: "16 word"
  InitDecomp :: "int16vec list \<Rightarrow> int16vec list"
  InitHDOEProcPrmsS3 :: "'hd \<Rightarrow> int16vec \<Rightarrow> int \<Rightarrow> 'hd"
  InitHFlucCheck :: "'hf \<Rightarrow> int16vec \<Rightarrow> 'hf"
  DecompS3 :: "int list \<Rightarrow> 16 word \<Rightarrow> int16vec \<Rightarrow> 8 word list option \<Rightarrow> int16vec list \<Rightarrow> int32vec \<Rightarrow> decomposed"
  SetHDOELevel :: "'hd \<Rightarrow> int16vec \<Rightarrow> int \<Rightarrow> 'hd"
  TransByHbase :: "int32vec \<Rightarrow> int32vec \<Rightarrow> int16vec \<Rightarrow> int32vec \<Rightarrow> int16vec \<times> int32vec \<times> bool"
  HFlucCheck :: "'hf \<Rightarrow> int16vec \<Rightarrow> bool \<times> 'hf"
  hf_href :: "'hf \<Rightarrow> int16vec"
  HDOEProcessS3 :: "string \<Rightarrow> string \<Rightarrow> 16 word list \<Rightarrow> 'hd \<Rightarrow> int16vec list \<Rightarrow> 16 word \<Rightarrow> int16vec \<Rightarrow> int \<Rightarrow> int \<times> 'hd \<times> int16vec \<times> int"
  VNorm :: "int16vec \<Rightarrow> int16vec \<Rightarrow> int16vec \<Rightarrow> int16vec option"
  DirectionS3 :: "string \<Rightarrow> string \<Rightarrow> 16 word list \<Rightarrow> int16vec \<Rightarrow> int16vec \<Rightarrow> int16vec \<Rightarrow> direction \<Rightarrow> direction"
  ThetaFilter :: "16 word \<Rightarrow> 16 word \<Rightarrow> 16 word"

definition CERTIFICATION_DENIED :: int where "CERTIFICATION_DENIED = - 32768"
definition CSPEC_CI_LICENSER :: string where "CSPEC_CI_LICENSER = ''ASAHIKASEI''"
definition CSPEC_CI_LICENSEE :: string where "CSPEC_CI_LICENSEE = ''MOTOROLA''"
definition CSPEC_CNTSUSPEND_SNG :: int where "CSPEC_CNTSUSPEND_SNG = 8"

definition AKRET_PROC_SUCCEED :: int where "AKRET_PROC_SUCCEED = 0"
definition AKRET_FORMATION_CHANGED :: int where "AKRET_FORMATION_CHANGED = 1"
definition AKRET_DATA_READERROR :: int where "AKRET_DATA_READERROR = 2"
definition AKRET_DATA_OVERFLOW :: int where "AKRET_DATA_OVERFLOW = 4"
definition AKRET_OFFSET_OVERFLOW :: int where "AKRET_OFFSET_OVERFLOW = 8"
definition AKRET_HBASE_CHANGED :: int where "AKRET_HBASE_CHANGED = 16"
definition AKRET_HFLUC_OCCURRED :: int where "AKRET_HFLUC_OCCURRED = 32"
definition AKRET_VNORM_ERROR :: int where "AKRET_VNORM_ERROR = 64"
definition AKRET_PROC_FAIL :: int where "AKRET_PROC_FAIL = 128"

definition widen :: "int16vec \<Rightarrow> int32vec" where
  "widen v = \<lparr>wx = scast (vx v), wy = scast (vy v), wz = scast (vz v)\<rparr>"

type_synonym ('hf, 'hd) prms_step = "('hf, 'hd) akscprms \<Rightarrow> int \<times> ('hf, 'hd) akscprms"

section \<open>Starting\<close>

text \<open>The block that \<open>Init_Measure\<close> and \<open>GetMagneticVector\<close> share: the values of the last success for the formation.\<close>

definition restore_formation :: "('hf, 'hd) smart_compass \<Rightarrow> ('hf, 'hd) akscprms \<Rightarrow> ('hf, 'hd) akscprms" where
  "restore_formation L p =
     (let i = m_form p; ho = HSUC_HO p ! i; level = HSUC_HDST p ! i
      in p\<lparr>m_ho := ho, m_ho32 := widen ho, m_hdst := level, m_hbase := HSUC_HBASE p ! i, m_hdata := InitDecomp L (m_hdata p),
           m_hdoev := InitHDOEProcPrmsS3 L (m_hdoev p) ho level,
           m_hflucv := InitHFlucCheck L (m_hflucv p) (HFLUCV_HREF p ! i)\<rparr>)"

text \<open>No class of formations is registered (\<open>ENABLE_FORMATION\<close> is not set), so \<open>checkForm\<close> answers 0.\<close>

definition checkForm :: nat where "checkForm = 0"

definition Init_Measure :: "('hf, 'hd) smart_compass \<Rightarrow> ('hf, 'hd) akscprms \<Rightarrow> ('hf, 'hd) akscprms" where
  "Init_Measure L p = (restore_formation L (p\<lparr>m_form := checkForm\<rparr>))\<lparr>m_cntSuspend := 0, m_callcnt := 0\<rparr>"

definition ReadFUSEROM :: "('hf, 'hd) smart_compass \<Rightarrow> akm_env \<Rightarrow> akm_kernel \<Rightarrow> ('hf, 'hd) akscprms \<Rightarrow> akm_dev \<Rightarrow>
    bool \<times> ('hf, 'hd) akscprms \<times> akm_dev" where
  "ReadFUSEROM L E kern p st =
     (let (ok, info, st1) = AKD_GetSensorInfo E kern st in if \<not> ok then (False, p, st1) else
      let (ok2, conf, st2) = AKD_GetSensorConf E kern st1 in if \<not> ok2 then (False, p, st2) else
      let asa = \<lparr>vx = ucast (conf ! 0), vy = ucast (conf ! 1), vz = ucast (conf ! 2)\<rparr>; p1 = p\<lparr>m_asa := asa\<rparr>
      in if vx asa = 0 \<or> vy asa = 0 \<or> vz asa = 0 then (False, p1, st2)
         else (True, p1\<lparr>m_key := [GetVersion_Device L, le_word (info ! 0) (info ! 1), vx asa, vy asa, vz asa] @ drop 5 (m_key p1),
                        m_licenser := CSPEC_CI_LICENSER, m_licensee := CSPEC_CI_LICENSEE\<rparr>, st2))"

section \<open>A measurement\<close>

definition unsolved :: "('hf, 'hd) smart_compass \<Rightarrow> ('hf, 'hd) akscprms \<Rightarrow> ('hf, 'hd) akscprms" where
  "unsolved L p = p\<lparr>m_hdoev := SetHDOELevel L (m_hdoev p) (m_ho p) AKSC_HDST_UNSOLVED, m_hdst := AKSC_HDST_UNSOLVED\<rparr>"

text \<open>The formation is suspended for some calls after a change; with the last one the values of the formation come back.\<close>

definition count_suspend :: "('hf, 'hd) smart_compass \<Rightarrow> ('hf, 'hd) akscprms \<Rightarrow> ('hf, 'hd) akscprms" where
  "count_suspend L p =
     (if m_cntSuspend p > 0
      then let p1 = p\<lparr>m_cntSuspend := m_cntSuspend p - 1\<rparr> in if m_cntSuspend p1 = 0 then restore_formation L p1 else p1
      else p)"

text \<open>The base moved: the offset is translated, and the level is lost unless suspended.\<close>

definition base_changed :: "('hf, 'hd) smart_compass \<Rightarrow> int32vec \<Rightarrow> ('hf, 'hd) prms_step" where
  "base_changed L preHbase p =
     (let (ho, ho32, overflow) = TransByHbase L preHbase (m_hbase p) (m_ho p) (m_ho32 p);
          p1 = p\<lparr>m_ho := ho, m_ho32 := ho32, m_hflucv := InitHFlucCheck L (m_hflucv p) zero_vec\<rparr>
      in ((if overflow then AKRET_OFFSET_OVERFLOW else 0) + AKRET_HBASE_CHANGED, if m_cntSuspend p1 \<le> 0 then unsolved L p1 else p1))"

text \<open>The estimate of the offset, in every \<open>hDecimator\<close>-th call. \<open>None\<close>: the library refuses the certification.\<close>

definition keep_success :: "('hf, 'hd) smart_compass \<Rightarrow> ('hf, 'hd) akscprms \<Rightarrow> ('hf, 'hd) akscprms" where
  "keep_success L p =
     (let i = m_form p
      in p\<lparr>HSUC_HO := (HSUC_HO p)[i := m_ho p], m_ho32 := widen (m_ho p), HSUC_HDST := (HSUC_HDST p)[i := m_hdst p],
           HFLUCV_HREF := (HFLUCV_HREF p)[i := hf_href L (m_hflucv p)], HSUC_HBASE := (HSUC_HBASE p)[i := m_hbase p]\<rparr>)"

definition estimate_offset :: "('hf, 'hd) smart_compass \<Rightarrow> int \<Rightarrow> ('hf, 'hd) akscprms \<Rightarrow> bool \<times> ('hf, 'hd) akscprms" where
  "estimate_offset L hDecimator p =
     (let p1 = p\<lparr>m_callcnt := m_callcnt p - 1\<rparr>
      in if m_callcnt p1 \<le> 0
         then
           let (succ, doe, ho, level) = HDOEProcessS3 L (m_licenser p1) (m_licensee p1) (m_key p1) (m_hdoev p1) (m_hdata p1) (m_hn p1) (m_ho p1) (m_hdst p1);
               p2 = p1\<lparr>m_hdoev := doe, m_ho := ho, m_hdst := level\<rparr>
           in if succ = CERTIFICATION_DENIED then (False, p2)
              else (True, (if succ > 0 then keep_success L p2 else p2)\<lparr>m_callcnt := hDecimator\<rparr>)
         else (True, p1))"

definition normalise :: "('hf, 'hd) smart_compass \<Rightarrow> int16vec \<Rightarrow> ('hf, 'hd) prms_step" where
  "normalise L have p =
     (case VNorm L have (m_ho p) (m_hs p) of
        None \<Rightarrow> (AKRET_VNORM_ERROR, p)
      | Some v \<Rightarrow> (AKRET_PROC_SUCCEED, p\<lparr>m_hvec := snd (ConvertCoordinate (m_hlayout p) v)\<rparr>))"

definition GetMagneticVector :: "('hf, 'hd) smart_compass \<Rightarrow> int list \<Rightarrow> nat \<Rightarrow> int \<Rightarrow> ('hf, 'hd) prms_step" where
  "GetMagneticVector L bData curForm hDecimator p =
     (let preHbase = m_hbase p;
          p1 = count_suspend L p;
          d = DecompS3 L bData (m_hnave p1) (m_asa p1) (if m_pdcptr p1 then Some (m_pdc p1) else None) (m_hdata p1) (m_hbase p1);
          p2 = p1\<lparr>m_hdata := dc_hdata d, m_hbase := dc_hbase d, m_hn := dc_hn d\<rparr>
      in if dc_ret d = 0 then (AKRET_PROC_FAIL, p2)
         else if m_form p2 \<noteq> curForm
         then (AKRET_FORMATION_CHANGED, p2\<lparr>m_form := curForm, m_cntSuspend := CSPEC_CNTSUSPEND_SNG, m_callcnt := 0\<rparr>)
         else if dc_derr d then (AKRET_DATA_READERROR, p2)
         else if dc_hofl d then (AKRET_DATA_OVERFLOW, if m_cntSuspend p2 \<le> 0 then unsolved L p2 else p2)
         else if dc_cb d then base_changed L preHbase p2
         else if m_cntSuspend p2 \<le> 0
         then
           let (hfluc, hf) = HFlucCheck L (m_hflucv p2) (hd (m_hdata p2)); p3 = p2\<lparr>m_hflucv := hf\<rparr>
           in if hfluc then (AKRET_HFLUC_OCCURRED, unsolved L p3)
              else case estimate_offset L hDecimator p3 of
                (ok, p4) \<Rightarrow> if ok then normalise L (dc_have d) p4 else (AKRET_PROC_FAIL, p4)
         else normalise L (dc_have d) p2)"

section \<open>The direction\<close>

definition old_direction :: "('hf, 'hd) akscprms \<Rightarrow> direction" where
  "old_direction p =
     \<lparr>dr_ret = m_d6dRet p, dr_theta = m_theta p, dr_delta = m_delta p, dr_hr = m_hr p, dr_hrhoriz = m_hrhoriz p,
      dr_ar = m_ar p, dr_phi180 = m_phi180 p, dr_phi90 = m_phi90 p, dr_eta180 = m_eta180 p,
      dr_eta90 = m_eta90 p, dr_mat = m_mat p, dr_quat = m_quat p\<rparr>"

definition CalcDirection :: "('hf, 'hd) smart_compass \<Rightarrow> ('hf, 'hd) akscprms \<Rightarrow> bool \<times> ('hf, 'hd) akscprms" where
  "CalcDirection L p =
     (let d = DirectionS3 L (m_licenser p) (m_licensee p) (m_key p) (m_hvec p) (m_avec p) (m_dvec p) (old_direction p);
          p1 = p\<lparr>m_d6dRet := dr_ret d, m_theta := ThetaFilter L (dr_theta d) (m_theta p),
                 m_delta := dr_delta d, m_hr := dr_hr d, m_hrhoriz := dr_hrhoriz d, m_ar := dr_ar d, m_phi180 := dr_phi180 d,
                 m_phi90 := dr_phi90 d, m_eta180 := dr_eta180 d, m_eta90 := dr_eta90 d, m_mat := dr_mat d, m_quat := dr_quat d\<rparr>
      in if m_d6dRet p1 = CERTIFICATION_DENIED then (False, p1)
         else (True, if odd (m_d6dRet p1 div 2) then p1\<lparr>m_eta180 := - m_eta180 p1, m_eta90 := - m_eta90 p1\<rparr> else p1))"

text \<open>The offset of the accelerometer, from the console mode. The pause until the device has started is left out.\<close>

definition AKMD_ACC_INTERVAL :: int where "AKMD_ACC_INTERVAL = 50000000"

definition SimpleCalibration :: "('hf, 'hd) akscprms \<Rightarrow> bool \<times> ('hf, 'hd) akscprms" where
  "SimpleCalibration p =
     (if \<not> AOT_SetEnable True then (False, p)
      else if \<not> AOT_SetDelay AKMD_ACC_INTERVAL then (False, p)
      else let p1 = p\<lparr>m_AO := snd AOT_GetAccOffset\<rparr> in (AOT_SetEnable False, p1))"

section \<open>The loop\<close>

text \<open>What is sent to the driver, except the time.\<close>

definition report_buffer :: "16 word \<Rightarrow> ('hf, 'hd) akscprms \<Rightarrow> int list" where
  "report_buffer flag p =
     (let raw = snd (ConvertCoordinate (m_hlayout p) (hd (m_hdata p)))
      in [uint flag, sint (vx (m_avec p)), sint (vy (m_avec p)), sint (vz (m_avec p)), 3,
          sint (vx (m_hvec p)), sint (vy (m_hvec p)), sint (vz (m_hvec p)), m_hdst p,
          sint (m_theta p), sint (m_phi180 p), sint (m_eta90 p),
          sint (m_quat p ! 2), - sint (m_quat p ! 1), - sint (m_quat p ! 3), sint (m_quat p ! 0),
          sint (vx raw), sint (vy raw), sint (vz raw)])"

definition Disp_MeasurementResultHook :: "akm_kernel \<Rightarrow> 16 word \<Rightarrow> 8 word list \<Rightarrow> ('hf, 'hd) akscprms \<Rightarrow> akm_dev \<Rightarrow> akm_dev" where
  "Disp_MeasurementResultHook kern flag time p = AKD_SetYPR kern (report_buffer flag p) time"

text \<open>The delay of the magnetometer is the second of three 64-bit numbers. Only the decimation leaves the function.\<close>

definition delay_bytes :: nat where "delay_bytes = 24"

definition signed64 :: "8 word list \<Rightarrow> int" where
  "signed64 bs = sint (word_of_int (foldr (\<lambda>b acc. uint b + 256 * acc) bs 0) :: 64 word)"

definition GetInterval :: "akm_kernel \<Rightarrow> int \<Rightarrow> akm_dev \<Rightarrow> bool \<times> int \<times> akm_dev" where
  "GetInterval kern hdoe st =
     (case akm_fetch kern ECS_GET_DELAY delay_bytes st of
        (ok, bs, st1) \<Rightarrow>
          if \<not> ok then (False, hdoe, st1)
          else let delay1 = signed64 (take 8 (drop 8 bs))
               in (True, if 0 \<le> delay1 then snd (GetHDOEDecimator delay1) else hdoe, st1))"

text \<open>The timer of an event, which only disabled code of the loop calls.\<close>

record akmd_loop_time =
  lt_interval :: int
  lt_duration :: int

definition AKMD_LOOP_MARGIN :: int where "AKMD_LOOP_MARGIN = 3000000"

definition SetLoopTime :: "int \<Rightarrow> akmd_loop_time \<times> int \<Rightarrow> bool \<times> akmd_loop_time \<times> int" where
  "SetLoopTime execTime = (\<lambda>(tm, minDuration).
     if lt_interval tm < 0 then (False, tm, minDuration)
     else let d = lt_duration tm - execTime
          in if d \<le> AKMD_LOOP_MARGIN then (True, tm\<lparr>lt_duration := lt_interval tm\<rparr>, minDuration)
             else (False, tm\<lparr>lt_duration := d\<rparr>, min d minDuration))"

text \<open>The variables of the loop: the flags, which nothing sets, the decimation, and the time stamp of the last measurement.\<close>

record loop_vars =
  exec_flags :: "16 word"
  hdoe_interval :: int
  lp_time :: "8 word list"

type_synonym ('hf, 'hd) loop_state = "loop_vars \<times> ('hf, 'hd) akscprms \<times> akm_dev"

definition magnetic_part :: "('hf, 'hd) smart_compass \<Rightarrow> akm_env \<Rightarrow> akm_kernel \<Rightarrow> ('hf, 'hd) loop_state \<Rightarrow> ('hf, 'hd) loop_state" where
  "magnetic_part L E kern = (\<lambda>(v, p, st).
     case AKD_GetMagneticData E kern (AKM_SENSOR_DATA_SIZE E + AKM_SENSOR_TIME_SIZE E) st of
       None \<Rightarrow> (v, p, st)
     | Some (ok, bs, st1) \<Rightarrow>
         if \<not> ok then (v\<lparr>exec_flags := exec_flags v AND NOT (push_bit 11 1)\<rparr>, p, snd (AKD_Reset kern st1))
         else (v\<lparr>lp_time := drop (AKM_SENSOR_DATA_SIZE E) bs\<rparr>,
               snd (GetMagneticVector L (map uint (take (AKM_SENSOR_DATA_SIZE E) bs)) checkForm (hdoe_interval v) p), st1))"

text \<open>One turn; \<open>None\<close> in front is the \<open>break\<close> when the acceleration cannot be read.\<close>

definition measure_turn :: "('hf, 'hd) smart_compass \<Rightarrow> akm_env \<Rightarrow> akm_kernel \<Rightarrow> ('hf, 'hd) loop_state \<Rightarrow>
    bool \<times> ('hf, 'hd) loop_state" where
  "measure_turn L E kern s =
     (case magnetic_part L E kern s of
        (v, p, st) \<Rightarrow>
          (case AOT_GetAccData E kern st of
             (None, st1) \<Rightarrow> (False, v, p, st1)
           | (Some acc, st1) \<Rightarrow>
               let p1 = p\<lparr>m_avec := AOT_GetAccVector acc (m_AO p)\<rparr>;
                   p2 = snd (CalcDirection L p1);
                   st2 = Disp_MeasurementResultHook kern (exec_flags v AND 0x0F) (lp_time v) p2 st1;
                   (ok, hdoe, st3) = GetInterval kern (hdoe_interval v) st2
               in (True, v\<lparr>hdoe_interval := hdoe\<rparr>, p2, st3)))"

fun measure_turns :: "('hf, 'hd) smart_compass \<Rightarrow> akm_env \<Rightarrow> akm_kernel \<Rightarrow> nat \<Rightarrow> ('hf, 'hd) loop_state \<Rightarrow> ('hf, 'hd) loop_state" where
  "measure_turns L E kern 0 s = s"
| "measure_turns L E kern (Suc n) s =
     (case measure_turn L E kern s of (go, s1) \<Rightarrow> if go then measure_turns L E kern n s1 else s1)"

text \<open>\<open>n\<close> is how many turns there are before the stop is requested; \<open>junk\<close> what the variables hold at first.\<close>

definition MeasureSNGLoop :: "('hf, 'hd) smart_compass \<Rightarrow> akm_env \<Rightarrow> akm_kernel \<Rightarrow> 16 word \<times> 8 word list \<Rightarrow> nat \<Rightarrow>
    ('hf, 'hd) akscprms \<Rightarrow> akm_dev \<Rightarrow> ('hf, 'hd) akscprms \<times> akm_dev" where
  "MeasureSNGLoop L E kern junk n p st =
     (let p1 = Init_Measure L p;
          (ok, hdoe, st1) = GetInterval kern 1 st;
          (v, p2, st2) = (if ok then measure_turns L E kern n (\<lparr>exec_flags = fst junk, hdoe_interval = hdoe, lp_time = snd junk\<rparr>, p1, st1)
                          else (\<lparr>exec_flags = fst junk, hdoe_interval = hdoe, lp_time = snd junk\<rparr>, p1, st1))
      in (p2, snd (AKD_SetMode kern (MODE_POWERDOWN E) st2)))"

end
