(* ===== verification/Akm_Props.thy ===== *)
theory Akm_Props
  imports Akm_Measure
begin

text \<open>
  Properties of the measurement loop of the compass daemon, for any behaviour of the calibration library: which values are
  saved, what is left alone while the formation is suspended and after an error, and what the reports carry.
\<close>

section \<open>What is saved\<close>

definition saved :: "('hf, 'hd) akscprms \<Rightarrow> int16vec list \<times> int list \<times> int16vec list \<times> int32vec list" where
  "saved p = (HSUC_HO p, HSUC_HDST p, HFLUCV_HREF p, HSUC_HBASE p)"

lemma saved_steps [simp]:
  "saved (count_suspend L p) = saved p" "saved (unsolved L p) = saved p" "saved (restore_formation L p) = saved p"
  by (simp_all add: saved_def count_suspend_def restore_formation_def unsolved_def Let_def)

lemma form_steps [simp]:
  "m_form (count_suspend L p) = m_form p" "m_form (unsolved L p) = m_form p" "m_form (restore_formation L p) = m_form p"
  "m_form (snd (base_changed L b p)) = m_form p" "m_form (snd (estimate_offset L n p)) = m_form p" "m_form (snd (normalise L h p)) = m_form p"
  by (simp_all add: count_suspend_def restore_formation_def unsolved_def base_changed_def estimate_offset_def keep_success_def
      normalise_def Let_def case_prod_beta split: option.split)

lemma saved_base [simp]: "saved (snd (base_changed L b p)) = saved p"
  by (simp add: base_changed_def case_prod_beta Let_def) (simp add: saved_def)

lemma saved_normalise [simp]: "saved (snd (normalise L h p)) = saved p"
  by (simp add: normalise_def saved_def split: option.split)

text \<open>The values in use.\<close>

definition in_use :: "('hf, 'hd) akscprms \<Rightarrow> int16vec \<times> int \<times> int32vec" where
  "in_use p = (m_ho p, m_hdst p, m_hbase p)"

definition saves_values :: "('hf, 'hd) akscprms \<Rightarrow> ('hf, 'hd) akscprms \<Rightarrow> bool" where
  "saves_values p p' \<longleftrightarrow> HSUC_HO p' = (HSUC_HO p)[m_form p := m_ho p'] \<and> HSUC_HDST p' = (HSUC_HDST p)[m_form p := m_hdst p']
     \<and> HSUC_HBASE p' = (HSUC_HBASE p)[m_form p := m_hbase p']"

lemma estimate_saves:
  "saved (snd (estimate_offset L n p)) = saved p \<or> fst (estimate_offset L n p) \<and> saves_values p (snd (estimate_offset L n p))"
  by (auto simp: estimate_offset_def keep_success_def saves_values_def saved_def Let_def case_prod_beta)

lemma normalise_keeps:
  "saves_values p q \<Longrightarrow> saves_values p (snd (normalise L h q))" "m_cntSuspend (snd (normalise L h q)) = m_cntSuspend q"
  by (simp_all add: normalise_def saves_values_def split: option.split)

lemma estimate_suspend [simp]: "m_cntSuspend (snd (estimate_offset L n p)) = m_cntSuspend p"
  by (simp add: estimate_offset_def keep_success_def Let_def case_prod_beta)

lemma saves_after: "saved q = saved p \<Longrightarrow> m_form q = m_form p \<Longrightarrow> saves_values q r \<Longrightarrow> saves_values p r"
  by (simp add: saved_def saves_values_def)

text \<open>C36: a measurement leaves the saved offset, level and base as they are, or replaces those of its formation by the ones then
  in use; the latter never happens while the formation is suspended.\<close>

theorem saves_only_estimates:
  "saved (snd (GetMagneticVector L bs form n p)) = saved p
   \<or> saves_values p (snd (GetMagneticVector L bs form n p)) \<and> m_cntSuspend (snd (GetMagneticVector L bs form n p)) \<le> 0"
proof -
  define p1 where "p1 = count_suspend L p"
  define d where "d = DecompS3 L bs (m_hnave p1) (m_asa p1) (if m_pdcptr p1 then Some (m_pdc p1) else None) (m_hdata p1) (m_hbase p1)"
  define p2 where "p2 = p1\<lparr>m_hdata := dc_hdata d, m_hbase := dc_hbase d, m_hn := dc_hn d\<rparr>"
  define p3 where "p3 = p2\<lparr>m_hflucv := snd (HFlucCheck L (m_hflucv p2) (hd (m_hdata p2)))\<rparr>"
  have s2: "saved p2 = saved p" "m_form p2 = m_form p" using saved_steps(1) [of L p] form_steps(1) [of L p] by (simp_all add: p2_def p1_def saved_def)
  have s3: "saved p3 = saved p" "m_form p3 = m_form p" "m_cntSuspend p3 = m_cntSuspend p2" using s2 by (simp_all add: p3_def saved_def)
  have changed: "saved (p2\<lparr>m_form := form, m_cntSuspend := c, m_callcnt := 0\<rparr>) = saved p" for c using s2 by (simp add: saved_def)
  have est: "saved (snd (estimate_offset L n p3)) = saved p \<or> fst (estimate_offset L n p3) \<and> saves_values p (snd (estimate_offset L n p3))"
    using estimate_saves [of L n p3] saves_after [OF s3(1,2)] s3(1) by auto
  show ?thesis
    using s2(1) s3 changed est normalise_keeps(1) [of p "snd (estimate_offset L n p3)" L "dc_have d"]
    by (auto simp: GetMagneticVector_def Let_def case_prod_beta normalise_keeps(2) simp flip: p1_def d_def p2_def p3_def)
qed

section \<open>Errors and suspension\<close>

text \<open>A measurement that does not succeed leaves the vector as it was: what the loop reports after an error is the vector of
  the last success.\<close>

theorem vector_only_on_success:
  assumes "fst (GetMagneticVector L bs form n p) \<noteq> AKRET_PROC_SUCCEED"
  shows "m_hvec (snd (GetMagneticVector L bs form n p)) = m_hvec p"
proof -
  have h: "m_hvec (count_suspend L q) = m_hvec q" "m_hvec (unsolved L q) = m_hvec q" "m_hvec (snd (base_changed L b q)) = m_hvec q"
    "m_hvec (snd (estimate_offset L n q)) = m_hvec q" for q b
    by (simp_all add: count_suspend_def restore_formation_def unsolved_def base_changed_def estimate_offset_def keep_success_def
        Let_def case_prod_beta)
  have "fst (normalise L v q) \<noteq> AKRET_PROC_SUCCEED \<Longrightarrow> m_hvec (snd (normalise L v q)) = m_hvec q" for v q
    by (auto simp: normalise_def split: option.splits)
  with assms show ?thesis by (auto simp: GetMagneticVector_def Let_def case_prod_beta h split: if_splits)
qed

text \<open>While a formation is suspended for more than one further call, a measurement in that formation only counts the calls:
  the level, the state of the estimate, its decimation and all saved values stay.\<close>

theorem suspended_keeps_estimate:
  assumes "1 < m_cntSuspend p" and "m_form p = form"
  shows "let p' = snd (GetMagneticVector L bs form n p)
    in m_cntSuspend p' = m_cntSuspend p - 1 \<and> m_hdst p' = m_hdst p \<and> m_hdoev p' = m_hdoev p \<and> m_callcnt p' = m_callcnt p \<and> saved p' = saved p"
proof -
  have c: "count_suspend L p = p\<lparr>m_cntSuspend := m_cntSuspend p - 1\<rparr>" using assms(1) by (simp add: count_suspend_def Let_def)
  then show ?thesis using assms
    by (auto simp: GetMagneticVector_def Let_def case_prod_beta base_changed_def normalise_def saved_def split: option.split)
qed

section \<open>The flags of the reports\<close>

definition flagged :: "int \<Rightarrow> akm_dev \<Rightarrow> bool" where
  "flagged k st \<longleftrightarrow> (\<forall>buf t. ECS_SET_YPR buf t \<in> set (akm_calls st) \<longrightarrow> hd buf = k)"

definition quiet :: "akm_call \<Rightarrow> bool" where
  "quiet c \<longleftrightarrow> (case c of ECS_SET_YPR buf t \<Rightarrow> False | _ \<Rightarrow> True)"

lemma flagged_ioctl: "flagged k st \<Longrightarrow> quiet c \<Longrightarrow> flagged k (snd (akm_ioctl kern c st))"
  by (auto simp: flagged_def quiet_def akm_ioctl_def Let_def)

lemma flagged_calls:
  assumes "flagged k st" and "quiet c"
  shows "flagged k (snd (akm_simple kern c st))" "flagged k (snd (snd (akm_fetch kern c n st)))"
  using assms flagged_ioctl [OF assms, of kern] by (simp_all add: akm_simple_def akm_fetch_def case_prod_beta)

lemma flagged_report:
  assumes "flagged (uint flag) st"
  shows "flagged (uint flag) (Disp_MeasurementResultHook kern flag t p st)"
  using assms by (auto simp: flagged_def Disp_MeasurementResultHook_def AKD_SetYPR_def akm_simple_def akm_ioctl_def
      case_prod_beta report_buffer_def Let_def)

lemma flagged_interval:
  assumes "flagged k st"
  shows "flagged k (snd (snd (GetInterval kern h st)))"
  using flagged_calls(2) [OF assms, of ECS_GET_DELAY kern delay_bytes] by (simp add: GetInterval_def case_prod_beta quiet_def Let_def)

lemma low_flags: "((f :: 16 word) AND NOT (push_bit 11 1)) AND 0x0F = f AND 0x0F"
proof -
  have "NOT (push_bit 11 (1 :: 16 word)) AND 0x0F = 0x0F" by simp
  then show ?thesis by (simp add: and.assoc)
qed

lemma flagged_magnetic:
  assumes "flagged k st"
  shows "case magnetic_part L E kern (v, p, st) of (v1, p1, st1) \<Rightarrow> exec_flags v1 AND 0x0F = exec_flags v AND 0x0F \<and> flagged k st1"
proof -
  have q: "quiet ECS_GET_DATA" "quiet ECS_RESET" by (simp_all add: quiet_def)
  have "flagged k (snd (akm_ioctl kern ECS_GET_DATA st))" by (rule flagged_ioctl [OF assms q(1)])
  then show ?thesis using assms flagged_calls(1) [OF _ q(2)]
    by (auto simp: magnetic_part_def AKD_GetMagneticData_def AKD_Reset_def case_prod_beta Let_def low_flags [simplified])
qed

lemma flagged_turn:
  assumes "flagged (uint (exec_flags v AND 0x0F)) st" and "measure_turn L E kern (v, p, st) = (go, v1, p1, st1)"
  shows "exec_flags v1 AND 0x0F = exec_flags v AND 0x0F \<and> flagged (uint (exec_flags v AND 0x0F)) st1"
proof -
  let ?k = "uint (exec_flags v AND 0x0F)"
  obtain v' p' st' where m: "magnetic_part L E kern (v, p, st) = (v', p', st')" by (metis prod_cases3)
  have f: "exec_flags v' AND 0x0F = exec_flags v AND 0x0F" "flagged ?k st'" using flagged_magnetic [OF assms(1), where L = L and E = E and kern = kern and v = v and p = p] m by simp_all
  obtain acc st2 where a: "AOT_GetAccData E kern st' = (acc, st2)" by fastforce
  have f2: "flagged ?k st2" using flagged_calls(2) [OF f(2), of ECS_GET_ACCEL kern 6] a
    by (auto simp: AOT_GetAccData_def case_prod_beta quiet_def split: if_splits)
  have rep: "flagged ?k (Disp_MeasurementResultHook kern (exec_flags v' AND 0x0F) t q st2)" for t q
    using flagged_report [of "exec_flags v' AND 0x0F" st2 kern t q] f2 f(1) by simp
  show ?thesis using assms(2) m a f(1) f2 flagged_interval [OF rep]
    by (auto simp: measure_turn_def Let_def case_prod_beta split: option.splits)
qed

lemma flagged_turns:
  "flagged (uint (exec_flags v AND 0x0F)) st \<Longrightarrow> flagged (uint (exec_flags v AND 0x0F)) (snd (snd (measure_turns L E kern n (v, p, st))))"
proof (induction n arbitrary: v p st)
  case (Suc n)
  obtain go v1 p1 st1 where t: "measure_turn L E kern (v, p, st) = (go, v1, p1, st1)" by (metis prod_cases4)
  note f = flagged_turn [OF Suc.prems t]
  from f Suc.IH [of v1 st1 p1] t show ?case by (cases go) auto
qed simp

text \<open>C14: the first word of every report, which tells the driver what is in it, is the low half byte of a variable that nothing
  sets: it is the same for the whole run, whatever was measured.\<close>

theorem reports_carry_unset_flags:
  assumes "\<forall>buf t. ECS_SET_YPR buf t \<notin> set (akm_calls st)"
    and "ECS_SET_YPR buf t \<in> set (akm_calls (snd (MeasureSNGLoop L E kern (flags, time) n p st)))"
  shows "hd buf = uint (flags AND 0x0F)"
proof -
  let ?k = "uint (flags AND 0x0F)"
  have "flagged ?k st" using assms(1) by (simp add: flagged_def)
  then have i: "flagged ?k (snd (snd (GetInterval kern 1 st)))" by (rule flagged_interval)
  have "flagged ?k (snd (snd (measure_turns L E kern n (\<lparr>exec_flags = flags, hdoe_interval = h, lp_time = time\<rparr>, q, snd (snd (GetInterval kern 1 st))))))" for h q
    using flagged_turns [of "\<lparr>exec_flags = flags, hdoe_interval = h, lp_time = time\<rparr>"] i by simp
  then have "flagged ?k (snd (MeasureSNGLoop L E kern (flags, time) n p st))"
    using i by (auto simp: MeasureSNGLoop_def AKD_SetMode_def Let_def case_prod_beta quiet_def intro!: flagged_calls(1))
  with assms(2) show ?thesis unfolding flagged_def by blast
qed

section \<open>The formation\<close>

text \<open>The daemon's only formation is the first: no index leaves the tables, and nothing is ever suspended.\<close>

definition first_formation :: "('hf, 'hd) akscprms \<Rightarrow> bool" where
  "first_formation p \<longleftrightarrow> m_form p = 0 \<and> m_cntSuspend p = 0 \<and> length (HSUC_HO p) = CSPEC_NUM_FORMATION
     \<and> length (HSUC_HDST p) = CSPEC_NUM_FORMATION \<and> length (HFLUCV_HREF p) = CSPEC_NUM_FORMATION \<and> length (HSUC_HBASE p) = CSPEC_NUM_FORMATION"

lemma first_formation_upd [simp]:
  "first_formation (p\<lparr>m_hdata := x1, m_hbase := x2, m_hn := x3\<rparr>) = first_formation p"
  "first_formation (p\<lparr>m_hflucv := y\<rparr>) = first_formation p" "first_formation (p\<lparr>m_avec := z\<rparr>) = first_formation p"
  by (simp_all add: first_formation_def)

lemma first_formation_steps:
  assumes "first_formation p"
  shows "count_suspend L p = p" "first_formation (unsolved L p)" "first_formation (snd (base_changed L b p))"
    "first_formation (snd (estimate_offset L n p))" "first_formation (snd (normalise L h p))"
  using assms
  by (simp_all add: first_formation_def count_suspend_def unsolved_def base_changed_def estimate_offset_def keep_success_def
      normalise_def Let_def case_prod_beta split: option.split)

lemma other_results:
  "fst (base_changed L b p) \<noteq> AKRET_FORMATION_CHANGED" "fst (normalise L h p) \<noteq> AKRET_FORMATION_CHANGED"
  by (simp_all add: base_changed_def normalise_def case_prod_beta Let_def AKRET_OFFSET_OVERFLOW_def AKRET_HBASE_CHANGED_def
      AKRET_FORMATION_CHANGED_def AKRET_VNORM_ERROR_def AKRET_PROC_SUCCEED_def split: option.split)

lemma first_formation_vector:
  assumes "first_formation p"
  shows "first_formation (snd (GetMagneticVector L bs checkForm n p)) \<and> fst (GetMagneticVector L bs checkForm n p) \<noteq> AKRET_FORMATION_CHANGED"
proof -
  define d where "d = DecompS3 L bs (m_hnave p) (m_asa p) (if m_pdcptr p then Some (m_pdc p) else None) (m_hdata p) (m_hbase p)"
  define p2 where "p2 = p\<lparr>m_hdata := dc_hdata d, m_hbase := dc_hbase d, m_hn := dc_hn d\<rparr>"
  define p3 where "p3 = p2\<lparr>m_hflucv := snd (HFlucCheck L (m_hflucv p2) (hd (m_hdata p2)))\<rparr>"
  have f: "first_formation p2" "first_formation p3" "m_form p2 = checkForm" "\<not> m_cntSuspend p2 > 0"
    using assms by (simp_all add: p3_def p2_def) (simp_all add: first_formation_def checkForm_def)
  note steps = first_formation_steps [OF f(1)] first_formation_steps [OF f(2)]
  have "first_formation (snd (normalise L h (snd (estimate_offset L n p3))))" for h
    by (rule first_formation_steps(5) [OF steps(9)])
  with f steps show ?thesis
    by (simp add: GetMagneticVector_def Let_def case_prod_beta first_formation_steps(1) [OF assms] other_results [unfolded AKRET_FORMATION_CHANGED_def]
        AKRET_PROC_FAIL_def AKRET_DATA_READERROR_def AKRET_DATA_OVERFLOW_def AKRET_HFLUC_OCCURRED_def AKRET_FORMATION_CHANGED_def
        flip: d_def p2_def p3_def)
qed

lemma first_formation_turn:
  assumes "first_formation p" and "measure_turn L E kern (v, p, st) = (go, v1, p1, st1)"
  shows "first_formation p1"
proof -
  obtain v' p' st' where m: "magnetic_part L E kern (v, p, st) = (v', p', st')" by (metis prod_cases3)
  have f: "first_formation p'" using m assms(1) first_formation_vector [OF assms(1), of L _ "hdoe_interval v"]
    by (auto simp: magnetic_part_def case_prod_beta split: option.splits if_splits)
  have "first_formation (snd (CalcDirection L (p'\<lparr>m_avec := a\<rparr>)))" for a
    using f by (simp add: CalcDirection_def Let_def first_formation_def)
  with f m assms(2) show ?thesis by (auto simp: measure_turn_def Let_def case_prod_beta split: option.splits)
qed

text \<open>Whatever the library and the device do, a run of the measurement keeps an element of every table for its formation,
  stays in the first formation and is never suspended.\<close>

theorem measurement_keeps_formation:
  assumes "first_formation (p\<lparr>m_form := 0, m_cntSuspend := 0\<rparr>)"
  shows "first_formation (fst (MeasureSNGLoop L E kern junk n p st))"
proof -
  have start: "first_formation (Init_Measure L p)"
    using assms by (simp add: first_formation_def Init_Measure_def restore_formation_def checkForm_def Let_def)
  have turns: "first_formation q \<Longrightarrow> first_formation (fst (snd (measure_turns L E kern k (v, q, s))))" for k v q s
  proof (induction k arbitrary: v q s)
    case (Suc k)
    obtain go v1 q1 s1 where t: "measure_turn L E kern (v, q, s) = (go, v1, q1, s1)" by (metis prod_cases4)
    from Suc.IH [OF first_formation_turn [OF Suc.prems t]] first_formation_turn [OF Suc.prems t] t show ?case by (cases go) auto
  qed simp
  show ?thesis using start turns [OF start] by (simp add: MeasureSNGLoop_def Let_def case_prod_beta)
qed

section \<open>Instances\<close>

definition broken_library :: "(unit, unit) smart_compass" where
  "broken_library =
     \<lparr>GetVersion_Device = 9912, InitDecomp = id, InitHDOEProcPrmsS3 = (\<lambda>d ho level. d), InitHFlucCheck = (\<lambda>h v. h),
      DecompS3 = (\<lambda>bs nave asa pdc hdata hbase. \<lparr>dc_ret = 0, dc_hdata = hdata, dc_hbase = hbase, dc_hn = 0, dc_have = zero_vec,
        dc_derr = False, dc_hofl = False, dc_cb = False\<rparr>),
      SetHDOELevel = (\<lambda>d ho level. d), TransByHbase = (\<lambda>a b ho ho32. (ho, ho32, False)), HFlucCheck = (\<lambda>h v. (False, h)),
      hf_href = (\<lambda>h. zero_vec), HDOEProcessS3 = (\<lambda>er ee key d hdata hn ho level. (0, d, ho, level)), VNorm = (\<lambda>h ho hs. Some h),
      DirectionS3 = (\<lambda>er ee key h a dv old. old), ThetaFilter = (\<lambda>new old. new)\<rparr>"

theorem vector_only_on_success_witness:
  "m_hvec (snd (GetMagneticVector broken_library [0] 0 1 (some_params\<lparr>m_hvec := \<lparr>vx = 1, vy = 2, vz = 3\<rparr>\<rparr>))) = \<lparr>vx = 1, vy = 2, vz = 3\<rparr>"
proof -
  have "fst (GetMagneticVector broken_library [0] 0 1 (some_params\<lparr>m_hvec := \<lparr>vx = 1, vy = 2, vz = 3\<rparr>\<rparr>)) \<noteq> AKRET_PROC_SUCCEED"
    by (simp add: GetMagneticVector_def broken_library_def AKRET_PROC_SUCCEED_def AKRET_PROC_FAIL_def Let_def)
  from vector_only_on_success [OF this] show ?thesis by simp
qed

theorem suspended_keeps_estimate_witness:
  "m_cntSuspend (snd (GetMagneticVector broken_library [0] 0 1 (some_params\<lparr>m_cntSuspend := 3\<rparr>))) = 2"
  using suspended_keeps_estimate [of "some_params\<lparr>m_cntSuspend := 3\<rparr>" 0 broken_library "[0]" 1]
  by (simp add: some_params_def InitAKSCPRMS_def Let_def)

definition one_turn :: "(unit, unit) akscprms \<times> akm_dev" where
  "one_turn = MeasureSNGLoop broken_library ak_env (\<lambda>_. (0, [])) (0xABCD, []) 1 some_params \<lparr>s_fdDev = 3, akm_calls = []\<rparr>"

lemma one_turn_reports: "\<exists>buf t. ECS_SET_YPR buf t \<in> set (akm_calls (snd one_turn))"
  by (simp add: one_turn_def MeasureSNGLoop_def measure_turn_def magnetic_part_def AKD_GetMagneticData_def AOT_GetAccData_def
      GetInterval_def akm_fetch_def akm_simple_def akm_ioctl_def Disp_MeasurementResultHook_def AKD_SetYPR_def AKD_SetMode_def
      Let_def case_prod_beta)

theorem reports_carry_unset_flags_witness:
  "\<exists>buf t. ECS_SET_YPR buf t \<in> set (akm_calls (snd one_turn)) \<and> hd buf = 13"
proof -
  obtain buf t where b: "ECS_SET_YPR buf t \<in> set (akm_calls (snd one_turn))" using one_turn_reports by blast
  from reports_carry_unset_flags [OF _ b [unfolded one_turn_def]] have "hd buf = uint (0xABCD AND 0x0F :: 16 word)" by simp
  with b show ?thesis by auto
qed

theorem measurement_keeps_formation_witness:
  "first_formation (fst one_turn)"
  unfolding one_turn_def
  by (rule measurement_keeps_formation) (simp add: first_formation_def some_params_def InitAKSCPRMS_def CSPEC_NUM_FORMATION_def)

end
