(* ===== verification/Akm_Main.thy ===== *)
theory Akm_Main
  imports Akm_Props
begin

text \<open>
  The main program of the compass daemon (\<open>main.c\<close>): the start, and the cycles in which it loads its settings, measures
  until the driver is closed, and saves them. The measurement runs in a thread of its own while the main thread waits for
  the driver to be closed; here its turns come before the answer to that call.
\<close>

section \<open>The start\<close>

definition ERROR_OPTPARSE :: int where "ERROR_OPTPARSE = - 1"
definition ERROR_INITDEVICE :: int where "ERROR_INITDEVICE = - 2"
definition ERROR_HLAYOUT :: int where "ERROR_HLAYOUT = - 3"
definition ERROR_FUSEROM :: int where "ERROR_FUSEROM = - 4"
definition ERROR_GETOPEN_STAT :: int where "ERROR_GETOPEN_STAT = - 5"
definition ERROR_STARTCLONE :: int where "ERROR_STARTCLONE = - 6"
definition ERROR_GETCLOSE_STAT :: int where "ERROR_GETCLOSE_STAT = - 7"

text \<open>The answers of \<open>getopt\<close> with their arguments; the value is the layout, 0 if none is given, and the console mode.\<close>

fun OptParse :: "(char \<times> string) list \<Rightarrow> nat \<times> bool \<Rightarrow> (nat \<times> bool) option" where
  "OptParse [] lc = Some lc"
| "OptParse ((opt, arg) # opts) (layout, console) =
     (if opt = CHR ''m''
      then let val = (case arg of [] \<Rightarrow> (208 :: nat) | c # _ \<Rightarrow> (of_char c + 208) mod 256)
           in OptParse opts (if 1 \<le> val \<and> val \<le> 8 then val else layout, console)
      else if opt = CHR ''z'' then OptParse opts (layout, console)
      else if opt = CHR ''s'' then OptParse opts (layout, True)
      else None)"

record main_inputs =
  mi_options :: "(char \<times> string) list"
  mi_opened :: int
  mi_boot_status :: int
  mi_layout :: int
  mi_pdc :: "string option"
  mi_pdc_closes :: bool

definition find_layout :: "akm_kernel \<Rightarrow> int \<Rightarrow> nat \<Rightarrow> akm_dev \<Rightarrow> nat \<times> akm_dev" where
  "find_layout kern junk layout st =
     (if layout \<noteq> 0 then (layout, st)
      else case AKD_GetLayout kern junk st of
        (ok, n, st1) \<Rightarrow> (if ok \<and> 1 \<le> n \<and> n \<le> 8 then nat n else 0, st1))"

text \<open>Up to the main loop: the value is the error, 0 for none, and whether the console mode was asked for.\<close>

definition main_start :: "('hf, 'hd) smart_compass \<Rightarrow> akm_env \<Rightarrow> akm_kernel \<Rightarrow> 'hf \<Rightarrow> 'hd \<Rightarrow> main_inputs \<Rightarrow> akm_dev \<Rightarrow>
    int \<times> bool \<times> ('hf, 'hd) akscprms \<times> akm_dev" where
  "main_start L E kern fluc doe inp st =
     (let p = InitAKSCPRMS fluc doe
      in case OptParse (mi_options inp) (0, False) of
           None \<Rightarrow> (ERROR_OPTPARSE, False, p, st)
         | Some (layout, console) \<Rightarrow>
             let (ok1, st1) = AKD_InitDevice (mi_opened inp) st in if \<not> ok1 then (ERROR_INITDEVICE, console, p, st1) else
             let (ok2, st2) = AKD_WaitReady kern (mi_boot_status inp) st1 in if \<not> ok2 then (ERROR_INITDEVICE, console, p, st2) else
             let (lay, st3) = find_layout kern (mi_layout inp) layout st2; p1 = p\<lparr>m_hlayout := lay\<rparr>
             in if lay = 0 then (ERROR_HLAYOUT, console, p1, st3) else
             let (ok4, p2, st4) = ReadFUSEROM L E kern p1 st3 in if \<not> ok4 then (ERROR_FUSEROM, console, p2, st4)
             else (0, console, snd (LoadPDC (mi_pdc inp) (mi_pdc_closes inp) p2), st4))"

section \<open>The cycles\<close>

text \<open>What happens in a cycle: what the variables hold, the turns of the loop until the stop, and how the system takes the
  calls on files and threads.\<close>

record cycle_inputs =
  cy_load_junk :: int
  cy_load_closes :: bool
  cy_clone :: bool
  cy_flags :: "16 word \<times> 8 word list"
  cy_turns :: nat
  cy_save_opens :: bool
  cy_save_accepted :: nat
  cy_save_closes :: bool
  cy_save_chmods :: bool

text \<open>The settings file after a saving.\<close>

definition save_settings :: "cycle_inputs \<Rightarrow> string option \<Rightarrow> ('hf, 'hd) akscprms \<Rightarrow> string option" where
  "save_settings c doc p =
     (case snd (SaveParameters (cy_save_opens c) (cy_save_accepted c) (cy_save_closes c) (cy_save_chmods c) p) of
        None \<Rightarrow> doc | Some t \<Rightarrow> Some t)"

text \<open>\<open>file\<close> is the settings file. The value is the error and the rest; \<open>None\<close> as error: the daemon goes on.\<close>

definition daemon_cycle :: "('hf, 'hd) smart_compass \<Rightarrow> akm_env \<Rightarrow> akm_kernel \<Rightarrow> cycle_inputs \<Rightarrow>
    string option \<times> ('hf, 'hd) akscprms \<times> akm_dev \<Rightarrow> int option \<times> string option \<times> ('hf, 'hd) akscprms \<times> akm_dev" where
  "daemon_cycle L E kern c = (\<lambda>(doc, p, st).
     case AKD_GetOpenStatus kern 0 st of
       (ok, status, st1) \<Rightarrow>
         if \<not> ok then (Some ERROR_GETOPEN_STAT, doc, p, st1)
         else if status = 0 then (None, doc, p, st1)
         else
           let p1 = start_parameters (cy_load_junk c) doc (cy_load_closes c) p
           in if \<not> cy_clone c then (Some ERROR_STARTCLONE, doc, p1, st1)
              else
                let (p2, st2) = MeasureSNGLoop L E kern (cy_flags c) (cy_turns c) p1 st1;
                    (closed, status1, st3) = AKD_GetCloseStatus kern status st2
                in (if closed then None else Some ERROR_GETCLOSE_STAT, save_settings c doc p2, p2, st3))"

text \<open>Over the cycles; 0 while it still runs. The device is closed at the end.\<close>

fun daemon_main :: "('hf, 'hd) smart_compass \<Rightarrow> akm_env \<Rightarrow> akm_kernel \<Rightarrow> cycle_inputs list \<Rightarrow>
    string option \<times> ('hf, 'hd) akscprms \<times> akm_dev \<Rightarrow> int \<times> string option \<times> ('hf, 'hd) akscprms \<times> akm_dev" where
  "daemon_main L E kern [] s = (0, s)"
| "daemon_main L E kern (c # cs) s =
     (case daemon_cycle L E kern c s of
        (None, s1) \<Rightarrow> daemon_main L E kern cs s1
      | (Some err, doc, p, st) \<Rightarrow> (err, doc, p, AKD_DeinitDevice st))"

section \<open>The console mode\<close>

datatype akm_mode = MODE_ERROR | MODE_FST | MODE_MeasureSNG | MODE_OffsetCalibration | MODE_Quit

text \<open>Only the first character of the answer counts.\<close>

definition Menu_Main :: "string \<Rightarrow> akm_mode" where
  "Menu_Main msg =
     (case msg of
        [] \<Rightarrow> MODE_ERROR
      | c # _ \<Rightarrow>
          if c = CHR ''T'' \<or> c = CHR ''t'' then MODE_FST
          else if c = CHR ''1'' then MODE_MeasureSNG
          else if c = CHR ''2'' then MODE_OffsetCalibration
          else if c = CHR ''Q'' \<or> c = CHR ''q'' then MODE_Quit
          else MODE_ERROR)"

text \<open>A choice of the menu; \<open>None\<close> is a write behind an array. The value says whether the menu comes again.\<close>

definition console_step :: "('hf, 'hd) smart_compass \<Rightarrow> akm_env \<Rightarrow> akm_kernel \<Rightarrow> akm_mode \<Rightarrow> cycle_inputs \<Rightarrow>
    string option \<times> ('hf, 'hd) akscprms \<times> akm_dev \<Rightarrow> (bool \<times> string option \<times> ('hf, 'hd) akscprms \<times> akm_dev) option" where
  "console_step L E kern choice c = (\<lambda>(doc, p, st).
     case choice of
       MODE_FST \<Rightarrow> (case FST_Body E kern st of None \<Rightarrow> None | Some (_, st1) \<Rightarrow> Some (True, doc, p, st1))
     | MODE_MeasureSNG \<Rightarrow>
         let (p1, st1) = MeasureSNGLoop L E kern (cy_flags c) (cy_turns c) (start_parameters (cy_load_junk c) doc (cy_load_closes c) p) st
         in Some (True, save_settings c doc p1, p1, st1)
     | MODE_OffsetCalibration \<Rightarrow>
         let (ok, p1) = SimpleCalibration (start_parameters (cy_load_junk c) doc (cy_load_closes c) p)
         in Some (True, if ok then save_settings c doc p1 else doc, p1, st)
     | MODE_Quit \<Rightarrow> Some (False, doc, p, AKD_DeinitDevice st)
     | MODE_ERROR \<Rightarrow> Some (True, doc, p, st))"

section \<open>Settings over restarts\<close>

text \<open>C27: after settings were saved without an error, a daemon that starts afresh measures from the saved offset, level and base
  and with the saved offset of the accelerometer.\<close>

theorem restart_resumes_offset:
  assumes "params_ok p" and "SaveParameters opens accepted closes chmods p = (True, doc)"
  shows "let q = Init_Measure L (start_parameters junk doc True (InitAKSCPRMS fluc doe))
    in m_ho q = HSUC_HO p ! 0 \<and> m_hdst q = HSUC_HDST p ! 0 \<and> m_hbase q = HSUC_HBASE p ! 0 \<and> m_AO q = m_AO p"
proof -
  have fresh: "params_ok (InitAKSCPRMS fluc doe)"
    by (simp add: params_ok_def InitAKSCPRMS_def CSPEC_NUM_FORMATION_def fits_int_def)
  have "LoadParameters junk doc True (InitAKSCPRMS fluc doe) = (True, (InitAKSCPRMS fluc doe)\<lparr>HSUC_HDST := HSUC_HDST p,
    HSUC_HO := HSUC_HO p, HFLUCV_HREF := HFLUCV_HREF p, HSUC_HBASE := HSUC_HBASE p, m_AO := m_AO p\<rparr>)"
    by (rule load_saved [OF assms(1) fresh assms(2)])
  then show ?thesis by (simp add: start_parameters_def Init_Measure_def restore_formation_def checkForm_def Let_def)
qed

theorem restart_resumes_offset_witness:
  "\<exists>doc. SaveParameters True 13 True True some_params = (True, doc)
     \<and> m_ho (Init_Measure broken_library (start_parameters 77 doc True (InitAKSCPRMS () ()))) = \<lparr>vx = - 120, vy = 33, vz = 0x8000\<rparr>"
proof -
  obtain doc where d: "SaveParameters True 13 True True some_params = (True, doc)"
    by (simp add: SaveParameters_def all_lines_def CSPEC_NUM_FORMATION_def form_lines_def SaveInt16vec_def SaveInt32vec_def)
  from restart_resumes_offset [OF some_params_ok(1) d, of broken_library 77 "()" "()"] d show ?thesis
    by (auto simp: some_params_def Let_def)
qed

text \<open>A cycle with the settings saved at the end of the one before loads exactly what the daemon already holds, so the
  measurement goes on from where it was.\<close>

theorem cycle_reloads_itself:
  assumes "params_ok p" and "SaveParameters opens accepted closes chmods p = (True, doc)"
  shows "start_parameters junk doc True p = p"
  using load_saved [OF assms(1,1,2), of junk] by (simp add: start_parameters_def)

theorem cycle_reloads_itself_witness:
  "\<exists>doc. SaveParameters True 13 True True some_params = (True, doc) \<and> start_parameters 77 doc True some_params = some_params"
proof -
  obtain doc where d: "SaveParameters True 13 True True some_params = (True, doc)"
    by (simp add: SaveParameters_def all_lines_def CSPEC_NUM_FORMATION_def form_lines_def SaveInt16vec_def SaveInt32vec_def)
  from cycle_reloads_itself [OF some_params_ok(1) d, of 77] d show ?thesis by blast
qed

end
