(* ===== verification/Mixer.thy ===== *)
theory Mixer
  imports Prelude "HOL-Library.Signed_Division"
begin

unbundle bit_operations_syntax

text \<open>
  The mixer of sound controls that the shim for the vendor's audio library contains (\<open>libshims/mixer.c\<close>, a copy of
  an older tinyalsa).

  Each request to the sound card, and each allocation, is appended to a trace, and what the system answers is a function of
  the trace. A pointer to a control is the control, \<open>None\<close> for \<open>NULL\<close>. The value \<open>None\<close> of an operation is a
  fault: an access through \<open>NULL\<close> or outside an array. The constructors of \<open>elem_type\<close> are the constants of the
  kernel's header, of which the code uses no number. The build is for 64 bits: a \<open>long\<close> has 64 bits, an \<open>int\<close> 32.
\<close>

section \<open>Controls and the card\<close>

datatype elem_type =
    SNDRV_CTL_ELEM_TYPE_NONE | SNDRV_CTL_ELEM_TYPE_BOOLEAN | SNDRV_CTL_ELEM_TYPE_INTEGER | SNDRV_CTL_ELEM_TYPE_ENUMERATED
  | SNDRV_CTL_ELEM_TYPE_BYTES | SNDRV_CTL_ELEM_TYPE_IEC958 | SNDRV_CTL_ELEM_TYPE_INTEGER64

text \<open>\<open>snd_ctl_elem_info\<close>. The first number of the union is \<open>integer.min\<close>, whose lower half is also
  \<open>enumerated.items\<close>; the second is \<open>integer.max\<close>. \<open>ei_tlv\<close>: the access mask has the bits for bytes with a tag.\<close>

record elem_info =
  ei_numid :: nat
  ei_name :: string
  ei_type :: elem_type
  ei_count :: nat
  ei_tlv :: bool
  ei_min :: int
  ei_max :: int

definition ei_items :: "elem_info \<Rightarrow> nat" where
  "ei_items ei = unat (word_of_int (ei_min ei) :: 32 word)"

text \<open>The names are a pointer to an array of pointers.\<close>

record mixer_ctl =
  ctl_info :: elem_info
  ctl_ename :: "string option list option"

record mixer =
  mx_fd :: int
  mx_card :: string
  mx_ctl :: "mixer_ctl list"

text \<open>The values of a control, as the numbers of the part of the union that its type selects.\<close>

type_synonym elem_value = "nat \<Rightarrow> int"

datatype snd_call =
    SND_OPEN nat | SND_CLOSE int | SND_ALLOC nat | CARD_INFO | ELEM_LIST nat nat | ELEM_INFO nat | ELEM_ITEM nat nat
  | ELEM_READ nat | ELEM_WRITE nat elem_value | TLV_READ nat nat | TLV_WRITE nat "int list"

type_synonym snd_trace = "snd_call list"

record snd_kernel =
  k_ret :: "snd_trace \<Rightarrow> int"
  k_card :: "snd_trace \<Rightarrow> string"
  k_list :: "snd_trace \<Rightarrow> nat \<times> nat list"
  k_info :: "snd_trace \<Rightarrow> elem_info"
  k_item :: "snd_trace \<Rightarrow> string"
  k_value :: "snd_trace \<Rightarrow> elem_value"
  k_tlv :: "snd_trace \<Rightarrow> int list"

definition snd_ioctl :: "snd_kernel \<Rightarrow> snd_call \<Rightarrow> snd_trace \<Rightarrow> int \<times> snd_trace" where
  "snd_ioctl K c tr = (let tr1 = tr @ [c] in (if k_ret K tr1 < 0 then - 1 else k_ret K tr1, tr1))"

text \<open>\<open>calloc\<close>, \<open>strdup\<close> and \<open>realloc\<close>: whether there was memory.\<close>

definition snd_alloc :: "snd_kernel \<Rightarrow> nat \<Rightarrow> snd_trace \<Rightarrow> bool \<times> snd_trace" where
  "snd_alloc K n tr = (let tr1 = tr @ [SND_ALLOC n] in (0 \<le> k_ret K tr1, tr1))"

section \<open>Making the list of controls\<close>

fun get_enames :: "snd_kernel \<Rightarrow> nat \<Rightarrow> nat list \<Rightarrow> snd_trace \<Rightarrow> string option list option \<times> snd_trace" where
  "get_enames K numid [] tr = (Some [], tr)"
| "get_enames K numid (m # ms) tr =
     (let (r, tr1) = snd_ioctl K (ELEM_ITEM numid m) tr in if r < 0 then (None, tr1) else
      let name = k_item K tr1; (ok, tr2) = snd_alloc K (Suc (length name)) tr1 in if \<not> ok then (None, tr2) else
      case get_enames K numid ms tr2 of (ns, tr3) \<Rightarrow> (map_option (\<lambda>xs. Some name # xs) ns, tr3))"

text \<open>A turn of the loop of \<open>add_controls\<close>; \<open>None\<close>: it failed, and what it made was freed.\<close>

definition add_control :: "snd_kernel \<Rightarrow> nat \<Rightarrow> snd_trace \<Rightarrow> mixer_ctl option \<times> snd_trace" where
  "add_control K numid tr =
     (let (r, tr1) = snd_ioctl K (ELEM_INFO numid) tr in if r < 0 then (None, tr1) else
      let ei = k_info K tr1 in
      if ei_type ei = SNDRV_CTL_ELEM_TYPE_ENUMERATED
      then let (ok, tr2) = snd_alloc K (ei_items ei) tr1 in if \<not> ok then (None, tr2) else
           case get_enames K (ei_numid ei) [0..<ei_items ei] tr2 of
             (ns, tr3) \<Rightarrow> (map_option (\<lambda>xs. \<lparr>ctl_info = ei, ctl_ename = Some xs\<rparr>) ns, tr3)
      else (Some \<lparr>ctl_info = ei, ctl_ename = None\<rparr>, tr1))"

fun add_loop :: "snd_kernel \<Rightarrow> nat list \<Rightarrow> snd_trace \<Rightarrow> bool \<times> mixer_ctl list \<times> snd_trace" where
  "add_loop K [] tr = (True, [], tr)"
| "add_loop K (n # ns) tr =
     (case add_control K n tr of
        (None, tr1) \<Rightarrow> (False, [], tr1)
      | (Some c, tr1) \<Rightarrow> (case add_loop K ns tr1 of (ok, cs, tr2) \<Rightarrow> (ok, c # cs, tr2)))"

text \<open>The list is the part of the array below \<open>count\<close>: what a failed call leaves behind it is cleared by
  \<open>mixer_realloc_z\<close> before it is used. With fewer controls than before that function would clear memory up to the end
  of the address space (or, for none, the array is gone).\<close>

definition add_controls :: "snd_kernel \<Rightarrow> mixer \<Rightarrow> snd_trace \<Rightarrow> (int \<times> mixer \<times> snd_trace) option" where
  "add_controls K m tr =
     (let old = length (mx_ctl m); (r, tr1) = snd_ioctl K (ELEM_LIST 0 0) tr in if r < 0 then Some (- 1, m, tr1) else
      let new = fst (k_list K tr1) in if new = old then Some (0, m, tr1) else
      let (ok, tr2) = snd_alloc K new tr1 in if \<not> ok \<and> new \<noteq> 0 then Some (- 1, m, tr2) else
      if new < old then None else
      let (ok3, tr3) = snd_alloc K (new - old) tr2 in if \<not> ok3 then Some (- 1, m, tr3) else
      let (r4, tr4) = snd_ioctl K (ELEM_LIST old (new - old)) tr3 in if r4 < 0 then Some (- 1, m, tr4) else
      let ids = take (new - old) (snd (k_list K tr4) @ replicate (new - old) 0);
          (ok5, cs, tr5) = add_loop K ids tr4
      in Some (if ok5 then 0 else - 1, m\<lparr>mx_ctl := mx_ctl m @ cs\<rparr>, tr5))"

definition mixer_close :: "mixer option \<Rightarrow> snd_trace \<Rightarrow> snd_trace" where
  "mixer_close mo tr = (case mo of None \<Rightarrow> tr | Some m \<Rightarrow> if 0 \<le> mx_fd m then tr @ [SND_CLOSE (mx_fd m)] else tr)"

text \<open>The descriptor is stored after the first request only.\<close>

definition mixer_open :: "snd_kernel \<Rightarrow> nat \<Rightarrow> snd_trace \<Rightarrow> (mixer option \<times> snd_trace) option" where
  "mixer_open K number tr =
     (let (fd, tr1) = snd_ioctl K (SND_OPEN number) tr in if fd < 0 then Some (None, tr1) else
      let (ok, tr2) = snd_alloc K 1 tr1 in if \<not> ok then Some (None, tr2 @ [SND_CLOSE fd]) else
      let m = \<lparr>mx_fd = 0, mx_card = [], mx_ctl = []\<rparr>; (r, tr3) = snd_ioctl K CARD_INFO tr2
      in if r < 0 then Some (None, mixer_close (Some m) tr3) else
      case add_controls K (m\<lparr>mx_fd := fd, mx_card := k_card K tr3\<rparr>) tr3 of
        None \<Rightarrow> None
      | Some (r4, m4, tr4) \<Rightarrow> if r4 \<noteq> 0 then Some (None, mixer_close (Some m4) tr4) else Some (Some m4, tr4))"

definition mixer_update_ctls :: "snd_kernel \<Rightarrow> mixer option \<Rightarrow> snd_trace \<Rightarrow> (int \<times> mixer option \<times> snd_trace) option" where
  "mixer_update_ctls K mo tr =
     (case mo of None \<Rightarrow> Some (0, None, tr) | Some m \<Rightarrow> map_option (\<lambda>(r, m1, tr1). (r, Some m1, tr1)) (add_controls K m tr))"

section \<open>Looking up\<close>

definition mixer_get_name :: "mixer option \<Rightarrow> string option" where
  "mixer_get_name mo = map_option mx_card mo"

definition mixer_get_num_ctls :: "mixer option \<Rightarrow> nat" where
  "mixer_get_num_ctls mo = (case mo of None \<Rightarrow> 0 | Some m \<Rightarrow> length (mx_ctl m))"

definition mixer_get_ctl :: "mixer option \<Rightarrow> nat \<Rightarrow> mixer_ctl option" where
  "mixer_get_ctl mo i = (case mo of None \<Rightarrow> None | Some m \<Rightarrow> if i < length (mx_ctl m) then Some (mx_ctl m ! i) else None)"

text \<open>The pointer is followed before it is compared with \<open>NULL\<close>.\<close>

definition mixer_get_ctl_by_name :: "mixer option \<Rightarrow> string \<Rightarrow> mixer_ctl option option" where
  "mixer_get_ctl_by_name mo name = map_option (\<lambda>m. find (\<lambda>c. name = ei_name (ctl_info c)) (mx_ctl m)) mo"

definition mixer_ctl_get_name :: "mixer_ctl option \<Rightarrow> string option" where
  "mixer_ctl_get_name co = map_option (\<lambda>c. ei_name (ctl_info c)) co"

datatype mixer_ctl_type =
    MIXER_CTL_TYPE_BOOL | MIXER_CTL_TYPE_INT | MIXER_CTL_TYPE_ENUM | MIXER_CTL_TYPE_BYTE | MIXER_CTL_TYPE_IEC958
  | MIXER_CTL_TYPE_INT64 | MIXER_CTL_TYPE_UNKNOWN

definition mixer_ctl_get_type :: "mixer_ctl option \<Rightarrow> mixer_ctl_type" where
  "mixer_ctl_get_type co =
     (case co of None \<Rightarrow> MIXER_CTL_TYPE_UNKNOWN
      | Some c \<Rightarrow> (case ei_type (ctl_info c) of
            SNDRV_CTL_ELEM_TYPE_BOOLEAN \<Rightarrow> MIXER_CTL_TYPE_BOOL
          | SNDRV_CTL_ELEM_TYPE_INTEGER \<Rightarrow> MIXER_CTL_TYPE_INT
          | SNDRV_CTL_ELEM_TYPE_ENUMERATED \<Rightarrow> MIXER_CTL_TYPE_ENUM
          | SNDRV_CTL_ELEM_TYPE_BYTES \<Rightarrow> MIXER_CTL_TYPE_BYTE
          | SNDRV_CTL_ELEM_TYPE_IEC958 \<Rightarrow> MIXER_CTL_TYPE_IEC958
          | SNDRV_CTL_ELEM_TYPE_INTEGER64 \<Rightarrow> MIXER_CTL_TYPE_INT64
          | SNDRV_CTL_ELEM_TYPE_NONE \<Rightarrow> MIXER_CTL_TYPE_UNKNOWN))"

definition mixer_ctl_get_type_string :: "mixer_ctl option \<Rightarrow> string" where
  "mixer_ctl_get_type_string co =
     (case co of None \<Rightarrow> []
      | Some c \<Rightarrow> (case ei_type (ctl_info c) of
            SNDRV_CTL_ELEM_TYPE_BOOLEAN \<Rightarrow> ''BOOL''
          | SNDRV_CTL_ELEM_TYPE_INTEGER \<Rightarrow> ''INT''
          | SNDRV_CTL_ELEM_TYPE_ENUMERATED \<Rightarrow> ''ENUM''
          | SNDRV_CTL_ELEM_TYPE_BYTES \<Rightarrow> ''BYTE''
          | SNDRV_CTL_ELEM_TYPE_IEC958 \<Rightarrow> ''IEC958''
          | SNDRV_CTL_ELEM_TYPE_INTEGER64 \<Rightarrow> ''INT64''
          | SNDRV_CTL_ELEM_TYPE_NONE \<Rightarrow> ''Unknown''))"

definition mixer_ctl_get_num_values :: "mixer_ctl option \<Rightarrow> nat" where
  "mixer_ctl_get_num_values co = (case co of None \<Rightarrow> 0 | Some c \<Rightarrow> ei_count (ctl_info c))"

definition to_int :: "int \<Rightarrow> int" where
  "to_int x = sint (word_of_int x :: 32 word)"

definition mixer_ctl_get_range_min :: "mixer_ctl option \<Rightarrow> int" where
  "mixer_ctl_get_range_min co =
     (case co of None \<Rightarrow> - EINVAL
      | Some c \<Rightarrow> if ei_type (ctl_info c) \<noteq> SNDRV_CTL_ELEM_TYPE_INTEGER then - EINVAL else to_int (ei_min (ctl_info c)))"

definition mixer_ctl_get_range_max :: "mixer_ctl option \<Rightarrow> int" where
  "mixer_ctl_get_range_max co =
     (case co of None \<Rightarrow> - EINVAL
      | Some c \<Rightarrow> if ei_type (ctl_info c) \<noteq> SNDRV_CTL_ELEM_TYPE_INTEGER then - EINVAL else to_int (ei_max (ctl_info c)))"

definition mixer_ctl_get_num_enums :: "mixer_ctl option \<Rightarrow> nat" where
  "mixer_ctl_get_num_enums co = (case co of None \<Rightarrow> 0 | Some c \<Rightarrow> ei_items (ctl_info c))"

text \<open>An element of the array of names: outside it, or without an array, the access is a fault.\<close>

definition ename_at :: "mixer_ctl \<Rightarrow> nat \<Rightarrow> string option option" where
  "ename_at c i = (case ctl_ename c of None \<Rightarrow> None | Some ns \<Rightarrow> if i < length ns then Some (ns ! i) else None)"

definition mixer_ctl_get_enum_string :: "mixer_ctl option \<Rightarrow> nat \<Rightarrow> string option option" where
  "mixer_ctl_get_enum_string co i =
     (case co of None \<Rightarrow> Some None
      | Some c \<Rightarrow> if ei_type (ctl_info c) \<noteq> SNDRV_CTL_ELEM_TYPE_ENUMERATED \<or> i \<ge> ei_items (ctl_info c) then Some None
                 else ename_at c i)"

section \<open>Values\<close>

definition elem_read :: "snd_kernel \<Rightarrow> mixer_ctl \<Rightarrow> snd_trace \<Rightarrow> int \<times> elem_value \<times> snd_trace" where
  "elem_read K c tr = (case snd_ioctl K (ELEM_READ (ei_numid (ctl_info c))) tr of (r, tr1) \<Rightarrow> (r, k_value K tr1, tr1))"

definition elem_write :: "snd_kernel \<Rightarrow> mixer_ctl \<Rightarrow> elem_value \<Rightarrow> snd_trace \<Rightarrow> int \<times> snd_trace" where
  "elem_write K c ev = snd_ioctl K (ELEM_WRITE (ei_numid (ctl_info c)) ev)"

definition mixer_ctl_get_value :: "snd_kernel \<Rightarrow> mixer_ctl option \<Rightarrow> nat \<Rightarrow> snd_trace \<Rightarrow> int \<times> snd_trace" where
  "mixer_ctl_get_value K co i tr =
     (case co of None \<Rightarrow> (- EINVAL, tr)
      | Some c \<Rightarrow> if i \<ge> ei_count (ctl_info c) then (- EINVAL, tr) else
          let (r, ev, tr1) = elem_read K c tr in if r < 0 then (r, tr1) else
          (case ei_type (ctl_info c) of
             SNDRV_CTL_ELEM_TYPE_BOOLEAN \<Rightarrow> if ev i = 0 then 0 else 1
           | SNDRV_CTL_ELEM_TYPE_INTEGER \<Rightarrow> to_int (ev i)
           | SNDRV_CTL_ELEM_TYPE_ENUMERATED \<Rightarrow> to_int (ev i)
           | SNDRV_CTL_ELEM_TYPE_BYTES \<Rightarrow> ev i
           | _ \<Rightarrow> - EINVAL, tr1))"

text \<open>What \<open>mixer_ctl_set_value\<close> stores, if the value is one the type allows. The element of an enumeration is an
  \<open>unsigned int\<close>, that of bytes an \<open>unsigned char\<close>.\<close>

definition value_stored :: "mixer_ctl \<Rightarrow> int \<Rightarrow> int option" where
  "value_stored c v =
     (case ei_type (ctl_info c) of
        SNDRV_CTL_ELEM_TYPE_BOOLEAN \<Rightarrow> Some (if v = 0 then 0 else 1)
      | SNDRV_CTL_ELEM_TYPE_INTEGER \<Rightarrow>
          let mn = mixer_ctl_get_range_min (Some c); mx = mixer_ctl_get_range_max (Some c)
          in if mn < mx \<and> (v < mn \<or> v > mx) then None else Some v
      | SNDRV_CTL_ELEM_TYPE_ENUMERATED \<Rightarrow> if v < 0 \<or> v \<ge> int (mixer_ctl_get_num_enums (Some c)) then None else Some v
      | SNDRV_CTL_ELEM_TYPE_BYTES \<Rightarrow> Some (v mod 256)
      | _ \<Rightarrow> None)"

definition mixer_ctl_set_value :: "snd_kernel \<Rightarrow> mixer_ctl option \<Rightarrow> nat \<Rightarrow> int \<Rightarrow> snd_trace \<Rightarrow> int \<times> snd_trace" where
  "mixer_ctl_set_value K co i v tr =
     (case co of None \<Rightarrow> (- EINVAL, tr)
      | Some c \<Rightarrow> if i \<ge> ei_count (ctl_info c) then (- EINVAL, tr) else
          let (r, ev, tr1) = elem_read K c tr in if r < 0 then (r, tr1) else
          (case value_stored c v of None \<Rightarrow> (- EINVAL, tr1) | Some w \<Rightarrow> elem_write K c (ev(i := w)) tr1))"

text \<open>The array has the elements of the type's part of the union; the flag says whether the pointer is not \<open>NULL\<close>.
  For a digital interface nothing is read: the cleared structure is copied.\<close>

definition ENOMEM :: int where "ENOMEM = 12"
definition SIZE_MAX :: nat where "SIZE_MAX = 18446744073709551615"
definition TLV_HEADER :: nat where "TLV_HEADER = 8"

definition mixer_ctl_get_array :: "snd_kernel \<Rightarrow> mixer_ctl option \<Rightarrow> bool \<Rightarrow> nat \<Rightarrow> snd_trace \<Rightarrow> int \<times> int list option \<times> snd_trace" where
  "mixer_ctl_get_array K co there n tr =
     (case co of None \<Rightarrow> (- EINVAL, None, tr)
      | Some c \<Rightarrow> if n > ei_count (ctl_info c) \<or> n = 0 \<or> \<not> there then (- EINVAL, None, tr) else
          (case ei_type (ctl_info c) of
             SNDRV_CTL_ELEM_TYPE_IEC958 \<Rightarrow> (0, Some (replicate n 0), tr)
           | SNDRV_CTL_ELEM_TYPE_BYTES \<Rightarrow>
               if ei_tlv (ctl_info c)
               then if n > SIZE_MAX - TLV_HEADER then (- EINVAL, None, tr) else
                    let (ok, tr1) = snd_alloc K (TLV_HEADER + n) tr in if \<not> ok then (- ENOMEM, None, tr1) else
                    let (r, tr2) = snd_ioctl K (TLV_READ (ei_numid (ctl_info c)) n) tr1
                    in (r, Some (take n (k_tlv K tr2 @ replicate n 0)), tr2)
               else let (r, ev, tr1) = elem_read K c tr in if r < 0 then (r, None, tr1) else (0, Some (map ev [0..<n]), tr1)
           | SNDRV_CTL_ELEM_TYPE_BOOLEAN \<Rightarrow>
               let (r, ev, tr1) = elem_read K c tr in if r < 0 then (r, None, tr1) else (0, Some (map ev [0..<n]), tr1)
           | SNDRV_CTL_ELEM_TYPE_INTEGER \<Rightarrow>
               let (r, ev, tr1) = elem_read K c tr in if r < 0 then (r, None, tr1) else (0, Some (map ev [0..<n]), tr1)
           | _ \<Rightarrow> (- EINVAL, None, tr)))"

text \<open>Nothing is read first: the elements behind the array are written as 0.\<close>

definition array_value :: "int list \<Rightarrow> nat \<Rightarrow> elem_value" where
  "array_value xs n = (\<lambda>i. if i < n then xs ! i else 0)"

definition mixer_ctl_set_array :: "snd_kernel \<Rightarrow> mixer_ctl option \<Rightarrow> int list option \<Rightarrow> nat \<Rightarrow> snd_trace \<Rightarrow> int \<times> snd_trace" where
  "mixer_ctl_set_array K co arr n tr =
     (case (co, arr) of
        (Some c, Some xs) \<Rightarrow>
          if n > ei_count (ctl_info c) \<or> n = 0 then (- EINVAL, tr)
          else if ei_type (ctl_info c) = SNDRV_CTL_ELEM_TYPE_BYTES \<and> ei_tlv (ctl_info c)
          then if n > SIZE_MAX - TLV_HEADER then (- EINVAL, tr) else
               let (ok, tr1) = snd_alloc K (TLV_HEADER + n) tr in if \<not> ok then (- ENOMEM, tr1)
               else snd_ioctl K (TLV_WRITE (ei_numid (ctl_info c)) (take n xs)) tr1
          else if ei_type (ctl_info c) \<in> {SNDRV_CTL_ELEM_TYPE_BOOLEAN, SNDRV_CTL_ELEM_TYPE_INTEGER,
                 SNDRV_CTL_ELEM_TYPE_BYTES, SNDRV_CTL_ELEM_TYPE_IEC958}
          then elem_write K c (array_value xs n) tr
          else (- EINVAL, tr)
      | _ \<Rightarrow> (- EINVAL, tr))"

text \<open>The first name that is equal; a fault while comparing is \<open>None\<close>.\<close>

fun enum_index :: "mixer_ctl \<Rightarrow> string \<Rightarrow> nat list \<Rightarrow> nat option option" where
  "enum_index c s [] = Some None"
| "enum_index c s (i # is) =
     (case ename_at c i of Some (Some name) \<Rightarrow> if s = name then Some (Some i) else enum_index c s is | _ \<Rightarrow> None)"

definition mixer_ctl_set_enum_by_string :: "snd_kernel \<Rightarrow> mixer_ctl option \<Rightarrow> string \<Rightarrow> snd_trace \<Rightarrow> (int \<times> snd_trace) option" where
  "mixer_ctl_set_enum_by_string K co s tr =
     (case co of None \<Rightarrow> Some (- EINVAL, tr)
      | Some c \<Rightarrow> if ei_type (ctl_info c) \<noteq> SNDRV_CTL_ELEM_TYPE_ENUMERATED then Some (- EINVAL, tr) else
          (case enum_index c s [0..<ei_items (ctl_info c)] of
             None \<Rightarrow> None
           | Some None \<Rightarrow> Some (- EINVAL, tr)
           | Some (Some i) \<Rightarrow> (case elem_write K c ((\<lambda>_. 0)(0 := int i)) tr of
               (r, tr1) \<Rightarrow> Some (if r < 0 then r else 0, tr1))))"

section \<open>Percents\<close>

text \<open>The product is one of \<open>int\<close>s, which wraps around in the compiled code; the sum and the difference are \<open>long\<close>.\<close>

definition percent_to_int :: "elem_info \<Rightarrow> int \<Rightarrow> int" where
  "percent_to_int ei percent =
     (let p = (if percent > 100 then 100 else if percent < 0 then 0 else percent);
          rg = to_int (ei_max ei - ei_min ei)
      in to_int (ei_min ei + to_int (rg * p) sdiv 100))"

definition int_to_percent :: "elem_info \<Rightarrow> int \<Rightarrow> int" where
  "int_to_percent ei v =
     (let rg = to_int (ei_max ei - ei_min ei) in if rg = 0 then 0 else to_int (((v - ei_min ei) sdiv rg) * 100))"

definition mixer_ctl_get_percent :: "snd_kernel \<Rightarrow> mixer_ctl option \<Rightarrow> nat \<Rightarrow> snd_trace \<Rightarrow> int \<times> snd_trace" where
  "mixer_ctl_get_percent K co i tr =
     (case co of None \<Rightarrow> (- EINVAL, tr)
      | Some c \<Rightarrow> if ei_type (ctl_info c) \<noteq> SNDRV_CTL_ELEM_TYPE_INTEGER then (- EINVAL, tr) else
          (case mixer_ctl_get_value K co i tr of (v, tr1) \<Rightarrow> (int_to_percent (ctl_info c) v, tr1)))"

definition mixer_ctl_set_percent :: "snd_kernel \<Rightarrow> mixer_ctl option \<Rightarrow> nat \<Rightarrow> int \<Rightarrow> snd_trace \<Rightarrow> int \<times> snd_trace" where
  "mixer_ctl_set_percent K co i percent tr =
     (case co of None \<Rightarrow> (- EINVAL, tr)
      | Some c \<Rightarrow> if ei_type (ctl_info c) \<noteq> SNDRV_CTL_ELEM_TYPE_INTEGER then (- EINVAL, tr)
          else mixer_ctl_set_value K co i (percent_to_int (ctl_info c) percent) tr)"

section \<open>Every control is complete\<close>

definition ctl_ok :: "mixer_ctl \<Rightarrow> bool" where
  "ctl_ok c \<longleftrightarrow> (if ei_type (ctl_info c) = SNDRV_CTL_ELEM_TYPE_ENUMERATED
     then (case ctl_ename c of None \<Rightarrow> False | Some ns \<Rightarrow> length ns = ei_items (ctl_info c) \<and> list_all (\<lambda>n. n \<noteq> None) ns)
     else ctl_ename c = None)"

lemma get_enames_ok:
  "get_enames K numid ms tr = (Some ns, tr1) \<Longrightarrow> length ns = length ms \<and> list_all (\<lambda>n. n \<noteq> None) ns"
  by (induction K numid ms tr arbitrary: ns tr1 rule: get_enames.induct) (fastforce simp: Let_def split: prod.splits if_splits)+

lemma add_control_ok: "add_control K n tr = (Some c, tr1) \<Longrightarrow> ctl_ok c"
  by (auto simp: add_control_def ctl_ok_def Let_def split: prod.splits if_splits dest!: get_enames_ok)

lemma add_loop_ok: "add_loop K ns tr = (ok, cs, tr1) \<Longrightarrow> list_all ctl_ok cs"
  by (induction K ns tr arbitrary: ok cs tr1 rule: add_loop.induct)
    (fastforce split: prod.splits option.splits dest: add_control_ok)+

lemma add_controls_ok:
  assumes "add_controls K m tr = Some (r, m1, tr1)"
  shows "\<exists>cs. mx_ctl m1 = mx_ctl m @ cs \<and> list_all ctl_ok cs"
  using assms by (auto simp: add_controls_def Let_def split: prod.splits if_splits dest!: add_loop_ok)

text \<open>A mixer opened and then updated any number of times, by systems that answer as they like.\<close>

fun mixer_updates :: "snd_kernel list \<Rightarrow> mixer \<Rightarrow> snd_trace \<Rightarrow> mixer option" where
  "mixer_updates [] m tr = Some m"
| "mixer_updates (K # Ks) m tr =
     (case add_controls K m tr of None \<Rightarrow> None | Some (r, m1, tr1) \<Rightarrow> mixer_updates Ks m1 tr1)"

lemma mixer_updates_ok: "mixer_updates Ks m tr = Some m1 \<Longrightarrow> list_all ctl_ok (mx_ctl m) \<Longrightarrow> list_all ctl_ok (mx_ctl m1)"
  by (induction Ks m tr rule: mixer_updates.induct) (auto split: option.splits prod.splits dest!: add_controls_ok)

lemma mixer_open_ok: "mixer_open K number tr = Some (Some m, tr1) \<Longrightarrow> list_all ctl_ok (mx_ctl m)"
  by (auto simp: mixer_open_def Let_def split: prod.splits if_splits option.splits dest!: add_controls_ok)

lemma ctl_ok_ename:
  assumes "ctl_ok c" and "ei_type (ctl_info c) = SNDRV_CTL_ELEM_TYPE_ENUMERATED" and "i < ei_items (ctl_info c)"
  shows "\<exists>name. ename_at c i = Some (Some name)"
  using assms by (cases "ctl_ename c") (auto simp: ctl_ok_def ename_at_def list_all_length)

lemma enum_index_ok:
  assumes "ctl_ok c" and "ei_type (ctl_info c) = SNDRV_CTL_ELEM_TYPE_ENUMERATED"
  shows "list_all (\<lambda>i. i < ei_items (ctl_info c)) is \<Longrightarrow> enum_index c s is \<noteq> None"
proof (induction "is")
  case (Cons i "is")
  then obtain name where "ename_at c i = Some (Some name)" using ctl_ok_ename [OF assms] by auto
  with Cons show ?case by simp
qed simp

text \<open>C2: however opening and updates of a mixer go, including those that fail halfway, looking up and setting a name of an
  enumeration never reads outside an array of names or through a missing one.\<close>

theorem mixer_names_safe:
  assumes "mixer_open K number tr = Some (Some m0, tr0)" and "mixer_updates Ks m0 tr0 = Some m"
    and "mixer_get_ctl (Some m) n = Some c"
  shows "mixer_ctl_get_enum_string (Some c) i \<noteq> None \<and> mixer_ctl_set_enum_by_string K1 (Some c) s tr1 \<noteq> None"
proof -
  have "list_all ctl_ok (mx_ctl m)" by (rule mixer_updates_ok [OF assms(2) mixer_open_ok [OF assms(1)]])
  then have ok: "ctl_ok c" using assms(3) by (auto simp: mixer_get_ctl_def list_all_length split: if_splits)
  show ?thesis
  proof (cases "ei_type (ctl_info c) = SNDRV_CTL_ELEM_TYPE_ENUMERATED")
    case True
    have "enum_index c s [0..<ei_items (ctl_info c)] \<noteq> None" by (rule enum_index_ok [OF ok True]) (simp add: list_all_iff)
    then show ?thesis using True ctl_ok_ename [OF ok True, of i]
      by (auto simp: mixer_ctl_get_enum_string_def mixer_ctl_set_enum_by_string_def split: option.splits prod.splits)
  qed (simp add: mixer_ctl_get_enum_string_def mixer_ctl_set_enum_by_string_def)
qed

section \<open>Opening and updating\<close>

text \<open>When the card does not answer the first request, \<open>mixer_open\<close> closes descriptor 0 instead of the one it opened.\<close>

theorem open_closes_descriptor_0:
  assumes "snd_ioctl K (SND_OPEN n) tr = (fd, tr1)" and "0 \<le> fd" and "snd_alloc K 1 tr1 = (True, tr2)"
    and "snd_ioctl K CARD_INFO tr2 = (r, tr3)" and "r < 0"
  shows "mixer_open K n tr = Some (None, tr3 @ [SND_CLOSE 0])"
  using assms by (simp add: mixer_open_def mixer_close_def)

text \<open>A system with memory whose card has the given controls, each with its names.\<close>

definition card_answers :: "snd_kernel \<Rightarrow> (elem_info \<times> string list) list \<Rightarrow> bool" where
  "card_answers K cs \<longleftrightarrow> (\<forall>tr. 0 \<le> k_ret K tr)
     \<and> (\<forall>tr off sp. k_list K (tr @ [ELEM_LIST off sp]) = (length cs, take sp (drop off (map (\<lambda>c. ei_numid (fst c)) cs))))
     \<and> (\<forall>(ei, ns) \<in> set cs. (\<forall>tr. k_info K (tr @ [ELEM_INFO (ei_numid ei)]) = ei)
          \<and> (ei_type ei = SNDRV_CTL_ELEM_TYPE_ENUMERATED \<longrightarrow> length ns = ei_items ei)
          \<and> (\<forall>tr. \<forall>i < length ns. k_item K (tr @ [ELEM_ITEM (ei_numid ei) i]) = ns ! i))"

definition ctl_of :: "elem_info \<times> string list \<Rightarrow> mixer_ctl" where
  "ctl_of = (\<lambda>(ei, ns). \<lparr>ctl_info = ei,
     ctl_ename = (if ei_type ei = SNDRV_CTL_ELEM_TYPE_ENUMERATED then Some (map Some ns) else None)\<rparr>)"

lemma card_ret: "card_answers K cs \<Longrightarrow> 0 \<le> k_ret K tr"
  by (simp add: card_answers_def)

lemma card_ioctl: "card_answers K cs \<Longrightarrow> snd_ioctl K c tr = (k_ret K (tr @ [c]), tr @ [c])" "card_answers K cs \<Longrightarrow> \<not> k_ret K tr < 0"
  using card_ret [of K cs "tr @ [c]"] card_ret [of K cs tr] by (auto simp: snd_ioctl_def Let_def)

lemma card_alloc: "card_answers K cs \<Longrightarrow> snd_alloc K n tr = (True, tr @ [SND_ALLOC n])"
  by (simp add: card_answers_def snd_alloc_def)

lemma card_enames:
  assumes "card_answers K cs" and "(ei, ns) \<in> set cs"
  shows "list_all (\<lambda>i. i < length ns) ms \<Longrightarrow> \<exists>tr1. get_enames K (ei_numid ei) ms tr = (Some (map (\<lambda>i. Some (ns ! i)) ms), tr1)"
proof (induction ms arbitrary: tr)
  case (Cons m ms)
  let ?tr = "(tr @ [ELEM_ITEM (ei_numid ei) m]) @ [SND_ALLOC (Suc (length (ns ! m)))]"
  have "k_item K (tr @ [ELEM_ITEM (ei_numid ei) m]) = ns ! m" using assms Cons.prems by (auto simp: card_answers_def)
  moreover obtain tr1 where "get_enames K (ei_numid ei) ms ?tr = (Some (map (\<lambda>i. Some (ns ! i)) ms), tr1)"
    using Cons.IH [of ?tr] Cons.prems by auto
  ultimately show ?case by (simp add: card_ioctl [OF assms(1)] card_alloc [OF assms(1)])
qed simp

lemma card_control:
  assumes "card_answers K cs" and "c \<in> set cs"
  shows "\<exists>tr1. add_control K (ei_numid (fst c)) tr = (Some (ctl_of c), tr1)"
proof -
  obtain ei ns where c: "c = (ei, ns)" by force
  have info: "k_info K (tr @ [ELEM_INFO (ei_numid ei)]) = ei" using assms c by (auto simp: card_answers_def)
  show ?thesis
  proof (cases "ei_type ei = SNDRV_CTL_ELEM_TYPE_ENUMERATED")
    case True
    then have l: "length ns = ei_items ei" using assms c by (auto simp: card_answers_def)
    obtain tr1 where "get_enames K (ei_numid ei) [0..<ei_items ei] ((tr @ [ELEM_INFO (ei_numid ei)]) @ [SND_ALLOC (ei_items ei)])
        = (Some (map (\<lambda>i. Some (ns ! i)) [0..<ei_items ei]), tr1)"
      using card_enames [OF assms(1), of ei ns "[0..<ei_items ei]"] assms(2) c l by (fastforce simp: list_all_iff)
    moreover have "map (\<lambda>i. Some (ns ! i)) [0..<ei_items ei] = map Some ns" by (rule nth_equalityI) (simp_all add: l)
    ultimately show ?thesis using True
      by (simp add: add_control_def c info card_ioctl [OF assms(1)] card_alloc [OF assms(1)] ctl_of_def)
  qed (simp add: add_control_def c info card_ioctl [OF assms(1)] ctl_of_def)
qed

lemma card_loop:
  assumes "card_answers K cs"
  shows "set ds \<subseteq> set cs \<Longrightarrow> \<exists>tr1. add_loop K (map (\<lambda>c. ei_numid (fst c)) ds) tr = (True, map ctl_of ds, tr1)"
proof (induction ds arbitrary: tr)
  case (Cons d ds)
  obtain tr1 where d: "add_control K (ei_numid (fst d)) tr = (Some (ctl_of d), tr1)"
    using card_control [OF assms, of d tr] Cons.prems by auto
  moreover obtain tr2 where "add_loop K (map (\<lambda>c. ei_numid (fst c)) ds) tr1 = (True, map ctl_of ds, tr2)"
    using Cons.IH [of tr1] Cons.prems by auto
  ultimately show ?case by simp
qed simp

lemma card_add_controls:
  assumes K: "card_answers K cs" and m: "mx_ctl m = map ctl_of (take k cs)"
  shows "\<exists>tr1. add_controls K m tr = Some (0, m\<lparr>mx_ctl := map ctl_of cs\<rparr>, tr1)"
proof -
  have k: "k_list K (t @ [ELEM_LIST off sp]) = (length cs, take sp (drop off (map (\<lambda>c. ei_numid (fst c)) cs)))" for t off sp
    using K by (simp add: card_answers_def)
  show ?thesis
  proof (cases "length cs \<le> k")
    case True
    then show ?thesis using m by (simp add: add_controls_def card_ioctl [OF K] k)
  next
    case False
    let ?ids = "map (\<lambda>c. ei_numid (fst c)) (drop k cs)"
    have "take (length cs - k) (take (length cs - k) (drop k (map (\<lambda>c. ei_numid (fst c)) cs)) @ xs) = ?ids" for xs
      by (simp add: drop_map)
    moreover obtain tr1 where "add_loop K ?ids ((((tr @ [ELEM_LIST 0 0]) @ [SND_ALLOC (length cs)]) @ [SND_ALLOC (length cs - k)])
        @ [ELEM_LIST k (length cs - k)]) = (True, map ctl_of (drop k cs), tr1)"
      using card_loop [OF K set_drop_subset] by blast
    moreover have "map ctl_of (take k cs) @ map ctl_of (drop k cs) = map ctl_of cs" by (simp flip: map_append)
    ultimately show ?thesis using False m by (simp add: add_controls_def card_ioctl [OF K] card_alloc [OF K] k min_def)
  qed
qed

lemma card_opens: "card_answers K cs \<Longrightarrow> \<exists>m tr1. mixer_open K n tr = Some (Some m, tr1)"
  using card_add_controls [of K cs "\<lparr>mx_fd = k_ret K (tr @ [SND_OPEN n]),
    mx_card = k_card K (((tr @ [SND_OPEN n]) @ [SND_ALLOC 1]) @ [CARD_INFO]), mx_ctl = []\<rparr>" 0 "((tr @ [SND_OPEN n]) @ [SND_ALLOC 1]) @ [CARD_INFO]"]
  by (force simp: mixer_open_def card_ioctl card_alloc Let_def)

lemma card_open:
  assumes "card_answers K cs" and "mixer_open K n tr = Some (Some m, tr1)"
  shows "mx_ctl m = map ctl_of cs"
proof -
  define t where "t = ((tr @ [SND_OPEN n]) @ [SND_ALLOC 1]) @ [CARD_INFO]"
  obtain tr2 where "add_controls K \<lparr>mx_fd = k_ret K (tr @ [SND_OPEN n]), mx_card = k_card K t, mx_ctl = []\<rparr> t
      = Some (0, \<lparr>mx_fd = k_ret K (tr @ [SND_OPEN n]), mx_card = k_card K t, mx_ctl = map ctl_of cs\<rparr>, tr2)"
    using card_add_controls [OF assms(1), of "\<lparr>mx_fd = k_ret K (tr @ [SND_OPEN n]), mx_card = k_card K t, mx_ctl = []\<rparr>" 0 t] by auto
  with assms(2) show ?thesis by (auto simp: mixer_open_def card_ioctl [OF assms(1)] card_alloc [OF assms(1)] t_def Let_def)
qed

text \<open>C12: updating a mixer after controls were added to the card gives the controls that opening it again gives, with their
  names, and on the descriptor it had.\<close>

theorem mixer_update_is_reopen:
  assumes "card_answers K1 (take k cs)" and "mixer_open K1 n tr = Some (Some m, tr1)"
    and "card_answers K2 cs" and "mixer_open K2 n tr2 = Some (Some m2, tr3)"
  shows "\<exists>m3 tr4. mixer_update_ctls K2 (Some m) tr1 = Some (0, Some m3, tr4) \<and> mx_ctl m3 = mx_ctl m2 \<and> mx_fd m3 = mx_fd m"
proof -
  obtain tr4 where "add_controls K2 m tr1 = Some (0, m\<lparr>mx_ctl := map ctl_of cs\<rparr>, tr4)"
    using card_add_controls [OF assms(3) card_open [OF assms(1,2)]] by blast
  then show ?thesis by (simp add: mixer_update_ctls_def card_open [OF assms(3,4)])
qed

section \<open>Values read back\<close>

text \<open>A card whose control reads back, right after a write that it took, what was written.\<close>

definition keeps_values :: "snd_kernel \<Rightarrow> bool" where
  "keeps_values K \<longleftrightarrow> (\<forall>tr n ev. 0 \<le> k_ret K (tr @ [ELEM_WRITE n ev])
     \<longrightarrow> 0 \<le> k_ret K ((tr @ [ELEM_WRITE n ev]) @ [ELEM_READ n]) \<and> k_value K ((tr @ [ELEM_WRITE n ev]) @ [ELEM_READ n]) = ev)"

definition value_shown :: "mixer_ctl \<Rightarrow> int \<Rightarrow> int" where
  "value_shown c w =
     (case ei_type (ctl_info c) of
        SNDRV_CTL_ELEM_TYPE_BOOLEAN \<Rightarrow> if w = 0 then 0 else 1
      | SNDRV_CTL_ELEM_TYPE_INTEGER \<Rightarrow> to_int w
      | SNDRV_CTL_ELEM_TYPE_ENUMERATED \<Rightarrow> to_int w
      | SNDRV_CTL_ELEM_TYPE_BYTES \<Rightarrow> w
      | _ \<Rightarrow> - EINVAL)"

lemma get_value_shown:
  "i < ei_count (ctl_info c) \<Longrightarrow> elem_read K c tr = (r, ev, tr1) \<Longrightarrow> 0 \<le> r \<Longrightarrow> mixer_ctl_get_value K (Some c) i tr = (value_shown c (ev i), tr1)"
  by (simp add: mixer_ctl_get_value_def value_shown_def)

lemma write_then_read:
  assumes "keeps_values K" and "elem_write K c ev tr = (r, tr1)" and "0 \<le> r"
  shows "\<exists>r2 tr2. elem_read K c tr1 = (r2, ev, tr2) \<and> 0 \<le> r2"
proof -
  let ?t = "tr @ [ELEM_WRITE (ei_numid (ctl_info c)) ev]"
  have w: "tr1 = ?t" "0 \<le> k_ret K ?t"
    using assms(2,3) by (auto simp: elem_write_def snd_ioctl_def Let_def split: if_splits)
  then have "0 \<le> k_ret K (?t @ [ELEM_READ (ei_numid (ctl_info c))])" "k_value K (?t @ [ELEM_READ (ei_numid (ctl_info c))]) = ev"
    using assms(1) by (simp_all only: keeps_values_def)
  then show ?thesis by (simp add: elem_read_def snd_ioctl_def Let_def w(1))
qed

lemma set_value_steps:
  assumes "mixer_ctl_set_value K (Some c) i v tr = (r, tr1)" and "0 \<le> r"
  shows "\<exists>r0 ev tr0 w. i < ei_count (ctl_info c) \<and> elem_read K c tr = (r0, ev, tr0) \<and> 0 \<le> r0 \<and> value_stored c v = Some w
    \<and> elem_write K c (ev(i := w)) tr0 = (r, tr1)"
  using assms by (auto simp: mixer_ctl_set_value_def EINVAL_def Let_def split: if_splits prod.splits option.splits)

lemma set_then_get:
  assumes "keeps_values K" and "mixer_ctl_set_value K (Some c) i v tr = (r, tr1)" and "0 \<le> r"
  shows "\<exists>w. value_stored c v = Some w \<and> fst (mixer_ctl_get_value K (Some c) i tr1) = value_shown c w"
    and "j < ei_count (ctl_info c) \<Longrightarrow> j \<noteq> i \<Longrightarrow> fst (mixer_ctl_get_value K (Some c) j tr1) = fst (mixer_ctl_get_value K (Some c) j tr)"
proof -
  obtain r0 ev tr0 w where s: "i < ei_count (ctl_info c)" "elem_read K c tr = (r0, ev, tr0)" "0 \<le> r0" "value_stored c v = Some w"
      "elem_write K c (ev(i := w)) tr0 = (r, tr1)"
    using set_value_steps [OF assms(2,3)] by blast
  obtain r2 tr2 where r: "elem_read K c tr1 = (r2, ev(i := w), tr2)" "0 \<le> r2" using write_then_read [OF assms(1) s(5) assms(3)] by blast
  show "\<exists>w. value_stored c v = Some w \<and> fst (mixer_ctl_get_value K (Some c) i tr1) = value_shown c w"
    using s(4) get_value_shown [OF s(1) r] by simp
  show "j < ei_count (ctl_info c) \<Longrightarrow> j \<noteq> i \<Longrightarrow> fst (mixer_ctl_get_value K (Some c) j tr1) = fst (mixer_ctl_get_value K (Some c) j tr)"
    using get_value_shown [OF _ r] get_value_shown [OF _ s(2,3)] by simp
qed

lemma to_int_id: "- (2 ^ 31) \<le> x \<Longrightarrow> x < 2 ^ 31 \<Longrightarrow> to_int x = x"
  by (simp add: to_int_def sint_sbintrunc' signed_take_bit_int_eq_self)

text \<open>C24: on a card that keeps values, a value that was set without an error is read back (a truth value as 0 or 1, a byte
  modulo 256), and every other value of the control is the one read before.\<close>

theorem set_value_reads_back:
  assumes "keeps_values K" and "mixer_ctl_set_value K (Some c) i v tr = (r, tr1)" and "0 \<le> r" and "- (2 ^ 31) \<le> v" and "v < 2 ^ 31"
  shows "fst (mixer_ctl_get_value K (Some c) i tr1) =
      (if ei_type (ctl_info c) = SNDRV_CTL_ELEM_TYPE_BOOLEAN then if v = 0 then 0 else 1
       else if ei_type (ctl_info c) = SNDRV_CTL_ELEM_TYPE_BYTES then v mod 256 else v)
    \<and> (\<forall>j < ei_count (ctl_info c). j \<noteq> i \<longrightarrow>
         fst (mixer_ctl_get_value K (Some c) j tr1) = fst (mixer_ctl_get_value K (Some c) j tr))"
proof -
  obtain w where w: "value_stored c v = Some w" "fst (mixer_ctl_get_value K (Some c) i tr1) = value_shown c w"
    using set_then_get(1) [OF assms(1-3)] by blast
  have "value_shown c w = (if ei_type (ctl_info c) = SNDRV_CTL_ELEM_TYPE_BOOLEAN then if v = 0 then 0 else 1
       else if ei_type (ctl_info c) = SNDRV_CTL_ELEM_TYPE_BYTES then v mod 256 else v)"
    using w(1) assms(4,5)
    by (auto simp: value_stored_def value_shown_def to_int_id Let_def split: elem_type.splits if_splits)
  then show ?thesis using w(2) set_then_get(2) [OF assms(1-3)] by simp
qed

lemma enum_index_found:
  "enum_index c s is = Some (Some i) \<Longrightarrow> i \<in> set is \<and> ename_at c i = Some (Some s)"
  by (induction c s "is" rule: enum_index.induct) (auto split: option.splits if_splits)

text \<open>Setting an enumeration by a name that it has sets the first value to an item of that name, and every other value of
  the control to item 0, whatever it was.\<close>

theorem enum_by_string_clears_others:
  assumes "keeps_values K" and "mixer_ctl_set_enum_by_string K (Some c) s tr = Some (r, tr1)" and "0 \<le> r" and "0 < ei_count (ctl_info c)"
  shows "(\<exists>i < ei_items (ctl_info c). mixer_ctl_get_enum_string (Some c) i = Some (Some s)
        \<and> fst (mixer_ctl_get_value K (Some c) 0 tr1) = to_int (int i))
    \<and> (\<forall>j < ei_count (ctl_info c). 0 < j \<longrightarrow> fst (mixer_ctl_get_value K (Some c) j tr1) = 0)"
proof -
  obtain i r1 where e: "ei_type (ctl_info c) = SNDRV_CTL_ELEM_TYPE_ENUMERATED" "enum_index c s [0..<ei_items (ctl_info c)] = Some (Some i)"
      "elem_write K c ((\<lambda>_. 0)(0 := int i)) tr = (r1, tr1)" "0 \<le> r1"
    using assms(2,3) by (auto simp: mixer_ctl_set_enum_by_string_def EINVAL_def split: if_splits option.splits prod.splits)
  have i: "i < ei_items (ctl_info c)" "ename_at c i = Some (Some s)" using enum_index_found [OF e(2)] by auto
  obtain r2 tr2 where r: "elem_read K c tr1 = (r2, (\<lambda>_. 0)(0 := int i), tr2)" "0 \<le> r2" using write_then_read [OF assms(1) e(3,4)] by blast
  have "mixer_ctl_get_enum_string (Some c) i = Some (Some s)" using i e(1) by (simp add: mixer_ctl_get_enum_string_def)
  moreover have "fst (mixer_ctl_get_value K (Some c) 0 tr1) = to_int (int i)"
    using get_value_shown [OF assms(4) r] e(1) by (simp add: value_shown_def)
  moreover have "j < ei_count (ctl_info c) \<Longrightarrow> 0 < j \<Longrightarrow> fst (mixer_ctl_get_value K (Some c) j tr1) = 0" for j
    using get_value_shown [OF _ r] e(1) by (simp add: value_shown_def to_int_id)
  ultimately show ?thesis using i(1) by blast
qed

section \<open>Percents do not come back\<close>

lemma percent_value:
  assumes "ei_min ei < ei_max ei" and "- (2 ^ 31) \<le> ei_min ei" and "ei_max ei < 2 ^ 31" and "(ei_max ei - ei_min ei) * 100 < 2 ^ 31"
  shows "percent_to_int ei p = ei_min ei + (ei_max ei - ei_min ei) * max 0 (min 100 p) div 100"
proof -
  let ?rg = "ei_max ei - ei_min ei" and ?p = "max 0 (min 100 p)"
  have p: "(if p > 100 then 100 else if p < 0 then 0 else p) = ?p" by auto
  have "?rg * ?p \<le> ?rg * 100" by (rule mult_left_mono) (use assms(1) in auto)
  then have m: "0 \<le> ?rg * ?p" "?rg * ?p \<le> ?rg * 100" using assms(1) by (auto intro: mult_nonneg_nonneg)
  then have q: "0 \<le> ?rg * ?p div 100" "?rg * ?p div 100 \<le> ?rg" by (simp_all add: pos_imp_zdiv_nonneg_iff)
  have "to_int ?rg = ?rg" by (rule to_int_id) (use assms(1,4) in simp_all)
  moreover have "to_int (?rg * ?p) = ?rg * ?p"
    by (rule to_int_id [OF order_trans [OF _ m(1)] le_less_trans [OF m(2) assms(4)]]) simp
  moreover have "?rg * ?p sdiv 100 = ?rg * ?p div 100" using m(1) by (simp add: signed_divide_int_def sgn_if)
  moreover have "to_int (ei_min ei + ?rg * ?p div 100) = ei_min ei + ?rg * ?p div 100" by (rule to_int_id) (use assms q in linarith)+
  ultimately show ?thesis by (simp add: percent_to_int_def p Let_def)
qed

text \<open>C19: on a card that keeps values, for a control whose limits are 32-bit numbers with the minimum below the maximum and
  a hundred times their distance below \<open>2 ^ 31\<close>, a percentage that was set without an error is read back as 0 when it is
  below 100 and as 100 otherwise: the division of \<open>int_to_percent\<close> comes before the multiplication.\<close>

theorem percent_reads_0_or_100:
  assumes "keeps_values K" and "mixer_ctl_set_percent K (Some c) i p tr = (r, tr1)" and "0 \<le> r"
    and "ei_min (ctl_info c) < ei_max (ctl_info c)" and "- (2 ^ 31) \<le> ei_min (ctl_info c)" and "ei_max (ctl_info c) < 2 ^ 31"
    and "(ei_max (ctl_info c) - ei_min (ctl_info c)) * 100 < 2 ^ 31"
  shows "fst (mixer_ctl_get_percent K (Some c) i tr1) = (if p < 100 then 0 else 100)"
proof -
  let ?rg = "ei_max (ctl_info c) - ei_min (ctl_info c)" and ?p = "max 0 (min 100 p)"
  have t: "ei_type (ctl_info c) = SNDRV_CTL_ELEM_TYPE_INTEGER" using assms(2,3) by (auto simp: mixer_ctl_set_percent_def EINVAL_def split: if_splits)
  define v where "v = ei_min (ctl_info c) + ?rg * ?p div 100"
  have "mixer_ctl_set_value K (Some c) i v tr = (r, tr1)"
    using assms(2) t by (simp add: mixer_ctl_set_percent_def percent_value [OF assms(4-7)] v_def)
  from set_then_get(1) [OF assms(1) this assms(3)] have g: "fst (mixer_ctl_get_value K (Some c) i tr1) = to_int v"
    using t by (auto simp: value_stored_def value_shown_def Let_def split: if_splits)
  have "?rg * ?p \<le> ?rg * (if p < 100 then 99 else 100)" by (rule mult_left_mono) (use assms(4) in auto)
  then have q: "0 \<le> ?rg * ?p div 100" "p < 100 \<Longrightarrow> ?rg * ?p div 100 < ?rg" "\<not> p < 100 \<Longrightarrow> ?rg * ?p div 100 = ?rg"
    using assms(4) by (auto simp: pos_imp_zdiv_nonneg_iff intro: mult_nonneg_nonneg)
  have "to_int v = v" by (rule to_int_id) (use assms(4-7) q v_def in linarith)+
  moreover have "to_int ?rg = ?rg" by (rule to_int_id) (use assms(4,7) in simp_all)
  moreover have "(v - ei_min (ctl_info c)) sdiv ?rg = (if p < 100 then 0 else 1)"
    using q assms(4) by (auto simp: v_def signed_divide_int_def sgn_if)
  ultimately have "int_to_percent (ctl_info c) (to_int v) = (if p < 100 then 0 else 100)"
    using assms(4) by (simp add: int_to_percent_def Let_def to_int_id)
  then show ?thesis using t g by (simp add: mixer_ctl_get_percent_def case_prod_beta)
qed

section \<open>Instances\<close>

text \<open>A card with the given controls, which keeps what is written.\<close>

fun written :: "nat \<Rightarrow> snd_trace \<Rightarrow> elem_value" where
  "written n [] = (\<lambda>_. 0)"
| "written n (c # past) = (case c of ELEM_WRITE m ev \<Rightarrow> if m = n then ev else written n past | _ \<Rightarrow> written n past)"

definition no_control :: elem_info where
  "no_control = \<lparr>ei_numid = 0, ei_name = [], ei_type = SNDRV_CTL_ELEM_TYPE_NONE, ei_count = 0, ei_tlv = False, ei_min = 0, ei_max = 0\<rparr>"

definition lookup_control :: "(elem_info \<times> string list) list \<Rightarrow> nat \<Rightarrow> elem_info \<times> string list" where
  "lookup_control cs n = (case find (\<lambda>c. ei_numid (fst c) = n) cs of None \<Rightarrow> (no_control, []) | Some c \<Rightarrow> c)"

definition card_with :: "(elem_info \<times> string list) list \<Rightarrow> snd_kernel" where
  "card_with cs =
     \<lparr>k_ret = (\<lambda>_. 0), k_card = (\<lambda>_. ''card''),
      k_list = (\<lambda>tr. case last tr of ELEM_LIST off sp \<Rightarrow> (length cs, take sp (drop off (map (\<lambda>c. ei_numid (fst c)) cs))) | _ \<Rightarrow> (0, [])),
      k_info = (\<lambda>tr. case last tr of ELEM_INFO n \<Rightarrow> fst (lookup_control cs n) | _ \<Rightarrow> no_control),
      k_item = (\<lambda>tr. case last tr of ELEM_ITEM n i \<Rightarrow> snd (lookup_control cs n) ! i | _ \<Rightarrow> []),
      k_value = (\<lambda>tr. case last tr of ELEM_READ n \<Rightarrow> written n (rev (butlast tr)) | _ \<Rightarrow> (\<lambda>_. 0)), k_tlv = (\<lambda>_. [])\<rparr>"

lemma card_with_keeps: "keeps_values (card_with cs)"
  by (simp add: keeps_values_def card_with_def butlast_append)

definition volume :: "elem_info \<times> string list" where
  "volume = (\<lparr>ei_numid = 7, ei_name = ''Volume'', ei_type = SNDRV_CTL_ELEM_TYPE_INTEGER, ei_count = 2, ei_tlv = False,
     ei_min = - 10, ei_max = 30\<rparr>, [])"

definition source :: "elem_info \<times> string list" where
  "source = (\<lparr>ei_numid = 9, ei_name = ''Source'', ei_type = SNDRV_CTL_ELEM_TYPE_ENUMERATED, ei_count = 2, ei_tlv = False,
     ei_min = 2, ei_max = 0\<rparr>, [''mic'', ''line''])"

lemma card_with_answers:
  "card_answers (card_with [volume, source]) [volume, source]" "card_answers (card_with [volume]) (take 1 [volume, source])"
  by (simp_all add: card_answers_def card_with_def lookup_control_def source_def volume_def ei_items_def)

lemma source_is_enumerated:
  assumes "mixer_open (card_with [volume, source]) 0 [] = Some (Some m, tr)"
  shows "mixer_get_ctl (Some m) 1 = Some (ctl_of source)"
  using card_open [OF card_with_answers(1) assms] by (simp add: mixer_get_ctl_def)

theorem mixer_names_safe_witness:
  "\<exists>m tr. mixer_open (card_with [volume, source]) 0 [] = Some (Some m, tr)
     \<and> mixer_ctl_get_enum_string (mixer_get_ctl (Some m) 1) 1 \<noteq> None
     \<and> mixer_ctl_set_enum_by_string (card_with [volume, source]) (mixer_get_ctl (Some m) 1) ''line'' tr \<noteq> None"
proof -
  obtain m tr where o: "mixer_open (card_with [volume, source]) 0 [] = Some (Some m, tr)" using card_opens [OF card_with_answers(1)] by blast
  from mixer_names_safe [OF o _ source_is_enumerated [OF o], of "[]" 1 "card_with [volume, source]" "''line''" tr] o
  show ?thesis using source_is_enumerated [OF o] by auto
qed

definition silent_card :: snd_kernel where
  "silent_card = (card_with [])\<lparr>k_ret := (\<lambda>tr. case last tr of SND_OPEN n \<Rightarrow> 5 | CARD_INFO \<Rightarrow> - 19 | _ \<Rightarrow> 0)\<rparr>"

theorem open_closes_descriptor_0_witness:
  "mixer_open silent_card 0 [] = Some (None, [SND_OPEN 0, SND_ALLOC 1, CARD_INFO, SND_CLOSE 0])"
  using open_closes_descriptor_0 [of silent_card 0 "[]" 5 "[SND_OPEN 0]" "[SND_OPEN 0, SND_ALLOC 1]" "- 1" "[SND_OPEN 0, SND_ALLOC 1, CARD_INFO]"]
  by (simp add: silent_card_def snd_ioctl_def snd_alloc_def)

theorem mixer_update_is_reopen_witness:
  "\<exists>m tr m3 tr4. mixer_open (card_with [volume]) 0 [] = Some (Some m, tr) \<and> mixer_update_ctls (card_with [volume, source]) (Some m) tr = Some (0, Some m3, tr4)
     \<and> mx_ctl m3 = [ctl_of volume, ctl_of source]"
proof -
  obtain m tr where o: "mixer_open (card_with [volume]) 0 [] = Some (Some m, tr)" using card_opens [OF card_with_answers(2)] by blast
  obtain m2 tr2 where o2: "mixer_open (card_with [volume, source]) 0 [] = Some (Some m2, tr2)" using card_opens [OF card_with_answers(1)] by blast
  from mixer_update_is_reopen [OF card_with_answers(2) o card_with_answers(1) o2] card_open [OF card_with_answers(1) o2] o
  show ?thesis by auto
qed

definition volume_ctl :: mixer_ctl where
  "volume_ctl = \<lparr>ctl_info = fst volume, ctl_ename = None\<rparr>"

lemma volume_set:
  assumes "v = 7 \<or> v = 30"
  shows "\<exists>tr1. mixer_ctl_set_value (card_with [volume]) (Some volume_ctl) 1 v [] = (0, tr1)"
  using assms by (auto simp: mixer_ctl_set_value_def volume_ctl_def volume_def elem_read_def elem_write_def snd_ioctl_def card_with_def
      value_stored_def mixer_ctl_get_range_min_def mixer_ctl_get_range_max_def to_int_id Let_def)

theorem set_value_reads_back_witness:
  "\<exists>tr1. mixer_ctl_set_value (card_with [volume]) (Some volume_ctl) 1 7 [] = (0, tr1)
     \<and> fst (mixer_ctl_get_value (card_with [volume]) (Some volume_ctl) 1 tr1) = 7"
proof -
  obtain tr1 where s: "mixer_ctl_set_value (card_with [volume]) (Some volume_ctl) 1 7 [] = (0, tr1)" using volume_set [of 7] by auto
  from set_value_reads_back [OF card_with_keeps s] s show ?thesis by (simp add: volume_ctl_def volume_def)
qed

theorem percent_reads_0_or_100_witness:
  "\<exists>tr1. mixer_ctl_set_percent (card_with [volume]) (Some volume_ctl) 1 44 [] = (0, tr1)
     \<and> fst (mixer_ctl_get_percent (card_with [volume]) (Some volume_ctl) 1 tr1) = 0"
proof -
  have "percent_to_int (fst volume) 44 = 7" by (simp add: percent_value volume_def)
  then obtain tr1 where s: "mixer_ctl_set_percent (card_with [volume]) (Some volume_ctl) 1 44 [] = (0, tr1)"
    using volume_set [of 7] by (auto simp: mixer_ctl_set_percent_def volume_ctl_def volume_def)
  from percent_reads_0_or_100 [OF card_with_keeps s] s show ?thesis by (simp add: volume_ctl_def volume_def)
qed

theorem enum_by_string_clears_others_witness:
  "\<exists>r tr1. mixer_ctl_set_enum_by_string (card_with [source]) (Some (ctl_of source)) ''line'' [ELEM_WRITE 9 (\<lambda>_. 1)] = Some (r, tr1)
     \<and> fst (mixer_ctl_get_value (card_with [source]) (Some (ctl_of source)) 1 tr1) = 0"
proof -
  have items: "[0..<ei_items (fst source)] = [0, 1]" by (simp add: source_def ei_items_def upt_rec)
  then obtain tr1 where s: "mixer_ctl_set_enum_by_string (card_with [source]) (Some (ctl_of source)) ''line'' [ELEM_WRITE 9 (\<lambda>_. 1)] = Some (0, tr1)"
    by (simp add: mixer_ctl_set_enum_by_string_def ctl_of_def source_def ename_at_def elem_write_def snd_ioctl_def card_with_def)
  from enum_by_string_clears_others [OF card_with_keeps s] s show ?thesis by (simp add: ctl_of_def source_def)
qed

end
