(* ===== verification/Cap_Sense.thy ===== *)
theory Cap_Sense
  imports Flash_Loader
begin

text \<open>
  The capacitive sensor: the listener that resets it when a headset is plugged (\<open>capsensor/capsense.cpp\<close>), and the two
  steps that the flasher takes with it in the build for the other hub (\<open>configure_capsense\<close> and \<open>flash_capsense\<close> of
  \<open>motosh.cpp\<close>, under \<open>MODULE_motosh\<close>).
\<close>

section \<open>The listener\<close>

definition NUL :: char where "NUL = CHR 0x00"

definition HSJ_EV :: string where "HSJ_EV = ''change@/devices/virtual/switch/h2w''"

text \<open>\<open>strncmp\<close> being 0. The end of a list is the end of the C string.\<close>

definition c_head :: "string \<Rightarrow> char" where
  "c_head s = (case s of [] \<Rightarrow> NUL | c # _ \<Rightarrow> c)"

fun strncmp_same :: "string \<Rightarrow> string \<Rightarrow> nat \<Rightarrow> bool" where
  "strncmp_same s t 0 = True"
| "strncmp_same s t (Suc n) = (c_head s = c_head t \<and> (c_head s = NUL \<or> strncmp_same (tl s) (tl t) n))"

datatype cap_call = CAP_OPEN | CAP_WRITE | CAP_CLOSE

text \<open>A message of the kernel, whether the node opens then, and how often the write is interrupted before it ends.\<close>

record uevent =
  ue_bytes :: string
  ue_opens :: bool
  ue_interrupts :: nat

text \<open>A turn of the loop; the message is stored over the one before, whose end stays in the buffer.\<close>

definition capsense_turn :: "string \<Rightarrow> uevent \<Rightarrow> string \<times> cap_call list" where
  "capsense_turn buf ev =
     (let len = length (ue_bytes ev); buf1 = ue_bytes ev @ drop len buf
      in (buf1, if \<not> strncmp_same buf1 HSJ_EV len then []
                else if \<not> ue_opens ev then [CAP_OPEN]
                else CAP_OPEN # replicate (Suc (ue_interrupts ev)) CAP_WRITE @ [CAP_CLOSE]))"

fun capsense_main :: "string \<Rightarrow> uevent list \<Rightarrow> cap_call list" where
  "capsense_main buf [] = []"
| "capsense_main buf (ev # evs) = (case capsense_turn buf ev of (buf1, calls) \<Rightarrow> calls @ capsense_main buf1 evs)"

lemma strncmp_same_strings:
  "NUL \<notin> set s \<Longrightarrow> NUL \<notin> set t \<Longrightarrow> length s < n \<Longrightarrow> strncmp_same (s @ NUL # u) t n \<longleftrightarrow> s = t"
proof (induction s arbitrary: t n)
  case Nil
  then obtain k where "n = Suc k" by (cases n) auto
  with Nil show ?case by (cases t) (auto simp: c_head_def)
next
  case (Cons a s)
  then obtain k where "n = Suc k" by (cases n) auto
  with Cons show ?case by (cases t) (auto simp: c_head_def)
qed

lemma strncmp_same_prefix: "NUL \<notin> set t \<Longrightarrow> k \<le> length t \<Longrightarrow> strncmp_same (take k t @ u) t k"
proof (induction t arbitrary: k)
  case (Cons a t)
  then show ?case by (cases k) (auto simp: c_head_def)
qed simp

lemma HSJ_EV_no_NUL: "NUL \<notin> set HSJ_EV"
  by (simp add: NUL_def HSJ_EV_def)

text \<open>A message of the kernel: its name ends with a zero byte.\<close>

definition is_message :: "string \<Rightarrow> bool" where
  "is_message bs \<longleftrightarrow> NUL \<in> set bs"

definition message_name :: "string \<Rightarrow> string" where
  "message_name bs = takeWhile (\<lambda>c. c \<noteq> NUL) bs"

lemma turn_on_message:
  assumes "is_message (ue_bytes ev)"
  shows "count_list (snd (capsense_turn buf ev)) CAP_OPEN = (if message_name (ue_bytes ev) = HSJ_EV then 1 else 0)"
proof -
  obtain s u where u: "ue_bytes ev = s @ NUL # u" "NUL \<notin> set s"
    using assms unfolding is_message_def by (meson split_list_first)
  let ?bs = "ue_bytes ev"
  have "message_name ?bs = s"
    unfolding message_name_def u(1) using u(2) by (subst takeWhile_append2) auto
  moreover have "strncmp_same (s @ NUL # (u @ drop (length ?bs) buf)) HSJ_EV (length ?bs) \<longleftrightarrow> s = HSJ_EV"
    by (rule strncmp_same_strings [OF u(2) HSJ_EV_no_NUL]) (simp add: u(1))
  then have "strncmp_same (?bs @ drop (length ?bs) buf) HSJ_EV (length ?bs) \<longleftrightarrow> s = HSJ_EV" by (simp only: u(1) append_assoc append_Cons)
  moreover have "count_list (replicate k CAP_WRITE) CAP_OPEN = 0" for k by (induction k) auto
  ultimately show ?thesis by (auto simp: capsense_turn_def Let_def)
qed

text \<open>The sensor is reset once for each message of the headset switch, and for no other message of the kernel, whatever earlier
  messages left in the buffer.\<close>

theorem capsense_resets_per_headset_event:
  assumes "list_all (\<lambda>ev. is_message (ue_bytes ev)) evs"
  shows "count_list (capsense_main buf evs) CAP_OPEN = length (filter (\<lambda>ev. message_name (ue_bytes ev) = HSJ_EV) evs)"
  using assms
proof (induction evs arbitrary: buf)
  case (Cons ev evs)
  then show ?case using turn_on_message [of ev buf] by (simp add: case_prod_beta)
qed simp

theorem capsense_resets_per_headset_event_witness:
  "count_list (capsense_main [] [\<lparr>ue_bytes = HSJ_EV @ [NUL] @ ''ACTION=change'', ue_opens = True, ue_interrupts = 0\<rparr>,
     \<lparr>ue_bytes = ''add@/x'' @ [NUL], ue_opens = True, ue_interrupts = 0\<rparr>]) CAP_OPEN = 1"
  using capsense_resets_per_headset_event [of "[\<lparr>ue_bytes = HSJ_EV @ [NUL] @ ''ACTION=change'', ue_opens = True, ue_interrupts = 0\<rparr>,
     \<lparr>ue_bytes = ''add@/x'' @ [NUL], ue_opens = True, ue_interrupts = 0\<rparr>]" "[]"]
  by (simp add: is_message_def message_name_def HSJ_EV_def NUL_def)

text \<open>A message cut off inside the name of the headset switch resets the sensor too: only the bytes received are compared.\<close>

theorem capsense_resets_on_cut_message:
  assumes "k \<le> length HSJ_EV" and "ue_bytes ev = take k HSJ_EV"
  shows "CAP_OPEN \<in> set (snd (capsense_turn buf ev))"
  using strncmp_same_prefix [OF HSJ_EV_no_NUL assms(1)] assms by (simp add: capsense_turn_def Let_def min_absorb2)

theorem capsense_resets_on_cut_message_witness:
  "CAP_OPEN \<in> set (snd (capsense_turn [] \<lparr>ue_bytes = ''change@'', ue_opens = True, ue_interrupts = 0\<rparr>))"
  using capsense_resets_on_cut_message [of 7 "\<lparr>ue_bytes = ''change@'', ue_opens = True, ue_interrupts = 0\<rparr>" "[]"]
  by (simp add: HSJ_EV_def)

section \<open>Calibration\<close>

datatype antcap_call = SET_ANTCAP_ENABLE "8 word" | SET_ANTCAP_CFG "8 word list" | SET_ANTCAP_CAL "8 word list"

text \<open>\<open>ret\<close> is what the driver answers to the last of the calls; \<open>cal\<close> the calibration file, if it opens. The value is the
  calls made.\<close>

definition antcap_buffer :: "nat \<Rightarrow> 8 word list \<Rightarrow> 8 word list" where
  "antcap_buffer n cal = (if length cal < n then replicate n 0xFF else take n cal)"

definition configure_capsense :: "(antcap_call list \<Rightarrow> int) \<Rightarrow> nat \<Rightarrow> 8 word list option \<Rightarrow> antcap_call list" where
  "configure_capsense ret n cal =
     (let t1 = [SET_ANTCAP_ENABLE 0] in if ret t1 \<noteq> 0 then t1 else
      let t2 = t1 @ [SET_ANTCAP_CFG (replicate n 0)] in if ret t2 \<noteq> 0 then t2 else
      case cal of None \<Rightarrow> t2
      | Some bs \<Rightarrow>
          let t3 = t2 @ [SET_ANTCAP_CAL (antcap_buffer n bs)] in if ret t3 \<noteq> 0 then t3 else t3 @ [SET_ANTCAP_ENABLE 1])"

text \<open>The sensor is switched on exactly when switching it off, its configuration and its calibration were all accepted; it is
  calibrated with the file, or with all bits set when that is too short.\<close>

theorem antcap_enabled_iff_calibrated:
  "SET_ANTCAP_ENABLE 1 \<in> set (configure_capsense ret n cal) \<longleftrightarrow>
     (\<exists>bs. cal = Some bs \<and> ret [SET_ANTCAP_ENABLE 0] = 0 \<and> ret [SET_ANTCAP_ENABLE 0, SET_ANTCAP_CFG (replicate n 0)] = 0
       \<and> ret [SET_ANTCAP_ENABLE 0, SET_ANTCAP_CFG (replicate n 0),
           SET_ANTCAP_CAL (if length bs < n then replicate n 0xFF else take n bs)] = 0)"
  by (auto simp: configure_capsense_def antcap_buffer_def Let_def split: option.split)

section \<open>Flashing\<close>

definition CS_MAX_LEN :: nat where "CS_MAX_LEN = 8"
definition CHECKS :: nat where "CHECKS = 5"

text \<open>\<open>strtol\<close> of the at most seven characters kept, which take less than 32 bits.\<close>

definition checksum_of :: "string \<Rightarrow> int" where
  "checksum_of txt =
     (let s = takeWhile (\<lambda>c. c \<noteq> NUL) (take (CS_MAX_LEN - 1) txt)
      in case scan_hex (length s) s of None \<Rightarrow> 0 | Some w \<Rightarrow> sint w)"

text \<open>The content of the node at each reading, \<open>None\<close> when it does not open; the value has the readings made.\<close>

fun wait_checksum :: "nat \<Rightarrow> string option list \<Rightarrow> int \<Rightarrow> nat \<times> int" where
  "wait_checksum 0 rs cs = (0, cs)"
| "wait_checksum (Suc k) [] cs = (0, cs)"
| "wait_checksum (Suc k) (r # rs) cs =
     (let cs1 = (case r of None \<Rightarrow> cs | Some txt \<Rightarrow> checksum_of txt)
      in if r \<noteq> None \<and> cs1 \<noteq> 0 then (1, cs1) else (case wait_checksum k rs cs1 of (n, c) \<Rightarrow> (Suc n, c)))"

text \<open>\<open>None\<close>: there is no such node. Else whether the flash was started, and the checksum found.\<close>

definition flash_capsense :: "bool \<Rightarrow> bool \<Rightarrow> string option list \<Rightarrow> (bool \<times> int) option" where
  "flash_capsense exists opens rs = (if \<not> exists then None else Some (opens, snd (wait_checksum CHECKS rs 0)))"

lemma wait_checksum_first:
  "snd (wait_checksum k rs 0) = (case find (\<lambda>c. c \<noteq> 0) (map (\<lambda>r. case r of None \<Rightarrow> 0 | Some txt \<Rightarrow> checksum_of txt) (take k rs)) of
     None \<Rightarrow> 0 | Some c \<Rightarrow> c)"
proof (induction k arbitrary: rs)
  case (Suc k)
  show ?case
  proof (cases rs)
    case (Cons r rs')
    then show ?thesis using Suc [of rs'] by (cases r) (auto simp: Let_def case_prod_beta split: option.splits)
  qed simp
qed simp

text \<open>The checksum reported is the first that is not 0 among at most five readings, and 0 when there is none.\<close>

theorem flash_reports_first_checksum:
  "flash_capsense True opens rs = Some (opens, case find (\<lambda>c. c \<noteq> 0)
      (map (\<lambda>r. case r of None \<Rightarrow> 0 | Some txt \<Rightarrow> checksum_of txt) (take 5 rs)) of None \<Rightarrow> 0 | Some c \<Rightarrow> c)"
  by (simp add: flash_capsense_def CHECKS_def wait_checksum_first)

end
