(* ===== verification/Endian.thy ===== *)
theory Endian
  imports Sensor_Hub
begin

text \<open>
  The byte order helpers of the register library (\<open>libsensorhub/Endian.hpp\<close> and \<open>Endian.cpp\<close>; the flasher has the same
  file). \<open>Sensor_Hub\<close> has the two for 32 bits that the library itself uses. An instance of a template for a signed type works
  on the same bits; its value is the signed number of them.
\<close>

section \<open>Swapping\<close>

definition swap16 :: "16 word \<Rightarrow> 16 word" where
  "swap16 x = (drop_bit 8 x AND 0xff) OR push_bit 8 (x AND 0xff)"

definition swap64 :: "64 word \<Rightarrow> 64 word" where
  "swap64 x =
     drop_bit 56 (x AND 0xff00000000000000) OR drop_bit 40 (x AND 0x00ff000000000000)
     OR drop_bit 24 (x AND 0x0000ff0000000000) OR drop_bit 8 (x AND 0x000000ff00000000)
     OR push_bit 8 (x AND 0x00000000ff000000) OR push_bit 24 (x AND 0x0000000000ff0000)
     OR push_bit 40 (x AND 0x000000000000ff00) OR push_bit 56 (x AND 0x00000000000000ff)"

definition swap8 :: "8 word \<Rightarrow> 8 word" where
  "swap8 x = x"

text \<open>The order of the host, from the first byte that a number has in its memory.\<close>

definition ENDIAN_TEST :: "32 word" where "ENDIAN_TEST = 0x01020408"

definition bigEndian :: "(32 word \<Rightarrow> bytes) \<Rightarrow> bool" where
  "bigEndian memory \<longleftrightarrow> memory ENDIAN_TEST ! 0 = 1"

definition ntoh :: "(32 word \<Rightarrow> bytes) \<Rightarrow> 32 word \<Rightarrow> 32 word" where
  "ntoh memory x = (if bigEndian memory then x else swap32 x)"

section \<open>Extracting\<close>

definition extract_u8 :: "bytes \<Rightarrow> 8 word" where
  "extract_u8 a = a ! 0"

definition extract_i8 :: "bytes \<Rightarrow> int" where
  "extract_i8 a = sint (a ! 0)"

definition extract_u16 :: "bytes \<Rightarrow> 16 word" where
  "extract_u16 a = push_bit 8 (ucast (a ! 0)) OR ucast (a ! 1)"

definition extract_u64 :: "bytes \<Rightarrow> 64 word" where
  "extract_u64 a =
     push_bit 56 (ucast (a ! 0)) OR push_bit 48 (ucast (a ! 1)) OR push_bit 40 (ucast (a ! 2)) OR push_bit 32 (ucast (a ! 3))
     OR push_bit 24 (ucast (a ! 4)) OR push_bit 16 (ucast (a ! 5)) OR push_bit 8 (ucast (a ! 6)) OR ucast (a ! 7)"

text \<open>The signed instances, on numbers that are cut off at the end as their type does.\<close>

definition extract_i16 :: "bytes \<Rightarrow> int" where
  "extract_i16 a = signed_take_bit 15 (push_bit 8 (uint (a ! 0)) OR uint (a ! 1))"

definition extract_i32 :: "bytes \<Rightarrow> int" where
  "extract_i32 a = signed_take_bit 31 (push_bit 24 (uint (a ! 0)) OR push_bit 16 (uint (a ! 1)) OR push_bit 8 (uint (a ! 2)) OR uint (a ! 3))"

definition extract_i64 :: "bytes \<Rightarrow> int" where
  "extract_i64 a = signed_take_bit 63
     (push_bit 56 (uint (a ! 0)) OR push_bit 48 (uint (a ! 1)) OR push_bit 40 (uint (a ! 2)) OR push_bit 32 (uint (a ! 3))
      OR push_bit 24 (uint (a ! 4)) OR push_bit 16 (uint (a ! 5)) OR push_bit 8 (uint (a ! 6)) OR uint (a ! 7))"

definition extractLittleEndian_u8 :: "bytes \<Rightarrow> 8 word" where
  "extractLittleEndian_u8 a = swap8 (extract_u8 a)"

definition extractLittleEndian_u16 :: "bytes \<Rightarrow> 16 word" where
  "extractLittleEndian_u16 a = swap16 (extract_u16 a)"

definition extractLittleEndian_u32 :: "bytes \<Rightarrow> 32 word" where
  "extractLittleEndian_u32 a = swap32 (extract_u32 a)"

definition extractLittleEndian_u64 :: "bytes \<Rightarrow> 64 word" where
  "extractLittleEndian_u64 a = swap64 (extract_u64 a)"

section \<open>Bytes of a word\<close>

definition byte :: "nat \<Rightarrow> 'a :: len word \<Rightarrow> 8 word" where
  "byte k w = ucast (drop_bit (8 * k) w)"

lemma byte_high: "8 \<le> n \<Longrightarrow> \<not> bit (b :: 8 word) n"
  by (auto dest: bit_imp_le_length)

lemma bit_byte: "bit (byte k w) n \<longleftrightarrow> n < 8 \<and> bit w (8 * k + n)"
  by (auto simp: byte_def bit_ucast_iff bit_drop_bit_eq)

lemma masked_bytes:
  fixes x :: "64 word"
  shows "drop_bit 56 (x AND 0xff00000000000000) = ucast (byte 7 x)" "drop_bit 40 (x AND 0x00ff000000000000) = push_bit 8 (ucast (byte 6 x))"
    "drop_bit 24 (x AND 0x0000ff0000000000) = push_bit 16 (ucast (byte 5 x))" "drop_bit 8 (x AND 0x000000ff00000000) = push_bit 24 (ucast (byte 4 x))"
    "push_bit 8 (x AND 0x00000000ff000000) = push_bit 32 (ucast (byte 3 x))" "push_bit 24 (x AND 0x0000000000ff0000) = push_bit 40 (ucast (byte 2 x))"
    "push_bit 40 (x AND 0x000000000000ff00) = push_bit 48 (ucast (byte 1 x))" "push_bit 56 (x AND 0x00000000000000ff) = push_bit 56 (ucast (byte 0 x))"
proof -
  have m: "(0xff00000000000000 :: 64 word) = push_bit 56 (mask 8)" "(0x00ff000000000000 :: 64 word) = push_bit 48 (mask 8)"
    "(0x0000ff0000000000 :: 64 word) = push_bit 40 (mask 8)" "(0x000000ff00000000 :: 64 word) = push_bit 32 (mask 8)"
    "(0x00000000ff000000 :: 64 word) = push_bit 24 (mask 8)" "(0x0000000000ff0000 :: 64 word) = push_bit 16 (mask 8)"
    "(0x000000000000ff00 :: 64 word) = push_bit 8 (mask 8)" "(0x00000000000000ff :: 64 word) = mask 8"
    by (simp_all add: mask_eq_exp_minus_1)
  note e = bit_simps bit_byte
  show "drop_bit 56 (x AND 0xff00000000000000) = ucast (byte 7 x)" unfolding m by (rule bit_word_eqI) (auto simp: e)
  show "drop_bit 40 (x AND 0x00ff000000000000) = push_bit 8 (ucast (byte 6 x))" unfolding m by (rule bit_word_eqI) (auto simp: e)
  show "drop_bit 24 (x AND 0x0000ff0000000000) = push_bit 16 (ucast (byte 5 x))" unfolding m by (rule bit_word_eqI) (auto simp: e)
  show "drop_bit 8 (x AND 0x000000ff00000000) = push_bit 24 (ucast (byte 4 x))" unfolding m by (rule bit_word_eqI) (auto simp: e)
  show "push_bit 8 (x AND 0x00000000ff000000) = push_bit 32 (ucast (byte 3 x))" unfolding m by (rule bit_word_eqI) (auto simp: e)
  show "push_bit 24 (x AND 0x0000000000ff0000) = push_bit 40 (ucast (byte 2 x))" unfolding m by (rule bit_word_eqI) (auto simp: e)
  show "push_bit 40 (x AND 0x000000000000ff00) = push_bit 48 (ucast (byte 1 x))" unfolding m by (rule bit_word_eqI) (auto simp: e)
  show "push_bit 56 (x AND 0x00000000000000ff) = push_bit 56 (ucast (byte 0 x))" unfolding m by (rule bit_word_eqI) (auto simp: e)
qed

lemma extract_u64_list:
  "extract_u64 [a, b, c, d, e, f, g, h] =
     push_bit 56 (ucast a) OR push_bit 48 (ucast b) OR push_bit 40 (ucast c) OR push_bit 32 (ucast d)
     OR push_bit 24 (ucast e) OR push_bit 16 (ucast f) OR push_bit 8 (ucast g) OR ucast h"
  by (simp add: extract_u64_def)

lemma swap64_bytes:
  "swap64 x = extract_u64 [byte 0 x, byte 1 x, byte 2 x, byte 3 x, byte 4 x, byte 5 x, byte 6 x, byte 7 x]"
  unfolding swap64_def masked_bytes extract_u64_list by (simp only: ac_simps)

lemma byte_extract:
  fixes a b c d e f g h :: "8 word"
  defines "x \<equiv> extract_u64 [a, b, c, d, e, f, g, h]"
  shows "byte 0 x = h" "byte 1 x = g" "byte 2 x = f" "byte 3 x = e" "byte 4 x = d" "byte 5 x = c" "byte 6 x = b" "byte 7 x = a"
  unfolding x_def extract_u64_list
  by (rule bit_word_eqI, simp add: bit_byte bit_or_iff bit_push_bit_iff bit_ucast_iff byte_high)+

lemma join_bytes64:
  "extract_u64 [byte 7 w, byte 6 w, byte 5 w, byte 4 w, byte 3 w, byte 2 w, byte 1 w, byte 0 w] = (w :: 64 word)"
  unfolding extract_u64_list
proof (rule bit_word_eqI)
  fix n :: nat
  assume n: "n < LENGTH(64)"
  define i where "i = n mod 8"
  have n8: "n = 8 * (n div 8) + i" by (simp add: i_def)
  have "n div 8 < 8" using n by simp
  then have "n div 8 = 0 \<or> n div 8 = 1 \<or> n div 8 = 2 \<or> n div 8 = 3 \<or> n div 8 = 4 \<or> n div 8 = 5 \<or> n div 8 = 6 \<or> n div 8 = 7"
    by (simp only: numeral_eq_Suc pred_numeral_simps less_Suc_eq arith_simps One_nat_def not_less_zero) blast
  then have i: "n = i \<or> n = 8 + i \<or> n = 16 + i \<or> n = 24 + i \<or> n = 32 + i \<or> n = 40 + i \<or> n = 48 + i \<or> n = 56 + i"
    by (elim disjE) (use n8 in simp_all)
  have i8: "i < 8" by (simp add: i_def)
  from i show "bit (push_bit 56 (ucast (byte 7 w)) OR push_bit 48 (ucast (byte 6 w)) OR push_bit 40 (ucast (byte 5 w))
      OR push_bit 32 (ucast (byte 4 w)) OR push_bit 24 (ucast (byte 3 w)) OR push_bit 16 (ucast (byte 2 w))
      OR push_bit 8 (ucast (byte 1 w)) OR ucast (byte 0 w) :: 64 word) n = bit w n"
    by (elim disjE) (use i8 in \<open>simp_all add: bit_byte bit_or_iff bit_push_bit_iff bit_ucast_iff\<close>)
qed

text \<open>The bytes of a word, the lowest first.\<close>

definition le_bytes :: "nat \<Rightarrow> 'a :: len word \<Rightarrow> bytes" where
  "le_bytes n w = map (\<lambda>k. byte k w) [0..<n]"

lemma le_bytes_list:
  "le_bytes 2 w = [byte 0 w, byte 1 w]" "le_bytes 4 w = [byte 0 w, byte 1 w, byte 2 w, byte 3 w]"
  "le_bytes 8 w = [byte 0 w, byte 1 w, byte 2 w, byte 3 w, byte 4 w, byte 5 w, byte 6 w, byte 7 w]"
  by (simp_all add: le_bytes_def upt_rec numeral_eq_Suc)

lemma le_bytes_le32: "le_bytes 4 (w :: 32 word) = le32 w @ []"
  by (simp add: le_bytes_list le32_def byte_def)

lemma swap16_bytes: "swap16 (push_bit 8 (ucast (a :: 8 word)) OR ucast (b :: 8 word)) = push_bit 8 (ucast b) OR ucast a"
proof -
  have m: "(0xff :: 16 word) = mask 8" by (simp add: mask_eq_exp_minus_1)
  show ?thesis unfolding swap16_def m
    by (rule bit_word_eqI) (use byte_high in \<open>auto simp: bit_simps\<close>)
qed

lemma join_bytes16: "push_bit 8 (ucast (byte 1 w)) OR ucast (byte 0 w) = (w :: 16 word)"
proof (rule bit_word_eqI)
  fix n :: nat
  assume n: "n < LENGTH(16)"
  consider "n < 8" | "8 \<le> n" by linarith
  then show "bit (push_bit 8 (ucast (byte 1 w)) OR ucast (byte 0 w) :: 16 word) n = bit w n"
    by cases (use n in \<open>auto simp: bit_byte bit_or_iff bit_push_bit_iff bit_ucast_iff\<close>)
qed

lemma swap_bytes32: "swap32 (extract_u32 [a, b, c, d]) = extract_u32 [d, c, b, a]"
proof -
  have l: "extract_u32 [p, q, r, s] = push_bit 24 (ucast p) OR push_bit 16 (ucast q) OR push_bit 8 (ucast r) OR ucast s" for p q r s
    by (simp add: extract_u32_def)
  show ?thesis unfolding swap32_def byte_and_masks l extract_bytes by (simp only: ac_simps)
qed

text \<open>A number of 16, 32 or 64 bits is read back from its bytes, in either order.\<close>

theorem extract_reads_bytes:
  "extractLittleEndian_u16 (le_bytes 2 (w16 :: 16 word)) = w16 \<and> extract_u16 (rev (le_bytes 2 w16)) = w16
   \<and> extractLittleEndian_u32 (le_bytes 4 (w32 :: 32 word)) = w32 \<and> extract_u32 (rev (le_bytes 4 w32)) = w32
   \<and> extractLittleEndian_u64 (le_bytes 8 (w64 :: 64 word)) = w64 \<and> extract_u64 (rev (le_bytes 8 w64)) = w64"
proof -
  have "extractLittleEndian_u16 (le_bytes 2 w16) = w16" "extract_u16 (rev (le_bytes 2 w16)) = w16"
    by (simp_all add: extractLittleEndian_u16_def extract_u16_def le_bytes_list swap16_bytes join_bytes16 [unfolded One_nat_def])
  moreover have l: "extractLittleEndian_u32 (le_bytes 4 w32) = w32"
    unfolding extractLittleEndian_u32_def le_bytes_le32 by (rule swap_extract_le32)
  moreover have "extract_u32 (rev (le_bytes 4 w32)) = w32"
    using l by (simp add: extractLittleEndian_u32_def le_bytes_list swap_bytes32)
  moreover have "extract_u64 (rev (le_bytes 8 w64)) = w64" by (simp add: le_bytes_list join_bytes64 [unfolded One_nat_def])
  moreover have "extractLittleEndian_u64 (le_bytes 8 w64) = w64"
    by (simp only: extractLittleEndian_u64_def le_bytes_list swap64_bytes byte_extract join_bytes64)
  ultimately show ?thesis by blast
qed

lemma take_bit_byte: "8 \<le> n \<Longrightarrow> take_bit n (uint (b :: 8 word)) = uint b"
  "k + 8 \<le> n \<Longrightarrow> take_bit n (push_bit k (uint b)) = push_bit k (uint b)"
  by (rule bit_eqI, use byte_high [of _ b] in \<open>force simp: bit_take_bit_iff bit_uint_iff bit_push_bit_iff\<close>)+

text \<open>The signed instances give the signed value of what the unsigned ones give.\<close>

theorem extract_signed:
  "extract_i8 a = sint (extract_u8 a) \<and> extract_i16 a = sint (extract_u16 a) \<and> extract_i32 a = sint (extract_u32 a)
   \<and> extract_i64 a = sint (extract_u64 a)"
proof -
  have "extract_i16 a = sint (extract_u16 a)"
    by (simp add: extract_i16_def extract_u16_def sint_uint unsigned_or_eq unsigned_push_bit_eq unsigned_ucast_eq
        take_bit_byte signed_take_bit_take_bit)
  moreover have "extract_i32 a = sint (extract_u32 a)"
    by (simp add: extract_i32_def extract_u32_def sint_uint unsigned_or_eq unsigned_push_bit_eq unsigned_ucast_eq
        take_bit_byte signed_take_bit_take_bit)
  moreover have "extract_i64 a = sint (extract_u64 a)"
    by (simp add: extract_i64_def extract_u64_def sint_uint unsigned_or_eq unsigned_push_bit_eq unsigned_ucast_eq
        take_bit_byte signed_take_bit_take_bit)
  ultimately show ?thesis by (simp add: extract_i8_def extract_u8_def)
qed

end
