(* ===== verification/Device_Base.thy ===== *)
theory Device_Base
  imports Input_Drivers "HOL-Library.Multiset"
begin

text \<open>
  The rest of the base class of the drivers (\<open>SensorBase.cpp\<close>): making and deleting a driver, opening and closing its device,
  the defaults of the virtual functions, the clock. A state is the object with the descriptors that are open.
\<close>

record sensor_base =
  sb_dev_name :: "string option"
  sb_data_name :: "string option"
  sb_mot_data_name :: "string option"
  sb_dev_fd :: int
  sb_data_fd :: int

type_synonym base_state = "sensor_base \<times> int multiset"

text \<open>The descriptor an \<open>open\<close> gave, which may be \<open>- 1\<close>, is open then.\<close>

definition opened_fd :: "int \<Rightarrow> int multiset" where
  "opened_fd fd = (if 0 \<le> fd then {#fd#} else {#})"

text \<open>\<open>dir\<close> is what \<open>/dev/input\<close> holds, \<open>mot\<close> what \<open>open\<close> returns for the file of the driver.\<close>

definition new_SensorBase :: "string option \<Rightarrow> string option \<Rightarrow> string option \<Rightarrow> dev_entry list option \<Rightarrow> int \<Rightarrow> base_state" where
  "new_SensorBase dev data mot_data dir mot =
     (let b = \<lparr>sb_dev_name = dev, sb_data_name = data, sb_mot_data_name = mot_data, sb_dev_fd = - 1, sb_data_fd = - 1\<rparr>
      in case data of
           Some name \<Rightarrow> (case openInput name dir of (fd, fds) \<Rightarrow> (b\<lparr>sb_data_fd := fd\<rparr>, mset fds))
         | None \<Rightarrow> if mot_data \<noteq> None then (b\<lparr>sb_data_fd := mot\<rparr>, opened_fd mot) else (b, {#}))"

definition delete_SensorBase :: "base_state \<Rightarrow> int multiset" where
  "delete_SensorBase = (\<lambda>(b, fds). fds - opened_fd (sb_data_fd b) - opened_fd (sb_dev_fd b))"

text \<open>Both return 0 whatever happens.\<close>

definition open_device :: "int \<Rightarrow> base_state \<Rightarrow> int \<times> base_state" where
  "open_device ret = (\<lambda>(b, fds).
     (0, if sb_dev_fd b < 0 \<and> sb_dev_name b \<noteq> None then (b\<lparr>sb_dev_fd := ret\<rparr>, fds + opened_fd ret) else (b, fds)))"

definition close_device :: "base_state \<Rightarrow> int \<times> base_state" where
  "close_device = (\<lambda>(b, fds).
     (0, if 0 \<le> sb_dev_fd b then (b\<lparr>sb_dev_fd := - 1\<rparr>, fds - opened_fd (sb_dev_fd b)) else (b, fds)))"

definition base_getFd :: "sensor_base \<Rightarrow> int" where
  "base_getFd b = getFd (sb_data_fd b) (sb_dev_fd b)"

text \<open>The defaults of \<open>setDelay\<close>, \<open>hasPendingEvents\<close> and \<open>hasSensor\<close>.\<close>

definition base_setDelay :: "int \<Rightarrow> int \<Rightarrow> int" where
  "base_setDelay handle ns = 0"

definition base_hasPendingEvents :: "sensor_base \<Rightarrow> bool" where
  "base_hasPendingEvents b = False"

definition base_hasSensor :: "int \<Rightarrow> bool" where
  "base_hasSensor handle = True"

text \<open>The clock, in seconds and nanoseconds.\<close>

definition getTimestamp :: "int \<times> int \<Rightarrow> int" where
  "getTimestamp t = fst t * 1000000000 + snd t"

definition timevalToNano :: "int \<times> int \<Rightarrow> int" where
  "timevalToNano t = fst t * 1000000000 + snd t * 1000"

section \<open>Descriptors\<close>

datatype base_call = Base_Open int | Base_Close

definition base_step :: "base_state \<Rightarrow> base_call \<Rightarrow> base_state" where
  "base_step s c = (case c of Base_Open ret \<Rightarrow> snd (open_device ret s) | Base_Close \<Rightarrow> snd (close_device s))"

definition holds_its_fds :: "base_state \<Rightarrow> bool" where
  "holds_its_fds = (\<lambda>(b, fds). fds = opened_fd (sb_data_fd b) + opened_fd (sb_dev_fd b))"


text \<open>A directory whose entries open with descriptors that are not negative.\<close>

definition dir_ok :: "dev_entry list option \<Rightarrow> bool" where
  "dir_ok dir \<longleftrightarrow> (case dir of None \<Rightarrow> True | Some des \<Rightarrow> list_all (\<lambda>de. case opens_as de of None \<Rightarrow> True | Some fd \<Rightarrow> 0 \<le> fd) des)"

lemma openInput_scan_ok:
  "list_all (\<lambda>de. case opens_as de of None \<Rightarrow> True | Some fd \<Rightarrow> 0 \<le> fd) des \<Longrightarrow> openInput_scan name des [] = (fd, fds)
     \<Longrightarrow> mset fds = opened_fd fd"
  by (induction des arbitrary: fd fds) (auto simp: opened_fd_def Let_def split: if_splits option.splits)

lemma openInput_ok: "dir_ok dir \<Longrightarrow> openInput name dir = (fd, fds) \<Longrightarrow> mset fds = opened_fd fd"
  by (cases dir) (auto simp: dir_ok_def openInput_def opened_fd_def dest: openInput_scan_ok)

lemma new_holds:
  assumes "dir_ok dir"
  shows "holds_its_fds (new_SensorBase dev data mot_data dir mot)"
proof (cases data)
  case (Some name)
  obtain fd fds where o: "openInput name dir = (fd, fds)" by force
  then show ?thesis using openInput_ok [OF assms o] Some by (simp add: new_SensorBase_def holds_its_fds_def opened_fd_def)
qed (simp add: new_SensorBase_def holds_its_fds_def opened_fd_def Let_def)

lemma step_holds: "holds_its_fds s \<Longrightarrow> holds_its_fds (base_step s c)"
  by (cases s; cases c) (auto simp: base_step_def open_device_def close_device_def holds_its_fds_def opened_fd_def)

text \<open>However often a driver's device is opened and closed, deleting the driver leaves no descriptor of it open.\<close>

theorem base_leaks_nothing:
  assumes "dir_ok dir"
  shows "delete_SensorBase (foldl base_step (new_SensorBase dev data mot_data dir mot) calls) = {#}"
proof -
  have "holds_its_fds s \<Longrightarrow> holds_its_fds (foldl base_step s calls)" for s by (induction calls arbitrary: s) (simp_all add: step_holds)
  from this [OF new_holds [OF assms]] show ?thesis by (auto simp: delete_SensorBase_def holds_its_fds_def case_prod_beta)
qed

theorem base_leaks_nothing_witness:
  "delete_SensorBase (foldl base_step (new_SensorBase (Some ''/dev/x'') None (Some ''/dev/y'') (Some []) 4) [Base_Open 7, Base_Open 8, Base_Close, Base_Open 9]) = {#}"
  by (rule base_leaks_nothing) (simp add: dir_ok_def)

end
