(* ===== verification/Qsap_Shim.thy ===== *)
theory Qsap_Shim
  imports Prelude
begin

text \<open>
  The shims that stand between vendor code and changed system libraries (\<open>libshims\<close>): the transmission power of the access
  point (\<open>libqsap_shim.c\<close>) and the functions that were given further arguments (\<open>gpu_mapper_shim.cpp\<close>,
  \<open>justshoot_shim.cpp\<close>). The functions of the libraries are parameters, and so are the constants of their headers.
\<close>

section \<open>The access point\<close>

text \<open>The names of the settings with their defaults, in the order of the library's enumeration.\<close>

definition qsap_str :: "(string \<times> string option) list" where
  "qsap_str =
     [(''wpa'', None), (''accept_mac_file'', None), (''deny_mac_file'', None), (''gAPMacAddr'', Some ''00deadbeef04''),
      (''gEnableApProt'', Some ''1''), (''gFixedRate'', Some ''0''), (''gTxPowerCap'', Some ''27''),
      (''gFragmentationThreshold'', Some ''2346''), (''RTSThreshold'', Some ''2347''), (''gAPCntryCode'', Some ''USI''),
      (''gDisableIntraBssFwd'', Some ''0''), (''WmmIsEnabled'', Some ''0''), (''g11dSupportEnabled'', Some ''1''),
      (''ieee80211n'', None), (''ctrl_interface'', None), (''interface'', None), (''eap_server'', None),
      (''gAPAutoShutOff'', Some ''0''), (''gEnablePhyAgcListenMode'', Some ''128'')]"

record qsap_env =
  STR_INTERFACE :: nat
  IFNAMSIZ :: nat
  eSUCCESS :: int
  eERR_GET_AUTO_CHAN :: int
  qsap_get_config_value :: "string \<times> string option \<Rightarrow> string option"

definition eERR_SET_TX_POWER :: "qsap_env \<Rightarrow> int" where
  "eERR_SET_TX_POWER E = eERR_GET_AUTO_CHAN E + 1"

datatype qsap_call = QSAP_SOCKET int | QSAP_IOCTL int string int | QSAP_CLOSE int

text \<open>\<open>sock\<close> and \<open>ret\<close> are what the system answers. The name is cut by \<open>strlcpy\<close>.\<close>

definition wifi_qsap_set_tx_power :: "qsap_env \<Rightarrow> int \<Rightarrow> int \<Rightarrow> int \<Rightarrow> int \<times> qsap_call list" where
  "wifi_qsap_set_tx_power E sock ret tx_power =
     (case qsap_get_config_value E (qsap_str ! STR_INTERFACE E) of
        None \<Rightarrow> (eERR_SET_TX_POWER E, [])
      | Some iface \<Rightarrow>
          if sock < 0 then (eERR_SET_TX_POWER E, [QSAP_SOCKET sock])
          else (if ret \<noteq> 0 then eERR_SET_TX_POWER E else eSUCCESS E,
                [QSAP_SOCKET sock, QSAP_IOCTL sock (take (IFNAMSIZ E - 1) iface) tx_power, QSAP_CLOSE sock]))"

text \<open>Where the library's code for success is not its code for this error, the call succeeds exactly when the interface is
  configured, a socket opens and the driver takes the power; and no socket stays open.\<close>

theorem tx_power_succeeds_iff:
  assumes "eSUCCESS E \<noteq> eERR_SET_TX_POWER E"
  shows "(fst (wifi_qsap_set_tx_power E sock ret p) = eSUCCESS E
      \<longleftrightarrow> qsap_get_config_value E (qsap_str ! STR_INTERFACE E) \<noteq> None \<and> 0 \<le> sock \<and> ret = 0)
    \<and> (QSAP_CLOSE sock \<in> set (snd (wifi_qsap_set_tx_power E sock ret p))
      \<longleftrightarrow> QSAP_SOCKET sock \<in> set (snd (wifi_qsap_set_tx_power E sock ret p)) \<and> 0 \<le> sock)"
  using assms by (auto simp: wifi_qsap_set_tx_power_def split: option.split)

definition soft_ap :: qsap_env where
  "soft_ap = \<lparr>STR_INTERFACE = 15, IFNAMSIZ = 16, eSUCCESS = 0, eERR_GET_AUTO_CHAN = - 30,
     qsap_get_config_value = (\<lambda>(name, dflt). if name = ''interface'' then Some ''wlan0'' else dflt)\<rparr>"

theorem tx_power_succeeds_iff_witness:
  "fst (wifi_qsap_set_tx_power soft_ap 4 0 20) = eSUCCESS soft_ap"
proof -
  have "eSUCCESS soft_ap \<noteq> eERR_SET_TX_POWER soft_ap" by (simp add: soft_ap_def eERR_SET_TX_POWER_def)
  from tx_power_succeeds_iff [OF this, of 4 0 20] show ?thesis by (simp add: soft_ap_def qsap_str_def)
qed

section \<open>Arguments passed on\<close>

text \<open>\<open>lock\<close> is the function of the library, which reports two more values to pointers that may be \<open>NULL\<close>.\<close>

definition GraphicBuffer_lock :: "(32 word \<Rightarrow> nat \<Rightarrow> nat option \<Rightarrow> nat option \<Rightarrow> 'a) \<Rightarrow> 32 word \<Rightarrow> nat \<Rightarrow> 'a" where
  "GraphicBuffer_lock lock inUsage vaddr = lock inUsage vaddr None None"

definition StopWatch :: "(string \<Rightarrow> int \<Rightarrow> 'a) \<Rightarrow> string \<Rightarrow> int \<Rightarrow> 32 word \<Rightarrow> 'a" where
  "StopWatch construct name clock flags = construct name clock"

end
