(* ===== verification/Spec2Isabelle.thy ===== *)
theory Spec2Isabelle
  imports Battery_Health Poll_Context Light_Service Vibrator_Service Key_Disabler Init_Props
    Motosh_Main Power_Board Power_Xml L4_Poll Tof_Poll Native_Props Hub_Algos Akm_Main Mixer
    Cap_Sense Endian Device_Base Qsap_Shim
begin

text \<open>
  Verification library for the native code of the Android device tree
  \<open>motorola/cedric\<close>. The tree configures an Android build and carries a set of independent
  native programs; the ones with logic of their own are modelled here, function by function, and
  their properties are proved about those definitions.

  \<^bold>\<open>Parts of the program and their theories\<close>

  \<^item> \<open>Prelude\<close>: error codes, the store of files and sysfs nodes (locale \<open>file_store\<close>),
    drivers that answer requests, list lemmas. \<open>C_Text\<close>: \<open>%d\<close> of \<open>sscanf\<close> and
    \<open>snprintf\<close>, with their round trip.

  \<^item> The sensors HAL of the \<open>stml0xx\<close> hub (\<open>hardware-moto-sensors/stml0xx_hal\<close>).
    The framework calls \<open>SensorHal.cpp\<close>, which forwards to the poll context
    (\<open>SensorsPollContext.cpp\<close>, theory \<open>Poll_Context\<close>). The context owns three drivers:
    the sensor hub (\<open>HubSensors.cpp\<close>) and two rear proximity sensors
    (\<open>RearProxSensor.cpp\<close>).
    \<open>Sensors_Types\<close> has the handles and events, \<open>Sensor_List\<close> the table of sensors
    (\<open>SensorList.cpp\<close>), \<open>Quaternions\<close> and \<open>Sensor_Fusion\<close> the fusion
    algorithms (\<open>Quaternion.cpp\<close>, \<open>GyroIntegration.cpp\<close>,
    \<open>GameRotationVector.cpp\<close>, \<open>LinearAccelGravity.cpp\<close>,
    \<open>GeoMagRotationVector.cpp\<close>, \<open>RotationVector.cpp\<close>).
    The hub driver is split over \<open>Hub_State\<close> (the record \<open>hub\<close> of its members and
    function-local statics, the constructor, the sampling rates), \<open>Hub_Enable\<close>
    (\<open>setEnable\<close>, \<open>setDelay\<close>, \<open>flush\<close> and their invariant),
    \<open>Hub_Control\<close> (properties of these), \<open>Hub_Events\<close> (\<open>readEvents\<close>, one
    definition per message type, crash reports, calibration files) and \<open>Hub_Stream\<close>
    (properties of the event stream).
    \<open>Input_Reader\<close> is the ring buffer of input events (\<open>InputEventReader.cpp\<close>, locale
    \<open>event_queue\<close>), \<open>Input_Drivers\<close> the rear proximity and cap sensor drivers with
    the part of \<open>SensorBase.cpp\<close> they use, \<open>Device_Base\<close> the rest of that class.

  \<^item> The HAL of the L4 hub (\<open>hardware-moto-sensors/motosh_hal\<close>): \<open>L4_Types\<close> (handles and table,
    \<open>SensorList.cpp\<close>), \<open>L4_State\<close> (the record \<open>l4_hub\<close> of \<open>HubSensors.h\<close>, the
    constructor and the rates of compass and gyroscope), \<open>L4_Enable\<close> (\<open>setEnable\<close>,
    \<open>batch\<close>, \<open>flush\<close>), \<open>L4_Control\<close> (properties of these), \<open>L4_Events\<close>
    (\<open>readEvents\<close> and its queue), \<open>L4_Stream\<close> (the stream of events, the invariant over
    calls). \<open>Laser_Prox\<close> is its laser sensor (\<open>RearProxSensor.cpp\<close>, the same code in
    \<open>vl53l0_hal\<close>), \<open>L4_Poll\<close> the two in the poll context.

  \<^item> The HAL of the ranging sensor (\<open>hardware-moto-sensors/tof_hal\<close>): \<open>Tof_Prox\<close>
    (\<open>RearProxSensor.cpp\<close>) and \<open>Tof_Poll\<close>. These HALs share \<open>Base_Hal\<close>
    (\<open>BaseHal.h\<close>, both variants of \<open>SensorsPollContext.cpp\<close>; drivers as states with a
    table of virtual functions, locale \<open>base_driver\<close>) and \<open>Event_Loop\<close> (the loop of
    \<open>readEvents\<close> over the reader, locale \<open>emitter\<close>).

  \<^item> The generic sysfs HAL (\<open>hardware-moto-sensors/rearProx\<close>): \<open>Native_Driver\<close> (its two
    drivers and their base class), \<open>Native_Manager\<close> (the search for sensors in sysfs and the making
    of the contexts, \<open>NativeSensorManager.cpp\<close>), \<open>Native_Calls\<close> (the calls of the
    framework, listeners and dependencies, the poll loop of \<open>sensors.cpp\<close>) and \<open>Native_Props\<close>.

  \<^item> The module of the algorithms on the hub (\<open>sensorhub.c\<close> of both hub HALs): \<open>Hub_Algos\<close>.

  \<^item> The compass daemon (\<open>hardware-moto-sensors/ak09912_akmd_6D_32b\<close>): \<open>Akm_Files\<close> (the
    parameters of \<open>AKCompass.h\<close> and the files they are kept in, \<open>FileIO.c\<close>), \<open>Akm_Device\<close> (the
    driver, \<open>AKMD_Driver.c\<close> and \<open>Acc_aot.c\<close>, the factory test, \<open>FST_AK09912.c\<close>, and
    \<open>misc.c\<close>), \<open>Akm_Measure\<close> (\<open>Measure.c\<close>), \<open>Akm_Props\<close> (its properties) and \<open>Akm_Main\<close>
    (\<open>main.c\<close>, daemon and console mode). The calibration library is closed: its functions are the
    record \<open>smart_compass\<close>, of which nothing is assumed.

  \<^item> The firmware flasher of the hub (\<open>hardware-moto-sensors/motosh_bin/motosh.cpp\<close> and
    \<open>CRC32.c\<close>, built for \<open>stml0xx\<close>) on top of the register library
    (\<open>hardware-moto-sensors/libsensorhub\<close>): \<open>Crc32\<close>, \<open>Sensor_Hub\<close>, \<open>Endian\<close> (the byte order helpers),
    \<open>Flash_Loader\<close> (firmware files, blacklist, versions, download) and
    \<open>Motosh_Main\<close> (the command line).

  \<^item> \<open>Mixer\<close>: the sound controls of the audio shim (\<open>libshims/mixer.c\<close>). \<open>Cap_Sense\<close>: the
    listener that resets the capacitive sensor (\<open>capsensor/capsense.cpp\<close>), and its calibration and
    flash in the flasher of the other hub. \<open>Qsap_Shim\<close>: the other shims of \<open>libshims\<close>.

  \<^item> HIDL services and init: \<open>Battery_Health\<close> (\<open>health/*.cpp\<close>),
    \<open>Light_Service\<close> (\<open>light/Light.cpp\<close>), \<open>Vibrator_Service\<close>
    (\<open>vibrator/*.cpp\<close>), \<open>Key_Disabler\<close> (\<open>touch/KeyDisabler.cpp\<close>),
    \<open>Init_Props\<close> (\<open>init/init_cedric.cpp\<close>).

  \<^item> The power HAL (\<open>power\<close>). The service \<open>Power.cpp\<close> calls the common hints
    (\<open>power-common.c\<close>), which call the overrides of the board (\<open>power-8953.c\<close>, theory
    \<open>Power_Board\<close>); these keep the locks of the vendor's perf library in a linked list
    (\<open>utils.c\<close>, \<open>hint-data.c\<close>: \<open>Power_Hints\<close>; \<open>list.c\<close> over an explicit heap:
    \<open>Power_List\<close>) and parse the metadata of video hints (\<open>metadata-parser.c\<close>: \<open>Power_Metadata\<close>).
    \<open>Power_Xml\<close> is the table of hints read from the board's file (\<open>powerhintparser.c\<close>).

  \<^bold>\<open>How code is represented\<close>

  A class is a record of its members and of the static variables of its functions; an operation
  takes the state and returns its result and the new state. Integers whose width matters are words
  of that width, others are \<open>int\<close> or \<open>nat\<close>. A call of the operating system is either an
  operation on a store of files or a request appended to a trace; what a device answers is a
  function of the trace, given as a parameter. Floating point is a record of operations: the
  definitions apply to any implementation, and theorems about geometry instantiate it with exact
  real arithmetic. Constants of kernel and Android headers that are not in the tree are fields of an
  environment (\<open>hub_env\<close> of \<open>Hub_State\<close>, \<open>hub_env\<close> of \<open>Sensor_Hub\<close>)
  or constructors. Library functions of Android (\<open>Trim\<close>, \<open>property_set\<close>) are
  parameters with their documented behaviour as a named hypothesis (\<open>trims\<close>,
  \<open>sets_properties\<close>). Accesses outside a buffer are the value \<open>None\<close> in
  \<open>Motosh_Main\<close>; in \<open>readEvents\<close> the list of events may be longer than the buffer,
  and the properties say when it is.

  \<^bold>\<open>What the groups of lemmas show\<close>

  \<^item> Hub control: \<open>setEnable\<close> refines adding and removing a handle from a set; the masks
    last sent to the device and the fusion table always follow from that set (\<open>hub_inv\<close>); the
    requested rates are within limits and serve every enabled sensor; the clamping of periods; the
    errors \<open>setDelay\<close> loses; when fusion algorithms restart.
  \<^item> Hub events: bounds of \<open>readEvents\<close> against the buffer (and the one case that exceeds
    it), preservation of the invariant, one-shot sensors, monotone step counts, the missing
    \<open>break\<close> after a glance, saved calibration, crash reports.
  \<^item> Input: the ring buffer is a bounded queue; the reports of a driver depend only on the whole
    stream of input events, not on how reads cut it.
  \<^item> Poll: every driver meets the contract \<open>sensor_driver\<close>; \<open>pollEvents\<close> fits its
    buffer; the poll of the module ends when there is room for four events and a message, and
    does not for smaller buffers.
  \<^item> L4 hub: the masks last sent follow the set of enabled handles over any calls and reads (the bit of
    motion detection, which two sensors move, has a rule of its own);
    the reads lose and reorder nothing however they are cut; what an error of \<open>read\<close>, the missing
    \<open>break\<close> after the moto glance and the 16-bit periods do. Its poll loop fits the buffer but
    drops the hub's events when the laser sensor is ready without a report.
  \<^item> Laser and ranging sensor: both drivers are emitters, so the loop ends, fits and depends only on
    the stream; the reports of the ranging sensor are the changes of a debounced decision; its state
    stays well formed; what a configuration that cannot be written and a failed search do.
  \<^item> Generic sysfs HAL: no call follows a null pointer when all sensors are of the known types, and one
    of another type brings it down; one completion per flush and none for other calls; the periods agreed on by listeners; events
    that wait in a reader; the narrowing of \<open>batch\<close>; attributes without a newline.
  \<^item> Hub algorithms: for requests within the module's tables (the numbers of the interface lie outside)
    the mask last sent follows the parts wanted; a refused mask is never made up for; the bytes of a request; signs of reports.
  \<^item> Compass daemon: saved settings are read back and a restart resumes from them; what a cut file leaves
    behind; which measurements replace the saved values, what they keep while suspended or after an error;
    the flags word of the reports; the verdict of the factory test and the array it overruns; the retries
    that never happen; layouts, times and intervals.
  \<^item> Mixer: every list of names is complete however opening and updates fail; an update is a new
    opening; values set are read back, percentages are not; what a name clears; the descriptor closed.
    Capacitive sensor: one reset for each headset message; when it is enabled; the checksum found.
  \<^item> Byte order: numbers are read back from their bytes in either order. Base class: no descriptor leaks.
  \<^item> Fusion: the permutation sort is correct; normalization, product, interpolation of quaternions.
  \<^item> Flasher: table CRC equals bitwise CRC; packets are the padded file; download order and retry
    count; version match; version round trip; blacklist; bounds of the passthrough command.
  \<^item> Services: saved battery counters survive a power loss and are merged by maximum; brightness and
    the shared LED; vibration strength and order; key disabler round trip; boot properties.
  \<^item> Power: the heap list refines a stack of entries; hints performed and undone; the counted hints
    refine a counter of clients; encoders share one boost and an unmatched end loses it; metadata round
    trip; the table of hints stays in bounds and holds what the document says.

  \<^bold>\<open>Bounds and fuel\<close>

  The drain loop of an input driver gets one more unit of fuel than the reader can hold events,
  each turn consumes one event, so it never runs out (the contract of the driver says it always
  answers). The rounds of the module's poll are given as a list of what the system answers in each
  round; running off its end means that the poll blocks, and the liveness properties say when it
  does not. The measurement loop of the compass daemon gets the number of turns until it is stopped.
  All other recursions are structural or have a measure; the retry loop of
  \<open>ioctl\<close> ends after one round because error numbers are not negative.

  \<^bold>\<open>Not modelled\<close>

  The overrides of the power HAL for another board (\<open>power-msmnile.c\<close>), the mains of the services, which only register an
  interface, the wrapper of the system clock in \<open>utils\<close>, and the Java application \<open>LineageActions\<close>. Within the
  components: log output and help texts, destructors, the opening of the HAL modules, and the code that
  the build disables.
\<close>

end
